(* ===== verification/Prelude.thy ===== *)
theory Prelude
  imports Complex_Main "HOL-Library.Char_ord" "HOL-Library.List_Lexorder" "HOL-Library.Sublist"
begin

text \<open>
  What every component shares: the exceptions of the Python services as values, the
  sequencing of fallible and of stateful steps, Python's string and path operations on
  \<open>string\<close>, and insertion-ordered dictionaries as association lists.

  Conventions. A function that may raise returns \<open>exc + 'a\<close>, with \<open>Inl\<close> for the exception.
  A handler that changes state before it may raise has type \<open>('s, 'a) sx\<close>: it returns the
  outcome together with the state it leaves behind, also when it raises. A Python string is a
  \<open>string\<close>; the services' identifiers, paths and keys are ASCII. Floats are exact
  rationals (\<open>rat\<close>): rounding of IEEE doubles is not modelled. Messages that the source
  writes in Chinese are given in English.
\<close>

section \<open>Exceptions and sequencing\<close>

datatype exc =
    HTTPException nat string
  | ValueError string
  | WorkspacePathError string
  | KeyError string
  | IndexError string
  | TypeError string
  | AttributeError string
  | RuntimeError string
  | IntegrityError string
  | FileNotFoundError string
  | FileExistsError string
  | OSError string
  | SandboxError string
  | SandboxOwnershipError string
  | SandboxNotReadyError string
  | DockerException string
  | DockerAPIError string
  | HTTPError string
  | CancelledError

text \<open>\<open>WorkspacePathError\<close> is declared as a subclass of \<open>ValueError\<close>, and the file
  errors are subclasses of \<open>OSError\<close>, the sandbox errors of \<open>SandboxError\<close>, Docker's
  \<open>APIError\<close> of \<open>DockerException\<close>; an \<open>except\<close> clause matches subclasses.\<close>

fun is_value_error :: "exc \<Rightarrow> bool" where
  "is_value_error (ValueError _) = True"
| "is_value_error (WorkspacePathError _) = True"
| "is_value_error _ = False"

fun is_os_error :: "exc \<Rightarrow> bool" where
  "is_os_error (OSError _) = True"
| "is_os_error (FileNotFoundError _) = True"
| "is_os_error (FileExistsError _) = True"
| "is_os_error _ = False"

fun is_sandbox_error :: "exc \<Rightarrow> bool" where
  "is_sandbox_error (SandboxError _) = True"
| "is_sandbox_error (SandboxOwnershipError _) = True"
| "is_sandbox_error (SandboxNotReadyError _) = True"
| "is_sandbox_error _ = False"

text \<open>\<open>str(exc)\<close>, without the quotes that \<open>KeyError\<close> adds.\<close>

fun exc_text :: "exc \<Rightarrow> string" where
  "exc_text (SandboxError m) = m" | "exc_text (SandboxOwnershipError m) = m" | "exc_text (SandboxNotReadyError m) = m"
| "exc_text (ValueError m) = m" | "exc_text (WorkspacePathError m) = m" | "exc_text (KeyError m) = m" | "exc_text (HTTPError m) = m"
| "exc_text _ = []"

fun is_docker_exception :: "exc \<Rightarrow> bool" where
  "is_docker_exception (DockerException _) = True"
| "is_docker_exception (DockerAPIError _) = True"
| "is_docker_exception _ = False"

fun is_api_error :: "exc \<Rightarrow> bool" where
  "is_api_error (DockerAPIError _) = True"
| "is_api_error _ = False"

fun is_not_ready :: "exc \<Rightarrow> bool" where
  "is_not_ready (SandboxNotReadyError _) = True"
| "is_not_ready _ = False"

type_synonym 'a res = "exc + 'a"

named_theorems exc_simps \<open>rewriting of sequenced fallible steps\<close>
named_theorems exc_splits \<open>case splits of sequenced fallible steps\<close>

definition ebind :: "'a res \<Rightarrow> ('a \<Rightarrow> 'b res) \<Rightarrow> 'b res" where
  "ebind m f = (case m of Inl e \<Rightarrow> Inl e | Inr x \<Rightarrow> f x)"

definition raise_if :: "bool \<Rightarrow> exc \<Rightarrow> unit res" where
  "raise_if c e = (if c then Inl e else Inr ())"

lemma ebind_Inl [simp]: "ebind (Inl e) f = Inl e"
  by (simp add: ebind_def)

lemma ebind_Inr [simp]: "ebind (Inr x) f = f x"
  by (simp add: ebind_def)

lemma ebind_eq_Inr [exc_simps]: "ebind m f = Inr y \<longleftrightarrow> (\<exists>x. m = Inr x \<and> f x = Inr y)"
  by (cases m) auto

lemma ebind_eq_Inl [exc_simps]:
  "ebind m f = Inl e \<longleftrightarrow> m = Inl e \<or> (\<exists>x. m = Inr x \<and> f x = Inl e)"
  by (cases m) auto

lemma raise_if_eq_Inr [simp]: "raise_if c e = Inr u \<longleftrightarrow> \<not> c"
  by (simp add: raise_if_def)

lemma raise_if_eq_Inl [simp]: "raise_if c e = Inl e' \<longleftrightarrow> c \<and> e = e'"
  by (simp add: raise_if_def)

lemma raise_if_cases [simp]: "raise_if True e = Inl e" "raise_if False e = Inr ()"
  by (simp_all add: raise_if_def)

lemma ebind_cong [fundef_cong]:
  "m = m' \<Longrightarrow> (\<And>x. m' = Inr x \<Longrightarrow> f x = f' x) \<Longrightarrow> ebind m f = ebind m' f'"
  by (cases m') auto

text \<open>A list comprehension or loop whose body may raise: the first exception wins.\<close>

fun emap :: "('a \<Rightarrow> 'b res) \<Rightarrow> 'a list \<Rightarrow> 'b list res" where
  "emap f [] = Inr []"
| "emap f (x # xs) = ebind (f x) (\<lambda>y. ebind (emap f xs) (\<lambda>ys. Inr (y # ys)))"

lemma emap_Inr_iff: "emap f xs = Inr ys \<longleftrightarrow> list_all2 (\<lambda>x y. f x = Inr y) xs ys"
  by (induction xs arbitrary: ys) (auto simp: exc_simps list_all2_Cons1)

lemma emap_length: "emap f xs = Inr ys \<Longrightarrow> length ys = length xs"
  by (simp add: emap_Inr_iff list_all2_lengthD)

lemma emap_cong [fundef_cong]:
  "xs = ys \<Longrightarrow> (\<And>x. x \<in> set ys \<Longrightarrow> f x = g x) \<Longrightarrow> emap f xs = emap g ys"
proof (induction ys arbitrary: xs)
  case Nil
  then show ?case by simp
next
  case (Cons y ys)
  then have "f y = g y" "emap f ys = emap g ys" by auto
  with Cons.prems(1) show ?case by simp
qed

lemma emap_map_inverse:
  "(\<And>x. x \<in> set xs \<Longrightarrow> f (h x) = Inr x) \<Longrightarrow> emap f (map h xs) = Inr xs"
  by (induction xs) auto

fun efold :: "('a \<Rightarrow> 'b \<Rightarrow> 'b res) \<Rightarrow> 'a list \<Rightarrow> 'b \<Rightarrow> 'b res" where
  "efold f [] s = Inr s"
| "efold f (x # xs) s = ebind (f x s) (efold f xs)"

lemma efold_invariant:
  assumes "efold f xs s = Inr t" and "P s"
    and "\<And>x u v. x \<in> set xs \<Longrightarrow> P u \<Longrightarrow> f x u = Inr v \<Longrightarrow> P v"
  shows "P t"
  using assms
proof (induction xs arbitrary: s)
  case Nil
  then show ?case by simp
next
  case (Cons x xs)
  from Cons.prems(1) obtain u where u: "f x s = Inr u" "efold f xs u = Inr t"
    by (auto simp: exc_simps)
  have "P u" by (rule Cons.prems(3) [OF _ Cons.prems(2) u(1)]) simp
  then show ?case
    by (rule Cons.IH [OF u(2)]) (use Cons.prems(3) in \<open>auto intro: list.set_intros\<close>)
qed

section \<open>Steps that keep their state when they raise\<close>

type_synonym ('s, 'a) sx = "'s \<Rightarrow> 'a res \<times> 's"

definition sx_return :: "'a \<Rightarrow> ('s, 'a) sx" where
  "sx_return x = (\<lambda>s. (Inr x, s))"

definition sx_raise :: "exc \<Rightarrow> ('s, 'a) sx" where
  "sx_raise e = (\<lambda>s. (Inl e, s))"

definition sx_bind :: "('s, 'a) sx \<Rightarrow> ('a \<Rightarrow> ('s, 'b) sx) \<Rightarrow> ('s, 'b) sx" where
  "sx_bind m f = (\<lambda>s. case m s of (Inl e, t) \<Rightarrow> (Inl e, t) | (Inr x, t) \<Rightarrow> f x t)"

definition sx_modify :: "('s \<Rightarrow> 's) \<Rightarrow> ('s, unit) sx" where
  "sx_modify f = (\<lambda>s. (Inr (), f s))"

definition sx_lift :: "('s \<Rightarrow> 'a res) \<Rightarrow> ('s, 'a) sx" where
  "sx_lift f = (\<lambda>s. (f s, s))"

lemmas sx_defs = sx_return_def sx_raise_def sx_bind_def sx_modify_def sx_lift_def

text \<open>A database transaction: an exception rolls the state back.\<close>

definition atomically :: "('s \<Rightarrow> ('a \<times> 's) res) \<Rightarrow> ('s, 'a) sx" where
  "atomically t = (\<lambda>s. case t s of Inl e \<Rightarrow> (Inl e, s) | Inr (x, s') \<Rightarrow> (Inr x, s'))"

lemma atomically_Inr: "atomically t s = (Inr x, s') \<longleftrightarrow> t s = Inr (x, s')"
  by (auto simp: atomically_def split: sum.splits prod.splits)

lemma atomically_Inl: "atomically t s = (Inl e, s') \<longleftrightarrow> t s = Inl e \<and> s' = s"
  by (auto simp: atomically_def split: sum.splits prod.splits)

lemma atomically_preserves:
  "P s \<Longrightarrow> (\<And>x s'. t s = Inr (x, s') \<Longrightarrow> P s') \<Longrightarrow> P (snd (atomically t s))"
  by (auto simp: atomically_def split: sum.splits prod.splits)

section \<open>Dictionaries in insertion order\<close>

type_synonym ('k, 'v) dict = "('k \<times> 'v) list"

text \<open>\<open>d[k] = v\<close>: an existing key keeps its place, a new one goes last.\<close>

fun dput :: "'k \<Rightarrow> 'v \<Rightarrow> ('k, 'v) dict \<Rightarrow> ('k, 'v) dict" where
  "dput k v [] = [(k, v)]"
| "dput k v ((k', v') # d) = (if k = k' then (k, v) # d else (k', v') # dput k v d)"

definition dpop :: "'k \<Rightarrow> ('k, 'v) dict \<Rightarrow> ('k, 'v) dict" where
  "dpop k d = filter (\<lambda>p. fst p \<noteq> k) d"

definition dupdate :: "('k, 'v) dict \<Rightarrow> ('k, 'v) dict \<Rightarrow> ('k, 'v) dict" where
  "dupdate d u = fold (\<lambda>(k, v). dput k v) u d"

definition dkeys :: "('k, 'v) dict \<Rightarrow> 'k list" where
  "dkeys d = map fst d"

definition dget :: "('k, 'v) dict \<Rightarrow> 'k \<Rightarrow> 'v \<Rightarrow> 'v" where
  "dget d k dflt = (case map_of d k of None \<Rightarrow> dflt | Some v \<Rightarrow> v)"

lemma map_of_dput [simp]: "map_of (dput k v d) = (map_of d)(k \<mapsto> v)"
  by (induction k v d rule: dput.induct) auto

lemma map_of_dpop [simp]: "map_of (dpop k d) = (map_of d)(k := None)"
  by (induction d) (auto simp: dpop_def)

lemma set_fst_dput [simp]: "fst ` set (dput k v d) = insert k (fst ` set d)"
  by (induction k v d rule: dput.induct) auto

lemma distinct_dput [simp]: "distinct (map fst (dput k v d)) = distinct (map fst d)"
proof (induction d)
  case Nil
  then show ?case by simp
next
  case (Cons p d)
  have "set (map fst (dput k v d)) = insert k (set (map fst d))" using set_fst_dput by simp
  then show ?case using Cons by (cases p) (auto simp del: set_map)
qed

lemma distinct_dpop: "distinct (map fst d) \<Longrightarrow> distinct (map fst (dpop k d))"
  unfolding dpop_def by (rule distinct_map_filter)

lemma dput_new: "k \<notin> fst ` set d \<Longrightarrow> dput k v d = d @ [(k, v)]"
  by (induction k v d rule: dput.induct) auto

lemma dput_same: "map_of d k = Some v \<Longrightarrow> distinct (map fst d) \<Longrightarrow> dput k v d = d"
  by (induction d) (auto split: if_splits)

lemma length_dput: "length (dput k v d) = (if k \<in> fst ` set d then length d else Suc (length d))"
  by (induction k v d rule: dput.induct) auto

lemma map_of_dupdate: "map_of (dupdate d u) = map_of d ++ map_of (rev u)"
proof (induction u arbitrary: d)
  case Nil
  then show ?case by (simp add: dupdate_def)
next
  case (Cons p u)
  then show ?case
    by (cases p) (simp add: dupdate_def map_add_def fun_eq_iff split: option.split)
qed

lemma dget_dput [simp]: "dget (dput k v d) k' x = (if k = k' then v else dget d k' x)"
  by (simp add: dget_def)

lemma dget_Nil [simp]: "dget [] k x = x"
  by (simp add: dget_def)

end
