(* ===== verification/PyText.thy ===== *)
theory PyText
  imports Prelude
begin

text \<open>
  Python's text operations as the services use them: \<open>str.split\<close>, \<open>join\<close>,
  \<open>strip\<close>, \<open>partition\<close>, character classes of the identifier patterns,
  \<open>pathlib.PurePosixPath\<close> and \<open>urllib.parse.urlsplit\<close>. The standard library is
  modelled for ASCII text; the validity of an IPv6 literal inside brackets is not checked.
\<close>

section \<open>Characters\<close>

definition is_lower :: "char \<Rightarrow> bool" where
  "is_lower c \<longleftrightarrow> CHR ''a'' \<le> c \<and> c \<le> CHR ''z''"

definition is_upper :: "char \<Rightarrow> bool" where
  "is_upper c \<longleftrightarrow> CHR ''A'' \<le> c \<and> c \<le> CHR ''Z''"

definition is_digit :: "char \<Rightarrow> bool" where
  "is_digit c \<longleftrightarrow> CHR ''0'' \<le> c \<and> c \<le> CHR ''9''"

definition is_alpha :: "char \<Rightarrow> bool" where
  "is_alpha c \<longleftrightarrow> is_lower c \<or> is_upper c"

definition is_alnum :: "char \<Rightarrow> bool" where
  "is_alnum c \<longleftrightarrow> is_alpha c \<or> is_digit c"

definition is_space :: "char \<Rightarrow> bool" where
  "is_space c \<longleftrightarrow> c = CHR '' '' \<or> (of_char c :: nat) \<in> {9..13} \<or> (of_char c :: nat) \<in> {28..31}"

definition to_lower :: "char \<Rightarrow> char" where
  "to_lower c = (if is_upper c then char_of (of_char c + 32 :: nat) else c)"

definition lower :: "string \<Rightarrow> string" where
  "lower s = map to_lower s"

lemmas char_class_defs = is_lower_def is_upper_def is_digit_def is_alpha_def is_alnum_def

lemma not_alnum_special [simp]:
  "\<not> is_alnum (CHR ''.'')" "\<not> is_alnum (CHR ''/'')" "\<not> is_alnum (CHR '':'')"
  "\<not> is_alnum (CHR ''-'')" "\<not> is_alnum (CHR ''_'')" "\<not> is_alnum (CHR 0x5C)"
  "\<not> is_alnum (CHR 0x00)" "\<not> is_alnum (CHR 0x0A)"
  by (simp_all add: char_class_defs)

section \<open>Splitting and joining\<close>

fun split_on :: "char \<Rightarrow> string \<Rightarrow> string list" where
  "split_on c [] = [[]]"
| "split_on c (x # xs) =
     (if x = c then [] # split_on c xs
      else (case split_on c xs of [] \<Rightarrow> [[x]] | p # ps \<Rightarrow> (x # p) # ps))"

fun join_with :: "string \<Rightarrow> string list \<Rightarrow> string" where
  "join_with sep [] = []"
| "join_with sep [p] = p"
| "join_with sep (p # q # ps) = p @ sep @ join_with sep (q # ps)"

fun partition_at :: "char \<Rightarrow> string \<Rightarrow> string \<times> bool \<times> string" where
  "partition_at c [] = ([], False, [])"
| "partition_at c (x # xs) =
     (if x = c then ([], True, xs)
      else (case partition_at c xs of (a, f, b) \<Rightarrow> (x # a, f, b)))"

definition rpartition_at :: "char \<Rightarrow> string \<Rightarrow> string \<times> bool \<times> string" where
  "rpartition_at c s =
     (case partition_at c (rev s) of (a, f, b) \<Rightarrow> if f then (rev b, True, rev a) else ([], False, s))"

definition strip :: "string \<Rightarrow> string" where
  "strip s = rev (dropWhile is_space (rev (dropWhile is_space s)))"

definition starts_with :: "string \<Rightarrow> string \<Rightarrow> bool" where
  "starts_with s p \<longleftrightarrow> prefix p s"

definition ends_with :: "string \<Rightarrow> string \<Rightarrow> bool" where
  "ends_with s p \<longleftrightarrow> prefix (rev p) (rev s)"

lemma split_on_nonempty [simp]: "split_on c s \<noteq> []"
  by (induction s) (auto split: list.splits)

lemma split_on_no_sep: "p \<in> set (split_on c s) \<Longrightarrow> c \<notin> set p"
proof (induction s arbitrary: p)
  case Nil
  then show ?case by simp
next
  case (Cons x s)
  then show ?case by (cases "split_on c s") (auto split: if_splits)
qed

lemma split_on_chars: "p \<in> set (split_on c s) \<Longrightarrow> set p \<subseteq> set s"
proof (induction s arbitrary: p)
  case Nil
  then show ?case by simp
next
  case (Cons x s)
  obtain q qs where q: "split_on c s = q # qs" by (cases "split_on c s") auto
  from Cons.prems q have "p = [] \<or> p \<in> set (split_on c s) \<or> p = x # q"
    by (auto split: if_splits)
  moreover have "set q \<subseteq> set s" using Cons.IH [of q] q by simp
  ultimately show ?case using Cons.IH [of p] by auto
qed

lemma split_on_atom: "c \<notin> set s \<Longrightarrow> split_on c s = [s]"
  by (induction s) auto

lemma split_on_append:
  "c \<notin> set p \<Longrightarrow> split_on c (p @ c # s) = p # split_on c s"
  by (induction p) auto

lemma split_join:
  "ps \<noteq> [] \<Longrightarrow> (\<And>p. p \<in> set ps \<Longrightarrow> c \<notin> set p) \<Longrightarrow> split_on c (join_with [c] ps) = ps"
proof (induction ps rule: list_nonempty_induct)
  case (single p)
  then show ?case by (simp add: split_on_atom)
next
  case (cons p ps)
  obtain q qs where ps: "ps = q # qs" using cons.hyps by (cases ps) auto
  have "split_on c (join_with [c] (p # ps)) = p # split_on c (join_with [c] ps)"
    using cons.prems ps by (simp add: split_on_append)
  with cons show ?case by simp
qed

lemma join_split: "join_with [c] (split_on c s) = s"
proof (induction s)
  case Nil
  then show ?case by simp
next
  case (Cons x s)
  obtain q qs where q: "split_on c s = q # qs" by (cases "split_on c s") auto
  with Cons show ?case by (cases qs) auto
qed

lemma join_with_chars:
  "x \<in> set (join_with sep ps) \<Longrightarrow> x \<in> set sep \<or> (\<exists>p\<in>set ps. x \<in> set p)"
  by (induction sep ps rule: join_with.induct) auto

lemma join_with_eq_Nil:
  "(\<And>p. p \<in> set ps \<Longrightarrow> p \<noteq> []) \<Longrightarrow> join_with sep ps = [] \<longleftrightarrow> ps = []"
  by (induction sep ps rule: join_with.induct) auto

lemma join_with_head:
  "ps \<noteq> [] \<Longrightarrow> hd ps \<noteq> [] \<Longrightarrow> join_with sep ps \<noteq> [] \<and> hd (join_with sep ps) = hd (hd ps)"
  by (induction sep ps rule: join_with.induct) auto

text \<open>\<open>str(n)\<close> of a natural number, and \<open>int(s)\<close> back.\<close>

fun dec_nat :: "nat \<Rightarrow> string" where
  "dec_nat n = (if n < 10 then [char_of (48 + n)] else dec_nat (n div 10) @ [char_of (48 + n mod 10)])"

declare dec_nat.simps [simp del]

definition nat_of_dec :: "string \<Rightarrow> nat" where
  "nat_of_dec s = foldl (\<lambda>a c. 10 * a + (of_char c - 48)) 0 s"

lemma nat_of_dec_nat [simp]: "nat_of_dec (dec_nat n) = n"
proof (induction n rule: dec_nat.induct)
  case (1 n)
  show ?case
  proof (cases "n < 10")
    case True
    then show ?thesis by (simp add: dec_nat.simps [of n] nat_of_dec_def of_char_of)
  next
    case False
    then have "nat_of_dec (dec_nat n) = 10 * nat_of_dec (dec_nat (n div 10)) + n mod 10"
      by (simp add: dec_nat.simps [of n] nat_of_dec_def of_char_of)
    with False 1 show ?thesis by simp
  qed
qed

lemma dec_nat_inject [simp]: "dec_nat m = dec_nat n \<longleftrightarrow> m = n"
  by (metis nat_of_dec_nat)

lemma dec_nat_digits: "c \<in> set (dec_nat n) \<Longrightarrow> is_digit c"
proof (induction n rule: dec_nat.induct)
  case (1 n)
  have d: "is_digit (char_of (48 + k :: nat))" if "k < 10" for k
    using that by (simp add: is_digit_def less_eq_char_def of_char_of)
  show ?case
  proof (cases "n < 10")
    case True
    with "1.prems" d show ?thesis by (simp add: dec_nat.simps [of n])
  next
    case False
    with "1" d [of "n mod 10"] show ?thesis by (auto simp: dec_nat.simps [of n])
  qed
qed

section \<open>Pure POSIX paths\<close>

definition posix_root :: "string \<Rightarrow> string" where
  "posix_root s =
     (if starts_with s ''//'' \<and> \<not> starts_with s ''///'' then ''//''
      else if starts_with s ''/'' then ''/'' else [])"

text \<open>The components of a path below its root: empty and \<open>.\<close> components are dropped.\<close>

definition posix_tail :: "string \<Rightarrow> string list" where
  "posix_tail s = filter (\<lambda>p. p \<noteq> [] \<and> p \<noteq> ''.'') (split_on (CHR ''/'') s)"

definition posix_parts :: "string \<Rightarrow> string list" where
  "posix_parts s = (if posix_root s = [] then posix_tail s else posix_root s # posix_tail s)"

definition as_posix :: "string \<Rightarrow> string" where
  "as_posix s =
     (if posix_parts s = [] then ''.'' else posix_root s @ join_with ''/'' (posix_tail s))"

definition path_is_relative_to :: "string \<Rightarrow> string \<Rightarrow> bool" where
  "path_is_relative_to s base \<longleftrightarrow> prefix (posix_parts base) (posix_parts s)"

definition path_name :: "string \<Rightarrow> string" where
  "path_name s = (if posix_tail s = [] then [] else last (posix_tail s))"

lemmas posix_path_defs =
  posix_root_def posix_tail_def posix_parts_def as_posix_def path_name_def starts_with_def

lemma posix_tail_component:
  "p \<in> set (posix_tail s) \<Longrightarrow> p \<noteq> [] \<and> p \<noteq> ''.'' \<and> CHR ''/'' \<notin> set p \<and> set p \<subseteq> set s"
  by (auto simp: posix_tail_def dest: split_on_no_sep split_on_chars)

lemma posix_tail_join:
  assumes "\<And>p. p \<in> set ps \<Longrightarrow> p \<noteq> [] \<and> p \<noteq> ''.'' \<and> CHR ''/'' \<notin> set p"
  shows "posix_tail (join_with ''/'' ps) = ps"
proof (cases "ps = []")
  case True
  then show ?thesis by (simp add: posix_tail_def)
next
  case False
  with assms have "split_on (CHR ''/'') (join_with ''/'' ps) = ps"
    by (intro split_join) auto
  with assms show ?thesis by (simp add: posix_tail_def filter_id_conv)
qed

section \<open>URLs\<close>

record url =
  url_scheme :: string
  url_netloc :: string
  url_rest :: string
  url_query :: string
  url_fragment :: string

definition scheme_char :: "char \<Rightarrow> bool" where
  "scheme_char c \<longleftrightarrow> is_alnum c \<or> c \<in> {CHR ''+'', CHR ''-'', CHR ''.''}"

definition c0_or_space :: "char \<Rightarrow> bool" where
  "c0_or_space c \<longleftrightarrow> (of_char c :: nat) \<le> 32"

definition urlsplit :: "string \<Rightarrow> url res" where
  "urlsplit s =
    (let u0 = filter (\<lambda>c. c \<notin> {CHR 0x09, CHR 0x0A, CHR 0x0D}) (dropWhile c0_or_space s);
         (before, has_colon, after) = partition_at (CHR '':'') u0;
         has_scheme = (has_colon \<and> before \<noteq> [] \<and> is_alpha (hd before) \<and> list_all scheme_char before);
         scheme = (if has_scheme then lower before else []);
         u1 = (if has_scheme then after else u0);
         has_netloc = starts_with u1 ''//'';
         netloc = (if has_netloc
                   then takeWhile (\<lambda>c. c \<notin> {CHR ''/'', CHR ''?'', CHR ''#''}) (drop 2 u1) else []);
         u2 = (if has_netloc
               then dropWhile (\<lambda>c. c \<notin> {CHR ''/'', CHR ''?'', CHR ''#''}) (drop 2 u1) else u1)
     in if (CHR ''['' \<in> set netloc) \<noteq> (CHR '']'' \<in> set netloc)
        then Inl (ValueError ''Invalid IPv6 URL'')
        else (let (u3, _, fragment) = partition_at (CHR ''#'') u2;
                  (path, _, query) = partition_at (CHR ''?'') u3
              in Inr \<lparr>url_scheme = scheme, url_netloc = netloc, url_rest = path,
                      url_query = query, url_fragment = fragment\<rparr>))"

text \<open>\<open>hostname\<close>, \<open>username\<close> and \<open>password\<close>; \<open>[]\<close> stands for Python's falsy \<open>None\<close>.\<close>

definition url_hostname :: "url \<Rightarrow> string" where
  "url_hostname u =
    (let (_, _, hostinfo) = rpartition_at (CHR ''@'') (url_netloc u);
         (_, bracket, inner) = partition_at (CHR ''['') hostinfo
     in if bracket then fst (partition_at (CHR '']'') inner)
        else fst (partition_at (CHR '':'') hostinfo))"

definition url_username :: "url \<Rightarrow> string" where
  "url_username u =
    (let (userinfo, has, _) = rpartition_at (CHR ''@'') (url_netloc u)
     in if has then fst (partition_at (CHR '':'') userinfo) else [])"

definition url_password :: "url \<Rightarrow> string" where
  "url_password u =
    (let (userinfo, has, _) = rpartition_at (CHR ''@'') (url_netloc u)
     in if has then snd (snd (partition_at (CHR '':'') userinfo)) else [])"

end
