(* ===== verification/PyJson.thy ===== *)
theory PyJson
  imports PyText
begin

text \<open>
  The values the services exchange: what \<open>json.loads\<close> returns. A dict keeps its insertion
  order and has distinct keys (\<open>jwf\<close>). \<open>json_eq\<close> is Python's \<open>==\<close> on such values
  (dicts regardless of order, \<open>True == 1 == 1.0\<close>); \<open>canonical\<close> sorts every dict by key
  and stands for the text \<open>json.dumps(x, sort_keys=True)\<close>: the code only stores that text
  and compares it, and it determines the canonical value.
\<close>

datatype json =
    JNull
  | JBool bool
  | JInt int
  | JFloat rat
  | JStr string
  | JArr "json list"
  | JObj "(string \<times> json) list"

type_synonym jdict = "(string, json) dict"

fun truthy :: "json \<Rightarrow> bool" where
  "truthy JNull = False"
| "truthy (JBool b) = b"
| "truthy (JInt i) = (i \<noteq> 0)"
| "truthy (JFloat r) = (r \<noteq> 0)"
| "truthy (JStr s) = (s \<noteq> [])"
| "truthy (JArr xs) = (xs \<noteq> [])"
| "truthy (JObj d) = (d \<noteq> [])"

fun is_JStr :: "json \<Rightarrow> bool" where
  "is_JStr (JStr _) = True" | "is_JStr _ = False"

fun is_JObj :: "json \<Rightarrow> bool" where
  "is_JObj (JObj _) = True" | "is_JObj _ = False"

fun is_JArr :: "json \<Rightarrow> bool" where
  "is_JArr (JArr _) = True" | "is_JArr _ = False"

fun is_JBool :: "json \<Rightarrow> bool" where
  "is_JBool (JBool _) = True" | "is_JBool _ = False"

text \<open>\<open>isinstance(x, int)\<close> holds of booleans too.\<close>

fun is_int :: "json \<Rightarrow> bool" where
  "is_int (JInt _) = True" | "is_int (JBool _) = True" | "is_int _ = False"

fun is_float :: "json \<Rightarrow> bool" where
  "is_float (JFloat _) = True" | "is_float _ = False"

fun num_of :: "json \<Rightarrow> rat option" where
  "num_of (JBool b) = Some (if b then 1 else 0)"
| "num_of (JInt i) = Some (of_int i)"
| "num_of (JFloat r) = Some r"
| "num_of _ = None"

fun str_of :: "json \<Rightarrow> string" where
  "str_of (JStr s) = s" | "str_of _ = []"

fun obj_of :: "json \<Rightarrow> jdict" where
  "obj_of (JObj d) = d" | "obj_of _ = []"

fun arr_of :: "json \<Rightarrow> json list" where
  "arr_of (JArr xs) = xs" | "arr_of _ = []"

text \<open>\<open>d.get(k)\<close> and \<open>d[k]\<close>.\<close>

definition jget :: "jdict \<Rightarrow> string \<Rightarrow> json" where
  "jget d k = dget d k JNull"

definition jindex :: "jdict \<Rightarrow> string \<Rightarrow> json res" where
  "jindex d k = (case map_of d k of None \<Rightarrow> Inl (KeyError k) | Some v \<Rightarrow> Inr v)"

definition jhas :: "jdict \<Rightarrow> string \<Rightarrow> bool" where
  "jhas d k \<longleftrightarrow> map_of d k \<noteq> None"

text \<open>\<open>v.get(k, dflt)\<close>, \<open>v[k]\<close> and \<open>"..." + v\<close> of a value that may not be a dict or text.\<close>

definition attr_get :: "json \<Rightarrow> string \<Rightarrow> json \<Rightarrow> json res" where
  "attr_get v k dflt = (case v of JObj d \<Rightarrow> Inr (dget d k dflt) | _ \<Rightarrow> Inl (AttributeError ''get''))"

definition subscript :: "json \<Rightarrow> string \<Rightarrow> json res" where
  "subscript v k = (case v of JObj d \<Rightarrow> jindex d k | _ \<Rightarrow> Inl (TypeError ''indices must be integers''))"

definition as_str :: "json \<Rightarrow> string res" where
  "as_str v = (case v of JStr s \<Rightarrow> Inr s | _ \<Rightarrow> Inl (TypeError ''can only concatenate str''))"

text \<open>Iterating a value: a dict yields its keys, a string its characters.\<close>

fun jiter :: "json \<Rightarrow> json list res" where
  "jiter (JArr xs) = Inr xs"
| "jiter (JObj d) = Inr (map (JStr \<circ> fst) d)"
| "jiter (JStr s) = Inr (map (\<lambda>c. JStr [c]) s)"
| "jiter _ = Inl (TypeError ''object is not iterable'')"

fun hashable :: "json \<Rightarrow> bool" where
  "hashable (JArr _) = False" | "hashable (JObj _) = False" | "hashable _ = True"

text \<open>\<open>v in {...}\<close> for a set of strings: an unhashable value raises.\<close>

definition in_strings :: "json \<Rightarrow> string list \<Rightarrow> bool res" where
  "in_strings v names =
    (if hashable v then Inr (v \<in> JStr ` set names) else Inl (TypeError ''unhashable type''))"

lemma jget_dput [simp]: "jget (dput k v d) k' = (if k = k' then v else jget d k')"
  by (simp add: jget_def)

lemma jget_Nil [simp]: "jget [] k = JNull"
  by (simp add: jget_def)

lemma size_json_list [termination_simp]: "x \<in> set xs \<Longrightarrow> size x < Suc (size_list size xs)"
  by (induction xs) auto

lemma size_json_dict [termination_simp]:
  "(k, v) \<in> set d \<Longrightarrow> size v < Suc (size_list (\<lambda>p. Suc (size (snd p))) d)"
  by (induction d) auto

lemma size_json_zip [termination_simp]:
  "(x, y) \<in> set (zip xs ys) \<Longrightarrow> size x < Suc (size_list size xs)"
  by (rule size_json_list) (rule set_zip_leftD)

lemma size_json_zip_right [termination_simp]:
  "(x, y) \<in> set (zip xs ys) \<Longrightarrow> size y < Suc (size_list size ys)"
  by (rule size_json_list) (rule set_zip_rightD)

fun json_eq :: "json \<Rightarrow> json \<Rightarrow> bool" where
  "json_eq JNull b = (b = JNull)"
| "json_eq (JStr s) b = (b = JStr s)"
| "json_eq (JArr xs) b =
     (case b of JArr ys \<Rightarrow> length xs = length ys \<and> list_all (\<lambda>(x, y). json_eq x y) (zip xs ys)
      | _ \<Rightarrow> False)"
| "json_eq (JObj d) b =
     (case b of JObj e \<Rightarrow> length d = length e \<and>
         list_all (\<lambda>(k, v). case map_of e k of None \<Rightarrow> False | Some w \<Rightarrow> json_eq v w) d
      | _ \<Rightarrow> False)"
| "json_eq a b = (case num_of b of None \<Rightarrow> False | Some y \<Rightarrow> num_of a = Some y)"

fun canonical :: "json \<Rightarrow> json" where
  "canonical (JArr xs) = JArr (map canonical xs)"
| "canonical (JObj d) = JObj (sort_key fst (map (\<lambda>(k, v). (k, canonical v)) d))"
| "canonical v = v"

fun jwf :: "json \<Rightarrow> bool" where
  "jwf (JArr xs) = list_all jwf xs"
| "jwf (JObj d) = (distinct (map fst d) \<and> list_all (\<lambda>(k, v). jwf v) d)"
| "jwf v = True"

lemma json_eq_refl: "jwf v \<Longrightarrow> json_eq v v"
proof (induction v)
  case (JArr xs)
  have "\<forall>(x, y) \<in> set (zip xs xs). json_eq x y"
    using JArr by (auto simp: zip_same list_all_iff)
  then show ?case by (simp add: list_all_iff)
next
  case (JObj d)
  have "(case map_of d k of None \<Rightarrow> False | Some w \<Rightarrow> json_eq v w)" if "(k, v) \<in> set d" for k v
  proof -
    from that JObj.prems have "map_of d k = Some v" by (auto intro: map_of_is_SomeI)
    moreover have "json_eq v v" using JObj that by (fastforce simp: list_all_iff)
    ultimately show ?thesis by simp
  qed
  then show ?case by (auto simp: list_all_iff)
qed auto

text \<open>The text \<open>json.dumps(x)\<close> keeps the dict order; two values have the same text exactly when
  they are the same value, so the model stores the value itself.\<close>

lemma canonical_insort_order:
  assumes "distinct (map fst d)" and "set d = set e" and "distinct (map fst e)"
  shows "sort_key fst d = sort_key fst (e :: (string \<times> 'v) list)"
proof -
  have inj: "inj_on fst (set d)" using assms(1) by (simp add: distinct_map)
  have dd: "distinct d" "distinct e" using assms by (auto simp: distinct_map)
  show ?thesis
  proof (rule map_sorted_distinct_set_unique [where f = fst])
    show "inj_on fst (set (sort_key fst d) \<union> set (sort_key fst e))" using inj assms(2) by simp
  qed (use assms dd in \<open>simp_all add: distinct_map inj_on_def\<close>)
qed

end
