(* ===== verification/WorkspacePaths.thy ===== *)
theory WorkspacePaths
  imports PyText
begin

text \<open>
  \<open>shared_libs/workspace_paths.py\<close>: the identifiers that name agents, users and sessions,
  and the relative paths that clients supply. Both become components of host paths, so what
  is accepted here must never leave the directory it is joined to.
\<close>

definition ident_tail_char :: "char \<Rightarrow> bool" where
  "ident_tail_char c \<longleftrightarrow> is_alnum c \<or> c \<in> {CHR ''.'', CHR ''_'', CHR ''-''}"

text \<open>The pattern \<open>_IDENTIFIER\<close>.\<close>

definition identifier_pattern :: "string \<Rightarrow> bool" where
  "identifier_pattern s \<longleftrightarrow>
     (case s of [] \<Rightarrow> False
      | c # cs \<Rightarrow> is_alnum c \<and> length cs \<le> 127 \<and> list_all ident_tail_char cs)"

definition validate_identifier :: "string \<Rightarrow> string \<Rightarrow> string res" where
  "validate_identifier value field =
    (if \<not> identifier_pattern value
     then Inl (WorkspacePathError
            (field @ '' must be 1-128 ASCII letters, digits, dots, underscores, or hyphens''))
     else if value \<in> {''.'', ''..''}
     then Inl (WorkspacePathError (field @ '' cannot be '' @ value))
     else Inr value)"

text \<open>The pattern \<open>_WINDOWS_DRIVE\<close>.\<close>

definition windows_drive :: "string \<Rightarrow> bool" where
  "windows_drive s \<longleftrightarrow> (case s of a # b # _ \<Rightarrow> is_alpha a \<and> b = CHR '':'' | _ \<Rightarrow> False)"

definition normalize_relative_parts :: "string \<Rightarrow> string list res" where
  "normalize_relative_parts raw =
    (if CHR 0x00 \<in> set raw
     then Inl (WorkspacePathError ''relative path contains a NUL byte'')
     else if CHR 0x5C \<in> set raw
     then Inl (WorkspacePathError ''relative path must use forward slashes'')
     else if starts_with raw ''/'' \<or> starts_with raw ''//'' \<or> windows_drive raw
     then Inl (WorkspacePathError ''absolute paths are not allowed'')
     else if posix_root raw \<noteq> []
     then Inl (WorkspacePathError ''absolute paths are not allowed'')
     else if ''..'' \<in> set (posix_parts raw)
     then Inl (WorkspacePathError ''parent traversal is not allowed'')
     else Inr (filter (\<lambda>p. p \<notin> {[], ''.''}) (posix_parts raw)))"

section \<open>Accepted names are single path components\<close>

text \<open>What a client-supplied component must satisfy to stay inside its directory.\<close>

definition safe_component :: "string \<Rightarrow> bool" where
  "safe_component p \<longleftrightarrow>
     p \<noteq> [] \<and> p \<noteq> ''.'' \<and> p \<noteq> ''..'' \<and> CHR ''/'' \<notin> set p \<and> CHR 0x5C \<notin> set p \<and> CHR 0x00 \<notin> set p"

lemma safe_component_simps [simp]:
  "\<not> safe_component []" "\<not> safe_component ''.''" "\<not> safe_component ''..''"
  by (simp_all add: safe_component_def)

lemma ident_tail_char_special:
  "\<not> ident_tail_char (CHR ''/'')" "\<not> ident_tail_char (CHR 0x5C)" "\<not> ident_tail_char (CHR 0x00)"
  "\<not> ident_tail_char (CHR '':'')" "\<not> ident_tail_char (CHR 0x0A)"
  by (simp_all add: ident_tail_char_def)

lemma identifier_pattern_chars: "identifier_pattern s \<Longrightarrow> c \<in> set s \<Longrightarrow> ident_tail_char c"
  by (auto simp: identifier_pattern_def ident_tail_char_def list_all_iff split: list.splits)

lemma identifier_pattern_safe: "identifier_pattern s \<Longrightarrow> safe_component s"
proof -
  assume s: "identifier_pattern s"
  then obtain c cs where c: "s = c # cs" "is_alnum c"
    by (auto simp: identifier_pattern_def split: list.splits)
  then have "s \<noteq> ''.''" "s \<noteq> ''..''" by auto
  moreover have "CHR ''/'' \<notin> set s" "CHR 0x5C \<notin> set s" "CHR 0x00 \<notin> set s"
    using identifier_pattern_chars [OF s] ident_tail_char_special by blast+
  ultimately show ?thesis using c(1) by (simp add: safe_component_def)
qed

lemma validate_identifier_iff: "validate_identifier v f = Inr w \<longleftrightarrow> identifier_pattern v \<and> w = v"
  using identifier_pattern_safe [of v] by (auto simp: validate_identifier_def safe_component_def)

lemma safe_component_tail: "safe_component p \<Longrightarrow> posix_tail p = [p]"
  by (simp add: safe_component_def posix_tail_def split_on_atom)

lemma safe_component_root: "safe_component p \<Longrightarrow> posix_root p = []"
  by (cases p) (auto simp: safe_component_def posix_root_def starts_with_def)

lemma safe_component_parts: "safe_component p \<Longrightarrow> posix_parts p = [p]"
  by (simp add: posix_parts_def safe_component_root safe_component_tail)

lemma normalize_relative_partsD:
  assumes "normalize_relative_parts raw = Inr parts"
  shows "parts = posix_tail raw" and "list_all safe_component parts" and "posix_root raw = []"
    and "\<not> windows_drive raw"
proof -
  from assms have raw: "CHR 0x00 \<notin> set raw" "CHR 0x5C \<notin> set raw" "\<not> windows_drive raw"
    "posix_root raw = []" "''..'' \<notin> set (posix_tail raw)"
    and parts: "parts = filter (\<lambda>p. p \<notin> {[], ''.''}) (posix_tail raw)"
    by (auto simp: normalize_relative_parts_def posix_parts_def split: if_splits)
  have "filter (\<lambda>p. p \<notin> {[], ''.''}) (posix_tail raw) = posix_tail raw"
    by (auto simp: filter_id_conv dest: posix_tail_component)
  with parts show parts': "parts = posix_tail raw" by simp
  show "posix_root raw = []" "\<not> windows_drive raw" by fact+
  show "list_all safe_component parts"
    using raw unfolding parts' list_all_iff safe_component_def
    by (auto dest: posix_tail_component)
qed

lemma safe_join_root:
  assumes "list_all safe_component ps"
  shows "posix_root (join_with ''/'' ps) = []"
proof (cases ps)
  case Nil
  then show ?thesis by (simp add: posix_root_def starts_with_def)
next
  case (Cons p qs)
  with assms obtain c cs where p: "p = c # cs" "c \<noteq> CHR ''/''"
    by (cases p) (auto simp: safe_component_def)
  then obtain rest where "join_with ''/'' ps = c # rest"
    using Cons by (cases qs) auto
  with p show ?thesis by (simp add: posix_root_def starts_with_def)
qed

lemma safe_join_tail: "list_all safe_component ps \<Longrightarrow> posix_tail (join_with ''/'' ps) = ps"
  by (rule posix_tail_join) (auto simp: list_all_iff safe_component_def)

section \<open>The interface of name checks\<close>

text \<open>
  Components that build paths from client input rely on one law of the check in front of
  them: what it accepts, it returns unchanged, and that is a safe path component.
\<close>

locale name_check =
  fixes check :: "string \<Rightarrow> string res"
  assumes check_returns: "check v = Inr w \<Longrightarrow> w = v"
    and check_safe: "check v = Inr w \<Longrightarrow> safe_component v"
begin

lemma checked_names_parts:
  "emap check vs = Inr ws \<Longrightarrow> ws = vs \<and> posix_tail (join_with ''/'' ws) = ws"
proof -
  assume "emap check vs = Inr ws"
  then have all: "list_all2 (\<lambda>v w. check v = Inr w) vs ws" by (simp add: emap_Inr_iff)
  then have "ws = vs"
    by (induction vs ws rule: list_all2_induct) (auto dest: check_returns)
  moreover have "list_all safe_component vs"
    using all by (induction vs ws rule: list_all2_induct) (auto dest: check_safe)
  ultimately show ?thesis by (simp add: safe_join_tail)
qed

lemma checked_name_parts: "check v = Inr w \<Longrightarrow> posix_parts w = [v]"
  by (metis check_returns check_safe safe_component_parts)

end

interpretation workspace_names: name_check "\<lambda>v. validate_identifier v field"
  by unfold_locales (auto simp: validate_identifier_iff intro: identifier_pattern_safe)

section \<open>Properties\<close>

text \<open>An accepted identifier is returned unchanged, has 1 to 128 characters and is a single
  path component: joined to any directory it names a direct child of it.\<close>

theorem validate_identifier_single_component:
  assumes "validate_identifier v f = Inr w"
  shows "w = v \<and> 1 \<le> length v \<and> length v \<le> 128 \<and> posix_parts v = [v] \<and> v \<noteq> ''..''"
proof -
  from assms have p: "identifier_pattern v" "w = v" by (auto simp: validate_identifier_iff)
  then have "1 \<le> length v" "length v \<le> 128" by (auto simp: identifier_pattern_def split: list.splits)
  moreover have "posix_parts v = [v]" by (rule workspace_names.checked_name_parts) (use assms p in simp)
  moreover have "v \<noteq> ''..''" using identifier_pattern_safe [OF p(1)] by auto
  ultimately show ?thesis using p(2) by simp
qed

theorem validate_identifier_single_component_witness:
  "validate_identifier ''agent-1'' ''agent_id'' = Inr ''agent-1'' \<and> posix_parts ''agent-1'' = [''agent-1'']"
proof -
  have "validate_identifier ''agent-1'' ''agent_id'' = Inr ''agent-1''" by (simp add: validate_identifier_def identifier_pattern_def ident_tail_char_def char_class_defs)
  with validate_identifier_single_component [OF this] show ?thesis by simp
qed

text \<open>The parts a relative path is normalised to are safe components (none is empty, a dot,
  a double dot or holds a separator), and normalising their join gives the same parts again.\<close>

theorem normalize_relative_parts_stable:
  assumes "normalize_relative_parts raw = Inr parts" and "\<not> windows_drive (join_with ''/'' parts)"
  shows "list_all safe_component parts \<and>
    normalize_relative_parts (join_with ''/'' parts) = Inr parts"
proof -
  note parts = normalize_relative_partsD [OF assms(1)]
  have root: "posix_root (join_with ''/'' parts) = []" and tail: "posix_tail (join_with ''/'' parts) = parts"
    using parts(2) by (simp_all add: safe_join_root safe_join_tail)
  have "c \<noteq> CHR 0x00 \<and> c \<noteq> CHR 0x5C" if "c \<in> set (join_with ''/'' parts)" for c
    using join_with_chars [OF that] parts(2) by (auto simp: list_all_iff safe_component_def)
  moreover have "\<not> starts_with (join_with ''/'' parts) ''/''" "\<not> starts_with (join_with ''/'' parts) ''//''"
    using root by (cases "join_with ''/'' parts"; auto simp: posix_root_def starts_with_def split: if_splits)+
  moreover have "filter (\<lambda>p. p \<notin> {[], ''.''}) parts = parts" "''..'' \<notin> set parts"
    using parts(2) by (auto simp: filter_id_conv list_all_iff)
  ultimately show ?thesis
    using assms(2) parts(2) root tail
    by (auto simp: normalize_relative_parts_def posix_parts_def)
qed

theorem normalize_relative_parts_stable_witness:
  "normalize_relative_parts ''a/./b//c'' = Inr [''a'', ''b'', ''c''] \<and>
   normalize_relative_parts (join_with ''/'' [''a'', ''b'', ''c'']) = Inr [''a'', ''b'', ''c'']"
proof -
  have "normalize_relative_parts ''a/./b//c'' = Inr [''a'', ''b'', ''c'']"
    by (simp add: normalize_relative_parts_def windows_drive_def posix_path_defs)
  moreover have "\<not> windows_drive (join_with ''/'' [''a'', ''b'', ''c''])"
    by (simp add: windows_drive_def)
  ultimately show ?thesis using normalize_relative_parts_stable by blast
qed

end
