(* ===== verification/Validation.thy ===== *)
theory Validation
  imports PyJson WorkspacePaths
begin

text \<open>
  The checks in front of the catalog and the file installers (\<open>shared_libs/validation.py\<close>
  and \<open>catalog_service/src/management.py\<close>): identifiers, redaction of secrets and their
  restoration on an edit, resource file paths, Skill uploads and MCP settings.
  \<open>fail(message, status)\<close> raises an \<open>HTTPException\<close>.
\<close>

definition fail :: "string \<Rightarrow> nat \<Rightarrow> exc" where
  "fail message status = HTTPException status message"

text \<open>The UTF-8 bytes of four bullets.\<close>

definition MASK :: string where
  "MASK = concat (replicate 4 [CHR 0xE2, CHR 0x80, CHR 0xA2])"

definition SECRET_FIELDS :: "string list" where
  "SECRET_FIELDS = [''api_key'', ''apiKey'', ''headers'', ''extra_headers'', ''environment'']"

definition MODEL_PARAMETERS :: "string list" where
  "MODEL_PARAMETERS =
    [''temperature'', ''top_p'', ''max_tokens'', ''max_completion_tokens'', ''presence_penalty'',
     ''frequency_penalty'', ''seed'', ''reasoning_effort'']"

section \<open>Identifiers\<close>

definition platform_id :: "string \<Rightarrow> bool" where
  "platform_id s \<longleftrightarrow>
     (case s of [] \<Rightarrow> False
      | c # cs \<Rightarrow> is_alnum c \<and> length cs \<le> 63
          \<and> list_all (\<lambda>x. is_alnum x \<or> x = CHR ''_'' \<or> x = CHR ''-'') cs)"

definition platform_identifier :: "json \<Rightarrow> string res" where
  "platform_identifier value =
    (case value of JStr s \<Rightarrow>
       (if platform_id s then Inr s
        else Inl (fail ''ID must contain 1-64 letters, digits, underscores or hyphens'' 400))
     | _ \<Rightarrow> Inl (fail ''ID must contain 1-64 letters, digits, underscores or hyphens'' 400))"

lemma platform_identifier_iff: "platform_identifier v = Inr s \<longleftrightarrow> v = JStr s \<and> platform_id s"
  by (auto simp: platform_identifier_def split: json.splits)

lemma platform_id_chars:
  "platform_id s \<Longrightarrow> c \<in> set s \<Longrightarrow> is_alnum c \<or> c = CHR ''_'' \<or> c = CHR ''-''"
  by (auto simp: platform_id_def list_all_iff split: list.splits)

lemma platform_id_no_colon: "platform_id s \<Longrightarrow> CHR '':'' \<notin> set s"
  using platform_id_chars by fastforce

lemma platform_id_nonempty [simp]: "\<not> platform_id []"
  by (simp add: platform_id_def)

section \<open>Secrets\<close>

text \<open>\<open>{n: MASK for n in v}\<close> for a dict, \<open>MASK\<close> for any other secret.\<close>

fun mask_secret :: "json \<Rightarrow> json" where
  "mask_secret (JObj m) = JObj (map (\<lambda>(n, _). (n, JStr MASK)) m)"
| "mask_secret _ = JStr MASK"

fun redact :: "json \<Rightarrow> json" where
  "redact (JObj d) =
     JObj (map (\<lambda>(k, v). (k, if k \<in> set SECRET_FIELDS \<and> truthy v then mask_secret v else redact v)) d)"
| "redact (JArr xs) = JArr (map redact xs)"
| "redact v = v"

text \<open>The catalog's \<open>preserve_secrets\<close>. A model that moves from a single key to deployments
  finds that key under the deployments the single key stood for.\<close>

definition previous_fields :: "jdict \<Rightarrow> json \<Rightarrow> jdict res" where
  "previous_fields new old =
    (let previous = obj_of old in
     if truthy (jget new ''deployments'') \<and> \<not> truthy (jget previous ''deployments'')
        \<and> truthy (jget previous ''api_key'')
     then ebind (jiter (dget previous ''additional_base_urls'' (JArr []))) (\<lambda>bases.
       Inr (dput ''deployments''
         (JArr (JObj [(''id'', JStr ''primary''), (''api_key'', jget previous ''api_key'')]
           # map (\<lambda>i. JObj [(''id'', JStr (''extra-'' @ dec_nat i)),
                              (''api_key'', jget previous ''api_key'')]) [1..<Suc (length bases)]))
         previous))
     else Inr previous)"

definition items_by_id :: "json \<Rightarrow> json list res" where
  "items_by_id old =
    ebind (jiter (if truthy old then old else JArr [])) (\<lambda>items.
      let held = filter (\<lambda>item. is_JObj item \<and> jhas (obj_of item) ''id'') items
      in if list_all (\<lambda>item. hashable (jget (obj_of item) ''id'')) held then Inr held
         else Inl (TypeError ''unhashable type''))"

text \<open>The dict comprehension keeps the last item of an ID.\<close>

definition item_with_id :: "json list \<Rightarrow> json \<Rightarrow> json" where
  "item_with_id held i =
    (case find (\<lambda>item. json_eq (jget (obj_of item) ''id'') i) (rev held) of
       None \<Rightarrow> JObj [] | Some item \<Rightarrow> item)"

fun preserve_secrets :: "json \<Rightarrow> json \<Rightarrow> json res" where
  "preserve_secrets (JStr s) old = Inr (if s = MASK then old else JStr s)"
| "preserve_secrets (JObj new) old =
     ebind (previous_fields new old) (\<lambda>previous.
     ebind (emap (\<lambda>(k, v). ebind (preserve_secrets v (jget previous k)) (\<lambda>w. Inr (k, w))) new) (\<lambda>d.
     Inr (JObj d)))"
| "preserve_secrets (JArr new) old =
     ebind (items_by_id old) (\<lambda>previous.
     ebind (emap (\<lambda>item. if is_JObj item \<and> jhas (obj_of item) ''id''
        then if hashable (jget (obj_of item) ''id'')
          then preserve_secrets item (item_with_id previous (jget (obj_of item) ''id''))
          else Inl (TypeError ''unhashable type'')
        else Inr item) new) (\<lambda>xs. Inr (JArr xs)))"
| "preserve_secrets v old = Inr v"

section \<open>Resource files\<close>

definition relative_file :: "json \<Rightarrow> string res" where
  "relative_file value =
    (case value of JStr s \<Rightarrow>
       (if CHR 0x5C \<in> set s \<or> CHR '':'' \<in> set s \<or> CHR 0x00 \<in> set s
        then Inl (fail ''Invalid resource file path'' 400)
        else if posix_root s \<noteq> [] \<or> list_ex (\<lambda>p. p = ''..'' \<or> p = ''.'') (split_on (CHR ''/'') s)
             \<or> posix_parts s = []
        then Inl (fail ''Resource file escapes root'' 400)
        else Inr (as_posix s))
     | _ \<Rightarrow> Inl (fail ''Invalid resource file path'' 400))"

lemma relative_fileD:
  assumes "relative_file v = Inr w"
  obtains s where "v = JStr s" "w = join_with ''/'' (posix_tail s)" "posix_tail s \<noteq> []"
    "list_all safe_component (posix_tail s)" "CHR '':'' \<notin> set s"
proof -
  from assms obtain s where s: "v = JStr s" "CHR 0x5C \<notin> set s" "CHR '':'' \<notin> set s" "CHR 0x00 \<notin> set s"
    "posix_root s = []" "posix_parts s \<noteq> []" "w = as_posix s"
    and dots: "\<And>p. p \<in> set (split_on (CHR ''/'') s) \<Longrightarrow> p \<noteq> ''..'' \<and> p \<noteq> ''.''"
    by (auto simp: relative_file_def list_ex_iff split: json.splits if_splits)
  have ne: "posix_tail s \<noteq> []" using s by (simp add: posix_parts_def)
  have "safe_component p" if "p \<in> set (posix_tail s)" for p
  proof -
    have "p \<in> set (split_on (CHR ''/'') s)" using that by (simp add: posix_tail_def)
    with dots posix_tail_component [OF that] s(2,4) show ?thesis
      by (auto simp: safe_component_def)
  qed
  moreover have "w = join_with ''/'' (posix_tail s)" using s ne by (simp add: as_posix_def posix_parts_def)
  ultimately show thesis using s ne by (intro that) (auto simp: list_all_iff)
qed

lemma relative_file_join:
  assumes "list_all safe_component ps" and "ps \<noteq> []" and "\<And>p. p \<in> set ps \<Longrightarrow> CHR '':'' \<notin> set p"
  shows "relative_file (JStr (join_with ''/'' ps)) = Inr (join_with ''/'' ps)"
proof -
  let ?s = "join_with ''/'' ps"
  have tail: "posix_tail ?s = ps" and root: "posix_root ?s = []"
    using assms(1) by (simp_all add: safe_join_tail safe_join_root)
  have split: "split_on (CHR ''/'') ?s = ps"
    using assms(1,2) by (intro split_join) (auto simp: list_all_iff safe_component_def)
  have "c \<noteq> CHR 0x5C \<and> c \<noteq> CHR '':'' \<and> c \<noteq> CHR 0x00" if "c \<in> set ?s" for c
    using join_with_chars [OF that] assms by (auto simp: list_all_iff safe_component_def)
  then show ?thesis
    using assms tail root split
    by (auto simp: relative_file_def as_posix_def posix_parts_def list_ex_iff list_all_iff)
qed

section \<open>What redaction keeps and hides\<close>

fun masked :: "json \<Rightarrow> bool" where
  "masked (JObj m) = list_all (\<lambda>(n, v). v = JStr MASK) m"
| "masked v = (v = JStr MASK)"

text \<open>A secret field, at any depth, whose value is still readable.\<close>

fun exposed :: "json \<Rightarrow> bool" where
  "exposed (JObj d) = list_ex (\<lambda>(k, v).
     if k \<in> set SECRET_FIELDS \<and> truthy v then \<not> masked v else exposed v) d"
| "exposed (JArr xs) = list_ex exposed xs"
| "exposed v = False"

lemma MASK_nonempty [simp]: "MASK \<noteq> []"
  by (simp add: MASK_def)

lemma masked_mask_secret [simp]: "masked (mask_secret v)"
  by (cases v) (auto simp: list_all_iff)

lemma truthy_mask_secret: "truthy v \<Longrightarrow> truthy (mask_secret v)"
  by (cases v) auto

lemma mask_secret_idem: "mask_secret (mask_secret v) = mask_secret v"
  by (cases v) auto

lemma truthy_redact [simp]: "truthy (redact v) = truthy v"
  by (cases v) auto

lemma redact_hides: "\<not> exposed (redact v)"
proof (induction v)
  case (JObj d)
  then show ?case by (fastforce simp: list_ex_iff truthy_mask_secret split: if_splits)
qed (auto simp: list_ex_iff)

lemma redact_idem: "redact (redact v) = redact v"
proof (induction v)
  case (JObj d)
  then show ?case by (fastforce simp: truthy_mask_secret mask_secret_idem)
qed auto

lemma redact_scalar: "hashable v \<Longrightarrow> redact v = v"
  by (cases v) auto

lemma jget_redact:
  "jget (map (\<lambda>(k, v). (k, f k v)) d) k = (if jhas d k then f k (jget d k) else JNull)"
  by (induction d) (auto simp: jget_def dget_def jhas_def)

lemma jhas_map: "jhas (map (\<lambda>(k, v). (k, f k v)) d) k = jhas d k"
  by (induction d) (auto simp: jhas_def)

lemma jget_in: "distinct (map fst d) \<Longrightarrow> (k, v) \<in> set d \<Longrightarrow> jget d k = v"
  by (simp add: jget_def dget_def)

definition distinct_items :: "json list \<Rightarrow> bool" where
  "distinct_items xs \<longleftrightarrow>
    sorted_wrt (\<lambda>x y. \<not> json_eq (jget (obj_of y) ''id'') (jget (obj_of x) ''id''))
      (filter (\<lambda>x. is_JObj x \<and> jhas (obj_of x) ''id'') xs)"

text \<open>The values whose secrets an edit of the redacted copy restores: dict keys are distinct,
  list items either hold no secret or are told apart by a plain \<open>id\<close>.\<close>

fun restorable :: "json \<Rightarrow> bool" where
  "restorable (JObj d) = (distinct (map fst d) \<and> list_all (\<lambda>(k, v).
     if k \<in> set SECRET_FIELDS \<and> truthy v
     then distinct (map fst (obj_of v)) \<and> \<not> jhas (obj_of v) ''deployments''
     else restorable v) d)"
| "restorable (JArr xs) = (
     list_all (\<lambda>x. if is_JObj x \<and> jhas (obj_of x) ''id''
       then restorable x \<and> hashable (jget (obj_of x) ''id'') else redact x = x) xs
     \<and> distinct_items xs)"
| "restorable v = True"

lemma find_first: "(\<And>a. a \<in> set as \<Longrightarrow> \<not> P a) \<Longrightarrow> P b \<Longrightarrow> find P (as @ b # cs) = Some b"
  by (induction as) auto

lemma json_eq_hashable: "hashable v \<Longrightarrow> json_eq v v"
  by (cases v) auto

lemma item_with_id_self:
  assumes "distinct_items xs" and "x \<in> set xs" and "is_JObj x" and "jhas (obj_of x) ''id''"
    and "hashable (jget (obj_of x) ''id'')"
  shows "item_with_id (filter (\<lambda>y. is_JObj y \<and> jhas (obj_of y) ''id'') xs) (jget (obj_of x) ''id'') = x"
proof -
  let ?held = "filter (\<lambda>y. is_JObj y \<and> jhas (obj_of y) ''id'') xs"
  have "x \<in> set ?held" using assms by simp
  then obtain pre post where held: "?held = pre @ x # post" by (meson split_list)
  have "find (\<lambda>y. json_eq (jget (obj_of y) ''id'') (jget (obj_of x) ''id'')) (rev post @ x # rev pre) = Some x"
    using assms(1,5) unfolding distinct_items_def held
    by (intro find_first) (auto simp: sorted_wrt_append json_eq_hashable)
  then show ?thesis unfolding item_with_id_def held by simp
qed

lemma previous_fields_inert:
  assumes "truthy (jget new ''deployments'') \<Longrightarrow> truthy (jget (obj_of old) ''deployments'')"
  shows "previous_fields new old = Inr (obj_of old)"
  using assms by (auto simp: previous_fields_def Let_def)

lemma emap_self:
  assumes "\<And>k v. (k, v) \<in> set d \<Longrightarrow> preserve_secrets (g k v) (jget e k) = Inr v"
  shows "emap (\<lambda>(k, v). ebind (preserve_secrets v (jget e k)) (\<lambda>w. Inr (k, w)))
           (map (\<lambda>(k, v). (k, g k v)) d) = Inr d"
  using assms by (induction d) auto

lemma preserve_mask:
  assumes "distinct (map fst (obj_of v))" and "\<not> jhas (obj_of v) ''deployments''"
  shows "preserve_secrets (mask_secret v) v = Inr v"
proof (cases v)
  case (JObj m)
  let ?masked = "map (\<lambda>(n, _). (n, JStr MASK)) m"
  have "previous_fields ?masked v = Inr m"
    using assms JObj jget_redact [of "\<lambda>_ _. JStr MASK" m]
    by (subst previous_fields_inert) auto
  moreover have "emap (\<lambda>(k, v). ebind (preserve_secrets v (jget m k)) (\<lambda>w. Inr (k, w))) ?masked = Inr m"
    using assms JObj emap_self [of m "\<lambda>_ _. JStr MASK" m] by (auto simp: jget_in)
  ultimately show ?thesis using JObj by simp
qed (auto simp: MASK_def)

lemma preserve_redact: "restorable v \<Longrightarrow> preserve_secrets (redact v) v = Inr v"
proof (induction v)
  case (JObj d)
  define g where "g k v = (if k \<in> set SECRET_FIELDS \<and> truthy v then mask_secret v else redact v)" for k v
  have red: "redact (JObj d) = JObj (map (\<lambda>(k, v). (k, g k v)) d)" by (simp add: g_def)
  have prev: "previous_fields (map (\<lambda>(k, v). (k, g k v)) d) (JObj d) = Inr d"
    using jget_redact [of g d "''deployments''"]
    by (subst previous_fields_inert) (auto simp: g_def SECRET_FIELDS_def split: if_splits)
  have "preserve_secrets (g k v) (jget d k) = Inr v" if kv: "(k, v) \<in> set d" for k v
  proof -
    have d: "jget d k = v" using JObj.prems kv by (intro jget_in) auto
    have r: "if k \<in> set SECRET_FIELDS \<and> truthy v
        then distinct (map fst (obj_of v)) \<and> \<not> jhas (obj_of v) ''deployments'' else restorable v"
      using JObj.prems kv by (fastforce simp: list_all_iff)
    show ?thesis
      using r d JObj.IH [OF kv] by (auto simp: g_def preserve_mask split: if_splits)
  qed
  then have "emap (\<lambda>(k, v). ebind (preserve_secrets v (jget d k)) (\<lambda>w. Inr (k, w)))
      (map (\<lambda>(k, v). (k, g k v)) d) = Inr d"
    by (rule emap_self)
  then show ?case unfolding red preserve_secrets.simps prev by simp
next
  case (JArr xs)
  let ?named = "\<lambda>x. is_JObj x \<and> jhas (obj_of x) ''id''"
  let ?held = "filter ?named xs"
  let ?step = "\<lambda>item. if ?named item
        then if hashable (jget (obj_of item) ''id'')
          then preserve_secrets item (item_with_id ?held (jget (obj_of item) ''id''))
          else Inl (TypeError ''unhashable type'')
        else Inr item"
  have items: "if ?named x then restorable x \<and> hashable (jget (obj_of x) ''id'') else redact x = x"
    if "x \<in> set xs" for x
    using JArr.prems that by (simp add: list_all_iff)
  have held: "items_by_id (JArr xs) = Inr ?held"
    using items by (auto simp: items_by_id_def list_all_iff)
  have "?step (redact x) = Inr x" if x: "x \<in> set xs" for x
  proof (cases "?named x")
    case False
    with items [OF x] show ?thesis by auto
  next
    case True
    with items [OF x] have r: "restorable x" "hashable (jget (obj_of x) ''id'')" by auto
    from True obtain d where d: "x = JObj d" "jhas d ''id''" by (cases x) auto
    have id: "jget (obj_of (redact x)) ''id'' = jget d ''id''"
      using jget_redact [of "\<lambda>k v. if k \<in> set SECRET_FIELDS \<and> truthy v then mask_secret v else redact v" d] d r
      by (simp add: redact_scalar) (simp add: SECRET_FIELDS_def)
    have "is_JObj (redact x)" "jhas (obj_of (redact x)) ''id''"
      using d jhas_map [of "\<lambda>k v. if k \<in> set SECRET_FIELDS \<and> truthy v then mask_secret v else redact v" d]
      by simp_all
    moreover have "item_with_id ?held (jget d ''id'') = x"
      using item_with_id_self [of xs x] JArr.prems x True r(2) d by simp
    ultimately show ?thesis
      using JArr.IH [OF x r(1)] r(2) id d(1) by (simp del: redact.simps)
  qed
  then have "emap ?step (map redact xs) = Inr xs" by (rule emap_map_inverse)
  then show ?case by (simp add: held)
qed auto

text \<open>Redaction leaves no readable secret at any depth, and redacting again changes nothing.\<close>

theorem redact_hides_secrets: "\<not> exposed (redact v) \<and> redact (redact v) = redact v"
  by (simp add: redact_hides redact_idem)

text \<open>An accepted resource path is relative, made of safe components only, and accepted
  again unchanged.\<close>

theorem relative_file_contained:
  assumes "relative_file v = Inr w"
  shows "posix_root w = [] \<and> posix_parts w \<noteq> [] \<and> list_all safe_component (posix_parts w)
    \<and> relative_file (JStr w) = Inr w"
proof -
  obtain s where s: "v = JStr s" "w = join_with ''/'' (posix_tail s)" "posix_tail s \<noteq> []"
    "list_all safe_component (posix_tail s)" "CHR '':'' \<notin> set s"
    by (rule relative_fileD [OF assms])
  have "posix_root w = []" "posix_tail w = posix_tail s"
    unfolding s(2) using s(4) by (simp_all add: safe_join_root safe_join_tail)
  moreover have "relative_file (JStr w) = Inr w"
    unfolding s(2) using s(3,4,5)
    by (intro relative_file_join) (auto dest: posix_tail_component)
  ultimately show ?thesis using s(3,4) by (simp add: posix_parts_def)
qed

theorem relative_file_contained_witness:
  "relative_file (JStr ''skills//a/SKILL.md'') = Inr ''skills/a/SKILL.md'' \<and>
   relative_file (JStr ''skills/a/SKILL.md'') = Inr ''skills/a/SKILL.md''"
proof -
  have a: "relative_file (JStr ''skills//a/SKILL.md'') = Inr ''skills/a/SKILL.md''"
    by (simp add: relative_file_def posix_path_defs)
  from relative_file_contained [OF a] show ?thesis using a by simp
qed

end
