(* ===== verification/SkillUpload.thy ===== *)
theory SkillUpload
  imports Validation
begin

text \<open>
  Skill uploads (\<open>skill_metadata\<close> and \<open>unpack_skill\<close> of
  \<open>catalog_service/src/management.py\<close>): the front matter of SKILL.md and the checks on an
  uploaded archive. Reading a ZIP container is \<open>zipfile\<close>'s work and a parameter here
  (\<open>open_zip\<close>); everything decided about its entries is modelled. Files hold bytes.
\<close>

section \<open>Front matter\<close>

definition utf8_cont :: "nat \<Rightarrow> bool" where
  "utf8_cont b \<longleftrightarrow> 128 \<le> b \<and> b < 192"

fun utf8_ok :: "nat list \<Rightarrow> bool" where
  "utf8_ok [] = True"
| "utf8_ok (a # r) =
    (if a < 128 then utf8_ok r
     else if 194 \<le> a \<and> a < 224 then (case r of b # r1 \<Rightarrow> utf8_cont b \<and> utf8_ok r1 | _ \<Rightarrow> False)
     else if 224 \<le> a \<and> a < 240 then
       (case r of b # c # r1 \<Rightarrow> utf8_cont b \<and> utf8_cont c \<and> (a = 224 \<longrightarrow> 160 \<le> b)
            \<and> (a = 237 \<longrightarrow> b < 160) \<and> utf8_ok r1 | _ \<Rightarrow> False)
     else if 240 \<le> a \<and> a < 245 then
       (case r of b # c # d # r1 \<Rightarrow> utf8_cont b \<and> utf8_cont c \<and> utf8_cont d \<and> (a = 240 \<longrightarrow> 144 \<le> b)
            \<and> (a = 244 \<longrightarrow> b < 144) \<and> utf8_ok r1 | _ \<Rightarrow> False)
     else False)"

definition decode_utf8_sig :: "string \<Rightarrow> string option" where
  "decode_utf8_sig content =
    (if utf8_ok (map of_char content)
     then Some (if starts_with content [CHR 0xEF, CHR 0xBB, CHR 0xBF] then drop 3 content else content)
     else None)"

text \<open>Where the greedy \<open>\s*\n\<close> after the opening \<open>---\<close> may stop, longest first, and the
  shortest text before a closing \<open>---\<close> line.\<close>

fun header_starts :: "string \<Rightarrow> string list" where
  "header_starts [] = []"
| "header_starts (c # cs) =
    (if is_space c then header_starts cs @ (if c = CHR 0x0A then [cs] else []) else [])"

definition closes_header :: "string \<Rightarrow> bool" where
  "closes_header s \<longleftrightarrow> starts_with s (CHR 0x0A # ''---'')
     \<and> (drop 4 s = [] \<or> CHR 0x0A \<in> set (takeWhile is_space (drop 4 s)))"

fun header_text :: "string \<Rightarrow> string option" where
  "header_text [] = None"
| "header_text (c # cs) =
    (if closes_header (c # cs) then Some [] else map_option ((#) c) (header_text cs))"

definition frontmatter :: "string \<Rightarrow> string option" where
  "frontmatter text =
    (if starts_with text ''---''
     then (case filter (\<lambda>s. header_text s \<noteq> None) (header_starts (drop 3 text)) of
             [] \<Rightarrow> None | s # _ \<Rightarrow> header_text s)
     else None)"

definition line_end :: "char \<Rightarrow> bool" where
  "line_end c \<longleftrightarrow> (of_char c :: nat) \<in> {10, 11, 12, 13, 28, 29, 30}"

fun splitlines :: "string \<Rightarrow> string list" where
  "splitlines [] = []"
| "splitlines (c # cs) =
    (if line_end c
     then [] # splitlines (if c = CHR 0x0D \<and> cs \<noteq> [] \<and> hd cs = CHR 0x0A then tl cs else cs)
     else (case splitlines cs of [] \<Rightarrow> [[c]] | l # ls \<Rightarrow> (c # l) # ls))"

definition strip_quotes :: "string \<Rightarrow> string" where
  "strip_quotes s =
    rev (dropWhile (\<lambda>c. c = CHR 0x22 \<or> c = CHR 0x27) (rev (dropWhile (\<lambda>c. c = CHR 0x22 \<or> c = CHR 0x27) s)))"

definition frontmatter_field :: "string \<Rightarrow> (string, string) dict \<Rightarrow> (string, string) dict" where
  "frontmatter_field line held =
    (if CHR '':'' \<in> set line \<and> \<not> starts_with line '' '' \<and> \<not> starts_with line [CHR 0x09]
     then (let (k, _, v) = partition_at (CHR '':'') line in dput k (strip_quotes (strip v)) held)
     else held)"

definition skill_name :: "string \<Rightarrow> bool" where
  "skill_name s \<longleftrightarrow> list_all (\<lambda>w. w \<noteq> [] \<and> list_all (\<lambda>c. is_lower c \<or> is_digit c) w)
     (split_on (CHR ''-'') s)"

definition skill_metadata :: "string \<Rightarrow> (string \<times> string) res" where
  "skill_metadata content =
    (case decode_utf8_sig content of
       None \<Rightarrow> Inl (fail ''SKILL.md must be UTF-8'' 400)
     | Some text \<Rightarrow>
       (case frontmatter text of
          None \<Rightarrow> Inl (fail ''SKILL.md requires name and description frontmatter'' 400)
        | Some header \<Rightarrow>
          (let held = fold frontmatter_field (splitlines header) [];
               name = dget held ''name'' [];
               description = dget held ''description'' []
           in if \<not> skill_name name \<or> length name > 64
              then Inl (fail ''Skill name must be lowercase words separated by hyphens'' 400)
              else if description = [] \<or> description \<in> {''|'', ''>''}
              then Inl (fail ''Skill description must be a non-empty single-line value'' 400)
              else Inr (name, description))))"

section \<open>Archives\<close>

text \<open>One entry of the archive: the raw name, the file type bits of the external attributes, the
  encryption flag, the declared size and the bytes a bounded read yields.\<close>

record zip_entry =
  orig_filename :: string
  entry_kind :: nat
  encrypted :: bool
  entry_is_dir :: bool
  file_size :: nat
  entry_data :: "string res"

record unpack_state =
  up_files :: "(string, string) dict"
  up_folded :: "string list"
  up_size :: nat

definition MiB :: nat where
  "MiB = 1024 ^ 2"

definition S_IFREG :: nat where "S_IFREG = 32768"
definition S_IFDIR :: nat where "S_IFDIR = 16384"

definition rstrip_slash :: "string \<Rightarrow> string" where
  "rstrip_slash s = rev (dropWhile (\<lambda>c. c = CHR ''/'') (rev s))"

text \<open>\<open>except (BadZipFile, RuntimeError, OSError)\<close> around the reads.\<close>

definition zip_guard :: "'a res \<Rightarrow> 'a res" where
  "zip_guard m = (case m of
     Inl (RuntimeError _) \<Rightarrow> Inl (fail ''Invalid ZIP archive'' 400)
   | Inl e \<Rightarrow> (if is_os_error e then Inl (fail ''Invalid ZIP archive'' 400) else Inl e)
   | Inr x \<Rightarrow> Inr x)"

definition unpack_entry :: "zip_entry \<Rightarrow> unpack_state \<Rightarrow> unpack_state res" where
  "unpack_entry entry st =
    ebind (relative_file (JStr (rstrip_slash (orig_filename entry)))) (\<lambda>path.
    ebind (raise_if (entry_kind entry \<notin> {0, S_IFREG, S_IFDIR} \<or> encrypted entry)
      (fail ''Links, special files and encrypted ZIP entries are unsupported'' 400)) (\<lambda>_.
    ebind (raise_if (lower path \<in> set (up_folded st)) (fail ''Duplicate ZIP target'' 400)) (\<lambda>_.
    let st1 = st\<lparr>up_folded := lower path # up_folded st\<rparr> in
    if entry_is_dir entry then Inr st1
    else (let size = up_size st1 + file_size entry in
      ebind (raise_if (size > 100 * MiB \<or> length (up_files st1) \<ge> 1000)
        (fail ''Skill archive exceeds unpacked limits'' 413)) (\<lambda>_.
      ebind (entry_data entry) (\<lambda>data.
      ebind (raise_if (length data \<noteq> file_size entry) (fail ''ZIP size mismatch'' 400)) (\<lambda>_.
      Inr (st1\<lparr>up_files := dput path data (up_files st1), up_size := size\<rparr>))))))))"

definition unpack_archive :: "zip_entry list \<Rightarrow> (string, string) dict res" where
  "unpack_archive entries =
    ebind (raise_if (length entries > 1100) (fail ''Too many ZIP entries'' 400)) (\<lambda>_.
    ebind (efold unpack_entry entries \<lparr>up_files = [], up_folded = [], up_size = 0\<rparr>) (\<lambda>st.
    Inr (up_files st)))"

definition root_prefix :: "string \<Rightarrow> string" where
  "root_prefix r = take (length r - length ''SKILL.md'') r"

definition skill_root :: "(string, string) dict \<Rightarrow> (string, string) dict res" where
  "skill_root files =
    (let roots = filter (\<lambda>p. path_name p = ''SKILL.md'') (dkeys files) in
     ebind (raise_if (length roots \<noteq> 1) (fail ''ZIP must contain exactly one SKILL.md'' 400)) (\<lambda>_.
     let pre = root_prefix (hd roots) in
     ebind (raise_if (list_ex (\<lambda>p. \<not> starts_with p pre) (dkeys files))
       (fail ''All files must belong to the Skill root'' 400)) (\<lambda>_.
     Inr (map (\<lambda>(p, v). (drop (length pre) p, v)) files))))"

definition unpack_skill ::
  "(string \<Rightarrow> zip_entry list res) \<Rightarrow> string \<Rightarrow> string \<Rightarrow> ((string \<times> string) \<times> (string, string) dict) res" where
  "unpack_skill open_zip filename content =
    ebind (raise_if (length content > 20 * MiB) (fail ''Skill upload exceeds 20 MiB'' 413)) (\<lambda>_.
    ebind
      (if ends_with (lower filename) ''.md'' then Inr [(''SKILL.md'', content)]
       else if ends_with (lower filename) ''.zip''
       then ebind (zip_guard (ebind (open_zip content) unpack_archive)) skill_root
       else Inl (fail ''Upload SKILL.md or a ZIP containing one Skill'' 400)) (\<lambda>files.
    ebind (case map_of files ''SKILL.md'' of None \<Rightarrow> Inl (KeyError ''SKILL.md'') | Some c \<Rightarrow> Inr c) (\<lambda>c.
    ebind (skill_metadata c) (\<lambda>meta.
    Inr (meta, files)))))"

section \<open>What an accepted upload holds\<close>

definition files_size :: "(string, string) dict \<Rightarrow> nat" where
  "files_size files = sum_list (map (length \<circ> snd) files)"

definition resource_path :: "string \<Rightarrow> bool" where
  "resource_path p \<longleftrightarrow> relative_file (JStr p) = Inr p"

definition unpack_inv :: "unpack_state \<Rightarrow> bool" where
  "unpack_inv st \<longleftrightarrow>
     distinct (map fst (up_files st))
     \<and> (\<forall>p \<in> fst ` set (up_files st). resource_path p \<and> lower p \<in> set (up_folded st))
     \<and> files_size (up_files st) = up_size st \<and> up_size st \<le> 100 * MiB
     \<and> length (up_files st) \<le> 1000"

lemma relative_file_again: "relative_file v = Inr w \<Longrightarrow> resource_path w"
  unfolding resource_path_def
  by (erule relative_fileD) (auto intro!: relative_file_join dest: posix_tail_component)

lemma unpack_entry_dir:
  "unpack_entry e st = Inr st' \<Longrightarrow> entry_is_dir e \<Longrightarrow>
    \<exists>path. st' = st\<lparr>up_folded := lower path # up_folded st\<rparr>"
  by (auto simp: unpack_entry_def Let_def exc_simps)

lemma unpack_entry_file:
  "unpack_entry e st = Inr st' \<Longrightarrow> \<not> entry_is_dir e \<Longrightarrow>
    \<exists>path data. resource_path path \<and> lower path \<notin> set (up_folded st)
      \<and> up_size st + file_size e \<le> 100 * MiB \<and> length (up_files st) < 1000
      \<and> length data = file_size e
      \<and> st' = st\<lparr>up_folded := lower path # up_folded st, up_files := dput path data (up_files st),
                  up_size := up_size st + file_size e\<rparr>"
  by (simp add: unpack_entry_def Let_def exc_simps) (fastforce dest: relative_file_again)

lemma unpack_entry_inv:
  assumes "unpack_inv st" and "unpack_entry e st = Inr st'"
  shows "unpack_inv st'"
proof (cases "entry_is_dir e")
  case True
  then show ?thesis using unpack_entry_dir [OF assms(2)] assms(1) unfolding unpack_inv_def by fastforce
next
  case False
  then obtain path data where path: "resource_path path" "lower path \<notin> set (up_folded st)"
    "up_size st + file_size e \<le> 100 * MiB" "length (up_files st) < 1000" "length data = file_size e"
    and st': "st' = st\<lparr>up_folded := lower path # up_folded st, up_files := dput path data (up_files st),
                  up_size := up_size st + file_size e\<rparr>"
    using unpack_entry_file [OF assms(2)] by blast
  have new: "path \<notin> fst ` set (up_files st)"
    using assms(1) path(2) by (auto simp: unpack_inv_def)
  show ?thesis
    using path assms(1) new unfolding st' by (auto simp: unpack_inv_def files_size_def dput_new [OF new])
qed

lemma unpack_archive_inv:
  assumes "unpack_archive entries = Inr files"
  obtains st where "unpack_inv st" "files = up_files st"
proof -
  from assms obtain st where st: "files = up_files st"
    "efold unpack_entry entries \<lparr>up_files = [], up_folded = [], up_size = 0\<rparr> = Inr st"
    by (auto simp: unpack_archive_def exc_simps)
  have "unpack_inv st"
  proof (rule efold_invariant [OF st(2), where P = unpack_inv])
    show "unpack_inv \<lparr>up_files = [], up_folded = [], up_size = 0\<rparr>"
      by (simp add: unpack_inv_def files_size_def)
  qed (rule unpack_entry_inv)
  with st(1) show thesis by (rule that [rotated])
qed

lemma split_on_append_sep:
  "split_on c (xs @ c # ys) = split_on c xs @ split_on c ys"
proof (induction xs)
  case Nil
  then show ?case by simp
next
  case (Cons x xs)
  then show ?case by (cases "split_on c xs") auto
qed

lemma resource_pathD:
  assumes "resource_path p"
  shows "p = join_with ''/'' (posix_tail p)" "posix_tail p \<noteq> []"
    "list_all safe_component (posix_tail p)" "posix_root p = []" "posix_parts p = posix_tail p"
    "split_on (CHR ''/'') p = posix_tail p"
proof -
  from assms have r: "relative_file (JStr p) = Inr p" by (simp add: resource_path_def)
  obtain s where s: "JStr p = JStr s" "p = join_with ''/'' (posix_tail s)" "posix_tail s \<noteq> []"
    "list_all safe_component (posix_tail s)" "CHR '':'' \<notin> set s"
    by (rule relative_fileD [OF r])
  then show *: "p = join_with ''/'' (posix_tail p)" "posix_tail p \<noteq> []"
    "list_all safe_component (posix_tail p)" by auto
  show root: "posix_root p = []" by (subst *(1)) (rule safe_join_root [OF *(3)])
  then show "posix_parts p = posix_tail p" by (simp add: posix_parts_def)
  have "split_on (CHR ''/'') (join_with ''/'' (posix_tail p)) = posix_tail p"
    using * by (intro split_join) (auto simp: list_all_iff safe_component_def)
  then show "split_on (CHR ''/'') p = posix_tail p" using *(1) by simp
qed

text \<open>Stripping the Skill root (a directory prefix ending in a slash) keeps a path safe.\<close>

lemma strip_root_parts:
  assumes "resource_path (d @ ''/'' @ rest)"
  shows "list_all safe_component (posix_parts rest) \<and> posix_parts rest \<noteq> []"
proof -
  note p = resource_pathD [OF assms]
  have "split_on (CHR ''/'') (d @ CHR ''/'' # rest) = split_on (CHR ''/'') d @ split_on (CHR ''/'') rest"
    by (rule split_on_append_sep)
  with p(3,6) have "list_all safe_component (split_on (CHR ''/'') d @ split_on (CHR ''/'') rest)" by simp
  then have safe: "list_all safe_component (split_on (CHR ''/'') rest)" by simp
  then have "posix_tail rest = split_on (CHR ''/'') rest"
    by (auto simp: posix_tail_def filter_id_conv list_all_iff)
  moreover have "posix_root rest = []"
    using safe_join_root [OF safe] by (simp add: join_split)
  ultimately show ?thesis using safe by (simp add: posix_parts_def)
qed

lemma skill_prefix:
  assumes "resource_path p" and "path_name p = ''SKILL.md''"
  obtains "p = ''SKILL.md''" | d where "p = d @ ''/SKILL.md''"
proof -
  note r = resource_pathD [OF assms(1)]
  from assms(2) r(2) have l: "last (posix_tail p) = ''SKILL.md''" by (simp add: path_name_def)
  show thesis
  proof (cases "butlast (posix_tail p) = []")
    case True
    with l r(2) have "posix_tail p = [''SKILL.md'']" by (metis append_butlast_last_id self_append_conv2)
    with r(1) that(1) show thesis by simp
  next
    case False
    have snoc: "ps \<noteq> [] \<Longrightarrow> join_with ''/'' (ps @ [q]) = join_with ''/'' ps @ ''/'' @ q" for ps and q :: string
      by (induction ps rule: list_nonempty_induct) (auto simp: neq_Nil_conv)
    have "posix_tail p = butlast (posix_tail p) @ [''SKILL.md'']"
      using l r(2) by (metis append_butlast_last_id)
    with r(1) snoc [OF False, of "''SKILL.md''"] that(2) show thesis by (metis append_Cons append_Nil)
  qed
qed

lemma skill_rootD:
  assumes "skill_root files = Inr out" and "\<And>p. p \<in> fst ` set files \<Longrightarrow> resource_path p"
    and "distinct (map fst files)"
  shows "distinct (map fst out) \<and> length out = length files \<and> files_size out = files_size files
    \<and> (\<forall>p \<in> fst ` set out. list_all safe_component (posix_parts p) \<and> posix_parts p \<noteq> [])
    \<and> ''SKILL.md'' \<in> fst ` set out"
proof -
  from assms(1) obtain r where r: "filter (\<lambda>p. path_name p = ''SKILL.md'') (map fst files) = [r]"
    and out0: "out = map (\<lambda>(p, v). (drop (length (root_prefix r)) p, v)) files"
    and pre0: "\<forall>p \<in> set files. starts_with (fst p) (root_prefix r)"
    by (auto simp: skill_root_def Let_def exc_simps length_Suc_conv list_ex_iff dkeys_def)
  have "r \<in> set (filter (\<lambda>p. path_name p = ''SKILL.md'') (map fst files))" by (simp only: r) simp
  then have rin: "r \<in> fst ` set files" and rn: "path_name r = ''SKILL.md''" by auto
  define k where "k = root_prefix r"
  have out: "out = map (\<lambda>(p, v). (drop (length k) p, v)) files" using out0 by (simp add: k_def)
  have pre: "starts_with p k" if "p \<in> fst ` set files" for p
    using pre0 that by (auto simp: k_def)
  have key: "\<exists>q. p = k @ q \<and> drop (length k) p = q" if "p \<in> fst ` set files" for p
    using pre [OF that] by (auto simp: starts_with_def prefix_def)
  have safe: "list_all safe_component (posix_parts q) \<and> posix_parts q \<noteq> []"
    if "k @ q \<in> fst ` set files" for q
  proof (rule skill_prefix [OF assms(2) [OF rin] rn])
    assume "r = ''SKILL.md''"
    then show ?thesis using resource_pathD [OF assms(2) [OF that]] by (simp add: k_def root_prefix_def)
  next
    fix d assume "r = d @ ''/SKILL.md''"
    then have "k = d @ ''/''" by (simp add: k_def root_prefix_def)
    then show ?thesis using strip_root_parts [of d q] assms(2) [OF that] by simp
  qed
  have "r = k @ ''SKILL.md''"
    by (rule skill_prefix [OF assms(2) [OF rin] rn]) (auto simp: k_def root_prefix_def)
  then have "''SKILL.md'' \<in> fst ` set out"
    using rin unfolding out by (force simp: image_iff)
  moreover have "inj_on (drop (length k)) (fst ` set files)"
    using key by (intro inj_onI) metis
  then have "distinct (map fst out)"
    using assms(3) unfolding out
    by (simp add: comp_def case_prod_beta distinct_map inj_on_def image_iff)
  moreover have "files_size out = files_size files" "length out = length files"
    unfolding out by (simp_all add: files_size_def comp_def case_prod_beta)
  moreover have "\<forall>p \<in> fst ` set out. list_all safe_component (posix_parts p) \<and> posix_parts p \<noteq> []"
  proof
    fix q assume "q \<in> fst ` set out"
    then obtain p where p: "p \<in> fst ` set files" "q = drop (length k) p" unfolding out by force
    with key obtain q' where "p = k @ q'" "drop (length k) p = q'" by blast
    with p safe [of q'] show "list_all safe_component (posix_parts q) \<and> posix_parts q \<noteq> []" by simp
  qed
  ultimately show ?thesis by blast
qed

lemma zip_guard_Inr [simp]: "zip_guard m = Inr x \<longleftrightarrow> m = Inr x"
  by (cases m) (auto simp: zip_guard_def split: exc.splits)

lemma zip_guard_value [simp]: "zip_guard (Inr x) = Inr x"
  by simp

text \<open>C9: whatever an accepted Skill upload holds stays inside the Skill directory (every file
  path is relative and made of safe components), has a SKILL.md, has no two files of one
  path, at most 1000 files and at most 100 MiB in all.\<close>

theorem unpack_skill_contained:
  assumes "unpack_skill open_zip filename content = Inr (meta, files)"
  shows "(\<forall>p \<in> fst ` set files. list_all safe_component (posix_parts p) \<and> posix_parts p \<noteq> [])
    \<and> ''SKILL.md'' \<in> fst ` set files \<and> distinct (map fst files)
    \<and> length files \<le> 1000 \<and> files_size files \<le> 100 * MiB"
proof -
  from assms have small: "length content \<le> 20 * MiB"
    and "files = [(''SKILL.md'', content)]
      \<or> (\<exists>es raw. unpack_archive es = Inr raw \<and> skill_root raw = Inr files)"
    by (auto simp: unpack_skill_def exc_simps split: if_splits)
  then consider "files = [(''SKILL.md'', content)]"
    | es raw where "unpack_archive es = Inr raw" "skill_root raw = Inr files" by blast
  then show ?thesis
  proof cases
    case 1
    have "posix_parts ''SKILL.md'' = [''SKILL.md'']" by (simp add: posix_path_defs)
    with 1 small show ?thesis by (simp add: files_size_def safe_component_def)
  next
    case 2
    obtain st where st: "unpack_inv st" "raw = up_files st" by (rule unpack_archive_inv [OF 2(1)])
    then have "distinct (map fst raw)" "length raw \<le> 1000" "files_size raw \<le> 100 * MiB"
      "\<And>p. p \<in> fst ` set raw \<Longrightarrow> resource_path p"
      by (auto simp: unpack_inv_def)
    then show ?thesis using skill_rootD [OF 2(2)] by auto
  qed
qed

definition demo_skill :: string where
  "demo_skill = ''---'' @ [CHR 0x0A] @ ''name: a'' @ [CHR 0x0A] @ ''description: b'' @ [CHR 0x0A] @ ''---''"

theorem unpack_skill_contained_witness:
  "''SKILL.md'' \<in> fst ` set [(''SKILL.md'', demo_skill), (''x.py'', ''1'')] \<and>
   files_size [(''SKILL.md'', demo_skill), (''x.py'', ''1'')] \<le> 100 * MiB"
proof -
  let ?f = "\<lambda>n d. \<lparr>orig_filename = n, entry_kind = 0, encrypted = False, entry_is_dir = False,
    file_size = length d, entry_data = Inr d\<rparr>"
  let ?zip = "\<lambda>_. Inr [?f ''s/SKILL.md'' demo_skill, ?f ''s/x.py'' ''1'']"
  have meta: "skill_metadata demo_skill = Inr (''a'', ''b'')"
    by (simp add: skill_metadata_def demo_skill_def decode_utf8_sig_def frontmatter_def
        closes_header_def starts_with_def line_end_def is_space_def frontmatter_field_def
        strip_quotes_def strip_def skill_name_def is_lower_def dget_def)
  have len: "length demo_skill = 30" by (simp add: demo_skill_def)
  have "unpack_skill ?zip ''s.zip'' [] = Inr ((''a'', ''b''), [(''SKILL.md'', demo_skill), (''x.py'', ''1'')])"
    by (simp add: unpack_skill_def unpack_archive_def unpack_entry_def rstrip_slash_def relative_file_def
        posix_path_defs lower_def to_lower_def is_upper_def skill_root_def root_prefix_def dkeys_def
        ends_with_def meta len MiB_def Let_def)
  from unpack_skill_contained [OF this] show ?thesis by simp
qed

end
