(* ===== verification/ModelRouting.thy ===== *)
theory ModelRouting
  imports Validation
begin

text \<open>
  \<open>shared_libs/model_routing.py\<close>: the deployments a managed model becomes in the model
  gateway's router, shared by publish, preview and probes; then \<open>validate_mcp\<close> and
  \<open>validate_model\<close> of \<open>catalog_service/src/management.py\<close>. A model's ID is text here:
  every stored model passed \<open>identifier\<close>.
\<close>

section \<open>Helpers\<close>

definition por :: "json \<Rightarrow> json \<Rightarrow> json" where
  "por a b = (if truthy a then a else b)"

text \<open>\<open>urlparse(x)\<close> of a JSON value: a falsy value is an empty URL, other values that are not
  text have no \<open>decode\<close>.\<close>

definition urlparse :: "json \<Rightarrow> url res" where
  "urlparse v = (case v of JStr s \<Rightarrow> urlsplit s
     | _ \<Rightarrow> if truthy v then Inl (AttributeError ''decode'') else urlsplit [])"

definition http_url :: "url \<Rightarrow> bool" where
  "http_url u \<longleftrightarrow> url_scheme u \<in> {''http'', ''https''} \<and> url_hostname u \<noteq> []
     \<and> url_username u = [] \<and> url_password u = []"

definition unmapped_keys :: "jdict \<Rightarrow> string list \<Rightarrow> string list" where
  "unmapped_keys d allowed = filter (\<lambda>k. k \<notin> set allowed) (dkeys d)"

text \<open>\<open>{**x}\<close> needs a mapping.\<close>

definition as_mapping :: "json \<Rightarrow> jdict res" where
  "as_mapping v = (case v of JObj d \<Rightarrow> Inr d | _ \<Rightarrow> Inl (TypeError ''object is not a mapping''))"

section \<open>Router deployments\<close>

definition PROVIDERS :: "(string, string) dict" where
  "PROVIDERS = [(''openai-compatible'', ''openai''), (''openai'', ''openai''),
     (''anthropic'', ''anthropic''), (''google'', ''gemini'')]"

definition DEPLOYMENT_FIELDS :: "string list" where
  "DEPLOYMENT_FIELDS = [''id'', ''api_key'', ''base_url'', ''upstream_model'', ''headers'', ''enabled'',
     ''rpm'', ''tpm'', ''weight'']"

record router_entry =
  model_name :: string
  litellm_params :: jdict
  model_info_id :: string

definition positive_limit :: "string \<Rightarrow> json \<Rightarrow> bool" where
  "positive_limit field v \<longleftrightarrow>
     (case v of JInt i \<Rightarrow> i > 0 | JFloat r \<Rightarrow> r > 0 \<and> field = ''weight'' | _ \<Rightarrow> False)"

definition deployment_limits :: "jdict \<Rightarrow> jdict res" where
  "deployment_limits deployment =
    efold (\<lambda>field limits.
      let value = jget deployment field in
      if value = JNull then Inr limits
      else if \<not> positive_limit field value
      then Inl (ValueError (''Deployment '' @ field @ '' must be a positive ''
             @ (if field = ''weight'' then ''number'' else ''integer'')))
      else Inr (dput field value limits)) [''rpm'', ''tpm'', ''weight''] []"

definition placeholder_key :: "string \<Rightarrow> bool" where
  "placeholder_key key \<longleftrightarrow> strip key = [] \<or> key = MASK \<or> starts_with key ''${''
     \<or> starts_with key ''{env:'' \<or> starts_with key ''{file:'' \<or> starts_with key ''os.environ/''"

definition deployment_base :: "json \<Rightarrow> string res" where
  "deployment_base base =
    (case base of JStr s \<Rightarrow>
       (if s = [] then Inr s
        else ebind (urlsplit s) (\<lambda>parsed.
          if http_url parsed \<and> url_query parsed = [] \<and> url_fragment parsed = [] then Inr s
          else Inl (ValueError ''Deployment URL must be HTTP(S), without credentials, query or fragment'')))
     | _ \<Rightarrow> Inl (ValueError ''Deployment base URL must be text''))"

definition entry_identifier :: "bool \<Rightarrow> string \<Rightarrow> string \<Rightarrow> nat \<Rightarrow> string" where
  "entry_identifier explicit mid did index =
    (if explicit then mid @ '':'' @ did
     else mid @ (if index = 0 then [] else ''-extra-'' @ dec_nat index))"

definition router_params ::
  "jdict \<Rightarrow> string \<Rightarrow> json \<Rightarrow> jdict \<Rightarrow> string \<Rightarrow> jdict \<Rightarrow> jdict" where
  "router_params parameters upstream key limits base merged_headers =
    (let params = dupdate (dput ''api_key'' key (dput ''model'' (JStr upstream) parameters)) limits;
         params1 = (if base \<noteq> [] then dput ''api_base'' (JStr base) params else params)
     in if merged_headers \<noteq> [] then dput ''extra_headers'' (JObj merged_headers) params1 else params1)"

text \<open>The body of the loop over the deployments.\<close>

definition deployment_step ::
  "jdict \<Rightarrow> string \<Rightarrow> string \<Rightarrow> bool \<Rightarrow> bool \<Rightarrow> nat \<times> json
    \<Rightarrow> string list \<times> router_entry list \<Rightarrow> (string list \<times> router_entry list) res" where
  "deployment_step model pre mid explicit require_credentials = (\<lambda>(index, item) (ids, entries).
    ebind (raise_if (\<not> is_JObj item \<or> unmapped_keys (obj_of item) DEPLOYMENT_FIELDS \<noteq> [])
      (ValueError ''Unsupported upstream deployment fields'')) (\<lambda>_.
    let deployment = obj_of item; did = str_of (jget deployment ''id'') in
    ebind (raise_if (\<not> is_JStr (jget deployment ''id'') \<or> \<not> platform_id did \<or> did \<in> set ids)
      (ValueError ''Deployment IDs must be unique, using 1-64 letters, digits, hyphens or underscores'')) (\<lambda>_.
    ebind (raise_if (\<not> is_JBool (dget deployment ''enabled'' (JBool True)))
      (ValueError ''Deployment enabled must be a boolean'')) (\<lambda>_.
    ebind (jindex model ''upstream_model'') (\<lambda>model_upstream.
    let upstream = por (jget deployment ''upstream_model'') model_upstream in
    ebind (raise_if (\<not> is_JStr upstream) (ValueError ''Deployment upstream model must be text'')) (\<lambda>_.
    ebind (deployment_base (por (jget deployment ''base_url'') (dget model ''base_url'' (JStr [])))) (\<lambda>base.
    let key = dget deployment ''api_key'' (JStr []) in
    ebind (raise_if (\<not> is_JStr key) (ValueError ''Deployment API key must be text'')) (\<lambda>_.
    let headers = dget deployment ''headers'' (JObj []) in
    ebind (raise_if (\<not> is_JObj headers \<or> list_ex (\<lambda>(_, v). \<not> is_JStr v) (obj_of headers))
      (ValueError ''Deployment headers must contain string values'')) (\<lambda>_.
    ebind (deployment_limits deployment) (\<lambda>limits.
    if dget deployment ''enabled'' (JBool True) = JBool False then Inr (did # ids, entries)
    else ebind (raise_if (require_credentials \<and> placeholder_key (str_of key))
      (ValueError ''Configure a real API key for every enabled deployment'')) (\<lambda>_.
    ebind (as_mapping (dget model ''parameters'' (JObj []))) (\<lambda>parameters.
    ebind (as_mapping (dget model ''headers'' (JObj []))) (\<lambda>model_headers.
    Inr (did # ids, entries @ [\<lparr>model_name = mid,
      litellm_params = router_params parameters (pre @ ''/'' @ str_of upstream) key limits base
        (dupdate model_headers (obj_of headers)),
      model_info_id = entry_identifier explicit mid did index\<rparr>]))))))))))))))"

text \<open>The deployments a single key and its endpoints stand for.\<close>

definition implicit_deployments :: "jdict \<Rightarrow> json list res" where
  "implicit_deployments model =
    ebind (jiter (dget model ''additional_base_urls'' (JArr []))) (\<lambda>bases.
    Inr (JObj [(''id'', JStr ''primary''), (''api_key'', dget model ''api_key'' (JStr [])),
               (''base_url'', dget model ''base_url'' (JStr []))]
      # map (\<lambda>(i, base). JObj [(''id'', JStr (''extra-'' @ dec_nat i)),
               (''api_key'', dget model ''api_key'' (JStr [])), (''base_url'', base)])
          (zip [1..<Suc (length bases)] bases)))"

definition deployment_entries :: "jdict \<Rightarrow> bool \<Rightarrow> router_entry list res" where
  "deployment_entries model require_credentials =
    ebind (raise_if (\<not> hashable (jget model ''provider'')) (TypeError ''unhashable type'')) (\<lambda>_.
    let pre = dget PROVIDERS (str_of (jget model ''provider'')) [] in
    ebind (raise_if (pre = [] \<or> \<not> truthy (jget model ''id'') \<or> \<not> truthy (jget model ''upstream_model''))
      (ValueError ''Managed model requires an ID, provider and upstream model'')) (\<lambda>_.
    let deployments = dget model ''deployments'' (JArr []) in
    ebind (raise_if (\<not> is_JArr deployments \<or> length (arr_of deployments) > 32)
      (ValueError ''Use at most 32 upstream deployments per model'')) (\<lambda>_.
    let explicit = truthy deployments in
    ebind (raise_if (explicit \<and> (truthy (jget model ''api_key'') \<or> truthy (jget model ''additional_base_urls'')))
      (ValueError ''Use deployments or the single API key/endpoints, not both'')) (\<lambda>_.
    ebind (if explicit then Inr (arr_of deployments) else implicit_deployments model) (\<lambda>items.
    ebind (raise_if (\<not> is_JStr (jget model ''id'')) (TypeError ''model ID'')) (\<lambda>_.
    ebind (efold (deployment_step model pre (str_of (jget model ''id'')) explicit require_credentials)
      (zip [0..<length items] items) ([], [])) (\<lambda>(ids, entries).
    ebind (raise_if (entries = []) (ValueError ''Enable at least one upstream deployment'')) (\<lambda>_.
    Inr entries))))))))"

section \<open>Entries of one model\<close>

lemma deployment_limits_keys:
  assumes "deployment_limits d = Inr limits"
  shows "fst ` set limits \<subseteq> {''rpm'', ''tpm'', ''weight''}"
  using assms unfolding deployment_limits_def
proof (rule efold_invariant [where P = "\<lambda>l. fst ` set l \<subseteq> {''rpm'', ''tpm'', ''weight''}"])
  fix f u v
  assume f: "f \<in> set [''rpm'', ''tpm'', ''weight'']" and u: "fst ` set u \<subseteq> {''rpm'', ''tpm'', ''weight''}"
    and "(let value = jget d f in if value = JNull then Inr u
      else if \<not> positive_limit f value
      then Inl (ValueError (''Deployment '' @ f @ '' must be a positive ''
             @ (if f = ''weight'' then ''number'' else ''integer'')))
      else Inr (dput f value u)) = Inr v"
  then have "v = u \<or> v = dput f (jget d f) u" by (simp add: Let_def split: if_splits)
  then show "fst ` set v \<subseteq> {''rpm'', ''tpm'', ''weight''}"
    using f u set_fst_dput [of f "jget d f" u] by (elim disjE) (simp, simp only: insert_subset, simp)
qed simp

lemma jget_dupdate_other: "k \<notin> fst ` set u \<Longrightarrow> jget (dupdate d u) k = jget d k"
  by (simp add: jget_def dget_def map_of_dupdate map_add_def map_of_eq_None_iff [THEN iffD2] split: option.split)

definition real_key :: "router_entry \<Rightarrow> bool" where
  "real_key e \<longleftrightarrow> \<not> placeholder_key (str_of (jget (litellm_params e) ''api_key''))"

lemma router_params_key:
  "deployment_limits d = Inr limits \<Longrightarrow> jget (router_params ps up key limits base hs) ''api_key'' = key"
proof -
  assume "deployment_limits d = Inr limits"
  then have "''api_key'' \<notin> fst ` set limits" using deployment_limits_keys by fastforce
  then show ?thesis by (simp add: router_params_def Let_def jget_dupdate_other)
qed

lemma deployment_step_cases:
  assumes "deployment_step model pre mid explicit rc (index, item) (ids, entries) = Inr (ids', entries')"
  obtains did where "did \<notin> set ids" "platform_id did" "ids' = did # ids"
    "entries' = entries \<or> (\<exists>e. entries' = entries @ [e] \<and> model_name e = mid
       \<and> model_info_id e = entry_identifier explicit mid did index \<and> (rc \<longrightarrow> real_key e))"
proof (cases "dget (obj_of item) ''enabled'' (JBool True) = JBool False")
  case True
  with assms show thesis
    by (auto simp: deployment_step_def Let_def exc_simps intro: that)
next
  case False
  with assms show thesis
    by (auto simp: deployment_step_def Let_def exc_simps real_key_def router_params_key intro!: that)
qed

lemma entry_identifier_inject:
  "entry_identifier explicit mid did i = entry_identifier explicit mid did' j \<longleftrightarrow>
     (if explicit then did = did' else i = j)"
  by (auto simp: entry_identifier_def)

definition entries_inv ::
  "bool \<Rightarrow> string \<Rightarrow> bool \<Rightarrow> nat \<Rightarrow> string list \<times> router_entry list \<Rightarrow> bool" where
  "entries_inv explicit mid rc n = (\<lambda>(ids, entries).
     distinct (map model_info_id entries)
     \<and> (\<forall>e \<in> set entries. model_name e = mid \<and> (rc \<longrightarrow> real_key e) \<and>
          (\<exists>did \<in> set ids. \<exists>i < n. platform_id did \<and> model_info_id e = entry_identifier explicit mid did i)))"

lemma deployment_step_inv:
  assumes "entries_inv explicit mid rc n (ids, entries)"
    and "deployment_step model pre mid explicit rc (n, item) (ids, entries) = Inr (ids', entries')"
  shows "entries_inv explicit mid rc (Suc n) (ids', entries')"
proof -
  obtain did where did: "did \<notin> set ids" "platform_id did" "ids' = did # ids"
    and e: "entries' = entries \<or> (\<exists>e. entries' = entries @ [e] \<and> model_name e = mid
       \<and> model_info_id e = entry_identifier explicit mid did n \<and> (rc \<longrightarrow> real_key e))"
    by (rule deployment_step_cases [OF assms(2)])
  have "entry_identifier explicit mid did n \<notin> model_info_id ` set entries"
  proof
    assume "entry_identifier explicit mid did n \<in> model_info_id ` set entries"
    then obtain d i where "d \<in> set ids" "i < n"
      "entry_identifier explicit mid did n = entry_identifier explicit mid d i"
      using assms(1) by (fastforce simp: entries_inv_def)
    then show False using did(1) by (auto simp: entry_identifier_inject split: if_splits)
  qed
  then show ?thesis
    using assms(1) did e unfolding entries_inv_def by (auto simp: less_Suc_eq) (metis less_SucI)+
qed

lemma deployment_loop_inv:
  assumes "efold (deployment_step model pre mid explicit rc) (zip [n..<n + length items] items) st = Inr st'"
    and "entries_inv explicit mid rc n st"
  shows "entries_inv explicit mid rc (n + length items) st'"
  using assms
proof (induction items arbitrary: n st)
  case Nil
  then show ?case by simp
next
  case (Cons item items)
  obtain ids entries where st: "st = (ids, entries)" by (cases st)
  have "[n..<n + length (item # items)] = n # [Suc n..<Suc n + length items]"
    using upt_conv_Cons [of n "n + length (item # items)"] by simp
  with Cons.prems(1) obtain ids' entries' where
    step: "deployment_step model pre mid explicit rc (n, item) st = Inr (ids', entries')"
    and rest: "efold (deployment_step model pre mid explicit rc) (zip [Suc n..<Suc n + length items] items)
      (ids', entries') = Inr st'"
    by (auto simp: exc_simps)
  have "entries_inv explicit mid rc (Suc n) (ids', entries')"
    using deployment_step_inv step Cons.prems(2) unfolding st by blast
  from Cons.IH [OF rest this] show ?case by simp
qed

lemma deployment_entriesD:
  assumes "deployment_entries model rc = Inr es"
  obtains ids n where "es \<noteq> []" "is_JStr (jget model ''id'')"
    "entries_inv (truthy (dget model ''deployments'' (JArr []))) (str_of (jget model ''id'')) rc n (ids, es)"
proof -
  let ?explicit = "truthy (dget model ''deployments'' (JArr []))"
  from assms obtain pre items ids where es: "es \<noteq> []" "is_JStr (jget model ''id'')"
    and loop: "efold (deployment_step model pre (str_of (jget model ''id'')) ?explicit rc)
      (zip [0..<length items] items) ([], []) = Inr (ids, es)"
    by (auto simp: deployment_entries_def Let_def exc_simps split: if_splits)
  have "entries_inv ?explicit (str_of (jget model ''id'')) rc (0 + length items) (ids, es)"
    by (rule deployment_loop_inv) (use loop in \<open>auto simp: entries_inv_def\<close>)
  with es show thesis by (rule that)
qed

text \<open>The router entries of an accepted model are not empty, all carry the model's ID as the
  name and have distinct deployment identifiers; when credentials are required, no entry
  carries a blank, masked or placeholder key.\<close>

theorem deployment_entries_sound:
  assumes "deployment_entries model rc = Inr es"
  shows "es \<noteq> [] \<and> distinct (map model_info_id es)
    \<and> (\<forall>e \<in> set es. JStr (model_name e) = jget model ''id'' \<and> (rc \<longrightarrow> real_key e))"
proof -
  obtain ids n where "es \<noteq> []" "is_JStr (jget model ''id'')"
    "entries_inv (truthy (dget model ''deployments'' (JArr []))) (str_of (jget model ''id'')) rc n (ids, es)"
    by (rule deployment_entriesD [OF assms])
  then show ?thesis by (cases "jget model ''id''") (auto simp: entries_inv_def)
qed

definition demo_model :: "string \<Rightarrow> json list \<Rightarrow> jdict" where
  "demo_model mid bases = [(''id'', JStr mid), (''provider'', JStr ''openai''), (''upstream_model'', JStr ''g''),
     (''api_key'', JStr ''k''), (''additional_base_urls'', JArr bases)]"

lemma demo_entries:
  "deployment_entries (demo_model mid []) True =
     (if mid = [] then Inl (ValueError ''Managed model requires an ID, provider and upstream model'')
      else Inr [\<lparr>model_name = mid, litellm_params = [(''model'', JStr ''openai/g''), (''api_key'', JStr ''k'')],
              model_info_id = mid\<rparr>])"
  by (simp add: deployment_entries_def demo_model_def jget_def dget_def PROVIDERS_def
      implicit_deployments_def deployment_step_def unmapped_keys_def dkeys_def DEPLOYMENT_FIELDS_def
      platform_id_def char_class_defs por_def jindex_def deployment_base_def deployment_limits_def
      placeholder_key_def strip_def is_space_def starts_with_def as_mapping_def dupdate_def
      entry_identifier_def MASK_def numeral_eq_Suc router_params_def)

theorem deployment_entries_sound_witness:
  "\<exists>es. deployment_entries (demo_model ''m'' []) True = Inr es \<and> es \<noteq> [] \<and> (\<forall>e \<in> set es. real_key e)"
proof -
  obtain es where es: "deployment_entries (demo_model ''m'' []) True = Inr es" by (simp add: demo_entries)
  from deployment_entries_sound [OF es] es show ?thesis by auto
qed

section \<open>Entries of different models\<close>

lemma colon_split:
  "a @ CHR '':'' # x = b @ CHR '':'' # y \<Longrightarrow> CHR '':'' \<notin> set a \<Longrightarrow> CHR '':'' \<notin> set b \<Longrightarrow> a = b"
  by (induction a arbitrary: b; case_tac b) auto

lemma explicit_identifiers:
  assumes "deployment_entries model rc = Inr es" and "truthy (dget model ''deployments'' (JArr []))"
    and "e \<in> set es"
  shows "\<exists>did. model_info_id e = str_of (jget model ''id'') @ '':'' @ did"
proof -
  obtain ids n where "entries_inv True (str_of (jget model ''id'')) rc n (ids, es)"
    using deployment_entriesD [OF assms(1)] assms(2) by metis
  with assms(3) show ?thesis by (auto simp: entries_inv_def entry_identifier_def)
qed

text \<open>Two models with different platform IDs that list their deployments never share a
  deployment identifier in the router.\<close>

theorem explicit_deployments_disjoint:
  assumes "deployment_entries m rc = Inr es" and "deployment_entries m' rc = Inr es'"
    and "truthy (dget m ''deployments'' (JArr []))" and "truthy (dget m' ''deployments'' (JArr []))"
    and "platform_id (str_of (jget m ''id''))" and "platform_id (str_of (jget m' ''id''))"
    and "str_of (jget m ''id'') \<noteq> str_of (jget m' ''id'')"
  shows "model_info_id ` set es \<inter> model_info_id ` set es' = {}"
proof (rule ccontr)
  assume "model_info_id ` set es \<inter> model_info_id ` set es' \<noteq> {}"
  then obtain e e' where e: "e \<in> set es" "e' \<in> set es'" "model_info_id e = model_info_id e'" by blast
  obtain x y where xy: "model_info_id e = str_of (jget m ''id'') @ '':'' @ x"
    "model_info_id e' = str_of (jget m' ''id'') @ '':'' @ y"
    using explicit_identifiers [OF assms(1,3) e(1)] explicit_identifiers [OF assms(2,4) e(2)] by blast
  then have "str_of (jget m ''id'') @ '':'' @ x = str_of (jget m' ''id'') @ '':'' @ y"
    using e(3) by (simp only:)
  then have "str_of (jget m ''id'') @ CHR '':'' # x = str_of (jget m' ''id'') @ CHR '':'' # y"
    by (simp only: append_Cons append_Nil)
  then have "str_of (jget m ''id'') = str_of (jget m' ''id'')"
    by (rule colon_split [OF _ platform_id_no_colon platform_id_no_colon]) (rule assms)+
  with assms(7) show False by simp
qed

definition demo_pool :: "string \<Rightarrow> jdict" where
  "demo_pool mid = [(''id'', JStr mid), (''provider'', JStr ''openai''), (''upstream_model'', JStr ''g''),
     (''deployments'', JArr [JObj [(''id'', JStr ''a''), (''api_key'', JStr ''k'')]])]"

lemmas routing_eval =
  deployment_entries_def jget_def dget_def PROVIDERS_def
  implicit_deployments_def deployment_step_def unmapped_keys_def dkeys_def DEPLOYMENT_FIELDS_def
  platform_id_def char_class_defs por_def jindex_def deployment_base_def deployment_limits_def
  placeholder_key_def strip_def is_space_def starts_with_def as_mapping_def dupdate_def
  entry_identifier_def MASK_def numeral_eq_Suc router_params_def Let_def

theorem explicit_deployments_disjoint_witness:
  "\<exists>es es'. deployment_entries (demo_pool ''m'') True = Inr es \<and> deployment_entries (demo_pool ''n'') True = Inr es'
    \<and> model_info_id ` set es \<inter> model_info_id ` set es' = {}"
proof -
  obtain es es' where es: "deployment_entries (demo_pool ''m'') True = Inr es"
    "deployment_entries (demo_pool ''n'') True = Inr es'"
    by (simp add: demo_pool_def routing_eval)
  have "model_info_id ` set es \<inter> model_info_id ` set es' = {}"
    by (rule explicit_deployments_disjoint [OF es])
      (simp_all add: demo_pool_def jget_def dget_def platform_id_def char_class_defs)
  with es show ?thesis by blast
qed

text \<open>C19: without listed deployments this fails. The additional endpoint of model \<open>m\<close> gets the
  identifier \<open>m-extra-1\<close>, which is also a valid platform ID, so a model of that name gets
  the same identifier for its own entry.\<close>

theorem extra_endpoint_collides:
  "\<exists>es es'. deployment_entries (demo_model ''m'' [JStr ''http://h'']) True = Inr es
    \<and> deployment_entries (demo_model ''m-extra-1'' []) True = Inr es'
    \<and> platform_id ''m-extra-1''
    \<and> model_info_id ` set es \<inter> model_info_id ` set es' = {''m-extra-1''}"
proof -
  have one: "dec_nat (Suc 0) = ''1''" by (simp add: dec_nat.simps char_of_eq_iff)
  have url: "urlsplit ''http://h'' = Inr \<lparr>url_scheme = ''http'', url_netloc = ''h'', url_rest = [],
      url_query = [], url_fragment = []\<rparr>"
    by (simp add: urlsplit_def c0_or_space_def starts_with_def char_class_defs scheme_char_def
        lower_def to_lower_def Let_def)
  have host: "http_url \<lparr>url_scheme = ''http'', url_netloc = ''h'', url_rest = [],
      url_query = [], url_fragment = []\<rparr>"
    by (simp add: http_url_def url_hostname_def url_username_def url_password_def rpartition_at_def)
  show ?thesis
    by (simp add: demo_model_def routing_eval one url host)
qed

end
