(* ===== verification/ModelConfig.thy ===== *)
theory ModelConfig
  imports ModelRouting
begin

text \<open>
  \<open>validate_mcp\<close> and \<open>validate_model\<close> of \<open>catalog_service/src/management.py\<close>: what an MCP
  server and a model may be configured to before they are stored.
\<close>

definition string_entry :: "string \<times> json \<Rightarrow> bool" where
  "string_entry = (\<lambda>(k, v). is_JStr v \<and> CHR 0x0A \<notin> set k \<and> CHR 0x0D \<notin> set k)"

definition MCP_FIELDS :: "string list" where
  "MCP_FIELDS = [''type'', ''url'', ''headers'', ''timeout'', ''enabled'', ''command'', ''cwd'',
     ''environment'', ''oauth'']"

definition INSTALLERS :: "string list" where
  "INSTALLERS = [''npx'', ''npm'', ''pnpm'', ''yarn'', ''uvx'', ''pip'', ''pip3'', ''bash'', ''sh'', ''cmd'',
     ''powershell'']"

text \<open>An integer timeout, where \<open>True\<close> counts as 1.\<close>

definition timeout_ok :: "json \<Rightarrow> bool" where
  "timeout_ok v \<longleftrightarrow> is_int v \<and> (case num_of v of Some n \<Rightarrow> 1 \<le> n \<and> n \<le> 120000 | None \<Rightarrow> False)"

definition mcp_remote :: "jdict \<Rightarrow> jdict res" where
  "mcp_remote data =
    ebind (urlparse (dget data ''url'' (JStr []))) (\<lambda>url.
    ebind (raise_if (\<not> http_url url) (fail ''MCP URL must be HTTP(S), without embedded credentials'' 400)) (\<lambda>_.
    ebind (raise_if (jhas data ''command'' \<or> jhas data ''environment'' \<or> jhas data ''cwd'')
      (fail ''Remote MCP cannot contain command settings'' 400)) (\<lambda>_.
    Inr (dput ''oauth'' (JBool False) data))))"

definition mcp_local :: "jdict \<Rightarrow> jdict res" where
  "mcp_local data =
    (let command = jget data ''command''; words = arr_of command; cwd = jget data ''cwd'' in
    ebind (raise_if (\<not> is_JArr command \<or> words = [] \<or> list_ex (\<lambda>x. \<not> is_JStr x \<or> x = JStr []) words)
      (fail ''MCP command must be a non-empty string array'' 400)) (\<lambda>_.
    ebind (raise_if (jhas data ''url'' \<or> jhas data ''headers'')
      (fail ''Local MCP cannot contain remote settings'' 400)) (\<lambda>_.
    ebind (raise_if (path_name (str_of (hd words)) \<in> set INSTALLERS)
      (fail ''Use an already installed MCP executable; installers and shell wrappers are unsupported'' 400)) (\<lambda>_.
    ebind (raise_if (truthy cwd \<and> \<not> is_JStr cwd) (TypeError ''PurePosixPath'')) (\<lambda>_.
    ebind (raise_if (truthy cwd \<and> (\<not> path_is_relative_to (str_of cwd) ''/workspace''
        \<or> ''..'' \<in> set (posix_parts (str_of cwd))))
      (fail ''MCP cwd must be under /workspace'' 400)) (\<lambda>_.
    Inr data))))))"

definition validate_mcp :: "jdict \<Rightarrow> jdict res" where
  "validate_mcp data =
    ebind (raise_if (unmapped_keys data MCP_FIELDS \<noteq> []) (fail ''Unsupported MCP configuration field'' 400)) (\<lambda>_.
    ebind (raise_if (dget data ''oauth'' (JBool False) \<noteq> JBool False) (fail ''MCP OAuth is not supported'' 400)) (\<lambda>_.
    ebind (raise_if (\<not> timeout_ok (dget data ''timeout'' (JInt 10000))) (fail ''MCP timeout must be 1-120000 ms'' 400)) (\<lambda>_.
    ebind (raise_if (list_ex (\<lambda>field. jhas data field \<and>
        (\<not> is_JObj (jget data field) \<or> \<not> list_all string_entry (obj_of (jget data field))))
        [''headers'', ''environment''])
      (fail ''MCP headers/environment must contain string values'' 400)) (\<lambda>_.
    if jget data ''type'' = JStr ''remote'' then mcp_remote data
    else if jget data ''type'' = JStr ''local'' then mcp_local data
    else Inl (fail ''MCP type must be local or remote'' 400)))))"

section \<open>Models\<close>

definition MODEL_FIELDS :: "string list" where
  "MODEL_FIELDS = [''id'', ''name'', ''provider'', ''upstream_model'', ''base_url'', ''additional_base_urls'',
     ''api_key'', ''deployments'', ''headers'', ''parameters'', ''context'', ''output'', ''enabled'', ''legacy'']"

definition model_endpoint :: "json \<Rightarrow> string \<Rightarrow> unit res" where
  "model_endpoint base message =
    ebind (urlparse base) (\<lambda>url. raise_if (\<not> http_url url) (fail message 400))"

definition parameter_value :: "json \<Rightarrow> bool" where
  "parameter_value v \<longleftrightarrow> (case v of JInt _ \<Rightarrow> True | JFloat _ \<Rightarrow> True | JStr _ \<Rightarrow> True | _ \<Rightarrow> False)"

definition token_limit :: "json \<Rightarrow> bool" where
  "token_limit v \<longleftrightarrow> is_int v \<and> (case num_of v of Some n \<Rightarrow> 1 \<le> n | None \<Rightarrow> False)"

text \<open>\<open>except ValueError\<close> around \<open>deployment_entries\<close>.\<close>

definition routing_check :: "jdict \<Rightarrow> unit res" where
  "routing_check model =
    (case deployment_entries model False of
       Inl (ValueError m) \<Rightarrow> Inl (fail m 400)
     | Inl (WorkspacePathError m) \<Rightarrow> Inl (fail m 400)
     | Inl e \<Rightarrow> Inl e
     | Inr _ \<Rightarrow> Inr ())"

definition validate_model :: "jdict \<Rightarrow> jdict res" where
  "validate_model model =
    ebind (platform_identifier (jget model ''id'')) (\<lambda>_.
    ebind (raise_if (unmapped_keys model MODEL_FIELDS \<noteq> [])
      (fail (''Unsupported model fields: '' @ join_with '', '' (sort (remdups (unmapped_keys model MODEL_FIELDS)))) 400)) (\<lambda>_.
    ebind (in_strings (jget model ''provider'') [''openai'', ''openai-compatible'', ''anthropic'', ''google'', ''legacy'']) (\<lambda>known.
    ebind (raise_if (\<not> known) (fail ''Unsupported provider'' 400)) (\<lambda>_.
    ebind (raise_if (\<not> is_JStr (jget model ''upstream_model'') \<or> \<not> truthy (jget model ''upstream_model''))
      (fail ''Upstream model is required'' 400)) (\<lambda>_.
    ebind (if truthy (jget model ''base_url'')
      then model_endpoint (jget model ''base_url'') ''Model URL must be HTTP(S), without embedded credentials''
      else Inr ()) (\<lambda>_.
    let alternatives = dget model ''additional_base_urls'' (JArr []) in
    ebind (raise_if (\<not> is_JArr alternatives \<or> length (arr_of alternatives) > 7)
      (fail ''At most seven equivalent additional endpoints are supported'' 400)) (\<lambda>_.
    ebind (efold (\<lambda>base _.
        ebind (raise_if (\<not> is_JStr base) (fail ''Additional endpoints must be URLs'' 400)) (\<lambda>_.
        model_endpoint base ''Additional model URL must be HTTP(S), without embedded credentials''))
      (arr_of alternatives) ()) (\<lambda>_.
    let parameters = dget model ''parameters'' (JObj []) in
    ebind (raise_if (\<not> is_JObj parameters \<or> unmapped_keys (obj_of parameters) MODEL_PARAMETERS \<noteq> [])
      (fail ''Unsupported model parameters'' 400)) (\<lambda>_.
    ebind (raise_if (list_ex (\<lambda>(_, v). \<not> parameter_value v) (obj_of parameters))
      (fail ''Invalid model parameter value'' 400)) (\<lambda>_.
    let headers = dget model ''headers'' (JObj []) in
    ebind (raise_if (\<not> is_JObj headers \<or> list_ex (\<lambda>(_, v). \<not> is_JStr v) (obj_of headers))
      (fail ''Headers must be string values'' 400)) (\<lambda>_.
    ebind (raise_if (list_ex (\<lambda>key. jget model key \<noteq> JNull \<and> \<not> token_limit (jget model key)) [''context'', ''output''])
      (fail ''Model token limits must be positive integers'' 400)) (\<lambda>_.
    ebind (if jget model ''provider'' \<noteq> JStr ''legacy'' then routing_check model
      else raise_if (truthy (jget model ''deployments'')) (fail ''Convert the legacy model before adding deployments'' 400)) (\<lambda>_.
    Inr model)))))))))))))"

section \<open>What accepted settings satisfy\<close>

text \<open>An accepted MCP server is either remote, with an HTTP(S) URL that names a host and
  carries no credentials, or a local command whose program is no installer or shell and whose
  working directory, when given, lies under /workspace; OAuth is never on.\<close>

theorem validate_mcp_confined:
  assumes "validate_mcp data = Inr out"
  shows "dget out ''oauth'' (JBool False) = JBool False \<and>
    (if jget data ''type'' = JStr ''remote''
     then (\<exists>u. urlparse (dget data ''url'' (JStr [])) = Inr u \<and> http_url u) \<and> \<not> jhas data ''command''
     else jget data ''type'' = JStr ''local'' \<and> out = data
       \<and> path_name (str_of (hd (arr_of (jget data ''command'')))) \<notin> set INSTALLERS
       \<and> (truthy (jget data ''cwd'') \<longrightarrow> path_is_relative_to (str_of (jget data ''cwd'')) ''/workspace''
            \<and> ''..'' \<notin> set (posix_parts (str_of (jget data ''cwd'')))))"
  using assms
  by (auto simp: validate_mcp_def mcp_remote_def mcp_local_def Let_def exc_simps split: if_splits)

theorem validate_mcp_confined_witness:
  "dget [(''type'', JStr ''local''), (''command'', JArr [JStr ''/usr/bin/tool'']), (''cwd'', JStr ''/workspace/a'')]
     ''oauth'' (JBool False) = JBool False"
proof -
  let ?d = "[(''type'', JStr ''local''), (''command'', JArr [JStr ''/usr/bin/tool'']), (''cwd'', JStr ''/workspace/a'')]"
  have "validate_mcp ?d = Inr ?d"
    by (simp add: validate_mcp_def mcp_local_def unmapped_keys_def dkeys_def MCP_FIELDS_def dget_def jget_def
        jhas_def timeout_ok_def posix_path_defs INSTALLERS_def path_is_relative_to_def Let_def)
  from validate_mcp_confined [OF this] show ?thesis by blast
qed

text \<open>A model that is accepted and not a legacy one can always be deployed: its router
  entries exist, and it has a platform ID and an HTTP(S) endpoint or none.\<close>

theorem validate_model_deployable:
  assumes "validate_model model = Inr out" and "jget model ''provider'' \<noteq> JStr ''legacy''"
  shows "out = model \<and> (\<exists>es. deployment_entries model False = Inr es \<and> es \<noteq> [])
    \<and> platform_id (str_of (jget model ''id''))
    \<and> (truthy (jget model ''base_url'') \<longrightarrow> (\<exists>u. urlparse (jget model ''base_url'') = Inr u \<and> http_url u))"
proof -
  from assms have m: "out = model" "routing_check model = Inr ()" "platform_id (str_of (jget model ''id''))"
    "truthy (jget model ''base_url'') \<longrightarrow>
       model_endpoint (jget model ''base_url'') ''Model URL must be HTTP(S), without embedded credentials'' = Inr ()"
    by (auto simp: validate_model_def Let_def exc_simps platform_identifier_iff split: if_splits)
  from m(2) obtain es where es: "deployment_entries model False = Inr es"
    by (auto simp: routing_check_def split: sum.splits exc.splits)
  obtain ids n where "es \<noteq> []" by (rule deployment_entriesD [OF es])
  with m es show ?thesis by (auto simp: model_endpoint_def exc_simps)
qed

lemma demo_model_valid: "validate_model (demo_model ''m'' []) = Inr (demo_model ''m'' [])"
proof -
  have "deployment_entries (demo_model ''m'' []) False =
    Inr [\<lparr>model_name = ''m'', litellm_params = [(''model'', JStr ''openai/g''), (''api_key'', JStr ''k'')],
      model_info_id = ''m''\<rparr>]"
    by (simp add: demo_model_def routing_eval)
  then have "routing_check (demo_model ''m'' []) = Inr ()" by (simp add: routing_check_def)
  then show ?thesis
    by (simp add: validate_model_def demo_model_def platform_identifier_def platform_id_def char_class_defs
        unmapped_keys_def dkeys_def MODEL_FIELDS_def in_strings_def jget_def dget_def Let_def)
qed

theorem validate_model_deployable_witness:
  "\<exists>es. deployment_entries (demo_model ''m'' []) False = Inr es \<and> es \<noteq> []"
proof -
  have "jget (demo_model ''m'' []) ''provider'' \<noteq> JStr ''legacy''" by (simp add: demo_model_def jget_def dget_def)
  from validate_model_deployable [OF demo_model_valid this] show ?thesis by blast
qed

section \<open>Accepted settings survive an edit of their redacted copy\<close>

text \<open>A header with the reserved name \<open>deployments\<close> is taken for a list of deployments when a
  redacted copy is merged back.\<close>

definition no_reserved_header :: "json \<Rightarrow> bool" where
  "no_reserved_header v \<longleftrightarrow> \<not> jhas (obj_of v) ''deployments''"

text \<open>The fields of a model that no check looks at, and the names of its headers.\<close>

definition plain_model :: "jdict \<Rightarrow> bool" where
  "plain_model m \<longleftrightarrow> jwf (JObj m) \<and> list_all (\<lambda>f. restorable (jget m f)) [''name'', ''enabled'', ''legacy'']
     \<and> no_reserved_header (jget m ''headers'')
     \<and> list_all (\<lambda>d. no_reserved_header (jget (obj_of d) ''headers'')) (arr_of (jget m ''deployments''))"

definition plain_mcp :: "jdict \<Rightarrow> bool" where
  "plain_mcp d \<longleftrightarrow> jwf (JObj d) \<and> restorable (jget d ''enabled'')
     \<and> no_reserved_header (jget d ''headers'') \<and> no_reserved_header (jget d ''environment'')"

definition restorable_field :: "string \<Rightarrow> json \<Rightarrow> bool" where
  "restorable_field k v \<longleftrightarrow> (if k \<in> set SECRET_FIELDS \<and> truthy v
     then distinct (map fst (obj_of v)) \<and> no_reserved_header v else restorable v)"

lemma restorable_fields:
  assumes "distinct (map fst d)" and "\<And>k. jhas d k \<Longrightarrow> restorable_field k (jget d k)"
  shows "restorable (JObj d)"
proof -
  have "restorable_field k v" if "(k, v) \<in> set d" for k v
  proof -
    have "map_of d k = Some v" using assms(1) that by simp
    then show ?thesis using assms(2) [of k] by (simp add: jhas_def jget_def dget_def)
  qed
  with assms(1) show ?thesis by (fastforce simp: list_all_iff restorable_field_def no_reserved_header_def)
qed

lemma restorable_falsy: "\<not> truthy v \<Longrightarrow> restorable v"
  by (cases v) (auto simp: distinct_items_def)

lemma restorable_scalar: "hashable v \<Longrightarrow> restorable v"
  by (cases v) auto

lemma restorable_text: "is_JStr v \<Longrightarrow> restorable_field k v"
  by (cases v) (auto simp: restorable_field_def no_reserved_header_def jhas_def)

lemma restorable_names: "jwf v \<Longrightarrow> no_reserved_header v \<Longrightarrow> truthy v \<Longrightarrow> k \<in> set SECRET_FIELDS \<Longrightarrow> restorable_field k v"
  by (cases v) (auto simp: restorable_field_def)

lemma restorable_secret:
  "jwf v \<Longrightarrow> no_reserved_header v \<Longrightarrow> k \<in> set SECRET_FIELDS \<Longrightarrow> restorable_field k v"
  using restorable_names restorable_falsy by (auto simp: restorable_field_def)

lemma JStr_plain: "is_JStr x \<Longrightarrow> \<not> is_JObj x \<and> redact x = x"
  by (cases x) auto

lemma restorable_texts: "list_all is_JStr xs \<Longrightarrow> restorable (JArr xs)"
  by (auto simp: list_all_iff distinct_items_def JStr_plain filter_empty_conv)

lemma jwf_field: "jwf (JObj d) \<Longrightarrow> jwf (jget d k)"
  by (auto simp: jget_def dget_def list_all_iff split: option.splits dest!: map_of_SomeD)

lemma unmapped_none: "unmapped_keys d allowed = [] \<Longrightarrow> jhas d k \<Longrightarrow> k \<in> set allowed"
  by (force simp: unmapped_keys_def dkeys_def jhas_def filter_empty_conv dest!: map_of_SomeD)

lemma urlparse_text: "urlparse v = Inr u \<Longrightarrow> is_JStr v \<or> \<not> truthy v"
  by (cases v) (auto simp: urlparse_def split: if_splits)


lemma restorable_string: "is_JStr v \<Longrightarrow> restorable v"
  by (cases v) auto

lemma mcp_remote_cases:
  assumes "mcp_remote d = Inr out"
  shows "out = dput ''oauth'' (JBool False) d \<and> restorable (jget d ''url'')
    \<and> \<not> jhas d ''command'' \<and> \<not> jhas d ''environment'' \<and> \<not> jhas d ''cwd''"
  using assms urlparse_text [of "dget d ''url'' (JStr [])"] restorable_string restorable_falsy
  by (auto simp: mcp_remote_def exc_simps jget_def dget_def split: option.splits)

lemma mcp_local_cases:
  assumes "mcp_local d = Inr out"
  shows "out = d \<and> restorable (jget d ''command'') \<and> restorable (jget d ''cwd'') \<and> \<not> jhas d ''url''"
proof -
  from assms have c: "is_JArr (jget d ''command'')" "list_all is_JStr (arr_of (jget d ''command''))"
    and w: "is_JStr (jget d ''cwd'') \<or> \<not> truthy (jget d ''cwd'')" and o: "out = d" "\<not> jhas d ''url''"
    by (auto simp: mcp_local_def Let_def exc_simps list_ex_iff list_all_iff)
  from c have "restorable (jget d ''command'')" by (cases "jget d ''command''") (simp_all del: restorable.simps add: restorable_texts)
  with w o restorable_string restorable_falsy show ?thesis by auto
qed

lemma restorable_other: "k \<notin> set SECRET_FIELDS \<Longrightarrow> restorable v \<Longrightarrow> restorable_field k v"
  by (simp add: restorable_field_def)

lemma mcp_restorable:
  assumes v: "validate_mcp d = Inr out" and p: "plain_mcp d"
  shows "restorable (JObj out)"
proof -
  have keys: "k \<in> set MCP_FIELDS" if "jhas d k" for k
    using v that unmapped_none [of d MCP_FIELDS k] by (auto simp: validate_mcp_def exc_simps)
  have time: "jhas d ''timeout'' \<Longrightarrow> restorable (jget d ''timeout'')"
    using v by (cases "jget d ''timeout''")
      (auto simp: validate_mcp_def exc_simps timeout_ok_def dget_def jget_def jhas_def split: option.splits)
  have oauth: "restorable (jget d ''oauth'')"
    using v by (cases "map_of d ''oauth''") (auto simp: validate_mcp_def exc_simps dget_def jget_def)
  have d: "distinct (map fst d)" using p by (simp add: plain_mcp_def)
  have sec: "restorable_field ''headers'' (jget d ''headers'')" "restorable_field ''environment'' (jget d ''environment'')"
    using p jwf_field [of d] by (auto simp: plain_mcp_def SECRET_FIELDS_def intro!: restorable_secret)
  have on: "restorable (jget d ''enabled'')" using p by (simp add: plain_mcp_def)
  have other: "restorable v \<Longrightarrow> restorable_field k v" if "k \<in> {''type'', ''url'', ''timeout'', ''enabled'', ''command'', ''cwd'', ''oauth''}" for k v
    using that by (auto simp: SECRET_FIELDS_def intro!: restorable_other)
  have fields: "restorable_field k (jget d k)"
    if k: "jhas d k" and "restorable (jget d ''type'')" "jhas d ''url'' \<longrightarrow> restorable (jget d ''url'')"
      "jhas d ''command'' \<longrightarrow> restorable (jget d ''command'')" "jhas d ''cwd'' \<longrightarrow> restorable (jget d ''cwd'')" for k
  proof -
    have "k \<in> {''headers'', ''environment''} \<or>
        k \<in> {''type'', ''url'', ''timeout'', ''enabled'', ''command'', ''cwd'', ''oauth''}"
      using keys [OF k] unfolding MCP_FIELDS_def list.set insert_iff empty_iff by argo
    moreover have "restorable (jget d k)" if "k \<in> {''type'', ''url'', ''timeout'', ''enabled'', ''command'', ''cwd'', ''oauth''}"
      using that k \<open>restorable (jget d ''type'')\<close> \<open>jhas d ''url'' \<longrightarrow> _\<close> \<open>jhas d ''command'' \<longrightarrow> _\<close>
        \<open>jhas d ''cwd'' \<longrightarrow> _\<close> time oauth on by (elim insertE emptyE; hypsubst; simp)
    ultimately show ?thesis using sec other by (elim disjE insertE emptyE; hypsubst; simp)
  qed
  show ?thesis
  proof (cases "jget d ''type'' = JStr ''remote''")
    case True
    then have "mcp_remote d = Inr out" using v by (simp add: validate_mcp_def exc_simps)
    note r = mcp_remote_cases [OF this]
    have field: "restorable_field k (jget d k)" if "jhas d k" for k
      by (rule fields [OF that]) (use r True in simp_all)
    have out: "restorable_field k (jget out k)" if "jhas out k" for k
      using field [of k] that conjunct1 [OF r]
      by (cases "k = ''oauth''") (simp_all add: jhas_def restorable_field_def SECRET_FIELDS_def)
    show ?thesis by (rule restorable_fields [OF _ out]) (use d conjunct1 [OF r] in simp)
  next
    case False
    then have t: "jget d ''type'' = JStr ''local''" "mcp_local d = Inr out"
      using v by (auto simp: validate_mcp_def exc_simps split: if_splits)
    note r = mcp_local_cases [OF t(2)]
    have field: "restorable_field k (jget d k)" if "jhas d k" for k
      by (rule fields [OF that]) (use r t(1) in simp_all)
    show ?thesis unfolding conjunct1 [OF r] by (rule restorable_fields [OF d field])
  qed
qed

text \<open>The deployments a model is accepted with: their IDs are text and distinct.\<close>

definition item_id :: "json \<Rightarrow> string" where
  "item_id item = str_of (jget (obj_of item) ''id'')"

definition accepted_deployment :: "json \<Rightarrow> bool" where
  "accepted_deployment item \<longleftrightarrow> is_JObj item \<and> unmapped_keys (obj_of item) DEPLOYMENT_FIELDS = []
     \<and> is_JStr (jget (obj_of item) ''id'') \<and> is_JStr (dget (obj_of item) ''api_key'' (JStr []))
     \<and> list_all (\<lambda>f. restorable (jget (obj_of item) f))
         [''base_url'', ''upstream_model'', ''enabled'', ''rpm'', ''tpm'', ''weight'']"

lemma limits_restorable:
  assumes "deployment_limits d = Inr limits" and "f \<in> {''rpm'', ''tpm'', ''weight''}"
  shows "restorable (jget d f)"
proof -
  have step: "restorable (jget d f)"
    if "(let value = jget d f in if value = JNull then Inr l
      else if \<not> positive_limit f value then Inl e else Inr (dput f value l)) = Inr l'" for e and f l l'
    using that by (cases "jget d f") (auto simp: positive_limit_def Let_def split: if_splits)
  from assms(1) obtain l1 l2 where
    "(let value = jget d ''rpm'' in if value = JNull then Inr [] else if \<not> positive_limit ''rpm'' value
        then Inl (ValueError (''Deployment '' @ ''rpm'' @ '' must be a positive ''
             @ (if ''rpm'' = ''weight'' then ''number'' else ''integer''))) else Inr (dput ''rpm'' value [])) = Inr l1"
    "(let value = jget d ''tpm'' in if value = JNull then Inr l1 else if \<not> positive_limit ''tpm'' value
        then Inl (ValueError (''Deployment '' @ ''tpm'' @ '' must be a positive ''
             @ (if ''tpm'' = ''weight'' then ''number'' else ''integer''))) else Inr (dput ''tpm'' value l1)) = Inr l2"
    "(let value = jget d ''weight'' in if value = JNull then Inr l2 else if \<not> positive_limit ''weight'' value
        then Inl (ValueError (''Deployment '' @ ''weight'' @ '' must be a positive ''
             @ (if ''weight'' = ''weight'' then ''number'' else ''integer''))) else Inr (dput ''weight'' value l2)) = Inr limits"
    unfolding deployment_limits_def efold.simps ebind_eq_Inr by blast
  note l = this [THEN step]
  show ?thesis using assms(2) l by auto
qed

lemma deployment_step_accepted:
  assumes "deployment_step model pre mid explicit rc (index, item) (ids, entries) = Inr (ids', entries')"
  shows "accepted_deployment item \<and> item_id item \<notin> set ids \<and> ids' = item_id item # ids"
proof -
  let ?d = "obj_of item"
  from assms have a: "is_JObj item" "unmapped_keys ?d DEPLOYMENT_FIELDS = []" "is_JStr (jget ?d ''id'')"
    "item_id item \<notin> set ids" "is_JStr (dget ?d ''api_key'' (JStr []))" "is_JBool (dget ?d ''enabled'' (JBool True))"
    "\<exists>limits. deployment_limits ?d = Inr limits" "\<exists>u. is_JStr (por (jget ?d ''upstream_model'') u)"
    "\<exists>u b. deployment_base (por (jget ?d ''base_url'') u) = Inr b" "ids' = item_id item # ids"
    by (auto simp: deployment_step_def Let_def exc_simps item_id_def split: if_splits)
  have "restorable (jget ?d ''enabled'')"
    using a(6) by (cases "map_of ?d ''enabled''") (auto simp: jget_def dget_def intro!: restorable_scalar, (case_tac a, auto)[])
  moreover have "restorable (jget ?d ''upstream_model'')"
    using a(8) restorable_string restorable_falsy by (auto simp: por_def split: if_splits)
  moreover have "is_JStr v" if "deployment_base v = Inr b" for v b
    using that by (auto simp: deployment_base_def split: json.splits)
  then have "restorable (jget ?d ''base_url'')"
    using a(9) restorable_string restorable_falsy by (fastforce simp: por_def split: if_splits)
  ultimately show ?thesis using a(1-5,7,10) limits_restorable by (auto simp: accepted_deployment_def)
qed

lemma deployment_loop_accepted:
  assumes "efold (deployment_step model pre mid explicit rc) (zip [n..<n + length items] items) (ids, es) = Inr (ids', es')"
  shows "list_all accepted_deployment items \<and> ids' = rev (map item_id items) @ ids \<and> (distinct ids \<longrightarrow> distinct ids')"
  using assms
proof (induction items arbitrary: n ids es)
  case Nil
  then show ?case by simp
next
  case (Cons item items)
  have "[n..<n + length (item # items)] = n # [Suc n..<Suc n + length items]"
    using upt_conv_Cons [of n "n + length (item # items)"] by simp
  with Cons.prems obtain ids1 es1 where
    step: "deployment_step model pre mid explicit rc (n, item) (ids, es) = Inr (ids1, es1)"
    and rest: "efold (deployment_step model pre mid explicit rc) (zip [Suc n..<Suc n + length items] items)
      (ids1, es1) = Inr (ids', es')"
    by (auto simp: exc_simps)
  from Cons.IH [OF rest] deployment_step_accepted [OF step] show ?case by fastforce
qed

lemma distinct_ids_items: "list_all accepted_deployment items \<Longrightarrow> distinct (map item_id items) \<Longrightarrow> distinct_items items"
proof -
  assume a: "list_all accepted_deployment items" and d: "distinct (map item_id items)"
  have id: "jget (obj_of x) ''id'' = JStr (item_id x)" if "x \<in> set items" for x
    using a that by (cases "jget (obj_of x) ''id''") (auto simp: list_all_iff accepted_deployment_def item_id_def)
  have "sorted_wrt (\<lambda>x y. item_id x \<noteq> item_id y) items"
    using d by (induction items) auto
  then have "sorted_wrt (\<lambda>x y. item_id x \<noteq> item_id y) (filter P items)" for P by (rule sorted_wrt_filter)
  then show ?thesis unfolding distinct_items_def
    by (rule sorted_wrt_mono_rel [rotated]) (auto simp: id)
qed

lemma deployment_restorable:
  assumes "accepted_deployment item" and "jwf item" and "no_reserved_header (jget (obj_of item) ''headers'')"
  shows "restorable item"
proof -
  obtain d where d: "item = JObj d" using assms(1) by (cases item) (auto simp: accepted_deployment_def)
  have fields: "restorable (jget d f)" if "f \<in> {''base_url'', ''upstream_model'', ''enabled'', ''rpm'', ''tpm'', ''weight''}" for f
    using assms(1) that by (auto simp: accepted_deployment_def d)
  have "restorable_field k (jget d k)" if k: "jhas d k" for k
  proof -
    have "k \<in> set DEPLOYMENT_FIELDS" using assms(1) unmapped_none [OF _ k] by (simp add: accepted_deployment_def d)
    then consider "k = ''id''" | "k = ''api_key''" | "k = ''headers''"
      | "k \<in> {''base_url'', ''upstream_model'', ''enabled'', ''rpm'', ''tpm'', ''weight''}"
      unfolding DEPLOYMENT_FIELDS_def list.set insert_iff empty_iff by argo
    then show ?thesis
    proof cases
      case 1 then show ?thesis using assms(1) by (simp add: accepted_deployment_def d restorable_text)
    next
      case 2
      then have "is_JStr (jget d k)" using assms(1) k by (auto simp: accepted_deployment_def d jhas_def dget_def jget_def)
      then show ?thesis by (rule restorable_text)
    next
      case 3
      then show ?thesis using assms(2,3) jwf_field [of d k] by (auto simp: d SECRET_FIELDS_def intro!: restorable_secret)
    next
      case 4
      then have "k \<notin> set SECRET_FIELDS" by (auto simp: SECRET_FIELDS_def)
      then show ?thesis using fields [OF 4] by (rule restorable_other)
    qed
  qed
  then show ?thesis using assms(2) unfolding d by (intro restorable_fields) auto
qed

text \<open>What the routing check says of a model: its key is text unless it has deployments, and those
  are accepted.\<close>

lemma routing_accepted:
  assumes "routing_check m = Inr ()"
  shows "is_JArr (dget m ''deployments'' (JArr []))
    \<and> (truthy (dget m ''deployments'' (JArr [])) \<longrightarrow>
         \<not> truthy (jget m ''api_key'') \<and> list_all accepted_deployment (arr_of (dget m ''deployments'' (JArr [])))
         \<and> distinct (map item_id (arr_of (dget m ''deployments'' (JArr [])))))
    \<and> (\<not> truthy (dget m ''deployments'' (JArr [])) \<longrightarrow> is_JStr (dget m ''api_key'' (JStr [])))"
proof -
  let ?ds = "dget m ''deployments'' (JArr [])"
  from assms obtain es where "deployment_entries m False = Inr es"
    by (auto simp: routing_check_def split: sum.splits exc.splits)
  then obtain pre items ids where arr: "is_JArr ?ds" and key: "truthy ?ds \<longrightarrow> \<not> truthy (jget m ''api_key'')"
    and items: "(if truthy ?ds then Inr (arr_of ?ds) else implicit_deployments m) = Inr items"
    and loop: "efold (deployment_step m pre (str_of (jget m ''id'')) (truthy ?ds) False)
        (zip [0..<length items] items) ([], []) = Inr (ids, es)"
    by (auto simp: deployment_entries_def Let_def exc_simps)
  from loop have "list_all accepted_deployment items \<and> ids = rev (map item_id items) @ [] \<and> (distinct [] \<longrightarrow> distinct ids)"
    using deployment_loop_accepted [where n = 0 and items = items and ids = "[]" and es = "[]"] by simp
  then have a: "list_all accepted_deployment items" "distinct (map item_id items)" by auto
  have "is_JStr (dget m ''api_key'' (JStr []))" if "\<not> truthy ?ds"
  proof -
    from items that obtain rest where
      "items = JObj [(''id'', JStr ''primary''), (''api_key'', dget m ''api_key'' (JStr [])),
               (''base_url'', dget m ''base_url'' (JStr []))] # rest"
      by (auto simp: implicit_deployments_def exc_simps)
    then show ?thesis using a(1) by (simp add: accepted_deployment_def dget_def)
  qed
  with arr key items a show ?thesis by auto
qed

lemma efold_checked:
  "efold (\<lambda>x _. ebind (raise_if (\<not> P x) e) (\<lambda>_. f x)) xs u = Inr v \<Longrightarrow> list_all P xs"
  by (induction xs arbitrary: u) (auto simp: exc_simps)

lemma model_restorable:
  assumes v: "validate_model m = Inr out" and p: "plain_model m" and l: "jget m ''provider'' \<noteq> JStr ''legacy''"
  shows "restorable (JObj m)"
proof -
  have wf: "jwf (JObj m)" using p by (simp add: plain_model_def)
  let ?ds = "dget m ''deployments'' (JArr [])"
  from v l have known: "is_JStr (jget m ''id'')" "unmapped_keys m MODEL_FIELDS = []" "is_JStr (jget m ''upstream_model'')"
    "truthy (jget m ''base_url'') \<longrightarrow> model_endpoint (jget m ''base_url'')
        ''Model URL must be HTTP(S), without embedded credentials'' = Inr ()"
    "hashable (jget m ''provider'')" "routing_check m = Inr ()"
    "is_JArr (dget m ''additional_base_urls'' (JArr []))" "is_JObj (dget m ''parameters'' (JObj []))"
    "list_all (\<lambda>(_, v). parameter_value v) (obj_of (dget m ''parameters'' (JObj [])))"
    "unmapped_keys (obj_of (dget m ''parameters'' (JObj []))) MODEL_PARAMETERS = []"
    "\<forall>k \<in> {''context'', ''output''}. jget m k = JNull \<or> token_limit (jget m k)"
    and bases: "efold (\<lambda>base _.
        ebind (raise_if (\<not> is_JStr base) (fail ''Additional endpoints must be URLs'' 400)) (\<lambda>_.
        model_endpoint base ''Additional model URL must be HTTP(S), without embedded credentials''))
      (arr_of (dget m ''additional_base_urls'' (JArr []))) () = Inr ()"
    by (auto simp: validate_model_def Let_def exc_simps platform_identifier_iff in_strings_def list_ex_iff list_all_iff
        split: if_splits)
  note route = routing_accepted [OF known(6)]
  have here: "dget m k x = jget m k" if "jhas m k" for k x
    using that by (auto simp: jhas_def dget_def jget_def)
  have base: "restorable (jget m ''base_url'')"
    using known(4) urlparse_text restorable_string restorable_falsy by (fastforce simp: model_endpoint_def exc_simps)
  have more_bases: "restorable (jget m ''additional_base_urls'')" if h: "jhas m ''additional_base_urls''"
  proof -
    obtain xs where xs: "jget m ''additional_base_urls'' = JArr xs"
      using known(7) here [OF h] by (cases "jget m ''additional_base_urls''") auto
    have "list_all is_JStr xs"
      using efold_checked [OF bases] here [OF h] xs by simp
    then show ?thesis unfolding xs by (rule restorable_texts)
  qed
  have params: "restorable (jget m ''parameters'')" if h: "jhas m ''parameters''"
  proof -
    obtain ps where ps: "jget m ''parameters'' = JObj ps"
      using known(8) here [OF h] by (cases "jget m ''parameters''") auto
    have "jwf (JObj ps)" using jwf_field [OF wf, of "''parameters''"] ps by simp
    moreover have "restorable_field k (jget ps k)" if k: "jhas ps k" for k
    proof -
      have "k \<in> set MODEL_PARAMETERS" using known(10) here [OF h] ps unmapped_none [OF _ k] by simp
      then have no: "k \<notin> set SECRET_FIELDS" by (auto simp: MODEL_PARAMETERS_def SECRET_FIELDS_def)
      have "(k, jget ps k) \<in> set ps" using k by (auto simp: jhas_def jget_def dget_def dest: map_of_SomeD)
      then have "parameter_value (jget ps k)" using known(9) here [OF h] ps by (auto simp: list_all_iff)
      then have "restorable (jget ps k)" by (cases "jget ps k") (auto simp: parameter_value_def)
      with no show ?thesis by (rule restorable_other)
    qed
    ultimately show ?thesis unfolding ps by (intro restorable_fields) auto
  qed
  have limits: "restorable (jget m k)" if "k \<in> {''context'', ''output''}" for k
    using known(11) that by (cases "jget m k") (auto simp: token_limit_def)
  have key: "restorable_field ''api_key'' (jget m ''api_key'')" if h: "jhas m ''api_key''"
    using route here [OF h] restorable_text restorable_falsy
    by (cases "truthy ?ds") (auto simp: restorable_field_def)
  have deployments: "restorable (jget m ''deployments'')" if h: "jhas m ''deployments''"
  proof (cases "truthy ?ds")
    case False
    then show ?thesis using here [OF h] restorable_falsy by simp
  next
    case True
    obtain ds where ds: "jget m ''deployments'' = JArr ds"
      using route here [OF h] by (cases "jget m ''deployments''") auto
    have a: "list_all accepted_deployment ds" "distinct (map item_id ds)" using route True here [OF h] ds by auto
    have "restorable d \<and> is_JObj d \<and> jhas (obj_of d) ''id'' \<and> hashable (jget (obj_of d) ''id'')" if "d \<in> set ds" for d
    proof -
      have d: "accepted_deployment d" "jwf d" "no_reserved_header (jget (obj_of d) ''headers'')"
        using a(1) that jwf_field [OF wf, of "''deployments''"] p ds by (auto simp: list_all_iff plain_model_def)
      then have "is_JStr (jget (obj_of d) ''id'')" by (simp add: accepted_deployment_def)
      then show ?thesis using deployment_restorable [OF d] d(1)
        by (cases "jget (obj_of d) ''id''") (auto simp: accepted_deployment_def jhas_def jget_def dget_def split: option.splits)
    qed
    then show ?thesis using distinct_ids_items [OF a] by (auto simp: ds list_all_iff)
  qed
  have headers: "restorable_field ''headers'' (jget m ''headers'')"
    using p jwf_field [OF wf] by (auto simp: plain_model_def SECRET_FIELDS_def intro!: restorable_secret)
  have rest: "restorable (jget m k)" if "k \<in> {''id'', ''name'', ''provider'', ''upstream_model'', ''enabled'', ''legacy''}" for k
    using that known(1,3,5) p restorable_string restorable_scalar by (auto simp: plain_model_def)
  have "restorable_field k (jget m k)" if k: "jhas m k" for k
  proof -
    have "k \<in> set MODEL_FIELDS" using known(2) k by (rule unmapped_none)
    then consider "k = ''api_key''" | "k = ''headers''"
      | "k \<in> {''id'', ''name'', ''provider'', ''upstream_model'', ''enabled'', ''legacy''}"
      | "k \<in> {''context'', ''output''}" | "k = ''base_url''" | "k = ''additional_base_urls''" | "k = ''parameters''"
      | "k = ''deployments''"
      unfolding MODEL_FIELDS_def list.set insert_iff empty_iff by argo
    then show ?thesis
    proof cases
      case 3
      then have "k \<notin> set SECRET_FIELDS" by (auto simp: SECRET_FIELDS_def)
      then show ?thesis using rest [OF 3] by (rule restorable_other)
    next
      case 4
      then have "k \<notin> set SECRET_FIELDS" by (auto simp: SECRET_FIELDS_def)
      then show ?thesis using limits [OF 4] by (rule restorable_other)
    qed (use k key headers base more_bases params deployments in \<open>simp_all add: restorable_field_def SECRET_FIELDS_def\<close>)
  qed
  then show ?thesis using wf by (intro restorable_fields) auto
qed

definition demo_mcp :: jdict where
  "demo_mcp = [(''type'', JStr ''local''), (''command'', JArr [JStr ''/usr/bin/tool'']),
     (''environment'', JObj [(''TOKEN'', JStr ''t'')])]"

text \<open>C10: sending the redacted copy of an accepted setting back changes nothing: every secret of an
  MCP server and of a model with a current provider (its key, the keys of its deployments, the values of
  its headers and environment) is restored to what is stored. The setting must be a value as it is
  decoded from JSON, whose unchecked fields (the display name, the enabled and legacy flags) hold no
  lists of like items, and no header or variable may have the reserved name \<open>deployments\<close>.\<close>

theorem redacted_edit_restores:
  "(validate_model m = Inr m' \<and> jget m ''provider'' \<noteq> JStr ''legacy'' \<and> plain_model m \<longrightarrow>
      preserve_secrets (redact (JObj m')) (JObj m') = Inr (JObj m'))
    \<and> (validate_mcp d = Inr d' \<and> plain_mcp d \<longrightarrow>
      preserve_secrets (redact (JObj d')) (JObj d') = Inr (JObj d'))"
proof (intro conjI impI)
  assume m: "validate_model m = Inr m' \<and> jget m ''provider'' \<noteq> JStr ''legacy'' \<and> plain_model m"
  then have "m' = m" by (auto simp: validate_model_def Let_def exc_simps)
  then show "preserve_secrets (redact (JObj m')) (JObj m') = Inr (JObj m')"
    using m preserve_redact [OF model_restorable] by blast
next
  assume "validate_mcp d = Inr d' \<and> plain_mcp d"
  then show "preserve_secrets (redact (JObj d')) (JObj d') = Inr (JObj d')"
    using preserve_redact [OF mcp_restorable] by blast
qed

theorem redacted_edit_restores_witness:
  "preserve_secrets (redact (JObj (demo_model ''m'' []))) (JObj (demo_model ''m'' [])) = Inr (JObj (demo_model ''m'' []))
    \<and> jget (obj_of (redact (JObj (demo_model ''m'' [])))) ''api_key'' = JStr MASK
    \<and> preserve_secrets (redact (JObj demo_mcp)) (JObj demo_mcp) = Inr (JObj demo_mcp)
    \<and> redact (JObj demo_mcp) \<noteq> JObj demo_mcp"
proof -
  have m: "jget (demo_model ''m'' []) ''provider'' \<noteq> JStr ''legacy''" "plain_model (demo_model ''m'' [])"
    by (simp_all add: demo_model_def jget_def dget_def plain_model_def no_reserved_header_def jhas_def)
  have "validate_mcp demo_mcp = Inr demo_mcp" "plain_mcp demo_mcp"
    by (simp_all add: validate_mcp_def mcp_local_def unmapped_keys_def dkeys_def MCP_FIELDS_def dget_def jget_def
        jhas_def timeout_ok_def posix_path_defs INSTALLERS_def path_is_relative_to_def Let_def demo_mcp_def
        plain_mcp_def no_reserved_header_def string_entry_def)
  with m demo_model_valid redacted_edit_restores [of "demo_model ''m'' []" "demo_model ''m'' []" demo_mcp demo_mcp]
  have "preserve_secrets (redact (JObj (demo_model ''m'' []))) (JObj (demo_model ''m'' [])) = Inr (JObj (demo_model ''m'' []))
    \<and> preserve_secrets (redact (JObj demo_mcp)) (JObj demo_mcp) = Inr (JObj demo_mcp)" by blast
  moreover have "jget (obj_of (redact (JObj (demo_model ''m'' [])))) ''api_key'' = JStr MASK"
    "redact (JObj demo_mcp) \<noteq> JObj demo_mcp"
    by (simp_all add: demo_model_def demo_mcp_def jget_def dget_def SECRET_FIELDS_def MASK_def numeral_eq_Suc)
  ultimately show ?thesis by blast
qed

end
