(* ===== verification/Tables.thy ===== *)
theory Tables
  imports Prelude
begin

text \<open>
  SQLite tables as lists of rows in rowid order, with the statements the services issue:
  look up by a key, update the rows of a key, insert with the uniqueness check, delete. The
  locale \<open>row_update\<close> is the interface a component's column updates meet: an update that
  leaves the key column alone keeps the key unique and changes only the rows it names.
\<close>

definition find_row :: "('r \<Rightarrow> 'k) \<Rightarrow> 'k \<Rightarrow> 'r list \<Rightarrow> 'r option" where
  "find_row key k rows = find (\<lambda>r. key r = k) rows"

definition update_rows :: "('r \<Rightarrow> 'k) \<Rightarrow> 'k \<Rightarrow> ('r \<Rightarrow> 'r) \<Rightarrow> 'r list \<Rightarrow> 'r list" where
  "update_rows key k f rows = map (\<lambda>r. if key r = k then f r else r) rows"

definition delete_rows :: "('r \<Rightarrow> bool) \<Rightarrow> 'r list \<Rightarrow> 'r list" where
  "delete_rows P rows = filter (\<lambda>r. \<not> P r) rows"

definition unique_key :: "('r \<Rightarrow> 'k) \<Rightarrow> 'r list \<Rightarrow> bool" where
  "unique_key key rows \<longleftrightarrow> distinct (map key rows)"

lemma find_row_Some: "find_row key k rows = Some r \<Longrightarrow> r \<in> set rows \<and> key r = k"
  by (auto simp: find_row_def find_Some_iff)

lemma find_row_None: "find_row key k rows = None \<longleftrightarrow> k \<notin> key ` set rows"
  by (auto simp: find_row_def find_None_iff)

lemma find_row_unique:
  "unique_key key rows \<Longrightarrow> r \<in> set rows \<Longrightarrow> key r = k \<Longrightarrow> find_row key k rows = Some r"
  by (induction rows) (auto simp: unique_key_def find_row_def)

lemma find_row_Cons [simp]:
  "find_row key k (r # rows) = (if key r = k then Some r else find_row key k rows)"
  by (simp add: find_row_def)

lemma find_row_Nil [simp]: "find_row key k [] = None"
  by (simp add: find_row_def)

lemma find_row_append: "find_row key k (rows @ rows') =
    (case find_row key k rows of Some r \<Rightarrow> Some r | None \<Rightarrow> find_row key k rows')"
  by (induction rows) (auto simp: find_row_def)

lemma unique_key_Nil [simp]: "unique_key key []"
  by (simp add: unique_key_def)

lemma unique_key_insert:
  "unique_key key rows \<Longrightarrow> find_row key (key r) rows = None \<Longrightarrow> unique_key key (rows @ [r])"
  by (auto simp: unique_key_def find_row_None)

lemma unique_key_delete: "unique_key key rows \<Longrightarrow> unique_key key (delete_rows P rows)"
  by (auto simp: unique_key_def delete_rows_def intro: distinct_map_filter)

lemma set_delete_rows [simp]: "set (delete_rows P rows) = {r \<in> set rows. \<not> P r}"
  by (auto simp: delete_rows_def)

lemma length_update_rows [simp]: "length (update_rows key k f rows) = length rows"
  by (simp add: update_rows_def)

lemma in_update_rows:
  "x \<in> set (update_rows key k f rows) \<longleftrightarrow> (\<exists>r\<in>set rows. x = (if key r = k then f r else r))"
  by (induction rows) (auto simp: update_rows_def)

lemma map_update_rows:
  "(\<And>r. g (f r) = g r) \<Longrightarrow> map g (update_rows key k f rows) = map g rows"
  by (auto simp: update_rows_def)

lemma unique_update_rows:
  "(\<And>r. g (f r) = g r) \<Longrightarrow> unique_key g (update_rows key k f rows) = unique_key g rows"
  by (simp add: unique_key_def map_update_rows)

text \<open>\<open>upd v\<close> is the effect of an UPDATE statement with parameters \<open>v\<close> on one row.\<close>

locale row_update =
  fixes key :: "'r \<Rightarrow> 'k" and upd :: "'v \<Rightarrow> 'r \<Rightarrow> 'r"
  assumes key_upd: "key (upd v r) = key r"
begin

lemma lookup_update:
  "find_row key k' (update_rows key k (upd v) rows) =
     (if k' = k then map_option (upd v) (find_row key k rows) else find_row key k' rows)"
  by (induction rows) (auto simp: find_row_def update_rows_def key_upd)

lemma unique_update: "unique_key key (update_rows key k (upd v) rows) = unique_key key rows"
  by (rule unique_update_rows) (rule key_upd)

lemma keys_update: "key ` set (update_rows key k (upd v) rows) = key ` set rows"
proof -
  have "map key (update_rows key k (upd v) rows) = map key rows" by (rule map_update_rows) (rule key_upd)
  then show ?thesis by (metis set_map)
qed

end

end
