(* ===== verification/Registry.thy ===== *)
theory Registry
  imports Tables
begin

text \<open>
  \<open>sandbox_manager/registry.py\<close>: the routing registry, three SQLite tables that bind an
  agent and a user to one sandbox and a session to one sandbox and directory. A row of a
  table is a record; \<open>utc_now()\<close> is the argument \<open>now\<close>. A method that writes is one
  transaction, so an exception leaves the tables as they were. Connections, WAL mode and the
  writer lock order the transactions and have no part in what one of them does.
\<close>

record agent_row =
  ag_id :: string
  ag_config_path :: string
  ag_image :: string
  ag_enabled :: bool
  ag_updated_at :: string

record sandbox_row =
  sb_id :: string
  sb_agent :: string
  sb_user :: string
  sb_container :: "string option"
  sb_port :: "int option"
  sb_status :: string
  sb_image :: string
  sb_last_active :: string
  sb_created :: string

record session_row =
  ss_id :: string
  ss_sandbox :: string
  ss_agent :: string
  ss_user :: string
  ss_path :: string
  ss_created :: string
  ss_last_active :: string

record registry =
  agents :: "agent_row list"
  sandboxes :: "sandbox_row list"
  sessions :: "session_row list"

definition empty_registry :: registry where
  "empty_registry = \<lparr>agents = [], sandboxes = [], sessions = []\<rparr>"

definition sb_owner :: "sandbox_row \<Rightarrow> string \<times> string" where
  "sb_owner r = (sb_agent r, sb_user r)"

section \<open>Agents\<close>

definition set_agent_row :: "string \<times> string \<times> bool \<times> string \<Rightarrow> agent_row \<Rightarrow> agent_row" where
  "set_agent_row = (\<lambda>(config_path, img, enabled, now) r.
     if ag_config_path r \<noteq> config_path \<or> ag_image r \<noteq> img \<or> ag_enabled r \<noteq> enabled
     then r\<lparr>ag_config_path := config_path, ag_image := img, ag_enabled := enabled, ag_updated_at := now\<rparr>
     else r)"

definition upsert_agent :: "string \<Rightarrow> string \<Rightarrow> string \<Rightarrow> bool \<Rightarrow> string \<Rightarrow> registry \<Rightarrow> registry" where
  "upsert_agent agent_id config_path img enabled now reg =
    (case find_row ag_id agent_id (agents reg) of
       Some cur \<Rightarrow>
         (if (ag_config_path cur, ag_image cur, ag_enabled cur) = (config_path, img, enabled) then reg
          else reg\<lparr>agents := update_rows ag_id agent_id (set_agent_row (config_path, img, enabled, now)) (agents reg)\<rparr>)
     | None \<Rightarrow> reg\<lparr>agents := agents reg @ [\<lparr>ag_id = agent_id, ag_config_path = config_path,
                  ag_image = img, ag_enabled = enabled, ag_updated_at = now\<rparr>]\<rparr>)"

section \<open>Sandboxes\<close>

definition get_sandbox :: "string \<Rightarrow> string \<Rightarrow> registry \<Rightarrow> sandbox_row option" where
  "get_sandbox agent_id username reg = find_row sb_owner (agent_id, username) (sandboxes reg)"

text \<open>\<open>CHECK (host_port IS NULL OR host_port BETWEEN 1 AND 65535)\<close>\<close>

definition port_ok :: "int option \<Rightarrow> bool" where
  "port_ok p \<longleftrightarrow> (case p of None \<Rightarrow> True | Some n \<Rightarrow> 1 \<le> n \<and> n \<le> 65535)"

definition set_sandbox_row ::
  "string option \<times> int option \<times> string \<times> string \<times> string \<Rightarrow> sandbox_row \<Rightarrow> sandbox_row" where
  "set_sandbox_row = (\<lambda>(container_id, host_port, status, image_version, now) r.
     r\<lparr>sb_container := container_id, sb_port := host_port, sb_status := status,
       sb_image := image_version, sb_last_active := now\<rparr>)"

text \<open>The owner is the conflict target: an existing row of the owner is updated and keeps its
  \<open>sandbox_id\<close> and \<open>created_at\<close>. Otherwise a taken \<open>sandbox_id\<close> or an unknown agent
  violates a constraint.\<close>

definition upsert_sandbox ::
  "string \<Rightarrow> string \<Rightarrow> string \<Rightarrow> string option \<Rightarrow> int option \<Rightarrow> string \<Rightarrow> string \<Rightarrow> string \<Rightarrow>
    registry \<Rightarrow> (sandbox_row \<times> registry) res" where
  "upsert_sandbox sandbox_id agent_id username container_id host_port status image_version now reg =
    (if \<not> port_ok host_port then Inl (IntegrityError ''CHECK constraint failed: sandboxes'')
     else (case get_sandbox agent_id username reg of
       Some old \<Rightarrow>
         (let v = (container_id, host_port, status, image_version, now) in
          Inr (set_sandbox_row v old,
               reg\<lparr>sandboxes := update_rows sb_owner (agent_id, username) (set_sandbox_row v) (sandboxes reg)\<rparr>))
     | None \<Rightarrow>
         (if find_row sb_id sandbox_id (sandboxes reg) \<noteq> None
          then Inl (IntegrityError ''UNIQUE constraint failed: sandboxes.sandbox_id'')
          else if find_row ag_id agent_id (agents reg) = None
          then Inl (IntegrityError ''FOREIGN KEY constraint failed'')
          else (let row = \<lparr>sb_id = sandbox_id, sb_agent = agent_id, sb_user = username,
                   sb_container = container_id, sb_port = host_port, sb_status = status,
                   sb_image = image_version, sb_last_active = now, sb_created = now\<rparr>
                in Inr (row, reg\<lparr>sandboxes := sandboxes reg @ [row]\<rparr>)))))"

definition set_status_row :: "string \<times> string \<Rightarrow> sandbox_row \<Rightarrow> sandbox_row" where
  "set_status_row = (\<lambda>(status, now) r. r\<lparr>sb_status := status, sb_last_active := now\<rparr>)"

definition mark_sandbox_status :: "string \<Rightarrow> string \<Rightarrow> string \<Rightarrow> registry \<Rightarrow> bool \<times> registry" where
  "mark_sandbox_status sandbox_id status now reg =
    (length (filter (\<lambda>r. sb_id r = sandbox_id) (sandboxes reg)) = 1,
     reg\<lparr>sandboxes := update_rows sb_id sandbox_id (set_status_row (status, now)) (sandboxes reg)\<rparr>)"

definition touch_row :: "string \<Rightarrow> sandbox_row \<Rightarrow> sandbox_row" where
  "touch_row now r = r\<lparr>sb_last_active := now\<rparr>"

definition touch_sandbox :: "string \<Rightarrow> string \<Rightarrow> registry \<Rightarrow> registry" where
  "touch_sandbox sandbox_id now reg =
    reg\<lparr>sandboxes := update_rows sb_id sandbox_id (touch_row now) (sandboxes reg)\<rparr>"

definition health_row :: "string \<Rightarrow> sandbox_row \<Rightarrow> sandbox_row" where
  "health_row status r = r\<lparr>sb_status := status\<rparr>"

definition set_health_status :: "string \<Rightarrow> string \<Rightarrow> registry \<Rightarrow> registry" where
  "set_health_status sandbox_id status reg =
    reg\<lparr>sandboxes := update_rows sb_id sandbox_id (health_row status) (sandboxes reg)\<rparr>"

section \<open>Sessions\<close>

text \<open>One entry of a batch with the two instants at which the loop reads the clock.\<close>

record session_entry =
  en_session :: string
  en_sandbox :: string
  en_agent :: string
  en_user :: string
  en_path :: string
  en_now :: string
  en_now2 :: string

definition session_activity :: "string \<Rightarrow> session_row \<Rightarrow> session_row" where
  "session_activity now r = r\<lparr>ss_last_active := now\<rparr>"

definition insert_session :: "session_entry \<Rightarrow> registry \<Rightarrow> session_row \<times> registry" where
  "insert_session e reg =
    (case find_row ss_id (en_session e) (sessions reg) of
       Some old \<Rightarrow> (session_activity (en_now e) old,
         reg\<lparr>sessions := update_rows ss_id (en_session e) (session_activity (en_now e)) (sessions reg)\<rparr>)
     | None \<Rightarrow> (let row = \<lparr>ss_id = en_session e, ss_sandbox = en_sandbox e, ss_agent = en_agent e,
           ss_user = en_user e, ss_path = en_path e, ss_created = en_now e, ss_last_active = en_now e\<rparr>
         in (row, reg\<lparr>sessions := sessions reg @ [row]\<rparr>)))"

text \<open>The body of the loop between a SAVEPOINT and its RELEASE.\<close>

definition record_entry :: "session_entry \<Rightarrow> registry \<Rightarrow> (session_row \<times> registry) res" where
  "record_entry e reg =
    (case find_row sb_id (en_sandbox e) (sandboxes reg) of
       None \<Rightarrow> Inl (KeyError (''Unknown sandbox: '' @ en_sandbox e))
     | Some owner \<Rightarrow>
       (if sb_owner owner \<noteq> (en_agent e, en_user e)
        then Inl (ValueError ''Session route does not match sandbox owner'')
        else (let (route, reg1) = insert_session e reg in
          if (ss_sandbox route, ss_agent route, ss_user route, ss_path route)
             \<noteq> (en_sandbox e, en_agent e, en_user e, en_path e)
          then Inl (ValueError ''Session ID is already bound to another route'')
          else Inr (route, touch_sandbox (en_sandbox e) (en_now2 e) reg1))))"

text \<open>A failing entry is rolled back to its savepoint and reported in its place.\<close>

fun record_sessions_batch :: "session_entry list \<Rightarrow> registry \<Rightarrow> session_row res list \<times> registry" where
  "record_sessions_batch [] reg = ([], reg)"
| "record_sessions_batch (e # es) reg =
    (case record_entry e reg of
       Inl err \<Rightarrow> (let (results, reg') = record_sessions_batch es reg in (Inl err # results, reg'))
     | Inr (route, reg1) \<Rightarrow>
         (let (results, reg') = record_sessions_batch es reg1 in (Inr route # results, reg')))"

definition record_session :: "session_entry \<Rightarrow> registry \<Rightarrow> session_row res \<times> registry" where
  "record_session e reg =
    (case record_sessions_batch [e] reg of (results, reg') \<Rightarrow> (hd results, reg'))"

definition get_session_route :: "string \<Rightarrow> registry \<Rightarrow> session_row option" where
  "get_session_route session_id reg = find_row ss_id session_id (sessions reg)"

definition list_sessions_for_sandbox :: "string \<Rightarrow> registry \<Rightarrow> session_row list" where
  "list_sessions_for_sandbox sandbox_id reg =
    sort_key ss_created (filter (\<lambda>r. ss_sandbox r = sandbox_id) (sessions reg))"

section \<open>Reconciliation with the observed containers\<close>

text \<open>Each observed record is its own transaction; a violated constraint ends the loop with the
  earlier records stored.\<close>

fun reconcile_observed :: "sandbox_row list \<Rightarrow> string list \<Rightarrow> (registry, string list) sx" where
  "reconcile_observed [] observed_ids reg = (Inr observed_ids, reg)"
| "reconcile_observed (r # rs) observed_ids reg =
    (case upsert_sandbox (sb_id r) (sb_agent r) (sb_user r) (sb_container r) (sb_port r)
            (sb_status r) (sb_image r) (sb_last_active r) reg of
       Inl err \<Rightarrow> (Inl err, reg)
     | Inr (resolved, reg1) \<Rightarrow> reconcile_observed rs (sb_id resolved # observed_ids) reg1)"

definition missing_ids :: "string list \<Rightarrow> registry \<Rightarrow> string list" where
  "missing_ids observed_ids reg =
    filter (\<lambda>i. i \<notin> set observed_ids) (map sb_id (sandboxes reg))"

definition mark_missing :: "string list \<Rightarrow> string \<Rightarrow> registry \<Rightarrow> registry" where
  "mark_missing ids now reg =
    fold (\<lambda>i r. r\<lparr>sandboxes := update_rows sb_id i (set_status_row (''missing'', now)) (sandboxes r)\<rparr>) ids reg"

definition reconcile :: "sandbox_row list \<Rightarrow> string \<Rightarrow> (registry, string list) sx" where
  "reconcile observed now =
    sx_bind (reconcile_observed observed []) (\<lambda>observed_ids reg.
      let missing = missing_ids observed_ids reg in (Inr missing, mark_missing missing now reg))"

text \<open>The deletions the lifecycle service issues on these tables.\<close>

definition delete_agent_rows :: "string \<Rightarrow> registry \<Rightarrow> registry" where
  "delete_agent_rows aid reg =
    reg\<lparr>sessions := delete_rows (\<lambda>r. ss_agent r = aid) (sessions reg),
        sandboxes := delete_rows (\<lambda>r. sb_agent r = aid) (sandboxes reg),
        agents := delete_rows (\<lambda>r. ag_id r = aid) (agents reg)\<rparr>"

definition delete_sandbox_rows :: "string \<Rightarrow> registry \<Rightarrow> registry" where
  "delete_sandbox_rows sid reg =
    reg\<lparr>sessions := delete_rows (\<lambda>r. ss_sandbox r = sid) (sessions reg),
        sandboxes := delete_rows (\<lambda>r. sb_id r = sid) (sandboxes reg)\<rparr>"

section \<open>Column updates leave the keys alone\<close>

interpretation agent_update: row_update ag_id set_agent_row
  by unfold_locales (simp add: set_agent_row_def split: prod.split)

interpretation owner_update: row_update sb_owner set_sandbox_row
  by unfold_locales (simp add: set_sandbox_row_def sb_owner_def split: prod.split)

interpretation status_update: row_update sb_id set_status_row
  by unfold_locales (simp add: set_status_row_def split: prod.split)

interpretation touch_update: row_update sb_id touch_row
  by unfold_locales (simp add: touch_row_def)

interpretation health_update: row_update sb_id health_row
  by unfold_locales (simp add: health_row_def)

interpretation session_update: row_update ss_id session_activity
  by unfold_locales (simp add: session_activity_def)

text \<open>What the rest of the system reads off a sandbox row beyond its mutable columns.\<close>

definition sb_binding :: "sandbox_row \<Rightarrow> string \<times> string \<times> string \<times> string" where
  "sb_binding r = (sb_id r, sb_agent r, sb_user r, sb_created r)"

definition ss_binding :: "session_row \<Rightarrow> string \<times> string \<times> string \<times> string \<times> string \<times> string" where
  "ss_binding r = (ss_id r, ss_sandbox r, ss_agent r, ss_user r, ss_path r, ss_created r)"

lemma binding_updates [simp]:
  "sb_binding (set_sandbox_row v r) = sb_binding r" "sb_binding (set_status_row w r) = sb_binding r"
  "sb_binding (touch_row now r) = sb_binding r" "sb_binding (health_row st r) = sb_binding r"
  "ss_binding (session_activity now s) = ss_binding s"
  by (simp_all add: sb_binding_def set_sandbox_row_def set_status_row_def touch_row_def health_row_def
      ss_binding_def session_activity_def split: prod.splits)

lemma port_updates [simp]:
  "sb_port (set_status_row w r) = sb_port r" "sb_port (touch_row now r) = sb_port r"
  "sb_port (health_row st r) = sb_port r"
  by (simp_all add: set_status_row_def touch_row_def health_row_def split: prod.splits)

section \<open>The invariant of the tables\<close>

text \<open>Keys are unique, ports are in range, references resolve, and a session's owner is the
  owner of its sandbox (the join of the three tables is total).\<close>

definition registry_inv :: "registry \<Rightarrow> bool" where
  "registry_inv reg \<longleftrightarrow>
     unique_key ag_id (agents reg) \<and> unique_key sb_id (sandboxes reg)
     \<and> unique_key sb_owner (sandboxes reg) \<and> unique_key ss_id (sessions reg)
     \<and> (\<forall>r \<in> set (sandboxes reg). port_ok (sb_port r) \<and> sb_agent r \<in> ag_id ` set (agents reg))
     \<and> (\<forall>s \<in> set (sessions reg). \<exists>r \<in> set (sandboxes reg).
          sb_id r = ss_sandbox s \<and> sb_owner r = (ss_agent s, ss_user s))"

lemma registry_invI:
  assumes "unique_key ag_id (agents reg)" "unique_key sb_id (sandboxes reg)"
    "unique_key sb_owner (sandboxes reg)" "unique_key ss_id (sessions reg)"
    "\<And>r. r \<in> set (sandboxes reg) \<Longrightarrow> port_ok (sb_port r) \<and> sb_agent r \<in> ag_id ` set (agents reg)"
    "\<And>s. s \<in> set (sessions reg) \<Longrightarrow> \<exists>r \<in> set (sandboxes reg).
       sb_id r = ss_sandbox s \<and> sb_owner r = (ss_agent s, ss_user s)"
  shows "registry_inv reg"
  using assms by (simp add: registry_inv_def)

lemma registry_inv_empty: "registry_inv empty_registry"
  by (simp add: registry_inv_def empty_registry_def)

text \<open>Any update of sandbox rows that keeps bindings and ports in range keeps the invariant.\<close>

lemma sandbox_update_inv:
  assumes inv: "registry_inv reg" and b: "\<And>r. sb_binding (f r) = sb_binding r"
    and p: "\<And>r. port_ok (sb_port r) \<Longrightarrow> port_ok (sb_port (f r))"
  shows "registry_inv (reg\<lparr>sandboxes := update_rows key k f (sandboxes reg)\<rparr>)"
proof -
  have keep: "sb_id (f r) = sb_id r" "sb_owner (f r) = sb_owner r" "sb_agent (f r) = sb_agent r" for r
    using b [of r] by (simp_all add: sb_binding_def sb_owner_def)
  have "\<exists>r' \<in> set (update_rows key k f (sandboxes reg)). sb_id r' = sb_id r \<and> sb_owner r' = sb_owner r"
    if "r \<in> set (sandboxes reg)" for r
    using that keep by (metis (full_types) in_update_rows)
  then show ?thesis
    using inv unfolding registry_inv_def
    by (auto simp: unique_update_rows keep in_update_rows p) (metis (lifting) in_update_rows)+
qed

lemma status_inv:
  "registry_inv reg \<Longrightarrow>
    registry_inv (reg\<lparr>sandboxes := update_rows sb_id i (set_status_row v) (sandboxes reg)\<rparr>)"
  by (rule sandbox_update_inv) simp_all

lemma upsert_agent_inv: "registry_inv reg \<Longrightarrow> registry_inv (upsert_agent a c i e now reg)"
  unfolding upsert_agent_def registry_inv_def
  by (auto simp: agent_update.unique_update agent_update.keys_update unique_key_insert split: option.split)

lemma upsert_sandbox_new:
  assumes "upsert_sandbox i a u c p st im now reg = Inr (row, reg')" and "get_sandbox a u reg = None"
  shows "reg' = reg\<lparr>sandboxes := sandboxes reg @ [row]\<rparr>" "sb_id row = i" "sb_owner row = (a, u)"
    "port_ok (sb_port row)" "find_row sb_id i (sandboxes reg) = None"
    "a \<in> ag_id ` set (agents reg)"
proof -
  from assms have p: "port_ok p" and i: "find_row sb_id i (sandboxes reg) = None"
    and ag: "find_row ag_id a (agents reg) \<noteq> None"
    and row: "row = \<lparr>sb_id = i, sb_agent = a, sb_user = u, sb_container = c, sb_port = p, sb_status = st,
      sb_image = im, sb_last_active = now, sb_created = now\<rparr>"
    and reg': "reg' = reg\<lparr>sandboxes := sandboxes reg @ [row]\<rparr>"
    by (auto simp: upsert_sandbox_def Let_def split: if_splits)
  show "reg' = reg\<lparr>sandboxes := sandboxes reg @ [row]\<rparr>" "find_row sb_id i (sandboxes reg) = None" by fact+
  show "sb_id row = i" "sb_owner row = (a, u)" "port_ok (sb_port row)"
    using p by (simp_all add: row sb_owner_def)
  show "a \<in> ag_id ` set (agents reg)" using ag find_row_None by metis
qed

lemma upsert_sandbox_old:
  assumes "upsert_sandbox i a u c p st im now reg = Inr (row, reg')" and "get_sandbox a u reg = Some old"
  shows "port_ok p" "row = set_sandbox_row (c, p, st, im, now) old"
    "reg' = reg\<lparr>sandboxes := update_rows sb_owner (a, u) (set_sandbox_row (c, p, st, im, now)) (sandboxes reg)\<rparr>"
  using assms by (simp_all add: upsert_sandbox_def Let_def split: if_splits)

lemma insert_sandbox_inv:
  assumes "registry_inv reg" and "find_row sb_id (sb_id row) (sandboxes reg) = None"
    and "find_row sb_owner (sb_owner row) (sandboxes reg) = None"
    and "port_ok (sb_port row)" and "sb_agent row \<in> ag_id ` set (agents reg)"
  shows "registry_inv (reg\<lparr>sandboxes := sandboxes reg @ [row]\<rparr>)"
  using assms unfolding registry_inv_def by (simp add: unique_key_insert)

lemma insert_session_inv:
  assumes "registry_inv reg" and "find_row ss_id (ss_id row) (sessions reg) = None"
    and "\<exists>r \<in> set (sandboxes reg). sb_id r = ss_sandbox row \<and> sb_owner r = (ss_agent row, ss_user row)"
  shows "registry_inv (reg\<lparr>sessions := sessions reg @ [row]\<rparr>)"
  using assms unfolding registry_inv_def by (simp add: unique_key_insert)

lemma upsert_sandbox_inv:
  assumes "registry_inv reg" and "upsert_sandbox i a u c p st im now reg = Inr (row, reg')"
  shows "registry_inv reg'"
proof (cases "get_sandbox a u reg")
  case None
  note new = upsert_sandbox_new [OF assms(2) None]
  have "sb_agent row = a" using new(3) by (simp add: sb_owner_def)
  with new None show ?thesis
    unfolding new(1) by (intro insert_sandbox_inv assms(1)) (simp_all add: get_sandbox_def)
next
  case (Some old)
  note old = upsert_sandbox_old [OF assms(2) Some]
  show ?thesis unfolding old(3)
    by (rule sandbox_update_inv [OF assms(1)]) (use old(1) in \<open>simp_all add: set_sandbox_row_def sb_binding_def\<close>)
qed

lemma mark_sandbox_status_inv: "registry_inv reg \<Longrightarrow> registry_inv (snd (mark_sandbox_status i st now reg))"
  by (simp add: mark_sandbox_status_def status_inv)

lemma touch_sandbox_inv: "registry_inv reg \<Longrightarrow> registry_inv (touch_sandbox i now reg)"
  unfolding touch_sandbox_def by (rule sandbox_update_inv) simp_all

lemma set_health_status_inv: "registry_inv reg \<Longrightarrow> registry_inv (set_health_status i st reg)"
  unfolding set_health_status_def by (rule sandbox_update_inv) simp_all

lemma session_update_inv:
  "registry_inv reg \<Longrightarrow>
    registry_inv (reg\<lparr>sessions := update_rows ss_id k (session_activity now) (sessions reg)\<rparr>)"
  unfolding registry_inv_def
  by (auto simp: session_update.unique_update in_update_rows session_activity_def)

lemma record_entry_inv:
  assumes inv: "registry_inv reg" and ok: "record_entry e reg = Inr (route, reg')"
  shows "registry_inv reg'"
proof -
  from ok obtain owner reg1 where owner: "find_row sb_id (en_sandbox e) (sandboxes reg) = Some owner"
    "sb_owner owner = (en_agent e, en_user e)"
    and ins: "insert_session e reg = (route, reg1)" and reg': "reg' = touch_sandbox (en_sandbox e) (en_now2 e) reg1"
    by (auto simp: record_entry_def split: option.splits prod.splits if_splits)
  have "registry_inv reg1"
  proof (cases "find_row ss_id (en_session e) (sessions reg)")
    case (Some old)
    with ins session_update_inv [OF inv] show ?thesis by (auto simp: insert_session_def)
  next
    case None
    have "owner \<in> set (sandboxes reg)" "sb_id owner = en_sandbox e" using find_row_Some [OF owner(1)] by auto
    then have "\<exists>r \<in> set (sandboxes reg). sb_id r = en_sandbox e \<and> sb_owner r = (en_agent e, en_user e)"
      using owner(2) by blast
    moreover from None ins have "reg1 = reg\<lparr>sessions := sessions reg @ [route]\<rparr>"
      "ss_id route = en_session e" "ss_sandbox route = en_sandbox e" "ss_agent route = en_agent e"
      "ss_user route = en_user e"
      by (auto simp: insert_session_def Let_def)
    ultimately show ?thesis using insert_session_inv [OF inv] None by simp
  qed
  then show ?thesis unfolding reg' by (rule touch_sandbox_inv)
qed

lemma record_sessions_batch_inv: "registry_inv reg \<Longrightarrow> registry_inv (snd (record_sessions_batch es reg))"
proof (induction es arbitrary: reg)
  case Nil
  then show ?case by simp
next
  case (Cons e es)
  show ?case
  proof (cases "record_entry e reg")
    case (Inl err)
    with Cons show ?thesis by (simp add: case_prod_beta Let_def)
  next
    case (Inr p)
    obtain route reg1 where p: "p = (route, reg1)" by (cases p)
    with Inr Cons.prems record_entry_inv have "registry_inv reg1" by blast
    from Cons.IH [OF this] Inr p show ?thesis by (simp add: case_prod_beta Let_def)
  qed
qed

lemma reconcile_observed_inv: "registry_inv reg \<Longrightarrow> registry_inv (snd (reconcile_observed rs ids reg))"
  by (induction rs ids reg rule: reconcile_observed.induct)
     (auto split: sum.splits dest: upsert_sandbox_inv)

lemma mark_missing_inv: "registry_inv reg \<Longrightarrow> registry_inv (mark_missing ids now reg)"
  unfolding mark_missing_def by (induction ids arbitrary: reg) (simp_all add: status_inv)

lemma reconcile_inv: "registry_inv reg \<Longrightarrow> registry_inv (snd (reconcile rs now reg))"
  using reconcile_observed_inv [of reg rs "[]"]
  by (auto simp: reconcile_def sx_bind_def Let_def mark_missing_inv split: prod.splits sum.splits)

text \<open>Deleting sandboxes together with every session that refers to one of them.\<close>

lemma delete_inv:
  assumes inv: "registry_inv reg"
    and sess: "\<And>r s. r \<in> set (sandboxes reg) \<Longrightarrow> s \<in> set (sessions reg) \<Longrightarrow> sb_id r = ss_sandbox s \<Longrightarrow>
      sb_owner r = (ss_agent s, ss_user s) \<Longrightarrow> Q r \<Longrightarrow> S s"
    and ags: "\<And>r. r \<in> set (sandboxes reg) \<Longrightarrow> \<not> Q r \<Longrightarrow> \<exists>g \<in> set (agents reg). ag_id g = sb_agent r \<and> \<not> A g"
  shows "registry_inv (reg\<lparr>sessions := delete_rows S (sessions reg), sandboxes := delete_rows Q (sandboxes reg),
      agents := delete_rows A (agents reg)\<rparr>)"
proof -
  let ?reg = "reg\<lparr>sessions := delete_rows S (sessions reg), sandboxes := delete_rows Q (sandboxes reg),
      agents := delete_rows A (agents reg)\<rparr>"
  have "port_ok (sb_port r) \<and> sb_agent r \<in> ag_id ` set (agents ?reg)" if "r \<in> set (sandboxes ?reg)" for r
    using that inv ags [of r] unfolding registry_inv_def by force
  moreover have "\<exists>r \<in> set (sandboxes ?reg). sb_id r = ss_sandbox s \<and> sb_owner r = (ss_agent s, ss_user s)"
    if s: "s \<in> set (sessions ?reg)" for s
  proof -
    have "s \<in> set (sessions reg)" "\<not> S s" using s by simp_all
    moreover then obtain r where "r \<in> set (sandboxes reg)" "sb_id r = ss_sandbox s"
      "sb_owner r = (ss_agent s, ss_user s)"
      using inv unfolding registry_inv_def by blast
    ultimately show ?thesis using sess by auto
  qed
  ultimately show ?thesis
    using inv unfolding registry_inv_def by (simp add: unique_key_delete)
qed

lemma delete_agent_rows_inv:
  assumes "registry_inv reg"
  shows "registry_inv (delete_agent_rows a reg)"
  unfolding delete_agent_rows_def
proof (rule delete_inv [OF assms])
  fix r assume "r \<in> set (sandboxes reg)" "sb_agent r \<noteq> a"
  then show "\<exists>g \<in> set (agents reg). ag_id g = sb_agent r \<and> ag_id g \<noteq> a"
    using assms unfolding registry_inv_def by (metis image_iff)
qed (simp add: sb_owner_def)

lemma delete_sandbox_rows_inv:
  assumes "registry_inv reg"
  shows "registry_inv (delete_sandbox_rows i reg)"
proof -
  have "\<exists>g \<in> set (agents reg). ag_id g = sb_agent r \<and> \<not> False" if "r \<in> set (sandboxes reg)" for r
    using assms that unfolding registry_inv_def by (metis image_iff)
  then have "registry_inv (reg\<lparr>sessions := delete_rows (\<lambda>s. ss_sandbox s = i) (sessions reg),
      sandboxes := delete_rows (\<lambda>r. sb_id r = i) (sandboxes reg),
      agents := delete_rows (\<lambda>_. False) (agents reg)\<rparr>)"
    by (intro delete_inv [OF assms]) auto
  then show ?thesis by (simp add: delete_sandbox_rows_def delete_rows_def)
qed

section \<open>Runs of the registry\<close>

text \<open>One step is one method call of some client, with whatever arguments and clock.\<close>

inductive registry_step :: "registry \<Rightarrow> registry \<Rightarrow> bool" where
  agent: "registry_step reg (upsert_agent a c i e now reg)"
| sandbox: "upsert_sandbox sid a u c p st im now reg = Inr (row, reg') \<Longrightarrow> registry_step reg reg'"
| status: "registry_step reg (snd (mark_sandbox_status sid st now reg))"
| touch: "registry_step reg (touch_sandbox sid now reg)"
| health: "registry_step reg (set_health_status sid st reg)"
| record_batch: "registry_step reg (snd (record_sessions_batch es reg))"
| reconcile: "registry_step reg (snd (reconcile rs now reg))"
| delete_agent: "registry_step reg (delete_agent_rows a reg)"
| delete_sandbox: "registry_step reg (delete_sandbox_rows sid reg)"

inductive registry_reachable :: "registry \<Rightarrow> bool" where
  start: "registry_reachable empty_registry"
| step: "registry_reachable reg \<Longrightarrow> registry_step reg reg' \<Longrightarrow> registry_reachable reg'"

lemma registry_step_inv: "registry_step reg reg' \<Longrightarrow> registry_inv reg \<Longrightarrow> registry_inv reg'"
  by (induction rule: registry_step.induct)
     (simp_all add: upsert_agent_inv upsert_sandbox_inv mark_sandbox_status_inv touch_sandbox_inv
       set_health_status_inv record_sessions_batch_inv reconcile_inv delete_agent_rows_inv
       delete_sandbox_rows_inv)

lemma registry_reachable_inv: "registry_reachable reg \<Longrightarrow> registry_inv reg"
  by (induction rule: registry_reachable.induct) (simp_all add: registry_inv_empty registry_step_inv)

text \<open>C7: in every state the registry can reach, a session is bound to exactly one sandbox,
  that sandbox belongs to the session's agent and user, and no other sandbox has that owner.\<close>

theorem session_owner_unique:
  assumes "registry_reachable reg" and "s \<in> set (sessions reg)"
  shows "(\<exists>!r. r \<in> set (sandboxes reg) \<and> sb_owner r = (ss_agent s, ss_user s))
    \<and> (\<exists>r. get_sandbox (ss_agent s) (ss_user s) reg = Some r \<and> sb_id r = ss_sandbox s)"
proof -
  have inv: "registry_inv reg" by (rule registry_reachable_inv) (rule assms(1))
  then obtain r where r: "r \<in> set (sandboxes reg)" "sb_id r = ss_sandbox s" "sb_owner r = (ss_agent s, ss_user s)"
    using assms(2) unfolding registry_inv_def by blast
  have u: "unique_key sb_owner (sandboxes reg)" using inv by (simp add: registry_inv_def)
  have "\<exists>!r. r \<in> set (sandboxes reg) \<and> sb_owner r = (ss_agent s, ss_user s)"
    using r u by (auto simp: unique_key_def distinct_map inj_on_def)
  moreover have "get_sandbox (ss_agent s) (ss_user s) reg = Some r"
    using find_row_unique [OF u r(1) r(3)] by (simp add: get_sandbox_def)
  ultimately show ?thesis using r(2) by blast
qed

definition demo_sandbox :: sandbox_row where
  "demo_sandbox = \<lparr>sb_id = ''s1'', sb_agent = ''a'', sb_user = ''u'', sb_container = Some ''c'', sb_port = Some 4096,
     sb_status = ''ready'', sb_image = ''v1'', sb_last_active = ''t1'', sb_created = ''t1''\<rparr>"

definition demo_agent_row :: agent_row where
  "demo_agent_row = \<lparr>ag_id = ''a'', ag_config_path = ''p'', ag_image = ''i'', ag_enabled = True, ag_updated_at = ''t0''\<rparr>"

definition demo_session :: session_row where
  "demo_session = \<lparr>ss_id = ''x'', ss_sandbox = ''s1'', ss_agent = ''a'', ss_user = ''u'', ss_path = ''sessions/x'',
     ss_created = ''t2'', ss_last_active = ''t2''\<rparr>"

definition demo_entry :: session_entry where
  "demo_entry = \<lparr>en_session = ''x'', en_sandbox = ''s1'', en_agent = ''a'', en_user = ''u'', en_path = ''sessions/x'',
     en_now = ''t2'', en_now2 = ''t3''\<rparr>"

lemmas demo_rows = demo_sandbox_def demo_agent_row_def demo_session_def demo_entry_def

lemma demo_reachable1: "registry_reachable \<lparr>agents = [demo_agent_row], sandboxes = [demo_sandbox], sessions = []\<rparr>"
proof -
  have "registry_reachable (upsert_agent ''a'' ''p'' ''i'' True ''t0'' empty_registry)"
    by (rule registry_reachable.step [OF registry_reachable.start]) (rule registry_step.agent)
  then have "registry_reachable \<lparr>agents = [demo_agent_row], sandboxes = [], sessions = []\<rparr>"
    by (simp add: upsert_agent_def empty_registry_def demo_rows)
  then show ?thesis
    by (rule registry_reachable.step,
        intro registry_step.sandbox [of "''s1''" "''a''" "''u''" "Some ''c''" "Some 4096" "''ready''" "''v1''" "''t1''" _ demo_sandbox])
       (simp add: upsert_sandbox_def get_sandbox_def port_ok_def demo_rows Let_def)
qed

lemma demo_reachable2:
  "registry_reachable \<lparr>agents = [demo_agent_row], sandboxes = [touch_row ''t3'' demo_sandbox], sessions = [demo_session]\<rparr>"
proof -
  let ?reg = "\<lparr>agents = [demo_agent_row], sandboxes = [demo_sandbox], sessions = []\<rparr>"
  have "registry_reachable (snd (record_sessions_batch [demo_entry] ?reg))"
    by (rule registry_reachable.step [OF demo_reachable1]) (rule registry_step.record_batch)
  then show ?thesis
    by (simp add: record_entry_def insert_session_def sb_owner_def touch_sandbox_def update_rows_def demo_rows Let_def)
qed

theorem session_owner_unique_witness:
  "\<exists>r. get_sandbox ''a'' ''u'' \<lparr>agents = [demo_agent_row], sandboxes = [touch_row ''t3'' demo_sandbox],
     sessions = [demo_session]\<rparr> = Some r \<and> sb_id r = ''s1''"
  using session_owner_unique [OF demo_reachable2, of demo_session] by (simp add: demo_rows)

section \<open>Recording sessions\<close>

lemma batch_Cons_Inl:
  "record_entry e reg = Inl err \<Longrightarrow> record_sessions_batch (e # es) reg =
     (Inl err # fst (record_sessions_batch es reg), snd (record_sessions_batch es reg))"
  by (simp add: case_prod_beta Let_def)

lemma batch_Cons_Inr:
  "record_entry e reg = Inr (route, reg1) \<Longrightarrow> record_sessions_batch (e # es) reg =
     (Inr route # fst (record_sessions_batch es reg1), snd (record_sessions_batch es reg1))"
  by (simp add: case_prod_beta Let_def)

definition accepted_entries :: "session_entry list \<Rightarrow> session_row res list \<Rightarrow> session_entry list" where
  "accepted_entries es results = map fst (filter (\<lambda>(e, r). isl r = False) (zip es results))"

text \<open>A batch answers every entry in its place, and its effect on the tables is that of the
  accepted entries alone, so a rejected entry leaves no trace.\<close>

theorem record_sessions_batch_isolated:
  "length (fst (record_sessions_batch es reg)) = length es \<and>
   snd (record_sessions_batch es reg) =
     snd (record_sessions_batch (accepted_entries es (fst (record_sessions_batch es reg))) reg)"
proof (induction es arbitrary: reg)
  case Nil
  then show ?case by (simp add: accepted_entries_def)
next
  case (Cons e es)
  show ?case
  proof (cases "record_entry e reg")
    case (Inl err)
    with Cons.IH [of reg] show ?thesis by (simp add: batch_Cons_Inl accepted_entries_def del: record_sessions_batch.simps)
  next
    case (Inr p)
    obtain route reg1 where p: "record_entry e reg = Inr (route, reg1)" using Inr by (cases p) simp
    have "accepted_entries (e # es) (fst (record_sessions_batch (e # es) reg)) =
        e # accepted_entries es (fst (record_sessions_batch es reg1))"
      using p by (simp add: batch_Cons_Inr accepted_entries_def del: record_sessions_batch.simps)
    then show ?thesis
      using Cons.IH [of reg1] p by (simp add: batch_Cons_Inr del: record_sessions_batch.simps)
  qed
qed

lemma insert_session_keeps:
  assumes "get_session_route sid reg = Some r" and "insert_session e reg = (route, reg')"
  shows "\<exists>r'. get_session_route sid reg' = Some r' \<and> ss_binding r' = ss_binding r"
  using assms
  by (auto simp: insert_session_def get_session_route_def Let_def session_update.lookup_update
      find_row_append split: option.splits if_splits)

lemma record_entry_keeps:
  assumes "get_session_route sid reg = Some r" and "record_entry e reg = Inr (route, reg')"
  shows "\<exists>r'. get_session_route sid reg' = Some r' \<and> ss_binding r' = ss_binding r"
proof -
  from assms(2) obtain reg1 where "insert_session e reg = (route, reg1)"
    and "reg' = touch_sandbox (en_sandbox e) (en_now2 e) reg1"
    by (auto simp: record_entry_def split: option.splits prod.splits if_splits)
  with insert_session_keeps [OF assms(1)] show ?thesis
    by (simp add: touch_sandbox_def get_session_route_def)
qed

lemma record_batch_keeps:
  assumes "get_session_route sid reg = Some r"
  shows "\<exists>r'. get_session_route sid (snd (record_sessions_batch es reg)) = Some r' \<and> ss_binding r' = ss_binding r"
  using assms
proof (induction es arbitrary: reg r)
  case Nil
  then show ?case by simp
next
  case (Cons e es)
  show ?case
  proof (cases "record_entry e reg")
    case (Inl err)
    with Cons.IH [OF Cons.prems] show ?thesis by (simp add: batch_Cons_Inl del: record_sessions_batch.simps)
  next
    case (Inr p)
    obtain route reg1 where p: "record_entry e reg = Inr (route, reg1)" using Inr by (cases p) simp
    obtain r1 where r1: "get_session_route sid reg1 = Some r1" "ss_binding r1 = ss_binding r"
      using record_entry_keeps [OF Cons.prems p] by blast
    from Cons.IH [OF r1(1)] r1(2) p show ?thesis
      by (simp add: batch_Cons_Inr del: record_sessions_batch.simps)
  qed
qed

text \<open>No method writes the sessions but the recording of a batch and the deletions.\<close>

lemma upsert_sandbox_sessions: "upsert_sandbox i a u c p st im now reg = Inr (row, reg') \<Longrightarrow> sessions reg' = sessions reg"
  by (cases "get_sandbox a u reg") (auto dest: upsert_sandbox_new upsert_sandbox_old)

lemma reconcile_observed_sessions: "sessions (snd (reconcile_observed rs ids reg)) = sessions reg"
  by (induction rs ids reg rule: reconcile_observed.induct)
    (auto dest: upsert_sandbox_sessions split: sum.splits prod.splits)

lemma mark_missing_sessions: "sessions (mark_missing ids now reg) = sessions reg"
  by (induction ids arbitrary: reg) (simp_all add: mark_missing_def)

lemma reconcile_sessions: "sessions (snd (reconcile rs now reg)) = sessions reg"
  using reconcile_observed_sessions [of rs "[]" reg]
  by (auto simp: reconcile_def sx_bind_def Let_def mark_missing_sessions split: prod.splits sum.splits)

lemma route_deleted:
  assumes "registry_inv reg" and "get_session_route sid reg = Some r"
  shows "get_session_route sid (reg\<lparr>sessions := delete_rows S (sessions reg), sandboxes := x, agents := y\<rparr>) =
    (if S r then None else Some r)"
proof -
  have r: "r \<in> set (sessions reg)" "ss_id r = sid"
    using find_row_Some [OF assms(2) [unfolded get_session_route_def]] by auto
  have u: "unique_key ss_id (sessions reg)" using assms(1) by (simp add: registry_inv_def)
  show ?thesis
  proof (cases "S r")
    case True
    have "r' = r" if "r' \<in> set (sessions reg)" "ss_id r' = sid" for r'
      using u r that by (auto simp: unique_key_def distinct_map inj_on_def)
    then have "find_row ss_id sid (delete_rows S (sessions reg)) = None"
      using True by (auto simp: find_row_def delete_rows_def find_None_iff)
    then show ?thesis using True by (simp add: get_session_route_def)
  next
    case False
    have "find_row ss_id sid (delete_rows S (sessions reg)) = Some r"
      by (rule find_row_unique [OF unique_key_delete [OF u]]) (use r False in \<open>auto simp: delete_rows_def\<close>)
    then show ?thesis using False by (simp add: get_session_route_def)
  qed
qed

lemma delete_sandbox_rows_all:
  "delete_sandbox_rows i reg = reg\<lparr>sessions := delete_rows (\<lambda>s. ss_sandbox s = i) (sessions reg),
     sandboxes := delete_rows (\<lambda>r. sb_id r = i) (sandboxes reg), agents := agents reg\<rparr>"
  by (simp add: delete_sandbox_rows_def)

text \<open>One method call keeps the binding of a session or removes the session together with its sandbox.\<close>

definition binding_kept :: "string \<Rightarrow> session_row \<Rightarrow> registry \<Rightarrow> bool" where
  "binding_kept sid r reg \<longleftrightarrow> (\<exists>r'. get_session_route sid reg = Some r' \<and> ss_binding r' = ss_binding r)"

definition gone_with_sandbox :: "string \<Rightarrow> session_row \<Rightarrow> registry \<Rightarrow> bool" where
  "gone_with_sandbox sid r reg \<longleftrightarrow>
     get_session_route sid reg = None \<and> ss_sandbox r \<notin> sb_id ` set (sandboxes reg)"

lemma step_binding:
  assumes "registry_step reg reg'" and inv: "registry_inv reg" and r: "get_session_route sid reg = Some r"
  shows "binding_kept sid r reg' \<or> gone_with_sandbox sid r reg'"
  using assms(1)
proof cases
  case (agent a c i e now)
  then show ?thesis using r by (simp add: binding_kept_def get_session_route_def upsert_agent_def split: option.split)
next
  case (sandbox i a u c p st im now row)
  then show ?thesis using r upsert_sandbox_sessions by (fastforce simp: binding_kept_def get_session_route_def)
next
  case (status i st now)
  then show ?thesis using r
    by (simp add: binding_kept_def get_session_route_def mark_sandbox_status_def Let_def split: option.split prod.split)
next
  case (touch i now)
  then show ?thesis using r by (simp add: binding_kept_def get_session_route_def touch_sandbox_def)
next
  case (health i st)
  then show ?thesis using r by (simp add: binding_kept_def get_session_route_def set_health_status_def)
next
  case (record_batch es)
  then show ?thesis using record_batch_keeps [OF r] by (simp add: binding_kept_def)
next
  case (reconcile rs now)
  then show ?thesis using r by (simp add: binding_kept_def get_session_route_def reconcile_sessions)
next
  case (delete_agent a)
  have "r \<in> set (sessions reg)" using find_row_Some [OF r [unfolded get_session_route_def]] by auto
  then obtain row where row: "row \<in> set (sandboxes reg)" "sb_id row = ss_sandbox r" "sb_agent row = ss_agent r"
    using inv unfolding registry_inv_def sb_owner_def by fastforce
  have "sb_agent row' = ss_agent r" if "row' \<in> set (sandboxes reg)" "sb_id row' = ss_sandbox r" for row'
  proof -
    have "row' = row" using inv that row unfolding registry_inv_def unique_key_def distinct_map inj_on_def by metis
    then show ?thesis using row by simp
  qed
  then show ?thesis using delete_agent route_deleted [OF inv r]
    by (auto simp: binding_kept_def gone_with_sandbox_def delete_agent_rows_def delete_rows_def)
next
  case (delete_sandbox i)
  have "get_session_route sid reg' = (if ss_sandbox r = i then None else Some r)"
    unfolding delete_sandbox delete_sandbox_rows_all by (rule route_deleted [OF inv r])
  moreover have "i \<notin> sb_id ` set (sandboxes reg')"
    by (auto simp: delete_sandbox delete_sandbox_rows_def)
  ultimately show ?thesis by (auto simp: binding_kept_def gone_with_sandbox_def)
qed

text \<open>Any number of method calls during which the session is never deleted.\<close>

inductive session_lives :: "string \<Rightarrow> registry \<Rightarrow> registry \<Rightarrow> bool" for sid reg where
  here: "session_lives sid reg reg"
| further: "session_lives sid reg reg1 \<Longrightarrow> registry_step reg1 reg2 \<Longrightarrow> get_session_route sid reg2 \<noteq> None \<Longrightarrow>
    session_lives sid reg reg2"

lemma lives_binding:
  assumes "session_lives sid reg reg'" and "registry_inv reg" and "get_session_route sid reg = Some r"
  shows "registry_inv reg' \<and> binding_kept sid r reg'"
  using assms
proof (induction rule: session_lives.induct)
  case here
  then show ?case by (simp add: binding_kept_def)
next
  case (further reg1 reg2)
  then obtain r1 where inv: "registry_inv reg1" and r1: "get_session_route sid reg1 = Some r1" "ss_binding r1 = ss_binding r"
    by (auto simp: binding_kept_def)
  from step_binding [OF further.hyps(2) inv r1(1)] further.hyps(3) r1(2) registry_step_inv [OF further.hyps(2) inv]
  show ?case by (auto simp: binding_kept_def gone_with_sandbox_def)
qed

lemma gone_same_binding: "ss_binding r1 = ss_binding r \<Longrightarrow> gone_with_sandbox sid r1 reg = gone_with_sandbox sid r reg"
  by (simp add: gone_with_sandbox_def ss_binding_def)

text \<open>C8: through any sequence of calls of the registry's methods and of the lifecycle's deletions
  during which a session is not deleted, it keeps its sandbox, agent, user, directory and creation time,
  and that sandbox stays in the table under the session's agent and user. The next call keeps the
  binding too, or it deletes the session together with its sandbox; nothing else ends a binding.\<close>

theorem session_binding_permanent:
  assumes "registry_reachable reg" and "get_session_route sid reg = Some r"
    and "session_lives sid reg reg'" and "registry_step reg' reg''"
  shows "(\<exists>r'. get_session_route sid reg' = Some r' \<and> ss_binding r' = ss_binding r)
    \<and> (\<exists>row \<in> set (sandboxes reg'). sb_id row = ss_sandbox r \<and> sb_owner row = (ss_agent r, ss_user r))
    \<and> (binding_kept sid r reg'' \<or> gone_with_sandbox sid r reg'')"
proof -
  from lives_binding [OF assms(3) registry_reachable_inv [OF assms(1)] assms(2)]
  obtain r' where inv: "registry_inv reg'" and r': "get_session_route sid reg' = Some r'" "ss_binding r' = ss_binding r"
    by (auto simp: binding_kept_def)
  have "r' \<in> set (sessions reg')" using find_row_Some [OF r'(1) [unfolded get_session_route_def]] by auto
  then have row: "\<exists>row \<in> set (sandboxes reg'). sb_id row = ss_sandbox r' \<and> sb_owner row = (ss_agent r', ss_user r')"
    using inv unfolding registry_inv_def by blast
  have same: "ss_sandbox r' = ss_sandbox r" "ss_agent r' = ss_agent r" "ss_user r' = ss_user r"
    using r'(2) by (simp_all add: ss_binding_def)
  have "binding_kept sid r reg'' \<or> gone_with_sandbox sid r reg''"
    using step_binding [OF assms(4) inv r'(1)] gone_same_binding [OF r'(2)] by (simp add: binding_kept_def r'(2))
  with row r' show ?thesis unfolding same by blast
qed

definition demo_registry :: registry where
  "demo_registry = \<lparr>agents = [demo_agent_row], sandboxes = [touch_row ''t3'' demo_sandbox], sessions = [demo_session]\<rparr>"

lemma demo_registry_reachable: "registry_reachable demo_registry"
  using demo_reachable2 by (simp add: demo_registry_def)

theorem session_binding_permanent_witness:
  "\<exists>r'. get_session_route ''x'' (touch_sandbox ''s1'' ''later'' demo_registry) = Some r' \<and> ss_binding r' = ss_binding demo_session"
proof -
  have route: "get_session_route ''x'' demo_registry = Some demo_session" by (simp add: get_session_route_def demo_registry_def demo_rows)
  have "session_lives ''x'' demo_registry (touch_sandbox ''s1'' ''later'' demo_registry)"
    by (rule session_lives.further [OF session_lives.here registry_step.touch])
      (use route in \<open>simp add: touch_sandbox_def get_session_route_def\<close>)
  from session_binding_permanent [OF demo_registry_reachable route this registry_step.touch] show ?thesis by simp
qed

section \<open>Reconciling with Docker\<close>

lemma upsert_sandbox_owner_rows:
  assumes inv: "registry_inv reg" and up: "upsert_sandbox i a u c p st im now reg = Inr (row, reg')"
  shows "row \<in> set (sandboxes reg')" "sb_owner row = (a, u)"
    and "r \<in> set (sandboxes reg') \<Longrightarrow> sb_owner r \<noteq> (a, u) \<Longrightarrow> r \<in> set (sandboxes reg)"
proof -
  have "row \<in> set (sandboxes reg') \<and> sb_owner row = (a, u) \<and>
    (r \<in> set (sandboxes reg') \<longrightarrow> sb_owner r \<noteq> (a, u) \<longrightarrow> r \<in> set (sandboxes reg))"
  proof (cases "get_sandbox a u reg")
    case None
    note new = upsert_sandbox_new [OF up None]
    show ?thesis using new(1,3) by auto
  next
    case (Some old)
    note upd = upsert_sandbox_old [OF up Some]
    have old: "old \<in> set (sandboxes reg)" "sb_owner old = (a, u)"
      using find_row_Some [OF Some [unfolded get_sandbox_def]] by auto
    have o: "sb_owner (set_sandbox_row v q) = sb_owner q" for v q by (rule owner_update.key_upd)
    show ?thesis using old o unfolding upd(2,3) by (auto simp: in_update_rows)
  qed
  then show "row \<in> set (sandboxes reg')" "sb_owner row = (a, u)"
    "r \<in> set (sandboxes reg') \<Longrightarrow> sb_owner r \<noteq> (a, u) \<Longrightarrow> r \<in> set (sandboxes reg)" by auto
qed

definition observed_ids_match :: "registry \<Rightarrow> string list \<Rightarrow> (string \<times> string) set \<Rightarrow> bool" where
  "observed_ids_match reg ids owners \<longleftrightarrow>
     (\<forall>r \<in> set (sandboxes reg). sb_id r \<in> set ids \<longleftrightarrow> sb_owner r \<in> owners)"

lemma observed_step:
  assumes inv: "registry_inv reg" and m: "observed_ids_match reg ids owners"
    and up: "upsert_sandbox i a u c p st im now reg = Inr (row, reg')"
  shows "observed_ids_match reg' (sb_id row # ids) (insert (a, u) owners)"
proof -
  note rows = upsert_sandbox_owner_rows [OF inv up]
  have inv': "registry_inv reg'" by (rule upsert_sandbox_inv [OF inv up])
  have "sb_id r = sb_id row \<longleftrightarrow> sb_owner r = (a, u)" if "r \<in> set (sandboxes reg')" for r
    using that rows(1,2) inv' unfolding registry_inv_def unique_key_def distinct_map inj_on_def by metis
  moreover have "sb_id r \<in> set ids \<longleftrightarrow> sb_owner r \<in> owners"
    if "r \<in> set (sandboxes reg')" "sb_owner r \<noteq> (a, u)" for r
    using rows(3) [OF that] m by (simp add: observed_ids_match_def)
  ultimately show ?thesis by (auto simp: observed_ids_match_def)
qed

lemma reconcile_observed_match:
  assumes "reconcile_observed rs ids reg = (Inr out, reg')" and "registry_inv reg"
    and "observed_ids_match reg ids owners"
  shows "observed_ids_match reg' out (sb_owner ` set rs \<union> owners)"
  using assms
proof (induction rs ids reg arbitrary: owners rule: reconcile_observed.induct)
  case (1 ids reg)
  then show ?case by simp
next
  case (2 r rs ids reg)
  from "2.prems"(1) obtain row reg1 where
    up: "upsert_sandbox (sb_id r) (sb_agent r) (sb_user r) (sb_container r) (sb_port r)
            (sb_status r) (sb_image r) (sb_last_active r) reg = Inr (row, reg1)"
    and rest: "reconcile_observed rs (sb_id row # ids) reg1 = (Inr out, reg')"
    by (auto split: sum.splits)
  have "observed_ids_match reg1 (sb_id row # ids) (insert (sb_owner r) owners)"
    using observed_step [OF "2.prems"(2,3) up] by (simp add: sb_owner_def)
  from "2.IH" [OF up refl rest upsert_sandbox_inv [OF "2.prems"(2) up] this] show ?case by simp
qed

lemma mark_missing_rows:
  "sandboxes (mark_missing ids now reg) =
     map (\<lambda>r. if sb_id r \<in> set ids then set_status_row (''missing'', now) r else r) (sandboxes reg)"
proof (induction ids arbitrary: reg)
  case Nil
  then show ?case by (simp add: mark_missing_def)
next
  case (Cons i ids)
  have step: "mark_missing (i # ids) now reg =
      mark_missing ids now (reg\<lparr>sandboxes := update_rows sb_id i (set_status_row (''missing'', now)) (sandboxes reg)\<rparr>)"
    by (simp add: mark_missing_def)
  show ?case unfolding step Cons.IH by (auto simp: update_rows_def set_status_row_def)
qed

text \<open>After a reconciliation every sandbox whose owner was not observed, and no other, is
  reported and stands as missing.\<close>

theorem reconcile_marks_unobserved:
  assumes "registry_inv reg" and "reconcile observed now reg = (Inr missing, reg')"
    and "r \<in> set (sandboxes reg')"
  shows "(sb_id r \<in> set missing \<longleftrightarrow> sb_owner r \<notin> sb_owner ` set observed)
    \<and> (sb_owner r \<notin> sb_owner ` set observed \<longrightarrow> sb_status r = ''missing'' \<and> sb_last_active r = now)"
proof -
  from assms(2) obtain ids reg1 where obs: "reconcile_observed observed [] reg = (Inr ids, reg1)"
    and m: "missing = missing_ids ids reg1" "reg' = mark_missing missing now reg1"
    by (auto simp: reconcile_def sx_bind_def Let_def split: prod.splits sum.splits)
  have match: "observed_ids_match reg1 ids (sb_owner ` set observed)"
    using reconcile_observed_match [OF obs assms(1), of "{}"] by (simp add: observed_ids_match_def)
  from assms(3) m(2) obtain q where q: "q \<in> set (sandboxes reg1)"
    "r = (if sb_id q \<in> set missing then set_status_row (''missing'', now) q else q)"
    by (auto simp: mark_missing_rows)
  have keep: "sb_id r = sb_id q" "sb_owner r = sb_owner q"
    using q(2) by (auto simp: status_update.key_upd) (simp add: set_status_row_def sb_owner_def)
  have "sb_id q \<in> set missing \<longleftrightarrow> sb_owner q \<notin> sb_owner ` set observed"
    using match q(1) m(1) by (auto simp: missing_ids_def observed_ids_match_def)
  with q(2) keep show ?thesis by (auto simp: set_status_row_def)
qed

theorem reconcile_marks_unobserved_witness:
  "sb_status (demo_sandbox\<lparr>sb_status := ''missing'', sb_last_active := ''t9''\<rparr>) = ''missing''"
proof -
  let ?reg = "\<lparr>agents = [demo_agent_row], sandboxes = [demo_sandbox], sessions = []\<rparr>"
  let ?gone = "demo_sandbox\<lparr>sb_status := ''missing'', sb_last_active := ''t9''\<rparr>"
  have r: "reconcile [] ''t9'' ?reg = (Inr [''s1''], ?reg\<lparr>sandboxes := [?gone]\<rparr>)"
    by (simp add: reconcile_def sx_bind_def missing_ids_def mark_missing_def update_rows_def
        set_status_row_def demo_rows)
  from reconcile_marks_unobserved [OF registry_reachable_inv [OF demo_reachable1] r, of ?gone] show ?thesis by simp
qed

end
