(* ===== verification/JobStore.thy ===== *)
theory JobStore
  imports PyJson Tables
begin

text \<open>
  \<open>operations/src/store.py\<close>: the jobs of the operations service, with their idempotency
  keys and the lease a job holds on its target. A job is the JSON document the table stores;
  \<open>uuid4()\<close> and the clock are arguments. Each method is one IMMEDIATE transaction. The
  load-test tables live in the same database and are part of the state: \<open>has_load_tests\<close>
  tells whether the load-test module has created them.
\<close>

record job_row =
  jb_id :: string
  jb_request_id :: string
  jb_target :: string
  jb_doc :: jdict

record load_row =
  lt_id :: string
  lt_request_id :: string
  lt_fingerprint :: json
  lt_status :: string
  lt_created :: rat
  lt_doc :: jdict

record load_user_row =
  lu_name :: string
  lu_agent :: string
  lu_run :: string
  lu_state :: string
  lu_doc :: jdict

record ops_db =
  job_rows :: "job_row list"
  kv_state :: "(string, json) dict"
  has_load_tests :: bool
  load_rows :: "load_row list"
  load_users :: "load_user_row list"

definition empty_ops :: ops_db where
  "empty_ops = \<lparr>job_rows = [], kv_state = [], has_load_tests = False, load_rows = [], load_users = []\<rparr>"

section \<open>Reading\<close>

definition jobs :: "ops_db \<Rightarrow> jdict list" where
  "jobs db = map jb_doc (job_rows db)"

definition get_job :: "string \<Rightarrow> ops_db \<Rightarrow> jdict res" where
  "get_job jid db =
    (case find_row jb_id jid (job_rows db) of
       None \<Rightarrow> Inl (HTTPException 404 ''Job not found'') | Some row \<Rightarrow> Inr (jb_doc row))"

text \<open>\<open>job.get("scope", job["target"])\<close>\<close>

definition job_scope :: "jdict \<Rightarrow> json" where
  "job_scope job = dget job ''scope'' (jget job ''target'')"

definition status_in :: "jdict \<Rightarrow> string list \<Rightarrow> bool" where
  "status_in job names \<longleftrightarrow> jget job ''status'' \<in> JStr ` set names"

definition HOLDING :: "string list" where
  "HOLDING = [''queued'', ''running'', ''waiting'', ''applying'', ''needs_recovery'', ''interrupted'']"

definition ACTIVE :: "string list" where
  "ACTIVE = [''queued'', ''preparing'', ''running'', ''cancelling'']"

definition ACTIVE_JOB :: "string list" where
  "ACTIVE_JOB = [''queued'', ''running'', ''waiting'', ''applying'']"

section \<open>Writing\<close>

definition set_doc :: "jdict \<times> rat \<Rightarrow> job_row \<Rightarrow> job_row" where
  "set_doc = (\<lambda>(changes, now) row.
     row\<lparr>jb_doc := dput ''updated'' (JFloat now) (dupdate (jb_doc row) changes)\<rparr>)"

definition update_job :: "string \<Rightarrow> jdict \<Rightarrow> rat \<Rightarrow> ops_db \<Rightarrow> (jdict \<times> ops_db) res" where
  "update_job jid changes now db =
    (case find_row jb_id jid (job_rows db) of
       None \<Rightarrow> Inl (TypeError ''NoneType is not subscriptable'')
     | Some row \<Rightarrow> Inr (jb_doc (set_doc (changes, now) row),
         db\<lparr>job_rows := update_rows jb_id jid (set_doc (changes, now)) (job_rows db)\<rparr>))"

record fresh_values =
  fv_job :: string
  fv_request :: string
  fv_trace :: string
  fv_now :: rat

record trace_context =
  tc_trace :: json
  tc_span :: json
  tc_request :: json

text \<open>The load test that pins the scope: any active run for the global scope, otherwise a run
  with a user of the agent that is active or whose user is still being cleaned.\<close>

definition load_pins :: "string \<Rightarrow> ops_db \<Rightarrow> bool" where
  "load_pins scope db \<longleftrightarrow>
    (if scope = ''*'' then list_ex (\<lambda>r. lt_status r \<in> set ACTIVE) (load_rows db)
     else list_ex (\<lambda>r. list_ex (\<lambda>u. lu_run u = lt_id r \<and> lu_agent u = scope
            \<and> (lt_status r \<in> set ACTIVE \<or> lu_state u = ''cleaning'')) (load_users db)) (load_rows db))"

definition holds_scope :: "json \<Rightarrow> jdict \<Rightarrow> bool" where
  "holds_scope scope job \<longleftrightarrow>
     status_in job HOLDING \<and> (scope = JStr ''*'' \<or> job_scope job = scope \<or> job_scope job = JStr ''*'')"

definition new_job ::
  "string \<Rightarrow> string \<Rightarrow> jdict \<Rightarrow> string \<Rightarrow> string \<Rightarrow> fresh_values \<Rightarrow> trace_context \<Rightarrow> jdict" where
  "new_job kind target payload scope request_id fv tc =
    [(''id'', JStr (fv_job fv)), (''kind'', JStr kind), (''target'', JStr target), (''scope'', JStr scope),
     (''payload'', JObj payload), (''request_id'', JStr request_id), (''status'', JStr ''queued''),
     (''checkpoint'', JStr ''prepare''), (''created'', JFloat (fv_now fv)), (''updated'', JFloat (fv_now fv)),
     (''original_input'', dget payload ''_input'' (JObj payload)),
     (''trace_id'', if truthy (tc_trace tc) then tc_trace tc else JStr (fv_trace fv)),
     (''request_span_id'', tc_span tc), (''originating_request_id'', tc_request tc)]"

definition submit ::
  "string \<Rightarrow> string \<Rightarrow> jdict \<Rightarrow> string \<Rightarrow> fresh_values \<Rightarrow> trace_context \<Rightarrow> ops_db
    \<Rightarrow> ((jdict \<times> bool) \<times> ops_db) res" where
  "submit kind target payload scope0 fv tc db =
    (let scope = (if scope0 = [] then target else scope0);
         given = jget payload ''request_id'';
         request_id = (if truthy given then str_of given else fv_request fv)
     in case find_row jb_request_id request_id (job_rows db) of
       Some row \<Rightarrow>
         (let job = jb_doc row in
          if jget job ''kind'' \<noteq> JStr kind \<or> jget job ''target'' \<noteq> JStr target
             \<or> \<not> json_eq (jget job ''payload'') (JObj payload)
          then Inl (HTTPException 409 ''Request ID already used with different operation'')
          else Inr ((job, False), db))
     | None \<Rightarrow>
         (if has_load_tests db \<and> load_pins scope db
          then Inl (HTTPException 409 ''A load test pins this Agent version'')
          else if list_ex (holds_scope (JStr scope)) (jobs db)
          then Inl (HTTPException 409 ''An operation already holds this target'')
          else if find_row jb_id (fv_job fv) (job_rows db) \<noteq> None
          then Inl (IntegrityError ''UNIQUE constraint failed: jobs.id'')
          else (let job = new_job kind target payload scope request_id fv tc
                in Inr ((job, True), db\<lparr>job_rows := job_rows db @
                     [\<lparr>jb_id = fv_job fv, jb_request_id = request_id, jb_target = target, jb_doc = job\<rparr>]\<rparr>))))"

definition retry_attempt :: "jdict \<Rightarrow> json" where
  "retry_attempt job = JObj (map (\<lambda>k. (k, jget job k))
     [''status'', ''checkpoint'', ''error'', ''execution_id'', ''updated''])"

definition retry_changes :: "jdict \<Rightarrow> jdict \<Rightarrow> string \<Rightarrow> rat \<Rightarrow> jdict" where
  "retry_changes job payload execution_id now =
    dput ''updated'' (JFloat now) (dput ''error'' JNull (dput ''checkpoint'' (JStr ''prepare'')
      (dput ''status'' (JStr ''queued'') (dput ''execution_id'' (JStr execution_id)
      (dput ''retry_request_id'' (jget payload ''request_id'') (dput ''payload'' (JObj payload)
      (dput ''attempts'' (JArr (arr_of (dget job ''attempts'' (JArr [])) @ [retry_attempt job])) job)))))))"

definition replace_doc :: "jdict \<Rightarrow> job_row \<Rightarrow> job_row" where
  "replace_doc doc row = row\<lparr>jb_doc := doc\<rparr>"

definition retry_deletion ::
  "string \<Rightarrow> jdict \<Rightarrow> string \<Rightarrow> rat \<Rightarrow> ops_db \<Rightarrow> ((jdict \<times> bool) \<times> ops_db) res" where
  "retry_deletion jid payload execution_id now db =
    (case find_row jb_id jid (job_rows db) of
       None \<Rightarrow> Inl (HTTPException 404 ''Job not found'')
     | Some row \<Rightarrow>
       ebind (jindex payload ''request_id'') (\<lambda>retry_id.
        let job = jb_doc row in
        if jget job ''retry_request_id'' = retry_id
        then (if \<not> json_eq (jget job ''payload'') (JObj payload)
              then Inl (HTTPException 409 ''Retry request ID reused with different impact'')
              else Inr ((job, False), db))
        else if jget job ''kind'' \<noteq> JStr ''agent.delete''
             \<or> \<not> status_in job [''failed'', ''needs_recovery'', ''interrupted'']
        then Inl (HTTPException 409 ''Only interrupted permanent deletion accepts a newly confirmed retry'')
        else if list_ex (\<lambda>other. status_in (jb_doc other) HOLDING
               \<and> (job_scope (jb_doc other) = job_scope job \<or> job_scope (jb_doc other) = JStr ''*''))
             (filter (\<lambda>r. jb_id r \<noteq> jid) (job_rows db))
        then Inl (HTTPException 409 ''Another operation holds this Agent'')
        else (let doc = retry_changes job payload execution_id now
              in Inr ((doc, True), db\<lparr>job_rows := update_rows jb_id jid (replace_doc doc) (job_rows db)\<rparr>))))"

definition transition :: "string \<Rightarrow> string list \<Rightarrow> jdict \<Rightarrow> rat \<Rightarrow> ops_db \<Rightarrow> (jdict \<times> ops_db) res" where
  "transition jid allowed changes now db =
    (case find_row jb_id jid (job_rows db) of
       None \<Rightarrow> Inl (HTTPException 404 ''Job not found'')
     | Some row \<Rightarrow>
       (if \<not> status_in (jb_doc row) allowed then Inl (HTTPException 409 ''Job state changed'')
        else Inr (jb_doc (set_doc (changes, now) row),
          db\<lparr>job_rows := update_rows jb_id jid (set_doc (changes, now)) (job_rows db)\<rparr>)))"

definition get_state :: "string \<Rightarrow> ops_db \<Rightarrow> json" where
  "get_state key db = jget (kv_state db) key"

definition put_state :: "string \<Rightarrow> json \<Rightarrow> ops_db \<Rightarrow> ops_db" where
  "put_state key value db = (if value = JNull then db else db\<lparr>kv_state := dput key value (kv_state db)\<rparr>)"

interpretation doc_update: row_update jb_id set_doc
  by unfold_locales (simp add: set_doc_def split: prod.split)

interpretation doc_replace: row_update jb_id replace_doc
  by unfold_locales (simp add: replace_doc_def)

section \<open>One operation per target\<close>

text \<open>No two jobs that hold their target overlap: a global job excludes every other one, and two
  jobs that hold have different scopes.\<close>

definition overlap :: "jdict \<Rightarrow> jdict \<Rightarrow> bool" where
  "overlap a b \<longleftrightarrow> job_scope a = job_scope b \<or> job_scope a = JStr ''*'' \<or> job_scope b = JStr ''*''"

definition exclusive :: "ops_db \<Rightarrow> bool" where
  "exclusive db \<longleftrightarrow>
     (\<forall>r \<in> set (job_rows db). \<forall>q \<in> set (job_rows db). jb_id r \<noteq> jb_id q \<longrightarrow>
        status_in (jb_doc r) HOLDING \<longrightarrow> status_in (jb_doc q) HOLDING \<longrightarrow> \<not> overlap (jb_doc r) (jb_doc q))"

definition jobs_inv :: "ops_db \<Rightarrow> bool" where
  "jobs_inv db \<longleftrightarrow> unique_key jb_id (job_rows db) \<and> unique_key jb_request_id (job_rows db) \<and> exclusive db"

lemma jobs_inv_empty: "jobs_inv empty_ops"
  by (simp add: jobs_inv_def exclusive_def empty_ops_def)

lemma overlap_sym: "overlap a b = overlap b a"
  by (auto simp: overlap_def)

text \<open>A new document for one job keeps the leases apart when its scope stays and it holds only if
  the old one did, or when nothing else in its way holds.\<close>

lemma exclusive_replace:
  assumes ex: "exclusive db" and u: "unique_key jb_id (job_rows db)"
    and row: "find_row jb_id jid (job_rows db) = Some row"
    and scope: "job_scope (jb_doc (f row)) = job_scope (jb_doc row)" and key: "\<And>r. jb_id (f r) = jb_id r"
    and hold: "status_in (jb_doc (f row)) HOLDING \<Longrightarrow>
      status_in (jb_doc row) HOLDING \<or>
      (\<forall>q \<in> set (job_rows db). jb_id q \<noteq> jid \<longrightarrow> status_in (jb_doc q) HOLDING \<longrightarrow> \<not> overlap (jb_doc row) (jb_doc q))"
  shows "exclusive (db\<lparr>job_rows := update_rows jb_id jid f (job_rows db)\<rparr>)"
proof -
  have rowin: "row \<in> set (job_rows db)" "jb_id row = jid" using find_row_Some [OF row] by auto
  have the_row: "r = row" if "r \<in> set (job_rows db)" "jb_id r = jid" for r
    using find_row_unique [OF u that] row by simp
  have apart: "\<not> overlap (jb_doc (f row)) (jb_doc q)"
    if "status_in (jb_doc (f row)) HOLDING" "q \<in> set (job_rows db)" "jb_id q \<noteq> jid" "status_in (jb_doc q) HOLDING" for q
  proof -
    have "\<not> overlap (jb_doc row) (jb_doc q)"
      using hold [OF that(1)] that ex rowin unfolding exclusive_def by metis
    then show ?thesis using scope by (simp add: overlap_def)
  qed
  show ?thesis unfolding exclusive_def
  proof (intro ballI impI)
    fix x y assume "x \<in> set (job_rows (db\<lparr>job_rows := update_rows jb_id jid f (job_rows db)\<rparr>))"
      "y \<in> set (job_rows (db\<lparr>job_rows := update_rows jb_id jid f (job_rows db)\<rparr>))"
    then obtain r q where r: "r \<in> set (job_rows db)" "x = (if jb_id r = jid then f r else r)"
      and q: "q \<in> set (job_rows db)" "y = (if jb_id q = jid then f q else q)"
      by (auto simp: in_update_rows)
    assume ne: "jb_id x \<noteq> jb_id y" and h: "status_in (jb_doc x) HOLDING" "status_in (jb_doc y) HOLDING"
    have ne': "jb_id r \<noteq> jb_id q" using ne r(2) q(2) key by (auto split: if_splits)
    consider "jb_id r = jid" "jb_id q \<noteq> jid" | "jb_id q = jid" "jb_id r \<noteq> jid" | "jb_id r \<noteq> jid" "jb_id q \<noteq> jid"
      using ne' by blast
    then show "\<not> overlap (jb_doc x) (jb_doc y)"
    proof cases
      case 1
      then show ?thesis using apart [OF _ q(1)] h r q the_row [OF r(1)] by simp
    next
      case 2
      then show ?thesis using apart [OF _ r(1)] h r q the_row [OF q(1)] overlap_sym by simp
    next
      case 3
      then show ?thesis using ex r q h ne' unfolding exclusive_def by simp
    qed
  qed
qed

lemma replace_inv:
  assumes "jobs_inv db" and "find_row jb_id jid (job_rows db) = Some row"
    and "\<And>r. jb_id (f r) = jb_id r" and "\<And>r. jb_request_id (f r) = jb_request_id r"
    and "job_scope (jb_doc (f row)) = job_scope (jb_doc row)"
    and "status_in (jb_doc (f row)) HOLDING \<Longrightarrow> status_in (jb_doc row) HOLDING \<or>
      (\<forall>q \<in> set (job_rows db). jb_id q \<noteq> jid \<longrightarrow> status_in (jb_doc q) HOLDING \<longrightarrow> \<not> overlap (jb_doc row) (jb_doc q))"
  shows "jobs_inv (db\<lparr>job_rows := update_rows jb_id jid f (job_rows db)\<rparr>)"
  using assms exclusive_replace [of db jid row f] unfolding jobs_inv_def
  by (simp add: unique_update_rows)

lemma set_doc_fields [simp]:
  "jb_id (set_doc v r) = jb_id r" "jb_request_id (set_doc v r) = jb_request_id r"
  "jb_id (replace_doc d r) = jb_id r" "jb_request_id (replace_doc d r) = jb_request_id r"
  "jb_doc (replace_doc d r) = d"
  by (simp_all add: set_doc_def replace_doc_def split: prod.split)

text \<open>Changes of a job never name its scope or target.\<close>

definition keeps_scope :: "jdict \<Rightarrow> bool" where
  "keeps_scope changes \<longleftrightarrow> ''scope'' \<notin> fst ` set changes \<and> ''target'' \<notin> fst ` set changes"

lemma dupdate_other: "k \<notin> fst ` set u \<Longrightarrow> map_of (dupdate d u) k = map_of d k"
  by (simp add: map_of_dupdate map_add_def map_of_eq_None_iff [THEN iffD2] split: option.split)

lemma set_doc_scope: "keeps_scope changes \<Longrightarrow> job_scope (jb_doc (set_doc (changes, now) r)) = job_scope (jb_doc r)"
  by (simp add: keeps_scope_def set_doc_def job_scope_def dget_def jget_def dupdate_other)

lemma set_doc_status:
  "''status'' \<notin> fst ` set changes \<Longrightarrow> status_in (jb_doc (set_doc (changes, now) r)) S = status_in (jb_doc r) S"
  by (simp add: set_doc_def status_in_def dget_def jget_def dupdate_other)

lemma set_doc_new_status:
  "status_in (jb_doc (set_doc ((''status'', JStr st) # changes, now) r)) S = (st \<in> set S)"
  if "''status'' \<notin> fst ` set changes"
proof -
  have "map_of (dupdate (jb_doc r) ((''status'', JStr st) # changes)) ''status'' = Some (JStr st)"
    using dupdate_other [OF that] by (simp add: dupdate_def)
  then show ?thesis by (auto simp: set_doc_def status_in_def jget_def dget_def)
qed

lemma submit_new:
  assumes "submit kind target payload scope0 fv tc db = Inr ((job, True), db')"
  obtains request_id scope where "find_row jb_request_id request_id (job_rows db) = None"
    "find_row jb_id (fv_job fv) (job_rows db) = None"
    "\<And>q. q \<in> set (job_rows db) \<Longrightarrow> \<not> holds_scope (JStr scope) (jb_doc q)"
    "job = new_job kind target payload scope request_id fv tc"
    "db' = db\<lparr>job_rows := job_rows db @
        [\<lparr>jb_id = fv_job fv, jb_request_id = request_id, jb_target = target, jb_doc = job\<rparr>]\<rparr>"
  using assms
  by (auto simp: submit_def Let_def jobs_def list_ex_iff split: option.splits if_splits)

lemma new_job_fields [simp]:
  "job_scope (new_job kind target payload scope request_id fv tc) = JStr scope"
  "jget (new_job kind target payload scope request_id fv tc) ''status'' = JStr ''queued''"
  "jget (new_job kind target payload scope request_id fv tc) ''kind'' = JStr kind"
  "jget (new_job kind target payload scope request_id fv tc) ''target'' = JStr target"
  "jget (new_job kind target payload scope request_id fv tc) ''payload'' = JObj payload"
  by (simp_all add: new_job_def job_scope_def jget_def dget_def)

lemma submit_old:
  "submit kind target payload scope0 fv tc db = Inr ((job, False), db') \<Longrightarrow> db' = db"
  by (auto simp: submit_def Let_def split: option.splits if_splits)

lemma submit_inv:
  assumes inv: "jobs_inv db" and ok: "submit kind target payload scope0 fv tc db = Inr ((job, created), db')"
  shows "jobs_inv db'"
proof (cases created)
  case False
  with ok have "db' = db" by (simp add: submit_old)
  with inv show ?thesis by simp
next
  case True
  with ok have ok': "submit kind target payload scope0 fv tc db = Inr ((job, True), db')" by simp
  obtain request_id scope where n: "find_row jb_request_id request_id (job_rows db) = None"
    "find_row jb_id (fv_job fv) (job_rows db) = None"
    "\<And>q. q \<in> set (job_rows db) \<Longrightarrow> \<not> holds_scope (JStr scope) (jb_doc q)"
    "job = new_job kind target payload scope request_id fv tc"
    "db' = db\<lparr>job_rows := job_rows db @
        [\<lparr>jb_id = fv_job fv, jb_request_id = request_id, jb_target = target, jb_doc = job\<rparr>]\<rparr>"
    by (rule submit_new [OF ok']) (rule that, assumption+)
  have "\<not> overlap (jb_doc q) job" if "q \<in> set (job_rows db)" "status_in (jb_doc q) HOLDING" for q
    using n(3) [OF that(1)] that(2) n(4) by (auto simp: holds_scope_def overlap_def)
  then have "exclusive db'"
    using inv unfolding n(5) jobs_inv_def exclusive_def by (auto simp: overlap_sym)
  then show ?thesis using inv n(1,2) unfolding n(5) jobs_inv_def by (auto simp: unique_key_insert)
qed

lemma transition_inv:
  assumes inv: "jobs_inv db" and ok: "transition jid allowed changes now db = Inr (job, db')"
    and "set allowed \<subseteq> set HOLDING \<or> (\<exists>rest st. changes = (''status'', JStr st) # rest \<and> st \<notin> set HOLDING \<and> ''status'' \<notin> fst ` set rest)"
    and "keeps_scope changes"
  shows "jobs_inv db'"
proof -
  from ok obtain row where row: "find_row jb_id jid (job_rows db) = Some row" "status_in (jb_doc row) allowed"
    and db': "db' = db\<lparr>job_rows := update_rows jb_id jid (set_doc (changes, now)) (job_rows db)\<rparr>"
    by (auto simp: transition_def split: option.splits if_splits)
  show ?thesis unfolding db'
  proof (rule replace_inv [OF inv row(1)])
    show "job_scope (jb_doc (set_doc (changes, now) row)) = job_scope (jb_doc row)"
      by (rule set_doc_scope) (rule assms(4))
    assume "status_in (jb_doc (set_doc (changes, now) row)) HOLDING"
    then have "set allowed \<subseteq> set HOLDING" using assms(3) set_doc_new_status by blast
    then show "status_in (jb_doc row) HOLDING \<or>
      (\<forall>q \<in> set (job_rows db). jb_id q \<noteq> jid \<longrightarrow> status_in (jb_doc q) HOLDING \<longrightarrow> \<not> overlap (jb_doc row) (jb_doc q))"
      using row(2) by (auto simp: status_in_def)
  qed simp_all
qed

lemma retry_doc_scope: "job_scope (retry_changes job payload x now) = job_scope job"
  by (simp add: retry_changes_def job_scope_def dget_def jget_def)

lemma retry_deletion_inv:
  assumes inv: "jobs_inv db" and ok: "retry_deletion jid payload x now db = Inr ((job, created), db')"
    and "job_scope job \<noteq> JStr ''*''"
  shows "jobs_inv db'"
proof (cases "db' = db")
  case True
  with inv show ?thesis by simp
next
  case False
  with ok obtain row where row: "find_row jb_id jid (job_rows db) = Some row"
    and free: "\<And>q. q \<in> set (job_rows db) \<Longrightarrow> jb_id q \<noteq> jid \<Longrightarrow> status_in (jb_doc q) HOLDING \<Longrightarrow>
      job_scope (jb_doc q) \<noteq> job_scope (jb_doc row) \<and> job_scope (jb_doc q) \<noteq> JStr ''*''"
    and job: "job = retry_changes (jb_doc row) payload x now"
    and db': "db' = db\<lparr>job_rows := update_rows jb_id jid (replace_doc job) (job_rows db)\<rparr>"
    by (auto simp: retry_deletion_def Let_def list_ex_iff exc_simps split: option.splits if_splits)
  have scope: "job_scope job = job_scope (jb_doc row)" by (simp add: job retry_doc_scope)
  show ?thesis unfolding db'
  proof (rule replace_inv [OF inv row])
    have "\<not> overlap (jb_doc row) (jb_doc q)"
      if "q \<in> set (job_rows db)" "jb_id q \<noteq> jid" "status_in (jb_doc q) HOLDING" for q
      using free [OF that] assms(3) scope by (auto simp: overlap_def)
    then show "status_in (jb_doc row) HOLDING \<or>
      (\<forall>q \<in> set (job_rows db). jb_id q \<noteq> jid \<longrightarrow> status_in (jb_doc q) HOLDING \<longrightarrow> \<not> overlap (jb_doc row) (jb_doc q))"
      by blast
  qed (simp_all add: scope)
qed

section \<open>Properties\<close>

text \<open>C6: Submitting an operation keeps at most one operation per target: in the state it leaves, job
  ids and request ids stay unique and no two jobs that hold overlap, and a job it creates is queued
  with a scope no holding job overlaps.\<close>
theorem submit_exclusive:
  assumes "jobs_inv db"
    and "submit kind target payload scope0 fv tc db = Inr ((job, created), db')"
  shows "jobs_inv db' \<and> (\<not> created \<longrightarrow> db' = db) \<and>
    (created \<longrightarrow> jget job ''status'' = JStr ''queued'' \<and> get_job (fv_job fv) db' = Inr job \<and>
       (\<forall>q \<in> set (job_rows db). status_in (jb_doc q) HOLDING \<longrightarrow> \<not> overlap (jb_doc q) job))"
proof (cases created)
  case False
  with assms(2) have "db' = db" by (simp add: submit_old)
  with False assms(1) show ?thesis by simp
next
  case True
  with assms(2) have ok: "submit kind target payload scope0 fv tc db = Inr ((job, True), db')" by simp
  show ?thesis using submit_inv [OF assms] True
    by (rule_tac submit_new [OF ok]) (auto simp: get_job_def find_row_append holds_scope_def overlap_def)
qed

definition sample_fresh :: "string \<Rightarrow> fresh_values" where
  "sample_fresh i = \<lparr>fv_job = i, fv_request = i @ ''-request'', fv_trace = i @ ''-trace'', fv_now = 5\<rparr>"

definition no_trace :: trace_context where
  "no_trace = \<lparr>tc_trace = JNull, tc_span = JNull, tc_request = JNull\<rparr>"

definition sample_payload :: jdict where
  "sample_payload = [(''request_id'', JStr ''r1''), (''revision'', JInt 3)]"

lemmas sample_job_defs = sample_fresh_def no_trace_def sample_payload_def

theorem submit_exclusive_witness:
  "\<exists>job db'. submit ''agent.apply'' ''a1'' sample_payload [] (sample_fresh ''j1'') no_trace empty_ops
      = Inr ((job, True), db') \<and> jobs_inv db' \<and> get_job ''j1'' db' = Inr job"
proof -
  have ok: "submit ''agent.apply'' ''a1'' sample_payload [] (sample_fresh ''j1'') no_trace empty_ops
      = Inr ((new_job ''agent.apply'' ''a1'' sample_payload ''a1'' ''r1'' (sample_fresh ''j1'') no_trace, True),
          empty_ops\<lparr>job_rows := [\<lparr>jb_id = ''j1'', jb_request_id = ''r1'', jb_target = ''a1'',
            jb_doc = new_job ''agent.apply'' ''a1'' sample_payload ''a1'' ''r1'' (sample_fresh ''j1'') no_trace\<rparr>]\<rparr>)"
    by (simp add: submit_def empty_ops_def Let_def jobs_def sample_job_defs jget_def dget_def)
  from submit_exclusive [OF jobs_inv_empty ok] ok show ?thesis by (auto simp: sample_fresh_def)
qed

lemma new_job_request_row:
  assumes "find_row jb_request_id rid rows = None"
  shows "find_row jb_request_id rid (rows @ [\<lparr>jb_id = i, jb_request_id = rid, jb_target = t, jb_doc = d\<rparr>])
    = Some \<lparr>jb_id = i, jb_request_id = rid, jb_target = t, jb_doc = d\<rparr>"
  using assms by (simp add: find_row_append)

text \<open>A submission is idempotent: repeated with the same request id, kind, target and payload it
  returns the job of the first call and changes nothing, also while that job holds its target; with
  another kind or target it is refused.\<close>
theorem submit_replay:
  assumes "submit kind target payload scope0 fv tc db = Inr ((job, True), db')"
    and "jget payload ''request_id'' = JStr rid" and "rid \<noteq> []" and "jwf (JObj payload)"
  shows "submit kind target payload scope1 fv' tc' db' = Inr ((job, False), db') \<and>
    ((kind', target') \<noteq> (kind, target) \<longrightarrow>
      submit kind' target' payload scope1 fv' tc' db' =
        Inl (HTTPException 409 ''Request ID already used with different operation''))"
proof -
  from assms have "find_row jb_request_id rid (job_rows db) = None"
    and db': "db' = db\<lparr>job_rows := job_rows db @
        [\<lparr>jb_id = fv_job fv, jb_request_id = rid, jb_target = target, jb_doc = job\<rparr>]\<rparr>"
    and job: "\<exists>scope. job = new_job kind target payload scope rid fv tc"
    by (auto simp: submit_def Let_def split: option.splits if_splits)
  then have row: "find_row jb_request_id rid (job_rows db') =
      Some \<lparr>jb_id = fv_job fv, jb_request_id = rid, jb_target = target, jb_doc = job\<rparr>"
    by (simp add: new_job_request_row)
  show ?thesis using row job json_eq_refl [OF assms(4)] assms(2,3)
    by (auto simp: submit_def Let_def)
qed

theorem submit_replay_witness:
  "\<exists>job db'. submit ''agent.apply'' ''a1'' sample_payload [] (sample_fresh ''j1'') no_trace empty_ops = Inr ((job, True), db')
     \<and> submit ''agent.apply'' ''a1'' sample_payload [] (sample_fresh ''j2'') no_trace db' = Inr ((job, False), db')"
proof -
  obtain job db' where ok: "submit ''agent.apply'' ''a1'' sample_payload [] (sample_fresh ''j1'') no_trace empty_ops = Inr ((job, True), db')"
    by (simp add: submit_def empty_ops_def Let_def jobs_def sample_job_defs jget_def dget_def)
  show ?thesis using submit_replay [OF ok, of "''r1''" "[]" "sample_fresh ''j2''" no_trace "''agent.apply''" "''a1''"] ok
    by (auto simp: sample_payload_def jget_def dget_def)
qed

text \<open>A confirmed retry of a deletion is granted only for a deletion that stopped and whose Agent
  no other holding operation claims; it keeps the leases exclusive, records the failed attempt, and
  repeated with the same request it changes nothing.\<close>
theorem retry_deletion_exclusive:
  assumes "jobs_inv db" and "retry_deletion jid payload x now db = Inr ((job, True), db')"
    and "job_scope job \<noteq> JStr ''*''" and "jwf (JObj payload)"
  shows "jobs_inv db' \<and> jget job ''status'' = JStr ''queued'' \<and>
    (\<exists>old. get_job jid db = Inr old \<and> jget old ''kind'' = JStr ''agent.delete'' \<and>
       status_in old [''failed'', ''needs_recovery'', ''interrupted''] \<and>
       length (arr_of (jget job ''attempts'')) = Suc (length (arr_of (jget old ''attempts'')))) \<and>
    retry_deletion jid payload x' now' db' = Inr ((job, False), db')"
proof -
  from assms(2) obtain row rid where row: "find_row jb_id jid (job_rows db) = Some row"
    and rid: "map_of payload ''request_id'' = Some rid"
    and kind: "jget (jb_doc row) ''kind'' = JStr ''agent.delete''"
      "status_in (jb_doc row) [''failed'', ''needs_recovery'', ''interrupted'']"
    and job: "job = retry_changes (jb_doc row) payload x now"
    and db': "db' = db\<lparr>job_rows := update_rows jb_id jid (replace_doc job) (job_rows db)\<rparr>"
    by (auto simp: retry_deletion_def Let_def exc_simps jindex_def split: option.splits if_splits)
  have row': "find_row jb_id jid (job_rows db') = Some (row\<lparr>jb_doc := job\<rparr>)"
    by (simp add: db' doc_replace.lookup_update row replace_doc_def)
  have "jget job ''retry_request_id'' = rid" "jget job ''payload'' = JObj payload"
    "jget job ''status'' = JStr ''queued''"
    by (simp_all add: job retry_changes_def jget_def dget_def rid)
  moreover have "length (arr_of (jget job ''attempts'')) = Suc (length (arr_of (jget (jb_doc row) ''attempts'')))"
    by (simp add: job retry_changes_def jget_def dget_def split: option.split)
  moreover have "json_eq (JObj payload) (JObj payload)" using assms(4) by (rule json_eq_refl)
  ultimately show ?thesis
    using retry_deletion_inv [OF assms(1-3)] row row' kind
    by (simp add: retry_deletion_def Let_def jindex_def rid get_job_def)
qed

definition sample_failed_db :: ops_db where
  "sample_failed_db = empty_ops\<lparr>job_rows := [\<lparr>jb_id = ''j1'', jb_request_id = ''r1'', jb_target = ''a1'',
     jb_doc = [(''id'', JStr ''j1''), (''kind'', JStr ''agent.delete''), (''target'', JStr ''a1''),
               (''scope'', JStr ''a1''), (''status'', JStr ''failed'')]\<rparr>]\<rparr>"

theorem retry_deletion_exclusive_witness:
  "\<exists>job db'. retry_deletion ''j1'' [(''request_id'', JStr ''r2'')] ''x'' 9 sample_failed_db = Inr ((job, True), db')
     \<and> jobs_inv db' \<and> retry_deletion ''j1'' [(''request_id'', JStr ''r2'')] ''y'' 10 db' = Inr ((job, False), db')"
proof -
  obtain job db' where ok: "retry_deletion ''j1'' [(''request_id'', JStr ''r2'')] ''x'' 9 sample_failed_db = Inr ((job, True), db')"
    and job: "job_scope job = JStr ''a1''"
    by (simp add: retry_deletion_def sample_failed_db_def jindex_def jget_def dget_def status_in_def job_scope_def
        retry_changes_def Let_def)
  have "jobs_inv sample_failed_db"
    by (simp add: jobs_inv_def sample_failed_db_def exclusive_def unique_key_def)
  from retry_deletion_exclusive [OF this ok, of "''y''" 10] ok job show ?thesis by auto
qed

end
