(* ===== verification/StepLogic.thy ===== *)
theory StepLogic
  imports Prelude
begin

text \<open>
  A small program logic for the stateful steps of \<open>Prelude\<close>: \<open>triple P m Q E\<close> says that
  from a state satisfying \<open>P\<close> the step \<open>m\<close> returns a value and a state related by \<open>Q\<close>, or
  raises an exception and leaves a state related by \<open>E\<close>. The rules follow the way the code
  is composed: sequencing, conditionals, \<open>try ... except\<close> and \<open>try ... finally\<close>.
\<close>

definition triple ::
  "('s \<Rightarrow> bool) \<Rightarrow> ('s, 'a) sx \<Rightarrow> ('a \<Rightarrow> 's \<Rightarrow> bool) \<Rightarrow> (exc \<Rightarrow> 's \<Rightarrow> bool) \<Rightarrow> bool" where
  "triple P m Q E \<longleftrightarrow> (\<forall>s. P s \<longrightarrow>
     (case m s of (Inl e, t) \<Rightarrow> E e t | (Inr x, t) \<Rightarrow> Q x t))"

text \<open>\<open>try: m except handled: h\<close>, where \<open>h\<close> says by \<open>None\<close> that no clause matches.\<close>

definition sx_catch :: "('s, 'a) sx \<Rightarrow> (exc \<Rightarrow> ('s, 'a) sx option) \<Rightarrow> ('s, 'a) sx" where
  "sx_catch m h = (\<lambda>s. case m s of
     (Inr x, t) \<Rightarrow> (Inr x, t)
   | (Inl e, t) \<Rightarrow> (case h e of None \<Rightarrow> (Inl e, t) | Some k \<Rightarrow> k t))"

text \<open>\<open>try: m finally: f\<close>: an exception of the cleanup replaces the outcome.\<close>

definition sx_finally :: "('s, 'a) sx \<Rightarrow> ('s, unit) sx \<Rightarrow> ('s, 'a) sx" where
  "sx_finally m f = (\<lambda>s. case m s of (r, t) \<Rightarrow>
     (case f t of (Inl e, u) \<Rightarrow> (Inl e, u) | (Inr _, u) \<Rightarrow> (r, u)))"

definition sx_get :: "('s, 's) sx" where
  "sx_get = (\<lambda>s. (Inr s, s))"

definition sx_of_res :: "'a res \<Rightarrow> ('s, 'a) sx" where
  "sx_of_res r = (\<lambda>s. (r, s))"

definition sx_then :: "('s, 'a) sx \<Rightarrow> ('s, 'b) sx \<Rightarrow> ('s, 'b) sx" where
  "sx_then m n = sx_bind m (\<lambda>_. n)"

fun sx_for :: "('a \<Rightarrow> ('s, unit) sx) \<Rightarrow> 'a list \<Rightarrow> ('s, unit) sx" where
  "sx_for f [] = sx_return ()"
| "sx_for f (x # xs) = sx_then (f x) (sx_for f xs)"

fun sx_map :: "('a \<Rightarrow> ('s, 'b) sx) \<Rightarrow> 'a list \<Rightarrow> ('s, 'b list) sx" where
  "sx_map f [] = sx_return []"
| "sx_map f (x # xs) = sx_bind (f x) (\<lambda>y. sx_bind (sx_map f xs) (\<lambda>ys. sx_return (y # ys)))"

text \<open>\<open>except Exception\<close> does not match \<open>CancelledError\<close>.\<close>

definition is_exception :: "exc \<Rightarrow> bool" where
  "is_exception e \<longleftrightarrow> e \<noteq> CancelledError"

named_theorems step_defs \<open>definitions of the stateful steps\<close>
named_theorems step_rules \<open>triples of composed steps\<close>

lemmas sx_step_defs [step_defs] =
  sx_return_def sx_raise_def sx_bind_def sx_modify_def sx_lift_def sx_catch_def sx_finally_def
  sx_get_def sx_of_res_def sx_then_def

text \<open>An invariant of a step holds whether it returns or raises.\<close>

abbreviation keeps :: "('s \<Rightarrow> bool) \<Rightarrow> ('s, 'a) sx \<Rightarrow> bool" where
  "keeps I m \<equiv> triple I m (\<lambda>_. I) (\<lambda>_. I)"

lemma tripleI:
  "(\<And>s x t. P s \<Longrightarrow> m s = (Inr x, t) \<Longrightarrow> Q x t) \<Longrightarrow> (\<And>s e t. P s \<Longrightarrow> m s = (Inl e, t) \<Longrightarrow> E e t) \<Longrightarrow> triple P m Q E"
  by (auto simp: triple_def split: prod.split sum.split)

lemma tripleD_return: "triple P m Q E \<Longrightarrow> P s \<Longrightarrow> m s = (Inr x, t) \<Longrightarrow> Q x t"
  by (auto simp: triple_def split: prod.splits sum.splits)

lemma tripleD_raise: "triple P m Q E \<Longrightarrow> P s \<Longrightarrow> m s = (Inl e, t) \<Longrightarrow> E e t"
  by (auto simp: triple_def split: prod.splits sum.splits)

lemma keepsD: "keeps I m \<Longrightarrow> I s \<Longrightarrow> m s = (r, t) \<Longrightarrow> I t"
  by (cases r) (auto dest: tripleD_return tripleD_raise)

lemma triple_return [step_rules]: "(\<And>s. P s \<Longrightarrow> Q x s) \<Longrightarrow> triple P (sx_return x) Q E"
  by (simp add: triple_def sx_return_def)

lemma triple_raise [step_rules]: "(\<And>s. P s \<Longrightarrow> E e s) \<Longrightarrow> triple P (sx_raise e) Q E"
  by (simp add: triple_def sx_raise_def)

lemma triple_of_res [step_rules]:
  "(\<And>x s. r = Inr x \<Longrightarrow> P s \<Longrightarrow> Q x s) \<Longrightarrow> (\<And>e s. r = Inl e \<Longrightarrow> P s \<Longrightarrow> E e s) \<Longrightarrow> triple P (sx_of_res r) Q E"
  by (auto simp: triple_def sx_of_res_def split: sum.split)

lemma triple_modify [step_rules]: "(\<And>s. P s \<Longrightarrow> Q () (f s)) \<Longrightarrow> triple P (sx_modify f) Q E"
  by (simp add: triple_def sx_modify_def)

lemma triple_get [step_rules]: "(\<And>s. P s \<Longrightarrow> Q s s) \<Longrightarrow> triple P sx_get Q E"
  by (simp add: triple_def sx_get_def)

lemma triple_lift [step_rules]:
  "(\<And>s x. P s \<Longrightarrow> f s = Inr x \<Longrightarrow> Q x s) \<Longrightarrow> (\<And>s e. P s \<Longrightarrow> f s = Inl e \<Longrightarrow> E e s) \<Longrightarrow> triple P (sx_lift f) Q E"
  by (auto simp: triple_def sx_lift_def split: sum.split)

lemma triple_bind:
  assumes m: "triple P m R E" and f: "\<And>x. triple (R x) (f x) Q E"
  shows "triple P (sx_bind m f) Q E"
proof (rule tripleI)
  fix s y t assume "P s" "sx_bind m f s = (Inr y, t)"
  then show "Q y t"
    by (auto simp: sx_bind_def split: prod.splits sum.splits dest: tripleD_return [OF m] tripleD_return [OF f])
next
  fix s e t assume "P s" "sx_bind m f s = (Inl e, t)"
  then show "E e t"
    by (auto simp: sx_bind_def split: prod.splits sum.splits
        dest: tripleD_return [OF m] tripleD_raise [OF m] tripleD_raise [OF f])
qed

lemma triple_then: "triple P m (\<lambda>_. R) E \<Longrightarrow> triple R n Q E \<Longrightarrow> triple P (sx_then m n) Q E"
  unfolding sx_then_def by (rule triple_bind)

lemma triple_if [step_rules]:
  "(c \<Longrightarrow> triple P m Q E) \<Longrightarrow> (\<not> c \<Longrightarrow> triple P n Q E) \<Longrightarrow> triple P (if c then m else n) Q E"
  by simp

lemma triple_conseq:
  assumes "triple P' m Q' E'" and "\<And>s. P s \<Longrightarrow> P' s" and "\<And>x s. Q' x s \<Longrightarrow> Q x s" and "\<And>e s. E' e s \<Longrightarrow> E e s"
  shows "triple P m Q E"
  by (rule tripleI) (auto intro: assms tripleD_return [OF assms(1)] tripleD_raise [OF assms(1)])

lemma triple_catch:
  assumes m: "triple P m Q E'" and h: "\<And>e k. h e = Some k \<Longrightarrow> triple (E' e) k Q E"
    and none: "\<And>e s. h e = None \<Longrightarrow> E' e s \<Longrightarrow> E e s"
  shows "triple P (sx_catch m h) Q E"
proof (rule tripleI)
  fix s y t assume "P s" "sx_catch m h s = (Inr y, t)"
  then show "Q y t"
    by (auto simp: sx_catch_def split: prod.splits sum.splits option.splits
        dest: tripleD_return [OF m] tripleD_raise [OF m] tripleD_return [OF h])
next
  fix s e t assume "P s" "sx_catch m h s = (Inl e, t)"
  then show "E e t"
    by (auto simp: sx_catch_def split: prod.splits sum.splits option.splits
        dest: tripleD_return [OF m] tripleD_raise [OF m] tripleD_raise [OF h] none)
qed

lemma triple_finally:
  assumes m: "triple P m Q' E'" and f: "\<And>x. triple (Q' x) f (\<lambda>_. Q x) E" "\<And>e. triple (E' e) f (\<lambda>_. E e) E"
  shows "triple P (sx_finally m f) Q E"
proof (rule tripleI)
  fix s y t assume "P s" "sx_finally m f s = (Inr y, t)"
  then show "Q y t"
    by (auto simp: sx_finally_def split: prod.splits sum.splits
        dest: tripleD_return [OF m] tripleD_return [OF f(1)])
next
  fix s e t assume s: "P s" and r: "sx_finally m f s = (Inl e, t)"
  obtain o1 u where mu: "m s = (o1, u)" by fastforce
  obtain o2 v where fv: "f u = (o2, v)" by fastforce
  show "E e t"
  proof (cases o1)
    case (Inl e1)
    then show ?thesis using s r mu fv
      by (cases o2) (auto simp: sx_finally_def dest!: tripleD_raise [OF m] dest: tripleD_raise [OF f(2)] tripleD_return [OF f(2)])
  next
    case (Inr x1)
    then show ?thesis using s r mu fv
      by (cases o2) (auto simp: sx_finally_def dest!: tripleD_return [OF m] dest: tripleD_raise [OF f(1)])
  qed
qed

lemma keeps_bind [step_rules]: "keeps I m \<Longrightarrow> (\<And>x. keeps I (f x)) \<Longrightarrow> keeps I (sx_bind m f)"
  by (rule triple_bind)

lemma keeps_then [step_rules]: "keeps I m \<Longrightarrow> keeps I n \<Longrightarrow> keeps I (sx_then m n)"
  by (rule triple_then)

lemma keeps_catch [step_rules]:
  "keeps I m \<Longrightarrow> (\<And>e k. h e = Some k \<Longrightarrow> keeps I k) \<Longrightarrow> keeps I (sx_catch m h)"
  by (rule triple_catch)

lemma keeps_finally [step_rules]: "keeps I m \<Longrightarrow> keeps I f \<Longrightarrow> keeps I (sx_finally m f)"
  by (rule triple_finally)

lemma keeps_for [step_rules]: "(\<And>x. x \<in> set xs \<Longrightarrow> keeps I (f x)) \<Longrightarrow> keeps I (sx_for f xs)"
  by (induction xs) (auto intro!: step_rules)

lemma keeps_map [step_rules]: "(\<And>x. x \<in> set xs \<Longrightarrow> keeps I (f x)) \<Longrightarrow> keeps I (sx_map f xs)"
  by (induction xs) (auto intro!: step_rules)

lemma sx_then_Inr: "sx_then m n s = (Inr y, t) \<longleftrightarrow> (\<exists>x u. m s = (Inr x, u) \<and> n u = (Inr y, t))"
  by (auto simp: sx_then_def sx_bind_def split: prod.splits sum.splits)

lemma sx_bind_Inr: "sx_bind m f s = (Inr y, t) \<longleftrightarrow> (\<exists>x u. m s = (Inr x, u) \<and> f x u = (Inr y, t))"
  by (auto simp: sx_bind_def split: prod.splits sum.splits)

lemma sx_bind_outcome: "sx_bind m f s = (r, t) \<longleftrightarrow>
    (\<exists>e. m s = (Inl e, t) \<and> r = Inl e) \<or> (\<exists>x u. m s = (Inr x, u) \<and> f x u = (r, t))"
  by (auto simp: sx_bind_def split: prod.splits sum.splits)

lemma sx_then_outcome: "sx_then m n s = (r, t) \<longleftrightarrow>
    (\<exists>e. m s = (Inl e, t) \<and> r = Inl e) \<or> (\<exists>x u. m s = (Inr x, u) \<and> n u = (r, t))"
  by (simp add: sx_then_def sx_bind_outcome)

lemma sx_bind_of_res: "sx_bind (sx_of_res r) f s = (case r of Inl e \<Rightarrow> (Inl e, s) | Inr x \<Rightarrow> f x s)"
  by (simp add: sx_bind_def sx_of_res_def split: sum.split)

lemma sx_bind_lift: "sx_bind (sx_lift g) f s = (case g s of Inl e \<Rightarrow> (Inl e, s) | Inr x \<Rightarrow> f x s)"
  by (simp add: sx_bind_def sx_lift_def split: sum.split)

lemma sx_return_Inr: "sx_return x s = (Inr y, t) \<longleftrightarrow> x = y \<and> s = t"
  by (auto simp: sx_return_def)

lemma sx_lift_Inr: "sx_lift f s = (Inr y, t) \<longleftrightarrow> f s = Inr y \<and> s = t"
  by (auto simp: sx_lift_def)

lemma sx_raise_Inr [simp]: "sx_raise e s \<noteq> (Inr y, t)"
  by (simp add: sx_raise_def)

lemma sx_of_res_Inr: "sx_of_res r s = (Inr y, t) \<longleftrightarrow> r = Inr y \<and> s = t"
  by (auto simp: sx_of_res_def)

lemma sx_get_Inr: "sx_get s = (Inr y, t) \<longleftrightarrow> y = s \<and> t = s"
  by (auto simp: sx_get_def)

lemma sx_catch_Inr: "sx_catch m h s = (Inr y, t) \<longleftrightarrow>
    m s = (Inr y, t) \<or> (\<exists>e u k. m s = (Inl e, u) \<and> h e = Some k \<and> k u = (Inr y, t))"
  by (auto simp: sx_catch_def split: prod.splits sum.splits option.splits)

text \<open>An \<open>except\<close> clause that names classes of exceptions and does not use the exception.\<close>

definition on_exc :: "(exc \<Rightarrow> bool) \<Rightarrow> ('s, 'a) sx \<Rightarrow> exc \<Rightarrow> ('s, 'a) sx option" where
  "on_exc P k e = (if P e then Some k else None)"

lemma keeps_except: "keeps I m \<Longrightarrow> keeps I k \<Longrightarrow> keeps I (sx_catch m (on_exc P k))"
  by (rule keeps_catch) (auto simp: on_exc_def split: if_splits)

lemma on_exc_Some [simp]: "on_exc P k e = Some k' \<longleftrightarrow> P e \<and> k' = k"
  by (auto simp: on_exc_def)

lemmas sx_outcome_simps = sx_then_Inr sx_bind_Inr sx_return_Inr sx_lift_Inr sx_of_res_Inr sx_get_Inr

end
