(* ===== verification/OpsCalls.thy ===== *)
theory OpsCalls
  imports JobStore StepLogic
begin

text \<open>
  Calls between services as the operations service makes them (\<open>Workflows.call\<close> and
  \<open>action\<close> of \<open>operations/main.py\<close>) and the store's methods as steps. The other services
  are parameters: an \<open>environment\<close> gives, for the calls made so far, the reply to the next
  one, what other tasks do to the store while it is awaited, and the clock. The calls made
  and their replies are kept in a log that only the theorems read.
\<close>

record service_call =
  sc_service :: string
  sc_method :: string
  sc_path :: string
  sc_body :: json

datatype reply =
    Reply nat json
  | BadBody nat
  | TransportError
  | TaskCancelled

type_synonym call_log = "(service_call \<times> reply) list"

record ops_world =
  w_db :: ops_db
  w_sent :: call_log

record environment =
  env_reply :: "call_log \<Rightarrow> service_call \<Rightarrow> ops_db \<Rightarrow> reply"
  env_db :: "call_log \<Rightarrow> service_call \<Rightarrow> ops_db \<Rightarrow> ops_db"
  env_clock :: "call_log \<Rightarrow> rat"

definition is_error :: "nat \<Rightarrow> bool" where
  "is_error status \<longleftrightarrow> 400 \<le> status \<and> status \<le> 599"

definition ok_reply :: "reply \<Rightarrow> bool" where
  "ok_reply r = (case r of Reply status _ \<Rightarrow> \<not> is_error status | _ \<Rightarrow> False)"

text \<open>What the caller gets from a reply. A detail that is not text is shown as empty.\<close>

definition decode_reply :: "string \<Rightarrow> reply \<Rightarrow> json res" where
  "decode_reply service r = (case r of
     Reply status body \<Rightarrow>
       (if is_error status
        then ebind (attr_get body ''detail'' (JStr ''Dependency rejected operation''))
               (\<lambda>detail. Inl (HTTPException status (str_of detail)))
        else Inr body)
   | BadBody _ \<Rightarrow> Inl (ValueError ''JSONDecodeError'')
   | TransportError \<Rightarrow> Inl (HTTPException 503 (service @ '' unavailable''))
   | TaskCancelled \<Rightarrow> Inl CancelledError)"

definition request :: "string \<Rightarrow> string \<Rightarrow> json option \<Rightarrow> string option \<Rightarrow> service_call" where
  "request service path payload method =
    \<lparr>sc_service = service,
     sc_method = (case method of Some m \<Rightarrow> m | None \<Rightarrow> if payload \<noteq> None then ''POST'' else ''GET''),
     sc_path = path, sc_body = (case payload of Some p \<Rightarrow> p | None \<Rightarrow> JNull)\<rparr>"

definition send :: "environment \<Rightarrow> service_call \<Rightarrow> ('x ops_world_scheme, json) sx" where
  "send env c = (\<lambda>s.
     let r = env_reply env (w_sent s) c (w_db s)
     in (decode_reply (sc_service c) r,
         s\<lparr>w_db := env_db env (w_sent s) c (w_db s), w_sent := w_sent s @ [(c, r)]\<rparr>))"

definition call :: "environment \<Rightarrow> string \<Rightarrow> string \<Rightarrow> json option \<Rightarrow> ('x ops_world_scheme, json) sx" where
  "call env service path payload = send env (request service path payload None)"

definition kind_of :: "jdict \<Rightarrow> string" where
  "kind_of job = str_of (jget job ''kind'')"

definition target_of :: "jdict \<Rightarrow> string" where
  "target_of job = str_of (jget job ''target'')"

definition execution_id :: "jdict \<Rightarrow> string" where
  "execution_id job = str_of (dget job ''execution_id'' (jget job ''id''))"

definition agent_actions :: "jdict \<Rightarrow> string" where
  "agent_actions job = ''/internal/v1/agents/'' @ target_of job @ ''/actions''"

definition action_call :: "jdict \<Rightarrow> string \<Rightarrow> jdict \<Rightarrow> service_call" where
  "action_call job name extra = request ''sandbox_manager'' (agent_actions job)
     (Some (JObj (dupdate [(''action'', JStr name), (''request_id'', JStr (execution_id job @ '':'' @ name))] extra))) None"

definition action :: "environment \<Rightarrow> jdict \<Rightarrow> string \<Rightarrow> jdict \<Rightarrow> ('x ops_world_scheme, json) sx" where
  "action env job name extra = send env (action_call job name extra)"

section \<open>The store as steps\<close>

definition store_get :: "string \<Rightarrow> ('x ops_world_scheme, jdict) sx" where
  "store_get jid = sx_lift (\<lambda>s. get_job jid (w_db s))"

definition on_store :: "(rat \<Rightarrow> ops_db \<Rightarrow> ('a \<times> ops_db) res) \<Rightarrow> environment \<Rightarrow> ('x ops_world_scheme, 'a) sx" where
  "on_store f env = (\<lambda>s. case f (env_clock env (w_sent s)) (w_db s) of
     Inl e \<Rightarrow> (Inl e, s) | Inr (x, db) \<Rightarrow> (Inr x, s\<lparr>w_db := db\<rparr>))"

definition store_update :: "environment \<Rightarrow> string \<Rightarrow> jdict \<Rightarrow> ('x ops_world_scheme, jdict) sx" where
  "store_update env jid changes = on_store (update_job jid changes) env"

definition store_transition ::
  "environment \<Rightarrow> string \<Rightarrow> string list \<Rightarrow> jdict \<Rightarrow> ('x ops_world_scheme, jdict) sx" where
  "store_transition env jid allowed changes = on_store (transition jid allowed changes) env"

definition store_state :: "string \<Rightarrow> json \<Rightarrow> ('x ops_world_scheme, unit) sx" where
  "store_state key value = sx_modify (\<lambda>s. s\<lparr>w_db := put_state key value (w_db s)\<rparr>)"

lemma ok_decode: "decode_reply service r = Inr body \<Longrightarrow> ok_reply r"
  by (auto simp: decode_reply_def ok_reply_def exc_simps split: reply.splits if_splits)

lemma decode_ok: "ok_reply r \<Longrightarrow> \<exists>body. decode_reply service r = Inr body"
  by (auto simp: decode_reply_def ok_reply_def split: reply.splits)

lemma triple_send:
  assumes "\<And>s r body. P s \<Longrightarrow> ok_reply r \<Longrightarrow>
      Q body (s\<lparr>w_db := env_db env (w_sent s) c (w_db s), w_sent := w_sent s @ [(c, r)]\<rparr>)"
    and "\<And>s r e. P s \<Longrightarrow> \<not> ok_reply r \<Longrightarrow>
      E e (s\<lparr>w_db := env_db env (w_sent s) c (w_db s), w_sent := w_sent s @ [(c, r)]\<rparr>)"
  shows "triple P (send env c) Q E"
proof (rule tripleI)
  fix s x t assume "P s" "send env c s = (Inr x, t)"
  then show "Q x t" using assms(1) ok_decode by (auto simp: send_def Let_def)
next
  fix s e t assume P: "P s" and r: "send env c s = (Inl e, t)"
  define r0 where "r0 = env_reply env (w_sent s) c (w_db s)"
  have "\<not> ok_reply r0"
  proof
    assume "ok_reply r0"
    from decode_ok [OF this, of "sc_service c"] r show False by (auto simp: send_def Let_def r0_def)
  qed
  with P r assms(2) show "E e t" by (auto simp: send_def Let_def r0_def)
qed

end
