(* ===== verification/Workflow.thy ===== *)
theory Workflow
  imports OpsCalls PyText
begin

text \<open>
  \<open>Workflows\<close> of \<open>operations/main.py\<close>: one run of a job. \<open>run_state\<close> holds the local
  variables of \<open>run\<close> beside the store and the log of the calls the run made; each phase of
  the method is a step, composed in the order and under the \<open>try\<close>, \<open>except\<close> and
  \<open>finally\<close> clauses of the source.
\<close>

record run_state = ops_world +
  rs_applied :: bool
  rs_apply_started :: bool
  rs_quiesced :: bool
  rs_release :: json
  rs_previous :: json
  rs_compensated :: bool
  rs_commit_started :: bool
  rs_commit_known :: bool

type_synonym 'a run_step = "(run_state, 'a) sx"

definition cancelled :: "jdict \<Rightarrow> bool" where
  "cancelled job \<longleftrightarrow> jget job ''status'' = JStr ''cancelled''"

definition checkpoint :: "environment \<Rightarrow> string \<Rightarrow> string \<Rightarrow> jdict \<Rightarrow> unit run_step" where
  "checkpoint env jid name values =
    sx_bind (store_get jid) (\<lambda>job.
      if cancelled job then sx_raise CancelledError
      else sx_catch (sx_then (store_transition env jid ACTIVE_JOB ((''checkpoint'', JStr name) # values)) (sx_return ()))
        (\<lambda>e. case e of
           HTTPException _ _ \<Rightarrow> Some (sx_bind (store_get jid) (\<lambda>job.
             if cancelled job then sx_raise CancelledError else sx_raise e))
         | _ \<Rightarrow> None))"

definition status_is :: "string \<Rightarrow> string \<times> json" where
  "status_is st = (''status'', JStr st)"

definition is_apply_kind :: "jdict \<Rightarrow> bool" where
  "is_apply_kind job \<longleftrightarrow> kind_of job \<in> {''agent.apply'', ''models.apply''}"

text \<open>\<open>job["kind"].split(".")[1]\<close>\<close>

definition kind_action :: "jdict \<Rightarrow> string res" where
  "kind_action job = (case split_on (CHR ''.'') (kind_of job) of
     _ # a # _ \<Rightarrow> Inr a | _ \<Rightarrow> Inl (IndexError ''list index out of range''))"

section \<open>Applying a release\<close>

definition load_previous :: "environment \<Rightarrow> jdict \<Rightarrow> unit run_step" where
  "load_previous env job =
    (if kind_of job = ''agent.apply''
     then sx_catch
       (sx_bind (call env ''catalog_service'' (''/internal/v1/agents/'' @ target_of job @ ''/bundle'') None) (\<lambda>bundle.
          sx_modify (\<lambda>s. s\<lparr>rs_previous := bundle\<rparr>)))
       (\<lambda>e. case e of HTTPException status _ \<Rightarrow> if status \<noteq> 404 then None else Some (sx_return ()) | _ \<Rightarrow> None)
     else sx_return ())"

definition load_release :: "environment \<Rightarrow> jdict \<Rightarrow> unit run_step" where
  "load_release env job =
    sx_bind
      (if truthy (jget job ''release_id'')
       then sx_bind (sx_of_res (as_str (jget job ''release_id''))) (\<lambda>rid.
         call env ''catalog_service'' (''/internal/v1/releases/'' @ rid) None)
       else call env ''catalog_service'' ''/internal/v1/releases/prepare''
         (Some (JObj (dupdate [(''kind'', jget job ''kind''), (''target'', jget job ''target'')]
            (obj_of (jget job ''payload''))))))
      (\<lambda>release. sx_modify (\<lambda>s. s\<lparr>rs_release := release\<rparr>))"

definition release_field :: "string \<Rightarrow> json run_step" where
  "release_field name = sx_bind sx_get (\<lambda>s. sx_of_res (subscript (rs_release s) name))"

definition validate_release :: "environment \<Rightarrow> string \<Rightarrow> jdict \<Rightarrow> unit run_step" where
  "validate_release env jid job =
    sx_bind (release_field ''release_id'') (\<lambda>rid.
    sx_then (checkpoint env jid ''validate'' [(''release_id'', rid)])
      (if kind_of job = ''agent.apply''
       then sx_bind (release_field ''files'') (\<lambda>files.
         sx_then (call env ''sandbox_manager'' ''/internal/v1/probes''
           (Some (JObj [(''files'', files), (''mcp'', JBool False)]))) (sx_return ()))
       else sx_bind sx_get (\<lambda>s.
         sx_then (call env ''model_gateway'' ''/internal/v1/config/validate'' (Some (rs_release s))) (sx_return ()))))"

definition quiesce_phase :: "environment \<Rightarrow> string \<Rightarrow> jdict \<Rightarrow> unit run_step" where
  "quiesce_phase env jid job =
    sx_then (checkpoint env jid ''quiesce'' [status_is ''waiting''])
    (sx_then (sx_modify (\<lambda>s. s\<lparr>rs_quiesced := True\<rparr>))
    (sx_then (action env job ''quiesce'' [])
    (sx_then (checkpoint env jid ''apply'' [status_is ''applying''])
    (sx_modify (\<lambda>s. s\<lparr>rs_apply_started := True\<rparr>)))))"

definition apply_release :: "environment \<Rightarrow> jdict \<Rightarrow> unit run_step" where
  "apply_release env job =
    sx_then
      (sx_bind sx_get (\<lambda>s.
         if kind_of job = ''agent.apply'' then action env job ''apply'' [(''bundle'', rs_release s)]
         else call env ''model_gateway'' ''/internal/v1/config/activate'' (Some (rs_release s))))
      (sx_modify (\<lambda>s. s\<lparr>rs_applied := True\<rparr>))"

definition verify_release :: "environment \<Rightarrow> string \<Rightarrow> jdict \<Rightarrow> unit run_step" where
  "verify_release env jid job =
    sx_then (checkpoint env jid ''verify'' [(''apply_acknowledged'', JBool True)])
      (if kind_of job = ''agent.apply'' then sx_then (action env job ''verify'' []) (sx_return ())
       else sx_bind (call env ''model_gateway'' ''/internal/v1/config/status'' None) (\<lambda>status.
         sx_bind (sx_of_res (attr_get status ''release_id'' JNull)) (\<lambda>active.
         sx_bind (release_field ''release_id'') (\<lambda>rid.
         if \<not> json_eq active rid \<or> \<not> truthy (jget (obj_of status) ''ready'')
         then sx_raise (HTTPException 503 ''Applied model gateway version failed verification'')
         else sx_return ()))))"

definition commit_release :: "environment \<Rightarrow> string \<Rightarrow> json run_step" where
  "commit_release env jid =
    sx_then (checkpoint env jid ''commit'' [])
    (sx_then (sx_modify (\<lambda>s. s\<lparr>rs_commit_started := True\<rparr>))
    (sx_bind (release_field ''release_id'') (\<lambda>rid0. sx_bind (sx_of_res (as_str rid0)) (\<lambda>rid.
      sx_catch
        (sx_bind (call env ''catalog_service'' (''/internal/v1/releases/'' @ rid @ ''/commit'') (Some (JObj []))) (\<lambda>result.
          sx_then (sx_modify (\<lambda>s. s\<lparr>rs_commit_known := True\<rparr>)) (sx_return result)))
        (\<lambda>e. case e of
           HTTPException _ _ \<Rightarrow> Some
             (sx_bind (call env ''catalog_service'' (''/internal/v1/releases/'' @ rid) None) (\<lambda>state.
              sx_then (sx_modify (\<lambda>s. s\<lparr>rs_commit_known := True\<rparr>))
              (sx_bind (sx_of_res (attr_get state ''committed'' JNull)) (\<lambda>committed.
               if \<not> truthy committed then sx_raise e
               else sx_bind (sx_of_res (subscript state ''version'')) (\<lambda>version.
                 sx_return (JObj [(''version'', version)]))))))
         | _ \<Rightarrow> None)))))"

definition apply_workflow :: "environment \<Rightarrow> string \<Rightarrow> jdict \<Rightarrow> json run_step" where
  "apply_workflow env jid job =
    sx_then (load_previous env job)
    (sx_then (load_release env job)
    (sx_then (validate_release env jid job)
    (sx_then (quiesce_phase env jid job)
    (sx_then (apply_release env job)
    (sx_then (verify_release env jid job)
    (commit_release env jid))))))"

section \<open>Sandbox and lifecycle operations\<close>

definition sandbox_workflow :: "environment \<Rightarrow> string \<Rightarrow> jdict \<Rightarrow> json run_step" where
  "sandbox_workflow env jid job =
    sx_then (checkpoint env jid ''apply'' [status_is ''applying''])
    (sx_then (sx_modify (\<lambda>s. s\<lparr>rs_apply_started := True\<rparr>))
    (sx_bind (sx_of_res (kind_action job)) (\<lambda>act.
     sx_bind (call env ''sandbox_manager'' (''/internal/v1/sandboxes/'' @ target_of job @ ''/actions'')
       (Some (JObj (dupdate [(''action'', JStr act), (''request_id'', JStr (execution_id job))]
          (obj_of (jget job ''payload'')))))) (\<lambda>result.
     sx_then (sx_modify (\<lambda>s. s\<lparr>rs_applied := True\<rparr>)) (sx_return result)))))"

text \<open>\<open>impacts.get(service, {}).get("fingerprint")\<close>\<close>

definition impact_fingerprint :: "jdict \<Rightarrow> string \<Rightarrow> json res" where
  "impact_fingerprint job service =
    ebind (attr_get (dget (obj_of (jget job ''payload'')) ''service_impacts'' (JObj [])) service (JObj [])) (\<lambda>impact.
    attr_get impact ''fingerprint'' JNull)"

definition lifecycle_call :: "environment \<Rightarrow> jdict \<Rightarrow> string \<Rightarrow> json run_step" where
  "lifecycle_call env job act =
    sx_bind (sx_of_res (impact_fingerprint job ''catalog'')) (\<lambda>fingerprint.
    call env ''catalog_service'' (''/internal/v1/agents/'' @ target_of job @ ''/lifecycle'')
      (Some (JObj [(''action'', JStr act), (''request_id'', JStr (execution_id job)),
                   (''expected_fingerprint'', fingerprint)])))"

definition delete_workflow :: "environment \<Rightarrow> string \<Rightarrow> jdict \<Rightarrow> string \<Rightarrow> unit run_step" where
  "delete_workflow env jid job act =
    sx_then (lifecycle_call env job ''deleting'')
    (sx_bind (sx_of_res (impact_fingerprint job ''sandbox'')) (\<lambda>sandbox_print.
     sx_then (action env job ''delete'' [(''empty_only'', JBool (act = ''delete-empty'')), (''expected_fingerprint'', sandbox_print)])
    (sx_then (store_update env jid [(''checkpoint'', JStr ''cleanup-files''), (''sandbox_deleted'', JBool True)])
    (sx_bind (sx_of_res (impact_fingerprint job ''files'')) (\<lambda>files_print.
     sx_then (call env ''file_service'' (''/internal/v1/agents/'' @ target_of job @ ''/cleanup'')
       (Some (JObj [(''request_id'', JStr (execution_id job)), (''expected_fingerprint'', files_print),
                    (''empty_only'', JBool (act = ''delete-empty''))])))
    (sx_then (store_update env jid [(''checkpoint'', JStr ''cleanup-catalog''), (''files_deleted'', JBool True)])
     (sx_return ())))))))"

definition lifecycle_workflow :: "environment \<Rightarrow> string \<Rightarrow> jdict \<Rightarrow> json run_step" where
  "lifecycle_workflow env jid job =
    sx_bind (sx_of_res (kind_action job)) (\<lambda>act.
    sx_then (quiesce_phase env jid job)
    (sx_bind
      (if act \<in> {''delete'', ''delete-empty''} then sx_then (delete_workflow env jid job act) (sx_return ''delete'')
       else if act = ''archive'' then sx_then (action env job ''archive'' []) (sx_return act)
       else sx_return act) (\<lambda>act1.
     sx_bind (lifecycle_call env job act1) (\<lambda>result.
     sx_then (sx_modify (\<lambda>s. s\<lparr>rs_applied := True\<rparr>)) (sx_return result)))))"

section \<open>The run\<close>

definition desired_value :: "jdict \<Rightarrow> json" where
  "desired_value job = JObj [(''state'', JStr
     (if kind_of job = ''sandbox.destroy'' then ''on_demand''
      else if kind_of job = ''sandbox.stop'' then ''stopped'' else ''running''))]"

definition record_desired :: "jdict \<Rightarrow> unit run_step" where
  "record_desired job =
    (if kind_of job \<in> {''sandbox.stop'', ''sandbox.start'', ''sandbox.restart'', ''sandbox.destroy''}
     then store_state (''desired:'' @ target_of job) (desired_value job) else sx_return ())"

definition workflow :: "environment \<Rightarrow> string \<Rightarrow> jdict \<Rightarrow> json run_step" where
  "workflow env jid job =
    (if is_apply_kind job then apply_workflow env jid job
     else if starts_with (kind_of job) ''sandbox.'' then sandbox_workflow env jid job
     else lifecycle_workflow env jid job)"

definition run_body :: "environment \<Rightarrow> string \<Rightarrow> jdict \<Rightarrow> unit run_step" where
  "run_body env jid job =
    sx_then (checkpoint env jid ''prepare'' [status_is ''running''])
    (sx_bind (workflow env jid job) (\<lambda>result.
     sx_then (record_desired job)
    (sx_then (store_update env jid [status_is ''succeeded'', (''checkpoint'', JStr ''complete''), (''result'', result)])
     (sx_return ()))))"

definition on_cancelled :: "environment \<Rightarrow> string \<Rightarrow> unit run_step" where
  "on_cancelled env jid =
    sx_bind (store_get jid) (\<lambda>job.
      if \<not> cancelled job
      then sx_bind sx_get (\<lambda>s.
        sx_then (store_update env jid
          [status_is (if rs_apply_started s then ''needs_recovery'' else ''interrupted''),
           (''error'', JStr ''Worker stopped; inspect checkpoint before retry'')]) (sx_return ()))
      else sx_return ())"

definition compensate :: "environment \<Rightarrow> jdict \<Rightarrow> unit run_step" where
  "compensate env job =
    (if kind_of job = ''models.apply''
     then sx_bind (release_field ''release_id'') (\<lambda>rid.
       sx_then (call env ''model_gateway'' ''/internal/v1/config/rollback'' (Some (JObj [(''release_id'', rid)])))
       (sx_modify (\<lambda>s. s\<lparr>rs_compensated := True\<rparr>)))
     else sx_bind sx_get (\<lambda>s.
       if truthy (rs_previous s)
       then sx_then (call env ''sandbox_manager'' (agent_actions job)
              (Some (JObj [(''action'', JStr ''apply''), (''request_id'', JStr (str_of (jget job ''id'') @ '':compensate'')),
                           (''bundle'', rs_previous s)])))
         (sx_then (call env ''sandbox_manager'' (agent_actions job)
              (Some (JObj [(''action'', JStr ''verify''), (''request_id'', JStr (str_of (jget job ''id'') @ '':compensate:verify''))])))
         (sx_modify (\<lambda>s. s\<lparr>rs_compensated := True\<rparr>)))
       else sx_return ()))"

definition error_text :: "exc \<Rightarrow> json" where
  "error_text e = JStr (case e of HTTPException _ detail \<Rightarrow> detail | _ \<Rightarrow> ''Operation failed'')"

definition on_error :: "environment \<Rightarrow> string \<Rightarrow> jdict \<Rightarrow> exc \<Rightarrow> unit run_step" where
  "on_error env jid job e =
    sx_then
      (sx_bind sx_get (\<lambda>s.
        if rs_applied s \<and> truthy (rs_release s) \<and> (\<not> rs_commit_started s \<or> rs_commit_known s)
        then sx_catch (compensate env job) (\<lambda>e'. if is_exception e' then Some (sx_return ()) else None)
        else sx_return ()))
      (sx_bind sx_get (\<lambda>s.
        sx_then (store_update env jid
          [status_is (if rs_apply_started s \<and> \<not> rs_compensated s then ''needs_recovery'' else ''failed''),
           (''error'', error_text e), (''applied'', JBool (rs_applied s)), (''compensated'', JBool (rs_compensated s))])
        (sx_return ())))"

definition release_block :: "environment \<Rightarrow> string \<Rightarrow> jdict \<Rightarrow> unit run_step" where
  "release_block env jid job =
    sx_bind sx_get (\<lambda>s.
      if rs_quiesced s
      then sx_bind (store_get jid) (\<lambda>now.
        if jget now ''status'' \<noteq> JStr ''needs_recovery''
        then sx_catch (sx_then (action env job ''resume'' []) (sx_return ()))
          (\<lambda>e. if is_exception e
               then Some (sx_then (store_update env jid [status_is ''needs_recovery'',
                  (''error'', JStr ''Unable to release target admission block'')]) (sx_return ()))
               else None)
        else sx_return ())
      else sx_return ())"

definition run :: "environment \<Rightarrow> string \<Rightarrow> unit run_step" where
  "run env jid =
    sx_bind (store_get jid) (\<lambda>job.
      sx_finally
        (sx_catch (run_body env jid job)
          (\<lambda>e. Some (if e = CancelledError then on_cancelled env jid else on_error env jid job e)))
        (release_block env jid job))"

definition init_run :: "ops_db \<Rightarrow> run_state" where
  "init_run db = \<lparr>w_db = db, w_sent = [], rs_applied = False, rs_apply_started = False, rs_quiesced = False,
     rs_release = JNull, rs_previous = JNull, rs_compensated = False, rs_commit_started = False,
     rs_commit_known = False\<rparr>"

definition start_run :: "environment \<Rightarrow> string \<Rightarrow> ops_db \<Rightarrow> unit res \<times> run_state" where
  "start_run env jid db = run env jid (init_run db)"

end
