(* ===== verification/WorkflowDemo.thy ===== *)
theory WorkflowDemo
  imports Workflow
begin

text \<open>
  Concrete services and runs that the theorems on \<open>Workflows.run\<close> are evaluated on: services
  that accept everything, services that fail one kind of call, and the outcome of such runs.
\<close>

definition demo_body :: json where
  "demo_body = JObj [(''release_id'', JStr ''r1''), (''version'', JInt 2), (''ready'', JBool True)]"

text \<open>Every call to a path of the list is refused; the others are answered with the same body.\<close>

definition demo_env :: "string list \<Rightarrow> environment" where
  "demo_env refused =
    \<lparr>env_reply = (\<lambda>lg c db. if sc_path c \<in> set refused then Reply 503 (JObj []) else Reply 200 demo_body),
     env_db = (\<lambda>lg c db. db), env_clock = (\<lambda>lg. 7)\<rparr>"

definition demo_job :: "string \<Rightarrow> jdict" where
  "demo_job kind = [(''id'', JStr ''j1''), (''kind'', JStr kind), (''target'', JStr ''a1''), (''scope'', JStr ''a1''),
     (''payload'', JObj []), (''status'', JStr ''queued'')]"

definition demo_db :: "string \<Rightarrow> ops_db" where
  "demo_db kind = empty_ops\<lparr>job_rows :=
     [\<lparr>jb_id = ''j1'', jb_request_id = ''q1'', jb_target = ''a1'', jb_doc = demo_job kind\<rparr>]\<rparr>"

lemmas store_step_defs = store_get_def store_update_def store_transition_def on_store_def store_state_def
  get_job_def update_job_def transition_def set_doc_def status_in_def put_state_def
lemmas call_step_defs = call_def action_def send_def action_call_def request_def decode_reply_def is_error_def
  kind_of_def target_of_def execution_id_def agent_actions_def
lemmas run_step_defs = start_run_def init_run_def run_def run_body_def workflow_def is_apply_kind_def apply_workflow_def
  load_previous_def load_release_def validate_release_def release_field_def quiesce_phase_def apply_release_def
  verify_release_def commit_release_def sandbox_workflow_def lifecycle_workflow_def lifecycle_call_def
  delete_workflow_def impact_fingerprint_def record_desired_def checkpoint_def cancelled_def status_is_def kind_action_def
  on_cancelled_def on_error_def compensate_def error_text_def release_block_def is_exception_def
  subscript_def attr_get_def as_str_def jindex_def jget_def dget_def
lemmas demo_defs = demo_body_def demo_env_def demo_job_def demo_db_def empty_ops_def update_rows_def dupdate_def
  ACTIVE_JOB_def starts_with_def
lemmas eval_run = step_defs store_step_defs call_step_defs run_step_defs demo_defs

definition doc_status :: "ops_db \<Rightarrow> json option" where
  "doc_status db = map_option (\<lambda>r. jget (jb_doc r) ''status'') (find_row jb_id ''j1'' (job_rows db))"

lemma demo_job_found: "get_job ''j1'' (demo_db kind) = Inr (demo_job kind)"
  by (simp add: get_job_def demo_db_def empty_ops_def)

text \<open>A model release that goes through, one whose verification is refused and which is rolled back,
  and an archive whose quiesce and resume are refused.\<close>

lemma demo_release_succeeds:
  "\<exists>s. start_run (demo_env []) ''j1'' (demo_db ''models.apply'') = (Inr (), s) \<and>
    doc_status (w_db s) = Some (JStr ''succeeded'') \<and> rs_quiesced s"
  by (simp add: eval_run doc_status_def)

lemma demo_release_rolled_back:
  "\<exists>s. start_run (demo_env [''/internal/v1/config/status'']) ''j1'' (demo_db ''models.apply'') = (Inr (), s) \<and>
    doc_status (w_db s) = Some (JStr ''failed'') \<and>
    (\<exists>e \<in> set (w_sent s). sc_service (fst e) = ''model_gateway'' \<and> sc_path (fst e) = ''/internal/v1/config/rollback'')"
  by (simp add: eval_run doc_status_def)

lemma demo_archive_blocked:
  "\<exists>s. start_run (demo_env [''/internal/v1/agents/a1/actions'']) ''j1'' (demo_db ''agent.archive'') = (Inr (), s) \<and>
    doc_status (w_db s) = Some (JStr ''needs_recovery'') \<and> rs_quiesced s"
  by (simp add: eval_run doc_status_def)

lemma demo_deletion_succeeds:
  "\<exists>s. start_run (demo_env []) ''j1'' (demo_db ''agent.delete'') = (Inr (), s) \<and>
    doc_status (w_db s) = Some (JStr ''succeeded'')"
  by (simp add: eval_run doc_status_def)

section \<open>A gap in the lease\<close>

text \<open>The services refuse every Agent action; while the resume call is awaited another operation on
  the same Agent is submitted.\<close>

definition race_env :: environment where
  "race_env = demo_env [''/internal/v1/agents/a1/actions'']\<lparr>env_db := (\<lambda>lg c db.
     if jget (obj_of (sc_body c)) ''action'' = JStr ''resume''
     then (case submit ''agent.archive'' ''a1'' [(''request_id'', JStr ''q2'')] [] (sample_fresh ''j2'') no_trace db of
             Inl _ \<Rightarrow> db | Inr (_, db') \<Rightarrow> db')
     else db)\<rparr>"

lemmas submit_defs = race_env_def submit_def sample_fresh_def no_trace_def new_job_def load_pins_def holds_scope_def
  jobs_def job_scope_def HOLDING_def Let_def

text \<open>The lease of a job has a gap. A run that failed before its application started releases the
  target in the store before the admission block is lifted; when another operation is admitted during
  that call and the call then fails, the run takes the lease back without looking, and two jobs hold
  the same target.\<close>
theorem run_breaks_exclusivity:
  "jobs_inv (demo_db ''agent.archive'') \<and>
   (\<exists>s. start_run race_env ''j1'' (demo_db ''agent.archive'') = (Inr (), s) \<and> \<not> exclusive (w_db s))"
proof
  show "jobs_inv (demo_db ''agent.archive'')"
    by (simp add: jobs_inv_def exclusive_def unique_key_def demo_db_def empty_ops_def)
  show "\<exists>s. start_run race_env ''j1'' (demo_db ''agent.archive'') = (Inr (), s) \<and> \<not> exclusive (w_db s)"
    by (simp add: eval_run submit_defs exclusive_def overlap_def)
qed

end
