(* ===== verification/WorkflowSafety.thy ===== *)
theory WorkflowSafety
  imports WorkflowDemo
begin

text \<open>
  What a run of a job guarantees, whatever the other services answer: it ends in a settled
  status, it lifts the admission block of its target exactly when the job needs no recovery,
  a release succeeds only after its phases were acknowledged in order, and only an
  acknowledged application whose commit state is known is ever compensated. Other tasks may
  change the store during every call; for the job itself they are only allowed to cancel it.
\<close>

definition job_status :: "string \<Rightarrow> ops_db \<Rightarrow> json option" where
  "job_status jid db = map_option (\<lambda>r. jget (jb_doc r) ''status'') (find_row jb_id jid (job_rows db))"

definition only_cancels :: "environment \<Rightarrow> string \<Rightarrow> bool" where
  "only_cancels env jid \<longleftrightarrow> (\<forall>sent c db. job_status jid db \<noteq> None \<longrightarrow>
     job_status jid (env_db env sent c db) \<in> {job_status jid db, Some (JStr ''cancelled'')})"

definition present :: "string \<Rightarrow> 'x ops_world_scheme \<Rightarrow> bool" where
  "present jid s \<longleftrightarrow> job_status jid (w_db s) \<noteq> None"

definition settled :: "string \<Rightarrow> 'x ops_world_scheme \<Rightarrow> bool" where
  "settled jid s \<longleftrightarrow> job_status jid (w_db s) \<in>
     (Some \<circ> JStr) ` {''succeeded'', ''failed'', ''needs_recovery'', ''interrupted'', ''cancelled''}"

text \<open>No call of the kind was acknowledged, or none was made.\<close>

definition unacknowledged :: "(service_call \<Rightarrow> bool) \<Rightarrow> 'x ops_world_scheme \<Rightarrow> bool" where
  "unacknowledged N s \<longleftrightarrow> (\<forall>(c, r) \<in> set (w_sent s). N c \<longrightarrow> \<not> ok_reply r)"

definition unsent :: "(service_call \<Rightarrow> bool) \<Rightarrow> 'x ops_world_scheme \<Rightarrow> bool" where
  "unsent N s \<longleftrightarrow> (\<forall>(c, r) \<in> set (w_sent s). \<not> N c)"

definition is_action :: "jdict \<Rightarrow> string \<Rightarrow> service_call \<Rightarrow> bool" where
  "is_action job name c \<longleftrightarrow> sc_service c = ''sandbox_manager'' \<and> sc_path c = agent_actions job
     \<and> jget (obj_of (sc_body c)) ''request_id'' = JStr (execution_id job @ '':'' @ name)"

section \<open>Steps of the store\<close>

lemma job_status_update:
  "update_job jid changes now db = Inr (job, db') \<Longrightarrow> job_status jid db' = Some (jget job ''status'')"
  by (auto simp: update_job_def job_status_def doc_update.lookup_update split: option.splits)

lemma job_status_transition:
  "transition jid allowed changes now db = Inr (job, db') \<Longrightarrow> job_status jid db' = Some (jget job ''status'')"
  by (auto simp: transition_def job_status_def doc_update.lookup_update split: option.splits if_splits)

lemma update_job_new_status:
  assumes "update_job jid (status_is st # changes) now db = Inr (job, db')" and "''status'' \<notin> fst ` set changes"
  shows "job_status jid db' = Some (JStr st)"
proof -
  from assms(1) have "\<exists>row. job = jb_doc (set_doc (status_is st # changes, now) row)"
    by (auto simp: update_job_def split: option.splits)
  moreover have "map_of (dupdate d (status_is st # changes)) ''status'' = Some (JStr st)" for d
    using dupdate_other [OF assms(2)] by (simp add: dupdate_def status_is_def)
  ultimately have "jget job ''status'' = JStr st"
    by (auto simp: set_doc_def jget_def dget_def)
  then show ?thesis using job_status_update [OF assms(1)] by simp
qed

lemma update_job_present: "job_status jid db \<noteq> None \<Longrightarrow> \<exists>job db'. update_job jid changes now db = Inr (job, db')"
  by (auto simp: update_job_def job_status_def split: option.splits)

lemma get_job_present: "job_status jid db \<noteq> None \<Longrightarrow> \<exists>job. get_job jid db = Inr job"
  by (auto simp: get_job_def job_status_def split: option.splits)

lemma get_job_status: "get_job jid db = Inr job \<Longrightarrow> job_status jid db = Some (jget job ''status'')"
  by (auto simp: get_job_def job_status_def split: option.splits)

lemma triple_update_status:
  assumes "''status'' \<notin> fst ` set changes" and "\<And>s. P s \<Longrightarrow> present jid s"
    and "\<And>s job db'. P s \<Longrightarrow> job_status jid db' = Some (JStr st) \<Longrightarrow> Q job (s\<lparr>w_db := db'\<rparr>)"
  shows "triple P (store_update env jid (status_is st # changes)) Q E"
proof (rule tripleI)
  fix s x t assume "P s" "store_update env jid (status_is st # changes) s = (Inr x, t)"
  then show "Q x t" using assms(3) update_job_new_status [OF _ assms(1)]
    by (auto simp: store_update_def on_store_def split: sum.splits prod.splits)
next
  fix s e t assume P: "P s" and r: "store_update env jid (status_is st # changes) s = (Inl e, t)"
  from assms(2) [OF P] obtain job db' where
    "update_job jid (status_is st # changes) (env_clock env (w_sent s)) (w_db s) = Inr (job, db')"
    using update_job_present unfolding present_def by blast
  with r show "E e t" by (simp add: store_update_def on_store_def)
qed

lemma triple_store_get:
  assumes "\<And>s job. P s \<Longrightarrow> get_job jid (w_db s) = Inr job \<Longrightarrow> Q job s" and "\<And>s. P s \<Longrightarrow> present jid s"
  shows "triple P (store_get jid) Q E"
proof (rule tripleI)
  fix s x t assume "P s" "store_get jid s = (Inr x, t)"
  then show "Q x t" using assms(1) by (auto simp: store_get_def sx_lift_def)
next
  fix s e t assume P: "P s" and r: "store_get jid s = (Inl e, t)"
  from assms(2) [OF P] get_job_present obtain job where "get_job jid (w_db s) = Inr job"
    unfolding present_def by blast
  with r show "E e t" by (simp add: store_get_def sx_lift_def)
qed

text \<open>An invariant that reads only the log and the locals survives a step of the store; one that
  reads the job's presence too.\<close>

lemma keeps_store:
  assumes "\<And>s db. I s \<Longrightarrow> (present jid s \<longrightarrow> job_status jid db \<noteq> None) \<Longrightarrow> I (s\<lparr>w_db := db\<rparr>)"
  shows "keeps I (store_update env jid changes)" "keeps I (store_transition env jid allowed changes)"
    "keeps I (store_get jid)"
  by (rule tripleI; auto simp: store_update_def store_transition_def on_store_def store_get_def sx_lift_def
        job_status_update job_status_transition intro!: assms split: sum.splits prod.splits)+

lemma only_cancels_present:
  "only_cancels env jid \<Longrightarrow> job_status jid db \<noteq> None \<Longrightarrow> job_status jid (env_db env sent c db) \<noteq> None"
  by (fastforce simp: only_cancels_def)

lemma keeps_send:
  assumes "only_cancels env jid"
    and "\<And>s db r. I s \<Longrightarrow> (present jid s \<longrightarrow> job_status jid db \<noteq> None) \<Longrightarrow>
      I (s\<lparr>w_db := db, w_sent := w_sent s @ [(c, r)]\<rparr>)"
  shows "keeps I (send env c)"
proof -
  have "present jid s \<longrightarrow> job_status jid (env_db env (w_sent s) c (w_db s)) \<noteq> None" for s :: "'b ops_world_scheme"
    using only_cancels_present [OF assms(1)] by (simp add: present_def)
  then show ?thesis by (intro triple_send assms(2))
qed

section \<open>Invariants of a whole run\<close>

text \<open>The calls the body of a run makes: none of them lifts the block or compensates.\<close>

definition body_call :: "jdict \<Rightarrow> service_call \<Rightarrow> bool" where
  "body_call job c \<longleftrightarrow>
     (sc_service c \<noteq> ''sandbox_manager'' \<and> sc_path c \<noteq> ''/internal/v1/config/rollback'')
     \<or> (sc_service c = ''sandbox_manager'' \<and> sc_path c \<noteq> agent_actions job)
     \<or> (\<exists>name \<in> {''quiesce'', ''apply'', ''verify'', ''delete'', ''archive''}. is_action job name c)"

definition is_commit :: "service_call \<Rightarrow> bool" where
  "is_commit c \<longleftrightarrow> sc_service c = ''catalog_service'' \<and> sc_method c = ''POST'' \<and> ends_with (sc_path c) ''/commit''"

lemma ends_with_append [simp]:
  "length v \<le> length u \<Longrightarrow> ends_with (xs @ u) v = ends_with u v"
  "length v \<le> length u \<Longrightarrow> ends_with (x # u) v = ends_with u v"
  using prefix_length_prefix [of "rev v" "rev u @ rev xs" "rev u"] prefix_length_prefix [of "rev v" "rev u @ [x]" "rev u"]
  by (auto simp: ends_with_def)

lemma is_commit_request:
  "is_commit (request service path payload None) \<longleftrightarrow>
     service = ''catalog_service'' \<and> payload \<noteq> None \<and> ends_with path ''/commit''"
  by (auto simp: is_commit_def request_def)

lemma ends_with_same [simp]: "length u = length v \<Longrightarrow> ends_with u v \<longleftrightarrow> u = v"
proof -
  assume "length u = length v"
  then have "prefix (rev v) (rev u) \<longleftrightarrow> rev u = rev v"
    by (metis length_rev order_refl prefix_length_prefix prefix_order.antisym prefix_order.order_refl)
  then show ?thesis by (simp add: ends_with_def)
qed

text \<open>A property of the state that the phases before the commit keep: it survives changes of the
  store that keep the job, ignores the local variables they set, and a call outside \<open>N\<close> does not
  break it.\<close>

locale phase_invariant =
  fixes jid :: string and job :: jdict and I :: "run_state \<Rightarrow> bool" and N :: "service_call \<Rightarrow> bool"
  assumes db_change: "I s \<Longrightarrow> (present jid s \<longrightarrow> job_status jid db \<noteq> None) \<Longrightarrow> I (s\<lparr>w_db := db\<rparr>)"
    and logged: "I s \<Longrightarrow> \<not> N c \<Longrightarrow> I (s\<lparr>w_sent := w_sent s @ [(c, r)]\<rparr>)"
    and phase_locals: "I (rs_apply_started_update f s) = I s" "I (rs_quiesced_update f s) = I s"
      "I (rs_release_update g s) = I s" "I (rs_previous_update g s) = I s" "I (rs_compensated_update f s) = I s"
    and phase_body: "body_call job c \<Longrightarrow> \<not> is_commit c \<Longrightarrow> \<not> N c"
begin

lemma keeps_put_state: "keeps I (store_state key v)"
proof -
  have "job_status jid (put_state key v db) = job_status jid db" for db
    by (simp add: put_state_def job_status_def)
  then show ?thesis unfolding store_state_def
    by (intro triple_modify db_change) (auto simp: present_def)
qed

lemma keeps_call: "only_cancels env jid \<Longrightarrow> \<not> N c \<Longrightarrow> keeps I (send env c)"
proof (erule keeps_send)
  fix s db r assume "\<not> N c" "I s" and db: "present jid s \<longrightarrow> job_status jid db \<noteq> None"
  then have "I (s\<lparr>w_db := db\<rparr>)" by (intro db_change)
  from logged [OF this \<open>\<not> N c\<close>] show "I (s\<lparr>w_db := db, w_sent := w_sent s @ [(c, r)]\<rparr>)" by simp
qed

lemmas keeps_stored = keeps_store [of I jid, OF db_change]

lemma keeps_phase_locals:
  "keeps I (sx_modify (rs_apply_started_update f))" "keeps I (sx_modify (rs_quiesced_update f))"
  "keeps I (sx_modify (rs_release_update g))" "keeps I (sx_modify (rs_previous_update g))"
  "keeps I (sx_modify (rs_compensated_update f))"
  by (rule triple_modify, simp add: phase_locals)+

lemma body_action:
  "name \<in> {''quiesce'', ''apply'', ''verify'', ''delete'', ''archive''} \<Longrightarrow> ''request_id'' \<notin> fst ` set extra \<Longrightarrow>
    \<not> N (action_call job name extra)"
  by (rule phase_body)
    (auto simp: body_call_def is_commit_def is_action_def action_call_def request_def jget_def dget_def dupdate_other)

lemma body_request:
  "service \<noteq> ''sandbox_manager'' \<Longrightarrow> path \<noteq> ''/internal/v1/config/rollback'' \<Longrightarrow>
    \<not> is_commit (request service path payload None) \<Longrightarrow> \<not> N (request service path payload None)"
  "path \<noteq> agent_actions job \<Longrightarrow> \<not> N (request ''sandbox_manager'' path payload None)"
  by (rule phase_body; simp add: body_call_def request_def is_commit_def)+

lemmas keeps_steps = step_rules keeps_call keeps_stored keeps_phase_locals keeps_put_state

lemma keeps_checkpoint: "keeps I (checkpoint env jid name values)"
  unfolding checkpoint_def by (auto intro!: keeps_steps split: exc.splits)

lemmas body_calls = body_request body_action agent_actions_def is_commit_request

lemma keeps_load_previous: "only_cancels env jid \<Longrightarrow> keeps I (load_previous env job)"
  unfolding load_previous_def call_def by (auto intro!: keeps_steps simp: body_calls split: exc.splits if_splits)

lemma keeps_load_release: "only_cancels env jid \<Longrightarrow> keeps I (load_release env job)"
  unfolding load_release_def call_def by (auto intro!: keeps_steps simp: body_calls)

lemma keeps_release_field: "keeps I (release_field name)"
  unfolding release_field_def by (auto intro!: keeps_steps)

lemmas keeps_parts = keeps_steps keeps_checkpoint keeps_release_field

lemma keeps_validate_release: "only_cancels env jid \<Longrightarrow> keeps I (validate_release env jid job)"
  unfolding validate_release_def call_def by (auto intro!: keeps_parts simp: body_calls)

lemma keeps_quiesce_phase: "only_cancels env jid \<Longrightarrow> keeps I (quiesce_phase env jid job)"
  unfolding quiesce_phase_def action_def by (auto intro!: keeps_parts simp: body_calls)

lemma keeps_verify_release: "only_cancels env jid \<Longrightarrow> keeps I (verify_release env jid job)"
  unfolding verify_release_def action_def call_def by (auto intro!: keeps_parts simp: body_calls)

lemma keeps_lifecycle_call: "only_cancels env jid \<Longrightarrow> keeps I (lifecycle_call env job act)"
  unfolding lifecycle_call_def call_def by (auto intro!: keeps_parts simp: body_calls)

lemma keeps_delete_workflow: "only_cancels env jid \<Longrightarrow> keeps I (delete_workflow env jid job act)"
  unfolding delete_workflow_def action_def call_def by (auto intro!: keeps_parts keeps_lifecycle_call simp: body_calls)

lemma keeps_on_cancelled: "keeps I (on_cancelled env jid)"
  unfolding on_cancelled_def by (intro keeps_parts)

end

text \<open>A property that ignores all local variables and every call of the body is kept by the body.\<close>

locale run_invariant = phase_invariant +
  assumes late_locals: "I (rs_applied_update f s) = I s" "I (rs_commit_started_update f s) = I s"
      "I (rs_commit_known_update f s) = I s"
    and body: "body_call job c \<Longrightarrow> \<not> N c"
begin

lemma keeps_late_locals:
  "keeps I (sx_modify (rs_applied_update f))" "keeps I (sx_modify (rs_commit_started_update f))"
  "keeps I (sx_modify (rs_commit_known_update f))"
  by (rule triple_modify, simp add: late_locals)+

lemma commit_request: "\<not> N (request ''catalog_service'' path payload None)" if "path \<noteq> ''/internal/v1/config/rollback''"
  by (rule body) (simp add: body_call_def request_def that)

lemmas keeps_locals = keeps_phase_locals keeps_late_locals
lemmas keeps_all = keeps_parts keeps_late_locals

lemma keeps_apply_release: "only_cancels env jid \<Longrightarrow> keeps I (apply_release env job)"
  unfolding apply_release_def action_def call_def by (auto intro!: keeps_all simp: body_calls)

lemma keeps_commit_release: "only_cancels env jid \<Longrightarrow> keeps I (commit_release env jid)"
  unfolding commit_release_def call_def by (auto intro!: keeps_all simp: commit_request split: exc.splits)

lemma keeps_sandbox_workflow: "only_cancels env jid \<Longrightarrow> keeps I (sandbox_workflow env jid job)"
  unfolding sandbox_workflow_def call_def by (auto intro!: keeps_all simp: body_calls)

lemma keeps_lifecycle_workflow: "only_cancels env jid \<Longrightarrow> keeps I (lifecycle_workflow env jid job)"
  unfolding lifecycle_workflow_def action_def
  by (intro keeps_all keeps_lifecycle_call keeps_delete_workflow keeps_quiesce_phase) (simp_all add: body_calls)

lemma keeps_apply_workflow: "only_cancels env jid \<Longrightarrow> keeps I (apply_workflow env jid job)"
  unfolding apply_workflow_def
  by (intro keeps_all keeps_load_previous keeps_load_release keeps_validate_release keeps_quiesce_phase
      keeps_apply_release keeps_verify_release keeps_commit_release)

lemma keeps_workflow: "only_cancels env jid \<Longrightarrow> keeps I (workflow env jid job)"
  unfolding workflow_def by (intro keeps_all keeps_apply_workflow keeps_sandbox_workflow keeps_lifecycle_workflow)

lemma keeps_run_body: "only_cancels env jid \<Longrightarrow> keeps I (run_body env jid job)"
  unfolding run_body_def workflow_def record_desired_def
  by (intro keeps_all keeps_apply_workflow keeps_sandbox_workflow keeps_lifecycle_workflow)

end

section \<open>A run settles its job\<close>

definition is_compensation :: "jdict \<Rightarrow> service_call \<Rightarrow> bool" where
  "is_compensation job c \<longleftrightarrow>
     (sc_service c = ''model_gateway'' \<and> sc_path c = ''/internal/v1/config/rollback'')
     \<or> (sc_service c = ''sandbox_manager'' \<and> sc_path c = agent_actions job
        \<and> jget (obj_of (sc_body c)) ''request_id'' = JStr (str_of (jget job ''id'') @ '':compensate''))"

lemma append_suffix: "xs @ u = ys @ v \<Longrightarrow> length u \<le> length v \<Longrightarrow> drop (length v - length u) v = u"
proof -
  assume eq: "xs @ u = ys @ v" and le: "length u \<le> length v"
  from eq have "take (length u) (rev u @ rev xs) = take (length u) (rev v @ rev ys)"
    by (metis rev_append)
  with le have "take (length u) (rev v) = rev u" by simp
  then have "rev (take (length u) (rev v)) = u" by simp
  then show ?thesis by (simp add: rev_take)
qed

lemma request_ids_differ:
  "name \<in> {''quiesce'', ''apply'', ''verify'', ''delete'', ''archive''} \<Longrightarrow>
    xs @ '':'' @ name \<noteq> ys @ '':compensate'' \<and> xs @ '':'' @ name \<noteq> ys @ '':resume''"
  using append_suffix [of xs "'':'' @ name" ys "'':compensate''"]
    append_suffix [of xs "'':'' @ name" ys "'':resume''"] append_suffix [of ys "'':resume''" xs "'':'' @ name"]
  by auto

interpretation present_run: run_invariant jid job "present jid" "\<lambda>_. False" for jid job
  by unfold_locales (simp_all add: present_def)

lemma body_call_not:
  assumes "body_call job c"
  shows "\<not> is_action job ''resume'' c" "\<not> is_compensation job c"
  using assms request_ids_differ by (fastforce simp: body_call_def is_action_def is_compensation_def)+

interpretation resume_run: run_invariant jid job "unacknowledged (is_action job ''resume'')" "is_action job ''resume''"
  for jid job
  by unfold_locales (simp_all add: unacknowledged_def body_call_not)

interpretation compensation_run: run_invariant jid job "unsent (is_compensation job)" "is_compensation job"
  for jid job
  by unfold_locales (simp_all add: unsent_def body_call_not)

abbreviation interrupted_here :: "string \<Rightarrow> exc \<Rightarrow> run_state \<Rightarrow> bool" where
  "interrupted_here jid e s \<equiv> e = CancelledError \<and> present jid s"

definition held :: "string \<Rightarrow> jdict \<Rightarrow> run_state \<Rightarrow> bool" where
  "held jid job s \<longleftrightarrow> present jid s \<and> unacknowledged (is_action job ''resume'') s"

definition ready_to_release :: "string \<Rightarrow> jdict \<Rightarrow> run_state \<Rightarrow> bool" where
  "ready_to_release jid job s \<longleftrightarrow> settled jid s \<and> unacknowledged (is_action job ''resume'') s"

definition released :: "string \<Rightarrow> jdict \<Rightarrow> run_state \<Rightarrow> bool" where
  "released jid job s \<longleftrightarrow> settled jid s \<and>
     (rs_quiesced s \<longrightarrow> (job_status jid (w_db s) = Some (JStr ''needs_recovery'') \<longleftrightarrow>
        unacknowledged (is_action job ''resume'') s))"

interpretation held_run: run_invariant jid job "held jid job" "is_action job ''resume''" for jid job
  by unfold_locales (simp_all add: held_def present_def unacknowledged_def body_call_not)

lemma held_present: "held jid job s \<Longrightarrow> present jid s"
  by (simp add: held_def)

lemma settled_present: "settled jid s \<Longrightarrow> present jid s"
  by (auto simp: settled_def present_def)

lemma settle_update:
  assumes "st \<in> {''succeeded'', ''failed'', ''needs_recovery'', ''interrupted'', ''cancelled''}"
    and "''status'' \<notin> fst ` set changes"
  shows "triple (held jid job) (sx_then (store_update env jid (status_is st # changes)) (sx_return ()))
    (\<lambda>_. ready_to_release jid job) E"
proof (rule triple_then)
  show "triple (held jid job) (store_update env jid (status_is st # changes)) (\<lambda>_. ready_to_release jid job) E"
    by (rule triple_update_status [OF assms(2)])
      (use assms(1) in \<open>auto simp: held_def ready_to_release_def settled_def unacknowledged_def\<close>)
  show "triple (ready_to_release jid job) (sx_return ()) (\<lambda>_. ready_to_release jid job) E"
    by (rule triple_return)
qed

lemma body_ready:
  assumes "only_cancels env jid"
  shows "triple (held jid job) (run_body env jid job) (\<lambda>_. ready_to_release jid job) (\<lambda>_. held jid job)"
  unfolding run_body_def
proof (rule triple_then [OF held_run.keeps_checkpoint], rule triple_bind)
  show "keeps (held jid job) (workflow env jid job)"
    unfolding workflow_def using assms by (intro triple_if held_run.keeps_apply_workflow held_run.keeps_sandbox_workflow
        held_run.keeps_lifecycle_workflow)
next
  fix result
  have "keeps (held jid job) (record_desired job)"
    unfolding record_desired_def by (intro held_run.keeps_steps)
  then show "triple (held jid job) (sx_then (record_desired job)
       (sx_then (store_update env jid [status_is ''succeeded'', (''checkpoint'', JStr ''complete''), (''result'', result)])
          (sx_return ()))) (\<lambda>_. ready_to_release jid job) (\<lambda>_. held jid job)"
    by (rule triple_then) (rule settle_update, simp_all)
qed

lemma triple_settle:
  assumes "\<And>s. P s \<Longrightarrow> present jid s" and "''status'' \<notin> fst ` set changes"
    and "\<And>s db. P s \<Longrightarrow> job_status jid db = Some (JStr st) \<Longrightarrow> Q (s\<lparr>w_db := db\<rparr>)"
  shows "triple P (sx_then (store_update env jid (status_is st # changes)) (sx_return ())) (\<lambda>_. Q) E"
proof (rule triple_then)
  show "triple P (store_update env jid (status_is st # changes)) (\<lambda>_. Q) E"
    by (rule triple_update_status [OF assms(2)]) (auto intro: assms)
qed (rule triple_return)

text \<open>The two handlers of a run, for any property \<open>P\<close> it has when its body was left by an exception.\<close>

lemma triple_on_cancelled:
  assumes P: "\<And>s. P s \<Longrightarrow> present jid s"
    and stop: "\<And>s db. P s \<Longrightarrow>
      job_status jid db = Some (JStr (if rs_apply_started s then ''needs_recovery'' else ''interrupted'')) \<Longrightarrow>
      Q (s\<lparr>w_db := db\<rparr>)"
    and skip: "\<And>s. P s \<Longrightarrow> job_status jid (w_db s) = Some (JStr ''cancelled'') \<Longrightarrow> Q s"
  shows "triple P (on_cancelled env jid) (\<lambda>_. Q) E"
  unfolding on_cancelled_def
proof (rule triple_bind [where R = "\<lambda>doc s. P s \<and> job_status jid (w_db s) = Some (jget doc ''status'')"])
  show "triple P (store_get jid) (\<lambda>doc s. P s \<and> job_status jid (w_db s) = Some (jget doc ''status'')) E"
    by (rule triple_store_get) (auto simp: P get_job_status)
  fix doc
  show "triple (\<lambda>s. P s \<and> job_status jid (w_db s) = Some (jget doc ''status''))
      (if \<not> cancelled doc then sx_bind sx_get (\<lambda>s. sx_then (store_update env jid
          [status_is (if rs_apply_started s then ''needs_recovery'' else ''interrupted''),
           (''error'', JStr ''Worker stopped; inspect checkpoint before retry'')]) (sx_return ()))
       else sx_return ()) (\<lambda>_. Q) E"
  proof (rule triple_if)
    show "triple (\<lambda>s. P s \<and> job_status jid (w_db s) = Some (jget doc ''status''))
      (sx_bind sx_get (\<lambda>s. sx_then (store_update env jid
          [status_is (if rs_apply_started s then ''needs_recovery'' else ''interrupted''),
           (''error'', JStr ''Worker stopped; inspect checkpoint before retry'')]) (sx_return ())))
        (\<lambda>_. Q) E"
      by (rule triple_bind [where R = "\<lambda>s0 s. P s \<and> s0 = s"], rule triple_get, simp, rule triple_settle)
        (auto simp: P intro: stop)
  next
    assume "\<not> \<not> cancelled doc"
    then show "triple (\<lambda>s. P s \<and> job_status jid (w_db s) = Some (jget doc ''status'')) (sx_return ()) (\<lambda>_. Q) E"
      by (intro triple_return skip) (auto simp: cancelled_def)
  qed
qed

lemma triple_on_error:
  assumes P: "\<And>s. P s \<Longrightarrow> present jid s"
    and comp: "triple P (compensate env job) (\<lambda>_. P) (\<lambda>e s. P s \<and> (e = CancelledError \<longrightarrow> E s))"
    and stop: "\<And>s db. P s \<Longrightarrow> job_status jid db = Some (JStr
        (if rs_apply_started s \<and> \<not> rs_compensated s then ''needs_recovery'' else ''failed'')) \<Longrightarrow>
      Q (s\<lparr>w_db := db\<rparr>)"
  shows "triple P (on_error env jid job e) (\<lambda>_. Q) (\<lambda>e s. e = CancelledError \<and> E s)"
  unfolding on_error_def
proof (rule triple_then)
  have "triple P (sx_catch (compensate env job) (\<lambda>e'. if is_exception e' then Some (sx_return ()) else None))
      (\<lambda>_. P) (\<lambda>e s. e = CancelledError \<and> E s)"
    by (rule triple_catch [OF comp]) (auto simp: is_exception_def split: if_splits intro: triple_return)
  then show "triple P (sx_bind sx_get (\<lambda>s.
        if rs_applied s \<and> truthy (rs_release s) \<and> (\<not> rs_commit_started s \<or> rs_commit_known s)
        then sx_catch (compensate env job) (\<lambda>e'. if is_exception e' then Some (sx_return ()) else None)
        else sx_return ())) (\<lambda>_. P) (\<lambda>e s. e = CancelledError \<and> E s)"
    by (intro triple_bind [where R = "\<lambda>_. P"] triple_get triple_if triple_return)
  show "triple P (sx_bind sx_get (\<lambda>s.
        sx_then (store_update env jid
          [status_is (if rs_apply_started s \<and> \<not> rs_compensated s then ''needs_recovery'' else ''failed''),
           (''error'', error_text e), (''applied'', JBool (rs_applied s)), (''compensated'', JBool (rs_compensated s))])
        (sx_return ()))) (\<lambda>_. Q) (\<lambda>e s. e = CancelledError \<and> E s)"
    by (rule triple_bind [where R = "\<lambda>s0 s. P s \<and> s0 = s"], rule triple_get, simp, rule triple_settle)
        (auto simp: P intro: stop)
qed

lemma cancelled_ready:
  "triple (held jid job) (on_cancelled env jid) (\<lambda>_. ready_to_release jid job) E"
  by (rule triple_on_cancelled) (auto simp: held_def ready_to_release_def settled_def unacknowledged_def)

lemma compensation_not_resume:
  "\<not> is_action job ''resume'' (request ''model_gateway'' path payload m)"
  "\<not> is_action job ''resume'' (request ''sandbox_manager'' path
      (Some (JObj [(''action'', a), (''request_id'', JStr (xs @ '':compensate'')), b])) m)"
  "\<not> is_action job ''resume'' (request ''sandbox_manager'' path
      (Some (JObj [(''action'', a), (''request_id'', JStr (xs @ '':compensate:verify''))])) m)"
  using append_suffix [of "execution_id job" "'':resume''" xs "'':compensate''"]
    append_suffix [of "execution_id job" "'':resume''" xs "'':compensate:verify''"]
  by (auto simp: is_action_def request_def jget_def dget_def)

lemma compensate_held: "only_cancels env jid \<Longrightarrow> keeps (held jid job) (compensate env job)"
  unfolding compensate_def call_def
  by (auto intro!: held_run.keeps_steps held_run.keeps_release_field simp: compensation_not_resume)

lemma present_send: "only_cancels env jid \<Longrightarrow> keeps (present jid :: run_state \<Rightarrow> bool) (send env c)"
  by (rule present_run.keeps_call) simp_all

lemma compensate_present: "only_cancels env jid \<Longrightarrow> keeps (present jid) (compensate env job)"
  unfolding compensate_def call_def
  by (intro step_rules present_run.keeps_locals present_run.keeps_release_field present_send)

lemma error_ready:
  assumes "only_cancels env jid"
  shows "triple (held jid job) (on_error env jid job e) (\<lambda>_. ready_to_release jid job) (interrupted_here jid)"
  by (rule triple_on_error [OF _ triple_conseq [OF compensate_held [OF assms]]])
    (auto simp: held_def ready_to_release_def settled_def unacknowledged_def)

lemma resume_is_action: "is_action job ''resume'' (action_call job ''resume'' [])"
  by (simp add: is_action_def action_call_def request_def jget_def dget_def dupdate_def)

definition unreleased :: "string \<Rightarrow> jdict \<Rightarrow> run_state \<Rightarrow> bool" where
  "unreleased jid job s \<longleftrightarrow> ready_to_release jid job s \<and> job_status jid (w_db s) \<noteq> Some (JStr ''needs_recovery'')"

lemma settled_after_call:
  "only_cancels env jid \<Longrightarrow> settled jid s \<Longrightarrow> job_status jid (w_db s) \<noteq> Some (JStr ''needs_recovery'') \<Longrightarrow>
    job_status jid (env_db env sent c (w_db s)) \<in>
      (Some \<circ> JStr) ` {''succeeded'', ''failed'', ''interrupted'', ''cancelled''}"
  by (fastforce simp: only_cancels_def settled_def)

lemma resume_released:
  assumes "only_cancels env jid"
  shows "triple (unreleased jid job) (sx_then (action env job ''resume'' []) (sx_return ()))
    (\<lambda>_. released jid job) (\<lambda>_. ready_to_release jid job)"
  unfolding action_def
proof (rule triple_then [OF triple_send])
  fix s r body assume s: "unreleased jid job s" and ok: "ok_reply r"
  let ?db = "env_db env (w_sent s) (action_call job ''resume'' []) (w_db s)"
  have "job_status jid ?db \<in> (Some \<circ> JStr) ` {''succeeded'', ''failed'', ''interrupted'', ''cancelled''}"
    by (rule settled_after_call [OF assms]) (use s in \<open>auto simp: unreleased_def ready_to_release_def\<close>)
  then show "released jid job (s\<lparr>w_db := ?db, w_sent := w_sent s @ [(action_call job ''resume'' [], r)]\<rparr>)"
    using ok resume_is_action by (auto simp: released_def settled_def unacknowledged_def)
next
  fix s r e assume s: "unreleased jid job s" and "\<not> ok_reply r"
  let ?db = "env_db env (w_sent s) (action_call job ''resume'' []) (w_db s)"
  have "job_status jid ?db \<in> (Some \<circ> JStr) ` {''succeeded'', ''failed'', ''interrupted'', ''cancelled''}"
    by (rule settled_after_call [OF assms]) (use s in \<open>auto simp: unreleased_def ready_to_release_def\<close>)
  then show "ready_to_release jid job (s\<lparr>w_db := ?db, w_sent := w_sent s @ [(action_call job ''resume'' [], r)]\<rparr>)"
    using s \<open>\<not> ok_reply r\<close> by (auto simp: unreleased_def ready_to_release_def settled_def unacknowledged_def)
qed (rule triple_return)

lemma recovery_released:
  "triple (ready_to_release jid job) (sx_then (store_update env jid [status_is ''needs_recovery'', x]) (sx_return ()))
    (\<lambda>_. released jid job) E" if "fst x \<noteq> ''status''"
proof (rule triple_then)
  show "triple (ready_to_release jid job) (store_update env jid [status_is ''needs_recovery'', x])
      (\<lambda>_. released jid job) E"
    by (rule triple_update_status)
      (use that in \<open>auto simp: ready_to_release_def settled_present released_def settled_def unacknowledged_def\<close>)
qed (rule triple_return)

text \<open>The shape of the cleanup, for any way the resume call and the recovery note are handled.\<close>

lemma triple_release_cleanup:
  assumes P: "\<And>s. P s \<Longrightarrow> present jid s"
    and resume: "triple (\<lambda>s. P s \<and> job_status jid (w_db s) \<noteq> Some (JStr ''needs_recovery''))
        (sx_then (action env job ''resume'' []) (sx_return ())) (\<lambda>_. Q) (\<lambda>e s. P s \<and> (e = CancelledError \<longrightarrow> E s))"
    and note_it: "triple P (sx_then (store_update env jid [status_is ''needs_recovery'',
        (''error'', JStr ''Unable to release target admission block'')]) (sx_return ())) (\<lambda>_. Q) (\<lambda>e s. e = CancelledError \<and> E s)"
    and skip: "\<And>s. P s \<Longrightarrow> rs_quiesced s \<Longrightarrow> job_status jid (w_db s) = Some (JStr ''needs_recovery'') \<Longrightarrow> Q s"
      "\<And>s. P s \<Longrightarrow> \<not> rs_quiesced s \<Longrightarrow> Q s"
  shows "triple P (release_block env jid job) (\<lambda>_. Q) (\<lambda>e s. e = CancelledError \<and> E s)"
  unfolding release_block_def
proof (rule triple_bind [where R = "\<lambda>s0 s. P s \<and> s0 = s"])
  show "triple P sx_get (\<lambda>s0 s. P s \<and> s0 = s) (\<lambda>e s. e = CancelledError \<and> E s)" by (rule triple_get) simp
  fix s0
  show "triple (\<lambda>s. P s \<and> s0 = s) (if rs_quiesced s0
      then sx_bind (store_get jid) (\<lambda>now.
        if jget now ''status'' \<noteq> JStr ''needs_recovery''
        then sx_catch (sx_then (action env job ''resume'' []) (sx_return ()))
          (\<lambda>e. if is_exception e
               then Some (sx_then (store_update env jid [status_is ''needs_recovery'',
                  (''error'', JStr ''Unable to release target admission block'')]) (sx_return ()))
               else None)
        else sx_return ())
      else sx_return ()) (\<lambda>_. Q) (\<lambda>e s. e = CancelledError \<and> E s)"
  proof (rule triple_if)
    assume q: "rs_quiesced s0"
    show "triple (\<lambda>s. P s \<and> s0 = s) (sx_bind (store_get jid) (\<lambda>now.
        if jget now ''status'' \<noteq> JStr ''needs_recovery''
        then sx_catch (sx_then (action env job ''resume'' []) (sx_return ()))
          (\<lambda>e. if is_exception e
               then Some (sx_then (store_update env jid [status_is ''needs_recovery'',
                  (''error'', JStr ''Unable to release target admission block'')]) (sx_return ()))
               else None)
        else sx_return ())) (\<lambda>_. Q) (\<lambda>e s. e = CancelledError \<and> E s)"
    proof (rule triple_bind [where R = "\<lambda>now s. P s \<and> rs_quiesced s \<and> job_status jid (w_db s) = Some (jget now ''status'')"])
      show "triple (\<lambda>s. P s \<and> s0 = s) (store_get jid)
          (\<lambda>now s. P s \<and> rs_quiesced s \<and> job_status jid (w_db s) = Some (jget now ''status'')) (\<lambda>e s. e = CancelledError \<and> E s)"
        by (rule triple_store_get) (use q P in \<open>auto simp: get_job_status\<close>)
      fix now
      show "triple (\<lambda>s. P s \<and> rs_quiesced s \<and> job_status jid (w_db s) = Some (jget now ''status''))
         (if jget now ''status'' \<noteq> JStr ''needs_recovery''
          then sx_catch (sx_then (action env job ''resume'' []) (sx_return ()))
            (\<lambda>e. if is_exception e
                 then Some (sx_then (store_update env jid [status_is ''needs_recovery'',
                    (''error'', JStr ''Unable to release target admission block'')]) (sx_return ()))
                 else None)
          else sx_return ()) (\<lambda>_. Q) (\<lambda>e s. e = CancelledError \<and> E s)"
      proof (rule triple_if, rule triple_catch)
        assume "jget now ''status'' \<noteq> JStr ''needs_recovery''"
        then show "triple (\<lambda>s. P s \<and> rs_quiesced s \<and> job_status jid (w_db s) = Some (jget now ''status''))
            (sx_then (action env job ''resume'' []) (sx_return ())) (\<lambda>_. Q) (\<lambda>e s. P s \<and> (e = CancelledError \<longrightarrow> E s))"
          by (intro triple_conseq [OF resume]) auto
      next
        assume "\<not> jget now ''status'' \<noteq> JStr ''needs_recovery''"
        then show "triple (\<lambda>s. P s \<and> rs_quiesced s \<and> job_status jid (w_db s) = Some (jget now ''status''))
            (sx_return ()) (\<lambda>_. Q) (\<lambda>e s. e = CancelledError \<and> E s)"
          by (intro triple_return skip(1)) auto
      qed (auto simp: is_exception_def split: if_splits intro: note_it)
    qed
  qed (auto intro!: triple_return skip(2))
qed

lemma triple_release_block:
  assumes P: "\<And>s. P s \<Longrightarrow> present jid s"
    and resume: "triple (\<lambda>s. P s \<and> job_status jid (w_db s) \<noteq> Some (JStr ''needs_recovery''))
        (sx_then (action env job ''resume'' []) (sx_return ())) (\<lambda>_. Q) (\<lambda>_. P)"
    and note_it: "triple P (sx_then (store_update env jid [status_is ''needs_recovery'',
        (''error'', JStr ''Unable to release target admission block'')]) (sx_return ())) (\<lambda>_. Q) (interrupted_here jid)"
    and skip: "\<And>s. P s \<Longrightarrow> rs_quiesced s \<Longrightarrow> job_status jid (w_db s) = Some (JStr ''needs_recovery'') \<Longrightarrow> Q s"
      "\<And>s. P s \<Longrightarrow> \<not> rs_quiesced s \<Longrightarrow> Q s"
  shows "triple P (release_block env jid job) (\<lambda>_. Q) (interrupted_here jid)"
  by (rule triple_release_cleanup [OF P triple_conseq [OF resume] note_it skip]) (auto intro: P)

lemma release_ready:
  assumes "only_cancels env jid"
  shows "triple (ready_to_release jid job) (release_block env jid job) (\<lambda>_. released jid job) (interrupted_here jid)"
proof (rule triple_release_block)
  show "triple (\<lambda>s. ready_to_release jid job s \<and> job_status jid (w_db s) \<noteq> Some (JStr ''needs_recovery''))
      (sx_then (action env job ''resume'' []) (sx_return ())) (\<lambda>_. released jid job) (\<lambda>_. ready_to_release jid job)"
    using resume_released [OF assms, of job] by (simp add: unreleased_def [abs_def])
qed (auto simp: ready_to_release_def released_def intro: settled_present recovery_released)

lemma release_interrupted:
  assumes "only_cancels env jid"
  shows "triple (present jid) (release_block env jid job) (\<lambda>_. present jid) (interrupted_here jid)"
proof (rule triple_release_block)
  have "keeps (present jid) (sx_then (action env job ''resume'' []) (sx_return ()) :: unit run_step)"
    unfolding action_def by (intro keeps_then present_send [OF assms] triple_return)
  then show "triple (\<lambda>s. present jid s \<and> job_status jid (w_db s) \<noteq> Some (JStr ''needs_recovery''))
      (sx_then (action env job ''resume'' []) (sx_return ()) :: unit run_step) (\<lambda>_. present jid) (\<lambda>_. present jid)"
    by (rule triple_conseq) auto
  show "triple (present jid) (sx_then (store_update env jid [status_is ''needs_recovery'',
      (''error'', JStr ''Unable to release target admission block'')]) (sx_return ()) :: unit run_step)
      (\<lambda>_. present jid) (interrupted_here jid)"
  proof (rule triple_then)
    show "triple (present jid) (store_update env jid [status_is ''needs_recovery'',
      (''error'', JStr ''Unable to release target admission block'')] :: jdict run_step)
      (\<lambda>_. present jid) (interrupted_here jid)"
      by (rule triple_update_status) (auto simp: present_def)
  qed (rule triple_return)
qed auto

lemma run_released:
  assumes "only_cancels env jid"
  shows "triple (\<lambda>s. present jid s \<and> get_job jid (w_db s) = Inr job \<and> w_sent s = []) (run env jid)
    (\<lambda>_. released jid job) (interrupted_here jid)"
  unfolding run_def
proof (rule triple_bind [where R = "\<lambda>doc s. held jid job s \<and> doc = job"])
  show "triple (\<lambda>s. present jid s \<and> get_job jid (w_db s) = Inr job \<and> w_sent s = []) (store_get jid)
      (\<lambda>doc s. held jid job s \<and> doc = job) (interrupted_here jid)"
    by (rule triple_store_get) (auto simp: held_def unacknowledged_def)
  fix doc
  have handled: "triple (held jid job) (sx_catch (run_body env jid job)
          (\<lambda>e. Some (if e = CancelledError then on_cancelled env jid else on_error env jid job e)))
        (\<lambda>_. ready_to_release jid job) (interrupted_here jid)"
    by (rule triple_catch [OF body_ready [OF assms]])
      (auto intro: cancelled_ready error_ready [OF assms])
  have "triple (held jid job) (sx_finally (sx_catch (run_body env jid job)
          (\<lambda>e. Some (if e = CancelledError then on_cancelled env jid else on_error env jid job e)))
        (release_block env jid job)) (\<lambda>_. released jid job) (interrupted_here jid)"
    by (rule triple_finally [OF handled release_ready [OF assms]], rule tripleI)
      (auto dest: tripleD_return [OF release_interrupted [OF assms]] tripleD_raise [OF release_interrupted [OF assms]])
  then show "triple (\<lambda>s. held jid job s \<and> doc = job) (sx_finally (sx_catch (run_body env jid doc)
          (\<lambda>e. Some (if e = CancelledError then on_cancelled env jid else on_error env jid doc e)))
        (release_block env jid doc)) (\<lambda>_. released jid job) (interrupted_here jid)"
    by (cases "doc = job") (auto intro: triple_conseq tripleI)
qed

section \<open>How a run leaves its job\<close>

text \<open>The job is settled in a status that tells what the run did: it is interrupted only if the
  application never started, and failed only if it never started or was compensated.\<close>

definition accounted :: "string \<Rightarrow> run_state \<Rightarrow> bool" where
  "accounted jid s \<longleftrightarrow> settled jid s
     \<and> (job_status jid (w_db s) = Some (JStr ''interrupted'') \<longrightarrow> \<not> rs_apply_started s)
     \<and> (job_status jid (w_db s) = Some (JStr ''failed'') \<longrightarrow> \<not> rs_apply_started s \<or> rs_compensated s)"

text \<open>The calls of a compensation, and a run whose task was cancelled while it waited for one.\<close>

definition compensating_call :: "jdict \<Rightarrow> service_call \<Rightarrow> bool" where
  "compensating_call job c \<longleftrightarrow>
     (sc_service c = ''model_gateway'' \<and> sc_path c = ''/internal/v1/config/rollback'')
     \<or> (sc_service c = ''sandbox_manager'' \<and> sc_path c = agent_actions job
        \<and> jget (obj_of (sc_body c)) ''request_id'' \<in>
            (\<lambda>suffix. JStr (str_of (jget job ''id'') @ suffix)) ` {'':compensate'', '':compensate:verify''})"

definition compensation_cut :: "jdict \<Rightarrow> run_state \<Rightarrow> bool" where
  "compensation_cut job s \<longleftrightarrow> (\<exists>c. compensating_call job c \<and> (c, TaskCancelled) \<in> set (w_sent s))"

lemma accounted_present: "accounted jid s \<Longrightarrow> present jid s"
  by (simp add: accounted_def settled_present)

lemma accounted_status:
  "job_status jid db = Some (JStr ''succeeded'') \<Longrightarrow> accounted jid (s\<lparr>w_db := db\<rparr>)"
  "job_status jid db = Some (JStr ''needs_recovery'') \<Longrightarrow> accounted jid (s\<lparr>w_db := db\<rparr>)"
  "job_status jid db = Some (JStr (if rs_apply_started s then ''needs_recovery'' else ''interrupted'')) \<Longrightarrow>
    accounted jid (s\<lparr>w_db := db\<rparr>)"
  "job_status jid db = Some (JStr (if rs_apply_started s \<and> \<not> rs_compensated s then ''needs_recovery'' else ''failed'')) \<Longrightarrow>
    accounted jid (s\<lparr>w_db := db\<rparr>)"
  by (auto simp: accounted_def settled_def)

lemma accounted_cancelled: "job_status jid (w_db s) = Some (JStr ''cancelled'') \<Longrightarrow> accounted jid s"
  by (auto simp: accounted_def settled_def)

lemma accounted_call:
  assumes "only_cancels env jid" and "accounted jid s"
  shows "accounted jid (s\<lparr>w_db := env_db env sent c (w_db s), w_sent := x\<rparr>)"
proof -
  have "job_status jid (w_db s) \<noteq> None" using accounted_present [OF assms(2)] by (simp add: present_def)
  then have "job_status jid (env_db env sent c (w_db s)) \<in> {job_status jid (w_db s), Some (JStr ''cancelled'')}"
    using assms(1) unfolding only_cancels_def by blast
  then show ?thesis using assms(2) by (auto simp: accounted_def settled_def)
qed

lemma body_accounted:
  assumes "only_cancels env jid"
  shows "triple (present jid) (run_body env jid job) (\<lambda>_. accounted jid) (\<lambda>_. present jid)"
  unfolding run_body_def
proof (rule triple_then [OF present_run.keeps_checkpoint], rule triple_bind)
  show "keeps (present jid) (workflow env jid job)"
    by (rule present_run.keeps_workflow [OF assms])
next
  fix result
  have "keeps (present jid) (record_desired job)"
    unfolding record_desired_def by (intro present_run.keeps_steps)
  then show "triple (present jid) (sx_then (record_desired job)
       (sx_then (store_update env jid [status_is ''succeeded'', (''checkpoint'', JStr ''complete''), (''result'', result)])
          (sx_return ()))) (\<lambda>_. accounted jid) (\<lambda>_. present jid)"
    by (rule triple_then) (rule triple_settle, auto intro: accounted_status)
qed

lemma cut_send:
  assumes "only_cancels env jid" and "compensating_call job c"
  shows "triple (present jid) (send env c) (\<lambda>_. present jid)
    (\<lambda>e s. present jid s \<and> (e = CancelledError \<longrightarrow> compensation_cut job s))"
proof (rule tripleI)
  fix s :: run_state and x t assume "present jid s" "send env c s = (Inr x, t)"
  then show "present jid t" using keepsD [OF present_send [OF assms(1)]] by blast
next
  fix s :: run_state and e t assume s: "present jid s" and r: "send env c s = (Inl e, t)"
  have "e = CancelledError \<Longrightarrow> env_reply env (w_sent s) c (w_db s) = TaskCancelled"
    using r by (auto simp: send_def Let_def decode_reply_def attr_get_def exc_simps
        split: reply.splits if_splits json.splits)
  then show "present jid t \<and> (e = CancelledError \<longrightarrow> compensation_cut job t)"
    using r keepsD [OF present_send [OF assms(1)] s r] assms(2)
    by (auto simp: send_def Let_def compensation_cut_def)
qed

lemma compensating_calls:
  "compensating_call job (request ''model_gateway'' ''/internal/v1/config/rollback'' payload m)"
  "compensating_call job (request ''sandbox_manager'' (agent_actions job)
      (Some (JObj [(''action'', a), (''request_id'', JStr (str_of (jget job ''id'') @ '':compensate'')), b])) m)"
  "compensating_call job (request ''sandbox_manager'' (agent_actions job)
      (Some (JObj [(''action'', a), (''request_id'', JStr (str_of (jget job ''id'') @ '':compensate:verify''))])) m)"
  by (auto simp: compensating_call_def request_def jget_def dget_def)

lemma release_field_exception:
  "triple (present jid) (release_field name) (\<lambda>_. present jid)
    (\<lambda>e s. present jid s \<and> (e = CancelledError \<longrightarrow> compensation_cut job s))"
  unfolding release_field_def
  by (rule tripleI) (auto simp: sx_bind_def sx_get_def sx_of_res_def subscript_def jindex_def exc_simps
      split: json.splits option.splits sum.splits)

lemma compensate_cut:
  assumes "only_cancels env jid"
  shows "triple (present jid) (compensate env job) (\<lambda>_. present jid)
    (\<lambda>e s. present jid s \<and> (e = CancelledError \<longrightarrow> compensation_cut job s))"
  unfolding compensate_def call_def
  by (rule triple_if, rule triple_bind [OF release_field_exception], rule triple_then [OF cut_send [OF assms compensating_calls(1)]],
      rule triple_modify, simp add: present_def, rule triple_bind [where R = "\<lambda>_. present jid"], rule triple_get, assumption,
      rule triple_if, rule triple_then [OF cut_send [OF assms compensating_calls(2)]],
      rule triple_then [OF cut_send [OF assms compensating_calls(3)]],
      rule triple_modify, simp add: present_def, rule triple_return, assumption)

lemma error_accounted:
  "only_cancels env jid \<Longrightarrow> triple (present jid) (on_error env jid job e) (\<lambda>_. accounted jid)
    (\<lambda>e s. e = CancelledError \<and> present jid s \<and> compensation_cut job s)"
  by (rule triple_on_error [OF _ triple_conseq [OF compensate_cut]]) (auto intro: accounted_status)

lemma cancelled_accounted: "triple (present jid) (on_cancelled env jid) (\<lambda>_. accounted jid) E"
  by (rule triple_on_cancelled) (auto intro: accounted_status accounted_cancelled)

lemma accounted_note:
  "triple (present jid) (sx_then (store_update env jid [status_is ''needs_recovery'',
      (''error'', JStr ''Unable to release target admission block'')]) (sx_return ())) (\<lambda>_. accounted jid) E"
  by (rule triple_settle) (auto intro: accounted_status)

text \<open>Lifting the block keeps the account, also when the task is cancelled at that call.\<close>

lemma release_accounted:
  assumes "only_cancels env jid"
  shows "triple (accounted jid) (release_block env jid job) (\<lambda>_. accounted jid)
    (\<lambda>e s. e = CancelledError \<and> accounted jid s)"
proof (rule triple_release_cleanup)
  show "triple (\<lambda>s. accounted jid s \<and> job_status jid (w_db s) \<noteq> Some (JStr ''needs_recovery''))
      (sx_then (action env job ''resume'' []) (sx_return ())) (\<lambda>_. accounted jid) (\<lambda>e s. accounted jid s \<and> (e = CancelledError \<longrightarrow> accounted jid s))"
    unfolding action_def by (intro triple_then [OF triple_send] triple_return) (auto intro: accounted_call [OF assms])
  show "triple (accounted jid) (sx_then (store_update env jid [status_is ''needs_recovery'',
      (''error'', JStr ''Unable to release target admission block'')]) (sx_return ())) (\<lambda>_. accounted jid)
      (\<lambda>e s. e = CancelledError \<and> accounted jid s)"
    by (rule triple_conseq [OF accounted_note]) (auto intro: accounted_present)
qed (auto intro: accounted_present)

lemma release_cut:
  assumes "only_cancels env jid"
  shows "triple (\<lambda>s. present jid s \<and> compensation_cut job s) (release_block env jid job)
    (\<lambda>_ s. present jid s \<and> compensation_cut job s) (\<lambda>e s. e = CancelledError \<and> present jid s \<and> compensation_cut job s)"
proof (rule triple_release_cleanup)
  have "present jid s \<Longrightarrow> compensation_cut job s \<Longrightarrow>
      present jid (s\<lparr>w_db := env_db env (w_sent s) c (w_db s), w_sent := w_sent s @ [(c, r)]\<rparr>) \<and>
      compensation_cut job (s\<lparr>w_db := env_db env (w_sent s) c (w_db s), w_sent := w_sent s @ [(c, r)]\<rparr>)"
    for s :: run_state and c r
    using only_cancels_present [OF assms] by (auto simp: present_def compensation_cut_def)
  then show "triple (\<lambda>s. (present jid s \<and> compensation_cut job s) \<and> job_status jid (w_db s) \<noteq> Some (JStr ''needs_recovery''))
      (sx_then (action env job ''resume'' []) (sx_return ())) (\<lambda>_ s. present jid s \<and> compensation_cut job s)
      (\<lambda>e s. (present jid s \<and> compensation_cut job s) \<and> (e = CancelledError \<longrightarrow> present jid s \<and> compensation_cut job s))"
    unfolding action_def by (intro triple_then [OF triple_send] triple_return) auto
  show "triple (\<lambda>s. present jid s \<and> compensation_cut job s) (sx_then (store_update env jid [status_is ''needs_recovery'',
      (''error'', JStr ''Unable to release target admission block'')]) (sx_return ()))
      (\<lambda>_ s. present jid s \<and> compensation_cut job s) (\<lambda>e s. e = CancelledError \<and> present jid s \<and> compensation_cut job s)"
    by (rule triple_settle) (auto simp: present_def compensation_cut_def)
qed auto

lemma run_accounted:
  assumes "only_cancels env jid"
  shows "triple (\<lambda>s. present jid s \<and> get_job jid (w_db s) = Inr job) (run env jid) (\<lambda>_. accounted jid)
    (\<lambda>e s. e = CancelledError \<and> (accounted jid s \<or> compensation_cut job s))"
  unfolding run_def
proof (rule triple_bind [where R = "\<lambda>doc s. present jid s \<and> doc = job"])
  let ?E = "\<lambda>e s. e = CancelledError \<and> (accounted jid s \<or> compensation_cut job s)"
  let ?C = "\<lambda>e s. e = CancelledError \<and> present jid s \<and> compensation_cut job s"
  show "triple (\<lambda>s. present jid s \<and> get_job jid (w_db s) = Inr job) (store_get jid) (\<lambda>doc s. present jid s \<and> doc = job) ?E"
    by (rule triple_store_get) auto
  fix doc
  have handled: "triple (present jid) (sx_catch (run_body env jid job)
          (\<lambda>e. Some (if e = CancelledError then on_cancelled env jid else on_error env jid job e)))
        (\<lambda>_. accounted jid) ?C"
    by (rule triple_catch [OF body_accounted [OF assms]])
      (auto intro: cancelled_accounted error_accounted [OF assms])
  have "triple (present jid) (sx_finally (sx_catch (run_body env jid job)
          (\<lambda>e. Some (if e = CancelledError then on_cancelled env jid else on_error env jid job e)))
        (release_block env jid job)) (\<lambda>_. accounted jid) ?E"
  proof (rule triple_finally [OF handled])
    show "triple (accounted jid) (release_block env jid job) (\<lambda>_. accounted jid) ?E"
      by (rule triple_conseq [OF release_accounted [OF assms]]) auto
    show "triple (?C e) (release_block env jid job) (\<lambda>_. ?E e) ?E" for e
      using release_cut [OF assms, of job] by (cases "e = CancelledError") (auto intro: triple_conseq tripleI)
  qed
  then show "triple (\<lambda>s. present jid s \<and> doc = job) (sx_finally (sx_catch (run_body env jid doc)
          (\<lambda>e. Some (if e = CancelledError then on_cancelled env jid else on_error env jid doc e)))
        (release_block env jid doc)) (\<lambda>_. accounted jid) ?E"
    by (cases "doc = job") (auto intro: triple_conseq tripleI)
qed

text \<open>C1: Whatever the services answer and however often the run's task is cancelled or other tasks
  cancel the job, a run ends, normally or with the cancellation of its task, and its job is settled:
  succeeded, failed, interrupted, cancelled or needing recovery, and then interrupted only if its
  application never started, failed only if it never started or was compensated. This holds also when
  the run ends with the cancellation, with one exception: the task was cancelled while it waited for a
  call of its compensation.\<close>
theorem run_settles_job:
  assumes "get_job jid db = Inr job" and "only_cancels env jid"
    and "start_run env jid db = (outcome, s)"
  shows "outcome = Inr () \<and> accounted jid s
    \<or> outcome = Inl CancelledError \<and> (accounted jid s \<or> compensation_cut job s)"
proof -
  have pre: "present jid (init_run db) \<and> get_job jid (w_db (init_run db)) = Inr job"
    using get_job_status [OF assms(1)] assms(1) by (simp add: init_run_def present_def)
  show ?thesis using assms(3) tripleD_return [OF run_accounted [OF assms(2)] pre]
      tripleD_raise [OF run_accounted [OF assms(2)] pre]
    by (cases outcome) (auto simp: start_run_def)
qed

lemma demo_only_cancels: "only_cancels (demo_env refused) jid"
  by (simp add: only_cancels_def demo_env_def)

lemma demo_status: "doc_status db = job_status ''j1'' db"
  by (simp add: doc_status_def job_status_def)

text \<open>A task cancelled at one path: at the activation, and there or at the roll-back when the status
  of the gateway is refused.\<close>

definition cut_env :: "string list \<Rightarrow> string \<Rightarrow> environment" where
  "cut_env refused path = demo_env refused\<lparr>env_reply := (\<lambda>lg c db.
     if sc_path c = path then TaskCancelled else env_reply (demo_env refused) lg c db)\<rparr>"

lemma cut_only_cancels: "only_cancels (cut_env refused path) jid"
  by (simp add: only_cancels_def cut_env_def demo_env_def)

theorem run_settles_job_witness:
  "\<exists>s. start_run (cut_env [] ''/internal/v1/config/activate'') ''j1'' (demo_db ''models.apply'') = (Inr (), s) \<and>
    accounted ''j1'' s \<and> job_status ''j1'' (w_db s) = Some (JStr ''needs_recovery'')"
proof -
  obtain s where s: "start_run (cut_env [] ''/internal/v1/config/activate'') ''j1'' (demo_db ''models.apply'') = (Inr (), s)"
    and "job_status ''j1'' (w_db s) = Some (JStr ''needs_recovery'')"
    by (simp add: eval_run cut_env_def job_status_def)
  then show ?thesis using run_settles_job [OF demo_job_found cut_only_cancels s] by simp
qed

text \<open>The exception is real: a roll-back cut short leaves the job applying, and the cleanup lifts the
  block of its target all the same.\<close>

lemma cut_compensation_unsettled:
  "\<exists>s. start_run (cut_env [''/internal/v1/config/status''] ''/internal/v1/config/rollback'') ''j1''
      (demo_db ''models.apply'') = (Inl CancelledError, s) \<and>
    job_status ''j1'' (w_db s) = Some (JStr ''applying'') \<and>
    (\<exists>(c, r) \<in> set (w_sent s). is_action (demo_job ''models.apply'') ''resume'' c \<and> ok_reply r)"
  by (simp add: eval_run cut_env_def job_status_def is_action_def ok_reply_def)



end
