(* ===== verification/WorkflowOrder.thy ===== *)
theory WorkflowOrder
  imports WorkflowSafety
begin

text \<open>
  The order of the calls behind a success: a release is committed only after the quiesced
  target acknowledged the application and the verification of that very release, and a
  deletion finishes only after the sandboxes and then the files were removed. And the
  compensation of a failed release, which is sent only when it is known to be wanted.
\<close>

section \<open>Acknowledged calls in order\<close>

fun in_order :: "('a \<Rightarrow> bool) list \<Rightarrow> 'a list \<Rightarrow> bool" where
  "in_order [] xs = True"
| "in_order (p # ps) [] = False"
| "in_order (p # ps) (x # xs) = (if p x then in_order ps xs else in_order (p # ps) xs)"

lemma in_order_tail: "in_order (q # qs) zs \<Longrightarrow> in_order qs zs"
proof (induction zs arbitrary: q qs)
  case (Cons z zs)
  then show ?case by (cases qs) (auto split: if_splits)
qed simp

lemma in_order_Cons: "in_order qs zs \<Longrightarrow> in_order qs (z # zs)"
  by (cases qs) (auto dest: in_order_tail)

lemma in_order_append: "in_order ps xs \<Longrightarrow> in_order qs ys \<Longrightarrow> in_order (ps @ qs) (xs @ ys)"
proof (induction ps xs rule: in_order.induct)
  case (1 xs)
  then show ?case by (induction xs) (auto intro: in_order_Cons)
qed (auto split: if_splits)

lemma in_order_more: "in_order ps xs \<Longrightarrow> in_order ps (xs @ ys)"
  using in_order_append [of ps xs "[]" ys] by simp

lemma in_order_snoc: "in_order ps xs \<Longrightarrow> p x \<Longrightarrow> in_order (ps @ [p]) (xs @ [x])"
  by (rule in_order_append) simp_all

definition acked :: "service_call \<Rightarrow> service_call \<times> reply \<Rightarrow> bool" where
  "acked c e \<longleftrightarrow> fst e = c \<and> ok_reply (snd e)"

definition apply_call :: "jdict \<Rightarrow> json \<Rightarrow> service_call" where
  "apply_call job release =
    (if kind_of job = ''agent.apply'' then action_call job ''apply'' [(''bundle'', release)]
     else request ''model_gateway'' ''/internal/v1/config/activate'' (Some release) None)"

definition verify_call :: "jdict \<Rightarrow> service_call" where
  "verify_call job =
    (if kind_of job = ''agent.apply'' then action_call job ''verify'' []
     else request ''model_gateway'' ''/internal/v1/config/status'' None None)"

definition commit_call :: "string \<Rightarrow> service_call" where
  "commit_call rid = request ''catalog_service'' (''/internal/v1/releases/'' @ rid @ ''/commit'') (Some (JObj [])) None"

definition release_query :: "string \<Rightarrow> service_call" where
  "release_query rid = request ''catalog_service'' (''/internal/v1/releases/'' @ rid) None None"

text \<open>The catalog acknowledged the commit, or reported the release as committed.\<close>

definition committed :: "string \<Rightarrow> service_call \<times> reply \<Rightarrow> bool" where
  "committed rid e \<longleftrightarrow> acked (commit_call rid) e \<or>
     (fst e = release_query rid \<and> (case snd e of Reply _ body \<Rightarrow> truthy (jget (obj_of body) ''committed'') | _ \<Rightarrow> False))"

definition progress :: "json \<Rightarrow> (service_call \<times> reply \<Rightarrow> bool) list \<Rightarrow> run_state \<Rightarrow> bool" where
  "progress release ps s \<longleftrightarrow> rs_release s = release \<and> in_order ps (w_sent s)"

lemma progress_changes [simp]:
  "progress rel ps (s\<lparr>w_db := db\<rparr>) = progress rel ps s"
  "progress rel ps (rs_applied_update f s) = progress rel ps s"
  "progress rel ps (rs_apply_started_update f s) = progress rel ps s"
  "progress rel ps (rs_quiesced_update f s) = progress rel ps s"
  "progress rel ps (rs_commit_started_update f s) = progress rel ps s"
  "progress rel ps (rs_commit_known_update f s) = progress rel ps s"
  by (simp_all add: progress_def)

lemma progress_sent: "progress rel ps s \<Longrightarrow> progress rel ps (s\<lparr>w_db := db, w_sent := w_sent s @ [x]\<rparr>)"
  by (simp add: progress_def in_order_more)

lemma progress_acked:
  "progress rel ps s \<Longrightarrow> p x \<Longrightarrow> progress rel (ps @ [p]) (s\<lparr>w_db := db, w_sent := w_sent s @ [x]\<rparr>)"
  by (simp add: progress_def in_order_snoc)

lemma progress_checkpoint: "keeps (progress rel ps) (checkpoint env jid name values)"
  unfolding checkpoint_def
  by (auto intro!: step_rules keeps_store split: exc.splits)

lemma progress_send: "keeps (progress rel ps) (send env c)"
  by (rule triple_send) (auto intro: progress_sent)

lemma progress_send_acked:
  "triple (progress rel ps) (send env c) (\<lambda>_. progress rel (ps @ [acked c])) (\<lambda>_ _. True)"
  by (rule triple_send) (auto intro!: progress_acked simp: acked_def)

lemma progress_release_field: "keeps (progress rel ps) (release_field name)"
  unfolding release_field_def by (auto intro!: step_rules)

lemmas progress_steps = step_rules progress_checkpoint progress_send progress_release_field

lemma triple_weaken: "triple P m Q E \<Longrightarrow> triple P m Q (\<lambda>_ _. True)"
  by (erule triple_conseq) auto

lemma triple_then_any: "triple P m (\<lambda>_. R) (\<lambda>_ _. True) \<Longrightarrow> triple R n Q (\<lambda>_ _. True) \<Longrightarrow> triple P (sx_then m n) Q (\<lambda>_ _. True)"
  by (rule triple_then)

lemma triple_any: "triple P m (\<lambda>_ _. True) (\<lambda>_ _. True)"
  by (rule tripleI) simp_all

lemma quiesce_progress:
  "triple (progress rel ps) (quiesce_phase env jid job)
     (\<lambda>_. progress rel (ps @ [acked (action_call job ''quiesce'' [])])) (\<lambda>_ _. True)"
  unfolding quiesce_phase_def action_def
  by (rule triple_then_any [OF triple_weaken [OF progress_checkpoint]],
      rule triple_then_any [where R = "progress rel ps"], rule triple_modify, simp,
      rule triple_then_any [OF progress_send_acked],
      rule triple_then_any [OF triple_weaken [OF progress_checkpoint]], rule triple_modify, simp)

lemma apply_progress:
  "triple (progress rel ps) (apply_release env job)
     (\<lambda>_. progress rel (ps @ [acked (apply_call job rel)])) (\<lambda>_ _. True)"
  unfolding apply_release_def
proof (rule triple_then_any)
  show "triple (progress rel ps) (sx_bind sx_get (\<lambda>s.
         if kind_of job = ''agent.apply'' then action env job ''apply'' [(''bundle'', rs_release s)]
         else call env ''model_gateway'' ''/internal/v1/config/activate'' (Some (rs_release s))))
      (\<lambda>_. progress rel (ps @ [acked (apply_call job rel)])) (\<lambda>_ _. True)"
  proof (rule triple_bind [where R = "\<lambda>s0 s. progress rel ps s \<and> s0 = s"])
    fix s0
    have "triple (\<lambda>s. progress rel ps s \<and> s0 = s) (send env (apply_call job (rs_release s0)))
      (\<lambda>_. progress rel (ps @ [acked (apply_call job rel)])) (\<lambda>_ _. True)"
      by (rule triple_send) (auto simp: acked_def progress_def intro!: in_order_snoc)
    then show "triple (\<lambda>s. progress rel ps s \<and> s0 = s)
        (if kind_of job = ''agent.apply'' then action env job ''apply'' [(''bundle'', rs_release s0)]
         else call env ''model_gateway'' ''/internal/v1/config/activate'' (Some (rs_release s0)))
      (\<lambda>_. progress rel (ps @ [acked (apply_call job rel)])) (\<lambda>_ _. True)"
      by (auto simp: apply_call_def action_def call_def)
  qed (rule triple_get, simp)
qed (rule triple_modify, simp)

lemma verify_progress:
  "triple (progress rel ps) (verify_release env jid job)
     (\<lambda>_. progress rel (ps @ [acked (verify_call job)])) (\<lambda>_ _. True)"
  unfolding verify_release_def
proof (rule triple_then_any [OF triple_weaken [OF progress_checkpoint]], rule triple_if)
  assume agent: "kind_of job = ''agent.apply''"
  show "triple (progress rel ps) (sx_then (action env job ''verify'' []) (sx_return ()))
     (\<lambda>_. progress rel (ps @ [acked (verify_call job)])) (\<lambda>_ _. True)"
    unfolding action_def using progress_send_acked [of rel ps env "verify_call job"] agent
    by (intro triple_then_any triple_return) (auto simp: verify_call_def)
next
  assume model: "kind_of job \<noteq> ''agent.apply''"
  have "triple (progress rel ps) (call env ''model_gateway'' ''/internal/v1/config/status'' None)
      (\<lambda>_. progress rel (ps @ [acked (verify_call job)])) (\<lambda>_ _. True)"
    using progress_send_acked [of rel ps env "verify_call job"] model by (simp add: call_def verify_call_def)
  then show "triple (progress rel ps) (sx_bind (call env ''model_gateway'' ''/internal/v1/config/status'' None) (\<lambda>status.
         sx_bind (sx_of_res (attr_get status ''release_id'' JNull)) (\<lambda>active.
         sx_bind (release_field ''release_id'') (\<lambda>rid.
         if \<not> json_eq active rid \<or> \<not> truthy (jget (obj_of status) ''ready'')
         then sx_raise (HTTPException 503 ''Applied model gateway version failed verification'')
         else sx_return ()))))
     (\<lambda>_. progress rel (ps @ [acked (verify_call job)])) (\<lambda>_ _. True)"
    by (rule triple_bind)
      (rule triple_weaken, auto intro!: progress_steps)
qed

text \<open>What a commit leaves: the catalog's word that this release is committed.\<close>

definition committed_progress :: "json \<Rightarrow> (service_call \<times> reply \<Rightarrow> bool) list \<Rightarrow> run_state \<Rightarrow> bool" where
  "committed_progress rel ps s \<longleftrightarrow>
     (\<exists>rid. subscript rel ''release_id'' = Inr (JStr rid) \<and> progress rel (ps @ [committed rid]) s)"

lemma committed_modify: "committed_progress rel ps (rs_commit_known_update f s) = committed_progress rel ps s"
  by (simp add: committed_progress_def)

lemma query_progress:
  "triple (progress rel ps) (send env (release_query rid))
     (\<lambda>body s. progress rel ps s \<and> (truthy (jget (obj_of body) ''committed'') \<longrightarrow> progress rel (ps @ [committed rid]) s))
     (\<lambda>_ _. True)"
proof (rule tripleI)
  fix s body t assume s: "progress rel ps s" and t: "send env (release_query rid) s = (Inr body, t)"
  define r where "r = env_reply env (w_sent s) (release_query rid) (w_db s)"
  have body: "decode_reply ''catalog_service'' r = Inr body"
    and t': "t = s\<lparr>w_db := env_db env (w_sent s) (release_query rid) (w_db s), w_sent := w_sent s @ [(release_query rid, r)]\<rparr>"
    using t by (auto simp: send_def Let_def r_def release_query_def request_def)
  have "committed rid (release_query rid, r)" if "truthy (jget (obj_of body) ''committed'')"
    using body that by (auto simp: committed_def decode_reply_def exc_simps split: reply.splits if_splits)
  then show "progress rel ps t \<and> (truthy (jget (obj_of body) ''committed'') \<longrightarrow> progress rel (ps @ [committed rid]) t)"
    using s by (auto simp: t' intro: progress_sent progress_acked)
qed simp

lemma commit_query_progress:
  assumes "subscript rel ''release_id'' = Inr (JStr rid)"
  shows "triple (progress rel ps)
    (sx_bind (call env ''catalog_service'' (''/internal/v1/releases/'' @ rid) None) (\<lambda>state.
      sx_then (sx_modify (rs_commit_known_update (\<lambda>_. True)))
      (sx_bind (sx_of_res (attr_get state ''committed'' JNull)) (\<lambda>committed.
       if \<not> truthy committed then sx_raise e
       else sx_bind (sx_of_res (subscript state ''version'')) (\<lambda>version.
         sx_return (JObj [(''version'', version)]))))))
    (\<lambda>_. committed_progress rel ps) (\<lambda>_ _. True)"
proof (rule triple_bind)
  show "triple (progress rel ps) (call env ''catalog_service'' (''/internal/v1/releases/'' @ rid) None)
     (\<lambda>body s. progress rel ps s \<and> (truthy (jget (obj_of body) ''committed'') \<longrightarrow> progress rel (ps @ [committed rid]) s))
     (\<lambda>_ _. True)"
    using query_progress [of rel ps env rid] by (simp add: call_def release_query_def)
  fix state
  let ?R = "\<lambda>s. progress rel ps s \<and> (truthy (jget (obj_of state) ''committed'') \<longrightarrow> progress rel (ps @ [committed rid]) s)"
  have flag: "triple ?R (sx_of_res (attr_get state ''committed'' JNull))
      (\<lambda>committed s. ?R s \<and> committed = jget (obj_of state) ''committed'') (\<lambda>_ _. True)"
    by (rule triple_of_res) (auto simp: attr_get_def jget_def split: json.splits)
  show "triple ?R (sx_then (sx_modify (rs_commit_known_update (\<lambda>_. True)))
      (sx_bind (sx_of_res (attr_get state ''committed'' JNull)) (\<lambda>committed.
       if \<not> truthy committed then sx_raise e
       else sx_bind (sx_of_res (subscript state ''version'')) (\<lambda>version.
         sx_return (JObj [(''version'', version)])))))
    (\<lambda>_. committed_progress rel ps) (\<lambda>_ _. True)"
  proof (rule triple_then_any [where R = ?R], rule triple_modify, simp, rule triple_bind [OF flag], rule triple_if)
    fix flg
    show "triple (\<lambda>s. ?R s \<and> flg = jget (obj_of state) ''committed'') (sx_raise e)
      (\<lambda>_. committed_progress rel ps) (\<lambda>_ _. True)" by (rule triple_raise) simp
    assume "\<not> \<not> truthy flg"
    then show "triple (\<lambda>s. ?R s \<and> flg = jget (obj_of state) ''committed'')
       (sx_bind (sx_of_res (subscript state ''version'')) (\<lambda>version. sx_return (JObj [(''version'', version)])))
      (\<lambda>_. committed_progress rel ps) (\<lambda>_ _. True)"
      using assms by (intro triple_bind [where R = "\<lambda>_. committed_progress rel ps"] triple_of_res triple_return)
        (auto simp: committed_progress_def)
  qed
qed

lemma commit_call_progress:
  assumes "subscript rel ''release_id'' = Inr (JStr rid)"
  shows "triple (progress rel ps)
    (sx_bind (call env ''catalog_service'' (''/internal/v1/releases/'' @ rid @ ''/commit'') (Some (JObj []))) (\<lambda>result.
      sx_then (sx_modify (rs_commit_known_update (\<lambda>_. True))) (sx_return result)))
    (\<lambda>_. committed_progress rel ps) (\<lambda>_. progress rel ps)"
proof (rule triple_bind)
  show "triple (progress rel ps) (call env ''catalog_service'' (''/internal/v1/releases/'' @ rid @ ''/commit'') (Some (JObj [])))
      (\<lambda>_. committed_progress rel ps) (\<lambda>_. progress rel ps)"
    unfolding call_def commit_call_def [symmetric]
    by (rule triple_send)
      (use assms in \<open>auto simp: committed_progress_def committed_def acked_def intro!: progress_acked intro: progress_sent\<close>)
qed (auto intro!: triple_then [where R = "committed_progress rel ps"] triple_modify triple_return simp: committed_modify)

lemma commit_progress:
  "triple (progress rel ps) (commit_release env jid) (\<lambda>_. committed_progress rel ps) (\<lambda>_ _. True)"
  unfolding commit_release_def
proof (rule triple_then_any [OF triple_weaken [OF progress_checkpoint]],
    rule triple_then_any [where R = "progress rel ps"], rule triple_modify, simp, rule triple_bind)
  show "triple (progress rel ps) (release_field ''release_id'')
      (\<lambda>rid0 s. progress rel ps s \<and> subscript rel ''release_id'' = Inr rid0) (\<lambda>_ _. True)"
    unfolding release_field_def
    by (rule triple_bind [where R = "\<lambda>s0 s. progress rel ps s \<and> s0 = s"]; rule tripleI)
      (auto simp: sx_get_def sx_of_res_def progress_def)
  fix rid0
  show "triple (\<lambda>s. progress rel ps s \<and> subscript rel ''release_id'' = Inr rid0) (sx_bind (sx_of_res (as_str rid0)) (\<lambda>rid.
      sx_catch
        (sx_bind (call env ''catalog_service'' (''/internal/v1/releases/'' @ rid @ ''/commit'') (Some (JObj []))) (\<lambda>result.
          sx_then (sx_modify (\<lambda>s. s\<lparr>rs_commit_known := True\<rparr>)) (sx_return result)))
        (\<lambda>e. case e of
           HTTPException _ _ \<Rightarrow> Some
             (sx_bind (call env ''catalog_service'' (''/internal/v1/releases/'' @ rid) None) (\<lambda>state.
              sx_then (sx_modify (\<lambda>s. s\<lparr>rs_commit_known := True\<rparr>))
              (sx_bind (sx_of_res (attr_get state ''committed'' JNull)) (\<lambda>committed.
               if \<not> truthy committed then sx_raise e
               else sx_bind (sx_of_res (subscript state ''version'')) (\<lambda>version.
                 sx_return (JObj [(''version'', version)]))))))
         | _ \<Rightarrow> None))) (\<lambda>_. committed_progress rel ps) (\<lambda>_ _. True)"
  proof (rule triple_bind [where R = "\<lambda>rid s. progress rel ps s \<and> subscript rel ''release_id'' = Inr (JStr rid)"])
    show "triple (\<lambda>s. progress rel ps s \<and> subscript rel ''release_id'' = Inr rid0) (sx_of_res (as_str rid0))
       (\<lambda>rid s. progress rel ps s \<and> subscript rel ''release_id'' = Inr (JStr rid)) (\<lambda>_ _. True)"
      by (rule triple_of_res) (auto simp: as_str_def split: json.splits)
    fix rid
    show "triple (\<lambda>s. progress rel ps s \<and> subscript rel ''release_id'' = Inr (JStr rid))
       (sx_catch
        (sx_bind (call env ''catalog_service'' (''/internal/v1/releases/'' @ rid @ ''/commit'') (Some (JObj []))) (\<lambda>result.
          sx_then (sx_modify (\<lambda>s. s\<lparr>rs_commit_known := True\<rparr>)) (sx_return result)))
        (\<lambda>e. case e of
           HTTPException _ _ \<Rightarrow> Some
             (sx_bind (call env ''catalog_service'' (''/internal/v1/releases/'' @ rid) None) (\<lambda>state.
              sx_then (sx_modify (\<lambda>s. s\<lparr>rs_commit_known := True\<rparr>))
              (sx_bind (sx_of_res (attr_get state ''committed'' JNull)) (\<lambda>committed.
               if \<not> truthy committed then sx_raise e
               else sx_bind (sx_of_res (subscript state ''version'')) (\<lambda>version.
                 sx_return (JObj [(''version'', version)]))))))
         | _ \<Rightarrow> None)) (\<lambda>_. committed_progress rel ps) (\<lambda>_ _. True)"
    proof (cases "subscript rel ''release_id'' = Inr (JStr rid)")
      case True
      show ?thesis
      proof (rule triple_catch [where E' = "\<lambda>_. progress rel ps"], goal_cases)
        case 1
        show ?case by (rule triple_conseq [OF commit_call_progress [OF True]]) auto
      next
        case (2 e k)
        then show ?case
          by (cases e) (simp_all only: exc.case option.inject option.distinct, hypsubst, rule commit_query_progress [OF True])
      qed simp
    qed (simp add: triple_def)
  qed
qed

lemma triple_exists:
  "(\<And>x. triple (P x) m (\<lambda>v s. \<exists>y. Q y v s) E) \<Longrightarrow> triple (\<lambda>s. \<exists>x. P x s) m (\<lambda>v s. \<exists>y. Q y v s) E"
  by (rule tripleI) (blast dest: tripleD_return tripleD_raise)+

lemma triple_conj:
  "triple P m Q E \<Longrightarrow> triple P' m Q' E' \<Longrightarrow>
    triple (\<lambda>s. P s \<and> P' s) m (\<lambda>v s. Q v s \<and> Q' v s) (\<lambda>e s. E e s \<and> E' e s)"
  by (rule tripleI) (auto dest: tripleD_return tripleD_raise)

text \<open>What the workflow of a job established before it returned still holds when the run ends with
  the job succeeded.\<close>

definition good_end :: "string \<Rightarrow> (run_state \<Rightarrow> bool) \<Rightarrow> run_state \<Rightarrow> bool" where
  "good_end jid R s \<longleftrightarrow> present jid s \<and> (job_status jid (w_db s) = Some (JStr ''succeeded'') \<longrightarrow> R s)"

definition log_property :: "(run_state \<Rightarrow> bool) \<Rightarrow> bool" where
  "log_property R \<longleftrightarrow> (\<forall>s db. R s \<longrightarrow> R (s\<lparr>w_db := db\<rparr>)) \<and>
     (\<forall>s db x. R s \<longrightarrow> R (s\<lparr>w_db := db, w_sent := w_sent s @ [x]\<rparr>))"

lemma good_end_body:
  assumes "only_cancels env jid" and "log_property R"
    and body: "triple (\<lambda>_. True) (workflow env jid job) (\<lambda>_. R) (\<lambda>_ _. True)"
  shows "triple (present jid) (run_body env jid job) (\<lambda>_. good_end jid R) (\<lambda>_. present jid)"
  unfolding run_body_def
proof (rule triple_then [OF present_run.keeps_checkpoint], rule triple_bind [where R = "\<lambda>_ s. present jid s \<and> R s"])
  show "triple (present jid) (workflow env jid job) (\<lambda>_ s. present jid s \<and> R s) (\<lambda>_. present jid)"
    by (rule triple_conseq [OF triple_conj [OF present_run.keeps_workflow [OF assms(1)] body]]) auto
  fix result
  have "triple (\<lambda>s. present jid s \<and> R s) (record_desired job) (\<lambda>_ s. present jid s \<and> R s) (\<lambda>_. present jid)"
    unfolding record_desired_def store_state_def
    by (intro triple_if triple_modify triple_return)
      (use assms(2) in \<open>auto simp: log_property_def present_def put_state_def job_status_def\<close>)
  then show "triple (\<lambda>s. present jid s \<and> R s) (sx_then (record_desired job)
      (sx_then (store_update env jid [status_is ''succeeded'', (''checkpoint'', JStr ''complete''), (''result'', result)])
         (sx_return ()))) (\<lambda>_. good_end jid R) (\<lambda>_. present jid)"
    by (rule triple_then) (rule triple_settle, use assms(2) in \<open>auto simp: good_end_def log_property_def present_def\<close>)
qed

lemma good_end_run:
  assumes oc: "only_cancels env jid" and R: "log_property R"
    and body: "triple (\<lambda>_. True) (workflow env jid job) (\<lambda>_. R) (\<lambda>_ _. True)"
  shows "triple (\<lambda>s. present jid s \<and> get_job jid (w_db s) = Inr job) (run env jid) (\<lambda>_. good_end jid R) (interrupted_here jid)"
  unfolding run_def
proof (rule triple_bind [where R = "\<lambda>doc s. present jid s \<and> doc = job"])
  show "triple (\<lambda>s. present jid s \<and> get_job jid (w_db s) = Inr job) (store_get jid) (\<lambda>doc s. present jid s \<and> doc = job)
     (interrupted_here jid)"
    by (rule triple_store_get) auto
  fix doc
  have handled: "triple (present jid) (sx_catch (run_body env jid job)
          (\<lambda>e. Some (if e = CancelledError then on_cancelled env jid else on_error env jid job e)))
        (\<lambda>_. good_end jid R) (interrupted_here jid)"
  proof (rule triple_catch [OF good_end_body [OF assms]])
    have stopped: "triple (present jid) (on_cancelled env jid) (\<lambda>_. good_end jid R) (interrupted_here jid)"
      by (rule triple_on_cancelled) (auto simp: good_end_def present_def)
    have failed: "triple (present jid) (on_error env jid job e) (\<lambda>_. good_end jid R) (interrupted_here jid)" for e
      by (rule triple_on_error [OF _ triple_conseq [OF compensate_present [OF oc]]]) (auto simp: good_end_def present_def)
    show "triple (present jid) k (\<lambda>_. good_end jid R) (interrupted_here jid)"
      if "Some (if e = CancelledError then on_cancelled env jid else on_error env jid job e) = Some k" for e k
      using that stopped failed by auto
  qed simp
  have resumed: "triple (good_end jid R) (release_block env jid job) (\<lambda>_. good_end jid R) (interrupted_here jid)"
  proof (rule triple_release_block)
    have sent: "good_end jid R (s\<lparr>w_db := env_db env (w_sent s) c (w_db s), w_sent := w_sent s @ [(c, r)]\<rparr>)"
      if "good_end jid R s" for s c r
    proof -
      have "job_status jid (env_db env (w_sent s) c (w_db s)) \<in> {job_status jid (w_db s), Some (JStr ''cancelled'')}"
        using that oc by (simp add: good_end_def present_def only_cancels_def)
      moreover have "R s \<longrightarrow> R (s\<lparr>w_db := db', w_sent := w_sent s @ [(c, r)]\<rparr>)" for db'
        using R by (simp add: log_property_def)
      ultimately show ?thesis using that by (auto simp: good_end_def present_def)
    qed
    have "keeps (good_end jid R) (sx_then (action env job ''resume'' []) (sx_return ()))"
      unfolding action_def by (intro keeps_then triple_send triple_return sent)
    then show "triple (\<lambda>s. good_end jid R s \<and> job_status jid (w_db s) \<noteq> Some (JStr ''needs_recovery''))
        (sx_then (action env job ''resume'' []) (sx_return ())) (\<lambda>_. good_end jid R) (\<lambda>_. good_end jid R)"
      by (rule triple_conseq) auto
    show "triple (good_end jid R) (sx_then (store_update env jid [status_is ''needs_recovery'',
        (''error'', JStr ''Unable to release target admission block'')]) (sx_return ())) (\<lambda>_. good_end jid R)
        (interrupted_here jid)"
      by (rule triple_settle) (auto simp: good_end_def present_def)
  qed (auto simp: good_end_def)
  have "triple (present jid) (sx_finally (sx_catch (run_body env jid job)
          (\<lambda>e. Some (if e = CancelledError then on_cancelled env jid else on_error env jid job e)))
        (release_block env jid job)) (\<lambda>_. good_end jid R) (interrupted_here jid)"
    by (rule triple_finally [OF handled resumed], rule tripleI)
      (auto dest: tripleD_return [OF release_interrupted [OF oc]] tripleD_raise [OF release_interrupted [OF oc]])
  then show "triple (\<lambda>s. present jid s \<and> doc = job) (sx_finally (sx_catch (run_body env jid doc)
          (\<lambda>e. Some (if e = CancelledError then on_cancelled env jid else on_error env jid doc e)))
        (release_block env jid doc)) (\<lambda>_. good_end jid R) (interrupted_here jid)"
    by (cases "doc = job") (auto intro: triple_conseq tripleI)
qed

lemma start_run_good_end:
  assumes "get_job jid db = Inr job" and "only_cancels env jid" and "log_property R"
    and "triple (\<lambda>_. True) (workflow env jid job) (\<lambda>_. R) (\<lambda>_ _. True)"
    and "start_run env jid db = (Inr (), s)" and "job_status jid (w_db s) = Some (JStr ''succeeded'')"
  shows "R s"
proof -
  have "present jid (init_run db) \<and> get_job jid (w_db (init_run db)) = Inr job"
    using get_job_status [OF assms(1)] assms(1) by (simp add: init_run_def present_def)
  from tripleD_return [OF good_end_run [OF assms(2-4)] this] assms(5,6) show ?thesis
    by (simp add: start_run_def good_end_def)
qed

section \<open>A release succeeds in order\<close>

definition release_done :: "jdict \<Rightarrow> run_state \<Rightarrow> bool" where
  "release_done job s \<longleftrightarrow> (\<exists>release rid. subscript release ''release_id'' = Inr (JStr rid) \<and>
     in_order [acked (action_call job ''quiesce'' []), acked (apply_call job release), acked (verify_call job),
        committed rid] (w_sent s))"

lemma apply_workflow_done: "triple (\<lambda>_. True) (apply_workflow env jid job) (\<lambda>_. release_done job) (\<lambda>_ _. True)"
  unfolding apply_workflow_def
proof (rule triple_then_any [OF triple_any], rule triple_then_any [OF triple_any], rule triple_then_any [OF triple_any])
  have phases: "triple (progress rel []) (sx_then (quiesce_phase env jid job) (sx_then (apply_release env job)
      (sx_then (verify_release env jid job) (commit_release env jid)))) (\<lambda>_. release_done job) (\<lambda>_ _. True)" for rel
  proof -
    let ?q = "[acked (action_call job ''quiesce'' [])]" and ?a = "[acked (apply_call job rel)]"
    have c: "triple (progress rel ((?q @ ?a) @ [acked (verify_call job)])) (commit_release env jid)
        (\<lambda>_. release_done job) (\<lambda>_ _. True)"
      by (rule triple_conseq [OF commit_progress [of rel "(?q @ ?a) @ [acked (verify_call job)]"]])
        (auto simp: committed_progress_def progress_def release_done_def)
    have "triple (progress rel []) (quiesce_phase env jid job) (\<lambda>_. progress rel ?q) (\<lambda>_ _. True)"
      using quiesce_progress [of rel "[]"] by simp
    then show ?thesis
      by (rule triple_then_any) (intro triple_then_any [OF apply_progress] triple_then_any [OF verify_progress] c)
  qed
  show "triple (\<lambda>_. True) (sx_then (quiesce_phase env jid job) (sx_then (apply_release env job)
      (sx_then (verify_release env jid job) (commit_release env jid)))) (\<lambda>_. release_done job) (\<lambda>_ _. True)"
    by (rule tripleI) (auto intro: tripleD_return [OF phases] simp: progress_def)
qed

text \<open>C3: A run of an Agent or model release that ends succeeded made its calls in the safe order and
  had each acknowledged: the target quiesced, then this release applied, then the application
  verified, then the catalog committed it or reported it as committed.\<close>
theorem release_succeeds_in_order:
  assumes "get_job jid db = Inr job" and "is_apply_kind job" and "only_cancels env jid"
    and "start_run env jid db = (Inr (), s)" and "job_status jid (w_db s) = Some (JStr ''succeeded'')"
  shows "\<exists>release rid. subscript release ''release_id'' = Inr (JStr rid) \<and>
    in_order [acked (action_call job ''quiesce'' []), acked (apply_call job release), acked (verify_call job),
      committed rid] (w_sent s)"
proof -
  have "log_property (release_done job)"
    by (auto simp: log_property_def release_done_def intro: in_order_more)
  moreover have "triple (\<lambda>_. True) (workflow env jid job) (\<lambda>_. release_done job) (\<lambda>_ _. True)"
    using assms(2) apply_workflow_done by (simp add: workflow_def)
  ultimately have "release_done job s" by (rule start_run_good_end [OF assms(1,3) _ _ assms(4,5)])
  then show ?thesis by (simp only: release_done_def)
qed

theorem release_succeeds_in_order_witness:
  "\<exists>s release rid. start_run (demo_env []) ''j1'' (demo_db ''models.apply'') = (Inr (), s) \<and>
     subscript release ''release_id'' = Inr (JStr rid) \<and>
     in_order [acked (action_call (demo_job ''models.apply'') ''quiesce'' []),
       acked (apply_call (demo_job ''models.apply'') release), acked (verify_call (demo_job ''models.apply'')),
       committed rid] (w_sent s)"
proof -
  obtain s where s: "start_run (demo_env []) ''j1'' (demo_db ''models.apply'') = (Inr (), s)"
    and ok: "job_status ''j1'' (w_db s) = Some (JStr ''succeeded'')"
    using demo_release_succeeds by (auto simp: demo_status)
  have "is_apply_kind (demo_job ''models.apply'')"
    by (simp add: is_apply_kind_def kind_of_def demo_job_def jget_def dget_def)
  from release_succeeds_in_order [OF demo_job_found this demo_only_cancels s ok] s show ?thesis by blast
qed

section \<open>A deletion removes in order\<close>

definition agent_path :: "jdict \<Rightarrow> string \<Rightarrow> string" where
  "agent_path job name = ''/internal/v1/agents/'' @ target_of job @ ''/'' @ name"

definition lifecycle_acked :: "jdict \<Rightarrow> string \<Rightarrow> service_call \<times> reply \<Rightarrow> bool" where
  "lifecycle_acked job act = (\<lambda>(c, r). ok_reply r \<and> sc_service c = ''catalog_service''
     \<and> sc_path c = agent_path job ''lifecycle'' \<and> jget (obj_of (sc_body c)) ''action'' = JStr act)"

definition cleanup_acked :: "jdict \<Rightarrow> service_call \<times> reply \<Rightarrow> bool" where
  "cleanup_acked job = (\<lambda>(c, r). ok_reply r \<and> sc_service c = ''file_service'' \<and> sc_path c = agent_path job ''cleanup'')"

definition action_acked :: "jdict \<Rightarrow> string \<Rightarrow> service_call \<times> reply \<Rightarrow> bool" where
  "action_acked job name = (\<lambda>(c, r). ok_reply r \<and> is_action job name c)"

definition deletion_steps :: "jdict \<Rightarrow> (service_call \<times> reply \<Rightarrow> bool) list" where
  "deletion_steps job = [action_acked job ''quiesce'', lifecycle_acked job ''deleting'', action_acked job ''delete'',
     cleanup_acked job, lifecycle_acked job ''delete'']"

lemma progress_event:
  "(\<And>r. ok_reply r \<Longrightarrow> p (c, r)) \<Longrightarrow> triple (progress rel ps) (send env c) (\<lambda>_. progress rel (ps @ [p])) (\<lambda>_ _. True)"
  by (rule triple_send) (auto intro!: progress_acked)

lemma quiesce_event:
  "triple (progress rel ps) (quiesce_phase env jid job) (\<lambda>_. progress rel (ps @ [action_acked job ''quiesce''])) (\<lambda>_ _. True)"
  unfolding quiesce_phase_def action_def
  by (rule triple_then_any [OF triple_weaken [OF progress_checkpoint]],
      rule triple_then_any [where R = "progress rel ps"], rule triple_modify, simp,
      rule triple_then_any [OF progress_event [where p = "action_acked job ''quiesce''"]],
      simp add: action_acked_def is_action_def action_call_def request_def jget_def dget_def dupdate_def,
      rule triple_then_any [OF triple_weaken [OF progress_checkpoint]], rule triple_modify, simp)

lemma lifecycle_event:
  "triple (progress rel ps) (lifecycle_call env job act) (\<lambda>_. progress rel (ps @ [lifecycle_acked job act])) (\<lambda>_ _. True)"
  unfolding lifecycle_call_def call_def
proof (rule triple_bind [where R = "\<lambda>_. progress rel ps"])
  show "triple (progress rel ps) (sx_of_res (impact_fingerprint job ''catalog'')) (\<lambda>_. progress rel ps) (\<lambda>_ _. True)"
    by (rule triple_of_res) auto
qed (rule progress_event, simp add: lifecycle_acked_def agent_path_def request_def jget_def dget_def)

lemma progress_store: "keeps (progress rel ps) (store_update env jid changes)"
  by (rule keeps_store) simp

lemma progress_any_res: "triple (progress rel ps) (sx_of_res r) (\<lambda>_. progress rel ps) (\<lambda>_ _. True)"
  by (rule triple_of_res) auto

lemma delete_event:
  "triple (progress rel ps) (delete_workflow env jid job act)
     (\<lambda>_. progress rel (((ps @ [lifecycle_acked job ''deleting'']) @ [action_acked job ''delete'']) @ [cleanup_acked job])) (\<lambda>_ _. True)"
  unfolding delete_workflow_def action_def call_def
  by (rule triple_then_any [OF lifecycle_event], rule triple_bind [OF progress_any_res],
      rule triple_then_any [OF progress_event [where p = "action_acked job ''delete''"]],
      simp add: action_acked_def is_action_def action_call_def request_def jget_def dget_def dupdate_def,
      rule triple_then_any [OF triple_weaken [OF progress_store]], rule triple_bind [OF progress_any_res],
      rule triple_then_any [OF progress_event [where p = "cleanup_acked job"]],
      simp add: cleanup_acked_def request_def agent_path_def,
      rule triple_then_any [OF triple_weaken [OF progress_store]], rule triple_return, simp)

definition deletion_done :: "jdict \<Rightarrow> run_state \<Rightarrow> bool" where
  "deletion_done job s \<longleftrightarrow> in_order (deletion_steps job) (w_sent s)"

lemma deletion_workflow_done:
  assumes "kind_of job \<in> {''agent.delete'', ''agent.delete-empty''}"
  shows "triple (\<lambda>_. True) (workflow env jid job) (\<lambda>_. deletion_done job) (\<lambda>_ _. True)"
proof -
  have act: "\<exists>act \<in> {''delete'', ''delete-empty''}. kind_action job = Inr act"
    using assms by (auto simp: kind_action_def)
  then obtain act where act: "kind_action job = Inr act" "act \<in> {''delete'', ''delete-empty''}" by blast
  have phases: "triple (progress rel []) (lifecycle_workflow env jid job) (\<lambda>_. deletion_done job) (\<lambda>_ _. True)" for rel
  proof -
    let ?q = "[action_acked job ''quiesce'']"
    let ?d = "((?q @ [lifecycle_acked job ''deleting'']) @ [action_acked job ''delete'']) @ [cleanup_acked job]"
    have q: "triple (progress rel []) (quiesce_phase env jid job) (\<lambda>_. progress rel ?q) (\<lambda>_ _. True)"
      using quiesce_event [of rel "[]"] by simp
    have d: "triple (progress rel ?q) (sx_then (delete_workflow env jid job act) (sx_return ''delete''))
        (\<lambda>a s. progress rel ?d s \<and> a = ''delete'') (\<lambda>_ _. True)"
      by (rule triple_then_any [OF delete_event]) (rule triple_return, simp)
    have l: "triple (\<lambda>s. progress rel ?d s \<and> a = ''delete'') (sx_bind (lifecycle_call env job a) (\<lambda>result.
        sx_then (sx_modify (\<lambda>s. s\<lparr>rs_applied := True\<rparr>)) (sx_return result))) (\<lambda>_. deletion_done job) (\<lambda>_ _. True)" for a
    proof (rule triple_bind [where R = "\<lambda>_. deletion_done job"])
      show "triple (\<lambda>s. progress rel ?d s \<and> a = ''delete'') (lifecycle_call env job a) (\<lambda>_. deletion_done job) (\<lambda>_ _. True)"
        using lifecycle_event [of rel ?d env job "''delete''"]
        by (cases "a = ''delete''")
          (auto simp: deletion_done_def deletion_steps_def progress_def triple_def split: prod.splits sum.splits)
      show "triple (deletion_done job) (sx_then (sx_modify (\<lambda>s. s\<lparr>rs_applied := True\<rparr>)) (sx_return result))
          (\<lambda>_. deletion_done job) (\<lambda>_ _. True)" for result
        by (rule triple_then_any [where R = "deletion_done job"], rule triple_modify, simp add: deletion_done_def)
          (rule triple_return)
    qed
    have "lifecycle_workflow env jid job = sx_bind (sx_of_res (Inr act)) (\<lambda>act.
        sx_then (quiesce_phase env jid job) (sx_bind
          (if act \<in> {''delete'', ''delete-empty''} then sx_then (delete_workflow env jid job act) (sx_return ''delete'')
           else if act = ''archive'' then sx_then (action env job ''archive'' []) (sx_return act)
           else sx_return act) (\<lambda>act1. sx_bind (lifecycle_call env job act1) (\<lambda>result.
         sx_then (sx_modify (\<lambda>s. s\<lparr>rs_applied := True\<rparr>)) (sx_return result)))))"
      by (simp add: lifecycle_workflow_def act)
    then show ?thesis
      using act(2) triple_then_any [OF q triple_bind [OF d l]] by (auto simp: sx_bind_def sx_of_res_def)
  qed
  have "triple (\<lambda>_. True) (lifecycle_workflow env jid job) (\<lambda>_. deletion_done job) (\<lambda>_ _. True)"
    by (rule tripleI) (auto intro: tripleD_return [OF phases] simp: progress_def)
  then show ?thesis using assms by (auto simp: workflow_def is_apply_kind_def starts_with_def)
qed

text \<open>C5: A deletion that ends succeeded removed everything in the safe order, each step acknowledged:
  the target quiesced, the catalog marked it as being deleted, the sandboxes removed, then the files,
  and only then the catalog record.\<close>
theorem deletion_succeeds_in_order:
  assumes "get_job jid db = Inr job" and "kind_of job \<in> {''agent.delete'', ''agent.delete-empty''}"
    and "only_cancels env jid"
    and "start_run env jid db = (Inr (), s)" and "job_status jid (w_db s) = Some (JStr ''succeeded'')"
  shows "in_order [action_acked job ''quiesce'', lifecycle_acked job ''deleting'', action_acked job ''delete'',
     cleanup_acked job, lifecycle_acked job ''delete''] (w_sent s)"
proof -
  have "log_property (deletion_done job)"
    by (auto simp: log_property_def deletion_done_def intro: in_order_more)
  then have "deletion_done job s"
    by (rule start_run_good_end [OF assms(1,3) _ deletion_workflow_done [OF assms(2)] assms(4,5)])
  then show ?thesis by (simp only: deletion_done_def deletion_steps_def)
qed

theorem deletion_succeeds_in_order_witness:
  "\<exists>s. start_run (demo_env []) ''j1'' (demo_db ''agent.delete'') = (Inr (), s) \<and>
    in_order [action_acked (demo_job ''agent.delete'') ''quiesce'', lifecycle_acked (demo_job ''agent.delete'') ''deleting'',
      action_acked (demo_job ''agent.delete'') ''delete'', cleanup_acked (demo_job ''agent.delete''),
      lifecycle_acked (demo_job ''agent.delete'') ''delete''] (w_sent s)"
proof -
  obtain s where s: "start_run (demo_env []) ''j1'' (demo_db ''agent.delete'') = (Inr (), s)"
    and ok: "job_status ''j1'' (w_db s) = Some (JStr ''succeeded'')"
    using demo_deletion_succeeds by (auto simp: demo_status)
  have "kind_of (demo_job ''agent.delete'') \<in> {''agent.delete'', ''agent.delete-empty''}"
    by (simp add: kind_of_def demo_job_def jget_def dget_def)
  from deletion_succeeds_in_order [OF demo_job_found this demo_only_cancels s ok] s show ?thesis by blast
qed

end
