(* ===== verification/Compensation.thy ===== *)
theory Compensation
  imports WorkflowOrder
begin

text \<open>
  The comment in \<open>Workflows.run\<close>, as a theorem: only an acknowledged application is
  compensated, and an uncertain commit is held for inspection. \<open>justified\<close> is what the log
  must show before the first compensating call.
\<close>

definition resolved :: "call_log \<Rightarrow> bool" where
  "resolved lg \<longleftrightarrow> (\<exists>rid. in_order [acked (commit_call rid)] lg \<or>
     in_order [\<lambda>e. fst e = commit_call rid, acked (release_query rid)] lg)"

definition no_commit :: "call_log \<Rightarrow> bool" where
  "no_commit lg \<longleftrightarrow> (\<forall>e \<in> set lg. \<not> is_commit (fst e))"

definition justified :: "jdict \<Rightarrow> call_log \<Rightarrow> bool" where
  "justified job lg \<longleftrightarrow> (\<exists>release. in_order [acked (apply_call job release)] lg) \<and> (no_commit lg \<or> resolved lg)"

definition before_compensation :: "jdict \<Rightarrow> call_log \<Rightarrow> call_log" where
  "before_compensation job lg = takeWhile (\<lambda>e. \<not> is_compensation job (fst e)) lg"

definition uncompensated :: "jdict \<Rightarrow> call_log \<Rightarrow> bool" where
  "uncompensated job lg \<longleftrightarrow> (\<forall>e \<in> set lg. \<not> is_compensation job (fst e))"

definition compensation_justified :: "jdict \<Rightarrow> call_log \<Rightarrow> bool" where
  "compensation_justified job lg \<longleftrightarrow> uncompensated job lg \<or> justified job (before_compensation job lg)"

definition may_compensate :: "run_state \<Rightarrow> bool" where
  "may_compensate s \<longleftrightarrow> rs_applied s \<and> (\<not> rs_commit_started s \<or> rs_commit_known s)"

definition safe_stop :: "jdict \<Rightarrow> run_state \<Rightarrow> bool" where
  "safe_stop job s \<longleftrightarrow> uncompensated job (w_sent s) \<and> (may_compensate s \<longrightarrow> justified job (w_sent s))"

lemma uncompensated_simps [simp]:
  "uncompensated job []" "uncompensated job (lg @ [x]) \<longleftrightarrow> uncompensated job lg \<and> \<not> is_compensation job (fst x)"
  by (auto simp: uncompensated_def)

lemma no_commit_simps [simp]: "no_commit []" "no_commit (lg @ [x]) \<longleftrightarrow> no_commit lg \<and> \<not> is_commit (fst x)"
  by (auto simp: no_commit_def)

lemma justified_more: "justified job lg \<Longrightarrow> \<not> is_commit (fst x) \<Longrightarrow> justified job (lg @ [x])"
  unfolding justified_def resolved_def by (auto intro: in_order_more)

lemma compensation_justified_more:
  assumes "compensation_justified job lg" and "uncompensated job lg \<Longrightarrow> is_compensation job (fst x) \<Longrightarrow> justified job lg"
  shows "compensation_justified job (lg @ [x])"
proof (cases "uncompensated job lg")
  case True
  then have "before_compensation job (lg @ [x]) = lg @ (if is_compensation job (fst x) then [] else [x])"
    by (simp add: before_compensation_def uncompensated_def takeWhile_append)
  with True assms(2) show ?thesis by (auto simp: compensation_justified_def)
next
  case False
  then have "before_compensation job (lg @ [x]) = before_compensation job lg"
    by (auto simp: before_compensation_def uncompensated_def)
  with False assms(1) show ?thesis by (simp add: compensation_justified_def)
qed

section \<open>The phases\<close>

definition not_applied :: "jdict \<Rightarrow> run_state \<Rightarrow> bool" where
  "not_applied job s \<longleftrightarrow> uncompensated job (w_sent s) \<and> no_commit (w_sent s) \<and> \<not> rs_applied s \<and> \<not> rs_commit_known s"

definition not_committed :: "jdict \<Rightarrow> run_state \<Rightarrow> bool" where
  "not_committed job s \<longleftrightarrow> uncompensated job (w_sent s) \<and> no_commit (w_sent s) \<and> \<not> rs_commit_known s
     \<and> (\<exists>release. in_order [acked (apply_call job release)] (w_sent s))"

definition committing :: "jdict \<Rightarrow> run_state \<Rightarrow> bool" where
  "committing job s \<longleftrightarrow> uncompensated job (w_sent s) \<and> rs_commit_started s \<and> \<not> rs_commit_known s
     \<and> (\<exists>release. in_order [acked (apply_call job release)] (w_sent s))"

abbreviation guarded_call :: "jdict \<Rightarrow> service_call \<Rightarrow> bool" where
  "guarded_call job c \<equiv> is_compensation job c \<or> is_commit c"

interpretation not_applied_run: phase_invariant jid job "not_applied job" "guarded_call job" for jid job
  by unfold_locales (auto simp: not_applied_def body_call_not)

interpretation not_committed_run: phase_invariant jid job "not_committed job" "guarded_call job" for jid job
  by unfold_locales (auto simp: not_committed_def body_call_not intro: in_order_more)

lemma not_applied_safe: "not_applied job s \<Longrightarrow> safe_stop job s"
  by (simp add: not_applied_def safe_stop_def may_compensate_def)

lemma not_committed_safe: "not_committed job s \<Longrightarrow> safe_stop job s"
  by (simp add: not_committed_def safe_stop_def justified_def)

lemma committing_safe: "committing job s \<Longrightarrow> safe_stop job s"
  by (simp add: committing_def safe_stop_def may_compensate_def)

lemma apply_call_unguarded: "\<not> guarded_call job (apply_call job release)"
  using not_applied_run.body_action [of "''apply''" "[(''bundle'', release)]" job]
    not_applied_run.body_request(1) [of "''model_gateway''" "''/internal/v1/config/activate''" "Some release" job]
  by (auto simp: apply_call_def is_commit_request)

lemma apply_commits_to:
  "triple (not_applied job) (apply_release env job) (\<lambda>_. not_committed job) (\<lambda>_. safe_stop job)"
  unfolding apply_release_def
proof (rule triple_then, rule triple_bind [where R = "\<lambda>_. not_applied job"])
  fix s0
  have "triple (not_applied job) (send env (apply_call job (rs_release s0))) (\<lambda>_. not_committed job) (\<lambda>_. safe_stop job)"
    using apply_call_unguarded [of job "rs_release s0"]
    by (intro triple_send)
      (auto simp: not_applied_def not_committed_def acked_def safe_stop_def may_compensate_def
          intro!: exI [of _ "rs_release s0"] in_order_snoc [where ps = "[]", simplified])
  then show "triple (not_applied job)
      (if kind_of job = ''agent.apply'' then action env job ''apply'' [(''bundle'', rs_release s0)]
         else call env ''model_gateway'' ''/internal/v1/config/activate'' (Some (rs_release s0)))
      (\<lambda>_. not_committed job) (\<lambda>_. safe_stop job)"
    by (auto simp: apply_call_def action_def call_def)
next
  show "triple (not_committed job) (sx_modify (\<lambda>s. s\<lparr>rs_applied := True\<rparr>)) (\<lambda>_. not_committed job) (\<lambda>_. safe_stop job)"
    by (rule triple_modify) (simp add: not_committed_def)
qed (auto intro: triple_get)

lemma verify_keeps: "only_cancels env jid \<Longrightarrow>
    triple (not_committed job) (verify_release env jid job) (\<lambda>_. not_committed job) (\<lambda>_. safe_stop job)"
  by (rule triple_conseq [OF not_committed_run.keeps_verify_release]) (auto intro: not_committed_safe)

lemma commit_call_not_compensation: "\<not> is_compensation job (commit_call rid)" "\<not> is_compensation job (release_query rid)"
  by (auto simp: is_compensation_def commit_call_def release_query_def request_def)

text \<open>After the commit was sent and not acknowledged.\<close>

definition uncertain :: "jdict \<Rightarrow> string \<Rightarrow> run_state \<Rightarrow> bool" where
  "uncertain job rid s \<longleftrightarrow> committing job s \<and> in_order [\<lambda>e. fst e = commit_call rid] (w_sent s)"

lemma commit_call_safe:
  "triple (committing job) (sx_bind (call env ''catalog_service'' (''/internal/v1/releases/'' @ rid @ ''/commit'') (Some (JObj []))) (\<lambda>result.
      sx_then (sx_modify (rs_commit_known_update (\<lambda>_. True))) (sx_return result)))
    (\<lambda>_. safe_stop job) (\<lambda>_. uncertain job rid)"
proof (rule triple_bind)
  let ?R = "\<lambda>s. uncompensated job (w_sent s) \<and> justified job (w_sent s)"
  show "triple (committing job) (call env ''catalog_service'' (''/internal/v1/releases/'' @ rid @ ''/commit'') (Some (JObj [])))
      (\<lambda>_. ?R) (\<lambda>_. uncertain job rid)"
    unfolding call_def commit_call_def [symmetric]
  proof (rule triple_send)
    fix s r body assume s: "committing job s" and ok: "ok_reply r"
    have "in_order [acked (commit_call rid)] (w_sent s @ [(commit_call rid, r)])"
      using in_order_snoc [of "[]" "w_sent s" "acked (commit_call rid)"] ok by (simp add: acked_def)
    then show "?R (s\<lparr>w_db := env_db env (w_sent s) (commit_call rid) (w_db s),
        w_sent := w_sent s @ [(commit_call rid, r)]\<rparr>)"
      using s by (auto simp: committing_def justified_def resolved_def commit_call_not_compensation intro: in_order_more)
  next
    fix s r e assume "committing job s"
    then show "uncertain job rid (s\<lparr>w_db := env_db env (w_sent s) (commit_call rid) (w_db s),
        w_sent := w_sent s @ [(commit_call rid, r)]\<rparr>)"
      using in_order_snoc [of "[]" "w_sent s" "\<lambda>e. fst e = commit_call rid" "(commit_call rid, r)"]
      by (auto simp: uncertain_def committing_def commit_call_not_compensation intro: in_order_more)
  qed
  show "triple ?R (sx_then (sx_modify (rs_commit_known_update (\<lambda>_. True))) (sx_return result))
      (\<lambda>_. safe_stop job) (\<lambda>_. uncertain job rid)" for result
    by (rule triple_then [where R = "safe_stop job"], rule triple_modify)
      (auto simp: safe_stop_def intro: triple_return)
qed

lemma commit_query_safe:
  "triple (uncertain job rid)
    (sx_bind (call env ''catalog_service'' (''/internal/v1/releases/'' @ rid) None) (\<lambda>state.
      sx_then (sx_modify (rs_commit_known_update (\<lambda>_. True))) (rest state)))
    (\<lambda>_. safe_stop job) (\<lambda>_. safe_stop job)"
  if rest: "\<And>state. keeps (safe_stop job) (rest state)"
proof (rule triple_bind)
  let ?R = "\<lambda>s. uncompensated job (w_sent s) \<and> justified job (w_sent s)"
  show "triple (uncertain job rid) (call env ''catalog_service'' (''/internal/v1/releases/'' @ rid) None)
      (\<lambda>_. ?R) (\<lambda>_. safe_stop job)"
    unfolding call_def release_query_def [symmetric]
  proof (rule triple_send)
    fix s r body assume s: "uncertain job rid s" and ok: "ok_reply r"
    have "in_order [\<lambda>e. fst e = commit_call rid, acked (release_query rid)] (w_sent s @ [(release_query rid, r)])"
      using in_order_snoc [of "[\<lambda>e. fst e = commit_call rid]" "w_sent s" "acked (release_query rid)"] ok s
      by (simp add: acked_def uncertain_def)
    then show "?R (s\<lparr>w_db := env_db env (w_sent s) (release_query rid) (w_db s),
        w_sent := w_sent s @ [(release_query rid, r)]\<rparr>)"
      using s by (auto simp: uncertain_def committing_def justified_def resolved_def commit_call_not_compensation
          intro: in_order_more)
  next
    fix s r e assume "uncertain job rid s"
    then show "safe_stop job (s\<lparr>w_db := env_db env (w_sent s) (release_query rid) (w_db s),
        w_sent := w_sent s @ [(release_query rid, r)]\<rparr>)"
      by (auto simp: uncertain_def committing_def safe_stop_def may_compensate_def commit_call_not_compensation)
  qed
  show "triple ?R (sx_then (sx_modify (rs_commit_known_update (\<lambda>_. True))) (rest state))
      (\<lambda>_. safe_stop job) (\<lambda>_. safe_stop job)" for state
    by (rule triple_then [where R = "safe_stop job"], rule triple_modify) (auto simp: safe_stop_def intro: rest)
qed

lemma committing_release_field: "keeps (committing job) (release_field name)"
  unfolding release_field_def by (auto intro!: step_rules)

lemma commit_safe:
  assumes oc: "only_cancels env jid"
  shows "triple (not_committed job) (commit_release env jid) (\<lambda>_. safe_stop job) (\<lambda>_. safe_stop job)"
  unfolding commit_release_def
proof (rule triple_then [where R = "not_committed job"], goal_cases)
  case 1
  show ?case by (rule triple_conseq [OF not_committed_run.keeps_checkpoint]) (auto intro: not_committed_safe)
next
  case 2
  show ?case
  proof (rule triple_then [where R = "committing job"], goal_cases)
    case 1
    show ?case by (rule triple_modify) (simp add: not_committed_def committing_def)
  next
    case 2
    show ?case
    proof (rule triple_bind [where R = "\<lambda>_. committing job"], goal_cases)
      case 1
      show ?case by (rule triple_conseq [OF committing_release_field]) (auto intro: committing_safe)
    next
      case (2 rid0)
      show ?case
      proof (rule triple_bind [where R = "\<lambda>_. committing job"], goal_cases)
        case 1
        show ?case by (rule triple_of_res) (auto intro: committing_safe)
      next
        case (2 rid)
        show ?case
        proof (rule triple_catch [OF commit_call_safe], goal_cases)
          case (1 e k)
          then show ?case
            by (cases e) (simp_all only: exc.case option.inject option.distinct, hypsubst,
                intro commit_query_safe step_rules)
        qed (auto simp: uncertain_def intro: committing_safe)
      qed
    qed
  qed
qed

lemma apply_workflow_safe:
  assumes oc: "only_cancels env jid"
  shows "triple (not_applied job) (apply_workflow env jid job) (\<lambda>_. safe_stop job) (\<lambda>_. safe_stop job)"
proof -
  have early_unit: "triple (not_applied job) m (\<lambda>_. not_applied job) (\<lambda>_. safe_stop job)"
    if "keeps (not_applied job) m" for m :: "unit run_step"
    by (rule triple_conseq [OF that]) (auto intro: not_applied_safe)
  show ?thesis unfolding apply_workflow_def
    by (intro triple_then [OF early_unit [OF not_applied_run.keeps_load_previous [OF oc]]]
        triple_then [OF early_unit [OF not_applied_run.keeps_load_release [OF oc]]]
        triple_then [OF early_unit [OF not_applied_run.keeps_validate_release [OF oc]]]
        triple_then [OF early_unit [OF not_applied_run.keeps_quiesce_phase [OF oc]]]
        triple_then [OF apply_commits_to] triple_then [OF verify_keeps [OF oc]] commit_safe [OF oc])
qed

section \<open>The handlers\<close>

definition fine :: "jdict \<Rightarrow> run_state \<Rightarrow> bool" where
  "fine job s \<longleftrightarrow> compensation_justified job (w_sent s)"

definition compensating :: "jdict \<Rightarrow> run_state \<Rightarrow> bool" where
  "compensating job s \<longleftrightarrow> compensation_justified job (w_sent s)
     \<and> (uncompensated job (w_sent s) \<longrightarrow> justified job (w_sent s))"

lemma safe_stop_fine: "safe_stop job s \<Longrightarrow> fine job s"
  by (simp add: safe_stop_def fine_def compensation_justified_def)

lemma compensating_send: "\<not> is_commit c \<Longrightarrow> keeps (compensating job) (send env c)"
  by (rule triple_send) (auto simp: compensating_def intro!: compensation_justified_more justified_more)

lemma compensate_keeps: "keeps (compensating job) (compensate env job)"
  unfolding compensate_def call_def release_field_def
  by (auto intro!: step_rules compensating_send simp: is_commit_request) (auto simp: compensating_def)

lemma keeps_any_store:
  assumes "\<And>s db. I s \<Longrightarrow> I (s\<lparr>w_db := db\<rparr>)"
  shows "keeps I (store_update env jid changes)" "keeps I (store_get jid)"
  using keeps_store [of I jid] assms by blast+

lemma fine_store: "keeps (fine job) (store_update env jid changes)" "keeps (fine job) (store_get jid)"
  by (rule keeps_any_store, simp add: fine_def)+

lemma error_fine: "triple (safe_stop job) (on_error env jid job e) (\<lambda>_. fine job) (\<lambda>_. fine job)"
  unfolding on_error_def
proof (rule triple_then [where R = "fine job"])
  have comp: "triple (compensating job)
      (sx_catch (compensate env job) (\<lambda>e'. if is_exception e' then Some (sx_return ()) else None))
      (\<lambda>_. compensating job) (\<lambda>_. compensating job)"
    by (rule keeps_catch [OF compensate_keeps]) (auto split: if_splits intro: step_rules)
  show "triple (safe_stop job) (sx_bind sx_get (\<lambda>s.
        if rs_applied s \<and> truthy (rs_release s) \<and> (\<not> rs_commit_started s \<or> rs_commit_known s)
        then sx_catch (compensate env job) (\<lambda>e'. if is_exception e' then Some (sx_return ()) else None)
        else sx_return ())) (\<lambda>_. fine job) (\<lambda>_. fine job)"
  proof (rule triple_bind [where R = "\<lambda>s0 s. safe_stop job s \<and> s0 = s"], rule triple_get, simp, rule triple_if)
    fix s0 :: run_state
    assume "rs_applied s0 \<and> truthy (rs_release s0) \<and> (\<not> rs_commit_started s0 \<or> rs_commit_known s0)"
    then show "triple (\<lambda>s. safe_stop job s \<and> s0 = s)
        (sx_catch (compensate env job) (\<lambda>e'. if is_exception e' then Some (sx_return ()) else None))
        (\<lambda>_. fine job) (\<lambda>_. fine job)"
      by (intro triple_conseq [OF comp])
        (auto simp: safe_stop_def may_compensate_def compensating_def fine_def compensation_justified_def)
  qed (auto intro!: triple_return intro: safe_stop_fine)
qed (intro step_rules fine_store)

lemma stopped_fine: "triple (safe_stop job) (on_cancelled env jid) (\<lambda>_. fine job) (\<lambda>_. fine job)"
proof -
  have "keeps (fine job) (on_cancelled env jid)"
    unfolding on_cancelled_def by (intro step_rules fine_store)
  then show ?thesis by (rule triple_conseq) (auto intro: safe_stop_fine)
qed

lemma resume_not_compensation: "\<not> is_compensation job (action_call job ''resume'' [])"
  using append_suffix [of "execution_id job" "'':resume''" "str_of (jget job ''id'')" "'':compensate''"]
  by (auto simp: is_compensation_def action_call_def request_def jget_def dget_def dupdate_def)

lemma release_fine: "keeps (fine job) (release_block env jid job)"
proof -
  have "keeps (fine job) (send env (action_call job ''resume'' []))"
    by (rule triple_send) (auto simp: fine_def resume_not_compensation intro!: compensation_justified_more)
  then show ?thesis unfolding release_block_def action_def
    by (intro step_rules fine_store) (auto split: if_splits intro!: step_rules fine_store)
qed

lemma run_fine:
  assumes oc: "only_cancels env jid" and kind: "is_apply_kind job"
  shows "triple (\<lambda>s. not_applied job s \<and> get_job jid (w_db s) = Inr job) (run env jid) (\<lambda>_. fine job) (\<lambda>_. fine job)"
  unfolding run_def
proof (rule triple_bind [where R = "\<lambda>doc s. not_applied job s \<and> doc = job"])
  show "triple (\<lambda>s. not_applied job s \<and> get_job jid (w_db s) = Inr job) (store_get jid)
      (\<lambda>doc s. not_applied job s \<and> doc = job) (\<lambda>_. fine job)"
    unfolding store_get_def by (rule triple_lift) auto
  fix doc
  have stored: "keeps (safe_stop job) (store_update env jid changes)" for changes
    by (rule keeps_any_store) (simp add: safe_stop_def may_compensate_def)
  have desired: "keeps (safe_stop job) (record_desired job)"
    unfolding record_desired_def store_state_def
    by (intro step_rules) (auto simp: safe_stop_def may_compensate_def)
  have ended: "keeps (safe_stop job) (sx_then (record_desired job)
       (sx_then (store_update env jid [status_is ''succeeded'', (''checkpoint'', JStr ''complete''), (''result'', result)])
          (sx_return ())))" for result
    by (intro step_rules stored desired)
  have start: "triple (not_applied job) (checkpoint env jid ''prepare'' [status_is ''running''])
      (\<lambda>_. not_applied job) (\<lambda>_. safe_stop job)"
    by (rule triple_conseq [OF not_applied_run.keeps_checkpoint]) (auto intro: not_applied_safe)
  have body: "triple (not_applied job) (run_body env jid job) (\<lambda>_. safe_stop job) (\<lambda>_. safe_stop job)"
    unfolding run_body_def workflow_def using kind
    by (auto intro!: triple_then [OF start] triple_bind [OF apply_workflow_safe [OF oc]] ended)
  have "triple (not_applied job) (sx_catch (run_body env jid job)
          (\<lambda>e. Some (if e = CancelledError then on_cancelled env jid else on_error env jid job e)))
        (\<lambda>_. fine job) (\<lambda>_. fine job)"
  proof (rule triple_catch [OF triple_conseq [OF body]])
    show "triple (safe_stop job) k (\<lambda>_. fine job) (\<lambda>_. fine job)"
      if "Some (if e = CancelledError then on_cancelled env jid else on_error env jid job e) = Some k" for e k
      using that error_fine stopped_fine by auto
  qed (auto intro: safe_stop_fine)
  then have "triple (not_applied job) (sx_finally (sx_catch (run_body env jid job)
          (\<lambda>e. Some (if e = CancelledError then on_cancelled env jid else on_error env jid job e)))
        (release_block env jid job)) (\<lambda>_. fine job) (\<lambda>_. fine job)"
    by (rule triple_finally) (rule release_fine)+
  then show "triple (\<lambda>s. not_applied job s \<and> doc = job) (sx_finally (sx_catch (run_body env jid doc)
          (\<lambda>e. Some (if e = CancelledError then on_cancelled env jid else on_error env jid doc e)))
        (release_block env jid doc)) (\<lambda>_. fine job) (\<lambda>_. fine job)"
    by (cases "doc = job") (auto intro: triple_conseq tripleI)
qed

text \<open>C4: A run of an Agent or model release compensates, that is rolls the gateway back or re-applies
  the previous bundle, only when at that moment the application was acknowledged and the commit is not
  in doubt: no commit call was sent, or its answer is known, from the call itself or from a later
  query of the release. This holds however the run ends.\<close>
theorem only_known_outcomes_compensated:
  assumes "get_job jid db = Inr job" and "is_apply_kind job" and "only_cancels env jid"
    and "start_run env jid db = (outcome, s)" and "\<exists>e \<in> set (w_sent s). is_compensation job (fst e)"
  shows "justified job (takeWhile (\<lambda>e. \<not> is_compensation job (fst e)) (w_sent s))"
proof -
  have "not_applied job (init_run db) \<and> get_job jid (w_db (init_run db)) = Inr job"
    using assms(1) by (simp add: not_applied_def init_run_def)
  with assms(4) have "fine job s"
    using tripleD_return [OF run_fine [OF assms(3,2)]] tripleD_raise [OF run_fine [OF assms(3,2)]]
    by (cases outcome) (auto simp: start_run_def)
  with assms(5) show ?thesis
    by (auto simp: fine_def compensation_justified_def uncompensated_def before_compensation_def)
qed

theorem only_known_outcomes_compensated_witness:
  "\<exists>s. start_run (demo_env [''/internal/v1/config/status'']) ''j1'' (demo_db ''models.apply'') = (Inr (), s) \<and>
    justified (demo_job ''models.apply'')
      (takeWhile (\<lambda>e. \<not> is_compensation (demo_job ''models.apply'') (fst e)) (w_sent s))"
proof -
  obtain s where s: "start_run (demo_env [''/internal/v1/config/status'']) ''j1'' (demo_db ''models.apply'') = (Inr (), s)"
    and comp: "\<exists>e \<in> set (w_sent s). is_compensation (demo_job ''models.apply'') (fst e)"
    using demo_release_rolled_back by (auto simp: is_compensation_def)
  have "is_apply_kind (demo_job ''models.apply'')"
    by (simp add: is_apply_kind_def kind_of_def demo_job_def jget_def dget_def)
  from only_known_outcomes_compensated [OF demo_job_found this demo_only_cancels s comp] s show ?thesis by blast
qed

end
