(* ===== verification/LoadTests.thy ===== *)
theory LoadTests
  imports JobStore StepLogic
begin

text \<open>
  \<open>operations/src/load_test_store.py\<close>: load tests, their users and their reports, in the
  tables of the job store. A request is a record of validated fields; the catalog the service
  read last is an argument. The fingerprint of a request is its canonical dump.
\<close>

section \<open>Requests\<close>

record load_agent =
  la_agent :: string
  la_users :: int
  la_cpu :: rat
  la_memory :: int

record load_request =
  lr_request_id :: string
  lr_agents :: "load_agent list"
  lr_timeout :: int
  lr_prepare_timeout :: int

definition load_agent_ok :: "load_agent \<Rightarrow> bool" where
  "load_agent_ok a \<longleftrightarrow> 1 \<le> la_users a \<and> la_users a \<le> 100 \<and> 1 / 4 \<le> la_cpu a \<and> la_cpu a \<le> 64
     \<and> 256 \<le> la_memory a \<and> la_memory a \<le> 65536"

definition load_request_ok :: "load_request \<Rightarrow> bool" where
  "load_request_ok r \<longleftrightarrow> 8 \<le> length (lr_request_id r) \<and> length (lr_request_id r) \<le> 128
     \<and> 1 \<le> length (lr_agents r) \<and> length (lr_agents r) \<le> 32 \<and> list_all load_agent_ok (lr_agents r)
     \<and> 10 \<le> lr_timeout r \<and> lr_timeout r \<le> 1800 \<and> 10 \<le> lr_prepare_timeout r \<and> lr_prepare_timeout r \<le> 300
     \<and> sum_list (map la_users (lr_agents r)) \<le> 100 \<and> distinct (map la_agent (lr_agents r))"

definition dump_agent :: "load_agent \<Rightarrow> json" where
  "dump_agent a = JObj [(''agent_id'', JStr (la_agent a)), (''users'', JInt (la_users a)),
     (''cpu_limit'', JFloat (la_cpu a)), (''memory_mb'', JInt (la_memory a))]"

definition dump_request :: "load_request \<Rightarrow> json" where
  "dump_request r = JObj [(''request_id'', JStr (lr_request_id r)), (''agents'', JArr (map dump_agent (lr_agents r))),
     (''timeout_seconds'', JInt (lr_timeout r)), (''prepare_timeout_seconds'', JInt (lr_prepare_timeout r))]"

definition PREFIX :: string where
  "PREFIX = ''loadtest-''"

definition PROMPT :: string where
  "PROMPT = ''This is a load test. Do not use tools, ask questions, or request permission. Reply with exactly: LOAD-TEST-OK''"

section \<open>Reports\<close>

text \<open>\<open>round(x, d)\<close>: to the nearest, ties to even.\<close>

definition py_round :: "nat \<Rightarrow> rat \<Rightarrow> rat" where
  "py_round d x = (let y = x * 10 ^ d; f = \<lfloor>y\<rfloor>; r = y - of_int f;
     n = (if r < 1 / 2 then f else if r > 1 / 2 then f + 1 else if even f then f else f + 1)
   in of_int n / 10 ^ d)"

definition number :: "json \<Rightarrow> rat res" where
  "number v = (case num_of v of None \<Rightarrow> Inl (TypeError ''a number is required'') | Some r \<Rightarrow> Inr r)"

definition phase_in :: "string list \<Rightarrow> jdict \<Rightarrow> bool" where
  "phase_in names u \<longleftrightarrow> jget u ''phase'' \<in> JStr ` set names"

definition percentile :: "rat list \<Rightarrow> rat \<Rightarrow> rat option" where
  "percentile latencies p =
    (if latencies = [] then None
     else Some (py_round 2 (latencies ! nat (max 0 (\<lceil>of_nat (length latencies) * p\<rceil> - 1)))))"

record summary =
  sm_users :: nat
  sm_prepared :: nat
  sm_submitted :: nat
  sm_succeeded :: nat
  sm_failed :: nat
  sm_cancelled :: nat
  sm_success_rate :: rat
  sm_p50 :: "rat option"
  sm_p95 :: "rat option"
  sm_p99 :: "rat option"
  sm_mean :: "rat option"
  sm_launch_spread :: "rat option"
  sm_generation_seconds :: rat
  sm_requests_per_second :: rat
  sm_input_tokens :: rat
  sm_output_tokens :: rat

definition list_min :: "rat list \<Rightarrow> rat" where "list_min xs = fold min (tl xs) (hd xs)"
definition list_max :: "rat list \<Rightarrow> rat" where "list_max xs = fold max (tl xs) (hd xs)"

definition count_if :: "('a \<Rightarrow> bool) \<Rightarrow> 'a list \<Rightarrow> nat" where
  "count_if P xs = length (filter P xs)"

definition summarize :: "jdict list \<Rightarrow> summary res" where
  "summarize users =
    (let successful = filter (phase_in [''succeeded'']) users;
         sent = filter (\<lambda>u. jget u ''sent_at'' \<noteq> JNull) users
     in ebind (emap (\<lambda>u. ebind (jindex u ''latency_ms'') number) successful) (\<lambda>found.
        let latencies = sort found in
        ebind (emap (\<lambda>u. number (jget u ''sent_at'')) sent) (\<lambda>starts.
        ebind (emap (\<lambda>u. number (jget u ''finished_at'')) (filter (\<lambda>u. truthy (jget u ''finished_at'')) sent)) (\<lambda>ends.
        ebind (emap (\<lambda>u. number (dget u ''input_tokens'' (JInt 0))) users) (\<lambda>inputs.
        ebind (emap (\<lambda>u. number (dget u ''output_tokens'' (JInt 0))) users) (\<lambda>outputs.
        let elapsed = (if starts \<noteq> [] \<and> ends \<noteq> [] then list_max ends - list_min starts else 0);
            n = length successful
        in Inr \<lparr>sm_users = length users,
             sm_prepared = count_if (\<lambda>u. truthy (jget u ''session_id'')) users,
             sm_submitted = length starts, sm_succeeded = n,
             sm_failed = count_if (phase_in [''prepare_failed'', ''failed'', ''timed_out'', ''interrupted'']) users,
             sm_cancelled = count_if (phase_in [''cancelled'']) users,
             sm_success_rate = (if users \<noteq> [] then of_nat n / of_nat (length users) else 0),
             sm_p50 = percentile latencies (1 / 2), sm_p95 = percentile latencies (95 / 100),
             sm_p99 = percentile latencies (99 / 100),
             sm_mean = (if latencies \<noteq> [] then Some (py_round 2 (sum_list latencies / of_nat (length latencies))) else None),
             sm_launch_spread = (if starts \<noteq> [] then Some (py_round 2 ((list_max starts - list_min starts) * 1000)) else None),
             sm_generation_seconds = py_round 3 elapsed,
             sm_requests_per_second = (if elapsed > 0 then py_round 4 (of_nat n / elapsed) else 0),
             sm_input_tokens = sum_list inputs, sm_output_tokens = sum_list outputs\<rparr>))))))"

section \<open>The store\<close>

fun version_config :: "json \<Rightarrow> json list \<Rightarrow> json res" where
  "version_config agent [] = Inr JNull"
| "version_config agent (v # versions) =
    ebind (subscript v ''version'') (\<lambda>n. ebind (subscript agent ''active'') (\<lambda>active.
      if json_eq n active then subscript v ''config'' else version_config agent versions))"

definition selected_config :: "json \<Rightarrow> json res" where
  "selected_config agent =
    (if \<not> truthy agent then Inr JNull
     else ebind (subscript agent ''versions'') (\<lambda>versions. ebind (jiter versions) (version_config agent)))"

definition agent_snapshot :: "json \<Rightarrow> string \<Rightarrow> json res" where
  "agent_snapshot catalog aid =
    ebind (subscript catalog ''agents'') (\<lambda>agents. ebind (attr_get agents aid JNull) (\<lambda>agent.
    ebind (selected_config agent) (\<lambda>config.
    ebind (if \<not> truthy config then Inr False
           else ebind (attr_get config ''enabled'' (JBool True)) (\<lambda>enabled.
             if \<not> truthy enabled then Inr False
             else ebind (attr_get agent ''lifecycle'' (JStr ''active'')) (\<lambda>l. Inr (l = JStr ''active'')))) (\<lambda>usable.
    ebind (raise_if (\<not> usable) (HTTPException 409 (''Select an existing, published and enabled Agent: '' @ aid))) (\<lambda>_.
    ebind (subscript agent ''active'') (\<lambda>active. ebind (subscript config ''default_model_id'') (\<lambda>model_id.
    Inr (JObj [(''version'', active), (''model_id'', model_id)]))))))))"

definition validate_agents :: "load_request \<Rightarrow> json \<Rightarrow> jdict res" where
  "validate_agents request catalog =
    efold (\<lambda>selected snapshots. ebind (agent_snapshot catalog (la_agent selected)) (\<lambda>s.
      Inr (dput (la_agent selected) s snapshots))) (lr_agents request) []"

definition user_doc :: "string \<Rightarrow> load_agent \<Rightarrow> nat \<Rightarrow> jdict" where
  "user_doc rid a i = [(''username'', JStr (PREFIX @ drop 3 rid @ ''-'' @ dec_nat i)), (''agent_id'', JStr (la_agent a)),
     (''run_id'', JStr rid), (''cpu_limit'', JFloat (la_cpu a)), (''memory_mb'', JInt (la_memory a)),
     (''phase'', JStr ''queued'')]"

definition user_row :: "string \<Rightarrow> load_agent \<Rightarrow> nat \<Rightarrow> load_user_row" where
  "user_row rid a i = \<lparr>lu_name = PREFIX @ drop 3 rid @ ''-'' @ dec_nat i, lu_agent = la_agent a, lu_run = rid,
     lu_state = ''retained'', lu_doc = user_doc rid a i\<rparr>"

text \<open>One row per requested user, numbered through all Agents.\<close>

fun new_users :: "string \<Rightarrow> load_agent list \<Rightarrow> nat \<Rightarrow> load_user_row list" where
  "new_users rid [] i = []"
| "new_users rid (a # as) i =
    map (user_row rid a) [Suc i..<Suc i + nat (la_users a)] @ new_users rid as (i + nat (la_users a))"

definition insert_users :: "load_user_row list \<Rightarrow> ops_db \<Rightarrow> ops_db res" where
  "insert_users rows db =
    efold (\<lambda>r d. if find_row lu_name (lu_name r) (load_users d) \<noteq> None
       then Inl (IntegrityError ''UNIQUE constraint failed: load_test_users.username'')
       else Inr (d\<lparr>load_users := load_users d @ [r]\<rparr>)) rows db"

definition HELD :: "string list" where
  "HELD = [''queued'', ''running'', ''waiting'', ''applying'', ''needs_recovery'']"

definition holds_agents :: "string list \<Rightarrow> jdict \<Rightarrow> bool" where
  "holds_agents targets job \<longleftrightarrow> status_in job HELD \<and>
     (job_scope job = JStr ''*'' \<or> job_scope job \<in> JStr ` set targets)"

definition load_doc :: "string \<Rightarrow> load_request \<Rightarrow> jdict \<Rightarrow> rat \<Rightarrow> jdict" where
  "load_doc rid request snapshots now =
    [(''id'', JStr rid), (''request'', dump_request request), (''snapshots'', JObj snapshots), (''prompt'', JStr PROMPT),
     (''created_at'', JFloat now), (''cleanup_status'', JStr ''retained''),
     (''scope'', JStr ''server_initiated_controller_sandbox_model'')]"

definition create_test ::
  "load_request \<Rightarrow> json \<Rightarrow> string \<Rightarrow> rat \<Rightarrow> ops_db \<Rightarrow> ((string \<times> bool) \<times> ops_db) res" where
  "create_test request catalog token now db =
    (let fingerprint = canonical (dump_request request) in
     case find_row lt_request_id (lr_request_id request) (load_rows db) of
       Some previous \<Rightarrow>
         (if lt_fingerprint previous \<noteq> fingerprint
          then Inl (HTTPException 409 ''Request ID was already used with different test parameters'')
          else Inr ((lt_id previous, False), db))
     | None \<Rightarrow>
         (if list_ex (\<lambda>r. lt_status r \<in> set ACTIVE) (load_rows db)
          then Inl (HTTPException 409 ''A load test is already active'')
          else if list_ex (holds_agents (map la_agent (lr_agents request))) (jobs db)
          then Inl (HTTPException 409 ''An operation holds a selected Agent'')
          else ebind (validate_agents request catalog) (\<lambda>snapshots.
            let rid = ''lt_'' @ token in
            if find_row lt_id rid (load_rows db) \<noteq> None
            then Inl (IntegrityError ''UNIQUE constraint failed: load_tests.id'')
            else ebind (insert_users (new_users rid (lr_agents request) 0)
                (db\<lparr>load_rows := load_rows db @ [\<lparr>lt_id = rid, lt_request_id = lr_request_id request,
                    lt_fingerprint = fingerprint, lt_status = ''queued'', lt_created = now,
                    lt_doc = load_doc rid request snapshots now\<rparr>]\<rparr>)) (\<lambda>db'.
              Inr ((rid, True), db')))))"

definition previous_test :: "load_request \<Rightarrow> ops_db \<Rightarrow> string option res" where
  "previous_test request db =
    (case find_row lt_request_id (lr_request_id request) (load_rows db) of
       None \<Rightarrow> Inr None
     | Some row \<Rightarrow>
       (if lt_fingerprint row \<noteq> canonical (dump_request request)
        then Inl (HTTPException 409 ''Request ID was already used with different test parameters'')
        else Inr (Some (lt_id row))))"

record load_report =
  rp_doc :: jdict
  rp_users :: "jdict list"
  rp_summary :: summary
  rp_by_agent :: "(string \<times> summary) list"

definition user_view :: "load_user_row \<Rightarrow> jdict" where
  "user_view u = dput ''storage_state'' (JStr (lu_state u)) (lu_doc u)"

definition report_users :: "string \<Rightarrow> ops_db \<Rightarrow> jdict list" where
  "report_users rid db = map user_view (sort_key lu_name (filter (\<lambda>u. lu_run u = rid) (load_users db)))"

definition get_test :: "string \<Rightarrow> ops_db \<Rightarrow> load_report res" where
  "get_test rid db =
    (case find_row lt_id rid (load_rows db) of
       None \<Rightarrow> Inl (HTTPException 404 ''Load test not found'')
     | Some row \<Rightarrow>
       (let users = report_users rid db in
        ebind (summarize users) (\<lambda>total.
        ebind (emap (\<lambda>aid. ebind (summarize (filter (\<lambda>u. jget u ''agent_id'' = JStr aid) users)) (\<lambda>s. Inr (aid, s)))
            (dkeys (obj_of (jget (lt_doc row) ''snapshots'')))) (\<lambda>by_agent.
        Inr \<lparr>rp_doc = dput ''status'' (JStr (lt_status row)) (lt_doc row), rp_users = users,
             rp_summary = total, rp_by_agent = by_agent\<rparr>))))"

record load_page =
  pg_total :: nat
  pg_offset :: nat
  pg_limit :: nat
  pg_active :: "string option"
  pg_items :: "jdict list"

definition list_tests :: "nat \<Rightarrow> nat \<Rightarrow> ops_db \<Rightarrow> load_page" where
  "list_tests offset limit db =
    \<lparr>pg_total = length (load_rows db), pg_offset = offset, pg_limit = limit,
     pg_active = map_option lt_id (find (\<lambda>r. lt_status r \<in> set ACTIVE) (load_rows db)),
     pg_items = map (\<lambda>r. dput ''status'' (JStr (lt_status r)) (lt_doc r))
       (take limit (drop offset (rev (sort_key lt_created (load_rows db)))))\<rparr>"

definition find_user :: "string \<Rightarrow> string \<Rightarrow> ops_db \<Rightarrow> load_user_row option" where
  "find_user aid username db = find (\<lambda>u. lu_name u = username \<and> lu_agent u = aid) (load_users db)"

definition active_user :: "string \<Rightarrow> string \<Rightarrow> ops_db \<Rightarrow> bool" where
  "active_user aid username db =
    (if \<not> starts_with username PREFIX then False
     else (case find_user aid username db of None \<Rightarrow> False
       | Some u \<Rightarrow> (case find_row lt_id (lu_run u) (load_rows db) of None \<Rightarrow> False
          | Some r \<Rightarrow> lt_status r \<in> set ACTIVE \<or> jget (lt_doc r) ''cleanup_status'' = JStr ''cleaning'')))"

definition set_load_row :: "string option \<times> jdict \<Rightarrow> load_row \<Rightarrow> load_row" where
  "set_load_row = (\<lambda>(status, values) r.
     r\<lparr>lt_status := (case status of Some s \<Rightarrow> s | None \<Rightarrow> lt_status r), lt_doc := dupdate (lt_doc r) values\<rparr>)"

definition update_test :: "string \<Rightarrow> string option \<Rightarrow> jdict \<Rightarrow> ops_db \<Rightarrow> ops_db res" where
  "update_test rid status values db =
    (if find_row lt_id rid (load_rows db) = None then Inl (HTTPException 404 ''Load test not found'')
     else Inr (db\<lparr>load_rows := update_rows lt_id rid (set_load_row (status, values)) (load_rows db)\<rparr>))"

definition get_user :: "string \<Rightarrow> string \<Rightarrow> ops_db \<Rightarrow> jdict option" where
  "get_user aid username db =
    (if \<not> starts_with username PREFIX then None else map_option user_view (find_user aid username db))"

definition set_user_row :: "string option \<times> jdict \<Rightarrow> load_user_row \<Rightarrow> load_user_row" where
  "set_user_row = (\<lambda>(state, values) u.
     u\<lparr>lu_state := (case state of Some s \<Rightarrow> s | None \<Rightarrow> lu_state u), lu_doc := dupdate (lu_doc u) values\<rparr>)"

definition update_user :: "string \<Rightarrow> string option \<Rightarrow> jdict \<Rightarrow> ops_db \<Rightarrow> ops_db res" where
  "update_user username state values db =
    (if find_row lu_name username (load_users db) = None then Inl (HTTPException 404 ''Load test user not found'')
     else Inr (db\<lparr>load_users := update_rows lu_name username (set_user_row (state, values)) (load_users db)\<rparr>))"

text \<open>The body of the loop of \<open>recover\<close> over the tests.\<close>

definition OPEN_PHASES :: "string list" where
  "OPEN_PHASES = [''queued'', ''preparing'', ''ready'', ''running'']"

definition writing :: "(ops_db \<Rightarrow> ops_db res) \<Rightarrow> (ops_db, unit) sx" where
  "writing f = (\<lambda>db. case f db of Inl e \<Rightarrow> (Inl e, db) | Inr db' \<Rightarrow> (Inr (), db'))"

definition interrupt_user :: "rat \<Rightarrow> jdict \<Rightarrow> (ops_db, unit) sx" where
  "interrupt_user now u =
    (if phase_in OPEN_PHASES u
     then writing (update_user (str_of (jget u ''username'')) None [(''phase'', JStr ''interrupted''),
              (''finished_at'', JFloat now), (''error'', JStr ''CONTROLLER_RESTARTED'')])
     else sx_return ())"

definition recover_test :: "rat \<Rightarrow> string \<Rightarrow> (ops_db, unit) sx" where
  "recover_test now rid =
    sx_bind (sx_lift (get_test rid)) (\<lambda>report.
    sx_then
      (if jget (rp_doc report) ''status'' \<in> JStr ` set ACTIVE
       then sx_then (writing (update_test rid (Some ''interrupted'') [(''finished_at'', JFloat now),
              (''error'', JStr ''Controller restarted; requests were not replayed'')]))
            (sx_for (interrupt_user now) (rp_users report))
       else sx_return ())
      (if jget (rp_doc report) ''cleanup_status'' = JStr ''cleaning''
       then writing (update_test rid None [(''cleanup_status'', JStr ''failed''),
          (''cleanup_error'', JStr ''Controller restarted; retry cleanup'')])
       else sx_return ()))"

definition recover_tests :: "rat \<Rightarrow> (ops_db, unit) sx" where
  "recover_tests now = (\<lambda>db. sx_for (recover_test now) (map lt_id (load_rows db)) db)"

section \<open>Reports as CSV\<close>

definition CSV_FIELDS :: "string list" where
  "CSV_FIELDS = [''agent_id'', ''username'', ''sandbox_id'', ''session_id'', ''cpu_limit'', ''memory_mb'', ''phase'',
     ''prepare_ms'', ''sent_at'', ''latency_ms'', ''input_tokens'', ''output_tokens'', ''error'', ''storage_state'']"

definition csv_cell :: "json \<Rightarrow> json" where
  "csv_cell v = (case v of
     JStr s \<Rightarrow> (if starts_with s ''='' \<or> starts_with s ''+'' \<or> starts_with s ''-'' \<or> starts_with s ''@''
                then JStr (CHR 0x27 # s) else v)
   | _ \<Rightarrow> v)"

definition csv_row :: "jdict \<Rightarrow> jdict" where
  "csv_row user = map (\<lambda>(k, v). (k, csv_cell v)) (filter (\<lambda>(k, v). k \<in> set CSV_FIELDS) user)"

interpretation load_update: row_update lt_id set_load_row
  by unfold_locales (simp add: set_load_row_def split: prod.split)

interpretation user_update: row_update lu_name set_user_row
  by unfold_locales (simp add: set_user_row_def split: prod.split)

section \<open>Reports add up\<close>

lemma py_round_mono: "x \<le> y \<Longrightarrow> py_round d x \<le> py_round d y"
proof -
  assume "x \<le> y"
  define a b where "a = x * 10 ^ d" and "b = y * 10 ^ d"
  define n where "n z = (if z - of_int \<lfloor>z\<rfloor> < 1 / 2 then \<lfloor>z\<rfloor> else if z - of_int \<lfloor>z\<rfloor> > 1 / 2 then \<lfloor>z\<rfloor> + 1
     else if even \<lfloor>z\<rfloor> then \<lfloor>z\<rfloor> else \<lfloor>z\<rfloor> + 1)" for z :: rat
  have ab: "a \<le> b" using \<open>x \<le> y\<close> by (simp add: a_def b_def mult_right_mono)
  then have fl: "\<lfloor>a\<rfloor> \<le> \<lfloor>b\<rfloor>" by (rule floor_mono)
  have bounds: "\<lfloor>z\<rfloor> \<le> n z" "n z \<le> \<lfloor>z\<rfloor> + 1" for z by (auto simp: n_def)
  have "n a \<le> n b"
  proof (cases "\<lfloor>a\<rfloor> = \<lfloor>b\<rfloor>")
    case True
    then show ?thesis using ab by (auto simp: n_def)
  next
    case False
    then have "\<lfloor>a\<rfloor> + 1 \<le> \<lfloor>b\<rfloor>" using fl by simp
    then show ?thesis using bounds [of a] bounds [of b] by linarith
  qed
  moreover have "py_round d x = of_int (n a) / 10 ^ d" "py_round d y = of_int (n b) / 10 ^ d"
    by (simp_all add: py_round_def n_def a_def b_def Let_def)
  ultimately show ?thesis by (simp add: divide_right_mono)
qed

lemma percentile_mono:
  assumes "sorted xs" and "p \<le> q" and "q \<le> 1" and "0 < p"
  shows "percentile xs p = None \<and> percentile xs q = None \<or>
    (\<exists>a b. percentile xs p = Some a \<and> percentile xs q = Some b \<and> a \<le> b)"
proof (cases "xs = []")
  case False
  define i where "i r = nat (max 0 (\<lceil>of_nat (length xs) * r\<rceil> - 1))" for r :: rat
  have "of_nat (length xs) * p \<le> of_nat (length xs) * q" using assms(2) by (simp add: mult_left_mono)
  then have "i p \<le> i q" using ceiling_mono [of "of_nat (length xs) * p" "of_nat (length xs) * q"] by (simp add: i_def nat_mono)
  moreover have "of_nat (length xs) * q \<le> of_nat (length xs)"
    using mult_left_mono [OF assms(3), of "of_nat (length xs)"] by simp
  then have "\<lceil>of_nat (length xs) * q\<rceil> \<le> int (length xs)" by (simp add: ceiling_le_iff)
  then have "i q < length xs" using False by (cases xs) (auto simp: i_def)
  ultimately have "xs ! i p \<le> xs ! i q" using assms(1) by (auto intro: sorted_nth_mono)
  then show ?thesis using False by (simp add: percentile_def i_def py_round_mono)
qed (simp add: percentile_def)

lemma disjoint_counts:
  assumes "\<And>x. \<not> (P x \<and> Q x)" and "\<And>x. \<not> (P x \<and> R x)" and "\<And>x. \<not> (Q x \<and> R x)"
  shows "length (filter P xs) + length (filter Q xs) + length (filter R xs) \<le> length xs"
  by (induction xs) (use assms in auto)

text \<open>The report of a load test adds up: succeeded, failed and cancelled users never exceed the
  users, the success rate lies between 0 and 1, and the latency percentiles are ordered.\<close>
theorem summary_consistent:
  assumes "summarize users = Inr s"
  shows "sm_users s = length users \<and> sm_succeeded s + sm_failed s + sm_cancelled s \<le> sm_users s \<and>
    0 \<le> sm_success_rate s \<and> sm_success_rate s \<le> 1 \<and>
    (sm_p50 s = None \<and> sm_p95 s = None \<and> sm_p99 s = None \<or>
     (\<exists>a b c. sm_p50 s = Some a \<and> sm_p95 s = Some b \<and> sm_p99 s = Some c \<and> a \<le> b \<and> b \<le> c))"
proof -
  obtain found starts ends where s: "sm_users s = length users"
    "sm_succeeded s = length (filter (phase_in [''succeeded'']) users)"
    "sm_failed s = length (filter (phase_in [''prepare_failed'', ''failed'', ''timed_out'', ''interrupted'']) users)"
    "sm_cancelled s = length (filter (phase_in [''cancelled'']) users)"
    "sm_success_rate s = (if users \<noteq> [] then of_nat (length (filter (phase_in [''succeeded'']) users)) / of_nat (length users) else 0)"
    "sm_p50 s = percentile (sort found) (1 / 2)" "sm_p95 s = percentile (sort found) (95 / 100)"
    "sm_p99 s = percentile (sort found) (99 / 100)"
    using assms by (auto simp: summarize_def Let_def exc_simps count_if_def)
  have "sm_succeeded s + sm_failed s + sm_cancelled s \<le> sm_users s"
    unfolding s by (rule disjoint_counts) (auto simp: phase_in_def)
  moreover have "0 \<le> sm_success_rate s \<and> sm_success_rate s \<le> 1"
    unfolding s by (auto simp: divide_le_eq)
  moreover have "sm_p50 s = None \<and> sm_p95 s = None \<and> sm_p99 s = None \<or>
     (\<exists>a b c. sm_p50 s = Some a \<and> sm_p95 s = Some b \<and> sm_p99 s = Some c \<and> a \<le> b \<and> b \<le> c)"
    unfolding s using percentile_mono [of "sort found" "1 / 2" "95 / 100"] percentile_mono [of "sort found" "95 / 100" "99 / 100"]
    by auto
  ultimately show ?thesis using s(1) by simp
qed

theorem summary_consistent_witness:
  "\<exists>s. summarize [[(''phase'', JStr ''succeeded''), (''latency_ms'', JInt 30), (''sent_at'', JInt 1), (''finished_at'', JInt 3)],
      [(''phase'', JStr ''failed'')]] = Inr s \<and> sm_succeeded s + sm_failed s + sm_cancelled s \<le> sm_users s"
proof -
  obtain s where s: "summarize [[(''phase'', JStr ''succeeded''), (''latency_ms'', JInt 30), (''sent_at'', JInt 1), (''finished_at'', JInt 3)],
      [(''phase'', JStr ''failed'')]] = Inr s"
    by (simp add: summarize_def phase_in_def jindex_def jget_def dget_def number_def Let_def)
  with summary_consistent [OF s] show ?thesis by blast
qed

section \<open>One test at a time\<close>

definition active_tests :: "ops_db \<Rightarrow> load_row list" where
  "active_tests db = filter (\<lambda>r. lt_status r \<in> set ACTIVE) (load_rows db)"

lemma insert_users_rows:
  "insert_users rows db = Inr db' \<Longrightarrow> load_rows db' = load_rows db \<and> job_rows db' = job_rows db
    \<and> has_load_tests db' = has_load_tests db \<and> load_users db' = load_users db @ rows
    \<and> (unique_key lu_name (load_users db) \<longrightarrow> unique_key lu_name (load_users db'))"
proof (induction rows arbitrary: db)
  case Nil
  then show ?case by (simp add: insert_users_def)
next
  case (Cons r rows)
  let ?d = "db\<lparr>load_users := load_users db @ [r]\<rparr>"
  from Cons.prems have new: "find_row lu_name (lu_name r) (load_users db) = None"
    and rest: "insert_users rows ?d = Inr db'"
    by (auto simp: insert_users_def exc_simps split: if_splits)
  from Cons.IH [OF rest] new show ?case by (auto intro: unique_key_insert)
qed

definition new_load_row :: "load_request \<Rightarrow> string \<Rightarrow> jdict \<Rightarrow> rat \<Rightarrow> load_row" where
  "new_load_row request rid snapshots now = \<lparr>lt_id = rid,
       lt_request_id = lr_request_id request, lt_fingerprint = canonical (dump_request request), lt_status = ''queued'',
       lt_created = now, lt_doc = load_doc rid request snapshots now\<rparr>"

lemma create_test_cases:
  assumes "create_test request catalog token now db = Inr ((rid, True), db')"
  shows "\<exists>snapshots. find_row lt_request_id (lr_request_id request) (load_rows db) = None
    \<and> \<not> list_ex (\<lambda>r. lt_status r \<in> set ACTIVE) (load_rows db)
    \<and> \<not> list_ex (holds_agents (map la_agent (lr_agents request))) (jobs db)
    \<and> rid = ''lt_'' @ token \<and> find_row lt_id rid (load_rows db) = None
    \<and> insert_users (new_users rid (lr_agents request) 0)
        (db\<lparr>load_rows := load_rows db @ [new_load_row request rid snapshots now]\<rparr>) = Inr db'"
  using assms by (auto simp: create_test_def new_load_row_def Let_def exc_simps split: option.splits if_splits)

lemma create_test_created:
  assumes "create_test request catalog token now db = Inr ((rid, True), db')"
  shows "active_tests db = []" "job_rows db' = job_rows db" "has_load_tests db' = has_load_tests db"
    "\<And>r. r \<in> set (job_rows db) \<Longrightarrow> \<not> holds_agents (map la_agent (lr_agents request)) (jb_doc r)"
    "\<exists>snapshots. load_rows db' = load_rows db @ [new_load_row request rid snapshots now]"
    "load_users db' = load_users db @ new_users rid (lr_agents request) 0"
    "find_row lt_request_id (lr_request_id request) (load_rows db) = None"
proof -
  obtain snapshots where a: "find_row lt_request_id (lr_request_id request) (load_rows db) = None"
    "\<not> list_ex (\<lambda>r. lt_status r \<in> set ACTIVE) (load_rows db)"
    "\<not> list_ex (holds_agents (map la_agent (lr_agents request))) (jobs db)"
    and i: "insert_users (new_users rid (lr_agents request) 0)
        (db\<lparr>load_rows := load_rows db @ [new_load_row request rid snapshots now]\<rparr>) = Inr db'"
    using create_test_cases [OF assms] by blast
  note rows = insert_users_rows [OF i]
  show "active_tests db = []" using a(2) by (auto simp: active_tests_def filter_empty_conv list_ex_iff)
  show "\<not> holds_agents (map la_agent (lr_agents request)) (jb_doc r)" if "r \<in> set (job_rows db)" for r
    using a(3) that by (auto simp: list_ex_iff jobs_def)
  show "\<exists>snapshots. load_rows db' = load_rows db @ [new_load_row request rid snapshots now]"
    using rows by (intro exI [of _ snapshots]) simp
  show "job_rows db' = job_rows db" "has_load_tests db' = has_load_tests db"
    "load_users db' = load_users db @ new_users rid (lr_agents request) 0"
    "find_row lt_request_id (lr_request_id request) (load_rows db) = None" using a(1) rows by simp_all
qed

lemma length_new_users:
  "list_all (\<lambda>a. 0 \<le> la_users a) as \<Longrightarrow> length (new_users rid as i) = nat (sum_list (map la_users as))"
proof (induction as arbitrary: i)
  case (Cons a as)
  then have "0 \<le> sum_list (map la_users as)" by (auto simp: list_all_iff intro!: sum_list_nonneg)
  with Cons show ?case by (simp add: nat_add_distrib)
qed simp

lemma load_request_users: "load_request_ok request \<Longrightarrow> list_all (\<lambda>a. 0 \<le> la_users a) (lr_agents request)"
  by (auto simp: load_request_ok_def load_agent_ok_def list_all_iff)

text \<open>Creating a load test keeps at most one of them active: it succeeds only when none is, leaves
  exactly the new one active, with one named user per requested place, and repeated with the same
  request it returns the same test and changes nothing.\<close>
theorem create_test_exclusive:
  assumes "create_test request catalog token now db = Inr ((rid, True), db')" and "load_request_ok request"
    and "unique_key lt_request_id (load_rows db)"
  shows "active_tests db = [] \<and> map lt_id (active_tests db') = [rid] \<and>
    length (load_users db') = length (load_users db) + nat (sum_list (map la_users (lr_agents request))) \<and>
    create_test request catalog' token' now' db' = Inr ((rid, False), db')"
proof -
  note c = create_test_created [OF assms(1)]
  obtain snapshots where rows: "load_rows db' = load_rows db @ [new_load_row request rid snapshots now]" using c(5) by blast
  have "create_test request catalog' token' now' db' = Inr ((rid, False), db')"
    using c(7) by (simp add: create_test_def rows find_row_append new_load_row_def)
  moreover have "length (load_users db') = length (load_users db) + nat (sum_list (map la_users (lr_agents request)))"
    using c(6) length_new_users [OF load_request_users [OF assms(2)]] by simp
  ultimately show ?thesis using c(1) by (simp add: active_tests_def rows ACTIVE_def new_load_row_def)
qed

definition demo_catalog :: json where
  "demo_catalog = JObj [(''agents'', JObj [(''a1'', JObj [(''active'', JInt 1),
     (''versions'', JArr [JObj [(''version'', JInt 1), (''config'', JObj [(''default_model_id'', JStr ''m1'')])]])])])]"

definition demo_request :: load_request where
  "demo_request = \<lparr>lr_request_id = ''request-1'', lr_agents = [\<lparr>la_agent = ''a1'', la_users = 2, la_cpu = 1, la_memory = 1024\<rparr>],
     lr_timeout = 180, lr_prepare_timeout = 120\<rparr>"

lemmas create_test_defs = create_test_def Let_def validate_agents_def agent_snapshot_def demo_catalog_def demo_request_def
  subscript_def attr_get_def jindex_def dget_def selected_config_def insert_users_def user_row_def load_doc_def upt_conv_Cons

lemma demo_create:
  "job_rows db = [] \<Longrightarrow> load_rows db = [] \<Longrightarrow> load_users db = [] \<Longrightarrow>
    \<exists>db'. create_test demo_request demo_catalog ''t1'' 5 db = Inr ((''lt_t1'', True), db')"
  by (simp add: create_test_defs jobs_def user_doc_def)

lemma demo_request_ok: "load_request_ok demo_request"
  by (simp add: load_request_ok_def load_agent_ok_def demo_request_def)

theorem create_test_exclusive_witness:
  "\<exists>db'. create_test demo_request demo_catalog ''t1'' 5 empty_ops = Inr ((''lt_t1'', True), db') \<and>
    map lt_id (active_tests db') = [''lt_t1''] \<and> length (load_users db') = 2"
proof -
  obtain db' where ok: "create_test demo_request demo_catalog ''t1'' 5 empty_ops = Inr ((''lt_t1'', True), db')"
    using demo_create [of empty_ops] by (auto simp: empty_ops_def)
  have "unique_key lt_request_id (load_rows empty_ops)" by (simp add: empty_ops_def)
  from create_test_exclusive [OF ok demo_request_ok this] ok show ?thesis
    by (auto simp: demo_request_def empty_ops_def)
qed

section \<open>Operations and load tests exclude each other\<close>

lemma new_users_agents:
  "list_all (\<lambda>a. 1 \<le> la_users a) as \<Longrightarrow> a \<in> set as \<Longrightarrow> \<exists>u \<in> set (new_users rid as i). lu_agent u = la_agent a \<and> lu_run u = rid"
proof (induction as arbitrary: i)
  case (Cons b as)
  show ?case
  proof (cases "a = b")
    case True
    with Cons.prems have "1 \<le> nat (la_users b)" by auto
    then have "Suc i < Suc i + nat (la_users b)" by linarith
    then have "Suc i \<in> set [Suc i..<Suc i + nat (la_users b)]" by (simp only: set_upt atLeastLessThan_iff order_refl simp_thms)
    then have "user_row rid a (Suc i) \<in> set (new_users rid (b # as) i)"
      unfolding True new_users.simps set_append set_map by blast
    moreover have "lu_agent (user_row rid a (Suc i)) = la_agent a" "lu_run (user_row rid a (Suc i)) = rid"
      by (simp_all add: user_row_def)
    ultimately show ?thesis by blast
  next
    case False
    with Cons.prems have "list_all (\<lambda>a. 1 \<le> la_users a) as" "a \<in> set as" by auto
    from Cons.IH [OF this, of "i + nat (la_users b)"] show ?thesis by auto
  qed
qed simp

lemma load_pins_created:
  assumes "create_test request catalog token now db = Inr ((rid, True), db')" and "load_request_ok request"
    and "scope = ''*'' \<or> scope \<in> la_agent ` set (lr_agents request)"
  shows "load_pins scope db'"
proof -
  obtain snapshots where rows: "load_rows db' = load_rows db @ [new_load_row request rid snapshots now]"
    using create_test_created(5) [OF assms(1)] by blast
  define row where "row = new_load_row request rid snapshots now"
  have row: "row \<in> set (load_rows db')" "lt_id row = rid" "lt_status row = ''queued''"
    by (simp_all add: rows row_def new_load_row_def)
  note users = create_test_created(6) [OF assms(1)]
  show ?thesis
  proof (cases "scope = ''*''")
    case True
    then show ?thesis using row by (auto simp: load_pins_def list_ex_iff ACTIVE_def)
  next
    case False
    with assms(3) obtain a where a: "a \<in> set (lr_agents request)" "scope = la_agent a" by auto
    have "list_all (\<lambda>a. 1 \<le> la_users a) (lr_agents request)"
      using assms(2) by (auto simp: load_request_ok_def load_agent_ok_def list_all_iff)
    from new_users_agents [OF this a(1)] users obtain u where "u \<in> set (load_users db')" "lu_agent u = scope" "lu_run u = rid"
      using a(2) by fastforce
    with row False show ?thesis by (auto simp: load_pins_def list_ex_iff ACTIVE_def)
  qed
qed

text \<open>C12: Neither side is admitted over the other. Where the load tests' tables exist, a new operation is
  admitted on an Agent only if no queued, preparing, running or cancelling load test has a user of that
  Agent and no such user is being cleaned up; on all Agents only if no such load test exists. A new load
  test is admitted only if no queued, running, waiting or applying operation, nor one that needs
  recovery, holds a selected Agent or all Agents, and no other load test is active; from then on it is
  queued and has a user of every selected Agent, which the first check finds. An operation left
  interrupted is not counted by the load tests' check.\<close>
theorem load_tests_and_operations_exclude:
  assumes "load_request_ok request" and "has_load_tests db"
  shows "(submit kind target payload scope0 fv tc db = Inr ((job, True), db1) \<longrightarrow>
      (let scope = if scope0 = [] then target else scope0 in
       (\<forall>r \<in> set (load_rows db). lt_status r \<in> {''queued'', ''preparing'', ''running'', ''cancelling''} \<longrightarrow>
          scope \<noteq> ''*'' \<and> (\<forall>u \<in> set (load_users db). lu_run u = lt_id r \<longrightarrow> lu_agent u \<noteq> scope)) \<and>
       (scope \<noteq> ''*'' \<longrightarrow> (\<forall>r \<in> set (load_rows db). \<forall>u \<in> set (load_users db).
          lu_run u = lt_id r \<and> lu_state u = ''cleaning'' \<longrightarrow> lu_agent u \<noteq> scope)) \<and>
       job_scope job = JStr scope)) \<and>
    (create_test request catalog token now db = Inr ((rid, True), db1) \<longrightarrow>
      (\<forall>j \<in> set (jobs db). jget j ''status'' \<in> JStr ` {''queued'', ''running'', ''waiting'', ''applying'', ''needs_recovery''} \<longrightarrow>
          job_scope j \<notin> JStr ` insert ''*'' (la_agent ` set (lr_agents request))) \<and>
      (\<forall>r \<in> set (load_rows db). lt_status r \<notin> {''queued'', ''preparing'', ''running'', ''cancelling''}) \<and>
      jobs db1 = jobs db \<and> has_load_tests db1 \<and>
      (\<forall>a \<in> set (lr_agents request). \<exists>r \<in> set (load_rows db1). \<exists>u \<in> set (load_users db1).
          lt_id r = rid \<and> lt_status r = ''queued'' \<and> lu_run u = rid \<and> lu_agent u = la_agent a))"
proof (intro conjI impI)
  assume s: "submit kind target payload scope0 fv tc db = Inr ((job, True), db1)"
  define scope where "scope = (if scope0 = [] then target else scope0)"
  have free: "\<not> load_pins scope db" and scoped: "job_scope job = JStr scope"
    using s assms(2) by (auto simp: submit_def Let_def scope_def split: option.splits if_splits)
  have "scope \<noteq> ''*'' \<and> (\<forall>u \<in> set (load_users db). lu_run u = lt_id r \<longrightarrow> lu_agent u \<noteq> scope)"
    if "r \<in> set (load_rows db)" "lt_status r \<in> {''queued'', ''preparing'', ''running'', ''cancelling''}" for r
    using free that by (auto simp: load_pins_def list_ex_iff ACTIVE_def split: if_splits)
  moreover have "lu_agent u \<noteq> scope" if "scope \<noteq> ''*''" "r \<in> set (load_rows db)" "u \<in> set (load_users db)"
    "lu_run u = lt_id r" "lu_state u = ''cleaning''" for r u
    using free that by (auto simp: load_pins_def list_ex_iff)
  ultimately show "let scope = if scope0 = [] then target else scope0 in
       (\<forall>r \<in> set (load_rows db). lt_status r \<in> {''queued'', ''preparing'', ''running'', ''cancelling''} \<longrightarrow>
          scope \<noteq> ''*'' \<and> (\<forall>u \<in> set (load_users db). lu_run u = lt_id r \<longrightarrow> lu_agent u \<noteq> scope)) \<and>
       (scope \<noteq> ''*'' \<longrightarrow> (\<forall>r \<in> set (load_rows db). \<forall>u \<in> set (load_users db).
          lu_run u = lt_id r \<and> lu_state u = ''cleaning'' \<longrightarrow> lu_agent u \<noteq> scope)) \<and>
       job_scope job = JStr scope"
    using scoped unfolding Let_def scope_def by blast
next
  assume c: "create_test request catalog token now db = Inr ((rid, True), db1)"
  note made = create_test_created [OF c]
  show "\<forall>j \<in> set (jobs db). jget j ''status'' \<in> JStr ` {''queued'', ''running'', ''waiting'', ''applying'', ''needs_recovery''} \<longrightarrow>
      job_scope j \<notin> JStr ` insert ''*'' (la_agent ` set (lr_agents request))"
  proof (intro ballI impI)
    fix j assume j: "j \<in> set (jobs db)"
      "jget j ''status'' \<in> JStr ` {''queued'', ''running'', ''waiting'', ''applying'', ''needs_recovery''}"
    then have "\<not> holds_agents (map la_agent (lr_agents request)) j" using made(4) by (auto simp: jobs_def)
    moreover have "status_in j HELD" using j(2) by (auto simp: status_in_def HELD_def)
    ultimately show "job_scope j \<notin> JStr ` insert ''*'' (la_agent ` set (lr_agents request))"
      by (auto simp: holds_agents_def)
  qed
  show "\<forall>r \<in> set (load_rows db). lt_status r \<notin> {''queued'', ''preparing'', ''running'', ''cancelling''}"
    using made(1) by (auto simp: active_tests_def filter_empty_conv ACTIVE_def)
  show "jobs db1 = jobs db" "has_load_tests db1" using made(2,3) assms(2) by (simp_all add: jobs_def)
  show "\<forall>a \<in> set (lr_agents request). \<exists>r \<in> set (load_rows db1). \<exists>u \<in> set (load_users db1).
      lt_id r = rid \<and> lt_status r = ''queued'' \<and> lu_run u = rid \<and> lu_agent u = la_agent a"
  proof
    fix a assume a: "a \<in> set (lr_agents request)"
    obtain snapshots where rows: "load_rows db1 = load_rows db @ [new_load_row request rid snapshots now]"
      using made(5) by blast
    have "list_all (\<lambda>a. 1 \<le> la_users a) (lr_agents request)"
      using assms(1) by (auto simp: load_request_ok_def load_agent_ok_def list_all_iff)
    from new_users_agents [OF this a] made(6) show "\<exists>r \<in> set (load_rows db1). \<exists>u \<in> set (load_users db1).
      lt_id r = rid \<and> lt_status r = ''queued'' \<and> lu_run u = rid \<and> lu_agent u = la_agent a"
      by (fastforce simp: rows new_load_row_def)
  qed
qed

theorem load_tests_and_operations_exclude_witness:
  "\<exists>db1. create_test demo_request demo_catalog ''t1'' 5 (empty_ops\<lparr>has_load_tests := True\<rparr>) = Inr ((''lt_t1'', True), db1) \<and>
     (\<exists>u \<in> set (load_users db1). lu_agent u = ''a1'') \<and>
     (\<forall>job db2. submit ''agent.archive'' ''a1'' sample_payload ''a1'' (sample_fresh ''j1'') no_trace db1 \<noteq> Inr ((job, True), db2))"
proof -
  obtain db1 where ok: "create_test demo_request demo_catalog ''t1'' 5 (empty_ops\<lparr>has_load_tests := True\<rparr>) = Inr ((''lt_t1'', True), db1)"
    using demo_create [of "empty_ops\<lparr>has_load_tests := True\<rparr>"] by (auto simp: empty_ops_def)
  note both = load_tests_and_operations_exclude [OF demo_request_ok]
  have made: "has_load_tests db1" "\<exists>r \<in> set (load_rows db1). \<exists>u \<in> set (load_users db1).
      lt_id r = ''lt_t1'' \<and> lt_status r = ''queued'' \<and> lu_run u = ''lt_t1'' \<and> lu_agent u = ''a1''"
    using conjunct2 [OF both, of "empty_ops\<lparr>has_load_tests := True\<rparr>" demo_catalog "''t1''" 5 "''lt_t1''" db1] ok
    by (simp_all add: demo_request_def)
  from conjunct1 [OF both [OF made(1)], of "''agent.archive''" "''a1''" sample_payload "''a1''" "sample_fresh ''j1''" no_trace]
  have "submit ''agent.archive'' ''a1'' sample_payload ''a1'' (sample_fresh ''j1'') no_trace db1 \<noteq> Inr ((job, True), db2)" for job db2
    using made(2) by (fastforce simp: Let_def)
  with ok made(2) show ?thesis by blast
qed

section \<open>Restart\<close>

definition at_rest :: "load_row \<Rightarrow> bool" where
  "at_rest r \<longleftrightarrow> lt_status r \<notin> set ACTIVE \<and> jget (lt_doc r) ''cleanup_status'' \<noteq> JStr ''cleaning''"

lemma writing_Inr: "writing f db = (Inr u, db') \<longleftrightarrow> f db = Inr db'"
  by (auto simp: writing_def split: sum.splits)

lemmas sx_Inr_simps = sx_outcome_simps writing_Inr

lemma interrupt_users_rows:
  "sx_for (interrupt_user now) users db = (Inr (), db') \<Longrightarrow> load_rows db' = load_rows db"
  by (induction users arbitrary: db)
    (auto simp: sx_Inr_simps interrupt_user_def update_user_def split: if_splits)

lemma update_test_find:
  assumes "update_test rid status values db = Inr db'"
  shows "find_row lt_id k (load_rows db') = (if k = rid then map_option (set_load_row (status, values)) (find_row lt_id rid (load_rows db))
      else find_row lt_id k (load_rows db))" "map lt_id (load_rows db') = map lt_id (load_rows db)"
  using assms load_update.key_upd by (auto simp: update_test_def load_update.lookup_update map_update_rows split: if_splits)

lemma set_load_row_simps:
  "lt_status (set_load_row (Some st, v) r) = st" "lt_status (set_load_row (None, v) r) = lt_status r"
  "k \<notin> fst ` set v \<Longrightarrow> jget (lt_doc (set_load_row (s, v) r)) k = jget (lt_doc r) k"
  "jget (lt_doc (set_load_row (s, (k, x) # v) r)) k = x \<or> k \<in> fst ` set v"
proof -
  show "lt_status (set_load_row (Some st, v) r) = st" "lt_status (set_load_row (None, v) r) = lt_status r"
    by (simp_all add: set_load_row_def)
  show "jget (lt_doc (set_load_row (s, v) r)) k = jget (lt_doc r) k" if "k \<notin> fst ` set v"
    using dupdate_other [OF that] by (simp add: set_load_row_def jget_def dget_def)
  show "jget (lt_doc (set_load_row (s, (k, x) # v) r)) k = x \<or> k \<in> fst ` set v"
    using dupdate_other [of k v "dput k x (lt_doc r)"] by (auto simp: set_load_row_def jget_def dget_def dupdate_def)
qed

lemma recover_test_row:
  assumes "recover_test now rid db = (Inr (), db')"
  shows "(\<forall>k. k \<noteq> rid \<longrightarrow> find_row lt_id k (load_rows db') = find_row lt_id k (load_rows db))
    \<and> (\<exists>row. find_row lt_id rid (load_rows db') = Some row \<and> at_rest row)
    \<and> map lt_id (load_rows db') = map lt_id (load_rows db)"
proof -
  obtain report where rep: "get_test rid db = Inr report"
    using assms by (auto simp: recover_test_def sx_Inr_simps)
  then obtain row where row: "find_row lt_id rid (load_rows db) = Some row"
    and st: "jget (rp_doc report) ''status'' = JStr (lt_status row)"
    and cl: "jget (rp_doc report) ''cleanup_status'' = jget (lt_doc row) ''cleanup_status''"
    by (auto simp: get_test_def Let_def exc_simps split: option.splits)
  obtain db1 where first: "\<And>k. find_row lt_id k (load_rows db1) =
      (if k = rid then Some (if lt_status row \<in> set ACTIVE then set_load_row (Some ''interrupted'', [(''finished_at'', JFloat now),
          (''error'', JStr ''Controller restarted; requests were not replayed'')]) row else row)
       else find_row lt_id k (load_rows db))"
    and ids: "map lt_id (load_rows db1) = map lt_id (load_rows db)"
    and second: "(if jget (lt_doc row) ''cleanup_status'' = JStr ''cleaning''
       then writing (update_test rid None [(''cleanup_status'', JStr ''failed''),
          (''cleanup_error'', JStr ''Controller restarted; retry cleanup'')]) else sx_return ()) db1 = (Inr (), db')"
  proof (cases "lt_status row \<in> set ACTIVE")
    case True
    then obtain d where u: "update_test rid (Some ''interrupted'') [(''finished_at'', JFloat now),
          (''error'', JStr ''Controller restarted; requests were not replayed'')] db = Inr d"
      and "\<exists>d1. sx_for (interrupt_user now) (rp_users report) d = (Inr (), d1) \<and>
        (if jget (lt_doc row) ''cleanup_status'' = JStr ''cleaning''
         then writing (update_test rid None [(''cleanup_status'', JStr ''failed''),
            (''cleanup_error'', JStr ''Controller restarted; retry cleanup'')]) else sx_return ()) d1 = (Inr (), db')"
      using assms rep st cl by (auto simp: recover_test_def sx_Inr_simps simp del: fun_upd_apply)
    then obtain d1 where "load_rows d1 = load_rows d"
      "(if jget (lt_doc row) ''cleanup_status'' = JStr ''cleaning''
         then writing (update_test rid None [(''cleanup_status'', JStr ''failed''),
            (''cleanup_error'', JStr ''Controller restarted; retry cleanup'')]) else sx_return ()) d1 = (Inr (), db')"
      using interrupt_users_rows by blast
    then show ?thesis using that [of d1] update_test_find [OF u] True row by simp
  next
    case False
    show ?thesis
    proof (rule that [of db])
      show "(if jget (lt_doc row) ''cleanup_status'' = JStr ''cleaning''
         then writing (update_test rid None [(''cleanup_status'', JStr ''failed''),
            (''cleanup_error'', JStr ''Controller restarted; retry cleanup'')]) else sx_return ()) db = (Inr (), db')"
      proof -
        have "JStr (lt_status row) \<notin> JStr ` set ACTIVE" using False by auto
        then show ?thesis using assms rep st cl by (auto simp: recover_test_def sx_then_Inr sx_bind_Inr sx_lift_Inr sx_return_Inr)
      qed
    qed (use False row in auto)
  qed
  have notin: "''interrupted'' \<notin> set ACTIVE" by (simp add: ACTIVE_def)
  show ?thesis
  proof (cases "jget (lt_doc row) ''cleanup_status'' = JStr ''cleaning''")
    case True
    with second have u: "update_test rid None [(''cleanup_status'', JStr ''failed''),
          (''cleanup_error'', JStr ''Controller restarted; retry cleanup'')] db1 = Inr db'" by (simp add: writing_Inr)
    show ?thesis using update_test_find [OF u] first ids notin set_load_row_simps(4) [of None "''cleanup_status''" "JStr ''failed''"
        "[(''cleanup_error'', JStr ''Controller restarted; retry cleanup'')]"]
      by (auto simp: at_rest_def set_load_row_simps(1,2))
  next
    case False
    with second have "db' = db1" by (simp add: sx_return_Inr)
    then show ?thesis using first ids notin False by (auto simp: at_rest_def set_load_row_simps)
  qed
qed

lemma recover_all_rows:
  assumes "sx_for (recover_test now) ids db = (Inr (), db')"
  shows "map lt_id (load_rows db') = map lt_id (load_rows db)
    \<and> (\<forall>k \<in> set ids. \<exists>row. find_row lt_id k (load_rows db') = Some row \<and> at_rest row)
    \<and> (\<forall>k. k \<notin> set ids \<longrightarrow> find_row lt_id k (load_rows db') = find_row lt_id k (load_rows db))"
  using assms
proof (induction ids arbitrary: db)
  case Nil
  then show ?case by (simp add: sx_return_Inr)
next
  case (Cons rid ids)
  then obtain d where d: "recover_test now rid db = (Inr (), d)" "sx_for (recover_test now) ids d = (Inr (), db')"
    by (auto simp: sx_then_Inr)
  from Cons.IH [OF d(2)] recover_test_row [OF d(1)] show ?case by (cases "rid \<in> set ids") auto
qed

text \<open>After a recovery at startup that did not fail, no load test is running and none is being
  cleaned up, so that users can be cleaned and a new test can start.\<close>
theorem recovery_leaves_tests_at_rest:
  assumes "recover_tests now db = (Inr (), db')" and "unique_key lt_id (load_rows db)"
  shows "active_tests db' = [] \<and> (\<forall>r \<in> set (load_rows db'). jget (lt_doc r) ''cleanup_status'' \<noteq> JStr ''cleaning'')"
proof -
  note all = recover_all_rows [OF assms(1) [unfolded recover_tests_def]]
  have "at_rest r" if "r \<in> set (load_rows db')" for r
  proof -
    have "unique_key lt_id (load_rows db')" using all assms(2) by (simp add: unique_key_def)
    then have "find_row lt_id (lt_id r) (load_rows db') = Some r" by (rule find_row_unique [OF _ that]) simp
    moreover have "lt_id r \<in> set (map lt_id (load_rows db'))" using that by simp
    then have "lt_id r \<in> set (map lt_id (load_rows db))" using all by simp
    ultimately show ?thesis using all by auto
  qed
  then show ?thesis by (auto simp: active_tests_def at_rest_def filter_empty_conv)
qed

definition demo_running :: ops_db where
  "demo_running = empty_ops\<lparr>load_rows := [\<lparr>lt_id = ''lt_t1'', lt_request_id = ''request-1'', lt_fingerprint = JNull,
     lt_status = ''running'', lt_created = 1, lt_doc = [(''cleanup_status'', JStr ''cleaning'')]\<rparr>],
     load_users := [\<lparr>lu_name = ''loadtest-t1-1'', lu_agent = ''a1'', lu_run = ''lt_t1'', lu_state = ''retained'',
     lu_doc = [(''username'', JStr ''loadtest-t1-1''), (''phase'', JStr ''running'')]\<rparr>]\<rparr>"

theorem recovery_leaves_tests_at_rest_witness:
  "\<exists>db'. recover_tests 9 demo_running = (Inr (), db') \<and> active_tests db' = []"
proof -
  obtain db' where ok: "recover_tests 9 demo_running = (Inr (), db')"
    by (simp add: demo_running_def recover_tests_def recover_test_def sx_step_defs get_test_def report_users_def user_view_def
        summarize_def phase_in_def jget_def dget_def Let_def ACTIVE_def writing_def update_test_def interrupt_user_def
        OPEN_PHASES_def update_user_def update_rows_def set_load_row_def number_def dkeys_def)
  have "unique_key lt_id (load_rows demo_running)" by (simp add: demo_running_def unique_key_def)
  from recovery_leaves_tests_at_rest [OF ok this] ok show ?thesis by blast
qed

text \<open>A load test starts although an interrupted operation still holds the selected Agent: the
  operation side counts such a job as holding its target, the load-test side does not.\<close>
theorem load_test_ignores_interrupted:
  "\<exists>db db' job. has_load_tests db \<and> job \<in> set (jobs db) \<and> jget job ''status'' = JStr ''interrupted'' \<and>
     holds_scope (JStr ''a1'') job \<and>
     create_test demo_request demo_catalog ''t1'' 5 db = Inr ((''lt_t1'', True), db') \<and>
     (\<forall>kind fv. submit kind ''a1'' sample_payload ''a1'' fv no_trace db
        = Inl (HTTPException 409 ''An operation already holds this target''))"
proof -
  let ?job = "[(''id'', JStr ''j1''), (''target'', JStr ''a1''), (''scope'', JStr ''a1''), (''status'', JStr ''interrupted'')]"
  let ?db = "empty_ops\<lparr>job_rows := [\<lparr>jb_id = ''j1'', jb_request_id = ''q1'', jb_target = ''a1'', jb_doc = ?job\<rparr>], has_load_tests := True\<rparr>"
  have hold: "holds_scope (JStr ''a1'') ?job"
    by (simp add: holds_scope_def status_in_def HOLDING_def job_scope_def jget_def dget_def)
  have "\<exists>db'. create_test demo_request demo_catalog ''t1'' 5 ?db = Inr ((''lt_t1'', True), db')"
    by (simp add: create_test_defs empty_ops_def jobs_def user_doc_def holds_agents_def status_in_def HELD_def jget_def)
  moreover have "submit kind ''a1'' sample_payload ''a1'' fv no_trace ?db
        = Inl (HTTPException 409 ''An operation already holds this target'')" for kind fv
    using hold by (simp add: submit_def empty_ops_def Let_def jobs_def sample_payload_def load_pins_def jget_def dget_def)
  moreover have "?job \<in> set (jobs ?db)" "jget ?job ''status'' = JStr ''interrupted''" "has_load_tests ?db"
    by (simp_all add: jobs_def jget_def dget_def)
  ultimately show ?thesis using hold by blast
qed

text \<open>A crash between the two writes that end a user's request leaves a report the service cannot
  start with: the recovery at startup fails on a succeeded user that has no latency yet.\<close>
theorem recovery_blocked_by_partial_report:
  "\<exists>db. fst (recover_tests 9 db) = Inl (KeyError ''latency_ms'') \<and> snd (recover_tests 9 db) = db \<and>
     active_tests db \<noteq> []"
proof -
  let ?u = "\<lparr>lu_name = ''loadtest-t1-1'', lu_agent = ''a1'', lu_run = ''lt_t1'', lu_state = ''retained'',
     lu_doc = [(''username'', JStr ''loadtest-t1-1''), (''phase'', JStr ''succeeded''), (''sent_at'', JInt 1)]\<rparr>"
  let ?db = "empty_ops\<lparr>load_rows := [\<lparr>lt_id = ''lt_t1'', lt_request_id = ''request-1'', lt_fingerprint = JNull,
     lt_status = ''running'', lt_created = 1, lt_doc = [(''cleanup_status'', JStr ''retained'')]\<rparr>], load_users := [?u]\<rparr>"
  have "recover_tests 9 ?db = (Inl (KeyError ''latency_ms''), ?db)"
    by (simp add: recover_tests_def recover_test_def sx_step_defs get_test_def report_users_def user_view_def
        summarize_def phase_in_def jindex_def jget_def dget_def Let_def)
  moreover have "active_tests ?db \<noteq> []" by (simp add: active_tests_def ACTIVE_def)
  ultimately show ?thesis by (metis fst_conv snd_conv)
qed

end
