(* ===== verification/OpsApi.thy ===== *)
theory OpsApi
  imports LoadTests WorkflowOrder
begin

text \<open>
  The endpoints of \<open>operations/main.py\<close> that decide who may do what: submission with its
  previews, cancellation, reconciliation of an interrupted job, the restart of the service, and
  the admission checks the file service and the sandbox manager ask for. A fingerprint is the
  canonical value it digests; \<open>digest\<close> stands for the SHA-256 hex digest that names a
  sandbox. The three calls of \<open>asyncio.gather\<close> are made in turn.
\<close>

type_synonym 'a api = "(ops_world, 'a) sx"

definition now :: "environment \<Rightarrow> rat api" where
  "now env = (\<lambda>s. (Inr (env_clock env (w_sent s)), s))"

definition agent_url :: "string \<Rightarrow> string \<Rightarrow> string" where
  "agent_url aid name = ''/internal/v1/agents/'' @ aid @ ''/'' @ name"

definition sandbox_url :: "string \<Rightarrow> string" where
  "sandbox_url sid = ''/internal/v1/sandboxes/'' @ sid"

definition raise_when :: "bool \<Rightarrow> exc \<Rightarrow> ('s, unit) sx" where
  "raise_when c e = (if c then sx_raise e else sx_return ())"

section \<open>Reconciliation\<close>

text \<open>\<open>str(a) == str(b)\<close>: a number equals its decimal text.\<close>

definition dec_int :: "int \<Rightarrow> string" where
  "dec_int i = (if i < 0 then ''-'' @ dec_nat (nat (- i)) else dec_nat (nat i))"

definition simple_text :: "json \<Rightarrow> string option" where
  "simple_text v = (case v of JStr s \<Rightarrow> Some s | JInt i \<Rightarrow> Some (dec_int i) | JNull \<Rightarrow> Some ''None''
     | JBool b \<Rightarrow> Some (if b then ''True'' else ''False'') | _ \<Rightarrow> None)"

definition same_text :: "json \<Rightarrow> json \<Rightarrow> bool" where
  "same_text a b \<longleftrightarrow> (case (simple_text a, simple_text b) of (Some s, Some t) \<Rightarrow> s = t | _ \<Rightarrow> a = b)"

definition observed_release :: "environment \<Rightarrow> jdict \<Rightarrow> json \<Rightarrow> bool api" where
  "observed_release env job release =
    (if kind_of job = ''models.apply''
     then sx_bind (call env ''model_gateway'' ''/internal/v1/config/status'' None) (\<lambda>observed.
       sx_bind (sx_of_res (attr_get observed ''ready'' JNull)) (\<lambda>ready.
       if \<not> truthy ready then sx_return False
       else sx_bind (sx_of_res (subscript release ''release_id'')) (\<lambda>rid.
         sx_return (jget (obj_of observed) ''release_id'' = rid))))
     else sx_bind (call env ''sandbox_manager'' (agent_url (target_of job) ''application-status'') None) (\<lambda>observed.
       sx_bind (sx_of_res (attr_get observed ''verified'' JNull)) (\<lambda>verified.
       if \<not> truthy verified then sx_return False
       else sx_bind (sx_of_res (subscript release ''version'')) (\<lambda>version.
         sx_return (same_text (jget (obj_of observed) ''version'') version)))))"

definition resume_call :: "environment \<Rightarrow> jdict \<Rightarrow> string \<Rightarrow> json api" where
  "resume_call env job request_id = call env ''sandbox_manager'' (agent_actions job)
     (Some (JObj [(''action'', JStr ''resume''), (''request_id'', JStr (request_id @ '':resume''))]))"

definition reconcile_release :: "environment \<Rightarrow> jdict \<Rightarrow> string \<Rightarrow> json api" where
  "reconcile_release env job request_id =
    sx_bind (sx_of_res (as_str (jget job ''release_id''))) (\<lambda>rid.
    sx_bind (call env ''catalog_service'' (''/internal/v1/releases/'' @ rid) None) (\<lambda>release.
    sx_bind (sx_of_res (attr_get release ''committed'' JNull)) (\<lambda>committed.
    sx_bind
      (if \<not> truthy committed
       then sx_bind (observed_release env job release) (\<lambda>verified.
         sx_then (raise_when (\<not> verified)
           (HTTPException 409 ''Applied version is not verified; inspect execution service before reconciliation''))
         (sx_bind (sx_of_res (ebind (subscript release ''release_id'') as_str)) (\<lambda>rid1.
          call env ''catalog_service'' (''/internal/v1/releases/'' @ rid1 @ ''/commit'') (Some (JObj [])))))
       else sx_bind (sx_of_res (subscript release ''version'')) (\<lambda>version. sx_return (JObj [(''version'', version)]))) (\<lambda>result.
    sx_then (resume_call env job request_id) (sx_return result)))))"

definition desired_status :: "jdict \<Rightarrow> string" where
  "desired_status job = (if kind_of job = ''sandbox.destroy'' then ''destroyed''
     else if kind_of job = ''sandbox.stop'' then ''stopped'' else ''ready'')"

definition reconcile_sandbox :: "environment \<Rightarrow> jdict \<Rightarrow> json api" where
  "reconcile_sandbox env job =
    sx_bind (call env ''sandbox_manager'' (sandbox_url (target_of job)) None) (\<lambda>observed.
    sx_bind (sx_of_res (attr_get observed ''status'' JNull)) (\<lambda>status.
    let desired = desired_status job; container = jget (obj_of observed) ''container_id'' in
    sx_then (raise_when (status \<noteq> JStr desired) (HTTPException 409 ''Observed sandbox does not match requested state''))
    (sx_then (raise_when (desired = ''destroyed'' \<and> truthy container)
       (HTTPException 409 ''Container removal has not been confirmed''))
    (sx_then (raise_when (kind_of job \<in> {''sandbox.restart'', ''sandbox.recover''} \<and>
         container = jget (obj_of (dget job ''before'' (JObj []))) ''container_id'')
       (HTTPException 409 ''A replacement container has not been observed''))
    (sx_then (store_state (''desired:'' @ target_of job)
       (JObj [(''state'', JStr (if desired = ''destroyed'' then ''on_demand''
                                else if desired = ''stopped'' then ''stopped'' else ''running''))]))
     (sx_return (JObj [(''sandbox_id'', jget job ''target''), (''observed'', JStr desired)])))))))"

definition reconcile_deletion :: "environment \<Rightarrow> jdict \<Rightarrow> string \<Rightarrow> json api" where
  "reconcile_deletion env job request_id =
    sx_bind (sx_catch
        (sx_then (call env ''catalog_service'' (agent_url (target_of job) ''deletion-impact'') None) (sx_return True))
        (\<lambda>e. case e of HTTPException status _ \<Rightarrow> if status \<noteq> 404 then None else Some (sx_return False) | _ \<Rightarrow> None)) (\<lambda>found.
    sx_then (raise_when found (HTTPException 409 ''Agent deletion is incomplete; review remaining deletion impact''))
    (sx_bind (call env ''sandbox_manager'' (agent_url (target_of job) ''deletion-impact'') None) (\<lambda>sandbox.
    sx_bind (call env ''file_service'' (agent_url (target_of job) ''deletion-impact'') None) (\<lambda>files.
    sx_bind (sx_of_res (attr_get sandbox ''sandboxes'' JNull)) (\<lambda>sandboxes.
    sx_bind (if truthy sandboxes \<or> truthy (jget (obj_of sandbox) ''sessions'') then sx_return True
             else sx_bind (sx_of_res (attr_get files ''files'' JNull)) (\<lambda>n. sx_return (truthy n))) (\<lambda>remains.
    sx_then (raise_when remains (HTTPException 409 ''Owned data remains after deletion''))
    (sx_then (resume_call env job request_id) (sx_return (JObj [(''deleted'', JBool True)])))))))))"

definition reconcile_evidence :: "environment \<Rightarrow> jdict \<Rightarrow> string \<Rightarrow> json api" where
  "reconcile_evidence env job request_id =
    (if truthy (jget job ''release_id'') then reconcile_release env job request_id
     else if starts_with (kind_of job) ''sandbox.'' then reconcile_sandbox env job
     else if kind_of job = ''agent.delete'' then reconcile_deletion env job request_id
     else sx_raise (HTTPException 409 ''No completed execution evidence exists for this job''))"

definition reconcile_job :: "environment \<Rightarrow> string \<Rightarrow> string \<Rightarrow> unit api" where
  "reconcile_job env jid request_id =
    sx_bind (store_get jid) (\<lambda>job.
      if jget job ''status'' = JStr ''succeeded'' then sx_return ()
      else if \<not> status_in job [''needs_recovery'', ''interrupted'', ''failed'']
      then sx_raise (HTTPException 409 ''Job is not awaiting reconciliation'')
      else sx_bind (reconcile_evidence env job request_id) (\<lambda>result.
        sx_then (store_update env jid [(''status'', JStr ''succeeded''), (''checkpoint'', JStr ''complete''),
           (''result'', result), (''reconciled'', JBool True)]) (sx_return ())))"

section \<open>Restart and cancellation\<close>

definition restart_job :: "environment \<Rightarrow> jdict \<Rightarrow> (ops_world, string list) sx" where
  "restart_job env job =
    (let jid = str_of (jget job ''id'') in
     if status_in job [''running'', ''waiting'', ''applying'']
     then sx_then (store_update env jid [(''status'', JStr ''needs_recovery''),
        (''error'', JStr ''Service restarted; inspect checkpoint before retry'')]) (sx_return [])
     else if jget job ''status'' = JStr ''queued'' then sx_return [jid] else sx_return [])"

text \<open>The part of \<open>lifespan\<close> before the service answers: the jobs it spawns.\<close>

definition restart_jobs :: "environment \<Rightarrow> string list api" where
  "restart_jobs env = (\<lambda>s. sx_bind (sx_map (restart_job env) (jobs (w_db s))) (\<lambda>ids. sx_return (concat ids)) s)"

definition on_db :: "(ops_db, 'a) sx \<Rightarrow> 'a api" where
  "on_db m = (\<lambda>s. case m (w_db s) of (r, db) \<Rightarrow> (r, s\<lparr>w_db := db\<rparr>))"

definition restart :: "environment \<Rightarrow> string list api" where
  "restart env = sx_bind (now env) (\<lambda>t. sx_then (on_db (recover_tests t)) (restart_jobs env))"

definition CANCELLABLE :: "string list" where
  "CANCELLABLE = [''queued'', ''running'', ''waiting'', ''cancelled'']"

definition cancel_job :: "environment \<Rightarrow> string \<Rightarrow> jdict api" where
  "cancel_job env jid =
    sx_bind (store_get jid) (\<lambda>j.
      sx_then (raise_when (\<not> status_in j CANCELLABLE \<or> jget j ''kind'' = JStr ''agent.delete'')
        (HTTPException 409 ''Job cannot be cancelled at this checkpoint''))
      (store_transition env jid CANCELLABLE [(''status'', JStr ''cancelled'')]))"

section \<open>Submission\<close>

definition deletion_impact :: "environment \<Rightarrow> string \<Rightarrow> jdict api" where
  "deletion_impact env aid =
    sx_bind (call env ''catalog_service'' (agent_url aid ''deletion-impact'') None) (\<lambda>catalog.
    sx_bind (call env ''sandbox_manager'' (agent_url aid ''deletion-impact'') None) (\<lambda>sandbox.
    sx_bind (call env ''file_service'' (agent_url aid ''deletion-impact'') None) (\<lambda>files.
    sx_bind (sx_of_res (if is_JObj catalog then Inr (obj_of catalog) else Inl (TypeError ''object is not a mapping''))) (\<lambda>own.
    sx_bind (sx_of_res (attr_get sandbox ''sandboxes'' (JArr []))) (\<lambda>sandboxes.
    sx_bind (sx_of_res (attr_get files ''files'' (JInt 0))) (\<lambda>file_count.
    let impacts = JObj [(''catalog'', catalog), (''sandbox'', sandbox), (''files'', files)] in
    sx_return (dupdate own [(''sandboxes'', sandboxes), (''sessions'', dget (obj_of sandbox) ''sessions'' (JInt 0)),
      (''files'', file_count), (''bytes'', dget (obj_of files) ''bytes'' (JInt 0)),
      (''fingerprint'', canonical impacts), (''service_impacts'', impacts),
      (''warning'', JStr ''Permanently deletes Agent configuration history, sessions, workspace and private resources. Global resources are retained.'')])))))))"

definition same_request :: "string \<Rightarrow> string \<Rightarrow> jdict \<Rightarrow> jdict \<Rightarrow> bool" where
  "same_request kind target payload existing \<longleftrightarrow>
     jget existing ''kind'' = JStr kind \<and> jget existing ''target'' = JStr target \<and>
     json_eq (dget existing ''original_input'' (let p = jget existing ''payload'' in dget (obj_of p) ''_input'' p)) (JObj payload)"

text \<open>The first job with the request id, if any.\<close>

definition existing_request :: "jdict \<Rightarrow> ops_db \<Rightarrow> jdict option" where
  "existing_request payload db =
    (if truthy (jget payload ''request_id'')
     then find (\<lambda>j. jget j ''request_id'' = jget payload ''request_id'') (jobs db) else None)"

text \<open>A preview that is missing, of another resource, expired or not confirmed.\<close>

definition stale_preview :: "json \<Rightarrow> string \<Rightarrow> string \<Rightarrow> rat \<Rightarrow> jdict \<Rightarrow> bool res" where
  "stale_preview preview field target t payload =
    (if \<not> truthy preview then Inr True
     else ebind (subscript preview field) (\<lambda>owner.
       if owner \<noteq> JStr target then Inr True
       else ebind (subscript preview ''expires'') (\<lambda>expires.
         ebind (number expires) (\<lambda>e. Inr (e < t \<or> jget payload ''confirmation'' \<noteq> JStr target)))))"

definition check_force :: "environment \<Rightarrow> string \<Rightarrow> string \<Rightarrow> jdict \<Rightarrow> jdict api" where
  "check_force env kind target payload =
    (if starts_with kind ''sandbox.'' \<and> truthy (jget payload ''force_preview_id'')
     then sx_bind (sx_of_res (as_str (jget payload ''force_preview_id''))) (\<lambda>pid.
       sx_bind (now env) (\<lambda>t. sx_bind sx_get (\<lambda>s.
       sx_bind (sx_of_res (stale_preview (get_state (''force:'' @ pid) (w_db s)) ''sandbox_id'' target t payload)) (\<lambda>stale.
       if stale then sx_raise (HTTPException 409 ''Force operation needs a current preview and exact sandbox ID confirmation'')
       else sx_return (dupdate payload [(''force'', JBool True), (''preview_id'', JStr pid), (''_input'', JObj payload)])))))
     else sx_return payload)"

definition deletion_input :: "jdict \<Rightarrow> jdict \<Rightarrow> jdict \<Rightarrow> jdict" where
  "deletion_input payload original current =
    dupdate payload [(''service_impacts'', jget current ''service_impacts''), (''_input'', JObj original)]"

definition check_deletion :: "environment \<Rightarrow> string \<Rightarrow> string \<Rightarrow> jdict \<Rightarrow> jdict \<Rightarrow> jdict api" where
  "check_deletion env kind target original payload =
    (if kind = ''agent.delete''
     then sx_bind (sx_of_res (as_str (dget payload ''preview_id'' (JStr [])))) (\<lambda>pid.
       sx_bind (now env) (\<lambda>t. sx_bind sx_get (\<lambda>s.
       let preview = get_state (''preview:'' @ pid) (w_db s) in
       sx_bind (sx_of_res (stale_preview preview ''agent_id'' target t payload)) (\<lambda>stale.
       sx_then (raise_when stale (HTTPException 409 ''Fresh deletion preview and exact Agent ID confirmation required''))
       (sx_bind (deletion_impact env target) (\<lambda>current.
        sx_bind (sx_of_res (subscript preview ''fingerprint'')) (\<lambda>print.
        sx_then (raise_when (jget current ''fingerprint'' \<noteq> print) (HTTPException 409 ''Deletion impact changed; preview again''))
        (sx_bind (sx_of_res (jindex current ''lifecycle'')) (\<lambda>lifecycle.
         sx_then (raise_when (lifecycle \<notin> {JStr ''archived'', JStr ''deleting''})
           (HTTPException 409 ''Archive the Agent before permanent deletion''))
         (sx_return (deletion_input payload original current)))))))))))
     else if kind = ''agent.delete-empty''
     then sx_bind (deletion_impact env target) (\<lambda>current.
       sx_then (raise_when (truthy (jget current ''sandboxes'') \<or> truthy (jget current ''sessions'') \<or> truthy (jget current ''files''))
         (HTTPException 409 ''Agent has runtime data; archive and use permanent deletion''))
       (sx_return (deletion_input payload original current)))
     else sx_return payload)"

definition before_values :: "json \<Rightarrow> json" where
  "before_values before = JObj (map (\<lambda>k. (k, jget (obj_of before) k)) [''container_id'', ''activity_generation'', ''status''])"

definition on_submit :: "string \<Rightarrow> string \<Rightarrow> jdict \<Rightarrow> string \<Rightarrow> fresh_values \<Rightarrow> trace_context \<Rightarrow> (jdict \<times> bool) api" where
  "on_submit kind target payload scope fv tc = (\<lambda>s. case submit kind target payload scope fv tc (w_db s) of
     Inl e \<Rightarrow> (Inl e, s) | Inr (x, db) \<Rightarrow> (Inr x, s\<lparr>w_db := db\<rparr>))"

text \<open>The result is the job's id and whether a run of it is spawned.\<close>

definition submit_operation ::
  "environment \<Rightarrow> fresh_values \<Rightarrow> trace_context \<Rightarrow> string \<Rightarrow> string \<Rightarrow> jdict \<Rightarrow> (json \<times> bool) api" where
  "submit_operation env fv tc kind target payload =
    sx_bind sx_get (\<lambda>s0. case existing_request payload (w_db s0) of
      Some existing \<Rightarrow>
        sx_then (raise_when (\<not> same_request kind target payload existing)
          (HTTPException 409 ''Request ID already used with different operation''))
        (sx_return (jget existing ''id'', False))
    | None \<Rightarrow>
        sx_bind (check_force env kind target payload) (\<lambda>payload1.
        sx_bind (check_deletion env kind target payload payload1) (\<lambda>payload2.
        sx_bind (if starts_with kind ''sandbox.'' then call env ''sandbox_manager'' (sandbox_url target) None
                 else sx_return JNull) (\<lambda>before.
        sx_bind (if truthy before then sx_of_res (ebind (subscript before ''agent_id'') as_str) else sx_return target) (\<lambda>scope.
        sx_then (if kind \<notin> {''agent.apply'', ''models.apply''}
                 then sx_then (call env ''catalog_service'' (agent_url scope ''operation-check'')
                   (Some (JObj [(''kind'', JStr kind), (''revision'', jget payload2 ''revision'')]))) (sx_return ())
                 else sx_return ())
        (sx_bind (on_submit kind target payload2 scope fv tc) (\<lambda>(job, created).
         sx_then (if created \<and> truthy before
                  then sx_then (store_update env (str_of (jget job ''id'')) [(''before'', before_values before)]) (sx_return ())
                  else sx_return ())
         (sx_return (jget job ''id'', created)))))))))"

definition delete_preview :: "environment \<Rightarrow> string \<Rightarrow> string \<Rightarrow> jdict api" where
  "delete_preview env token aid =
    sx_bind (deletion_impact env aid) (\<lambda>impact. sx_bind (now env) (\<lambda>t.
    let pid = ''delete_'' @ token;
        preview = dupdate [(''preview_id'', JStr pid), (''expires'', JFloat (t + 300))] impact
    in sx_then (store_state (''preview:'' @ pid) (JObj preview))
      (sx_return (filter (\<lambda>(k, v). k \<noteq> ''service_impacts'') preview))))"

definition force_preview :: "environment \<Rightarrow> string \<Rightarrow> json api" where
  "force_preview env sid =
    sx_bind (call env ''sandbox_manager'' (sandbox_url sid @ ''/force-preview'') None) (\<lambda>preview.
    sx_bind (sx_of_res (ebind (subscript preview ''preview_id'') as_str)) (\<lambda>pid.
    sx_then (store_state (''force:'' @ pid) preview)
    (sx_bind (sx_of_res (jiter (dget (obj_of preview) ''sessions'' (JArr [])))) (\<lambda>sessions.
     sx_return (JObj (dput ''sessions'' (JArr (map (\<lambda>s. case s of JObj d \<Rightarrow> jget d ''session_id'' | _ \<Rightarrow> s) sessions))
       (obj_of preview)))))))"

text \<open>A newly confirmed retry of a deletion; the body is the validated request.\<close>

definition retry_request ::
  "environment \<Rightarrow> string \<Rightarrow> string \<Rightarrow> jdict \<Rightarrow> (ops_world, (jdict \<times> bool) option) sx" where
  "retry_request env execution jid body =
    sx_bind (store_get jid) (\<lambda>job.
    if jget job ''retry_request_id'' = jget body ''request_id''
    then sx_then (raise_when (\<not> json_eq (jget (obj_of (jget job ''payload'')) ''_input'') (JObj body))
           (HTTPException 409 ''Retry request ID reused with different parameters''))
         (sx_return None)
    else sx_bind (sx_of_res (as_str (jget body ''preview_id''))) (\<lambda>pid. sx_bind (now env) (\<lambda>t. sx_bind sx_get (\<lambda>s.
      let preview = get_state (''preview:'' @ pid) (w_db s) in
      sx_bind (sx_of_res (stale_preview preview ''agent_id'' (target_of job) t body)) (\<lambda>stale.
      sx_then (raise_when stale
        (HTTPException 409 ''Retry needs a fresh deletion preview and exact Agent ID confirmation''))
      (sx_bind (deletion_impact env (target_of job)) (\<lambda>impact.
       sx_bind (sx_of_res (subscript preview ''fingerprint'')) (\<lambda>print.
       sx_bind (if jget impact ''fingerprint'' \<noteq> print then sx_return True
                else sx_bind (sx_of_res (jindex impact ''lifecycle'')) (\<lambda>l.
                  sx_return (l \<notin> {JStr ''archived'', JStr ''deleting''}))) (\<lambda>changed.
       sx_then (raise_when changed (HTTPException 409 ''Deletion impact changed; preview remaining data again''))
       (sx_bind (on_store (\<lambda>t. retry_deletion jid (dupdate body [(''service_impacts'', jget impact ''service_impacts''),
            (''_input'', JObj body)]) execution t) env) (\<lambda>r. sx_return (Some r))))))))))))"

text \<open>The actions of the two administration endpoints, with the validation of the body (\<open>parse\<close>,
  pydantic) as a parameter.\<close>

definition sandbox_action ::
  "environment \<Rightarrow> fresh_values \<Rightarrow> trace_context \<Rightarrow> (string \<Rightarrow> jdict \<Rightarrow> jdict res) \<Rightarrow> string \<Rightarrow> string \<Rightarrow> jdict \<Rightarrow> (json \<times> bool) api" where
  "sandbox_action env fv tc parse sid act payload =
    (if act \<notin> {''start'', ''stop'', ''restart'', ''destroy''} then sx_raise (HTTPException 404 ''Unknown operation'')
     else sx_bind (sx_of_res (parse (if act = ''start'' then ''OperationRequest'' else ''SandboxRequest'') payload))
       (submit_operation env fv tc (''sandbox.'' @ act) sid))"

definition agent_action ::
  "environment \<Rightarrow> fresh_values \<Rightarrow> trace_context \<Rightarrow> (string \<Rightarrow> jdict \<Rightarrow> jdict res) \<Rightarrow> string \<Rightarrow> string \<Rightarrow> jdict \<Rightarrow> (json \<times> bool) api" where
  "agent_action env fv tc parse aid act payload =
    (if act \<notin> {''archive'', ''restore'', ''delete'', ''delete-empty''} then sx_raise (HTTPException 404 ''Unknown operation'')
     else sx_bind (sx_of_res (parse (if act = ''delete'' then ''DeleteRequest'' else ''OperationRequest'') payload))
       (submit_operation env fv tc (''agent.'' @ act) aid))"

section \<open>Admission\<close>

definition file_admission :: "string \<Rightarrow> string \<Rightarrow> ops_db \<Rightarrow> json res" where
  "file_admission agent_id username db =
    (if list_ex (\<lambda>j. job_scope j = JStr agent_id \<and> starts_with (kind_of j) ''agent.delete'' \<and> status_in j HOLDING) (jobs db)
     then Inl (HTTPException 409 ''Agent deletion pending'')
     else if starts_with username PREFIX
     then (case get_user agent_id username db of
         Some user \<Rightarrow> (if jget user ''storage_state'' \<noteq> JStr ''retained''
           then Inl (HTTPException 409 ''Load-test storage unavailable or being cleaned up'')
           else Inr (JObj [(''load_test'', jget user ''run_id''), (''cpu'', jget user ''cpu_limit''),
                 (''memory_mb'', jget user ''memory_mb''), (''pids'', JInt 256)]))
       | None \<Rightarrow> Inl (HTTPException 409 ''Load-test storage unavailable or being cleaned up''))
     else Inr JNull)"

definition cleanup_authorization ::
  "string \<Rightarrow> string \<Rightarrow> string option \<Rightarrow> string option \<Rightarrow> ops_db \<Rightarrow> unit res" where
  "cleanup_authorization agent_id request_id username run_id db =
    (let refused = Inl (HTTPException 409 ''No matching active cleanup intent'') in
     case (run_id, username) of
       (Some (r # rs), Some (u # us)) \<Rightarrow>
         ebind (get_test (r # rs) db) (\<lambda>report.
           if jget (rp_doc report) ''cleanup_status'' = JStr ''cleaning''
             \<and> (case get_user agent_id (u # us) db of None \<Rightarrow> False
                | Some user \<Rightarrow> jget user ''run_id'' = JStr (r # rs) \<and> jget user ''storage_state'' = JStr ''cleaning'')
             \<and> request_id = (r # rs) @ '':'' @ (u # us)
           then Inr () else refused)
     | _ \<Rightarrow>
         (if list_ex (\<lambda>job. jget job ''target'' = JStr agent_id
               \<and> kind_of job \<in> {''agent.delete'', ''agent.delete-empty''}
               \<and> dget job ''execution_id'' (jget job ''id'') = JStr request_id
               \<and> jget job ''status'' = JStr ''applying'') (jobs db)
          then Inr () else refused))"

definition desired_state :: "string \<Rightarrow> ops_db \<Rightarrow> json" where
  "desired_state sid db = (let v = get_state (''desired:'' @ sid) db in
     if truthy v then v else JObj [(''state'', JStr ''running'')])"

definition sandbox_id :: "(string \<Rightarrow> string) \<Rightarrow> string \<Rightarrow> string \<Rightarrow> string" where
  "sandbox_id digest agent_id username = ''sbx_'' @ take 20 (digest (agent_id @ [CHR 0x00] @ username))"

definition holding_jobs :: "string \<Rightarrow> ops_db \<Rightarrow> jdict list" where
  "holding_jobs agent_id db =
    filter (\<lambda>j. job_scope j \<in> {JStr agent_id, JStr ''*''} \<and> status_in j HOLDING) (jobs db)"

definition resources_for :: "string \<Rightarrow> string \<Rightarrow> ops_db \<Rightarrow> jdict option res" where
  "resources_for agent_id username db =
    (if \<not> starts_with username PREFIX then Inr None
     else (case get_user agent_id username db of
         Some user \<Rightarrow> (if jget user ''storage_state'' \<noteq> JStr ''retained''
           then Inl (HTTPException 409 ''Load-test user is unavailable or being cleaned up'') else Inr (Some user))
       | None \<Rightarrow> Inl (HTTPException 409 ''Load-test user is unavailable or being cleaned up'')))"

definition admission :: "(string \<Rightarrow> string) \<Rightarrow> string \<Rightarrow> string \<Rightarrow> ops_db \<Rightarrow> jdict option res" where
  "admission digest agent_id username db =
    (let active = holding_jobs agent_id db; sid = sandbox_id digest agent_id username in
     ebind (raise_if (list_ex (\<lambda>j. status_in j [''needs_recovery'', ''interrupted'']) active)
       (HTTPException 409 ''An interrupted operation requires reconciliation before execution'')) (\<lambda>_.
     ebind (raise_if (list_ex (\<lambda>j. starts_with (kind_of j) ''agent.delete'' \<or> starts_with (kind_of j) ''agent.archive'') active)
       (HTTPException 409 ''Agent lifecycle operation pending'')) (\<lambda>_.
     ebind (raise_if (get_state (''desired:'' @ sid) db = JObj [(''state'', JStr ''stopped'')] \<and>
         \<not> list_ex (\<lambda>j. jget j ''target'' = JStr sid \<and> kind_of j \<in> {''sandbox.start'', ''sandbox.restart''}) active)
       (HTTPException 409 ''Sandbox was stopped manually; start it in sandbox management'')) (\<lambda>_.
     resources_for agent_id username db))))"

section \<open>Listing\<close>

definition public_job :: "jdict \<Rightarrow> jdict" where
  "public_job job = dupdate (filter (\<lambda>(k, v). k \<notin> {''payload'', ''original_input''}) job)
     [(''target'', job_scope job), (''resource_id'', jget job ''target'')]"

definition created_at :: "jdict \<Rightarrow> rat" where
  "created_at job = (case num_of (jget job ''created'') of Some r \<Rightarrow> r | None \<Rightarrow> 0)"

text \<open>\<open>sorted(..., reverse=True)\<close> keeps the order of equal keys.\<close>

definition newest_first :: "jdict list \<Rightarrow> jdict list" where
  "newest_first js = sort_key (\<lambda>j. - created_at j) js"

definition list_jobs :: "nat \<Rightarrow> nat \<Rightarrow> string option \<Rightarrow> ops_db \<Rightarrow> nat \<times> jdict list" where
  "list_jobs offset limit target db =
    (let values = newest_first (filter (\<lambda>j. case target of Some (c # cs) \<Rightarrow>
           jget j ''target'' = JStr (c # cs) \<or> jget j ''scope'' = JStr (c # cs) | _ \<Rightarrow> True) (jobs db))
     in (length values, map public_job (take limit (drop offset values))))"

definition export_jobs :: "ops_db \<Rightarrow> jdict list" where
  "export_jobs db = newest_first (map public_job (jobs db))"

section \<open>Cancellation\<close>

lemma raise_when_Inr: "raise_when c e s = (Inr u, t) \<longleftrightarrow> \<not> c \<and> s = t"
  by (auto simp: raise_when_def sx_return_def sx_raise_def)

lemma store_get_Inr: "store_get jid s = (Inr job, t) \<longleftrightarrow> get_job jid (w_db s) = Inr job \<and> s = t"
  by (auto simp: store_get_def sx_lift_def)

lemma store_transition_Inr:
  "store_transition env jid allowed changes s = (Inr job, t) \<longleftrightarrow>
    (\<exists>db. transition jid allowed changes (env_clock env (w_sent s)) (w_db s) = Inr (job, db) \<and> t = s\<lparr>w_db := db\<rparr>)"
  by (auto simp: store_transition_def on_store_def split: sum.splits)

lemma store_update_Inr:
  "store_update env jid changes s = (Inr job, t) \<longleftrightarrow>
    (\<exists>db. update_job jid changes (env_clock env (w_sent s)) (w_db s) = Inr (job, db) \<and> t = s\<lparr>w_db := db\<rparr>)"
  by (auto simp: store_update_def on_store_def split: sum.splits)

lemmas api_Inr_simps = sx_outcome_simps raise_when_Inr store_get_Inr store_transition_Inr store_update_Inr

lemma transition_other: "transition jid allowed changes t db = Inr (job, db') \<Longrightarrow> k \<noteq> jid \<Longrightarrow> job_status k db' = job_status k db"
  by (auto simp: transition_def job_status_def doc_update.lookup_update split: option.splits if_splits)

text \<open>A cancellation takes effect only before the job starts to apply, and never on a permanent
  deletion: the job was queued, running or waiting (or already cancelled), it is cancelled afterwards, no
  other job changes and the leases stay exclusive.\<close>
theorem cancel_only_before_apply:
  assumes "cancel_job env jid s = (Inr job, s')" and "jobs_inv (w_db s)"
  shows "(\<exists>old. get_job jid (w_db s) = Inr old \<and> jget old ''kind'' \<noteq> JStr ''agent.delete'' \<and>
      status_in old [''queued'', ''running'', ''waiting'', ''cancelled'']) \<and>
    job_status jid (w_db s') = Some (JStr ''cancelled'') \<and>
    (\<forall>k. k \<noteq> jid \<longrightarrow> job_status k (w_db s') = job_status k (w_db s)) \<and> jobs_inv (w_db s')"
proof -
  obtain old db where old: "get_job jid (w_db s) = Inr old" "status_in old CANCELLABLE" "jget old ''kind'' \<noteq> JStr ''agent.delete''"
    and tr: "transition jid CANCELLABLE [(''status'', JStr ''cancelled'')] (env_clock env (w_sent s)) (w_db s) = Inr (job, db)"
    and s': "s' = s\<lparr>w_db := db\<rparr>"
    using assms(1) by (auto simp: cancel_job_def api_Inr_simps)
  have "jget job ''status'' = JStr ''cancelled''"
    using tr by (auto simp: transition_def set_doc_def dupdate_def split: option.splits if_splits)
  then have "job_status jid db = Some (JStr ''cancelled'')" using job_status_transition [OF tr] by simp
  moreover have "jobs_inv db"
    by (rule transition_inv [OF assms(2) tr]) (auto simp: HOLDING_def keeps_scope_def)
  ultimately show ?thesis using old transition_other [OF tr] s' by (auto simp: CANCELLABLE_def)
qed

theorem cancel_only_before_apply_witness:
  "\<exists>job s'. cancel_job (demo_env []) ''j1'' \<lparr>w_db = demo_db ''agent.archive'', w_sent = []\<rparr> = (Inr job, s') \<and>
    job_status ''j1'' (w_db s') = Some (JStr ''cancelled'')"
proof -
  obtain job s' where ok: "cancel_job (demo_env []) ''j1'' \<lparr>w_db = demo_db ''agent.archive'', w_sent = []\<rparr> = (Inr job, s')"
    by (simp add: cancel_job_def raise_when_def CANCELLABLE_def step_defs store_step_defs demo_defs jget_def dget_def)
  have "jobs_inv (w_db \<lparr>w_db = demo_db ''agent.archive'', w_sent = []\<rparr>)"
    by (simp add: jobs_inv_def exclusive_def unique_key_def demo_db_def empty_ops_def)
  from cancel_only_before_apply [OF ok this] ok show ?thesis by blast
qed

section \<open>Restart\<close>

definition ids_match :: "ops_db \<Rightarrow> bool" where
  "ids_match db \<longleftrightarrow> (\<forall>row \<in> set (job_rows db). jget (jb_doc row) ''id'' = JStr (jb_id row))"

definition restarted_row :: "rat \<Rightarrow> job_row \<Rightarrow> job_row" where
  "restarted_row t row =
    (if status_in (jb_doc row) [''running'', ''waiting'', ''applying'']
     then set_doc ([(''status'', JStr ''needs_recovery''), (''error'', JStr ''Service restarted; inspect checkpoint before retry'')], t) row
     else row)"

lemma restarted_key [simp]: "jb_id (restarted_row t r) = jb_id r" "jb_request_id (restarted_row t r) = jb_request_id r"
  by (simp_all add: restarted_row_def)

lemma restart_one:
  assumes "row \<in> set (job_rows (w_db s))" and "jget (jb_doc row) ''id'' = JStr (jb_id row)" and "unique_key jb_id (job_rows (w_db s))"
  shows "restart_job env (jb_doc row) s =
    (Inr (if jget (jb_doc row) ''status'' = JStr ''queued'' then [jb_id row] else []),
     s\<lparr>w_db := (w_db s)\<lparr>job_rows := map (\<lambda>r. if jb_id r = jb_id row then restarted_row (env_clock env (w_sent s)) r else r)
       (job_rows (w_db s))\<rparr>\<rparr>)"
proof -
  have found: "find_row jb_id (jb_id row) (job_rows (w_db s)) = Some row"
    by (rule find_row_unique [OF assms(3,1)]) simp
  have the_row: "r = row" if "r \<in> set (job_rows (w_db s))" "jb_id r = jb_id row" for r
    using find_row_unique [OF assms(3) that] found by simp
  show ?thesis
  proof (cases "status_in (jb_doc row) [''running'', ''waiting'', ''applying'']")
    case True
    then have "jget (jb_doc row) ''status'' \<noteq> JStr ''queued''" by (auto simp: status_in_def)
    moreover have "update_rows jb_id (jb_id row) f (job_rows (w_db s)) =
        map (\<lambda>r. if jb_id r = jb_id row then restarted_row t r else r) (job_rows (w_db s))"
      if "f = set_doc ([(''status'', JStr ''needs_recovery''), (''error'', JStr ''Service restarted; inspect checkpoint before retry'')], t)"
      for f t
      using True the_row by (auto simp: update_rows_def restarted_row_def that)
    ultimately show ?thesis using True assms(2) found
      by (simp add: restart_job_def Let_def sx_step_defs store_update_def on_store_def update_job_def)
  next
    case False
    then have "map (\<lambda>r. if jb_id r = jb_id row then restarted_row t r else r) (job_rows (w_db s)) = job_rows (w_db s)" for t
      using the_row by (intro map_idI) (auto simp: restarted_row_def)
    then show ?thesis using False assms(2) by (simp add: restart_job_def Let_def sx_step_defs)
  qed
qed

lemma restart_rows:
  assumes "set rows \<subseteq> set (job_rows (w_db s))" and "distinct (map jb_id rows)"
    and "\<And>row. row \<in> set rows \<Longrightarrow> jget (jb_doc row) ''id'' = JStr (jb_id row)" and "unique_key jb_id (job_rows (w_db s))"
  shows "sx_map (restart_job env) (map jb_doc rows) s =
    (Inr (map (\<lambda>row. if jget (jb_doc row) ''status'' = JStr ''queued'' then [jb_id row] else []) rows),
     s\<lparr>w_db := (w_db s)\<lparr>job_rows := map (\<lambda>r. if jb_id r \<in> jb_id ` set rows then restarted_row (env_clock env (w_sent s)) r else r)
       (job_rows (w_db s))\<rparr>\<rparr>)"
  using assms
proof (induction rows arbitrary: s)
  case Nil
  then show ?case by (simp add: sx_return_def)
next
  case (Cons row rows)
  define s1 where "s1 = s\<lparr>w_db := (w_db s)\<lparr>job_rows := map (\<lambda>r. if jb_id r = jb_id row then restarted_row (env_clock env (w_sent s)) r else r)
       (job_rows (w_db s))\<rparr>\<rparr>"
  have one: "restart_job env (jb_doc row) s =
      (Inr (if jget (jb_doc row) ''status'' = JStr ''queued'' then [jb_id row] else []), s1)"
    unfolding s1_def using Cons.prems by (intro restart_one) auto
  have "set rows \<subseteq> set (job_rows (w_db s1))"
  proof
    fix r assume r: "r \<in> set rows"
    then have "jb_id r \<in> jb_id ` set rows" by simp
    then have "jb_id r \<noteq> jb_id row" using Cons.prems(2) by auto
    then show "r \<in> set (job_rows (w_db s1))" using r Cons.prems(1) by (force simp: s1_def)
  qed
  moreover have "unique_key jb_id (job_rows (w_db s1))"
  proof -
    have "map jb_id (job_rows (w_db s1)) = map jb_id (job_rows (w_db s))" by (simp add: s1_def)
    then show ?thesis using Cons.prems(4) by (simp add: unique_key_def)
  qed
  ultimately have rest: "sx_map (restart_job env) (map jb_doc rows) s1 =
    (Inr (map (\<lambda>row. if jget (jb_doc row) ''status'' = JStr ''queued'' then [jb_id row] else []) rows),
     s1\<lparr>w_db := (w_db s1)\<lparr>job_rows := map (\<lambda>r. if jb_id r \<in> jb_id ` set rows then restarted_row (env_clock env (w_sent s1)) r else r)
       (job_rows (w_db s1))\<rparr>\<rparr>)"
    using Cons.prems by (intro Cons.IH) auto
  have "jb_id row \<notin> jb_id ` set rows" using Cons.prems(2) by auto
  then have "map (\<lambda>r. if jb_id r \<in> jb_id ` set rows then restarted_row (env_clock env (w_sent s1)) r else r) (job_rows (w_db s1)) =
      map (\<lambda>r. if jb_id r \<in> jb_id ` set (row # rows) then restarted_row (env_clock env (w_sent s)) r else r) (job_rows (w_db s))"
    by (auto simp: s1_def)
  then show ?case using one rest by (simp add: sx_bind_def sx_return_def s1_def)
qed

lemma restarted_status:
  "jget (jb_doc (restarted_row t row)) ''status'' =
    (if status_in (jb_doc row) [''running'', ''waiting'', ''applying''] then JStr ''needs_recovery'' else jget (jb_doc row) ''status'')"
  by (simp add: restarted_row_def set_doc_def dupdate_def)

lemma restarted_scope: "job_scope (jb_doc (restarted_row t row)) = job_scope (jb_doc row)"
  using set_doc_scope by (auto simp: restarted_row_def keeps_scope_def)

lemma restarted_holding: "status_in (jb_doc (restarted_row t row)) HOLDING = status_in (jb_doc row) HOLDING"
  unfolding status_in_def restarted_status by (auto simp: HOLDING_def status_in_def)

text \<open>C11: When the service restarts, every job that was running, waiting or applying is held for
  recovery instead of being replayed, exactly the queued jobs are started again, and the leases stay
  exclusive, so what was held before the crash is still held.\<close>
theorem restart_holds_interrupted_jobs:
  assumes "jobs_inv (w_db s)" and "ids_match (w_db s)"
  shows "\<exists>s'. restart_jobs env s =
      (Inr (map jb_id (filter (\<lambda>r. jget (jb_doc r) ''status'' = JStr ''queued'') (job_rows (w_db s)))), s') \<and>
    (\<forall>job \<in> set (jobs (w_db s')). \<not> status_in job [''running'', ''waiting'', ''applying'']) \<and>
    jobs_inv (w_db s') \<and>
    (\<forall>k. job_status k (w_db s') = (if job_status k (w_db s) \<in> (Some \<circ> JStr) ` {''running'', ''waiting'', ''applying''}
       then Some (JStr ''needs_recovery'') else job_status k (w_db s)))"
proof -
  let ?t = "env_clock env (w_sent s)" and ?rows = "job_rows (w_db s)"
  define s' where "s' = s\<lparr>w_db := (w_db s)\<lparr>job_rows := map (restarted_row ?t) ?rows\<rparr>\<rparr>"
  have u: "unique_key jb_id ?rows" "unique_key jb_request_id ?rows" and ex: "exclusive (w_db s)"
    using assms(1) by (auto simp: jobs_inv_def)
  have "sx_map (restart_job env) (map jb_doc ?rows) s =
      (Inr (map (\<lambda>row. if jget (jb_doc row) ''status'' = JStr ''queued'' then [jb_id row] else []) ?rows), s')"
    using restart_rows [of ?rows s env] u assms(2) by (simp add: unique_key_def ids_match_def s'_def cong: map_cong)
  moreover have "concat (map (\<lambda>row. if P row then [f row] else []) rows) = map f (filter P rows)" for P f and rows :: "job_row list"
    by (induction rows) auto
  ultimately have "restart_jobs env s =
      (Inr (map jb_id (filter (\<lambda>r. jget (jb_doc r) ''status'' = JStr ''queued'') ?rows)), s')"
    by (simp add: restart_jobs_def jobs_def sx_bind_def sx_return_def)
  moreover have "\<forall>job \<in> set (jobs (w_db s')). \<not> status_in job [''running'', ''waiting'', ''applying'']"
    by (auto simp: s'_def jobs_def status_in_def restarted_status)
  moreover have "jobs_inv (w_db s')"
  proof -
    have "map jb_id (job_rows (w_db s')) = map jb_id ?rows" "map jb_request_id (job_rows (w_db s')) = map jb_request_id ?rows"
      by (simp_all add: s'_def)
    then have "unique_key jb_id (job_rows (w_db s'))" "unique_key jb_request_id (job_rows (w_db s'))"
      using u by (simp_all only: unique_key_def)
    moreover have "exclusive (w_db s')"
      using ex by (auto simp: exclusive_def s'_def overlap_def restarted_scope restarted_holding)
    ultimately show ?thesis by (simp add: jobs_inv_def)
  qed
  moreover have "job_status k (w_db s') = (if job_status k (w_db s) \<in> (Some \<circ> JStr) ` {''running'', ''waiting'', ''applying''}
       then Some (JStr ''needs_recovery'') else job_status k (w_db s))" for k
  proof -
    have "find_row jb_id k (map (restarted_row ?t) rows) = map_option (restarted_row ?t) (find_row jb_id k rows)" for rows
      by (induction rows) auto
    then show ?thesis by (cases "find_row jb_id k ?rows") (auto simp: job_status_def s'_def restarted_status status_in_def)
  qed
  ultimately show ?thesis by blast
qed

theorem restart_holds_interrupted_jobs_witness:
  "\<exists>s'. restart_jobs (demo_env []) \<lparr>w_db = demo_db ''agent.archive'', w_sent = []\<rparr> = (Inr [''j1''], s') \<and> jobs_inv (w_db s')"
proof -
  have inv: "jobs_inv (w_db \<lparr>w_db = demo_db ''agent.archive'', w_sent = []\<rparr>)"
    by (simp add: jobs_inv_def exclusive_def unique_key_def demo_db_def empty_ops_def)
  have ids: "ids_match (w_db \<lparr>w_db = demo_db ''agent.archive'', w_sent = []\<rparr>)"
    by (simp add: ids_match_def demo_db_def demo_job_def empty_ops_def jget_def dget_def)
  have "map jb_id (filter (\<lambda>r. jget (jb_doc r) ''status'' = JStr ''queued'')
      (job_rows (w_db \<lparr>w_db = demo_db ''agent.archive'', w_sent = []\<rparr>))) = [''j1'']"
    by (simp add: demo_db_def demo_job_def empty_ops_def jget_def dget_def)
  with restart_holds_interrupted_jobs [OF inv ids, of "demo_env []"] show ?thesis by auto
qed

section \<open>Deletions need a fresh preview\<close>

lemma stale_preview_fresh:
  "stale_preview preview field target t payload = Inr False \<Longrightarrow>
    truthy preview \<and> subscript preview field = Inr (JStr target) \<and> jget payload ''confirmation'' = JStr target
    \<and> (\<exists>v e. subscript preview ''expires'' = Inr v \<and> num_of v = Some e \<and> t \<le> e)"
  by (auto simp: stale_preview_def exc_simps number_def split: if_splits option.splits)

text \<open>A permanent deletion is submitted only against a preview of that Agent that has not expired,
  with the Agent's ID typed as confirmation, and only when the impact measured again at that moment
  equals the previewed one and the Agent is archived or already being deleted.\<close>
theorem deletion_needs_fresh_preview:
  assumes "submit_operation env fv tc ''agent.delete'' target payload s = (Inr (jid, True), s')"
  shows "jget payload ''confirmation'' = JStr target \<and>
    (\<exists>pid preview v e current s1.
       dget payload ''preview_id'' (JStr []) = JStr pid \<and> get_state (''preview:'' @ pid) (w_db s) = preview \<and>
       subscript preview ''agent_id'' = Inr (JStr target) \<and>
       subscript preview ''expires'' = Inr v \<and> num_of v = Some e \<and> env_clock env (w_sent s) \<le> e \<and>
       deletion_impact env target s = (Inr current, s1) \<and>
       subscript preview ''fingerprint'' = Inr (jget current ''fingerprint'') \<and>
       jget current ''lifecycle'' \<in> {JStr ''archived'', JStr ''deleting''})"
proof -
  have "existing_request payload (w_db s) = None"
    using assms by (auto simp: submit_operation_def api_Inr_simps split: option.splits)
  moreover have "check_force env ''agent.delete'' target payload = sx_return payload"
    by (simp add: check_force_def starts_with_def)
  ultimately obtain payload2 s1 where "check_deletion env ''agent.delete'' target payload payload s = (Inr payload2, s1)"
    using assms by (auto simp: submit_operation_def api_Inr_simps split: option.splits)
  then obtain pid current s1 where pid: "as_str (dget payload ''preview_id'' (JStr [])) = Inr pid"
    and fresh: "stale_preview (get_state (''preview:'' @ pid) (w_db s)) ''agent_id'' target (env_clock env (w_sent s)) payload = Inr False"
    and cur: "deletion_impact env target s = (Inr current, s1)"
    and fp: "subscript (get_state (''preview:'' @ pid) (w_db s)) ''fingerprint'' = Inr (jget current ''fingerprint'')"
    and lc: "\<exists>l. jindex current ''lifecycle'' = Inr l \<and> l \<in> {JStr ''archived'', JStr ''deleting''}"
    by (auto simp: check_deletion_def api_Inr_simps now_def Let_def)
  have "dget payload ''preview_id'' (JStr []) = JStr pid"
    using pid by (auto simp: as_str_def split: json.splits)
  moreover have "jget current ''lifecycle'' \<in> {JStr ''archived'', JStr ''deleting''}"
    using lc by (auto simp: jindex_def jget_def dget_def split: option.splits)
  ultimately show ?thesis using stale_preview_fresh [OF fresh] cur fp by blast
qed

definition impact_body :: json where
  "impact_body = JObj [(''lifecycle'', JStr ''archived'')]"

definition impact_env :: environment where
  "impact_env = \<lparr>env_reply = (\<lambda>lg c db. Reply 200 impact_body), env_db = (\<lambda>lg c db. db), env_clock = (\<lambda>lg. 7)\<rparr>"

definition demo_preview :: json where
  "demo_preview = JObj [(''preview_id'', JStr ''p1''), (''agent_id'', JStr ''a1''), (''expires'', JInt 9),
     (''fingerprint'', canonical (JObj [(''catalog'', impact_body), (''sandbox'', impact_body), (''files'', impact_body)]))]"

definition deletion_request :: jdict where
  "deletion_request = [(''request_id'', JStr ''delete-1''), (''preview_id'', JStr ''p1''), (''confirmation'', JStr ''a1'')]"

definition preview_world :: ops_world where
  "preview_world = \<lparr>w_db = empty_ops\<lparr>kv_state := [(''preview:p1'', demo_preview)]\<rparr>, w_sent = []\<rparr>"

theorem deletion_needs_fresh_preview_witness:
  "(\<exists>s'. submit_operation impact_env (sample_fresh ''j1'') no_trace ''agent.delete'' ''a1'' deletion_request preview_world
      = (Inr (JStr ''j1'', True), s')) \<and>
   jget deletion_request ''confirmation'' = JStr ''a1''"
proof -
  have impact: "\<exists>s1. deletion_impact impact_env ''a1'' preview_world = (Inr [(''lifecycle'', JStr ''archived''),
      (''sandboxes'', JArr []), (''sessions'', JInt 0), (''files'', JInt 0), (''bytes'', JInt 0),
      (''fingerprint'', canonical (JObj [(''catalog'', impact_body), (''sandbox'', impact_body), (''files'', impact_body)])),
      (''service_impacts'', JObj [(''catalog'', impact_body), (''sandbox'', impact_body), (''files'', impact_body)]),
      (''warning'', JStr ''Permanently deletes Agent configuration history, sessions, workspace and private resources. Global resources are retained.'')], s1)
    \<and> w_db s1 = w_db preview_world"
    by (simp add: deletion_impact_def impact_env_def impact_body_def sx_step_defs call_step_defs attr_get_def dget_def dupdate_def Let_def
        del: canonical.simps)
  obtain s' where ok: "submit_operation impact_env (sample_fresh ''j1'') no_trace ''agent.delete'' ''a1'' deletion_request preview_world
      = (Inr (JStr ''j1'', True), s')"
  proof -
    obtain s1 current where cur: "deletion_impact impact_env ''a1'' preview_world = (Inr current, s1)" "w_db s1 = w_db preview_world"
      and f: "jget current ''fingerprint'' = canonical (JObj [(''catalog'', impact_body), (''sandbox'', impact_body), (''files'', impact_body)])"
        "jindex current ''lifecycle'' = Inr (JStr ''archived'')"
      using impact by (auto simp: jget_def dget_def jindex_def simp del: canonical.simps)
    show ?thesis
      using that cur f
      by (simp add: submit_operation_def existing_request_def check_force_def check_deletion_def starts_with_def sx_step_defs now_def Let_def
          raise_when_def preview_world_def demo_preview_def deletion_request_def jget_def dget_def as_str_def get_state_def stale_preview_def
          subscript_def jindex_def number_def impact_env_def call_step_defs jobs_def empty_ops_def on_submit_def submit_def sample_fresh_def
          new_job_def deletion_input_def dupdate_def no_trace_def
          del: canonical.simps)
  qed
  with deletion_needs_fresh_preview [OF ok] show ?thesis by blast
qed

section \<open>Reconciliation needs evidence\<close>

definition seen :: "(service_call \<times> reply \<Rightarrow> bool) \<Rightarrow> 'x ops_world_scheme \<Rightarrow> bool" where
  "seen p s \<longleftrightarrow> (\<exists>e \<in> set (w_sent s). p e)"

definition answered :: "service_call \<Rightarrow> (json \<Rightarrow> bool) \<Rightarrow> service_call \<times> reply \<Rightarrow> bool" where
  "answered c P e \<longleftrightarrow> fst e = c \<and> (case snd e of Reply _ body \<Rightarrow> P body | _ \<Rightarrow> False)"

text \<open>What the log must show before a job counts as done: the catalog committed the release or
  reports it committed; the sandbox was observed in the requested state; or the catalog no longer
  knows the Agent and neither sandboxes, sessions nor files of it remain.\<close>

definition evidence :: "jdict \<Rightarrow> 'x ops_world_scheme \<Rightarrow> bool" where
  "evidence job s \<longleftrightarrow>
    (if truthy (jget job ''release_id'') then \<exists>rid. seen (committed rid) s
     else if starts_with (kind_of job) ''sandbox.''
     then seen (answered (request ''sandbox_manager'' (sandbox_url (target_of job)) None None)
            (\<lambda>body. jget (obj_of body) ''status'' = JStr (desired_status job))) s
     else kind_of job = ''agent.delete''
       \<and> seen (\<lambda>e. fst e = request ''catalog_service'' (agent_url (target_of job) ''deletion-impact'') None None
              \<and> (\<exists>body. snd e = Reply 404 body)) s
       \<and> seen (answered (request ''sandbox_manager'' (agent_url (target_of job) ''deletion-impact'') None None)
            (\<lambda>body. \<not> truthy (jget (obj_of body) ''sandboxes'') \<and> \<not> truthy (jget (obj_of body) ''sessions''))) s
       \<and> seen (answered (request ''file_service'' (agent_url (target_of job) ''deletion-impact'') None None)
            (\<lambda>body. \<not> truthy (jget (obj_of body) ''files''))) s)"

lemma seen_db [simp]: "seen p (s\<lparr>w_db := db\<rparr>) = seen p s"
  by (simp add: seen_def)

lemma seen_sent [simp]: "seen p (s\<lparr>w_db := db, w_sent := w_sent s @ [x]\<rparr>) \<longleftrightarrow> seen p s \<or> p x"
  by (auto simp: seen_def)

text \<open>A call keeps what was seen, and adds its answer.\<close>

lemma call_after:
  assumes "call env service path payload s = (Inr body, t)"
  shows "(\<forall>p. seen p s \<longrightarrow> seen p t) \<and> seen (answered (request service path payload None) (\<lambda>b. b = body)) t"
proof -
  define r where "r = env_reply env (w_sent s) (request service path payload None) (w_db s)"
  have "decode_reply service r = Inr body"
    and t: "t = s\<lparr>w_db := env_db env (w_sent s) (request service path payload None) (w_db s),
          w_sent := w_sent s @ [(request service path payload None, r)]\<rparr>"
    using assms by (auto simp: call_def send_def Let_def r_def request_def)
  then have "answered (request service path payload None) (\<lambda>b. b = body) (request service path payload None, r)"
    by (auto simp: answered_def decode_reply_def exc_simps split: reply.splits if_splits)
  with t show ?thesis by simp
qed

lemma call_failed_after:
  assumes "call env service path payload s = (Inl (HTTPException 404 d), t)"
  shows "(\<forall>p. seen p s \<longrightarrow> seen p t) \<and> seen (\<lambda>e. fst e = request service path payload None \<and> (\<exists>body. snd e = Reply 404 body)) t"
proof -
  define r where "r = env_reply env (w_sent s) (request service path payload None) (w_db s)"
  have "decode_reply service r = Inl (HTTPException 404 d)"
    and t: "t = s\<lparr>w_db := env_db env (w_sent s) (request service path payload None) (w_db s),
          w_sent := w_sent s @ [(request service path payload None, r)]\<rparr>"
    using assms by (auto simp: call_def send_def Let_def r_def request_def)
  then have "\<exists>body. r = Reply 404 body"
    by (auto simp: decode_reply_def attr_get_def exc_simps split: reply.splits if_splits json.splits)
  with t show ?thesis by auto
qed

lemma seen_mono: "seen p s \<Longrightarrow> (\<And>e. p e \<Longrightarrow> q e) \<Longrightarrow> seen q s"
  by (auto simp: seen_def)

lemma answered_mono: "seen (answered c P) s \<Longrightarrow> (\<And>b. P b \<Longrightarrow> Q b) \<Longrightarrow> seen (answered c Q) s"
  by (erule seen_mono) (auto simp: answered_def split: reply.splits)

lemma reconcile_release_evidence:
  assumes "reconcile_release env job rid s = (Inr result, t)" shows "\<exists>rid. seen (committed rid) t"
proof -
  obtain release_rid release s1 c s2 where r1: "call env ''catalog_service'' (''/internal/v1/releases/'' @ release_rid) None s = (Inr release, s1)"
    and flag: "attr_get release ''committed'' JNull = Inr c"
    and branch: "if truthy c then s2 = s1 else \<exists>s0 rid1 body.
        call env ''catalog_service'' (''/internal/v1/releases/'' @ rid1 @ ''/commit'') (Some (JObj [])) s0 = (Inr body, s2)"
    and last: "\<exists>body. resume_call env job rid s2 = (Inr body, t)"
    using assms by (fastforce simp: reconcile_release_def api_Inr_simps split: if_splits)
  have "\<exists>rid. seen (committed rid) s2"
  proof (cases "truthy c")
    case True
    have "c = jget (obj_of release) ''committed''" using flag by (auto simp: attr_get_def jget_def split: json.splits)
    then have "seen (committed release_rid) s1"
      using call_after [OF r1] True by (elim conjE seen_mono)
        (auto simp: answered_def committed_def release_query_def split: reply.splits)
    then show ?thesis using branch True by auto
  next
    case False
    then obtain s0 rid1 body where "call env ''catalog_service'' (''/internal/v1/releases/'' @ rid1 @ ''/commit'') (Some (JObj [])) s0 = (Inr body, s2)"
      using branch by auto
    then have "seen (acked (commit_call rid1)) s2"
      by (auto simp: call_def commit_call_def send_def Let_def acked_def dest: ok_decode)
    then show ?thesis by (auto simp: seen_def committed_def)
  qed
  then show ?thesis using last call_after unfolding resume_call_def by blast
qed

lemma reconcile_sandbox_evidence:
  assumes "reconcile_sandbox env job s = (Inr result, t)"
  shows "seen (answered (request ''sandbox_manager'' (sandbox_url (target_of job)) None None)
            (\<lambda>body. jget (obj_of body) ''status'' = JStr (desired_status job))) t"
proof -
  obtain observed s1 where c: "call env ''sandbox_manager'' (sandbox_url (target_of job)) None s = (Inr observed, s1)"
    and st: "attr_get observed ''status'' JNull = Inr (JStr (desired_status job))" and t: "\<exists>db. t = s1\<lparr>w_db := db\<rparr>"
    using assms by (auto simp: reconcile_sandbox_def Let_def api_Inr_simps store_state_def sx_modify_def)
  have "jget (obj_of observed) ''status'' = JStr (desired_status job)"
    using st by (auto simp: attr_get_def jget_def split: json.splits)
  then have "seen (answered (request ''sandbox_manager'' (sandbox_url (target_of job)) None None)
      (\<lambda>body. jget (obj_of body) ''status'' = JStr (desired_status job))) s1"
    using call_after [OF c] by (auto elim: answered_mono)
  then show ?thesis using t by auto
qed

text \<open>The catalog lookup of a deletion: an answer, or a 404 taken as absence.\<close>

lemma lookup_absent:
  assumes "sx_catch (sx_then (call env service path None) (sx_return True))
      (\<lambda>e. case e of HTTPException status _ \<Rightarrow> if status \<noteq> 404 then None else Some (sx_return False) | _ \<Rightarrow> None) s = (Inr False, t)"
  shows "\<exists>d. call env service path None s = (Inl (HTTPException 404 d), t)"
  using assms by (auto simp: sx_catch_def sx_then_def sx_bind_def sx_return_def split: prod.splits sum.splits option.splits exc.splits if_splits)

lemma reconcile_deletion_evidence:
  assumes "reconcile_deletion env job rid s = (Inr result, t)"
  shows "seen (\<lambda>e. fst e = request ''catalog_service'' (agent_url (target_of job) ''deletion-impact'') None None
              \<and> (\<exists>body. snd e = Reply 404 body)) t
       \<and> seen (answered (request ''sandbox_manager'' (agent_url (target_of job) ''deletion-impact'') None None)
            (\<lambda>body. \<not> truthy (jget (obj_of body) ''sandboxes'') \<and> \<not> truthy (jget (obj_of body) ''sessions''))) t
       \<and> seen (answered (request ''file_service'' (agent_url (target_of job) ''deletion-impact'') None None)
            (\<lambda>body. \<not> truthy (jget (obj_of body) ''files''))) t"
proof -
  let ?u = "agent_url (target_of job) ''deletion-impact''"
  obtain s1 sandbox s2 files s3 sandboxes n d4 where
    c1: "sx_catch (sx_then (call env ''catalog_service'' ?u None) (sx_return True))
      (\<lambda>e. case e of HTTPException status _ \<Rightarrow> if status \<noteq> 404 then None else Some (sx_return False) | _ \<Rightarrow> None) s = (Inr False, s1)"
    and c2: "call env ''sandbox_manager'' ?u None s1 = (Inr sandbox, s2)"
    and c3: "call env ''file_service'' ?u None s2 = (Inr files, s3)"
    and sb: "attr_get sandbox ''sandboxes'' JNull = Inr sandboxes" "\<not> truthy sandboxes" "\<not> truthy (jget (obj_of sandbox) ''sessions'')"
    and fl: "attr_get files ''files'' JNull = Inr n" "\<not> truthy n"
    and c4: "resume_call env job rid s3 = (Inr d4, t)"
    using assms by (auto simp: reconcile_deletion_def api_Inr_simps split: if_splits)
  obtain d where c1: "call env ''catalog_service'' ?u None s = (Inl (HTTPException 404 d), s1)"
    using lookup_absent [OF c1] by blast
  have k: "seen p s1 \<Longrightarrow> seen p t" "seen q s2 \<Longrightarrow> seen q t" "seen r s3 \<Longrightarrow> seen r t" for p q r
    using call_after [OF c2] call_after [OF c3] call_after [OF c4 [unfolded resume_call_def]] by blast+
  have "sandboxes = jget (obj_of sandbox) ''sandboxes''" "n = jget (obj_of files) ''files''"
    using sb fl by (auto simp: attr_get_def jget_def split: json.splits)
  then show ?thesis
    using call_failed_after [OF c1] call_after [OF c2] call_after [OF c3] sb fl
    by (intro conjI k) (auto elim: answered_mono)
qed

text \<open>A job is reconciled only on evidence: when reconciliation returns normally, either the job had
  already succeeded and nothing happened, or it was awaiting recovery, interrupted or failed, it is
  succeeded now, and a reply shows that its work is done: a committed release, the sandbox observed in
  the requested state, or a deleted Agent with no sandboxes, sessions or files left.\<close>
theorem reconcile_needs_evidence:
  assumes "reconcile_job env jid rid s = (Inr (), t)"
  shows "\<exists>job. get_job jid (w_db s) = Inr job \<and>
    (jget job ''status'' = JStr ''succeeded'' \<and> t = s \<or>
     status_in job [''needs_recovery'', ''interrupted'', ''failed''] \<and>
     job_status jid (w_db t) = Some (JStr ''succeeded'') \<and> evidence job t)"
proof -
  obtain job where job: "get_job jid (w_db s) = Inr job"
    and r: "jget job ''status'' = JStr ''succeeded'' \<and> t = s \<or>
      (status_in job [''needs_recovery'', ''interrupted'', ''failed''] \<and>
       (\<exists>result s1 j2. reconcile_evidence env job rid s = (Inr result, s1) \<and>
         store_update env jid [(''status'', JStr ''succeeded''), (''checkpoint'', JStr ''complete''),
           (''result'', result), (''reconciled'', JBool True)] s1 = (Inr j2, t)))"
    using assms by (auto simp: reconcile_job_def api_Inr_simps split: if_splits)
  show ?thesis
  proof (cases "jget job ''status'' = JStr ''succeeded'' \<and> t = s")
    case True then show ?thesis using job by blast
  next
    case False
    then obtain result s1 j2 db where st: "status_in job [''needs_recovery'', ''interrupted'', ''failed'']"
      and ev: "reconcile_evidence env job rid s = (Inr result, s1)"
      and up: "update_job jid [(''status'', JStr ''succeeded''), (''checkpoint'', JStr ''complete''),
           (''result'', result), (''reconciled'', JBool True)] (env_clock env (w_sent s1)) (w_db s1) = (Inr (j2, db))"
      and t: "t = s1\<lparr>w_db := db\<rparr>"
      using r by (auto simp: api_Inr_simps)
    have "evidence job s1"
      using ev reconcile_release_evidence reconcile_sandbox_evidence reconcile_deletion_evidence
      by (auto simp: evidence_def reconcile_evidence_def api_Inr_simps split: if_splits)
    then have "evidence job t" by (simp add: evidence_def t)
    moreover have "job_status jid db = Some (JStr ''succeeded'')"
      using job_status_update [OF up] up by (auto simp: update_job_def set_doc_def dupdate_def split: option.splits)
    ultimately show ?thesis using job st t by auto
  qed
qed

definition lost_job :: jdict where
  "lost_job = [(''id'', JStr ''j1''), (''kind'', JStr ''sandbox.stop''), (''target'', JStr ''s1''), (''status'', JStr ''needs_recovery'')]"

definition lost_db :: ops_db where
  "lost_db = (demo_db ''sandbox.stop'')\<lparr>job_rows := [\<lparr>jb_id = ''j1'', jb_request_id = ''r1'', jb_target = ''s1'', jb_doc = lost_job\<rparr>]\<rparr>"

definition stopped_env :: environment where
  "stopped_env = impact_env\<lparr>env_reply := (\<lambda>lg c db. Reply 200 (JObj [(''status'', JStr ''stopped'')]))\<rparr>"

theorem reconcile_needs_evidence_witness:
  "\<exists>t. reconcile_job stopped_env ''j1'' ''r'' \<lparr>w_db = lost_db, w_sent = []\<rparr> = (Inr (), t) \<and>
    job_status ''j1'' (w_db t) = Some (JStr ''succeeded'') \<and> evidence lost_job t"
proof -
  have job: "get_job ''j1'' lost_db = Inr lost_job"
    by (simp add: get_job_def lost_db_def lost_job_def)
  obtain t where ok: "reconcile_job stopped_env ''j1'' ''r'' \<lparr>w_db = lost_db, w_sent = []\<rparr> = (Inr (), t)"
  proof
    show "reconcile_job stopped_env ''j1'' ''r'' \<lparr>w_db = lost_db, w_sent = []\<rparr> =
      (Inr (), snd (reconcile_job stopped_env ''j1'' ''r'' \<lparr>w_db = lost_db, w_sent = []\<rparr>))"
      by (simp add: reconcile_job_def reconcile_evidence_def reconcile_sandbox_def desired_status_def kind_of_def starts_with_def
          store_get_def job sx_step_defs lost_job_def jget_def dget_def status_in_def get_job_def put_state_def demo_db_def empty_ops_def set_doc_def call_step_defs stopped_env_def
          impact_env_def attr_get_def raise_when_def store_state_def store_update_def on_store_def update_job_def lost_db_def Let_def)
  qed
  from reconcile_needs_evidence [OF ok] show ?thesis using ok job by (auto simp: lost_job_def jget_def dget_def)
qed

end
