(* ===== verification/FileSystem.thy ===== *)
theory FileSystem
  imports Prelude "HOL-Library.Word"
begin

text \<open>
  The host file system as the file service uses it through \<open>os\<close> and \<open>pathlib\<close>: absolute
  paths as component lists, mapped to regular files, directories and symbolic links. Owners,
  modes and times are left out. Links are followed at most 40 times, the limit of the kernel.
\<close>

type_synonym path = "string list"
type_synonym bytes = "8 word list"

datatype entry =
    RegFile bytes
  | Directory
  | Symlink bool path

type_synonym fs = "(path, entry) dict"

text \<open>The root directory has no entry of its own.\<close>

definition entry_at :: "fs \<Rightarrow> path \<Rightarrow> entry option" where
  "entry_at fs p = (if p = [] then Some Directory else map_of fs p)"

definition MAX_LINKS :: nat where
  "MAX_LINKS = 40"

section \<open>Resolving paths\<close>

text \<open>\<open>Path.resolve(strict=False)\<close> from the resolved directory \<open>cur\<close>: missing components are
  kept as they are, a loop of links gives None.\<close>

function resolve :: "fs \<Rightarrow> nat \<Rightarrow> path \<Rightarrow> path \<Rightarrow> path option" where
  "resolve fs n cur [] = Some cur"
| "resolve fs n cur (p # rest) =
    (if p = ''..'' then resolve fs n (butlast cur) rest
     else case entry_at fs (cur @ [p]) of
       Some (Symlink absolute target) \<Rightarrow>
         (if n = 0 then None else resolve fs (n - 1) (if absolute then [] else cur) (target @ rest))
     | _ \<Rightarrow> resolve fs n (cur @ [p]) rest)"
  by pat_completeness auto
termination
  by (relation "measures [\<lambda>(fs, n, cur, ps). n, \<lambda>(fs, n, cur, ps). length ps]") auto

text \<open>What the kernel does with the directories of a path: every one must exist.\<close>

function namei :: "fs \<Rightarrow> nat \<Rightarrow> path \<Rightarrow> path \<Rightarrow> path res" where
  "namei fs n cur [] = Inr cur"
| "namei fs n cur (p # rest) =
    (if p = ''..'' then namei fs n (butlast cur) rest
     else case entry_at fs (cur @ [p]) of
       None \<Rightarrow> Inl (FileNotFoundError p)
     | Some Directory \<Rightarrow> namei fs n (cur @ [p]) rest
     | Some (RegFile _) \<Rightarrow> Inl (OSError ''ENOTDIR'')
     | Some (Symlink absolute target) \<Rightarrow>
         (if n = 0 then Inl (OSError ''ELOOP'')
          else namei fs (n - 1) (if absolute then [] else cur) (target @ rest)))"
  by pat_completeness auto
termination
  by (relation "measures [\<lambda>(fs, n, cur, ps). n, \<lambda>(fs, n, cur, ps). length ps]") auto

definition is_dir :: "fs \<Rightarrow> path \<Rightarrow> bool" where
  "is_dir fs p = (case namei fs MAX_LINKS [] p of Inr _ \<Rightarrow> True | Inl _ \<Rightarrow> False)"

section \<open>Creating and removing\<close>

definition os_mkdir :: "fs \<Rightarrow> path \<Rightarrow> fs res" where
  "os_mkdir fs p =
    (if p = [] then Inl (FileExistsError ''/'')
     else ebind (namei fs MAX_LINKS [] (butlast p)) (\<lambda>d.
       if entry_at fs (d @ [last p]) \<noteq> None then Inl (FileExistsError (last p))
       else Inr (dput (d @ [last p]) Directory fs)))"

text \<open>\<open>Path.mkdir(exist_ok=True)\<close>, without and with \<open>parents=True\<close>.\<close>

definition mkdir_exist_ok :: "fs \<Rightarrow> path \<Rightarrow> fs res" where
  "mkdir_exist_ok fs p = (case os_mkdir fs p of
     Inr fs' \<Rightarrow> Inr fs'
   | Inl (FileNotFoundError e) \<Rightarrow> Inl (FileNotFoundError e)
   | Inl e \<Rightarrow> if is_dir fs p then Inr fs else Inl e)"

function mkdir_parents :: "path \<Rightarrow> (fs, unit) sx" where
  "mkdir_parents p fs = (case os_mkdir fs p of
     Inr fs' \<Rightarrow> (Inr (), fs')
   | Inl (FileNotFoundError e) \<Rightarrow>
       (if p = [] then (Inl (FileNotFoundError e), fs)
        else (case mkdir_parents (butlast p) fs of
            (Inl e', fs') \<Rightarrow> (Inl e', fs')
          | (Inr _, fs') \<Rightarrow> (case mkdir_exist_ok fs' p of Inl e' \<Rightarrow> (Inl e', fs') | Inr fs2 \<Rightarrow> (Inr (), fs2))))
   | Inl e \<Rightarrow> (if is_dir fs p then Inr () else Inl e, fs))"
  by pat_completeness auto
termination
  by (relation "measure (\<lambda>(p, fs). length p)") auto

declare mkdir_parents.simps [simp del]

text \<open>\<open>shutil.rmtree\<close> of a directory: the entry and all below it. Links are removed, not followed.\<close>

definition rmtree :: "path \<Rightarrow> fs \<Rightarrow> fs" where
  "rmtree d fs = filter (\<lambda>(p, e). \<not> prefix d p) fs"

definition file_size :: "entry \<Rightarrow> nat" where
  "file_size e = (case e of RegFile c \<Rightarrow> length c | _ \<Rightarrow> 0)"

text \<open>The regular files below a directory, which is what \<open>os.walk\<close> without links visits.\<close>

definition tree_size :: "fs \<Rightarrow> path \<Rightarrow> nat" where
  "tree_size fs d = (\<Sum>(p, e) \<leftarrow> fs. if prefix d p then file_size e else 0)"

text \<open>A store that may come from a running host: every path once, and never an empty one.\<close>

definition fs_ok :: "fs \<Rightarrow> bool" where
  "fs_ok fs \<longleftrightarrow> distinct (map fst fs) \<and> [] \<notin> fst ` set fs"

section \<open>Laws\<close>

lemma fs_ok_dput [simp]: "fs_ok fs \<Longrightarrow> p \<noteq> [] \<Longrightarrow> fs_ok (dput p e fs)"
  by (simp add: fs_ok_def)

lemma fs_ok_dpop [simp]: "fs_ok fs \<Longrightarrow> fs_ok (dpop p fs)"
  by (auto simp: fs_ok_def distinct_dpop) (force simp: dpop_def)

lemma fs_ok_rmtree [simp]: "fs_ok fs \<Longrightarrow> fs_ok (rmtree d fs)"
  by (auto simp: fs_ok_def rmtree_def intro: distinct_map_filter)

lemma entry_at_dput: "q \<noteq> [] \<Longrightarrow> entry_at (dput q e fs) p = (if p = q then Some e else entry_at fs p)"
  by (simp add: entry_at_def)

lemma entry_at_dpop: "q \<noteq> [] \<Longrightarrow> entry_at (dpop q fs) p = (if p = q then None else entry_at fs p)"
  by (simp add: entry_at_def)

lemma entry_at_rmtree: "d \<noteq> [] \<Longrightarrow> entry_at (rmtree d fs) p = (if prefix d p then None else entry_at fs p)"
proof -
  have "map_of (rmtree d fs) p = (if prefix d p then None else map_of fs p)"
    by (induction fs) (auto simp: rmtree_def)
  moreover assume "d \<noteq> []"
  ultimately show ?thesis by (auto simp: entry_at_def)
qed

lemma tree_size_Cons: "tree_size ((p, e) # fs) d = (if prefix d p then file_size e else 0) + tree_size fs d"
  by (simp add: tree_size_def)

lemma tree_size_absent: "map_of fs q = None \<Longrightarrow> tree_size (dput q e fs) d = tree_size fs d + (if prefix d q then file_size e else 0)"
  by (induction fs) (auto simp: tree_size_Cons tree_size_def split: if_splits)

lemma tree_size_present:
  "map_of fs q = Some old \<Longrightarrow> prefix d q \<Longrightarrow> tree_size (dput q e fs) d + file_size old = tree_size fs d + file_size e"
  by (induction fs) (auto simp: tree_size_Cons split: if_splits)

lemma tree_size_dpop:
  "distinct (map fst fs) \<Longrightarrow> map_of fs q = Some old \<Longrightarrow> prefix d q \<Longrightarrow>
    tree_size (dpop q fs) d + file_size old = tree_size fs d"
proof (induction fs)
  case Nil
  then show ?case by simp
next
  case (Cons x fs)
  obtain p e where x: "x = (p, e)" by (cases x)
  show ?case
  proof (cases "p = q")
    case True
    then have "dpop q (x # fs) = fs" using Cons.prems x by (force simp: dpop_def filter_id_conv)
    then show ?thesis using Cons.prems True x by (simp add: tree_size_Cons)
  next
    case False
    then have "dpop q (x # fs) = x # dpop q fs" using x by (simp add: dpop_def)
    then show ?thesis using Cons False x by (simp add: tree_size_Cons)
  qed
qed

lemma tree_size_member: "map_of fs q = Some old \<Longrightarrow> prefix d q \<Longrightarrow> file_size old \<le> tree_size fs d"
  by (induction fs) (auto simp: tree_size_Cons split: if_splits)

text \<open>Directories may appear, and nothing else changes: what preparing a layout does.\<close>

definition only_dirs_added :: "fs \<Rightarrow> fs \<Rightarrow> bool" where
  "only_dirs_added fs fs' \<longleftrightarrow> (fs_ok fs \<longrightarrow> fs_ok fs') \<and>
    (\<forall>p. entry_at fs' p = entry_at fs p \<or> entry_at fs p = None \<and> entry_at fs' p = Some Directory) \<and>
    (\<forall>d. tree_size fs' d = tree_size fs d)"

lemma only_dirs_added_refl [simp]: "only_dirs_added fs fs"
  by (simp add: only_dirs_added_def)

lemma only_dirs_added_trans: "only_dirs_added a b \<Longrightarrow> only_dirs_added b c \<Longrightarrow> only_dirs_added a c"
  unfolding only_dirs_added_def by (metis option.distinct(1))

lemma only_dirs_added_new: "p \<noteq> [] \<Longrightarrow> entry_at fs p = None \<Longrightarrow> only_dirs_added fs (dput p Directory fs)"
  by (auto simp: only_dirs_added_def entry_at_dput tree_size_absent file_size_def) (simp add: entry_at_def tree_size_absent file_size_def)

lemma os_mkdir_adds: "os_mkdir fs p = Inr fs' \<Longrightarrow> only_dirs_added fs fs'"
  by (auto simp: os_mkdir_def exc_simps intro: only_dirs_added_new split: if_splits)

lemma mkdir_exist_ok_adds: "mkdir_exist_ok fs p = Inr fs' \<Longrightarrow> only_dirs_added fs fs'"
  by (auto simp: mkdir_exist_ok_def intro: os_mkdir_adds split: sum.splits exc.splits if_splits)

lemma mkdir_parents_adds: "only_dirs_added fs (snd (mkdir_parents p fs))"
proof (induction p fs rule: mkdir_parents.induct)
  case (1 p fs)
  show ?case
  proof (cases "os_mkdir fs p")
    case (Inr fs1)
    then show ?thesis using os_mkdir_adds by (subst mkdir_parents.simps) auto
  next
    case (Inl e)
    show ?thesis
    proof (cases "\<exists>m. e = FileNotFoundError m")
      case True
      then obtain m where e: "e = FileNotFoundError m" by blast
      have "p \<noteq> []" using Inl e by (auto simp: os_mkdir_def)
      then show ?thesis using 1 [OF Inl e] Inl e
        by (subst mkdir_parents.simps)
          (auto split: prod.splits sum.splits dest: mkdir_exist_ok_adds intro: only_dirs_added_trans)
    next
      case False
      then show ?thesis using Inl by (subst mkdir_parents.simps) (auto split: exc.splits)
    qed
  qed
qed

section \<open>Stable parts of the tree\<close>

text \<open>\<open>fs'\<close> has the directories and links of \<open>fs\<close>, and no other links: what was reached
  in one is reached in the other.\<close>

definition same_shape :: "fs \<Rightarrow> fs \<Rightarrow> bool" where
  "same_shape fs fs' \<longleftrightarrow>
    (\<forall>p. entry_at fs p = Some Directory \<longrightarrow> entry_at fs' p = Some Directory) \<and>
    (\<forall>p a t. entry_at fs p = Some (Symlink a t) \<longleftrightarrow> entry_at fs' p = Some (Symlink a t))"

lemma same_shape_refl [simp]: "same_shape fs fs" by (simp add: same_shape_def)

lemma same_shape_trans: "same_shape a b \<Longrightarrow> same_shape b c \<Longrightarrow> same_shape a c"
  by (simp add: same_shape_def)

lemma only_dirs_added_shape: "only_dirs_added fs fs' \<Longrightarrow> same_shape fs fs'"
  unfolding only_dirs_added_def same_shape_def by (metis entry.distinct(5) option.distinct(1) option.inject)

lemma same_shape_file:
  "q \<noteq> [] \<Longrightarrow> entry_at fs q = None \<or> (\<exists>c. entry_at fs q = Some (RegFile c)) \<Longrightarrow> same_shape fs (dput q (RegFile c) fs)"
  by (auto simp: same_shape_def entry_at_dput)

lemma resolve_same: "same_shape fs fs' \<Longrightarrow> resolve fs' n cur ps = resolve fs n cur ps"
proof (induction fs n cur ps rule: resolve.induct)
  case (1 fs n cur)
  then show ?case by simp
next
  case (2 fs n cur p rest)
  show ?case
  proof (cases "\<exists>a t. entry_at fs (cur @ [p]) = Some (Symlink a t)")
    case True
    then obtain a t where "entry_at fs (cur @ [p]) = Some (Symlink a t)" by blast
    moreover from this have "entry_at fs' (cur @ [p]) = Some (Symlink a t)" using "2.prems" by (simp add: same_shape_def)
    ultimately show ?thesis using 2 by auto
  next
    case False
    then have "\<And>a t. entry_at fs' (cur @ [p]) \<noteq> Some (Symlink a t)" using "2.prems" by (simp add: same_shape_def)
    with False 2 show ?thesis by (auto split: option.splits entry.splits)
  qed
qed

lemma namei_same: "same_shape fs fs' \<Longrightarrow> namei fs n cur ps = Inr d \<Longrightarrow> namei fs' n cur ps = Inr d"
proof (induction fs n cur ps rule: namei.induct)
  case (1 fs n cur)
  then show ?case by simp
next
  case (2 fs n cur p rest)
  have "entry_at fs (cur @ [p]) = Some (Symlink a t) \<Longrightarrow> entry_at fs' (cur @ [p]) = Some (Symlink a t)"
    "entry_at fs (cur @ [p]) = Some Directory \<Longrightarrow> entry_at fs' (cur @ [p]) = Some Directory" for a t
    using 2 by (auto simp: same_shape_def)
  with 2 show ?case by (auto split: option.splits entry.splits if_splits)
qed

lemma namei_snoc: "namei fs n cur ps = Inr d \<Longrightarrow> entry_at fs (d @ [x]) = Some Directory \<Longrightarrow> x \<noteq> ''..'' \<Longrightarrow>
    namei fs n cur (ps @ [x]) = Inr (d @ [x])"
  by (induction fs n cur ps rule: namei.induct) (auto split: option.splits entry.splits if_splits)

lemma namei_snocD: "namei fs n cur (ps @ [x]) = Inr d \<Longrightarrow> x \<noteq> ''..'' \<Longrightarrow>
    \<exists>d'. namei fs n cur ps = Inr d' \<and> entry_at fs (d' @ [x]) \<noteq> None"
  by (induction fs n cur ps rule: namei.induct) (auto split: option.splits entry.splits if_splits)

lemma is_dir_same: "same_shape fs fs' \<Longrightarrow> is_dir fs p \<Longrightarrow> is_dir fs' p"
  by (auto simp: is_dir_def dest: namei_same split: sum.splits)

definition plain_path :: "path \<Rightarrow> bool" where
  "plain_path p \<longleftrightarrow> ''..'' \<notin> set p"

lemma plain_path_butlast: "plain_path p \<Longrightarrow> plain_path (butlast p)"
  by (auto simp: plain_path_def dest: in_set_butlastD)

lemma os_mkdir_is_dir: "os_mkdir fs p = Inr fs' \<Longrightarrow> plain_path p \<Longrightarrow> is_dir fs' p"
proof -
  assume m: "os_mkdir fs p = Inr fs'" and p: "plain_path p"
  then obtain d where "p \<noteq> []" and d: "namei fs MAX_LINKS [] (butlast p) = Inr d"
    and new: "entry_at fs (d @ [last p]) = None" and fs': "fs' = dput (d @ [last p]) Directory fs"
    by (auto simp: os_mkdir_def exc_simps split: if_splits)
  have "namei fs' MAX_LINKS [] (butlast p) = Inr d"
    using namei_same [OF only_dirs_added_shape [OF os_mkdir_adds [OF m]] d] .
  moreover have "entry_at fs' (d @ [last p]) = Some Directory" by (simp add: fs' entry_at_dput)
  moreover have "last p \<noteq> ''..''" using p last_in_set [OF \<open>p \<noteq> []\<close>] by (auto simp: plain_path_def)
  ultimately have "namei fs' MAX_LINKS [] (butlast p @ [last p]) = Inr (d @ [last p])" by (rule namei_snoc)
  then show ?thesis using \<open>p \<noteq> []\<close> by (simp add: is_dir_def)
qed

lemma mkdir_exist_ok_is_dir: "mkdir_exist_ok fs p = Inr fs' \<Longrightarrow> plain_path p \<Longrightarrow> is_dir fs' p"
  by (auto simp: mkdir_exist_ok_def intro: os_mkdir_is_dir split: sum.splits exc.splits if_splits)

lemma mkdir_parents_is_dir: "mkdir_parents p fs = (Inr u, fs') \<Longrightarrow> plain_path p \<Longrightarrow> is_dir fs' p"
  by (subst (asm) mkdir_parents.simps)
    (auto intro: os_mkdir_is_dir mkdir_exist_ok_is_dir split: sum.splits exc.splits if_splits prod.splits)

lemma mkdir_parents_again: "is_dir fs p \<Longrightarrow> plain_path p \<Longrightarrow> mkdir_parents p fs = (Inr (), fs)"
proof (cases "p = []")
  case True
  moreover assume "is_dir fs p"
  ultimately show ?thesis by (subst mkdir_parents.simps) (simp add: os_mkdir_def)
next
  case False
  assume d: "is_dir fs p" and p: "plain_path p"
  then obtain e where "namei fs MAX_LINKS [] (butlast p @ [last p]) = Inr e"
    using False by (auto simp: is_dir_def split: sum.splits)
  moreover have "last p \<noteq> ''..''" using p last_in_set [OF False] by (auto simp: plain_path_def)
  ultimately obtain d' where "namei fs MAX_LINKS [] (butlast p) = Inr d'" "entry_at fs (d' @ [last p]) \<noteq> None"
    using namei_snocD by blast
  then have "os_mkdir fs p = Inl (FileExistsError (last p))" using False by (simp add: os_mkdir_def)
  then show ?thesis using d by (subst mkdir_parents.simps) simp
qed

end
