(* ===== verification/Workspaces.thy ===== *)
theory Workspaces
  imports FileSystem WorkspacePaths StepLogic
begin

text \<open>
  \<open>file_service/workspace.py\<close>: the layout of one Agent x User pair and the resolution of
  client paths inside it. The roots are the configured absolute directories; the names with
  \<open>_real\<close> are what they resolve to. Ownership and modes of the directories are left out,
  as is the \<open>user_guard\<close> hook, which no caller sets.
\<close>

type_synonym 'a fsx = "(fs, 'a) sx"

record manager =
  wm_root :: path
  wm_state :: path
  wm_root_real :: path
  wm_state_real :: path

record workspace_layout =
  wl_workspace :: path
  wl_shared :: path
  wl_sessions :: path
  wl_state :: path

definition resolve_contained :: "fs \<Rightarrow> path \<Rightarrow> path \<Rightarrow> path res" where
  "resolve_contained fs candidate root_real = (case resolve fs MAX_LINKS [] candidate of
     None \<Rightarrow> Inl (WorkspacePathError ''cannot resolve workspace path'')
   | Some resolved \<Rightarrow>
       (if \<not> prefix root_real resolved then Inl (WorkspacePathError ''path escapes the selected workspace scope'')
        else Inr resolved))"

definition create_directory :: "path \<Rightarrow> path \<Rightarrow> path \<Rightarrow> path fsx" where
  "create_directory lexical_root containment_root parts =
    (let candidate = lexical_root @ parts in
     sx_then (sx_lift (\<lambda>fs. resolve_contained fs candidate containment_root))
     (sx_then (mkdir_parents candidate)
     (sx_bind (sx_lift (\<lambda>fs. resolve_contained fs candidate containment_root)) (\<lambda>resolved.
      sx_bind sx_get (\<lambda>fs.
      if \<not> is_dir fs resolved then sx_raise (WorkspacePathError ''workspace path is not a directory'')
      else sx_return resolved)))))"

definition ensure_user_layout :: "manager \<Rightarrow> string \<Rightarrow> string \<Rightarrow> workspace_layout fsx" where
  "ensure_user_layout mgr agent_id username =
    sx_bind (sx_of_res (validate_identifier agent_id ''agent_id'')) (\<lambda>agent.
    sx_bind (sx_of_res (validate_identifier username ''username'')) (\<lambda>user.
    sx_bind (create_directory (wm_root mgr) (wm_root_real mgr) [agent, user]) (\<lambda>workspace.
    sx_bind (create_directory workspace workspace [''shared'']) (\<lambda>shared.
    sx_bind (create_directory workspace workspace [''sessions'']) (\<lambda>sessions.
    sx_bind (create_directory (wm_state mgr) (wm_state_real mgr) [agent, user, ''opencode'']) (\<lambda>state.
    sx_return \<lparr>wl_workspace = workspace, wl_shared = shared, wl_sessions = sessions, wl_state = state\<rparr>))))))"

definition user_scope :: "manager \<Rightarrow> string \<Rightarrow> string \<Rightarrow> string option \<Rightarrow> path fsx" where
  "user_scope mgr agent_id username session_id =
    sx_bind (ensure_user_layout mgr agent_id username) (\<lambda>layout.
    case session_id of
      None \<Rightarrow> sx_return (wl_shared layout)
    | Some sid \<Rightarrow> sx_bind (sx_of_res (validate_identifier sid ''session_id'')) (\<lambda>session.
        create_directory (wl_sessions layout) (wl_workspace layout) [session]))"

definition resolve_user_path ::
  "manager \<Rightarrow> string \<Rightarrow> string \<Rightarrow> string \<Rightarrow> string option \<Rightarrow> bool \<Rightarrow> path fsx" where
  "resolve_user_path mgr agent_id username relative_path session_id create_parent =
    sx_bind (sx_of_res (normalize_relative_parts relative_path)) (\<lambda>parts.
    sx_bind (user_scope mgr agent_id username session_id) (\<lambda>scope.
    sx_bind (sx_lift (\<lambda>fs. case resolve fs MAX_LINKS [] scope of
        Some d \<Rightarrow> Inr d | None \<Rightarrow> Inl (OSError ''ELOOP''))) (\<lambda>scope_real.
    let candidate = scope @ parts in
    sx_bind (sx_lift (\<lambda>fs. resolve_contained fs candidate scope_real)) (\<lambda>resolved.
    if create_parent \<and> parts \<noteq> []
    then sx_then (mkdir_parents (butlast candidate)) (sx_lift (\<lambda>fs. resolve_contained fs candidate scope_real))
    else sx_return resolved))))"

section \<open>Preparing a layout only adds directories\<close>

definition adds_dirs :: "'a fsx \<Rightarrow> bool" where
  "adds_dirs m \<longleftrightarrow> (\<forall>s. only_dirs_added s (snd (m s)))"

named_theorems dir_steps \<open>steps that only add directories\<close>

lemma adds_dirs_pure [dir_steps]:
  "adds_dirs (sx_return x)" "adds_dirs (sx_raise e)" "adds_dirs (sx_lift f)" "adds_dirs (sx_of_res r)" "adds_dirs sx_get"
  by (simp_all add: adds_dirs_def sx_step_defs)

lemma adds_dirs_bind [dir_steps]: "adds_dirs m \<Longrightarrow> (\<And>x. adds_dirs (f x)) \<Longrightarrow> adds_dirs (sx_bind m f)"
  unfolding adds_dirs_def sx_bind_def
  by (auto split: prod.splits sum.splits) (metis only_dirs_added_trans snd_conv)+

lemma adds_dirs_then [dir_steps]: "adds_dirs m \<Longrightarrow> adds_dirs n \<Longrightarrow> adds_dirs (sx_then m n)"
  unfolding sx_then_def by (rule adds_dirs_bind)

lemma adds_dirs_mkdir [dir_steps]: "adds_dirs (mkdir_parents p)"
  by (simp add: adds_dirs_def mkdir_parents_adds)

lemma adds_dirs_create [dir_steps]: "adds_dirs (create_directory l c ps)"
  unfolding create_directory_def Let_def by (auto intro!: dir_steps)

lemma adds_dirs_layout [dir_steps]: "adds_dirs (ensure_user_layout mgr a u)"
  unfolding ensure_user_layout_def by (auto intro!: dir_steps)

lemma adds_dirs_scope [dir_steps]: "adds_dirs (user_scope mgr a u sid)"
  unfolding user_scope_def by (auto intro!: dir_steps split: option.splits)

lemma adds_dirs_resolve_user: "adds_dirs (resolve_user_path mgr a u rel sid cp)"
  unfolding resolve_user_path_def Let_def by (auto intro!: dir_steps)

lemma adds_dirsD: "adds_dirs m \<Longrightarrow> m s = (r, t) \<Longrightarrow> only_dirs_added s t"
  unfolding adds_dirs_def by (metis snd_conv)

section \<open>What is handed out stays inside its root\<close>

lemma resolve_contained_Inr:
  "resolve_contained fs p base = Inr r \<longleftrightarrow> resolve fs MAX_LINKS [] p = Some r \<and> prefix base r"
  by (auto simp: resolve_contained_def split: option.splits)

lemma create_directoryD:
  assumes "create_directory l c ps fs = (Inr r, fs')"
  shows "prefix c r" "resolve fs MAX_LINKS [] (l @ ps) = Some r" "is_dir fs' r" "mkdir_parents (l @ ps) fs = (Inr (), fs')"
proof -
  obtain r0 u where r0: "resolve_contained fs (l @ ps) c = Inr r0" and m: "mkdir_parents (l @ ps) fs = (Inr u, fs')"
    and r: "resolve_contained fs' (l @ ps) c = Inr r" and d: "is_dir fs' r"
    using assms by (auto simp: create_directory_def Let_def sx_outcome_simps split: if_splits)
  have "resolve fs' MAX_LINKS [] (l @ ps) = resolve fs MAX_LINKS [] (l @ ps)"
    using mkdir_parents_adds [of fs "l @ ps"] m by (auto intro: resolve_same only_dirs_added_shape)
  then show "prefix c r" "resolve fs MAX_LINKS [] (l @ ps) = Some r" "is_dir fs' r" "mkdir_parents (l @ ps) fs = (Inr (), fs')"
    using r d m by (auto simp: resolve_contained_Inr)
qed

text \<open>Later, with the same directories and links, the same call gives the same directory and
  changes nothing.\<close>

lemma create_directory_again:
  assumes c: "create_directory l c ps fs = (Inr r, fs')" and s: "same_shape fs' fs2" and p: "plain_path (l @ ps)"
  shows "create_directory l c ps fs2 = (Inr r, fs2)"
proof -
  note d = create_directoryD [OF c]
  have sh: "same_shape fs fs'" using adds_dirsD [OF adds_dirs_create c] by (rule only_dirs_added_shape)
  have "resolve fs2 MAX_LINKS [] (l @ ps) = Some r"
    using resolve_same [OF same_shape_trans [OF sh s]] d(2) by simp
  moreover have "is_dir fs2 (l @ ps)" using mkdir_parents_is_dir [OF d(4) p] is_dir_same [OF s] by blast
  moreover have "is_dir fs2 r" using d(3) is_dir_same [OF s] by blast
  ultimately show ?thesis using d(1) p
    by (simp add: create_directory_def Let_def sx_step_defs resolve_contained_def mkdir_parents_again)
qed

lemma identifier_plain: "identifier_pattern v \<Longrightarrow> v \<noteq> ''..''"
  using identifier_pattern_safe [of v] by auto

lemma plain_append [simp]: "plain_path (a @ b) \<longleftrightarrow> plain_path a \<and> plain_path b"
  by (auto simp: plain_path_def)

lemma plain_Cons [simp]: "plain_path (x # b) \<longleftrightarrow> x \<noteq> ''..'' \<and> plain_path b"
  by (auto simp: plain_path_def)

lemma plain_Nil [simp]: "plain_path []"
  by (simp add: plain_path_def)

text \<open>What resolves to a real path has no step upwards left.\<close>

lemma resolve_plain: "resolve fs n cur ps = Some r \<Longrightarrow> plain_path cur \<Longrightarrow> plain_path r"
  by (induction fs n cur ps rule: resolve.induct)
    (auto simp: plain_path_butlast split: option.splits entry.splits if_splits)

lemma create_directory_plain: "create_directory l c ps fs = (Inr r, fs') \<Longrightarrow> plain_path r"
  by (drule create_directoryD(2)) (auto dest: resolve_plain)

lemma identifier_accepted: "identifier_pattern v \<Longrightarrow> validate_identifier v f = Inr v"
  by (simp add: validate_identifier_iff)

definition manager_ok :: "manager \<Rightarrow> bool" where
  "manager_ok mgr \<longleftrightarrow> plain_path (wm_root mgr) \<and> plain_path (wm_state mgr)"

lemma ensure_user_layoutD:
  assumes "ensure_user_layout mgr a u fs = (Inr layout, fs')"
  obtains fs1 fs2 fs3 where
    "identifier_pattern a" "identifier_pattern u"
    "create_directory (wm_root mgr) (wm_root_real mgr) [a, u] fs = (Inr (wl_workspace layout), fs1)"
    "create_directory (wl_workspace layout) (wl_workspace layout) [''shared''] fs1 = (Inr (wl_shared layout), fs2)"
    "create_directory (wl_workspace layout) (wl_workspace layout) [''sessions''] fs2 = (Inr (wl_sessions layout), fs3)"
    "create_directory (wm_state mgr) (wm_state_real mgr) [a, u, ''opencode''] fs3 = (Inr (wl_state layout), fs')"
  using assms by (auto simp: ensure_user_layout_def sx_outcome_simps validate_identifier_iff)

lemma create_shape: "create_directory l c ps fs = (r, fs') \<Longrightarrow> same_shape fs fs'"
  using adds_dirsD [OF adds_dirs_create] only_dirs_added_shape by blast

lemma ensure_user_layout_again:
  assumes l: "ensure_user_layout mgr a u fs = (Inr layout, fs')" and s: "same_shape fs' fs2" and m: "manager_ok mgr"
  shows "ensure_user_layout mgr a u fs2 = (Inr layout, fs2)"
proof -
  from l obtain f1 f2 f3 where v: "identifier_pattern a" "identifier_pattern u"
    and c1: "create_directory (wm_root mgr) (wm_root_real mgr) [a, u] fs = (Inr (wl_workspace layout), f1)"
    and c2: "create_directory (wl_workspace layout) (wl_workspace layout) [''shared''] f1 = (Inr (wl_shared layout), f2)"
    and c3: "create_directory (wl_workspace layout) (wl_workspace layout) [''sessions''] f2 = (Inr (wl_sessions layout), f3)"
    and c4: "create_directory (wm_state mgr) (wm_state_real mgr) [a, u, ''opencode''] f3 = (Inr (wl_state layout), fs')"
    by (rule ensure_user_layoutD)
  have s3: "same_shape f3 fs2" using create_shape [OF c4] s same_shape_trans by blast
  have s2: "same_shape f2 fs2" using create_shape [OF c3] s3 same_shape_trans by blast
  have s1: "same_shape f1 fs2" using create_shape [OF c2] s2 same_shape_trans by blast
  have p: "a \<noteq> ''..''" "u \<noteq> ''..''" using v [THEN identifier_plain] by auto
  have w: "plain_path (wl_workspace layout)" by (rule create_directory_plain [OF c1])
  have "create_directory (wm_root mgr) (wm_root_real mgr) [a, u] fs2 = (Inr (wl_workspace layout), fs2)"
    by (rule create_directory_again [OF c1 s1]) (use m p in \<open>simp add: manager_ok_def\<close>)
  moreover have "create_directory (wl_workspace layout) (wl_workspace layout) [''shared''] fs2 = (Inr (wl_shared layout), fs2)"
    by (rule create_directory_again [OF c2 s2]) (use w in simp)
  moreover have "create_directory (wl_workspace layout) (wl_workspace layout) [''sessions''] fs2 = (Inr (wl_sessions layout), fs2)"
    by (rule create_directory_again [OF c3 s3]) (use w in simp)
  moreover have "create_directory (wm_state mgr) (wm_state_real mgr) [a, u, ''opencode''] fs2 = (Inr (wl_state layout), fs2)"
    by (rule create_directory_again [OF c4 s]) (use m p in \<open>simp add: manager_ok_def\<close>)
  ultimately show ?thesis using v by (simp add: ensure_user_layout_def sx_step_defs identifier_accepted)
qed

lemma user_scopeD:
  assumes "user_scope mgr a u sid fs = (Inr scope, fs')"
  obtains layout fs1 where "ensure_user_layout mgr a u fs = (Inr layout, fs1)" "prefix (wl_workspace layout) scope"
    "same_shape fs1 fs'"
proof -
  obtain layout fs1 where l: "ensure_user_layout mgr a u fs = (Inr layout, fs1)"
    and c: "case sid of None \<Rightarrow> scope = wl_shared layout \<and> fs' = fs1
       | Some x \<Rightarrow> create_directory (wl_sessions layout) (wl_workspace layout) [x] fs1 = (Inr scope, fs')"
    using assms by (cases sid) (auto simp: user_scope_def sx_outcome_simps validate_identifier_iff)
  have "prefix (wl_workspace layout) scope"
    using c ensure_user_layoutD [OF l] by (cases sid) (auto dest: create_directoryD(1))
  moreover have "same_shape fs1 fs'" using c by (auto intro: create_shape split: option.splits)
  ultimately show thesis using l that by blast
qed

lemma user_scope_again:
  assumes u: "user_scope mgr a u sid fs = (Inr scope, fs')" and s: "same_shape fs' fs2" and m: "manager_ok mgr"
  shows "user_scope mgr a u sid fs2 = (Inr scope, fs2)"
proof -
  obtain layout fs1 where l: "ensure_user_layout mgr a u fs = (Inr layout, fs1)"
    and c: "case sid of None \<Rightarrow> scope = wl_shared layout \<and> fs' = fs1
       | Some x \<Rightarrow> identifier_pattern x \<and>
           create_directory (wl_sessions layout) (wl_workspace layout) [x] fs1 = (Inr scope, fs')"
    using u by (cases sid) (auto simp: user_scope_def sx_outcome_simps validate_identifier_iff)
  have s1: "same_shape fs1 fs2"
    using c s by (auto dest: create_shape intro: same_shape_trans split: option.splits)
  have again: "ensure_user_layout mgr a u fs2 = (Inr layout, fs2)" by (rule ensure_user_layout_again [OF l s1 m])
  show ?thesis
  proof (cases sid)
    case None
    then show ?thesis using c again by (simp add: user_scope_def sx_step_defs)
  next
    case (Some x)
    have "plain_path (wl_sessions layout)" by (rule ensure_user_layoutD [OF l]) (rule create_directory_plain)
    then have "create_directory (wl_sessions layout) (wl_workspace layout) [x] fs2 = (Inr scope, fs2)"
      using c Some create_directory_again [OF _ s] identifier_plain by fastforce
    then show ?thesis using c again Some by (simp add: user_scope_def sx_step_defs identifier_accepted)
  qed
qed

end
