(* ===== verification/FileStore.thy ===== *)
theory FileStore
  imports Workspaces OpsCalls
begin

text \<open>
  \<open>file_service/files.py\<close>: uploads, downloads and listings below one user's workspace. A
  file descriptor of a directory is the path it was opened at: every component is opened without
  following links. Chunks are what \<open>upload.read\<close> yields or raises, \<open>token\<close> the random part of the
  temporary name, \<open>accept\<close> how much of a buffer the kernel takes in one write, \<open>digest\<close>
  SHA-256. Changes another process makes between two calls are not modelled.
\<close>

record storage =
  max_upload_mb :: nat
  max_user_workspace_gb :: nat

section \<open>Opening below a scope\<close>

definition openat_dir :: "fs \<Rightarrow> path \<Rightarrow> string \<Rightarrow> path res" where
  "openat_dir fs d name = (case entry_at fs (d @ [name]) of
     None \<Rightarrow> Inl (FileNotFoundError name)
   | Some Directory \<Rightarrow> Inr (d @ [name])
   | Some _ \<Rightarrow> Inl (OSError ''ENOTDIR''))"

definition open_scope :: "fs \<Rightarrow> path \<Rightarrow> path res" where
  "open_scope fs scope =
    (if scope = [] then Inr []
     else ebind (namei fs MAX_LINKS [] (butlast scope)) (\<lambda>d. openat_dir fs d (last scope)))"

definition mkdirat :: "path \<Rightarrow> string \<Rightarrow> unit fsx" where
  "mkdirat d name = sx_modify (\<lambda>fs. if entry_at fs (d @ [name]) = None then dput (d @ [name]) Directory fs else fs)"

fun walk :: "bool \<Rightarrow> string list \<Rightarrow> path \<Rightarrow> path fsx" where
  "walk create [] d = sx_return d"
| "walk create (p # ps) d =
    sx_then (if create then mkdirat d p else sx_return ())
    (sx_bind (sx_lift (\<lambda>fs. openat_dir fs d p)) (walk create ps))"

definition walk_directory :: "path \<Rightarrow> string list \<Rightarrow> bool \<Rightarrow> path fsx" where
  "walk_directory scope parts create =
    sx_bind (sx_lift (\<lambda>fs. open_scope fs scope)) (\<lambda>d.
    sx_catch (walk create parts d) (\<lambda>e. case e of
        FileNotFoundError _ \<Rightarrow> None
      | RuntimeError _ \<Rightarrow> Some (sx_raise (WorkspacePathError ''unsafe workspace directory''))
      | _ \<Rightarrow> if is_os_error e then Some (sx_raise (WorkspacePathError ''unsafe workspace directory'')) else None))"

definition open_parent ::
  "manager \<Rightarrow> string \<Rightarrow> string \<Rightarrow> string \<Rightarrow> string option \<Rightarrow> bool \<Rightarrow> (path \<times> string) fsx" where
  "open_parent mgr agent_id username p session_id create =
    sx_bind (sx_of_res (normalize_relative_parts p)) (\<lambda>parts.
    if parts = [] then sx_raise (WorkspacePathError ''file path cannot be empty'')
    else sx_bind (user_scope mgr agent_id username session_id) (\<lambda>scope.
      sx_bind (walk_directory scope (butlast parts) create) (\<lambda>d. sx_return (d, last parts))))"

section \<open>Uploads\<close>

definition existing_regular_size :: "path \<Rightarrow> fs \<Rightarrow> nat res" where
  "existing_regular_size target fs = (case entry_at fs target of
     None \<Rightarrow> Inr 0
   | Some (RegFile c) \<Rightarrow> Inr (length c)
   | Some _ \<Rightarrow> Inl (WorkspacePathError ''upload target is not a regular file''))"

definition reject_nonregular :: "path \<Rightarrow> fs \<Rightarrow> unit res" where
  "reject_nonregular target fs = (case entry_at fs target of
     None \<Rightarrow> Inr ()
   | Some (RegFile c) \<Rightarrow> Inr ()
   | Some _ \<Rightarrow> Inl (WorkspacePathError ''upload target is not a regular file''))"

definition create_file :: "path \<Rightarrow> unit fsx" where
  "create_file p = (\<lambda>fs. if entry_at fs p \<noteq> None then (Inl (FileExistsError (last p)), fs) else (Inr (), dput p (RegFile []) fs))"

definition append_file :: "path \<Rightarrow> bytes \<Rightarrow> fs \<Rightarrow> fs" where
  "append_file p data fs = (case entry_at fs p of Some (RegFile c) \<Rightarrow> dput p (RegFile (c @ data)) fs | _ \<Rightarrow> fs)"

function write_all :: "(fs \<Rightarrow> bytes \<Rightarrow> nat) \<Rightarrow> path \<Rightarrow> bytes \<Rightarrow> unit fsx" where
  "write_all accept p data fs =
    (if data = [] then (Inr (), fs)
     else let written = min (accept fs data) (length data) in
       if written = 0 then (Inl (OSError ''short write while storing upload''), fs)
       else write_all accept p (drop written data) (append_file p (take written data) fs))"
  by pat_completeness auto
termination
  by (relation "measure (\<lambda>(accept, p, data, fs). length data)") auto

declare write_all.simps [simp del]

definition upload_guard :: "storage \<Rightarrow> nat \<Rightarrow> nat \<Rightarrow> nat \<Rightarrow> unit res" where
  "upload_guard cfg used old_size received_size =
    ebind (raise_if (received_size > max_upload_mb cfg * 1024 * 1024) (HTTPException 413 ''upload exceeds configured maximum'')) (\<lambda>_.
    raise_if (int used - int old_size + int received_size > int (max_user_workspace_gb cfg) * 1024 ^ 3)
      (HTTPException 413 ''workspace quota exceeded''))"

fun receive ::
  "storage \<Rightarrow> (fs \<Rightarrow> bytes \<Rightarrow> nat) \<Rightarrow> nat \<Rightarrow> nat \<Rightarrow> path \<Rightarrow> bytes res list \<Rightarrow> bytes \<Rightarrow> bytes fsx" where
  "receive cfg accept used old_size temp [] got = sx_return got"
| "receive cfg accept used old_size temp (Inl e # chunks) got = sx_raise e"
| "receive cfg accept used old_size temp (Inr chunk # chunks) got =
    (if chunk = [] then sx_return got
     else sx_then (sx_of_res (upload_guard cfg used old_size (length got + length chunk)))
       (sx_then (write_all accept temp chunk)
        (receive cfg accept used old_size temp chunks (got @ chunk))))"

definition os_replace :: "path \<Rightarrow> path \<Rightarrow> unit fsx" where
  "os_replace src dst = (\<lambda>fs. case entry_at fs src of
     None \<Rightarrow> (Inl (FileNotFoundError (last src)), fs)
   | Some e \<Rightarrow> (Inr (), dput dst e (dpop src fs)))"

definition unlink_missing_ok :: "path \<Rightarrow> unit fsx" where
  "unlink_missing_ok p = (\<lambda>fs. case entry_at fs p of
     None \<Rightarrow> (Inr (), fs)
   | Some Directory \<Rightarrow> (Inl (OSError ''EISDIR''), fs)
   | Some _ \<Rightarrow> (Inr (), dpop p fs))"

definition path_error_400 :: "'a fsx \<Rightarrow> 'a fsx" where
  "path_error_400 m = sx_catch m (\<lambda>e. case e of WorkspacePathError msg \<Rightarrow> Some (sx_raise (HTTPException 400 msg)) | _ \<Rightarrow> None)"

definition temp_name :: "string \<Rightarrow> string" where
  "temp_name token = ''.upload-'' @ token @ ''.tmp''"

definition destination_of :: "string option \<Rightarrow> string option \<Rightarrow> string" where
  "destination_of relative_path filename = (case relative_path of
     Some (c # cs) \<Rightarrow> c # cs | _ \<Rightarrow> path_name (case filename of Some f \<Rightarrow> f | None \<Rightarrow> []))"

text \<open>The body of the try block once the parent directory is open.\<close>

definition store_upload ::
  "storage \<Rightarrow> manager \<Rightarrow> (fs \<Rightarrow> bytes \<Rightarrow> nat) \<Rightarrow> string \<Rightarrow> string \<Rightarrow> path \<Rightarrow> path \<Rightarrow> bytes res list \<Rightarrow> bytes fsx" where
  "store_upload cfg mgr accept agent_id username target temp chunks =
    sx_bind (sx_lift (existing_regular_size target)) (\<lambda>old_size.
    sx_bind (ensure_user_layout mgr agent_id username) (\<lambda>layout.
    sx_bind sx_get (\<lambda>fs.
    sx_then (create_file temp)
    (sx_bind (receive cfg accept (tree_size fs (wl_workspace layout)) old_size temp chunks []) (\<lambda>content.
     sx_then (sx_lift (reject_nonregular target))
     (sx_then (os_replace temp target) (sx_return content)))))))"

record upload_result =
  up_path :: string
  up_size :: nat
  up_sha256 :: string

definition upload ::
  "storage \<Rightarrow> manager \<Rightarrow> (fs \<Rightarrow> bytes \<Rightarrow> nat) \<Rightarrow> (bytes \<Rightarrow> string) \<Rightarrow> string \<Rightarrow> string \<Rightarrow> string \<Rightarrow>
   string option \<Rightarrow> bytes res list \<Rightarrow> string option \<Rightarrow> string option \<Rightarrow> upload_result fsx" where
  "upload cfg mgr accept digest token agent_id username filename chunks relative_path session_id =
    (let destination = destination_of relative_path filename in
     if destination = [] then sx_raise (HTTPException 400 ''relative_path or a filename is required'')
     else sx_bind (path_error_400 (open_parent mgr agent_id username destination session_id True)) (\<lambda>(parent, name).
       sx_bind (sx_finally
           (path_error_400 (store_upload cfg mgr accept agent_id username (parent @ [name]) (parent @ [temp_name token]) chunks))
           (unlink_missing_ok (parent @ [temp_name token]))) (\<lambda>content.
       sx_bind (sx_of_res (normalize_relative_parts destination)) (\<lambda>parts.
       sx_return \<lparr>up_path = ''/workspace/'' @ (case session_id of Some (s # ss) \<Rightarrow> ''sessions/'' @ s # ss | _ \<Rightarrow> ''shared'')
             @ ''/'' @ join_with ''/'' parts,
           up_size = length content, up_sha256 = digest content\<rparr>))))"

section \<open>Downloads and listings\<close>

definition open_download :: "manager \<Rightarrow> string \<Rightarrow> string \<Rightarrow> string \<Rightarrow> string option \<Rightarrow> (bytes \<times> string) fsx" where
  "open_download mgr agent_id username p session_id =
    sx_bind (open_parent mgr agent_id username p session_id False) (\<lambda>(parent, name).
    sx_bind sx_get (\<lambda>fs. case entry_at fs (parent @ [name]) of
        None \<Rightarrow> sx_raise (FileNotFoundError name)
      | Some (RegFile c) \<Rightarrow> sx_return (c, name)
      | Some Directory \<Rightarrow> sx_raise (WorkspacePathError ''download target is not a regular file'')
      | Some (Symlink _ _) \<Rightarrow> sx_raise (WorkspacePathError ''unsafe download target'')))"

definition download_name :: "string \<Rightarrow> string" where
  "download_name filename =
    (let name = map (\<lambda>c. if 32 \<le> (of_char c :: nat) \<and> of_char c < (127 :: nat) \<and> c \<notin> {CHR 0x22, CHR 0x5C} then c else CHR ''_'')
           (filter (\<lambda>c. of_char c < (128 :: nat)) filename)
     in if name = [] then ''download'' else name)"

definition entry_kind :: "entry \<Rightarrow> string" where
  "entry_kind e = (case e of RegFile _ \<Rightarrow> ''file'' | Directory \<Rightarrow> ''directory'' | Symlink _ _ \<Rightarrow> ''symlink'')"

definition children :: "fs \<Rightarrow> path \<Rightarrow> string list" where
  "children fs d = sort (map last (filter (\<lambda>p. p \<noteq> [] \<and> butlast p = d) (map fst fs)))"

text \<open>The name, kind and size of each entry; sizes of directories and links, and times, are left out.\<close>

definition list_entries ::
  "manager \<Rightarrow> string \<Rightarrow> string \<Rightarrow> string \<Rightarrow> string option \<Rightarrow> (string \<times> string \<times> nat) list fsx" where
  "list_entries mgr agent_id username p session_id =
    sx_bind (user_scope mgr agent_id username session_id) (\<lambda>scope.
    sx_bind (sx_of_res (normalize_relative_parts p)) (\<lambda>parts.
    sx_bind (walk_directory scope parts False) (\<lambda>d.
    sx_bind sx_get (\<lambda>fs.
    sx_return (map (\<lambda>name. let e = the (entry_at fs (d @ [name])) in (name, entry_kind e, file_size e)) (children fs d))))))"

section \<open>Where an opened directory is\<close>

definition link_free :: "fs \<Rightarrow> path \<Rightarrow> bool" where
  "link_free fs p \<longleftrightarrow> (\<forall>q a t. prefix q p \<longrightarrow> entry_at fs q \<noteq> Some (Symlink a t))"

lemma link_free_snoc: "link_free fs (p @ [x]) \<longleftrightarrow> link_free fs p \<and> (\<forall>a t. entry_at fs (p @ [x]) \<noteq> Some (Symlink a t))"
  by (auto simp: link_free_def prefix_snoc)

lemma link_free_Nil [simp]: "link_free fs []"
  by (simp add: link_free_def entry_at_def)

lemma link_free_prefix: "link_free fs p \<Longrightarrow> prefix q p \<Longrightarrow> link_free fs q"
  by (auto simp: link_free_def dest: prefix_order.trans)

lemma link_free_butlast: "link_free fs p \<Longrightarrow> link_free fs (butlast p)"
  by (erule link_free_prefix) (rule prefixeq_butlast)

lemma resolve_link_free: "resolve fs n cur ps = Some r \<Longrightarrow> link_free fs cur \<Longrightarrow> link_free fs r"
  by (induction fs n cur ps rule: resolve.induct)
    (auto simp: link_free_snoc link_free_butlast split: option.splits entry.splits if_splits)

lemma namei_link_free:
  "namei fs n cur ps = Inr d \<Longrightarrow> link_free fs (cur @ ps) \<Longrightarrow> plain_path ps \<Longrightarrow> d = cur @ ps"
proof (induction fs n cur ps rule: namei.induct)
  case (1 fs n cur)
  then show ?case by simp
next
  case (2 fs n cur p rest)
  have "link_free fs (cur @ [p])" using 2 link_free_prefix [of fs "cur @ p # rest" "cur @ [p]"] by simp
  then have "\<And>a t. entry_at fs (cur @ [p]) \<noteq> Some (Symlink a t)" by (simp add: link_free_snoc)
  with 2 show ?case by (auto split: option.splits entry.splits)
qed

lemma openat_dirD: "openat_dir fs d p = Inr r \<Longrightarrow> r = d @ [p] \<and> entry_at fs r = Some Directory"
  by (auto simp: openat_dir_def split: option.splits entry.splits)

text \<open>Handlers that only translate an exception do not touch a normal return.\<close>

lemma sx_catch_raise_Inr:
  "(\<And>e k. h e = Some k \<Longrightarrow> \<exists>e'. k = sx_raise e') \<Longrightarrow> sx_catch m h s = (Inr y, t) \<longleftrightarrow> m s = (Inr y, t)"
  by (fastforce simp: sx_catch_def sx_raise_def split: prod.splits sum.splits option.splits)

lemma path_error_400_Inr: "path_error_400 m s = (Inr y, t) \<longleftrightarrow> m s = (Inr y, t)"
  unfolding path_error_400_def by (rule sx_catch_raise_Inr) (auto split: exc.splits)

lemma open_scopeD:
  assumes "open_scope fs scope = Inr d" and "link_free fs scope" and "plain_path scope" shows "d = scope"
proof (cases "scope = []")
  case True
  then show ?thesis using assms by (simp add: open_scope_def)
next
  case False
  obtain e where e: "namei fs MAX_LINKS [] (butlast scope) = Inr e" and d: "d = e @ [last scope]"
    using assms(1) False by (auto simp: open_scope_def exc_simps dest!: openat_dirD)
  have "e = butlast scope"
    using namei_link_free [OF e] assms(2,3) by (simp add: link_free_butlast plain_path_butlast)
  then show ?thesis using d False by simp
qed

lemma link_free_same: "link_free fs p \<Longrightarrow> same_shape fs fs' \<Longrightarrow> link_free fs' p"
  by (simp add: link_free_def same_shape_def)

lemma create_directory_link_free:
  "create_directory l c ps fs = (Inr r, fs') \<Longrightarrow> link_free fs' r \<and> plain_path r"
  by (meson create_directoryD(2) create_directory_plain create_shape link_free_Nil link_free_same resolve_link_free)

lemma user_scope_link_free:
  assumes "user_scope mgr a u sid fs = (Inr scope, fs')" shows "link_free fs' scope \<and> plain_path scope"
proof -
  obtain layout fs1 where l: "ensure_user_layout mgr a u fs = (Inr layout, fs1)"
    and c: "case sid of None \<Rightarrow> scope = wl_shared layout \<and> fs' = fs1
       | Some x \<Rightarrow> create_directory (wl_sessions layout) (wl_workspace layout) [x] fs1 = (Inr scope, fs')"
    using assms by (cases sid) (auto simp: user_scope_def sx_outcome_simps validate_identifier_iff)
  show ?thesis
  proof (cases sid)
    case None
    obtain f1 f2 f3 where "create_directory (wl_workspace layout) (wl_workspace layout) [''shared''] f1 = (Inr (wl_shared layout), f2)"
      "create_directory (wl_workspace layout) (wl_workspace layout) [''sessions''] f2 = (Inr (wl_sessions layout), f3)"
      "create_directory (wm_state mgr) (wm_state_real mgr) [a, u, ''opencode''] f3 = (Inr (wl_state layout), fs1)"
      by (rule ensure_user_layoutD [OF l])
    then have "link_free fs1 (wl_shared layout) \<and> plain_path (wl_shared layout)"
      by (meson create_directory_link_free create_shape link_free_same)
    then show ?thesis using c None by simp
  next
    case (Some x)
    then show ?thesis using c create_directory_link_free by auto
  qed
qed

lemma walk_below: "walk create ps d fs = (Inr r, fs') \<Longrightarrow> r = d @ ps"
  by (induction ps arbitrary: d fs) (fastforce simp: sx_outcome_simps dest!: openat_dirD)+

lemma adds_dirs_catch [dir_steps]:
  "adds_dirs m \<Longrightarrow> (\<And>e k. h e = Some k \<Longrightarrow> adds_dirs k) \<Longrightarrow> adds_dirs (sx_catch m h)"
  unfolding adds_dirs_def sx_catch_def
  by (auto split: prod.splits sum.splits option.splits) (metis only_dirs_added_trans snd_conv)+

lemma adds_dirs_mkdirat [dir_steps]: "adds_dirs (mkdirat d p)"
  by (auto simp: adds_dirs_def mkdirat_def sx_modify_def intro: only_dirs_added_new)

lemma adds_dirs_walk [dir_steps]: "adds_dirs (walk create ps d)"
  by (induction ps arbitrary: d) (auto intro!: dir_steps)

lemma adds_dirs_walk_directory [dir_steps]: "adds_dirs (walk_directory scope ps create)"
  unfolding walk_directory_def by (auto intro!: dir_steps split: exc.splits if_splits)

lemma adds_dirs_parent [dir_steps]: "adds_dirs (open_parent mgr a u p sid create)"
  unfolding open_parent_def by (auto intro!: dir_steps)

lemma walk_directory_Inr:
  "walk_directory scope ps create fs = (Inr r, fs') \<longleftrightarrow>
    (\<exists>d. open_scope fs scope = Inr d \<and> walk create ps d fs = (Inr r, fs'))"
proof -
  have "sx_catch (walk create ps d) (\<lambda>e. case e of
        FileNotFoundError _ \<Rightarrow> None
      | RuntimeError _ \<Rightarrow> Some (sx_raise (WorkspacePathError ''unsafe workspace directory''))
      | _ \<Rightarrow> if is_os_error e then Some (sx_raise (WorkspacePathError ''unsafe workspace directory'')) else None) fs = (Inr r, fs')
      \<longleftrightarrow> walk create ps d fs = (Inr r, fs')" for d
    by (rule sx_catch_raise_Inr) (auto split: exc.splits if_splits)
  then show ?thesis by (auto simp: walk_directory_def sx_outcome_simps)
qed

text \<open>Walking again over the directories that were made or found.\<close>

lemma walk_again:
  assumes "walk create ps d fs = (Inr r, fs')" and "same_shape fs' fs2"
  shows "walk False ps d fs2 = (Inr r, fs2)"
  using assms
proof (induction ps arbitrary: d fs)
  case Nil
  then show ?case by (simp add: sx_step_defs)
next
  case (Cons p ps)
  obtain fs1 where m: "(if create then mkdirat d p else sx_return ()) fs = (Inr (), fs1)"
    and o: "openat_dir fs1 d p = Inr (d @ [p])" and w: "walk create ps (d @ [p]) fs1 = (Inr r, fs')"
    using Cons.prems(1) by (auto simp: sx_outcome_simps dest: openat_dirD)
  have "entry_at fs1 (d @ [p]) = Some Directory" using openat_dirD [OF o] by simp
  then have "entry_at fs2 (d @ [p]) = Some Directory"
    using adds_dirsD [OF adds_dirs_walk w] Cons.prems(2) only_dirs_added_shape same_shape_trans
    unfolding same_shape_def by blast
  then have "openat_dir fs2 d p = Inr (d @ [p])" by (simp add: openat_dir_def)
  then show ?case using Cons.IH [OF w Cons.prems(2)] by (simp add: sx_step_defs)
qed

lemma open_scope_same: "open_scope fs scope = Inr d \<Longrightarrow> same_shape fs fs2 \<Longrightarrow> open_scope fs2 scope = Inr d"
proof (cases "scope = []")
  case False
  assume o: "open_scope fs scope = Inr d" and s: "same_shape fs fs2"
  obtain e where e: "namei fs MAX_LINKS [] (butlast scope) = Inr e" and d: "openat_dir fs e (last scope) = Inr d"
    using o False by (auto simp: open_scope_def exc_simps)
  have "entry_at fs2 d = Some Directory" "d = e @ [last scope]"
    using openat_dirD [OF d] s by (auto simp: same_shape_def)
  then show ?thesis using namei_same [OF s e] False by (simp add: open_scope_def openat_dir_def)
qed (simp add: open_scope_def)

lemma open_parentD:
  assumes "open_parent mgr a u p sid create fs = (Inr (d, name), fs')"
  obtains layout fs1 where "ensure_user_layout mgr a u fs = (Inr layout, fs1)" "same_shape fs1 fs'"
    "prefix (wl_workspace layout) d" "\<exists>parts. normalize_relative_parts p = Inr parts \<and> parts \<noteq> [] \<and> name = last parts"
proof -
  obtain parts scope f1 where parts: "normalize_relative_parts p = Inr parts" "parts \<noteq> []" "name = last parts"
    and sc: "user_scope mgr a u sid fs = (Inr scope, f1)" and w: "walk_directory scope (butlast parts) create f1 = (Inr d, fs')"
    using assms by (auto simp: open_parent_def sx_outcome_simps split: if_splits)
  obtain layout fs1 where l: "ensure_user_layout mgr a u fs = (Inr layout, fs1)" and pre: "prefix (wl_workspace layout) scope"
    and s1: "same_shape fs1 f1" by (rule user_scopeD [OF sc])
  obtain d0 where o: "open_scope f1 scope = Inr d0" and d: "d = d0 @ butlast parts"
    using w by (auto simp: walk_directory_Inr dest: walk_below)
  have "same_shape f1 fs'" using adds_dirsD [OF adds_dirs_walk_directory w] by (rule only_dirs_added_shape)
  then have "same_shape fs1 fs'" using s1 same_shape_trans by blast
  moreover have "link_free f1 scope \<and> plain_path scope" by (rule user_scope_link_free [OF sc])
  then have "d0 = scope" using open_scopeD [OF o] by blast
  ultimately show thesis using that l parts pre d by (metis prefix_prefix)
qed

section \<open>What an upload leaves behind\<close>

lemma dput_dput [simp]: "dput k v (dput k w d) = dput k v d"
  by (induction d) auto

lemma dpop_dput_new: "k \<notin> fst ` set d \<Longrightarrow> dpop k (dput k v d) = d"
  by (induction d) (auto simp: dpop_def filter_id_conv)

lemma dpop_dput_other: "k \<noteq> k' \<Longrightarrow> dpop k (dput k' v d) = dput k' v (dpop k d)"
  by (induction d) (auto simp: dpop_def)

lemma entry_at_None: "p \<noteq> [] \<Longrightarrow> entry_at fs p = None \<longleftrightarrow> p \<notin> fst ` set fs"
  by (simp add: entry_at_def map_of_eq_None_iff)

text \<open>The bytes read before the end of the stream or an error.\<close>

fun received :: "bytes res list \<Rightarrow> bytes" where
  "received (Inr c # cs) = (if c = [] then [] else c @ received cs)"
| "received _ = []"

text \<open>Writing loops until everything is written, however little the kernel takes each time.\<close>

lemma write_all_content:
  "p \<noteq> [] \<Longrightarrow> write_all accept p data (dput p (RegFile c) fs) = (r, t) \<Longrightarrow>
    \<exists>w. t = dput p (RegFile (c @ w)) fs \<and> (\<forall>u. r = Inr u \<longrightarrow> w = data)"
proof (induction "length data" arbitrary: data c rule: less_induct)
  case less
  let ?fs = "dput p (RegFile c) fs"
  let ?n = "min (accept ?fs data) (length data)"
  show ?case
  proof (cases "data = [] \<or> ?n = 0")
    case True
    then have "t = dput p (RegFile (c @ [])) fs \<and> (\<forall>u. r = Inr u \<longrightarrow> [] = data)"
      using less.prems(2) by (subst (asm) write_all.simps) (auto simp: Let_def split: if_splits)
    then show ?thesis by blast
  next
    case False
    then have n0: "(?n = 0) = False" "(data = []) = False" by auto
    have "append_file p (take ?n data) ?fs = dput p (RegFile (c @ take ?n data)) fs"
      using less.prems(1) by (simp add: append_file_def entry_at_dput)
    moreover have "write_all accept p data ?fs = write_all accept p (drop ?n data) (append_file p (take ?n data) ?fs)"
      by (subst write_all.simps) (simp only: n0 Let_def if_False)
    ultimately have "write_all accept p (drop ?n data) (dput p (RegFile (c @ take ?n data)) fs) = (r, t)"
      using less.prems(2) by simp
    moreover have "length (drop ?n data) < length data" using False by auto
    ultimately obtain w where "t = dput p (RegFile ((c @ take ?n data) @ w)) fs"
      and "\<forall>u. r = Inr u \<longrightarrow> w = drop ?n data" using less.hyps less.prems(1) by blast
    then show ?thesis by (intro exI [of _ "take ?n data @ w"]) auto
  qed
qed

lemma receive_content:
  assumes "p \<noteq> []" and "receive cfg accept used old p chunks got (dput p (RegFile got) fs) = (r, t)"
  shows "\<exists>w. t = dput p (RegFile w) fs \<and> (\<forall>content. r = Inr content \<longrightarrow> w = content \<and> content = got @ received chunks \<and>
     (received chunks = [] \<or> upload_guard cfg used old (length content) = Inr ()))"
  using assms
proof (induction cfg accept used old p chunks got arbitrary: fs rule: receive.induct)
  case (3 cfg accept used old p chunk chunks got)
  show ?case
  proof (cases "chunk = [] \<or> upload_guard cfg used old (length got + length chunk) \<noteq> Inr ()")
    case True
    then show ?thesis using "3.prems" by (cases "upload_guard cfg used old (length got + length chunk)") (auto simp: sx_step_defs)
  next
    case False
    then have g: "upload_guard cfg used old (length got + length chunk) = Inr ()" by simp
    obtain r1 t1 where w: "write_all accept p chunk (dput p (RegFile got) fs) = (r1, t1)" by fastforce
    obtain w1 where t1: "t1 = dput p (RegFile (got @ w1)) fs" and w1: "\<forall>u. r1 = Inr u \<longrightarrow> w1 = chunk"
      using write_all_content [OF "3.prems"(1) w] by blast
    show ?thesis
    proof (cases r1)
      case (Inl e)
      then show ?thesis using "3.prems" w False g t1 by (auto simp: sx_step_defs)
    next
      case (Inr u)
      then have "receive cfg accept used old p chunks (got @ chunk) (dput p (RegFile (got @ chunk)) fs) = (r, t)"
        using "3.prems" w False g t1 w1 by (simp add: sx_step_defs)
      from "3.IH" [OF _ "3.prems"(1) this] False show ?thesis using g by fastforce
    qed
  qed
qed (auto simp: sx_step_defs)

text \<open>One upload into an open directory, with the temporary file gone in the end.\<close>

lemma store_upload_outcome:
  assumes fin: "sx_finally (path_error_400 (store_upload cfg mgr accept a u target temp chunks)) (unlink_missing_ok temp) fs = (r, fs')"
    and ne: "target \<noteq> []" "temp \<noteq> []" "temp \<noteq> target" and fresh: "entry_at fs temp = None \<or> entry_at fs temp = Some Directory"
  shows "case r of Inl e \<Rightarrow> only_dirs_added fs fs'
    | Inr c \<Rightarrow> \<exists>layout fs1 old. ensure_user_layout mgr a u fs = (Inr layout, fs1) \<and> existing_regular_size target fs = Inr old \<and>
        (entry_at fs1 target = None \<or> (\<exists>b. entry_at fs1 target = Some (RegFile b))) \<and>
        fs' = dput target (RegFile c) fs1 \<and> c = received chunks \<and>
        (c = [] \<or> upload_guard cfg (tree_size fs1 (wl_workspace layout)) old (length c) = Inr ())"
proof -
  obtain r1 fs2 where s: "store_upload cfg mgr accept a u target temp chunks fs = (r1, fs2)" by fastforce
  obtain rl fs1 where l: "ensure_user_layout mgr a u fs = (rl, fs1)" by fastforce
  have dirs: "only_dirs_added fs fs1" by (rule adds_dirsD [OF adds_dirs_layout l])
  have p400: "path_error_400 (store_upload cfg mgr accept a u target temp chunks) fs =
      (case r1 of Inl (WorkspacePathError msg) \<Rightarrow> Inl (HTTPException 400 msg) | _ \<Rightarrow> r1, fs2)"
    using s by (auto simp: path_error_400_def sx_catch_def sx_raise_def split: sum.splits exc.splits)
  show ?thesis
  proof (cases "\<exists>old layout. existing_regular_size target fs = Inr old \<and> rl = Inr layout \<and> entry_at fs1 temp = None")
    case False
    then have "fs2 = fs \<or> fs2 = fs1" and r1: "\<exists>e. r1 = Inl e"
      using s l by (auto simp: store_upload_def sx_step_defs create_file_def split: sum.splits if_splits)
    moreover have "entry_at fs1 temp = None \<or> entry_at fs1 temp = Some Directory"
      using dirs fresh unfolding only_dirs_added_def by metis
    ultimately have "fs' = fs2" "\<exists>e. r = Inl e"
      using fin p400 fresh by (auto simp: sx_finally_def unlink_missing_ok_def split: sum.splits exc.splits)
    then show ?thesis using \<open>fs2 = fs \<or> fs2 = fs1\<close> dirs by auto
  next
    case True
    then obtain old layout where old: "existing_regular_size target fs = Inr old" and rl: "rl = Inr layout"
      and new: "entry_at fs1 temp = None" by blast
    have gone: "temp \<notin> fst ` set fs1" using new ne(2) by (simp add: entry_at_None)
    obtain rr t where rc: "receive cfg accept (tree_size fs1 (wl_workspace layout)) old temp chunks [] (dput temp (RegFile []) fs1) = (rr, t)"
      by fastforce
    obtain w where t: "t = dput temp (RegFile w) fs1" and content: "\<And>c. rr = Inr c \<Longrightarrow> w = c \<and> c = received chunks \<and>
        (received chunks = [] \<or> upload_guard cfg (tree_size fs1 (wl_workspace layout)) old (length c) = Inr ())"
      using receive_content [OF ne(2) rc] by auto
    have after: "sx_finally (path_error_400 (store_upload cfg mgr accept a u target temp chunks)) (unlink_missing_ok temp) fs =
       (case rr of Inl e \<Rightarrow> (case e of WorkspacePathError msg \<Rightarrow> Inl (HTTPException 400 msg) | _ \<Rightarrow> Inl e, fs1)
        | Inr c \<Rightarrow> (case reject_nonregular target fs1 of
             Inl e \<Rightarrow> (case e of WorkspacePathError msg \<Rightarrow> Inl (HTTPException 400 msg) | _ \<Rightarrow> Inl e, fs1)
           | Inr _ \<Rightarrow> (Inr c, dput target (RegFile c) fs1)))"
      using old l rl new rc t gone ne content
      by (auto simp: store_upload_def path_error_400_def sx_step_defs create_file_def os_replace_def unlink_missing_ok_def
          reject_nonregular_def entry_at_dput dpop_dput_new dpop_dput_other split: sum.splits exc.splits option.splits entry.splits)
    show ?thesis
    proof (cases r)
      case (Inl e)
      then have "fs' = fs1" using fin after by (auto split: sum.splits exc.splits)
      then show ?thesis using Inl dirs by simp
    next
      case (Inr c)
      then have "rr = Inr c" "fs' = dput target (RegFile c) fs1" and rj: "reject_nonregular target fs1 = Inr ()"
        using fin after by (auto split: sum.splits exc.splits)
      moreover have "entry_at fs1 target = None \<or> (\<exists>b. entry_at fs1 target = Some (RegFile b))"
        using rj by (auto simp: reject_nonregular_def split: option.splits entry.splits)
      ultimately show ?thesis using Inr old l rl content by auto
    qed
  qed
qed

text \<open>The token is random: no path of the store ends in the temporary name, nor does the upload's.\<close>

definition fresh_token :: "string \<Rightarrow> string \<Rightarrow> fs \<Rightarrow> bool" where
  "fresh_token token destination fs \<longleftrightarrow>
    (\<forall>p \<in> fst ` set fs. last p \<noteq> temp_name token) \<and> last (posix_tail destination) \<noteq> temp_name token"

lemma fresh_token_absent: "fresh_token token dest fs \<Longrightarrow> entry_at fs (d @ [temp_name token]) = None"
  by (force simp: fresh_token_def entry_at_None)

lemma fresh_token_parent:
  assumes "fresh_token token dest fs" and "only_dirs_added fs f1"
  shows "entry_at f1 (d @ [temp_name token]) = None \<or> entry_at f1 (d @ [temp_name token]) = Some Directory"
  using fresh_token_absent [OF assms(1)] assms(2) unfolding only_dirs_added_def by metis

lemma fresh_token_name:
  "fresh_token token dest fs \<Longrightarrow> normalize_relative_parts dest = Inr parts \<Longrightarrow> temp_name token \<noteq> last parts"
  by (auto simp: fresh_token_def dest!: normalize_relative_partsD(1))

lemma uploadD:
  assumes up: "upload cfg mgr accept digest token a u filename chunks rel sid fs = (Inr r, fs')"
    and fresh: "fresh_token token (destination_of rel filename) fs"
  obtains d name f1 layout fs1 old where
    "open_parent mgr a u (destination_of rel filename) sid True fs = (Inr (d, name), f1)"
    "ensure_user_layout mgr a u f1 = (Inr layout, fs1)" "existing_regular_size (d @ [name]) f1 = Inr old"
    "entry_at fs1 (d @ [name]) = None \<or> (\<exists>b. entry_at fs1 (d @ [name]) = Some (RegFile b))"
    "fs' = dput (d @ [name]) (RegFile (received chunks)) fs1"
    "received chunks = [] \<or> upload_guard cfg (tree_size fs1 (wl_workspace layout)) old (length (received chunks)) = Inr ()"
    "up_size r = length (received chunks)" "up_sha256 r = digest (received chunks)"
proof -
  obtain d name f1 c where o: "open_parent mgr a u (destination_of rel filename) sid True fs = (Inr (d, name), f1)"
    and s: "sx_finally (path_error_400 (store_upload cfg mgr accept a u (d @ [name]) (d @ [temp_name token]) chunks))
       (unlink_missing_ok (d @ [temp_name token])) f1 = (Inr c, fs')"
    and r: "up_size r = length c" "up_sha256 r = digest c"
    using up by (auto simp: upload_def Let_def sx_outcome_simps path_error_400_Inr split: if_splits)
  have "only_dirs_added fs f1" by (rule adds_dirsD [OF adds_dirs_parent o])
  then have f: "entry_at f1 (d @ [temp_name token]) = None \<or> entry_at f1 (d @ [temp_name token]) = Some Directory"
    by (rule fresh_token_parent [OF fresh])
  have "temp_name token \<noteq> name" by (rule open_parentD [OF o]) (use fresh_token_name [OF fresh] in auto)
  then show thesis using store_upload_outcome [OF s _ _ _ f] that o r by auto
qed

definition user_workspace :: "manager \<Rightarrow> string \<Rightarrow> string \<Rightarrow> fs \<Rightarrow> path option" where
  "user_workspace mgr a u fs = resolve fs MAX_LINKS [] (wm_root mgr @ [a, u])"

lemma layout_workspace:
  assumes "ensure_user_layout mgr a u fs = (Inr layout, fs')"
  shows "user_workspace mgr a u fs = Some (wl_workspace layout)" "prefix (wm_root_real mgr) (wl_workspace layout)"
  by (rule ensure_user_layoutD [OF assms]; auto simp: user_workspace_def dest: create_directoryD)+

lemma layout_dirs: "ensure_user_layout mgr a u fs = (Inr layout, fs') \<Longrightarrow> only_dirs_added fs fs'"
  by (rule adds_dirsD [OF adds_dirs_layout])

lemma existing_size_bound: "existing_regular_size p f = Inr old \<Longrightarrow> p \<noteq> [] \<Longrightarrow> prefix w p \<Longrightarrow> old \<le> tree_size f w"
  using tree_size_member [of f p _ w] by (fastforce simp: existing_regular_size_def entry_at_def file_size_def split: option.splits entry.splits)

lemma tree_size_replaced:
  assumes "entry_at f p = None \<or> (\<exists>b. entry_at f p = Some (RegFile b))" "p \<noteq> []" "prefix w p"
    and "existing_regular_size p f0 = Inr old" "entry_at f p = entry_at f0 p"
  shows "tree_size (dput p (RegFile c) f) w + old = tree_size f w + length c"
  using assms tree_size_present [of f p _ w "RegFile c"]
  by (auto simp: entry_at_def existing_regular_size_def tree_size_absent file_size_def split: option.splits entry.splits)

text \<open>C13: An upload that succeeds changes exactly one file, inside the user's own workspace: the file
  holds the bytes received, which are within the upload limit, every other entry stays as it was
  except that missing directories are made, and the workspace does not grow past its quota (or past
  its old size, when it was over the quota already).\<close>
theorem upload_within_limits:
  assumes "upload cfg mgr accept digest token a u filename chunks rel sid fs = (Inr r, fs')"
    and "fresh_token token (destination_of rel filename) fs"
  shows "\<exists>w target. user_workspace mgr a u fs = Some w \<and> prefix (wm_root_real mgr) w \<and> strict_prefix w target \<and>
    entry_at fs' target = Some (RegFile (received chunks)) \<and>
    length (received chunks) \<le> max_upload_mb cfg * 1024 * 1024 \<and>
    tree_size fs' w \<le> max (tree_size fs w) (max_user_workspace_gb cfg * 1024 ^ 3) \<and>
    (\<forall>p. p \<noteq> target \<longrightarrow> entry_at fs' p = entry_at fs p \<or> entry_at fs p = None \<and> entry_at fs' p = Some Directory) \<and>
    up_size r = length (received chunks) \<and> up_sha256 r = digest (received chunks)"
proof -
  obtain d name f1 layout fs1 old where o: "open_parent mgr a u (destination_of rel filename) sid True fs = (Inr (d, name), f1)"
    and l: "ensure_user_layout mgr a u f1 = (Inr layout, fs1)" and old: "existing_regular_size (d @ [name]) f1 = Inr old"
    and reg: "entry_at fs1 (d @ [name]) = None \<or> (\<exists>b. entry_at fs1 (d @ [name]) = Some (RegFile b))"
    and fs': "fs' = dput (d @ [name]) (RegFile (received chunks)) fs1"
    and g: "received chunks = [] \<or> upload_guard cfg (tree_size fs1 (wl_workspace layout)) old (length (received chunks)) = Inr ()"
    and r: "up_size r = length (received chunks)" "up_sha256 r = digest (received chunks)"
    by (rule uploadD [OF assms])
  let ?w = "wl_workspace layout" and ?t = "d @ [name]"
  obtain layout0 f0 where l0: "ensure_user_layout mgr a u fs = (Inr layout0, f0)" and pre: "prefix (wl_workspace layout0) d"
    by (rule open_parentD [OF o])
  have d1: "only_dirs_added fs f1" by (rule adds_dirsD [OF adds_dirs_parent o])
  have d2: "only_dirs_added f1 fs1" by (rule layout_dirs [OF l])
  have d3: "only_dirs_added fs fs1" using d1 d2 by (rule only_dirs_added_trans)
  have "user_workspace mgr a u f1 = user_workspace mgr a u fs"
    using resolve_same [OF only_dirs_added_shape [OF d1]] by (simp add: user_workspace_def)
  then have w: "user_workspace mgr a u fs = Some ?w" "wl_workspace layout0 = ?w" "prefix (wm_root_real mgr) ?w"
    using layout_workspace [OF l] layout_workspace [OF l0] by auto
  have inside: "strict_prefix ?w ?t" using pre w(2) by (auto simp: strict_prefix_def prefix_def)
  have same: "entry_at fs1 ?t = entry_at f1 ?t" using d2 reg unfolding only_dirs_added_def by (metis entry.distinct(1) option.inject option.distinct(1))
  have size: "tree_size fs' ?w + old = tree_size fs1 ?w + length (received chunks)"
    unfolding fs' by (rule tree_size_replaced [OF reg _ _ old same]) (use inside in \<open>auto simp: strict_prefix_def\<close>)
  have keep: "tree_size fs1 ?w = tree_size fs ?w" using d3 by (simp add: only_dirs_added_def)
  have "old \<le> tree_size fs1 ?w"
    using existing_size_bound [OF old _ prefix_order.less_imp_le [OF inside]] d2 by (simp add: only_dirs_added_def)
  then have quota: "tree_size fs' ?w \<le> max (tree_size fs ?w) (max_user_workspace_gb cfg * 1024 ^ 3)"
    and limit: "length (received chunks) \<le> max_upload_mb cfg * 1024 * 1024"
    using g size keep by (auto simp: upload_guard_def exc_simps)
  have "\<forall>p. p \<noteq> ?t \<longrightarrow> entry_at fs' p = entry_at fs p \<or> entry_at fs p = None \<and> entry_at fs' p = Some Directory"
    using d3 by (simp add: fs' entry_at_dput only_dirs_added_def)
  moreover have "entry_at fs' ?t = Some (RegFile (received chunks))" by (simp add: fs' entry_at_dput)
  ultimately show ?thesis using w inside limit quota r by blast
qed

text \<open>C14: A failed upload leaves no trace in any file: whatever fails, in the checks, while the body is
  received or in the final replacement, every entry is as before except that directories may have been
  made; in particular no temporary file stays.\<close>
theorem failed_upload_leaves_files:
  assumes "upload cfg mgr accept digest token a u filename chunks rel sid fs = (Inl e, fs')"
    and "fresh_token token (destination_of rel filename) fs"
  shows "\<forall>p. entry_at fs' p = entry_at fs p \<or> entry_at fs p = None \<and> entry_at fs' p = Some Directory"
proof -
  obtain ro f1 where o: "path_error_400 (open_parent mgr a u (destination_of rel filename) sid True) fs = (ro, f1)" by fastforce
  have "adds_dirs (path_error_400 (open_parent mgr a u (destination_of rel filename) sid True))"
    unfolding path_error_400_def by (auto intro!: dir_steps split: exc.splits)
  then have d1: "only_dirs_added fs f1" using o by (rule adds_dirsD)
  have "only_dirs_added fs fs'"
  proof (cases "destination_of rel filename = []")
    case True
    then show ?thesis using assms(1) by (auto simp: upload_def sx_raise_def)
  next
    case ne: False
    show ?thesis
    proof (cases ro)
      case (Inl e)
      then have "fs' = f1" using assms(1) o ne by (auto simp: upload_def Let_def sx_bind_def)
      then show ?thesis using d1 by simp
    next
      case (Inr x)
      obtain d name where x: "x = (d, name)" by (cases x)
      obtain rs f2 where s: "sx_finally (path_error_400 (store_upload cfg mgr accept a u (d @ [name]) (d @ [temp_name token]) chunks))
         (unlink_missing_ok (d @ [temp_name token])) f1 = (rs, f2)" by fastforce
      have op: "open_parent mgr a u (destination_of rel filename) sid True fs = (Inr (d, name), f1)"
        using o Inr x by (simp add: path_error_400_Inr)
      obtain parts where parts: "normalize_relative_parts (destination_of rel filename) = Inr parts" "name = last parts"
        by (rule open_parentD [OF op]) auto
      then have "rs = Inr c \<Longrightarrow> False" for c
        using assms(1) o ne Inr x s by (auto simp: upload_def Let_def sx_step_defs)
      then obtain e' where rs: "rs = Inl e'" by (cases rs) auto
      then have "fs' = f2" using assms(1) o ne Inr x s by (auto simp: upload_def Let_def sx_bind_def)
      moreover have "only_dirs_added f1 f2"
        using store_upload_outcome [OF s _ _ _ fresh_token_parent [OF assms(2) d1]] rs fresh_token_name [OF assms(2) parts(1)] parts(2)
        by auto
      ultimately show ?thesis using d1 only_dirs_added_trans by blast
    qed
  qed
  then show ?thesis by (simp add: only_dirs_added_def)
qed

text \<open>C15: What was uploaded is what is downloaded: right after a successful upload the same Agent, user,
  session and path give back exactly the bytes received, and reading changes nothing.\<close>
theorem upload_download_roundtrip:
  assumes "upload cfg mgr accept digest token a u filename chunks rel sid fs = (Inr r, fs')"
    and "fresh_token token (destination_of rel filename) fs" and "manager_ok mgr"
  shows "\<exists>name. open_download mgr a u (destination_of rel filename) sid fs' = (Inr (received chunks, name), fs')"
proof -
  let ?p = "destination_of rel filename"
  obtain d name f1 layout fs1 old where o: "open_parent mgr a u ?p sid True fs = (Inr (d, name), f1)"
    and l: "ensure_user_layout mgr a u f1 = (Inr layout, fs1)"
    and reg: "entry_at fs1 (d @ [name]) = None \<or> (\<exists>b. entry_at fs1 (d @ [name]) = Some (RegFile b))"
    and fs': "fs' = dput (d @ [name]) (RegFile (received chunks)) fs1"
    by (rule uploadD [OF assms(1,2)])
  have sh: "same_shape f1 fs'"
    using only_dirs_added_shape [OF layout_dirs [OF l]] same_shape_file [OF _ reg] same_shape_trans unfolding fs' by blast
  obtain parts scope f0 where parts: "normalize_relative_parts ?p = Inr parts" "parts \<noteq> []" "name = last parts"
    and sc: "user_scope mgr a u sid fs = (Inr scope, f0)" and w: "walk_directory scope (butlast parts) True f0 = (Inr d, f1)"
    using o by (auto simp: open_parent_def sx_outcome_simps split: if_splits)
  have "same_shape f0 f1" using adds_dirsD [OF adds_dirs_walk_directory w] by (rule only_dirs_added_shape)
  then have s0: "same_shape f0 fs'" using sh same_shape_trans by blast
  have "user_scope mgr a u sid fs' = (Inr scope, fs')" by (rule user_scope_again [OF sc s0 assms(3)])
  moreover obtain d0 where d0: "open_scope f0 scope = Inr d0" "walk True (butlast parts) d0 f0 = (Inr d, f1)"
    using w by (auto simp: walk_directory_Inr)
  have "walk_directory scope (butlast parts) False fs' = (Inr d, fs')"
    using open_scope_same [OF d0(1) s0] walk_again [OF d0(2) sh] by (auto simp: walk_directory_Inr)
  ultimately have "open_parent mgr a u ?p sid False fs' = (Inr (d, name), fs')"
    using parts by (simp add: open_parent_def sx_step_defs)
  moreover have "entry_at fs' (d @ [name]) = Some (RegFile (received chunks))" by (simp add: fs' entry_at_dput)
  ultimately show ?thesis by (simp add: open_download_def sx_step_defs)
qed

section \<open>A concrete upload\<close>

definition demo_manager :: manager where
  "demo_manager = \<lparr>wm_root = [''w''], wm_state = [''s''], wm_root_real = [''w''], wm_state_real = [''s'']\<rparr>"

definition demo_storage :: storage where
  "demo_storage = \<lparr>max_upload_mb = 1, max_user_workspace_gb = 1\<rparr>"

definition demo_fs :: fs where
  "demo_fs = [([''w''], Directory), ([''s''], Directory)]"

definition demo_upload :: "bytes res list \<Rightarrow> upload_result fsx" where
  "demo_upload chunks = upload demo_storage demo_manager (\<lambda>fs data. 2) (\<lambda>c. ''digest'') ''t'' ''a1'' ''u1'' (Some ''x.txt'') chunks None None"

lemmas eval_files = upload_def Let_def destination_of_def posix_path_defs path_name_def open_parent_def normalize_relative_parts_def
  windows_drive_def user_scope_def ensure_user_layout_def create_directory_def resolve_contained_def mkdir_parents.simps
  os_mkdir_def mkdir_exist_ok_def is_dir_def MAX_LINKS_def entry_at_def walk_directory_def open_scope_def openat_dir_def
  store_upload_def existing_regular_size_def reject_nonregular_def create_file_def append_file_def write_all.simps upload_guard_def
  raise_if_def os_replace_def unlink_missing_ok_def path_error_400_def temp_name_def tree_size_def file_size_def dpop_def
  validate_identifier_def identifier_pattern_def ident_tail_char_def char_class_defs sx_step_defs
  demo_manager_def demo_storage_def demo_fs_def demo_upload_def

lemma demo_upload_ok:
  "\<exists>r fs'. demo_upload [Inr [1, 2, 3], Inr [4], Inr []] demo_fs = (Inr r, fs')"
  by (simp add: eval_files)

lemma demo_token: "fresh_token ''t'' (destination_of None (Some ''x.txt'')) demo_fs"
  by (simp add: fresh_token_def demo_fs_def temp_name_def destination_of_def posix_path_defs path_name_def)

theorem upload_within_limits_witness:
  "\<exists>r fs'. demo_upload [Inr [1, 2, 3], Inr [4], Inr []] demo_fs = (Inr r, fs') \<and> up_size r = 4 \<and>
    (\<exists>w. user_workspace demo_manager ''a1'' ''u1'' demo_fs = Some w \<and> tree_size fs' w \<le> 1024 ^ 3)"
proof -
  obtain r fs' where ok: "demo_upload [Inr [1, 2, 3], Inr [4], Inr []] demo_fs = (Inr r, fs')" using demo_upload_ok by blast
  obtain w where w: "user_workspace demo_manager ''a1'' ''u1'' demo_fs = Some w"
    and q: "tree_size fs' w \<le> max (tree_size demo_fs w) (max_user_workspace_gb demo_storage * 1024 ^ 3)"
    and r: "up_size r = length (received [Inr [1, 2, 3], Inr [4], Inr []])"
    using upload_within_limits [OF ok [unfolded demo_upload_def] demo_token] by blast
  have "tree_size demo_fs w = 0" by (simp add: tree_size_def demo_fs_def file_size_def)
  then have "tree_size fs' w \<le> 1024 ^ 3" using q by (simp add: demo_storage_def)
  moreover have "up_size r = 4" using r by simp
  ultimately show ?thesis using ok w by blast
qed

theorem failed_upload_leaves_files_witness:
  "\<exists>e fs'. demo_upload [Inr [1, 2, 3], Inl CancelledError] demo_fs = (Inl e, fs') \<and>
    entry_at fs' [''w'', ''a1'', ''u1'', ''shared'', ''x.txt''] \<noteq> Some (RegFile [1, 2, 3])"
proof -
  have "\<exists>e fs'. demo_upload [Inr [1, 2, 3], Inl CancelledError] demo_fs = (Inl e, fs')" by (simp add: eval_files)
  then obtain e fs' where ok: "demo_upload [Inr [1, 2, 3], Inl CancelledError] demo_fs = (Inl e, fs')" by blast
  have "entry_at demo_fs [''w'', ''a1'', ''u1'', ''shared'', ''x.txt''] = None" by (simp add: entry_at_def demo_fs_def)
  then show ?thesis using failed_upload_leaves_files [OF ok [unfolded demo_upload_def] demo_token] ok
    by (metis entry.distinct(1) option.inject option.distinct(1))
qed

theorem upload_download_roundtrip_witness:
  "\<exists>r fs' name. demo_upload [Inr [1, 2, 3], Inr [4], Inr []] demo_fs = (Inr r, fs') \<and>
    open_download demo_manager ''a1'' ''u1'' ''x.txt'' None fs' = (Inr ([1, 2, 3, 4], name), fs')"
proof -
  obtain r fs' where ok: "demo_upload [Inr [1, 2, 3], Inr [4], Inr []] demo_fs = (Inr r, fs')" using demo_upload_ok by blast
  have "manager_ok demo_manager" by (simp add: manager_ok_def demo_manager_def)
  moreover have "destination_of None (Some ''x.txt'') = ''x.txt''" by (simp add: destination_of_def posix_path_defs path_name_def)
  ultimately show ?thesis using upload_download_roundtrip [OF ok [unfolded demo_upload_def] demo_token] ok by auto
qed

end
