(* ===== verification/Journal.thy ===== *)
theory Journal
  imports Tables PyJson
begin

text \<open>
  Durable receipts of commands: the tables \<open>cleanups\<close> of the file service and \<open>commands\<close>
  of the sandbox manager. A command is entered with its canonical payload before it acts and gets
  its result after it acted; a receipt without a result means an interrupted command. The locale
  \<open>command_log\<close> is what the handlers rely on.
\<close>

record receipt =
  rc_id :: string
  rc_payload :: json
  rc_result :: "json option"

definition enter :: "string \<Rightarrow> json \<Rightarrow> receipt list \<Rightarrow> receipt list res" where
  "enter k payload rows =
    (if find_row rc_id k rows \<noteq> None then Inl (IntegrityError ''UNIQUE constraint failed'')
     else Inr (rows @ [\<lparr>rc_id = k, rc_payload = payload, rc_result = None\<rparr>]))"

definition set_result :: "json \<Rightarrow> receipt \<Rightarrow> receipt" where
  "set_result r row = row\<lparr>rc_result := Some r\<rparr>"

definition settle :: "string \<Rightarrow> json \<Rightarrow> receipt list \<Rightarrow> receipt list" where
  "settle k r rows = update_rows rc_id k (set_result r) rows"

definition receipt_of :: "string \<Rightarrow> receipt list \<Rightarrow> (json \<times> json option) option" where
  "receipt_of k rows = map_option (\<lambda>row. (rc_payload row, rc_result row)) (find_row rc_id k rows)"

locale command_log =
  fixes look :: "'k \<Rightarrow> 'l \<Rightarrow> ('p \<times> 'r option) option" and open_cmd :: "'k \<Rightarrow> 'p \<Rightarrow> 'l \<Rightarrow> 'l res" and close_cmd :: "'k \<Rightarrow> 'r \<Rightarrow> 'l \<Rightarrow> 'l"
  assumes open_new: "look k l = None \<Longrightarrow> \<exists>l'. open_cmd k p l = Inr l' \<and> (\<forall>k'. look k' l' = (if k' = k then Some (p, None) else look k' l))"
    and open_known: "look k l \<noteq> None \<Longrightarrow> \<exists>e. open_cmd k p l = Inl e"
    and close_look: "look k' (close_cmd k r l) = (if k' = k then map_option (\<lambda>(p, _). (p, Some r)) (look k l) else look k' l)"
begin

lemma opened: "open_cmd k p l = Inr l' \<Longrightarrow> look k l = None \<and> look k l' = Some (p, None) \<and> (\<forall>k'. k' \<noteq> k \<longrightarrow> look k' l' = look k' l)"
  using open_new [of k l p] open_known [of k l p] by (cases "look k l") auto

lemma closed: "look k l = Some (p, x) \<Longrightarrow> look k (close_cmd k r l) = Some (p, Some r)"
  by (simp add: close_look)

text \<open>A command that ran has a receipt with its result, and no other receipt changed.\<close>

lemma ran_once:
  "open_cmd k p l = Inr l1 \<Longrightarrow> look k (close_cmd k r l1) = Some (p, Some r) \<and>
    (\<forall>k'. k' \<noteq> k \<longrightarrow> look k' (close_cmd k r l1) = look k' l)"
  using opened [of k p l l1] by (simp add: close_look)

lemma never_twice: "look k l \<noteq> None \<Longrightarrow> open_cmd k p l \<noteq> Inr l'"
  by (metis Inr_not_Inl open_known)

end

interpretation settle_rows: row_update rc_id set_result
  by unfold_locales (simp add: set_result_def)

interpretation receipts: command_log receipt_of enter settle
proof
  fix k l p assume "receipt_of k l = None"
  then have "find_row rc_id k l = None" by (simp add: receipt_of_def)
  then show "\<exists>l'. enter k p l = Inr l' \<and> (\<forall>k'. receipt_of k' l' = (if k' = k then Some (p, None) else receipt_of k' l))"
    by (auto simp: enter_def receipt_of_def find_row_append split: option.splits)
next
  fix k :: string and l :: "receipt list" and p :: json assume "receipt_of k l \<noteq> None"
  then show "\<exists>e. enter k p l = Inl e" by (auto simp: receipt_of_def enter_def)
next
  fix k' k :: string and r and l :: "receipt list"
  show "receipt_of k' (settle k r l) = (if k' = k then map_option (\<lambda>(p, _). (p, Some r)) (receipt_of k l) else receipt_of k' l)"
    by (cases "find_row rc_id k l") (auto simp: receipt_of_def settle_def settle_rows.lookup_update set_result_def)
qed

end
