(* ===== verification/FileCleanup.thy ===== *)
theory FileCleanup
  imports FileStore Journal
begin

text \<open>
  \<open>file_service/coordination.py\<close> and the endpoints of \<open>file_service/main.py\<close>: what
  the operations service must admit, and the removal of the files of a user or an Agent with its
  receipts. \<open>ask path params\<close> is the answer of the operations service, \<open>mtime\<close> the
  modification times. The lock of an Agent makes the handlers of one Agent run one at a time.
\<close>

record file_world =
  fw_fs :: fs
  fw_cleanups :: "receipt list"

type_synonym 'a fwx = "(file_world, 'a) sx"
type_synonym ask = "string \<Rightarrow> jdict \<Rightarrow> reply"

definition on_fs :: "'a fsx \<Rightarrow> 'a fwx" where
  "on_fs m = (\<lambda>s. case m (fw_fs s) of (r, fs) \<Rightarrow> (r, s\<lparr>fw_fs := fs\<rparr>))"

section \<open>Admission\<close>

definition check :: "ask \<Rightarrow> string \<Rightarrow> jdict \<Rightarrow> json res" where
  "check ask p params = (case ask p (filter (\<lambda>(k, v). v \<noteq> JNull) params) of
     Reply status result \<Rightarrow>
       (if is_error status then Inl (HTTPException status ''File operation is not admitted by operations'')
        else case attr_get result ''allowed'' JNull of
            Inl _ \<Rightarrow> Inl (HTTPException 503 ''Operations admission unavailable'')
          | Inr allowed \<Rightarrow> if \<not> truthy allowed then Inl (HTTPException 409 ''File operation is not admitted'') else Inr result)
   | BadBody _ \<Rightarrow> Inl (HTTPException 503 ''Operations admission unavailable'')
   | TransportError \<Rightarrow> Inl (HTTPException 503 ''Operations admission unavailable'')
   | TaskCancelled \<Rightarrow> Inl CancelledError)"

definition guard :: "string \<Rightarrow> 'a fwx \<Rightarrow> 'a fwx" where
  "guard agent_id m = sx_then (sx_of_res (validate_identifier agent_id ''agent_id'')) m"

definition file_admitted :: "ask \<Rightarrow> string \<Rightarrow> string \<Rightarrow> bool \<Rightarrow> unit res" where
  "file_admitted ask agent_id username is_upload =
    ebind (validate_identifier username ''username'') (\<lambda>_.
    ebind (check ask ''/internal/v1/file-admission''
        [(''agent_id'', JStr agent_id), (''username'', JStr username), (''write'', JBool True)]) (\<lambda>result.
    if \<not> is_upload then Inr ()
    else let resources = jget (obj_of result) ''resources'' in
      ebind (if truthy resources then attr_get resources ''load_test'' JNull else Inr JNull) (\<lambda>load_test.
      raise_if (truthy load_test)
        (HTTPException 409 ''Load-test users only accept the fixed workload, not manual uploads''))))"

definition upload_endpoint ::
  "ask \<Rightarrow> storage \<Rightarrow> manager \<Rightarrow> (fs \<Rightarrow> bytes \<Rightarrow> nat) \<Rightarrow> (bytes \<Rightarrow> string) \<Rightarrow> string \<Rightarrow> string \<Rightarrow> string \<Rightarrow>
   string option \<Rightarrow> bytes res list \<Rightarrow> string option \<Rightarrow> string option \<Rightarrow> upload_result fwx" where
  "upload_endpoint ask cfg mgr accept digest token agent_id username filename chunks relative_path session_id =
    guard agent_id (sx_then (sx_of_res (file_admitted ask agent_id username True))
      (on_fs (upload cfg mgr accept digest token agent_id username filename chunks relative_path session_id)))"

definition file_errors :: "string \<Rightarrow> 'a fwx \<Rightarrow> 'a fwx" where
  "file_errors missing m = sx_catch m (\<lambda>e. case e of
     FileNotFoundError _ \<Rightarrow> Some (sx_raise (HTTPException 404 missing))
   | WorkspacePathError msg \<Rightarrow> Some (sx_raise (HTTPException 400 msg))
   | _ \<Rightarrow> None)"

definition download_endpoint :: "ask \<Rightarrow> manager \<Rightarrow> string \<Rightarrow> string \<Rightarrow> string \<Rightarrow> string option \<Rightarrow> (bytes \<times> string) fwx" where
  "download_endpoint ask mgr agent_id username p session_id =
    sx_bind (file_errors ''file not found'' (guard agent_id (sx_then (sx_of_res (file_admitted ask agent_id username False))
      (on_fs (open_download mgr agent_id username p session_id))))) (\<lambda>(content, filename).
    sx_return (content, download_name filename))"

definition list_endpoint ::
  "ask \<Rightarrow> manager \<Rightarrow> string \<Rightarrow> string \<Rightarrow> string \<Rightarrow> string option \<Rightarrow> (string \<times> string \<times> nat) list fwx" where
  "list_endpoint ask mgr agent_id username p session_id =
    file_errors ''directory not found'' (guard agent_id (sx_then (sx_of_res (file_admitted ask agent_id username False))
      (on_fs (list_entries mgr agent_id username p session_id))))"

definition allocate ::
  "ask \<Rightarrow> manager \<Rightarrow> string \<Rightarrow> string \<Rightarrow> string option \<Rightarrow> string option \<Rightarrow> (workspace_layout \<times> path option) fwx" where
  "allocate ask mgr agent_id username session_id relative_path =
    guard agent_id (sx_then (sx_of_res (file_admitted ask agent_id username False))
    (sx_bind (on_fs (ensure_user_layout mgr agent_id username)) (\<lambda>layout.
     sx_bind (case session_id of Some (c # cs) \<Rightarrow> sx_bind (on_fs (user_scope mgr agent_id username (Some (c # cs)))) (\<lambda>p. sx_return (Some p))
              | _ \<Rightarrow> sx_return None) (\<lambda>p.
     sx_bind (case relative_path of
          Some (c # cs) \<Rightarrow> sx_bind (on_fs (resolve_user_path mgr agent_id username (c # cs) session_id True)) (\<lambda>q. sx_return (Some q))
        | _ \<Rightarrow> sx_return p) (\<lambda>q.
     sx_return (layout, q))))))"

section \<open>Receipts\<close>

text \<open>No receipt is \<open>JNull\<close>, as Python's \<open>None\<close>.\<close>

definition replay :: "json \<Rightarrow> jdict \<Rightarrow> receipt list \<Rightarrow> json res" where
  "replay request_id payload rows = (case request_id of
     JStr k \<Rightarrow>
       (if k = [] \<or> length k > 256 then Inl (HTTPException 422 ''Cleanup requires a bounded request_id'')
        else case receipt_of k rows of
          None \<Rightarrow> Inr JNull
        | Some (stored, result) \<Rightarrow>
            (if stored \<noteq> canonical (JObj payload) then Inl (HTTPException 409 ''Cleanup request_id was reused with different parameters'')
             else case result of
               None \<Rightarrow> Inl (HTTPException 409 ''Cleanup was interrupted; reconcile its result before continuing'')
             | Some r \<Rightarrow> Inr r))
   | _ \<Rightarrow> Inl (HTTPException 422 ''Cleanup requires a bounded request_id''))"

definition begin_cleanup :: "string \<Rightarrow> jdict \<Rightarrow> unit fwx" where
  "begin_cleanup k payload = (\<lambda>s. case enter k (canonical (JObj payload)) (fw_cleanups s) of
     Inl _ \<Rightarrow> (Inl (HTTPException 409 ''Cleanup already started''), s)
   | Inr rows \<Rightarrow> (Inr (), s\<lparr>fw_cleanups := rows\<rparr>))"

definition finish_cleanup :: "string \<Rightarrow> json \<Rightarrow> unit fwx" where
  "finish_cleanup k r = sx_modify (\<lambda>s. s\<lparr>fw_cleanups := settle k r (fw_cleanups s)\<rparr>)"

section \<open>Removal\<close>

text \<open>\<open>stat\<close>: the entry a path leads to, following links.\<close>

function stat_path :: "fs \<Rightarrow> nat \<Rightarrow> path \<Rightarrow> path \<Rightarrow> entry option" where
  "stat_path fs n cur [] = Some Directory"
| "stat_path fs n cur (p # rest) =
    (if p = ''..'' then stat_path fs n (butlast cur) rest
     else case entry_at fs (cur @ [p]) of
       None \<Rightarrow> None
     | Some Directory \<Rightarrow> stat_path fs n (cur @ [p]) rest
     | Some (RegFile c) \<Rightarrow> if rest = [] then Some (RegFile c) else None
     | Some (Symlink absolute target) \<Rightarrow>
         (if n = 0 then None else stat_path fs (n - 1) (if absolute then [] else cur) (target @ rest)))"
  by pat_completeness auto
termination
  by (relation "measures [\<lambda>(fs, n, cur, ps). n, \<lambda>(fs, n, cur, ps). length ps]") auto

definition path_exists :: "fs \<Rightarrow> path \<Rightarrow> bool" where
  "path_exists fs p \<longleftrightarrow> stat_path fs MAX_LINKS [] p \<noteq> None"

definition is_symlink :: "fs \<Rightarrow> path \<Rightarrow> bool" where
  "is_symlink fs p = (case namei fs MAX_LINKS [] (butlast p) of
     Inl _ \<Rightarrow> False
   | Inr d \<Rightarrow> (case entry_at fs (d @ [last p]) of Some (Symlink _ _) \<Rightarrow> True | _ \<Rightarrow> False))"

definition remove_tree :: "path \<Rightarrow> unit fsx" where
  "remove_tree p = (\<lambda>fs. case namei fs MAX_LINKS [] (butlast p) of
     Inl e \<Rightarrow> (Inl e, fs)
   | Inr d \<Rightarrow> (case entry_at fs (d @ [last p]) of
         Some Directory \<Rightarrow> (Inr (), rmtree (d @ [last p]) fs)
       | Some _ \<Rightarrow> (Inl (OSError ''ENOTDIR''), fs)
       | None \<Rightarrow> (Inl (FileNotFoundError (last p)), fs)))"

definition text_of_path :: "path \<Rightarrow> string" where
  "text_of_path p = ''/'' @ join_with ''/'' p"

fun remove_targets :: "path list \<Rightarrow> json list fsx" where
  "remove_targets [] = sx_return []"
| "remove_targets (t # ts) =
    sx_bind sx_get (\<lambda>fs.
    sx_then (sx_of_res (raise_if (is_symlink fs t \<or> path_exists fs t \<and> resolve fs MAX_LINKS [] t \<noteq> Some t)
       (HTTPException 409 ''Workspace ownership path changed'')))
    (sx_bind (if path_exists fs t then sx_then (remove_tree t) (sx_return [JStr (text_of_path t)]) else sx_return []) (\<lambda>removed.
     sx_bind (remove_targets ts) (\<lambda>more. sx_return (removed @ more)))))"

definition remove_user :: "manager \<Rightarrow> string \<Rightarrow> string \<Rightarrow> json fsx" where
  "remove_user mgr agent_id username =
    sx_bind (remove_targets [wm_root mgr @ [agent_id, username], wm_state mgr @ [agent_id, username]]) (\<lambda>removed.
    sx_return (JObj [(''ok'', JBool True), (''removed'', JArr removed)]))"

definition cleanup_user :: "ask \<Rightarrow> manager \<Rightarrow> string \<Rightarrow> string \<Rightarrow> jdict \<Rightarrow> json fwx" where
  "cleanup_user ask mgr agent_id username body =
    sx_then (sx_of_res (validate_identifier username ''username''))
    (let request_id = jget body ''request_id'';
         payload = dupdate [(''agent_id'', JStr agent_id), (''username'', JStr username)] body in
     guard agent_id
      (sx_bind (sx_lift (\<lambda>s. replay request_id payload (fw_cleanups s))) (\<lambda>replayed.
       if replayed \<noteq> JNull then sx_return replayed
       else sx_then (sx_of_res (check ask ''/internal/v1/cleanup-authorization''
              [(''agent_id'', JStr agent_id), (''username'', JStr username), (''request_id'', request_id),
               (''run_id'', jget body ''run_id'')]))
         (sx_then (begin_cleanup (str_of request_id) payload)
         (sx_bind (on_fs (remove_user mgr agent_id username)) (\<lambda>result.
          sx_then (finish_cleanup (str_of request_id) result) (sx_return result)))))))"

definition delete_workspace :: "ask \<Rightarrow> manager \<Rightarrow> string \<Rightarrow> string \<Rightarrow> bool \<Rightarrow> json \<Rightarrow> json \<Rightarrow> json fwx" where
  "delete_workspace ask mgr agent_id username confirmed request_id run_id =
    (if \<not> confirmed then sx_raise (HTTPException 409 ''Explicit cleanup confirmation required'')
     else cleanup_user ask mgr agent_id username [(''request_id'', request_id), (''run_id'', run_id)])"

section \<open>The files of an Agent\<close>

definition below :: "fs \<Rightarrow> path \<Rightarrow> path list" where
  "below fs d = sort (filter (\<lambda>p. strict_prefix d p) (map fst fs))"

record file_entry =
  fe_path :: path
  fe_size :: nat
  fe_mtime :: int

definition directory_entries :: "(path \<Rightarrow> int) \<Rightarrow> path \<Rightarrow> fs \<Rightarrow> file_entry list res" where
  "directory_entries mtime p fs =
    (if is_symlink fs p then Inl (HTTPException 409 ''Agent directory is a symlink'')
     else if \<not> path_exists fs p then Inr []
     else case namei fs MAX_LINKS [] p of
       Inl _ \<Rightarrow> Inr []
     | Inr d \<Rightarrow>
        (if list_ex (\<lambda>q. case entry_at fs q of Some (Symlink _ _) \<Rightarrow> True | _ \<Rightarrow> False) (below fs d)
         then Inl (HTTPException 409 ''Agent data contains a symlink'')
         else Inr (concat (map (\<lambda>q. case entry_at fs q of
               Some (RegFile c) \<Rightarrow> [\<lparr>fe_path = p @ drop (length d) q, fe_size = length c, fe_mtime = mtime q\<rparr>] | _ \<Rightarrow> []) (below fs d)))))"

record agent_impact =
  ai_files :: nat
  ai_bytes :: nat
  ai_fingerprint :: json

definition fingerprint_of :: "file_entry list \<Rightarrow> json" where
  "fingerprint_of es = JArr (map (\<lambda>e. JArr [JStr (text_of_path (fe_path e)), JInt (int (fe_size e)), JInt (fe_mtime e)]) es)"

definition agent_impact_of :: "(path \<Rightarrow> int) \<Rightarrow> manager \<Rightarrow> string \<Rightarrow> fs \<Rightarrow> agent_impact res" where
  "agent_impact_of mtime mgr aid fs =
    ebind (validate_identifier aid ''agent_id'') (\<lambda>_.
    ebind (directory_entries mtime (wm_root mgr @ [aid]) fs) (\<lambda>a.
    ebind (directory_entries mtime (wm_state mgr @ [aid]) fs) (\<lambda>b.
    Inr \<lparr>ai_files = length (a @ b), ai_bytes = sum_list (map fe_size (a @ b)), ai_fingerprint = fingerprint_of (a @ b)\<rparr>)))"

fun remove_existing :: "path list \<Rightarrow> unit fsx" where
  "remove_existing [] = sx_return ()"
| "remove_existing (t # ts) =
    sx_bind sx_get (\<lambda>fs. sx_then (if path_exists fs t then remove_tree t else sx_return ()) (remove_existing ts))"

definition cleanup_agent :: "ask \<Rightarrow> (path \<Rightarrow> int) \<Rightarrow> manager \<Rightarrow> string \<Rightarrow> jdict \<Rightarrow> json fwx" where
  "cleanup_agent ask mtime mgr aid body =
    (let request_id = jget body ''request_id''; payload = dupdate [(''agent_id'', JStr aid)] body in
     guard aid
      (sx_bind (sx_lift (\<lambda>s. replay request_id payload (fw_cleanups s))) (\<lambda>replayed.
       if replayed \<noteq> JNull then sx_return replayed
       else sx_then (sx_of_res (check ask ''/internal/v1/cleanup-authorization'' [(''agent_id'', JStr aid), (''request_id'', request_id)]))
         (sx_bind (sx_lift (\<lambda>s. agent_impact_of mtime mgr aid (fw_fs s))) (\<lambda>impact.
          sx_then (sx_of_res (raise_if (\<not> truthy (jget body ''expected_fingerprint'')
               \<or> jget body ''expected_fingerprint'' \<noteq> ai_fingerprint impact) (HTTPException 409 ''Fresh file deletion fingerprint required'')))
          (sx_then (sx_of_res (raise_if (truthy (jget body ''empty_only'') \<and> ai_files impact \<noteq> 0) (HTTPException 409 ''Agent files are not empty'')))
          (sx_then (begin_cleanup (str_of request_id) payload)
          (sx_then (on_fs (remove_existing [wm_root mgr @ [aid], wm_state mgr @ [aid]]))
          (let result = JObj [(''ok'', JBool True), (''removed_files'', JInt (int (ai_files impact)))] in
           sx_then (finish_cleanup (str_of request_id) result) (sx_return result))))))))))"

section \<open>What a removal removes\<close>

text \<open>Every entry sits in a directory.\<close>

definition tree_closed :: "fs \<Rightarrow> bool" where
  "tree_closed fs \<longleftrightarrow> (\<forall>p. p \<noteq> [] \<longrightarrow> entry_at fs p \<noteq> None \<longrightarrow> entry_at fs (butlast p) = Some Directory)"

lemma closed_prefix: "tree_closed fs \<Longrightarrow> entry_at fs p \<noteq> None \<Longrightarrow> strict_prefix q p \<Longrightarrow> entry_at fs q = Some Directory"
proof (induction p rule: rev_induct)
  case Nil
  then show ?case by simp
next
  case (snoc x p)
  then have d: "entry_at fs p = Some Directory" unfolding tree_closed_def by (metis butlast_snoc snoc_eq_iff_butlast)
  from snoc.prems(3) have "q = p \<or> strict_prefix q p" by (auto simp: strict_prefix_def prefix_snoc)
  with snoc d show ?case by auto
qed

lemma namei_closed:
  "entry_at fs (cur @ ps) = Some Directory \<Longrightarrow> tree_closed fs \<Longrightarrow> plain_path ps \<Longrightarrow> namei fs n cur ps = Inr (cur @ ps)"
proof (induction ps arbitrary: cur)
  case (Cons p ps)
  have "entry_at fs (cur @ [p]) = Some Directory"
    using closed_prefix [OF Cons.prems(2), of "cur @ p # ps" "cur @ [p]"] Cons.prems(1)
    by (cases ps) (auto simp: strict_prefix_def prefix_def)
  then show ?case using Cons.IH [of "cur @ [p]"] Cons.prems by simp
qed simp

lemma stat_closed:
  "entry_at fs (cur @ ps) = Some e \<Longrightarrow> (\<And>a t. e \<noteq> Symlink a t) \<Longrightarrow> tree_closed fs \<Longrightarrow> plain_path ps \<Longrightarrow>
    stat_path fs n cur ps \<noteq> None"
proof (induction ps arbitrary: cur)
  case (Cons p ps)
  show ?case
  proof (cases ps)
    case Nil
    then show ?thesis using Cons.prems by (cases e) auto
  next
    case (Cons q qs)
    then have "entry_at fs (cur @ [p]) = Some Directory"
      using closed_prefix [of fs "cur @ p # ps" "cur @ [p]"] Cons.prems by (auto simp: strict_prefix_def prefix_def)
    then show ?thesis using Cons.IH [of "cur @ [p]"] Cons.prems by simp
  qed
qed simp

lemma remove_tree_Inr:
  assumes "remove_tree p fs = (Inr u, fs')" and "link_free fs p" and "plain_path p" and "p \<noteq> []"
  shows "fs' = rmtree p fs"
proof -
  obtain d where d: "namei fs MAX_LINKS [] (butlast p) = Inr d" and fs': "fs' = rmtree (d @ [last p]) fs"
    using assms(1) by (auto simp: remove_tree_def split: sum.splits option.splits entry.splits)
  have "d = butlast p" using namei_link_free [OF d] assms by (simp add: link_free_butlast plain_path_butlast)
  then show ?thesis using fs' assms(4) by simp
qed

lemma rmtree_closed: "tree_closed fs \<Longrightarrow> d \<noteq> [] \<Longrightarrow> tree_closed (rmtree d fs)"
  unfolding tree_closed_def by (auto simp: entry_at_rmtree dest: prefix_order.trans [OF _ prefixeq_butlast])

text \<open>After a removal nothing of the target is left, and nothing else is touched.\<close>

definition removed_below :: "path set \<Rightarrow> fs \<Rightarrow> fs \<Rightarrow> bool" where
  "removed_below ts fs fs' \<longleftrightarrow> (\<forall>p. entry_at fs' p = (if \<exists>t \<in> ts. prefix t p then None else entry_at fs p))"

lemma absent_below:
  assumes "tree_closed fs" "plain_path t" "t \<noteq> []" "\<not> is_symlink fs t" "\<not> path_exists fs t" "prefix t p"
  shows "entry_at fs p = None"
proof (rule ccontr)
  assume "entry_at fs p \<noteq> None"
  then have t: "entry_at fs t \<noteq> None" using closed_prefix [OF assms(1)] assms(6) by (cases "t = p") (auto simp: strict_prefix_def)
  then have "entry_at fs (butlast t) = Some Directory" using assms(1,3) by (simp add: tree_closed_def)
  then have "namei fs MAX_LINKS [] (butlast t) = Inr (butlast t)"
    using namei_closed [of fs "[]" "butlast t"] assms(1,2) by (simp add: plain_path_butlast)
  then have "\<And>a x. entry_at fs t \<noteq> Some (Symlink a x)" using assms(3,4) by (auto simp: is_symlink_def)
  then have "stat_path fs MAX_LINKS [] t \<noteq> None" using stat_closed [of fs "[]" t] t assms(1,2) by auto
  then show False using assms(5) by (simp add: path_exists_def)
qed

lemma remove_targets_Inr:
  assumes "remove_targets ts fs = (Inr r, fs')" and "tree_closed fs" and "\<And>t. t \<in> set ts \<Longrightarrow> plain_path t \<and> t \<noteq> []"
  shows "removed_below (set ts) fs fs' \<and> tree_closed fs'"
  using assms
proof (induction ts arbitrary: fs r)
  case Nil
  then show ?case by (simp add: sx_step_defs removed_below_def)
next
  case (Cons t ts)
  obtain fs1 r1 where ok: "\<not> is_symlink fs t" "path_exists fs t \<Longrightarrow> resolve fs MAX_LINKS [] t = Some t"
    and step: "if path_exists fs t then \<exists>u. remove_tree t fs = (Inr u, fs1) else fs1 = fs"
    and rest: "remove_targets ts fs1 = (Inr r1, fs')"
    using Cons.prems(1) by (auto simp: sx_outcome_simps split: if_splits)
  have t: "plain_path t" "t \<noteq> []" using Cons.prems(3) by auto
  have "removed_below {t} fs fs1 \<and> tree_closed fs1"
  proof (cases "path_exists fs t")
    case True
    have "link_free fs t" using resolve_link_free [OF ok(2) [OF True]] by simp
    then have "fs1 = rmtree t fs" using step True remove_tree_Inr t by auto
    then show ?thesis using t Cons.prems(2) by (simp add: removed_below_def entry_at_rmtree rmtree_closed)
  next
    case False
    then show ?thesis using step ok(1) absent_below [OF Cons.prems(2) t] Cons.prems(2) by (simp add: removed_below_def)
  qed
  moreover from this have "removed_below (set ts) fs1 fs' \<and> tree_closed fs'"
    using Cons.IH [OF rest] Cons.prems(3) by auto
  ultimately show ?case by (auto simp: removed_below_def)
qed

section \<open>Exactly once\<close>

definition cleanup_key :: "jdict \<Rightarrow> string" where
  "cleanup_key body = str_of (jget body ''request_id'')"

definition authorized :: "ask \<Rightarrow> string \<Rightarrow> string \<Rightarrow> jdict \<Rightarrow> bool" where
  "authorized ask a u body \<longleftrightarrow> (\<exists>answer. check ask ''/internal/v1/cleanup-authorization''
     [(''agent_id'', JStr a), (''username'', JStr u), (''request_id'', jget body ''request_id''), (''run_id'', jget body ''run_id'')] = Inr answer)"

lemma fw_sx_simps: "on_fs m s = (Inr r, s') \<longleftrightarrow> (\<exists>fs. m (fw_fs s) = (Inr r, fs) \<and> s' = s\<lparr>fw_fs := fs\<rparr>)"
  "begin_cleanup k payload s = (Inr x, s') \<longleftrightarrow>
     (\<exists>rows. enter k (canonical (JObj payload)) (fw_cleanups s) = Inr rows \<and> s' = s\<lparr>fw_cleanups := rows\<rparr>)"
  "finish_cleanup k v s = (Inr x, s') \<longleftrightarrow> s' = s\<lparr>fw_cleanups := settle k v (fw_cleanups s)\<rparr>"
  by (auto simp: on_fs_def begin_cleanup_def finish_cleanup_def sx_modify_def split: prod.splits sum.splits)

lemma cleanup_user_first:
  assumes run: "cleanup_user ask mgr a u body s = (Inr r, s')"
    and first: "receipt_of (cleanup_key body) (fw_cleanups s) = None"
  obtains rows fs where "identifier_pattern a" "identifier_pattern u" "authorized ask a u body"
    "\<exists>k. jget body ''request_id'' = JStr k \<and> k \<noteq> [] \<and> length k \<le> 256"
    "enter (cleanup_key body) (canonical (JObj (dupdate [(''agent_id'', JStr a), (''username'', JStr u)] body))) (fw_cleanups s) = Inr rows"
    "remove_user mgr a u (fw_fs s) = (Inr r, fs)"
    "s' = s\<lparr>fw_fs := fs, fw_cleanups := settle (cleanup_key body) r rows\<rparr>"
proof -
  let ?payload = "dupdate [(''agent_id'', JStr a), (''username'', JStr u)] body"
  obtain v where v: "replay (jget body ''request_id'') ?payload (fw_cleanups s) = Inr v"
    using run by (auto simp: cleanup_user_def guard_def Let_def sx_outcome_simps)
  then obtain k where k: "jget body ''request_id'' = JStr k" "k \<noteq> []" "length k \<le> 256"
    by (auto simp: replay_def split: json.splits if_splits)
  then have "v = JNull" using v first by (simp add: replay_def cleanup_key_def)
  then show thesis
    using run v k that by (fastforce simp: cleanup_user_def guard_def Let_def sx_outcome_simps fw_sx_simps validate_identifier_iff authorized_def cleanup_key_def)
qed

lemma cleanup_user_replays:
  assumes "identifier_pattern a" "identifier_pattern u" "jget body ''request_id'' = JStr k" "k \<noteq> []" "length k \<le> 256"
    and "receipt_of k (fw_cleanups s) = Some (canonical (JObj (dupdate [(''agent_id'', JStr a), (''username'', JStr u)] body)), Some r)"
    and "r \<noteq> JNull"
  shows "cleanup_user ask mgr a u body s = (Inr r, s)"
  using assms by (simp add: cleanup_user_def guard_def Let_def sx_step_defs replay_def identifier_accepted)

text \<open>C16: Removing a user's files happens exactly once per request: the first run that succeeds was
  authorized by the operations service, removes everything below the user's two directories and nothing
  else, and every later run of the same request returns the same answer without asking or removing.\<close>
theorem cleanup_user_exactly_once:
  assumes "cleanup_user ask mgr a u body s = (Inr r, s')"
    and "receipt_of (cleanup_key body) (fw_cleanups s) = None" and "tree_closed (fw_fs s)" and "manager_ok mgr"
  shows "authorized ask a u body \<and>
    removed_below {wm_root mgr @ [a, u], wm_state mgr @ [a, u]} (fw_fs s) (fw_fs s') \<and>
    (\<forall>ask'. cleanup_user ask' mgr a u body s' = (Inr r, s'))"
proof -
  obtain rows fs where id: "identifier_pattern a" "identifier_pattern u" and auth: "authorized ask a u body"
    and k: "\<exists>k. jget body ''request_id'' = JStr k \<and> k \<noteq> [] \<and> length k \<le> 256"
    and e: "enter (cleanup_key body) (canonical (JObj (dupdate [(''agent_id'', JStr a), (''username'', JStr u)] body))) (fw_cleanups s) = Inr rows"
    and rm: "remove_user mgr a u (fw_fs s) = (Inr r, fs)"
    and s': "s' = s\<lparr>fw_fs := fs, fw_cleanups := settle (cleanup_key body) r rows\<rparr>"
    by (rule cleanup_user_first [OF assms(1,2)])
  obtain removed where rt: "remove_targets [wm_root mgr @ [a, u], wm_state mgr @ [a, u]] (fw_fs s) = (Inr removed, fs)"
    and r: "r = JObj [(''ok'', JBool True), (''removed'', JArr removed)]"
    using rm by (auto simp: remove_user_def sx_outcome_simps)
  have "\<And>t. t \<in> set [wm_root mgr @ [a, u], wm_state mgr @ [a, u]] \<Longrightarrow> plain_path t \<and> t \<noteq> []"
    using assms(4) id [THEN identifier_plain] by (auto simp: manager_ok_def)
  from remove_targets_Inr [OF rt assms(3) this]
  have "removed_below (set [wm_root mgr @ [a, u], wm_state mgr @ [a, u]]) (fw_fs s) fs" by simp
  moreover have "cleanup_user ask' mgr a u body s' = (Inr r, s')" for ask'
    using k id receipts.ran_once [OF e, of r] r s' by (auto intro!: cleanup_user_replays simp: cleanup_key_def)
  ultimately show ?thesis using auth s' by simp
qed

text \<open>An interrupted removal is never repeated silently.\<close>

lemma interrupted_cleanup_refused:
  assumes "receipt_of (cleanup_key body) (fw_cleanups s) = Some (p, None)"
  shows "\<exists>e. cleanup_user ask mgr a u body s = (Inl e, s)"
  using assms
  by (auto simp: cleanup_user_def guard_def Let_def sx_step_defs replay_def cleanup_key_def split: sum.splits json.splits if_splits)

definition demo_files :: fs where
  "demo_files = [([''w''], Directory), ([''s''], Directory), ([''w'', ''a1''], Directory), ([''w'', ''a1'', ''u1''], Directory),
     ([''w'', ''a1'', ''u1'', ''f''], RegFile [7]), ([''w'', ''a1'', ''u2''], RegFile [8])]"

definition demo_cleanup :: jdict where
  "demo_cleanup = [(''request_id'', JStr ''r1'')]"

definition yes :: ask where
  "yes p params = Reply 200 (JObj [(''allowed'', JBool True)])"

lemma demo_files_closed: "tree_closed demo_files"
  by (auto simp: tree_closed_def demo_files_def entry_at_def)

theorem cleanup_user_exactly_once_witness:
  "\<exists>r s'. cleanup_user yes demo_manager ''a1'' ''u1'' demo_cleanup \<lparr>fw_fs = demo_files, fw_cleanups = []\<rparr> = (Inr r, s') \<and>
    entry_at (fw_fs s') [''w'', ''a1'', ''u1'', ''f''] = None \<and> entry_at (fw_fs s') [''w'', ''a1'', ''u2''] = Some (RegFile [8])"
proof -
  let ?s = "\<lparr>fw_fs = demo_files, fw_cleanups = []\<rparr>"
  have "\<exists>r s'. cleanup_user yes demo_manager ''a1'' ''u1'' demo_cleanup ?s = (Inr r, s')"
    by (simp add: cleanup_user_def guard_def validate_identifier_def identifier_pattern_def ident_tail_char_def char_class_defs Let_def
        demo_cleanup_def replay_def receipt_of_def check_def yes_def is_error_def attr_get_def dupdate_def jget_def dget_def
        begin_cleanup_def enter_def on_fs_def remove_user_def demo_manager_def demo_files_def is_symlink_def path_exists_def
        entry_at_def MAX_LINKS_def remove_tree_def rmtree_def finish_cleanup_def raise_if_def sx_step_defs)
  then obtain r s' where ok: "cleanup_user yes demo_manager ''a1'' ''u1'' demo_cleanup ?s = (Inr r, s')" by blast
  have "receipt_of (cleanup_key demo_cleanup) (fw_cleanups ?s) = None" by (simp add: receipt_of_def)
  moreover have "manager_ok demo_manager" by (simp add: manager_ok_def demo_manager_def)
  ultimately have rb: "removed_below {[''w'', ''a1'', ''u1''], [''s'', ''a1'', ''u1'']} demo_files (fw_fs s')"
    using cleanup_user_exactly_once [OF ok] demo_files_closed by (simp add: demo_manager_def)
  have "entry_at (fw_fs s') [''w'', ''a1'', ''u1'', ''f''] = None" using rb by (simp add: removed_below_def)
  moreover have "entry_at demo_files [''w'', ''a1'', ''u2''] = Some (RegFile [8])" by (simp add: demo_files_def entry_at_def)
  then have "entry_at (fw_fs s') [''w'', ''a1'', ''u2''] = Some (RegFile [8])" using rb by (simp add: removed_below_def)
  ultimately show ?thesis using ok by blast
qed

end
