(* ===== verification/ServiceCalls.thy ===== *)
theory ServiceCalls
  imports OpsApi FileCleanup
begin

text \<open>
  Two services together: the file service asks the operations service, over the two endpoints
  it uses, whether it may act (\<open>FileCoordination.check\<close> against \<open>file_admission\<close> and
  \<open>cleanup_authorization\<close> of \<open>operations/main.py\<close>).
\<close>

definition answer :: "json res \<Rightarrow> reply" where
  "answer r = (case r of
     Inr body \<Rightarrow> Reply 200 body
   | Inl (HTTPException status detail) \<Rightarrow> Reply status (JObj [(''detail'', JStr detail)])
   | Inl _ \<Rightarrow> Reply 500 JNull)"

definition text_param :: "jdict \<Rightarrow> string \<Rightarrow> string option" where
  "text_param params k = (case jget params k of JStr s \<Rightarrow> Some s | _ \<Rightarrow> None)"

definition ops_answer :: "ops_db \<Rightarrow> ask" where
  "ops_answer db p params =
    (if p = ''/internal/v1/cleanup-authorization''
     then answer (ebind (cleanup_authorization (str_of (jget params ''agent_id'')) (str_of (jget params ''request_id''))
            (text_param params ''username'') (text_param params ''run_id'') db) (\<lambda>_. Inr (JObj [(''allowed'', JBool True)])))
     else if p = ''/internal/v1/file-admission''
     then answer (ebind (file_admission (str_of (jget params ''agent_id'')) (str_of (jget params ''username'')) db)
            (\<lambda>resources. Inr (JObj [(''allowed'', JBool True), (''resources'', resources)])))
     else Reply 404 JNull)"

text \<open>What the operations service must hold for a removal to be in order: the load test of the user is
  being cleaned up under exactly this request, or a deletion of the Agent is being applied under it.\<close>

definition deletion_intent :: "ops_db \<Rightarrow> string \<Rightarrow> string \<Rightarrow> bool" where
  "deletion_intent db a key \<longleftrightarrow>
    (\<exists>job \<in> set (jobs db). jget job ''target'' = JStr a \<and> kind_of job \<in> {''agent.delete'', ''agent.delete-empty''} \<and>
       dget job ''execution_id'' (jget job ''id'') = JStr key \<and> jget job ''status'' = JStr ''applying'')"

definition cleanup_intent :: "ops_db \<Rightarrow> string \<Rightarrow> string \<Rightarrow> string \<Rightarrow> bool" where
  "cleanup_intent db a u key \<longleftrightarrow>
    (\<exists>run report user. key = run @ '':'' @ u \<and> get_test run db = Inr report \<and>
       jget (rp_doc report) ''cleanup_status'' = JStr ''cleaning'' \<and> get_user a u db = Some user \<and>
       jget user ''run_id'' = JStr run \<and> jget user ''storage_state'' = JStr ''cleaning'') \<or> deletion_intent db a key"

lemma agent_authorization_intent:
  "cleanup_authorization a key None rid db = Inr () \<Longrightarrow> deletion_intent db a key"
  by (cases rid) (auto simp: cleanup_authorization_def Let_def deletion_intent_def list_ex_iff split: list.splits if_splits)

lemma cleanup_authorization_intent:
  assumes "cleanup_authorization a key (Some u) rid db = Inr ()" and "u \<noteq> []"
  shows "cleanup_intent db a u key"
proof -
  obtain c cs where u: "u = c # cs" using assms(2) by (cases u) auto
  show ?thesis
  proof (cases "rid = None \<or> rid = Some []")
    case True
    then show ?thesis using assms(1) u
      by (auto simp: cleanup_authorization_def Let_def cleanup_intent_def deletion_intent_def list_ex_iff split: if_splits)
  next
    case False
    then obtain r rs where "rid = Some (r # rs)" by (cases rid) (auto simp: neq_Nil_conv)
    then show ?thesis using assms(1) u
      by (auto simp: cleanup_authorization_def Let_def cleanup_intent_def exc_simps split: if_splits option.splits)
  qed
qed

text \<open>A check of the operations service that passes is an authorization in its store.\<close>

lemma check_authorized:
  assumes "check (ops_answer db) ''/internal/v1/cleanup-authorization'' params = Inr x"
  shows "let given = filter (\<lambda>(k, v). v \<noteq> JNull) params in
    cleanup_authorization (str_of (jget given ''agent_id'')) (str_of (jget given ''request_id''))
      (text_param given ''username'') (text_param given ''run_id'') db = Inr ()"
  using assms
  by (auto simp: check_def ops_answer_def answer_def Let_def is_error_def attr_get_def dget_def exc_simps
      split: sum.splits exc.splits if_splits)

lemma cleanup_user_changes:
  assumes "cleanup_user ask mgr a u body s = (outcome, s')" and "s' \<noteq> s"
  shows "identifier_pattern u \<and> (\<exists>k x. jget body ''request_id'' = JStr k \<and>
    check ask ''/internal/v1/cleanup-authorization''
      [(''agent_id'', JStr a), (''username'', JStr u), (''request_id'', jget body ''request_id''),
       (''run_id'', jget body ''run_id'')] = Inr x)"
  using assms
  by (auto simp: cleanup_user_def guard_def Let_def sx_step_defs replay_def validate_identifier_def
      split: sum.splits json.splits if_splits)

lemma cleanup_agent_changes:
  assumes "cleanup_agent ask mtime mgr a body s = (outcome, s')" and "s' \<noteq> s"
  shows "\<exists>k x impact. jget body ''request_id'' = JStr k \<and>
    check ask ''/internal/v1/cleanup-authorization'' [(''agent_id'', JStr a), (''request_id'', jget body ''request_id'')] = Inr x \<and>
    agent_impact_of mtime mgr a (fw_fs s) = Inr impact \<and> jget body ''expected_fingerprint'' = ai_fingerprint impact \<and>
    (truthy (jget body ''empty_only'') \<longrightarrow> ai_files impact = 0)"
  using assms
  by (auto simp: cleanup_agent_def guard_def Let_def sx_step_defs replay_def raise_if_def
      split: sum.splits json.splits if_splits)


definition deleting_db :: ops_db where
  "deleting_db = empty_ops\<lparr>job_rows := [\<lparr>jb_id = ''r1'', jb_request_id = ''q1'', jb_target = ''a1'',
     jb_doc = [(''id'', JStr ''r1''), (''kind'', JStr ''agent.delete''), (''target'', JStr ''a1''), (''status'', JStr ''applying'')]\<rparr>]\<rparr>"


end
