(* ===== verification/Capacity.thy ===== *)
theory Capacity
  imports LoadTests
begin

text \<open>
  The admission budget of load tests: \<open>sandbox_manager/capacity.py\<close>, which samples the host
  and its containers, and \<open>operations/src/load_capacity.py\<close>, which compares a request with
  the sample. What Docker and \<open>/proc\<close> report are parameters; a limit that Docker leaves out is 0,
  as \<open>config.get(name, 0)\<close> reads it. The text of the suggestions is left out of the message.
\<close>

section \<open>Sampling\<close>

definition cpu_ticks :: "int list \<Rightarrow> int \<times> int" where
  "cpu_ticks stat_line = (let vs = take 8 stat_line in (sum_list vs, vs ! 3 + vs ! 4))"

record host =
  h_memory_mb :: rat
  h_available_mb :: rat
  h_cpu_usage :: rat

definition host_sample :: "int \<times> int \<Rightarrow> int \<times> int \<Rightarrow> int \<Rightarrow> int \<Rightarrow> host res" where
  "host_sample before after mem_total mem_available =
    (let elapsed = fst after - fst before in
     if elapsed \<le> 0 then Inl (ValueError ''CPU sample unavailable'')
     else Inr \<lparr>h_memory_mb = of_int mem_total / 1024, h_available_mb = of_int mem_available / 1024,
       h_cpu_usage = max 0 (min 100 (100 * (1 - of_int (snd after - snd before) / of_int elapsed)))\<rparr>)"

record container =
  ct_id :: string
  ct_status :: string
  ct_agent :: string
  ct_nano_cpus :: int
  ct_cpu_quota :: int
  ct_cpu_period :: int
  ct_memory :: int
  ct_usage_mb :: rat

definition live_status :: "string \<Rightarrow> bool" where
  "live_status s \<longleftrightarrow> s \<in> {''running'', ''restarting'', ''paused''}"

text \<open>The working set of a container: reclaimable file cache is not counted as used.\<close>

definition memory_usage :: "bool \<Rightarrow> int option \<Rightarrow> int option \<Rightarrow> int option \<Rightarrow> int option \<Rightarrow> rat res" where
  "memory_usage live usage total_cache cache file =
    (if live \<and> usage = None then Inl (ValueError ''Container memory sample missing'')
     else let used = (case usage of Some u \<Rightarrow> u | None \<Rightarrow> 0);
              cached = (case total_cache of Some c \<Rightarrow> c | None \<Rightarrow>
                 (case cache of Some c \<Rightarrow> c | None \<Rightarrow> (case file of Some c \<Rightarrow> c | None \<Rightarrow> 0)))
          in Inr (of_int (max 0 (used - cached)) / 1024 ^ 2))"

section \<open>The budget\<close>

record capacity_policy =
  cp_reserved_cpu :: rat
  cp_reserved_memory_mb :: int
  cp_reserve_fraction :: rat
  cp_max_cpu_usage :: rat

definition default_policy :: capacity_policy where
  "default_policy = \<lparr>cp_reserved_cpu = 1, cp_reserved_memory_mb = 1024, cp_reserve_fraction = 1 / 10, cp_max_cpu_usage = 90\<rparr>"

definition is_sandbox :: "container \<Rightarrow> bool" where
  "is_sandbox c \<longleftrightarrow> ct_agent c \<noteq> []"

definition limit_cpu :: "container \<Rightarrow> rat" where
  "limit_cpu c = (if ct_nano_cpus c = 0 \<and> ct_cpu_quota c > 0 \<and> ct_cpu_period c > 0
     then of_int (ct_cpu_quota c) / of_int (ct_cpu_period c) else of_int (ct_nano_cpus c) / 10 ^ 9)"

definition limit_memory :: "container \<Rightarrow> rat" where
  "limit_memory c = of_int (ct_memory c) / 1024 ^ 2"

record budget =
  bg_cpu :: rat
  bg_memory :: rat
  bg_growth :: rat
  bg_unknown :: "string list"
  bg_sandboxes :: nat
  bg_running :: nat

definition count_container :: "container \<Rightarrow> budget \<Rightarrow> budget" where
  "count_container c b =
    (let live = live_status (ct_status c); sandbox = is_sandbox c in
     if \<not> live \<and> \<not> sandbox then b
     else \<lparr>bg_cpu = bg_cpu b + max 0 (limit_cpu c),
       bg_memory = bg_memory b + max 0 (limit_memory c),
       bg_growth = bg_growth b + max 0 (limit_memory c - (if live then ct_usage_mb c else 0)),
       bg_unknown = (if sandbox \<and> (limit_cpu c \<le> 0 \<or> limit_memory c \<le> 0) then bg_unknown b @ [ct_id c] else bg_unknown b),
       bg_sandboxes = bg_sandboxes b + (if live \<and> sandbox then 1 else 0),
       bg_running = bg_running b + (if live then 1 else 0)\<rparr>)"

definition count_containers :: "container list \<Rightarrow> budget" where
  "count_containers cs = fold count_container cs \<lparr>bg_cpu = 0, bg_memory = 0, bg_growth = 0, bg_unknown = [], bg_sandboxes = 0, bg_running = 0\<rparr>"

record capacity =
  cy_known :: bool
  cy_sampled_at :: rat
  cy_allowed :: bool
  cy_reasons :: "string list"
  cy_cpu_count :: int
  cy_memory_mb :: rat
  cy_cpu_usage :: rat
  cy_available_mb :: rat
  cy_allocated_cpu :: rat
  cy_allocated_memory_mb :: rat
  cy_reserved_cpu :: rat
  cy_reserved_memory_mb :: rat
  cy_remaining_cpu :: rat
  cy_remaining_memory_mb :: int
  cy_running_sandboxes :: nat
  cy_running_containers :: nat
  cy_unbounded_sandboxes :: nat

definition reserved_cpu :: "int \<Rightarrow> capacity_policy \<Rightarrow> rat" where
  "reserved_cpu ncpu policy = max (cp_reserved_cpu policy) (of_int ncpu * cp_reserve_fraction policy)"

definition reserved_memory :: "rat \<Rightarrow> capacity_policy \<Rightarrow> rat" where
  "reserved_memory host_mb policy = max (of_int (cp_reserved_memory_mb policy)) (host_mb * cp_reserve_fraction policy)"

definition calculate :: "int \<Rightarrow> int \<Rightarrow> host \<Rightarrow> container list \<Rightarrow> capacity_policy \<Rightarrow> rat \<Rightarrow> capacity res" where
  "calculate ncpu mem_total h containers policy now =
    (let total_memory = of_int mem_total / 1024 ^ 2 :: rat in
     if ncpu \<le> 0 \<or> total_memory \<le> 0 \<or> \<bar>total_memory - h_memory_mb h\<bar> > total_memory * (5 / 100)
     then Inl (ValueError ''Docker daemon and /proc host do not agree'')
     else let b = count_containers containers;
       res_cpu = reserved_cpu ncpu policy;
       res_memory = reserved_memory total_memory policy;
       remaining_cpu = of_int ncpu - res_cpu - bg_cpu b;
       remaining_memory = min (total_memory - res_memory - bg_memory b) (h_available_mb h - res_memory - bg_growth b);
       reasons = (if bg_unknown b \<noteq> [] then [''Sandboxes without CPU or memory limit''] else [])
         @ (if h_cpu_usage h \<ge> cp_max_cpu_usage policy then [''Host CPU is busy''] else [])
         @ (if remaining_cpu < 0 \<or> remaining_memory < 0 then [''System reserve is used up''] else [])
     in Inr \<lparr>cy_known = True, cy_sampled_at = now, cy_allowed = (reasons = []), cy_reasons = reasons, cy_cpu_count = ncpu,
          cy_memory_mb = py_round 1 total_memory, cy_cpu_usage = py_round 1 (h_cpu_usage h),
          cy_available_mb = py_round 1 (h_available_mb h), cy_allocated_cpu = py_round 3 (bg_cpu b),
          cy_allocated_memory_mb = py_round 1 (bg_memory b), cy_reserved_cpu = py_round 3 res_cpu,
          cy_reserved_memory_mb = py_round 1 res_memory,
          cy_remaining_cpu = of_int \<lfloor>max 0 remaining_cpu * 1000\<rfloor> / 1000,
          cy_remaining_memory_mb = \<lfloor>max 0 remaining_memory\<rfloor>,
          cy_running_sandboxes = bg_sandboxes b, cy_running_containers = bg_running b,
          cy_unbounded_sandboxes = length (bg_unknown b)\<rparr>)"

definition unknown_capacity :: "rat \<Rightarrow> capacity" where
  "unknown_capacity now = \<lparr>cy_known = False, cy_sampled_at = now, cy_allowed = False, cy_reasons = [''Capacity cannot be read''],
     cy_cpu_count = 0, cy_memory_mb = 0, cy_cpu_usage = 0, cy_available_mb = 0, cy_allocated_cpu = 0, cy_allocated_memory_mb = 0,
     cy_reserved_cpu = 0, cy_reserved_memory_mb = 0, cy_remaining_cpu = 0, cy_remaining_memory_mb = 0, cy_running_sandboxes = 0,
     cy_running_containers = 0, cy_unbounded_sandboxes = 0\<rparr>"

text \<open>\<open>LoadCapacity.snapshot\<close> of the sandbox manager: the state is the cached sample, \<open>sample\<close> what
  the sampling task returns when it is awaited. Fields the failure report lacks are 0.\<close>

definition snapshot :: "bool \<Rightarrow> rat \<Rightarrow> capacity res \<Rightarrow> capacity option \<Rightarrow> capacity \<times> capacity option" where
  "snapshot fresh now sample cached =
    (let sampled = (case sample of Inr c \<Rightarrow> (c, Some c) | Inl _ \<Rightarrow> (unknown_capacity now, None)) in
     case cached of
       Some c \<Rightarrow> if \<not> fresh \<and> now - cy_sampled_at c < 5 then (c, Some c) else sampled
     | None \<Rightarrow> sampled)"

text \<open>The endpoint \<open>/internal/v1/capacity\<close>, and the snapshot of the operations service, which
  calls the endpoint whether it is asked for a fresh sample or not.\<close>

definition capacity_endpoint :: "rat \<Rightarrow> capacity res \<Rightarrow> capacity option \<Rightarrow> capacity \<times> capacity option" where
  "capacity_endpoint = snapshot False"

definition ops_snapshot :: "bool \<Rightarrow> rat \<Rightarrow> capacity res \<Rightarrow> capacity option \<Rightarrow> capacity \<times> capacity option" where
  "ops_snapshot fresh = capacity_endpoint"

section \<open>Admission\<close>

record demand =
  dm_agent :: string
  dm_cpu :: rat
  dm_memory :: int
  dm_users :: nat

definition demand_cpu :: "demand list \<Rightarrow> rat" where
  "demand_cpu ds = (\<Sum>d \<leftarrow> ds. dm_cpu d * of_nat (dm_users d))"

definition demand_memory :: "demand list \<Rightarrow> int" where
  "demand_memory ds = (\<Sum>d \<leftarrow> ds. dm_memory d * int (dm_users d))"

definition group_demands :: "demand list \<Rightarrow> (string, demand) dict" where
  "group_demands ds = fold (\<lambda>d g. case map_of g (dm_agent d) of
       None \<Rightarrow> dput (dm_agent d) d g
     | Some row \<Rightarrow> dput (dm_agent d) (row\<lparr>dm_users := dm_users row + dm_users d\<rparr>) g) ds []"

definition suggestion :: "capacity \<Rightarrow> demand list \<Rightarrow> demand \<Rightarrow> int" where
  "suggestion snap ds a =
    (let other_cpu = demand_cpu ds - dm_cpu a * of_nat (dm_users a);
         other_memory = demand_memory ds - dm_memory a * int (dm_users a)
     in max 0 (min \<lfloor>(cy_remaining_cpu snap - other_cpu) / dm_cpu a\<rfloor>
                   \<lfloor>(of_int (cy_remaining_memory_mb snap - other_memory) :: rat) / of_int (dm_memory a)\<rfloor>))"

definition check_capacity :: "rat \<Rightarrow> capacity \<Rightarrow> demand list \<Rightarrow> unit res" where
  "check_capacity now snap ds =
    ebind (raise_if (\<not> cy_known snap \<or> now - cy_sampled_at snap > 15)
      (HTTPException 503 ''Capacity is unknown or out of date'')) (\<lambda>_.
    ebind (raise_if (\<not> cy_allowed snap) (HTTPException 409 (join_with ''; '' (cy_reasons snap)))) (\<lambda>_.
    raise_if (demand_cpu ds > cy_remaining_cpu snap + 1 / 10 ^ 8 \<or> demand_memory ds > cy_remaining_memory_mb snap)
      (HTTPException 409 ''The load test needs more than is available'')))"

section \<open>No overcommitment\<close>

text \<open>What containers already hold, read off the list.\<close>

definition counted :: "container list \<Rightarrow> container list" where
  "counted cs = filter (\<lambda>c. live_status (ct_status c) \<or> is_sandbox c) cs"

definition allocated_cpu :: "container list \<Rightarrow> rat" where
  "allocated_cpu cs = (\<Sum>c \<leftarrow> counted cs. max 0 (limit_cpu c))"

definition allocated_memory :: "container list \<Rightarrow> rat" where
  "allocated_memory cs = (\<Sum>c \<leftarrow> counted cs. max 0 (limit_memory c))"

definition memory_growth :: "container list \<Rightarrow> rat" where
  "memory_growth cs = (\<Sum>c \<leftarrow> counted cs. max 0 (limit_memory c - (if live_status (ct_status c) then ct_usage_mb c else 0)))"

lemma fold_count:
  "bg_cpu (fold count_container cs b) = bg_cpu b + allocated_cpu cs"
  "bg_memory (fold count_container cs b) = bg_memory b + allocated_memory cs"
  "bg_growth (fold count_container cs b) = bg_growth b + memory_growth cs"
  "bg_unknown (fold count_container cs b) = bg_unknown b @
     map ct_id (filter (\<lambda>c. is_sandbox c \<and> (limit_cpu c \<le> 0 \<or> limit_memory c \<le> 0)) cs)"
  by (induction cs arbitrary: b)
    (auto simp: count_container_def Let_def allocated_cpu_def allocated_memory_def memory_growth_def counted_def)

lemma count_containers_simps [simp]:
  "bg_cpu (count_containers cs) = allocated_cpu cs" "bg_memory (count_containers cs) = allocated_memory cs"
  "bg_growth (count_containers cs) = memory_growth cs"
  "bg_unknown (count_containers cs) = map ct_id (filter (\<lambda>c. is_sandbox c \<and> (limit_cpu c \<le> 0 \<or> limit_memory c \<le> 0)) cs)"
  by (simp_all add: count_containers_def fold_count)

text \<open>C20: An admitted load test fits: with what all containers already hold, the CPU it asks for stays
  within the host minus the reserve (up to the float tolerance 1e-8), its memory within the host minus
  the reserve, and also within what is really available after the running containers have grown to their
  limits; every sandbox has limits, the host CPU is below the threshold and the sample is at most
  15 seconds old.\<close>
theorem admission_never_overcommits:
  assumes "calculate ncpu mem_total h cs policy t = Inr snap" and "check_capacity now snap ds = Inr ()"
  shows "allocated_cpu cs + demand_cpu ds \<le> of_int ncpu - reserved_cpu ncpu policy + 1 / 10 ^ 8 \<and>
    allocated_memory cs + of_int (demand_memory ds) \<le>
      of_int mem_total / 1024 ^ 2 - reserved_memory (of_int mem_total / 1024 ^ 2) policy \<and>
    memory_growth cs + of_int (demand_memory ds) \<le>
      h_available_mb h - reserved_memory (of_int mem_total / 1024 ^ 2) policy \<and>
    (\<forall>c. c \<in> set cs \<and> is_sandbox c \<longrightarrow> 0 < limit_cpu c \<and> 0 < limit_memory c) \<and>
    h_cpu_usage h < cp_max_cpu_usage policy \<and> now - t \<le> 15"
proof -
  let ?total = "of_int mem_total / 1024 ^ 2 :: rat"
  define rc where "rc = of_int ncpu - reserved_cpu ncpu policy - allocated_cpu cs"
  define rm where "rm = min (?total - reserved_memory ?total policy - allocated_memory cs)
     (h_available_mb h - reserved_memory ?total policy - memory_growth cs)"
  have snap: "cy_sampled_at snap = t" "cy_remaining_cpu snap = of_int \<lfloor>max 0 rc * 1000\<rfloor> / 1000"
    "cy_remaining_memory_mb snap = \<lfloor>max 0 rm\<rfloor>"
    and allowed: "cy_allowed snap \<longleftrightarrow> filter (\<lambda>c. is_sandbox c \<and> (limit_cpu c \<le> 0 \<or> limit_memory c \<le> 0)) cs = [] \<and>
      h_cpu_usage h < cp_max_cpu_usage policy \<and> 0 \<le> rc \<and> 0 \<le> rm"
    using assms(1) by (auto simp: calculate_def Let_def rc_def rm_def not_less not_le split: if_splits)
  have ok: "cy_allowed snap" "now - t \<le> 15" "demand_cpu ds \<le> cy_remaining_cpu snap + 1 / 10 ^ 8"
    "demand_memory ds \<le> cy_remaining_memory_mb snap"
    using assms(2) snap(1) by (auto simp: check_capacity_def exc_simps)
  have "(of_int \<lfloor>rc * 1000\<rfloor> :: rat) / 1000 \<le> rc" using of_int_floor_le [of "rc * 1000"] by (simp only: divide_le_eq) simp
  moreover have "demand_cpu ds \<le> of_int \<lfloor>rc * 1000\<rfloor> / 1000 + 1 / 10 ^ 8" using ok(1,3) allowed snap(2) by (simp add: max_def)
  ultimately have cpu: "demand_cpu ds \<le> rc + 1 / 10 ^ 8" by linarith
  have "(of_int (demand_memory ds) :: rat) \<le> of_int \<lfloor>max 0 rm\<rfloor>" using ok(4) snap(3) by simp
  also have "\<dots> \<le> max 0 rm" by (rule of_int_floor_le)
  finally have "of_int (demand_memory ds) \<le> rm" using ok(1) allowed by simp
  then have "of_int (demand_memory ds) \<le> ?total - reserved_memory ?total policy - allocated_memory cs"
    "of_int (demand_memory ds) \<le> h_available_mb h - reserved_memory ?total policy - memory_growth cs"
    by (simp_all add: rm_def)
  moreover have "\<forall>c. c \<in> set cs \<and> is_sandbox c \<longrightarrow> 0 < limit_cpu c \<and> 0 < limit_memory c"
    using ok(1) allowed by (auto simp: filter_empty_conv not_le)
  ultimately show ?thesis using cpu ok(1,2) allowed by (simp add: rc_def algebra_simps)
qed

definition demo_container :: container where
  "demo_container = \<lparr>ct_id = ''c1'', ct_status = ''running'', ct_agent = ''a1'', ct_nano_cpus = 2000000000, ct_cpu_quota = 0,
     ct_cpu_period = 0, ct_memory = 2147483648, ct_usage_mb = 512\<rparr>"

definition demo_host :: host where
  "demo_host = \<lparr>h_memory_mb = 16384, h_available_mb = 12000, h_cpu_usage = 20\<rparr>"

definition demo_demand :: "demand list" where
  "demo_demand = [\<lparr>dm_agent = ''a1'', dm_cpu = 1, dm_memory = 1024, dm_users = 4\<rparr>]"

theorem admission_never_overcommits_witness:
  "\<exists>snap. calculate 8 17179869184 demo_host [demo_container] default_policy 100 = Inr snap \<and>
    check_capacity 101 snap demo_demand = Inr () \<and>
    allocated_cpu [demo_container] + demand_cpu demo_demand \<le> 8 - reserved_cpu 8 default_policy + 1 / 10 ^ 8"
proof -
  obtain snap where c: "calculate 8 17179869184 demo_host [demo_container] default_policy 100 = Inr snap"
    and k: "check_capacity 101 snap demo_demand = Inr ()"
    by (simp add: calculate_def Let_def count_containers_def count_container_def demo_container_def demo_host_def default_policy_def
        live_status_def is_sandbox_def limit_cpu_def limit_memory_def reserved_cpu_def reserved_memory_def
        check_capacity_def demand_cpu_def demand_memory_def demo_demand_def raise_if_def)
  from admission_never_overcommits [OF c k] c k show ?thesis by auto
qed

text \<open>A budget taken for the next batch may still be the one from before the last batch: the
  operations service asks for a fresh sample, but the endpoint answers from its cache.\<close>

lemma fresh_sample_is_cached:
  "now - cy_sampled_at c < 5 \<Longrightarrow> ops_snapshot True now sample (Some c) = (c, Some c)"
  by (simp add: ops_snapshot_def capacity_endpoint_def snapshot_def)

end
