(* ===== verification/Recovery.thy ===== *)
theory Recovery
  imports OpsApi
begin

text \<open>
  \<open>operations/src/recovery.py\<close>: the policy that turns observations of sandboxes into durable
  recovery jobs, a bounded number of them and only for sandboxes known to be idle. One pass is
  \<open>tick\<close>; \<open>loop\<close> repeats it forever, ignoring what it raises. A stored policy is read as it was
  saved, without pydantic's conversions between types.
\<close>

record recovery_policy =
  rp_enabled :: bool
  rp_failure_threshold :: int
  rp_max_attempts :: int
  rp_window_seconds :: int
  rp_backoff_seconds :: "int list"
  rp_stable_seconds :: int
  rp_agent_enabled :: "(string, bool) dict"
  rp_max_parallel :: int

definition recovery_policy_ok :: "recovery_policy \<Rightarrow> bool" where
  "recovery_policy_ok p \<longleftrightarrow> 1 \<le> rp_failure_threshold p \<and> rp_failure_threshold p \<le> 20 \<and>
    1 \<le> rp_max_attempts p \<and> rp_max_attempts p \<le> 10 \<and> 60 \<le> rp_window_seconds p \<and> rp_window_seconds p \<le> 86400 \<and>
    1 \<le> length (rp_backoff_seconds p) \<and> length (rp_backoff_seconds p) \<le> 10 \<and>
    \<not> list_ex (\<lambda>v. v < 1 \<or> v > 3600) (rp_backoff_seconds p) \<and>
    30 \<le> rp_stable_seconds p \<and> rp_stable_seconds p \<le> 3600 \<and> 1 \<le> rp_max_parallel p \<and> rp_max_parallel p \<le> 2"

definition default_recovery :: recovery_policy where
  "default_recovery = \<lparr>rp_enabled = True, rp_failure_threshold = 3, rp_max_attempts = 3, rp_window_seconds = 900,
     rp_backoff_seconds = [30, 60, 120], rp_stable_seconds = 300, rp_agent_enabled = [], rp_max_parallel = 2\<rparr>"

definition invalid_policy :: exc where
  "invalid_policy = ValueError ''Invalid recovery policy''"

fun int_field :: "json \<Rightarrow> int res" where
  "int_field (JInt i) = Inr i"
| "int_field _ = Inl invalid_policy"

fun bool_field :: "json \<Rightarrow> bool res" where
  "bool_field (JBool b) = Inr b"
| "bool_field _ = Inl invalid_policy"

definition policy_field :: "(json \<Rightarrow> 'a res) \<Rightarrow> 'a \<Rightarrow> jdict \<Rightarrow> string \<Rightarrow> 'a res" where
  "policy_field parse dflt d k = (case map_of d k of None \<Rightarrow> Inr dflt | Some v \<Rightarrow> parse v)"

definition read_policy :: "jdict \<Rightarrow> recovery_policy res" where
  "read_policy d =
    (let dflt = default_recovery;
         known = [''enabled'', ''failure_threshold'', ''max_attempts'', ''window_seconds'', ''backoff_seconds'',
           ''stable_seconds'', ''agent_enabled'', ''max_parallel_recoveries''] in
     if \<not> list_all (\<lambda>(k, v). k \<in> set known) d then Inl invalid_policy
     else ebind (policy_field bool_field (rp_enabled dflt) d ''enabled'') (\<lambda>enabled.
       ebind (policy_field int_field (rp_failure_threshold dflt) d ''failure_threshold'') (\<lambda>threshold.
       ebind (policy_field int_field (rp_max_attempts dflt) d ''max_attempts'') (\<lambda>attempts.
       ebind (policy_field int_field (rp_window_seconds dflt) d ''window_seconds'') (\<lambda>window.
       ebind (policy_field (\<lambda>v. case v of JArr vs \<Rightarrow> emap int_field vs | _ \<Rightarrow> Inl invalid_policy) (rp_backoff_seconds dflt) d ''backoff_seconds'') (\<lambda>backoff.
       ebind (policy_field int_field (rp_stable_seconds dflt) d ''stable_seconds'') (\<lambda>stable.
       ebind (policy_field (\<lambda>v. case v of JObj es \<Rightarrow> emap (\<lambda>(k, b). ebind (bool_field b) (\<lambda>x. Inr (k, x))) es | _ \<Rightarrow> Inl invalid_policy)
          (rp_agent_enabled dflt) d ''agent_enabled'') (\<lambda>agents.
       ebind (policy_field int_field (rp_max_parallel dflt) d ''max_parallel_recoveries'') (\<lambda>parallel.
       let p = \<lparr>rp_enabled = enabled, rp_failure_threshold = threshold, rp_max_attempts = attempts, rp_window_seconds = window,
         rp_backoff_seconds = backoff, rp_stable_seconds = stable, rp_agent_enabled = agents, rp_max_parallel = parallel\<rparr>
       in if recovery_policy_ok p then Inr p else Inl invalid_policy)))))))))"

definition stored_dict :: "json \<Rightarrow> jdict" where
  "stored_dict v = (if truthy v then obj_of v else [])"

definition current_policy :: "ops_db \<Rightarrow> recovery_policy res" where
  "current_policy db = read_policy (stored_dict (get_state ''recovery-policy'' db))"

definition recovery_state :: "string \<Rightarrow> ops_db \<Rightarrow> jdict" where
  "recovery_state sid db = stored_dict (get_state (''recovery:'' @ sid) db)"

definition recovery_update :: "string \<Rightarrow> jdict \<Rightarrow> unit api" where
  "recovery_update sid changes =
    sx_modify (\<lambda>s. s\<lparr>w_db := put_state (''recovery:'' @ sid) (JObj (dupdate (recovery_state sid (w_db s)) changes)) (w_db s)\<rparr>)"

section \<open>One sandbox\<close>

definition skipped :: "recovery_policy \<Rightarrow> jdict \<Rightarrow> string \<Rightarrow> bool res" where
  "skipped policy rec aid = (case dget rec ''username'' (JStr []) of
     JStr name \<Rightarrow> Inr (starts_with name ''loadtest-'' \<or> \<not> truthy (jget rec ''container_id'') \<or> \<not> dget (rp_agent_enabled policy) aid True)
   | _ \<Rightarrow> Inl (AttributeError ''startswith''))"

definition retired :: "json \<Rightarrow> string \<Rightarrow> bool res" where
  "retired catalog aid =
    ebind (subscript catalog ''agents'') (\<lambda>agents.
    ebind (attr_get agents aid (JObj [])) (\<lambda>agent.
    ebind (attr_get agent ''lifecycle'' JNull) (\<lambda>lifecycle. in_strings lifecycle [''archived'', ''deleting''])))"

definition parked :: "string \<Rightarrow> jdict \<Rightarrow> ops_db \<Rightarrow> bool" where
  "parked sid rec db \<longleftrightarrow>
    get_state (''desired:'' @ sid) db = JObj [(''state'', JStr ''stopped'')] \<or>
    get_state (''desired:'' @ sid) db = JObj [(''state'', JStr ''on_demand'')] \<and> \<not> truthy (jget rec ''container_id'')"

definition agent_busy :: "string \<Rightarrow> ops_db \<Rightarrow> bool" where
  "agent_busy aid db = list_ex (\<lambda>j. job_scope j \<in> {JStr aid, JStr ''*''} \<and>
     status_in j [''queued'', ''running'', ''waiting'', ''applying'', ''needs_recovery'']) (jobs db)"

definition ready_changes :: "recovery_policy \<Rightarrow> jdict \<Rightarrow> json \<Rightarrow> jdict \<Rightarrow> rat \<Rightarrow> jdict res" where
  "ready_changes policy rec detail state t =
    (let since = (if truthy (jget state ''healthy_since'') then jget state ''healthy_since'' else JFloat t);
         changes = [(''failures'', JInt 0), (''healthy_since'', since), (''reason'', JNull),
           (''execution'', dget (obj_of detail) ''execution'' (JStr ''unknown'')), (''container_id'', jget rec ''container_id''),
           (''activity_generation'', jget (obj_of detail) ''activity_generation'')] in
     ebind (number since) (\<lambda>healthy.
     Inr (if t - healthy \<ge> of_int (rp_stable_seconds policy)
          then dupdate changes [(''attempts'', JArr []), (''next_attempt'', JInt 0)] else changes)))"

definition recent_attempts :: "recovery_policy \<Rightarrow> jdict \<Rightarrow> rat \<Rightarrow> json list res" where
  "recent_attempts policy state t =
    ebind (jiter (dget state ''attempts'' (JArr []))) (\<lambda>ts.
    ebind (emap (\<lambda>v. ebind (number v) (\<lambda>x. Inr (v, x))) ts) (\<lambda>ps.
    Inr (map fst (filter (\<lambda>(v, x). t - x < of_int (rp_window_seconds policy)) ps))))"

text \<open>Idle now, or idle when last seen ready with the same container and no activity since.\<close>

definition known_idle :: "jdict \<Rightarrow> jdict \<Rightarrow> jdict \<Rightarrow> bool" where
  "known_idle state rec detail \<longleftrightarrow> jget detail ''execution'' = JStr ''idle'' \<or>
     jget state ''execution'' = JStr ''idle'' \<and> jget state ''container_id'' = jget rec ''container_id'' \<and>
     jget state ''activity_generation'' \<noteq> JNull \<and> json_eq (jget state ''activity_generation'') (jget detail ''activity_generation'')"

definition backoff :: "recovery_policy \<Rightarrow> nat \<Rightarrow> int" where
  "backoff policy n = rp_backoff_seconds policy ! min n (length (rp_backoff_seconds policy) - 1)"

definition recovery_payload :: "string \<Rightarrow> jdict \<Rightarrow> jdict \<Rightarrow> jdict" where
  "recovery_payload stamp rec detail =
    [(''request_id'', JStr (''recovery-'' @ stamp)), (''expected_container_id'', jget rec ''container_id''),
     (''expected_activity_generation'', jget detail ''activity_generation'')]"

record recovery_env =
  re_env :: environment
  re_fresh :: "ops_world \<Rightarrow> fresh_values"
  re_stamp :: "ops_world \<Rightarrow> string"

text \<open>The submission of the job; \<open>None\<close> when the store refuses it.\<close>

definition try_submit :: "recovery_env \<Rightarrow> string \<Rightarrow> string \<Rightarrow> jdict \<Rightarrow> jdict \<Rightarrow> (jdict \<times> bool) option api" where
  "try_submit renv aid sid rec detail =
    sx_bind sx_get (\<lambda>s.
    sx_catch (sx_bind (on_submit ''sandbox.recover'' sid (recovery_payload (re_stamp renv s) rec detail) aid (re_fresh renv s)
        \<lparr>tc_trace = JNull, tc_span = JNull, tc_request = JNull\<rparr>) (\<lambda>r. sx_return (Some r)))
      (\<lambda>e. case e of HTTPException _ _ \<Rightarrow> Some (sx_return None) | _ \<Rightarrow> None))"

text \<open>A sandbox that failed often enough. The result is the list of active recoveries, \<open>None\<close> to
  end the pass; a job added to it is run.\<close>

definition attempt_recovery ::
  "recovery_env \<Rightarrow> recovery_policy \<Rightarrow> string \<Rightarrow> string \<Rightarrow> jdict \<Rightarrow> jdict \<Rightarrow> jdict \<Rightarrow> rat \<Rightarrow> jdict list \<Rightarrow> jdict list option api" where
  "attempt_recovery renv policy aid sid rec detail state t active =
    sx_bind (sx_of_res (recent_attempts policy state t)) (\<lambda>attempts.
    if int (length attempts) \<ge> rp_max_attempts policy
    then sx_then (recovery_update sid [(''reason'', JStr ''Recovery limit reached; manual intervention required'')]) (sx_return (Some active))
    else if \<not> known_idle state rec detail
    then sx_then (recovery_update sid [(''reason'', JStr ''Execution is busy or unknown; automatic restart skipped'')]) (sx_return (Some active))
    else if int (length active) \<ge> rp_max_parallel policy then sx_return None
    else sx_bind (try_submit renv aid sid rec detail) (\<lambda>r. case r of
        Some (job, True) \<Rightarrow>
          sx_then (recovery_update sid [(''attempts'', JArr (attempts @ [JFloat t])),
            (''next_attempt'', JFloat (t + of_int (backoff policy (length attempts)))), (''reason'', JStr ''Recovery queued'')])
          (sx_return (Some (active @ [job])))
      | _ \<Rightarrow> sx_return (Some active)))"

fun as_int :: "json \<Rightarrow> int res" where
  "as_int (JInt i) = Inr i"
| "as_int _ = Inl (TypeError ''unsupported operand'')"

definition failed_sandbox ::
  "recovery_env \<Rightarrow> recovery_policy \<Rightarrow> string \<Rightarrow> string \<Rightarrow> jdict \<Rightarrow> jdict \<Rightarrow> jdict \<Rightarrow> rat \<Rightarrow> jdict list \<Rightarrow> jdict list option api" where
  "failed_sandbox renv policy aid sid rec detail state t active =
    sx_bind (sx_of_res (as_int (dget state ''failures'' (JInt 0)))) (\<lambda>before.
    let failures = before + 1 in
    sx_then (recovery_update sid [(''failures'', JInt failures), (''healthy_since'', JNull)])
    (if failures < rp_failure_threshold policy then sx_return (Some active)
     else sx_bind (sx_of_res (number (dget state ''next_attempt'' (JInt 0)))) (\<lambda>next_attempt.
       if t < next_attempt then sx_return (Some active)
       else attempt_recovery renv policy aid sid rec detail state t active)))"

definition recover_sandbox :: "recovery_env \<Rightarrow> recovery_policy \<Rightarrow> json \<Rightarrow> jdict \<Rightarrow> jdict list \<Rightarrow> jdict list option api" where
  "recover_sandbox renv policy catalog rec active =
    sx_bind (sx_of_res (ebind (jindex rec ''agent_id'') as_str)) (\<lambda>aid.
    sx_bind (sx_of_res (ebind (jindex rec ''sandbox_id'') as_str)) (\<lambda>sid.
    sx_bind (sx_of_res (skipped policy rec aid)) (\<lambda>skip.
    if skip then sx_return (Some active)
    else sx_bind (sx_of_res (retired catalog aid)) (\<lambda>gone.
    if gone then sx_return (Some active)
    else sx_bind sx_get (\<lambda>s.
    if parked sid rec (w_db s) \<or> agent_busy aid (w_db s) then sx_return (Some active)
    else sx_bind (call (re_env renv) ''sandbox_manager'' (sandbox_url sid) None) (\<lambda>detail.
    sx_bind (sx_of_res (if is_JObj detail then Inr (obj_of detail) else Inl (AttributeError ''get''))) (\<lambda>det.
    sx_bind (now (re_env renv)) (\<lambda>t. sx_bind sx_get (\<lambda>s1.
    let state = recovery_state sid (w_db s1) in
    sx_bind (sx_of_res (jindex rec ''status'')) (\<lambda>status.
    if status = JStr ''ready''
    then sx_bind (sx_of_res (ready_changes policy rec detail state t)) (\<lambda>changes.
      sx_then (recovery_update sid changes) (sx_return (Some active)))
    else if status \<notin> {JStr ''unhealthy'', JStr ''missing''} then sx_return (Some active)
    else failed_sandbox renv policy aid sid rec det state t active))))))))))"

section \<open>One pass\<close>

definition page_items :: "json \<Rightarrow> json list res" where
  "page_items result = (case result of
     JArr xs \<Rightarrow> Inr xs
   | _ \<Rightarrow> ebind (attr_get result ''sandboxes'' (JArr [])) (\<lambda>dflt. ebind (attr_get result ''items'' dflt) jiter))"

text \<open>The pages of the sandbox list. The loop goes on as long as the manager reports more, so its
  length is bounded by fuel: with a total of at most \<open>n\<close> reported, \<open>n + 1\<close> pages are enough.\<close>

fun fetch_records :: "nat \<Rightarrow> environment \<Rightarrow> json list \<Rightarrow> json list option api" where
  "fetch_records 0 env records = sx_return None"
| "fetch_records (Suc fuel) env records =
    sx_bind (call env ''sandbox_manager'' (''/internal/v1/sandboxes?limit=200&offset='' @ dec_nat (length records)) None) (\<lambda>result.
    sx_bind (sx_of_res (page_items result)) (\<lambda>items.
    let all = records @ items in
    if is_JArr result \<or> items = [] then sx_return (Some all)
    else sx_bind (sx_of_res (ebind (attr_get result ''total'' (JInt (int (length all)))) number)) (\<lambda>reported.
      if of_nat (length all) \<ge> reported then sx_return (Some all) else fetch_records fuel env all)))"

fun recover_all :: "recovery_env \<Rightarrow> recovery_policy \<Rightarrow> json \<Rightarrow> json list \<Rightarrow> jdict list \<Rightarrow> jdict list api" where
  "recover_all renv policy catalog [] active = sx_return active"
| "recover_all renv policy catalog (r # rs) active =
    sx_bind (recover_sandbox renv policy catalog (obj_of r) active) (\<lambda>next. case next of
      None \<Rightarrow> sx_return active
    | Some active' \<Rightarrow> recover_all renv policy catalog rs active')"

definition active_recoveries :: "ops_db \<Rightarrow> jdict list" where
  "active_recoveries db = filter (\<lambda>j. kind_of j = ''sandbox.recover'' \<and>
     status_in j [''queued'', ''running'', ''waiting'', ''applying'']) (jobs db)"

definition tick :: "recovery_env \<Rightarrow> nat \<Rightarrow> jdict list option api" where
  "tick renv fuel =
    sx_bind (sx_lift (\<lambda>s. current_policy (w_db s))) (\<lambda>policy.
    if \<not> rp_enabled policy then sx_return (Some [])
    else sx_bind (fetch_records fuel (re_env renv) []) (\<lambda>found. case found of
        None \<Rightarrow> sx_return None
      | Some records \<Rightarrow>
          sx_bind (call (re_env renv) ''catalog_service'' ''/internal/v1/load-test-catalog'' None) (\<lambda>catalog.
          sx_bind sx_get (\<lambda>s.
          sx_bind (recover_all renv policy catalog records (active_recoveries (w_db s))) (\<lambda>active. sx_return (Some active))))))"

section \<open>The pages come to an end\<close>

definition reports_at_most :: "nat \<Rightarrow> environment \<Rightarrow> bool" where
  "reports_at_most n env \<longleftrightarrow> (\<forall>path (s :: ops_world) d t v q. call env ''sandbox_manager'' path None s = (Inr (JObj d), t) \<longrightarrow>
     map_of d ''total'' = Some v \<longrightarrow> number v = Inr q \<longrightarrow> q \<le> of_nat n)"

lemma fetch_records_returns:
  assumes "reports_at_most n env" and "n < length records + fuel" and "0 < fuel"
  shows "fetch_records fuel env records s \<noteq> (Inr None, t)"
  using assms(2,3)
proof (induction fuel arbitrary: records s)
  case (Suc fuel)
  show ?case
  proof
    assume none: "fetch_records (Suc fuel) env records s = (Inr None, t)"
    then obtain result s1 items reported where
      c: "call env ''sandbox_manager'' (''/internal/v1/sandboxes?limit=200&offset='' @ dec_nat (length records)) None s = (Inr result, s1)"
      and more: "\<not> is_JArr result" "items \<noteq> []"
      and r: "ebind (attr_get result ''total'' (JInt (int (length (records @ items))))) number = Inr reported" "\<not> reported \<le> of_nat (length (records @ items))"
      and rest: "fetch_records fuel env (records @ items) s1 = (Inr None, t)"
      by (auto simp: sx_outcome_simps Let_def split: if_splits)
    from r(1) obtain d where d: "result = JObj d" by (auto simp: attr_get_def exc_simps split: json.splits)
    have "reported \<le> of_nat n"
    proof (cases "map_of d ''total''")
      case None
      with r d show ?thesis by (auto simp: attr_get_def dget_def exc_simps number_def)
    next
      case (Some v)
      with r(1) d have "number v = Inr reported" by (simp add: attr_get_def dget_def exc_simps)
      with assms(1) c Some d show ?thesis unfolding reports_at_most_def by blast
    qed
    with r(2) have "length (records @ items) < n" by (simp flip: of_nat_add add: not_le)
    moreover from this Suc.prems have "n < length (records @ items) + fuel" using more(2) by (cases items) auto
    ultimately show False using Suc.IH [of "records @ items" s1] rest by simp
  qed
qed simp

section \<open>Recovery stays within its budget\<close>

lemma recovery_update_Inr: "recovery_update sid changes s = (Inr u, t) \<longleftrightarrow>
    t = s\<lparr>w_db := put_state (''recovery:'' @ sid) (JObj (dupdate (recovery_state sid (w_db s)) changes)) (w_db s)\<rparr>"
  by (auto simp: recovery_update_def sx_modify_def)

lemma now_Inr: "now env s = (Inr x, t) \<longleftrightarrow> x = env_clock env (w_sent s) \<and> t = s"
  by (auto simp: now_def)

lemma on_submit_Inr: "on_submit kind target payload scope fv tc s = (Inr x, t) \<longleftrightarrow>
    (\<exists>db. submit kind target payload scope fv tc (w_db s) = Inr (x, db) \<and> t = s\<lparr>w_db := db\<rparr>)"
  by (auto simp: on_submit_def split: sum.splits)

lemma try_submit_created:
  assumes "try_submit renv aid sid rec detail s = (Inr (Some (job, True)), t)"
  shows "\<exists>db fv tc. submit ''sandbox.recover'' sid (recovery_payload (re_stamp renv s) rec detail) aid fv tc (w_db s) = Inr ((job, True), db) \<and>
    t = s\<lparr>w_db := db\<rparr>"
  using assms
  by (auto simp: try_submit_def sx_outcome_simps sx_catch_def sx_bind_def sx_return_def on_submit_def
      split: sum.splits prod.splits option.splits exc.splits)

lemma get_put_state: "v \<noteq> JNull \<Longrightarrow> get_state k (put_state k v db) = v"
  by (simp add: get_state_def put_state_def jget_def)

lemma dput_ne [simp]: "dput k v d \<noteq> []"
  by (cases d) (auto split: if_splits)

lemma dupdate_ne: "d \<noteq> [] \<or> c \<noteq> [] \<Longrightarrow> dupdate d c \<noteq> []"
proof (induction c arbitrary: d)
  case (Cons p c)
  then show ?case by (cases p) (auto simp: dupdate_def)
qed (simp add: dupdate_def)

lemma recovery_state_update:
  "c \<noteq> [] \<Longrightarrow> recovery_state sid (put_state (''recovery:'' @ sid) (JObj (dupdate d c)) db) = dupdate d c"
  by (simp add: recovery_state_def stored_dict_def get_put_state dupdate_ne)

lemma recovery_update_state: "recovery_update sid c s = (Inr u, t) \<Longrightarrow> c \<noteq> [] \<Longrightarrow>
    recovery_state sid (w_db t) = dupdate (recovery_state sid (w_db s)) c"
proof -
  assume up: "recovery_update sid c s = (Inr u, t)" and c: "c \<noteq> []"
  have "t = s\<lparr>w_db := put_state (''recovery:'' @ sid) (JObj (dupdate (recovery_state sid (w_db s)) c)) (w_db s)\<rparr>"
    using up by (simp only: recovery_update_Inr)
  then have "w_db t = put_state (''recovery:'' @ sid) (JObj (dupdate (recovery_state sid (w_db s)) c)) (w_db s)"
    by simp
  then show ?thesis by (simp only: recovery_state_update [OF c])
qed

text \<open>What must hold for a recovery to be queued.\<close>

definition recovery_due :: "recovery_policy \<Rightarrow> jdict \<Rightarrow> jdict \<Rightarrow> jdict \<Rightarrow> rat \<Rightarrow> jdict list \<Rightarrow> json list \<Rightarrow> bool" where
  "recovery_due policy rec detail state t active attempts \<longleftrightarrow>
    (\<exists>n. dget state ''failures'' (JInt 0) = JInt n \<and> rp_failure_threshold policy \<le> n + 1) \<and>
    (\<exists>x. number (dget state ''next_attempt'' (JInt 0)) = Inr x \<and> x \<le> t) \<and>
    recent_attempts policy state t = Inr attempts \<and> int (length attempts) < rp_max_attempts policy \<and>
    int (length active) < rp_max_parallel policy \<and> known_idle state rec detail"

lemma attempt_recovery_queued:
  assumes "attempt_recovery renv policy aid sid rec detail state t active s = (Inr (Some (active @ [job])), s')"
  obtains attempts db fv tc u where "recent_attempts policy state t = Inr attempts" "int (length attempts) < rp_max_attempts policy"
    "known_idle state rec detail" "int (length active) < rp_max_parallel policy"
    "submit ''sandbox.recover'' sid (recovery_payload (re_stamp renv s) rec detail) aid fv tc (w_db s) = Inr ((job, True), db)"
    "recovery_update sid [(''attempts'', JArr (attempts @ [JFloat t])),
       (''next_attempt'', JFloat (t + of_int (backoff policy (length attempts)))), (''reason'', JStr ''Recovery queued'')]
       (s\<lparr>w_db := db\<rparr>) = (Inr u, s')"
proof -
  obtain attempts where a: "recent_attempts policy state t = Inr attempts" "int (length attempts) < rp_max_attempts policy"
    "known_idle state rec detail" "int (length active) < rp_max_parallel policy"
    and r: "\<exists>r s1. try_submit renv aid sid rec detail s = (Inr r, s1) \<and>
      (case r of Some (job', True) \<Rightarrow> sx_then (recovery_update sid [(''attempts'', JArr (attempts @ [JFloat t])),
            (''next_attempt'', JFloat (t + of_int (backoff policy (length attempts)))), (''reason'', JStr ''Recovery queued'')])
          (sx_return (Some (active @ [job']))) | _ \<Rightarrow> sx_return (Some active)) s1 = (Inr (Some (active @ [job])), s')"
    using assms by (auto simp: attempt_recovery_def sx_outcome_simps not_le split: if_splits)
  from r obtain r s1 where ts: "try_submit renv aid sid rec detail s = (Inr r, s1)"
    and after: "(case r of Some (job', True) \<Rightarrow> sx_then (recovery_update sid [(''attempts'', JArr (attempts @ [JFloat t])),
            (''next_attempt'', JFloat (t + of_int (backoff policy (length attempts)))), (''reason'', JStr ''Recovery queued'')])
          (sx_return (Some (active @ [job']))) | _ \<Rightarrow> sx_return (Some active)) s1 = (Inr (Some (active @ [job])), s')" by blast
  obtain job' where "r = Some (job', True)"
    using after by (auto simp: sx_return_Inr split: option.splits prod.splits bool.splits)
  then have "try_submit renv aid sid rec detail s = (Inr (Some (job', True)), s1)"
    and "sx_then (recovery_update sid [(''attempts'', JArr (attempts @ [JFloat t])),
            (''next_attempt'', JFloat (t + of_int (backoff policy (length attempts)))), (''reason'', JStr ''Recovery queued'')])
          (sx_return (Some (active @ [job']))) s1 = (Inr (Some (active @ [job])), s')"
    using ts after by simp_all
  with a that show thesis by (auto simp: sx_outcome_simps dest!: try_submit_created)
qed

lemma same_length_append: "active \<noteq> active @ [job]" by simp

text \<open>A recovery job is created only within the budget: the sandbox was observed unhealthy often
  enough and its back-off has passed, fewer attempts than the limit were made in the window (and this one
  is recorded with them), fewer recoveries than the limit are active, the sandbox is not stopped by hand,
  no other operation holds its Agent, and the manager's answer shows it idle or unchanged since it was
  last seen idle. The job is queued for exactly this sandbox and container.\<close>
theorem recovery_within_budget:
  assumes "recover_sandbox renv policy catalog rec active s = (Inr (Some (active @ [job])), s')"
  shows "\<exists>aid sid detail state t attempts.
    jget rec ''agent_id'' = JStr aid \<and> jget rec ''sandbox_id'' = JStr sid \<and>
    \<not> parked sid rec (w_db s) \<and> \<not> agent_busy aid (w_db s) \<and>
    seen (answered (request ''sandbox_manager'' (sandbox_url sid) None None) (\<lambda>b. b = JObj detail)) s' \<and>
    recovery_due policy rec detail state t active attempts \<and>
    jget (recovery_state sid (w_db s')) ''attempts'' = JArr (attempts @ [JFloat t]) \<and>
    int (length (attempts @ [JFloat t])) \<le> rp_max_attempts policy \<and>
    kind_of job = ''sandbox.recover'' \<and> target_of job = sid \<and> jget job ''status'' = JStr ''queued'' \<and>
    jget (obj_of (jget job ''payload'')) ''expected_container_id'' = jget rec ''container_id''"
proof -
  obtain aid sid skip gone where ids: "ebind (jindex rec ''agent_id'') as_str = Inr aid" "ebind (jindex rec ''sandbox_id'') as_str = Inr sid"
    and free: "\<not> parked sid rec (w_db s)" "\<not> agent_busy aid (w_db s)"
    and rest: "sx_bind (call (re_env renv) ''sandbox_manager'' (sandbox_url sid) None) (\<lambda>detail.
    sx_bind (sx_of_res (if is_JObj detail then Inr (obj_of detail) else Inl (AttributeError ''get''))) (\<lambda>det.
    sx_bind (now (re_env renv)) (\<lambda>t. sx_bind sx_get (\<lambda>s1.
    let state = recovery_state sid (w_db s1) in
    sx_bind (sx_of_res (jindex rec ''status'')) (\<lambda>status.
    if status = JStr ''ready''
    then sx_bind (sx_of_res (ready_changes policy rec detail state t)) (\<lambda>changes.
      sx_then (recovery_update sid changes) (sx_return (Some active)))
    else if status \<notin> {JStr ''unhealthy'', JStr ''missing''} then sx_return (Some active)
    else failed_sandbox renv policy aid sid rec det state t active))))) s = (Inr (Some (active @ [job])), s')"
    using assms by (auto simp: recover_sandbox_def sx_outcome_simps split: if_splits)
  obtain body s1 t where c: "call (re_env renv) ''sandbox_manager'' (sandbox_url sid) None s = (Inr body, s1)"
    and det0: "is_JObj body"
    and f: "failed_sandbox renv policy aid sid rec (obj_of body) (recovery_state sid (w_db s1)) t active s1 = (Inr (Some (active @ [job])), s')"
    using rest by (auto simp: sx_outcome_simps now_Inr Let_def split: if_splits)
  define det where "det = obj_of body"
  have det: "body = JObj det" using det0 by (cases body) (auto simp: det_def)
  note f = f [folded det_def]
  let ?state = "recovery_state sid (w_db s1)"
  obtain n s2 where n: "dget ?state ''failures'' (JInt 0) = JInt n" "rp_failure_threshold policy \<le> n + 1"
    and x: "\<exists>x. number (dget ?state ''next_attempt'' (JInt 0)) = Inr x \<and> x \<le> t"
    and s2: "\<exists>u. recovery_update sid [(''failures'', JInt (n + 1)), (''healthy_since'', JNull)] s1 = (Inr u, s2)"
    and ar: "attempt_recovery renv policy aid sid rec det ?state t active s2 = (Inr (Some (active @ [job])), s')"
    using f by (auto simp: failed_sandbox_def Let_def sx_outcome_simps not_less elim!: as_int.elims split: if_splits)
  obtain attempts db fv tc u where a: "recent_attempts policy ?state t = Inr attempts" "int (length attempts) < rp_max_attempts policy"
    "known_idle ?state rec det" "int (length active) < rp_max_parallel policy"
    and sub: "submit ''sandbox.recover'' sid (recovery_payload (re_stamp renv s2) rec det) aid fv tc (w_db s2) = Inr ((job, True), db)"
    and up: "recovery_update sid [(''attempts'', JArr (attempts @ [JFloat t])),
       (''next_attempt'', JFloat (t + of_int (backoff policy (length attempts)))), (''reason'', JStr ''Recovery queued'')]
       (s2\<lparr>w_db := db\<rparr>) = (Inr u, s')"
    by (rule attempt_recovery_queued [OF ar])
  have job: "\<exists>rid. job = new_job ''sandbox.recover'' sid (recovery_payload (re_stamp renv s2) rec det) (if aid = [] then sid else aid) rid fv tc"
    using sub by (auto simp: submit_def Let_def split: option.splits if_splits)
  have "jget rec ''agent_id'' = JStr aid" "jget rec ''sandbox_id'' = JStr sid"
    using ids by (auto simp: exc_simps jindex_def jget_def dget_def as_str_def split: option.splits json.splits)
  moreover have "seen (answered (request ''sandbox_manager'' (sandbox_url sid) None None) (\<lambda>b. b = JObj det)) s'"
    using call_after [OF c] det s2 up by (auto simp: recovery_update_Inr)
  moreover have "jget (recovery_state sid (w_db s')) ''attempts'' = JArr (attempts @ [JFloat t])"
    using recovery_update_state [OF up] by (simp add: jget_def dget_def map_of_dupdate)
  moreover have "kind_of job = ''sandbox.recover''" "target_of job = sid" "jget job ''status'' = JStr ''queued''"
    "jget (obj_of (jget job ''payload'')) ''expected_container_id'' = jget rec ''container_id''"
    using job by (auto simp: kind_of_def target_of_def new_job_def recovery_payload_def jget_def dget_def)
  ultimately show ?thesis using free a n x by (auto simp: recovery_due_def)
qed

definition sick_record :: jdict where
  "sick_record = [(''agent_id'', JStr ''a1''), (''sandbox_id'', JStr ''s1''), (''username'', JStr ''u1''),
     (''container_id'', JStr ''c1''), (''status'', JStr ''unhealthy'')]"

definition sick_world :: ops_world where
  "sick_world = \<lparr>w_db = empty_ops\<lparr>kv_state := [(''recovery:s1'', JObj [(''failures'', JInt 2)])]\<rparr>, w_sent = []\<rparr>"

definition idle_env :: recovery_env where
  "idle_env = \<lparr>re_env = impact_env\<lparr>env_reply := (\<lambda>lg c db. Reply 200 (JObj [(''execution'', JStr ''idle'')]))\<rparr>,
     re_fresh = (\<lambda>s. sample_fresh ''j1''), re_stamp = (\<lambda>s. ''1'')\<rparr>"

definition demo_recover :: "(jdict list option) api" where
  "demo_recover = recover_sandbox idle_env default_recovery (JObj [(''agents'', JObj [])]) sick_record []"

lemmas eval_recovery = recover_sandbox_def skipped_def retired_def parked_def agent_busy_def failed_sandbox_def attempt_recovery_def
  recent_attempts_def known_idle_def try_submit_def on_submit_def submit_def recovery_payload_def recovery_update_def recovery_state_def
  stored_dict_def get_state_def put_state_def default_recovery_def empty_ops_def Let_def jobs_def jindex_def jget_def dget_def
  as_str_def subscript_def attr_get_def in_strings_def starts_with_def call_step_defs now_def number_def impact_env_def sx_step_defs
  sample_fresh_def

theorem recovery_within_budget_witness:
  "\<exists>job s'. demo_recover sick_world = (Inr (Some [job]), s') \<and> kind_of job = ''sandbox.recover'' \<and> target_of job = ''s1''"
proof -
  obtain job s' where ok: "recover_sandbox idle_env default_recovery (JObj [(''agents'', JObj [])]) sick_record [] sick_world = (Inr (Some ([] @ [job])), s')"
    by (simp add: eval_recovery sick_record_def sick_world_def idle_env_def)
  from recovery_within_budget [OF ok] have "kind_of job = ''sandbox.recover'' \<and> target_of job = ''s1''"
    by (auto simp: sick_record_def jget_def dget_def)
  then show ?thesis using ok by (auto simp: demo_recover_def)
qed

text \<open>A recovery job is submitted without the values from before it, which the replacement check of a
  reconciliation compares with: it accepts the very container that was to be replaced.\<close>

definition stuck_job :: jdict where
  "stuck_job = [(''id'', JStr ''j1''), (''kind'', JStr ''sandbox.recover''), (''target'', JStr ''s1''), (''status'', JStr ''needs_recovery''),
     (''payload'', JObj (recovery_payload ''1'' sick_record []))]"

definition stuck_world :: ops_world where
  "stuck_world = \<lparr>w_db = empty_ops\<lparr>job_rows := [\<lparr>jb_id = ''j1'', jb_request_id = ''q1'', jb_target = ''s1'', jb_doc = stuck_job\<rparr>]\<rparr>, w_sent = []\<rparr>"

definition same_container_env :: environment where
  "same_container_env = impact_env\<lparr>env_reply := (\<lambda>lg c db. Reply 200 (JObj [(''status'', JStr ''ready''), (''container_id'', JStr ''c1'')]))\<rparr>"

lemma recover_reconciles_without_replacement:
  "\<exists>t. reconcile_job same_container_env ''j1'' ''r'' stuck_world = (Inr (), t) \<and>
    jget (obj_of (jget stuck_job ''payload'')) ''expected_container_id'' = JStr ''c1''"
  by (simp add: reconcile_job_def reconcile_evidence_def reconcile_sandbox_def desired_status_def kind_of_def starts_with_def
      store_get_def get_job_def stuck_world_def stuck_job_def empty_ops_def sx_step_defs jget_def dget_def status_in_def call_step_defs
      same_container_env_def impact_env_def attr_get_def raise_when_def store_state_def store_update_def on_store_def update_job_def
      put_state_def set_doc_def recovery_payload_def sick_record_def Let_def)

end
