(* ===== verification/AgentDefinitions.thy ===== *)
theory AgentDefinitions
  imports Validation FileSystem
begin

text \<open>
  \<open>sandbox_manager/agents.py\<close>: loading and checking one Agent definition from its directory.
  A directory is the map \<open>file_tree\<close> from the paths of its regular files to their bytes; bundles
  hold no links. The parsers of the standard library (INI text, float text, JSON text and the
  glob patterns) are the parameters of \<open>definition_parsers\<close>.
  \<open>AgentDefinitionError\<close>, a subclass of \<open>ValueError\<close>, is \<open>ValueError\<close> here.
\<close>

type_synonym file_tree = "(string, bytes) dict"

record agent_resources =
  ar_cpu_limit :: rat
  ar_memory_mb :: int
  ar_pids_limit :: int

record agent_definition =
  ad_agent_id :: string
  ad_display_name :: string
  ad_image :: string
  ad_idle_timeout :: int
  ad_resources :: agent_resources
  ad_default_model :: string
  ad_allowed_models :: "string list"
  ad_path :: path
  ad_opencode :: json

text \<open>\<open>p_ini\<close> gives the options of a file by section and name; \<open>p_int\<close> and \<open>p_float\<close> are
  \<open>int()\<close> and \<open>float()\<close>; \<open>p_glob\<close> is the match list of a relative pattern in a directory.\<close>

record definition_parsers =
  p_ini :: "bytes \<Rightarrow> ((string \<times> string) \<Rightarrow> string option) res"
  p_int :: "string \<Rightarrow> int res"
  p_float :: "string \<Rightarrow> rat res"
  p_json :: "bytes \<Rightarrow> json res"
  p_glob :: "file_tree \<Rightarrow> string \<Rightarrow> string list res"

section \<open>Local references\<close>

definition local_reference :: "definition_parsers \<Rightarrow> file_tree \<Rightarrow> string \<Rightarrow> bool \<Rightarrow> json \<Rightarrow> unit res" where
  "local_reference ps tree pre allow_glob value = (case value of
     JStr s \<Rightarrow>
       (if \<not> starts_with s pre then Inl (ValueError (''local reference must start with '' @ pre))
        else let relative = drop (length pre) s in
          ebind (raise_if (relative = [] \<or> ''..'' \<in> set (posix_parts relative) \<or> posix_root relative \<noteq> [])
            (ValueError ''local reference escapes Agent definition'')) (\<lambda>_.
          ebind (raise_if (\<not> allow_glob \<and> list_ex (\<lambda>c. c \<in> {CHR ''*'', CHR ''?'', CHR ''[''}) relative)
            (ValueError ''plugin references cannot contain globs'')) (\<lambda>_.
          ebind (if allow_glob then (case p_glob ps tree relative of
                     Inl e \<Rightarrow> Inl (ValueError (''invalid local reference '' @ s)) | Inr ms \<Rightarrow> Inr ms)
                 else Inr [as_posix relative]) (\<lambda>matches.
          ebind (raise_if (matches = []) (ValueError (''missing local reference: '' @ s))) (\<lambda>_.
          raise_if (\<not> list_all (\<lambda>m. map_of tree m \<noteq> None) matches)
            (ValueError (''local reference is outside Agent definition: '' @ s)))))))
   | _ \<Rightarrow> Inl (ValueError (''local reference must start with '' @ pre)))"

section \<open>The configuration of the runtime\<close>

definition nested :: "json \<Rightarrow> string list \<Rightarrow> json res" where
  "nested v keys = (case fold (\<lambda>k r. ebind r (\<lambda>x. subscript x k)) keys (Inr v) of
     Inl _ \<Rightarrow> Inl (ValueError ''cloud-model-gateway provider is incomplete'') | Inr x \<Rightarrow> Inr x)"

text \<open>\<open>not isinstance(plugins, list) or any(not isinstance(item, str) or not item.startswith(..))\<close>\<close>

definition local_plugins :: "json \<Rightarrow> bool" where
  "local_plugins plugins \<longleftrightarrow> (case plugins of
     JArr items \<Rightarrow> list_all (\<lambda>i. case i of JStr s \<Rightarrow> starts_with s ''file://'' | _ \<Rightarrow> False) items | _ \<Rightarrow> False)"

definition model_keys :: "json \<Rightarrow> string list \<Rightarrow> bool" where
  "model_keys models allowed \<longleftrightarrow> is_JObj models \<and> set (dkeys (obj_of models)) = set allowed"

fun each_ok :: "('a \<Rightarrow> unit res) \<Rightarrow> 'a list \<Rightarrow> unit res" where
  "each_ok f [] = Inr ()"
| "each_ok f (x # xs) = ebind (f x) (\<lambda>_. each_ok f xs)"

definition validate_opencode ::
  "definition_parsers \<Rightarrow> string \<Rightarrow> file_tree \<Rightarrow> string list \<Rightarrow> string \<Rightarrow> json \<Rightarrow> unit res" where
  "validate_opencode ps gateway_url tree allowed dflt config =
    ebind (attr_get config ''share'' JNull) (\<lambda>share.
    let c = obj_of config in
    ebind (raise_if (share \<noteq> JStr ''disabled'' \<or> jget c ''autoupdate'' \<noteq> JBool False)
      (ValueError ''sharing must be disabled and autoupdate false'')) (\<lambda>_.
    let plugins = dget c ''plugin'' (JArr []) in
    ebind (raise_if (\<not> local_plugins plugins) (ValueError ''only local file:// plugins are allowed'')) (\<lambda>_.
    ebind (raise_if (jget c ''enabled_providers'' \<noteq> JArr [JStr ''cloud-model-gateway''])
      (ValueError ''only cloud-model-gateway may be enabled'')) (\<lambda>_.
    let provider = jget c ''provider'' in
    ebind (nested provider [''cloud-model-gateway'']) (\<lambda>gateway.
    ebind (nested gateway [''models'']) (\<lambda>models.
    ebind (nested gateway [''options'', ''baseURL'']) (\<lambda>base_url.
    ebind (nested gateway [''npm'']) (\<lambda>package.
    ebind (raise_if (\<not> model_keys models allowed \<or> base_url \<noteq> JStr gateway_url
        \<or> package \<noteq> JStr ''@ai-sdk/openai-compatible'')
      (ValueError ''provider models or local gateway URL do not match agent.cfg'')) (\<lambda>_.
    ebind (raise_if (jget c ''model'' \<noteq> JStr (''cloud-model-gateway/'' @ dflt))
      (ValueError ''OpenCode default model does not match agent.cfg'')) (\<lambda>_.
    let instructions = jget c ''instructions'' in
    ebind (raise_if (\<not> is_JArr instructions \<or> arr_of instructions = [])
      (ValueError ''instructions must reference local Agent files'')) (\<lambda>_.
    ebind (each_ok (local_reference ps tree ''/opt/agent/'' True) (arr_of instructions)) (\<lambda>_.
    each_ok (local_reference ps tree ''file:///opt/agent/'' False) (arr_of plugins)))))))))))))"

section \<open>Loading\<close>

text \<open>What is read between \<open>try\<close> and \<open>except\<close>: any exception there becomes an
  \<open>AgentDefinitionError\<close>. \<open>opt\<close> reads an option, which may be missing.\<close>

definition opt :: "((string \<times> string) \<Rightarrow> string option) \<Rightarrow> string \<Rightarrow> string \<Rightarrow> string res" where
  "opt ini sec name = (case ini (sec, name) of None \<Rightarrow> Inl (KeyError name) | Some v \<Rightarrow> Inr v)"

definition allowed_list :: "string \<Rightarrow> string list" where
  "allowed_list s = filter (\<lambda>x. x \<noteq> []) (map strip (split_on (CHR '','') s))"

definition read_definition ::
  "definition_parsers \<Rightarrow> string \<Rightarrow> file_tree \<Rightarrow> (((string \<times> string) \<Rightarrow> string option) \<times> agent_definition) res" where
  "read_definition ps agent_id tree =
    (case map_of tree ''agent.cfg'' of None \<Rightarrow> Inl (ValueError (''missing agent.cfg for '' @ agent_id)) | Some cfg \<Rightarrow>
    ebind (p_ini ps cfg) (\<lambda>ini.
    ebind (opt ini ''agent'' ''id'') (\<lambda>i. ebind (validate_identifier i ''agent.id'') (\<lambda>configured.
    ebind (raise_if (configured \<noteq> agent_id) (ValueError ''directory name and agent.id must match'')) (\<lambda>_.
    ebind (opt ini ''agent'' ''image'') (\<lambda>image.
    ebind (opt ini ''agent'' ''idle_timeout_seconds'') (\<lambda>v. ebind (p_int ps v) (\<lambda>idle.
    ebind (opt ini ''resources'' ''cpu_limit'') (\<lambda>v. ebind (p_float ps v) (\<lambda>cpu.
    ebind (opt ini ''resources'' ''memory_mb'') (\<lambda>v. ebind (p_int ps v) (\<lambda>memory.
    ebind (opt ini ''resources'' ''pids_limit'') (\<lambda>v. ebind (p_int ps v) (\<lambda>pids.
    ebind (opt ini ''models'' ''default'') (\<lambda>dflt.
    ebind (opt ini ''models'' ''allowed'') (\<lambda>allowed.
    (case map_of tree ''opencode.json'' of None \<Rightarrow> Inl (FileNotFoundError ''opencode.json'') | Some text \<Rightarrow>
    ebind (p_json ps text) (\<lambda>opencode.
    Inr (ini, \<lparr>ad_agent_id = configured, ad_display_name = [], ad_image = image, ad_idle_timeout = idle,
      ad_resources = \<lparr>ar_cpu_limit = cpu, ar_memory_mb = memory, ar_pids_limit = pids\<rparr>,
      ad_default_model = dflt, ad_allowed_models = allowed_list allowed, ad_path = [], ad_opencode = opencode\<rparr>)))))))))))))))))))"

text \<open>\<open>AgentCatalog(root).load(agent_id)\<close>; \<open>dir p\<close> is the tree of a directory of the host.
  The display name is read after the guarded part, so a missing one is not wrapped.\<close>

definition load_definition ::
  "definition_parsers \<Rightarrow> string \<Rightarrow> path \<Rightarrow> (path \<Rightarrow> file_tree option) \<Rightarrow> string \<Rightarrow> agent_definition res" where
  "load_definition ps gateway_url rt dir agent_id =
    (case validate_identifier agent_id ''agent_id'' of
       Inl _ \<Rightarrow> Inl (ValueError (''unknown or invalid Agent '' @ agent_id))
     | Inr _ \<Rightarrow> (case dir (rt @ [agent_id]) of
         None \<Rightarrow> Inl (ValueError (''unknown or invalid Agent '' @ agent_id))
       | Some tree \<Rightarrow> (case read_definition ps agent_id tree of
           Inl _ \<Rightarrow> Inl (ValueError (''invalid Agent '' @ agent_id))
         | Inr (ini, d) \<Rightarrow>
             let r = ad_resources d; allowed = ad_allowed_models d in
             ebind (raise_if (ad_idle_timeout d \<le> 0 \<or> ar_cpu_limit r \<le> 0 \<or> ar_memory_mb r \<le> 0 \<or> ar_pids_limit r \<le> 0)
               (ValueError ''Agent timeouts and resources must be positive'')) (\<lambda>_.
             ebind (raise_if (allowed = [] \<or> ad_default_model d \<notin> set allowed \<or> \<not> distinct allowed)
               (ValueError ''default model must occur once in a non-empty allowed list'')) (\<lambda>_.
             ebind (validate_opencode ps gateway_url tree allowed (ad_default_model d) (ad_opencode d)) (\<lambda>_.
             ebind (opt ini ''agent'' ''display_name'') (\<lambda>display.
             Inr (d\<lparr>ad_display_name := display, ad_path := rt @ [agent_id]\<rparr>))))))))"

section \<open>What an accepted definition guarantees\<close>

lemma each_ok_Inr: "each_ok f xs = Inr u \<longleftrightarrow> list_all (\<lambda>x. f x = Inr ()) xs"
  by (induction xs) (auto simp: exc_simps)

text \<open>The paths a reference stands for: the file itself, or the matches of the pattern.\<close>

definition referenced :: "definition_parsers \<Rightarrow> file_tree \<Rightarrow> bool \<Rightarrow> string \<Rightarrow> string list res" where
  "referenced ps tree allow_glob rel = (if allow_glob then p_glob ps tree rel else Inr [as_posix rel])"

definition reference_inside :: "definition_parsers \<Rightarrow> file_tree \<Rightarrow> string \<Rightarrow> bool \<Rightarrow> json \<Rightarrow> bool" where
  "reference_inside ps tree pre allow_glob v \<longleftrightarrow> (\<exists>rel ms. v = JStr (pre @ rel) \<and> ''..'' \<notin> set (posix_parts rel)
     \<and> posix_root rel = [] \<and> referenced ps tree allow_glob rel = Inr ms \<and> ms \<noteq> [] \<and> (\<forall>m\<in>set ms. map_of tree m \<noteq> None))"

lemma local_reference_inside:
  assumes "local_reference ps tree pre g v = Inr u"
  shows "reference_inside ps tree pre g v"
proof -
  from assms obtain s where v: "v = JStr s" and pre: "starts_with s pre"
    by (auto simp: local_reference_def split: json.splits if_splits)
  define rel where "rel = drop (length pre) s"
  have s: "s = pre @ rel" using pre by (auto simp: starts_with_def rel_def prefix_def)
  from assms obtain ms where "''..'' \<notin> set (posix_parts rel)" "posix_root rel = []"
    "referenced ps tree g rel = Inr ms" "ms \<noteq> []" "list_all (\<lambda>m. map_of tree m \<noteq> None) ms"
    unfolding v s local_reference_def referenced_def
    by (auto simp: exc_simps Let_def starts_with_def split: if_splits sum.splits)
  then show ?thesis unfolding reference_inside_def v s list_all_iff by blast
qed

lemma validate_opencode_sound:
  assumes "validate_opencode ps gw tree allowed dflt config = Inr u"
  shows "jget (obj_of config) ''share'' = JStr ''disabled'' \<and> jget (obj_of config) ''autoupdate'' = JBool False"
    and "jget (obj_of config) ''enabled_providers'' = JArr [JStr ''cloud-model-gateway'']"
    and "jget (obj_of config) ''model'' = JStr (''cloud-model-gateway/'' @ dflt)"
    and "\<exists>models. nested (jget (obj_of config) ''provider'') [''cloud-model-gateway'', ''models''] = Inr (JObj models) \<and>
      set (dkeys models) = set allowed"
    and "nested (jget (obj_of config) ''provider'') [''cloud-model-gateway'', ''options'', ''baseURL''] = Inr (JStr gw)"
    and "\<forall>i\<in>set (arr_of (jget (obj_of config) ''instructions'')). reference_inside ps tree ''/opt/agent/'' True i"
    and "\<forall>i\<in>set (arr_of (dget (obj_of config) ''plugin'' (JArr []))). reference_inside ps tree ''file:///opt/agent/'' False i"
  using assms
  by (auto simp: validate_opencode_def exc_simps attr_get_def jget_def Let_def model_keys_def nested_def each_ok_Inr list_all_iff
      split: json.splits sum.splits intro: local_reference_inside elim!: is_JObj.elims(2))

lemma read_definition_id: "read_definition ps a tree = Inr (ini, d) \<Longrightarrow> ad_agent_id d = a \<and> map_of tree ''agent.cfg'' \<noteq> None"
  by (auto simp: read_definition_def exc_simps split: option.splits)

text \<open>The definition that is loaded, in terms of the one that was read.\<close>

lemma load_definition_found:
  assumes "load_definition ps gw rt dir a = Inr d"
  obtains tree ini d0 display where "dir (rt @ [a]) = Some tree" "identifier_pattern a" "read_definition ps a tree = Inr (ini, d0)"
    "d = d0\<lparr>ad_display_name := display, ad_path := rt @ [a]\<rparr>" "ad_agent_id d = a"
    "validate_opencode ps gw tree (ad_allowed_models d) (ad_default_model d) (ad_opencode d) = Inr ()"
    "0 < ad_idle_timeout d" "0 < ar_cpu_limit (ad_resources d)" "0 < ar_memory_mb (ad_resources d)" "0 < ar_pids_limit (ad_resources d)"
    "ad_default_model d \<in> set (ad_allowed_models d)" "distinct (ad_allowed_models d)"
proof -
  from assms obtain tree where tree: "dir (rt @ [a]) = Some tree" "identifier_pattern a"
    by (auto simp: load_definition_def validate_identifier_def split: sum.splits option.splits if_splits)
  from assms tree obtain ini d0 display where rd: "read_definition ps a tree = Inr (ini, d0)"
    and d: "d = d0\<lparr>ad_display_name := display, ad_path := rt @ [a]\<rparr>"
    and rest: "validate_opencode ps gw tree (ad_allowed_models d) (ad_default_model d) (ad_opencode d) = Inr ()"
      "0 < ad_idle_timeout d" "0 < ar_cpu_limit (ad_resources d)" "0 < ar_memory_mb (ad_resources d)" "0 < ar_pids_limit (ad_resources d)"
      "ad_default_model d \<in> set (ad_allowed_models d)" "distinct (ad_allowed_models d)"
    by (auto simp: load_definition_def exc_simps Let_def not_le split: sum.splits)
  show thesis by (rule that [OF tree rd d _ rest]) (simp add: d read_definition_id [OF rd])
qed

text \<open>An accepted Agent definition carries its own identifier, positive limits and a default model
  among distinct allowed ones; its runtime configuration turns sharing and self-update off, uses the one
  gateway with exactly the allowed models, and every plugin and every match of an instruction pattern is
  a file of the bundle.\<close>

theorem load_definition_confined:
  assumes "load_definition ps gw rt dir a = Inr d"
  shows "ad_agent_id d = a \<and> identifier_pattern a \<and> ad_path d = rt @ [a]
    \<and> 0 < ad_idle_timeout d \<and> 0 < ar_cpu_limit (ad_resources d) \<and> 0 < ar_memory_mb (ad_resources d) \<and> 0 < ar_pids_limit (ad_resources d)
    \<and> ad_default_model d \<in> set (ad_allowed_models d) \<and> distinct (ad_allowed_models d)
    \<and> (\<exists>tree. dir (rt @ [a]) = Some tree \<and> (let c = obj_of (ad_opencode d) in
        jget c ''share'' = JStr ''disabled'' \<and> jget c ''autoupdate'' = JBool False
      \<and> jget c ''enabled_providers'' = JArr [JStr ''cloud-model-gateway'']
      \<and> (\<exists>models. nested (jget c ''provider'') [''cloud-model-gateway'', ''models''] = Inr (JObj models)
            \<and> set (dkeys models) = set (ad_allowed_models d))
      \<and> nested (jget c ''provider'') [''cloud-model-gateway'', ''options'', ''baseURL''] = Inr (JStr gw)
      \<and> (\<forall>i\<in>set (arr_of (jget c ''instructions'')). reference_inside ps tree ''/opt/agent/'' True i)
      \<and> (\<forall>i\<in>set (arr_of (dget c ''plugin'' (JArr []))). reference_inside ps tree ''file:///opt/agent/'' False i)))"
proof -
  from assms obtain tree ini d0 display where "dir (rt @ [a]) = Some tree" "identifier_pattern a"
    "d = d0\<lparr>ad_display_name := display, ad_path := rt @ [a]\<rparr>" "ad_agent_id d = a"
    and vo: "validate_opencode ps gw tree (ad_allowed_models d) (ad_default_model d) (ad_opencode d) = Inr ()"
    and "0 < ad_idle_timeout d" "0 < ar_cpu_limit (ad_resources d)" "0 < ar_memory_mb (ad_resources d)" "0 < ar_pids_limit (ad_resources d)"
      "ad_default_model d \<in> set (ad_allowed_models d)" "distinct (ad_allowed_models d)"
    by (rule load_definition_found)
  with validate_opencode_sound [OF vo] show ?thesis by (simp add: Let_def)
qed

definition demo_tree :: file_tree where
  "demo_tree = [(''agent.cfg'', []), (''opencode.json'', []), (''AGENTS.md'', []), (''plugins/p.js'', [])]"

definition demo_opencode :: json where
  "demo_opencode = JObj [(''share'', JStr ''disabled''), (''autoupdate'', JBool False), (''plugin'', JArr [JStr ''file:///opt/agent/plugins/p.js'']),
     (''enabled_providers'', JArr [JStr ''cloud-model-gateway'']),
     (''provider'', JObj [(''cloud-model-gateway'', JObj [(''npm'', JStr ''@ai-sdk/openai-compatible''), (''models'', JObj [(''m1'', JObj [])]),
        (''options'', JObj [(''baseURL'', JStr ''http://gw/v1''), (''apiKey'', JStr ''{env:MODEL_GATEWAY_TOKEN}'')])])]),
     (''model'', JStr ''cloud-model-gateway/m1''), (''instructions'', JArr [JStr ''/opt/agent/AGENTS.md''])]"

definition demo_ini :: "(string \<times> string) \<Rightarrow> string option" where
  "demo_ini = map_of [((''agent'', ''id''), ''a1''), ((''agent'', ''display_name''), ''A''), ((''agent'', ''image''), ''img:1''),
     ((''agent'', ''idle_timeout_seconds''), ''1''), ((''resources'', ''cpu_limit''), ''1''), ((''resources'', ''memory_mb''), ''1''),
     ((''resources'', ''pids_limit''), ''1''), ((''models'', ''default''), ''m1''), ((''models'', ''allowed''), ''m1'')]"

definition demo_parsers :: definition_parsers where
  "demo_parsers = \<lparr>p_ini = \<lambda>_. Inr demo_ini, p_int = \<lambda>_. Inr 1, p_float = \<lambda>_. Inr 1, p_json = \<lambda>_. Inr demo_opencode,
     p_glob = \<lambda>tree pat. Inr (if map_of tree pat = None then [] else [pat])\<rparr>"

lemma demo_ini_allowed: "allowed_list ''m1'' = [''m1'']"
  by (simp add: allowed_list_def strip_def is_space_def)

lemma demo_opencode_valid: "validate_opencode demo_parsers ''http://gw/v1'' demo_tree [''m1''] ''m1'' demo_opencode = Inr ()"
  by (simp add: validate_opencode_def attr_get_def demo_opencode_def jget_def dget_def local_plugins_def nested_def subscript_def jindex_def
      model_keys_def dkeys_def local_reference_def demo_parsers_def demo_tree_def posix_path_defs Let_def)

lemma demo_definition_in:
  "load_definition demo_parsers ''http://gw/v1'' rt (\<lambda>p. Some demo_tree) ''a1'' =
    Inr \<lparr>ad_agent_id = ''a1'', ad_display_name = ''A'', ad_image = ''img:1'', ad_idle_timeout = 1,
      ad_resources = \<lparr>ar_cpu_limit = 1, ar_memory_mb = 1, ar_pids_limit = 1\<rparr>, ad_default_model = ''m1'',
      ad_allowed_models = [''m1''], ad_path = rt @ [''a1''], ad_opencode = demo_opencode\<rparr>"
proof -
  have i: "validate_identifier ''a1'' f = Inr ''a1''" for f
    by (simp add: validate_identifier_def identifier_pattern_def ident_tail_char_def char_class_defs)
  have "p_ini demo_parsers x = Inr demo_ini" "p_int demo_parsers s = Inr 1" "p_float demo_parsers s = Inr 1"
    "p_json demo_parsers x = Inr demo_opencode" for x s
    by (simp_all add: demo_parsers_def)
  moreover have "map_of demo_tree ''agent.cfg'' = Some []" "map_of demo_tree ''opencode.json'' = Some []" by (simp_all add: demo_tree_def)
  moreover have "opt demo_ini ''agent'' ''id'' = Inr ''a1''" "opt demo_ini ''agent'' ''display_name'' = Inr ''A''"
    "opt demo_ini ''agent'' ''image'' = Inr ''img:1''" "opt demo_ini ''agent'' ''idle_timeout_seconds'' = Inr ''1''"
    "opt demo_ini ''resources'' ''cpu_limit'' = Inr ''1''" "opt demo_ini ''resources'' ''memory_mb'' = Inr ''1''"
    "opt demo_ini ''resources'' ''pids_limit'' = Inr ''1''" "opt demo_ini ''models'' ''default'' = Inr ''m1''"
    "opt demo_ini ''models'' ''allowed'' = Inr ''m1''"
    by (simp_all add: opt_def demo_ini_def)
  ultimately show ?thesis
    by (simp add: load_definition_def read_definition_def i demo_ini_allowed demo_opencode_valid Let_def)
qed

theorem load_definition_confined_witness:
  "\<exists>d. load_definition demo_parsers ''http://gw/v1'' [''r''] (\<lambda>p. Some demo_tree) ''a1'' = Inr d \<and>
    0 < ar_memory_mb (ad_resources d) \<and> ad_default_model d \<in> set (ad_allowed_models d)"
  using load_definition_confined [OF demo_definition_in [of "[''r'']"]] demo_definition_in [of "[''r'']"] by blast

end
