(* ===== verification/Base64.thy ===== *)
theory Base64
  imports Prelude "HOL-Library.Word"
begin

text \<open>
  Base64 as the services use it on bundles and hook files: \<open>base64.b64encode\<close> and
  \<open>base64.b64decode(validate=True)\<close>, the latter as the loop of CPython's strict decoder, with
  the position in the current group of four, the bits left over, the padding seen and whether
  padding has started. The one law the other theories use is that decoding inverts encoding.
\<close>

definition b64_alphabet :: string where
  "b64_alphabet = ''ABCDEFGHIJKLMNOPQRSTUVWXYZabcdefghijklmnopqrstuvwxyz0123456789+/''"

fun index_in :: "char \<Rightarrow> string \<Rightarrow> nat option" where
  "index_in c [] = None"
| "index_in c (x # xs) = (if c = x then Some 0 else map_option Suc (index_in c xs))"

definition b64_value :: "char \<Rightarrow> nat option" where
  "b64_value c = index_in c b64_alphabet"

definition b64_char :: "nat \<Rightarrow> char" where
  "b64_char n = b64_alphabet ! n"

fun b64encode :: "8 word list \<Rightarrow> string" where
  "b64encode [] = []"
| "b64encode [a] = [b64_char (unat a div 4), b64_char (unat a mod 4 * 16), CHR ''='', CHR ''='']"
| "b64encode [a, b] = [b64_char (unat a div 4), b64_char (unat a mod 4 * 16 + unat b div 16),
     b64_char (unat b mod 16 * 4), CHR ''='']"
| "b64encode (a # b # c # rest) = b64_char (unat a div 4) # b64_char (unat a mod 4 * 16 + unat b div 16)
     # b64_char (unat b mod 16 * 4 + unat c div 64) # b64_char (unat c mod 64) # b64encode rest"

text \<open>\<open>quad\<close> is the position in the group, \<open>left\<close> the bits of the last character still unused.\<close>

fun a2b_strict :: "nat \<Rightarrow> nat \<Rightarrow> nat \<Rightarrow> bool \<Rightarrow> string \<Rightarrow> 8 word list res" where
  "a2b_strict quad left pads padding [] =
    (if quad \<noteq> 0 then Inl (ValueError ''Incorrect padding'') else Inr [])"
| "a2b_strict quad left pads padding (c # cs) =
    (if c = CHR ''='' then
       (if 2 \<le> quad then
          (if 4 \<le> quad + pads + 1
           then if cs \<noteq> [] then Inl (ValueError ''Excess data after padding'') else Inr []
           else a2b_strict quad left (pads + 1) True cs)
        else a2b_strict quad left pads True cs)
     else case b64_value c of
       None \<Rightarrow> Inl (ValueError ''Only base64 data is allowed'')
     | Some v \<Rightarrow>
        (if padding then Inl (ValueError ''Discontinuous padding not allowed'')
         else if quad = 0 then a2b_strict 1 v 0 False cs
         else if quad = 1 then ebind (a2b_strict 2 (v mod 16) 0 False cs) (\<lambda>bs. Inr (of_nat (left * 4 + v div 16) # bs))
         else if quad = 2 then ebind (a2b_strict 3 (v mod 4) 0 False cs) (\<lambda>bs. Inr (of_nat (left * 16 + v div 4) # bs))
         else ebind (a2b_strict 0 0 0 False cs) (\<lambda>bs. Inr (of_nat (left * 64 + v) # bs))))"

definition b64decode :: "string \<Rightarrow> 8 word list res" where
  "b64decode s =
    (if \<not> list_all (\<lambda>c. (of_char c :: nat) < 128) s
     then Inl (ValueError ''string argument should contain only ASCII characters'')
     else case s of c # _ \<Rightarrow> if c = CHR ''='' then Inl (ValueError ''Leading padding not allowed'') else a2b_strict 0 0 0 False s
       | [] \<Rightarrow> a2b_strict 0 0 0 False s)"

section \<open>Decoding inverts encoding\<close>

lemma all_nats_64: "(\<forall>n < 64. P (n :: nat)) \<longleftrightarrow> list_all P [0..<64]"
  by (auto simp: list_all_iff)

lemma b64_value_char: "n < 64 \<Longrightarrow> b64_value (b64_char n) = Some n"
proof -
  have "\<forall>n < 64. b64_value (b64_char n) = Some n"
    unfolding all_nats_64 by (simp add: b64_value_def b64_char_def b64_alphabet_def upt_rec)
  then show "n < 64 \<Longrightarrow> b64_value (b64_char n) = Some n" by blast
qed

lemma b64_char_plain: "n < 64 \<Longrightarrow> b64_char n \<noteq> CHR ''='' \<and> (of_char (b64_char n) :: nat) < 128"
proof -
  have "\<forall>n < 64. b64_char n \<noteq> CHR ''='' \<and> (of_char (b64_char n) :: nat) < 128"
    unfolding all_nats_64 by (simp add: b64_char_def b64_alphabet_def upt_rec)
  then show "n < 64 \<Longrightarrow> b64_char n \<noteq> CHR ''='' \<and> (of_char (b64_char n) :: nat) < 128" by blast
qed

lemma unat_byte: "unat (a :: 8 word) < 256"
  using unsigned_less [of a, where ?'a = nat] by simp

lemma a2b_char:
  "v < 64 \<Longrightarrow> a2b_strict 0 l p False (b64_char v # cs) = a2b_strict 1 v 0 False cs"
  "v < 64 \<Longrightarrow> a2b_strict 1 l p False (b64_char v # cs) =
     ebind (a2b_strict 2 (v mod 16) 0 False cs) (\<lambda>bs. Inr (of_nat (l * 4 + v div 16) # bs))"
  "v < 64 \<Longrightarrow> a2b_strict 2 l p False (b64_char v # cs) =
     ebind (a2b_strict 3 (v mod 4) 0 False cs) (\<lambda>bs. Inr (of_nat (l * 16 + v div 4) # bs))"
  "v < 64 \<Longrightarrow> a2b_strict 3 l p False (b64_char v # cs) =
     ebind (a2b_strict 0 0 0 False cs) (\<lambda>bs. Inr (of_nat (l * 64 + v) # bs))"
  by (simp_all add: b64_value_char b64_char_plain)

text \<open>The three bytes of a group, put together again from its four characters.\<close>

lemma div_mod_digit: "r < m \<Longrightarrow> (k * m + r) div m = k \<and> (k * m + r) mod m = (r :: nat)"
  by simp

lemma group_bytes:
  fixes a b c :: nat
  assumes "a < 256" "b < 256" "c < 256"
  shows "a div 4 * 4 + (a mod 4 * 16 + b div 16) div 16 = a"
    "(a mod 4 * 16 + b div 16) mod 16 * 16 + (b mod 16 * 4 + c div 64) div 4 = b"
    "(b mod 16 * 4 + c div 64) mod 4 * 64 + c mod 64 = c"
    "a div 4 < 64" "a mod 4 * 16 + b div 16 < 64" "b mod 16 * 4 + c div 64 < 64"
proof -
  have b: "b div 16 < 16" and c: "c div 64 < 4" and a: "a div 4 < 64" using assms by simp_all
  note db = div_mod_digit [OF b, of "a mod 4"] and dc = div_mod_digit [OF c, of "b mod 16"]
  show "a div 4 * 4 + (a mod 4 * 16 + b div 16) div 16 = a" using db by simp
  show "(a mod 4 * 16 + b div 16) mod 16 * 16 + (b mod 16 * 4 + c div 64) div 4 = b" using db dc by simp
  show "(b mod 16 * 4 + c div 64) mod 4 * 64 + c mod 64 = c" using dc by simp
  have "a mod 4 < 4" "b mod 16 < 16" by simp_all
  then show "a mod 4 * 16 + b div 16 < 64" "b mod 16 * 4 + c div 64 < 64" using b c by linarith+
qed (use assms in simp)

lemma a2b_pads:
  "a2b_strict 2 l 0 False ''=='' = Inr []" "a2b_strict 3 l 0 False ''='' = Inr []"
  by simp_all

lemma a2b_encode: "a2b_strict 0 l p False (b64encode bs) = Inr bs"
proof (induction bs arbitrary: l p rule: b64encode.induct)
  case 1
  then show ?case by simp
next
  case (2 a)
  note g = group_bytes [OF unat_byte [of a], of 0 0]
  have z: "unat a mod 4 * 16 < 64" "unat a div 4 * 4 + unat a mod 4 * 16 div 16 = unat a" using g(1,5) by simp_all
  show ?case
    by (simp only: b64encode.simps a2b_char(1) [OF g(4)] a2b_char(2) [OF z(1)] a2b_pads ebind_Inr z(2)) simp
next
  case (3 a b)
  note g = group_bytes [OF unat_byte [of a] unat_byte [of b], of 0]
  have z: "unat b mod 16 * 4 < 64"
    "(unat a mod 4 * 16 + unat b div 16) mod 16 * 16 + unat b mod 16 * 4 div 4 = unat b" using g(2,6) by simp_all
  show ?case
    by (simp only: b64encode.simps a2b_char(1) [OF g(4)] a2b_char(2) [OF g(5)] a2b_char(3) [OF z(1)]
        a2b_pads ebind_Inr z(2) g(1)) simp
next
  case (4 a b c rest)
  note g = group_bytes [OF unat_byte [of a] unat_byte [of b] unat_byte [of c]]
  have z: "unat c mod 64 < 64" by simp
  show ?case
    by (simp only: b64encode.simps a2b_char(1) [OF g(4)] a2b_char(2) [OF g(5)] a2b_char(3) [OF g(6)] a2b_char(4) [OF z]
        4 ebind_Inr g(1,2,3)) simp
qed

lemma b64encode_chars:
  "list_all (\<lambda>c. (of_char c :: nat) < 128) (b64encode bs) \<and> (b64encode bs = [] \<or> hd (b64encode bs) \<noteq> CHR ''='')"
proof (induction bs rule: b64encode.induct)
  case (4 a b c rest)
  note g = group_bytes [OF unat_byte [of a] unat_byte [of b] unat_byte [of c]]
  from g(4-) 4 show ?case by (simp add: b64_char_plain)
next
  case (3 a b)
  note g = group_bytes [OF unat_byte [of a] unat_byte [of b], of 0]
  have "unat b mod 16 * 4 < 64" using g(6) by simp
  with g(4,5) show ?case by (simp add: b64_char_plain)
next
  case (2 a)
  note g = group_bytes [OF unat_byte [of a], of 0 0]
  have "unat a mod 4 * 16 < 64" using g(5) by simp
  with g(4) show ?case by (simp add: b64_char_plain)
qed simp

lemma b64decode_encode: "b64decode (b64encode bs) = Inr bs"
  using b64encode_chars [of bs] a2b_encode [of 0 0 bs]
  by (auto simp: b64decode_def split: list.split)

end
