(* ===== verification/BundleCache.thy ===== *)
theory BundleCache
  imports AgentDefinitions Base64
begin

text \<open>
  The bundle functions of \<open>sandbox_manager/catalog_client.py\<close>: \<open>install_bundle\<close>, which stores the
  files of an Agent version once and for all, and \<open>RemoteCatalog\<close>, which decides from the catalog
  and the staged versions which definition of an Agent applies. The cache maps the directory
  \<open>root/versions/<version>/<agent>\<close> to its \<open>file_tree\<close>; temporary directories hold no state
  beyond the call. Another process may install the same version while a call runs: \<open>race1\<close> is
  what it installed before \<open>target.exists()\<close> is asked, \<open>race2\<close> before \<open>os.replace\<close>.
\<close>

type_synonym cache = "(path, file_tree) dict"

definition MAX_BUNDLE :: int where
  "MAX_BUNDLE = 100 * 1024 ^ 2"

section \<open>Reading the files of a bundle\<close>

text \<open>One pass of the loop body: the name, the bytes and the new total.\<close>

definition decode_member :: "int \<Rightarrow> string \<Rightarrow> json \<Rightarrow> (string \<times> bytes) res" where
  "decode_member so_far name value =
    ebind (relative_file (JStr name)) (\<lambda>name.
    case value of JStr text \<Rightarrow>
      ebind (raise_if (int (length text) > ((MAX_BUNDLE - so_far + 2) div 3) * 4)
        (HTTPException 413 ''Agent bundle exceeds size limit'')) (\<lambda>_.
      (case b64decode text of
         Inl _ \<Rightarrow> Inl (HTTPException 422 ''Invalid Agent bundle encoding'')
       | Inr raw \<Rightarrow>
          ebind (raise_if (so_far + int (length raw) > MAX_BUNDLE) (HTTPException 413 ''Agent bundle exceeds size limit'')) (\<lambda>_.
          Inr (name, raw))))
    | _ \<Rightarrow> Inl (HTTPException 422 ''Agent bundle files must be base64 strings''))"

fun propose :: "int \<Rightarrow> jdict \<Rightarrow> file_tree \<Rightarrow> file_tree res" where
  "propose so_far [] proposed = Inr proposed"
| "propose so_far ((name, value) # files) proposed =
    ebind (decode_member so_far name value) (\<lambda>(name, raw).
    propose (so_far + int (length raw)) files (dput name raw proposed))"

text \<open>Writing into the staging directory: a file where a directory is needed, or a directory
  where the file goes, is an error.\<close>

definition write_member :: "string \<Rightarrow> bytes \<Rightarrow> file_tree \<Rightarrow> file_tree res" where
  "write_member name raw tree =
    (if list_ex (\<lambda>f. starts_with name (f @ ''/'')) (dkeys tree) then Inl (FileExistsError name)
     else if list_ex (\<lambda>f. starts_with f (name @ ''/'')) (dkeys tree) then Inl (OSError ''EISDIR'')
     else Inr (dput name raw tree))"

fun stage_files :: "int \<Rightarrow> jdict \<Rightarrow> file_tree \<Rightarrow> file_tree res" where
  "stage_files so_far [] staging = Inr staging"
| "stage_files so_far ((name, value) # files) staging =
    ebind (decode_member so_far name value) (\<lambda>(name, raw).
    ebind (write_member name raw staging) (stage_files (so_far + int (length raw)) files))"

text \<open>\<open>current != proposed\<close> on dicts.\<close>

definition same_files :: "file_tree \<Rightarrow> file_tree \<Rightarrow> bool" where
  "same_files a b \<longleftrightarrow> list_all (\<lambda>f. map_of a f = map_of b f) (dkeys a @ dkeys b)"

lemma same_files_iff: "same_files a b \<longleftrightarrow> map_of a = map_of b"
proof
  assume same: "same_files a b"
  show "map_of a = map_of b"
  proof
    fix f
    show "map_of a f = map_of b f"
    proof (cases "f \<in> fst ` set a \<union> fst ` set b")
      case True
      then show ?thesis using same by (auto simp: same_files_def dkeys_def list_all_iff)
    next
      case False
      then show ?thesis by (metis UnI1 UnI2 map_of_eq_None_iff)
    qed
  qed
qed (simp add: same_files_def list_all_iff)

section \<open>Installing\<close>

text \<open>\<open>str(bundle.get("version", "preview"))\<close>. The text of a float is not modelled; the other
  values that are not text or integers have no identifier as their text.\<close>

definition version_text :: "json \<Rightarrow> string" where
  "version_text v = (case v of JStr s \<Rightarrow> s | JInt i \<Rightarrow> (if i < 0 then ''-'' @ dec_nat (nat (- i)) else dec_nat (nat i))
     | JNull \<Rightarrow> ''None'' | JBool True \<Rightarrow> ''True'' | JBool False \<Rightarrow> ''False'' | _ \<Rightarrow> [])"

definition bundle_head :: "string \<Rightarrow> jdict \<Rightarrow> (string \<times> jdict) res" where
  "bundle_head agent_id bundle =
    ebind (validate_identifier agent_id ''agent_id'') (\<lambda>_.
    let files = dget bundle ''files'' (JObj []) in
    ebind (raise_if (\<not> is_JObj files \<or> 2000 < length (obj_of files)) (HTTPException 413 ''Agent bundle exceeds file limit'')) (\<lambda>_.
    ebind (validate_identifier (version_text (dget bundle ''version'' (JStr ''preview''))) ''version'') (\<lambda>version.
    Inr (version, obj_of files))))"

definition compare_installed :: "path \<Rightarrow> file_tree \<Rightarrow> file_tree \<Rightarrow> path res" where
  "compare_installed target current proposed =
    (if \<not> same_files current proposed then Inl (HTTPException 409 ''Immutable bundle version already exists with different content'')
     else Inr target)"

definition has_config :: "file_tree \<Rightarrow> unit res" where
  "has_config tree = raise_if (map_of tree ''agent.cfg'' = None) (HTTPException 422 ''Agent bundle missing agent.cfg'')"

definition arrive :: "file_tree option \<Rightarrow> path \<Rightarrow> cache \<Rightarrow> cache" where
  "arrive race target c = (case race of Some tree \<Rightarrow> if map_of c target = None then dput target tree c else c | None \<Rightarrow> c)"

definition version_dir :: "path \<Rightarrow> string \<Rightarrow> string \<Rightarrow> path" where
  "version_dir rt version agent_id = rt @ [''versions'', version, agent_id]"

definition install_bundle ::
  "file_tree option \<Rightarrow> file_tree option \<Rightarrow> path \<Rightarrow> string \<Rightarrow> jdict \<Rightarrow> (cache, path) sx" where
  "install_bundle race1 race2 rt agent_id bundle = (\<lambda>c.
    case bundle_head agent_id bundle of Inl e \<Rightarrow> (Inl e, c) | Inr (version, files) \<Rightarrow>
      let target = version_dir rt version agent_id in
      (case map_of c target of
         Some current \<Rightarrow>
           (ebind (propose 0 files []) (\<lambda>proposed. ebind (has_config proposed) (\<lambda>_. compare_installed target current proposed)), c)
       | None \<Rightarrow>
         (case ebind (stage_files 0 files []) (\<lambda>staging. ebind (has_config staging) (\<lambda>_. Inr staging)) of
            Inl e \<Rightarrow> (Inl e, c)
          | Inr staging \<Rightarrow>
             (let c1 = arrive race1 target c in
              case map_of c1 target of
                Some current \<Rightarrow> (compare_installed target current staging, c1)
              | None \<Rightarrow> (let c2 = arrive race2 target c1 in
                  case map_of c2 target of
                    Some current \<Rightarrow> (compare_installed target current staging, c2)
                  | None \<Rightarrow> (Inr target, dput target staging c2))))))"

section \<open>What an installation leaves behind\<close>

definition tree_bytes :: "file_tree \<Rightarrow> int" where
  "tree_bytes tree = (\<Sum>(name, raw) \<leftarrow> tree. int (length raw))"

definition tree_ok :: "file_tree \<Rightarrow> bool" where
  "tree_ok tree \<longleftrightarrow> distinct (map fst tree) \<and> (\<forall>name \<in> fst ` set tree. list_all safe_component (posix_tail name) \<and> posix_tail name \<noteq> [])"

lemma tree_bytes_dput: "tree_bytes (dput name raw tree) \<le> tree_bytes tree + int (length raw)"
  by (induction name raw tree rule: dput.induct) (auto simp: tree_bytes_def)

lemma tree_bytes_dput_new: "name \<notin> fst ` set tree \<Longrightarrow> tree_bytes (dput name raw tree) = tree_bytes tree + int (length raw)"
  by (simp add: dput_new tree_bytes_def)

lemma decode_memberD:
  assumes "decode_member n name v = Inr (name', raw)"
  shows "n + int (length raw) \<le> MAX_BUNDLE" "list_all safe_component (posix_tail name')" "posix_tail name' \<noteq> []"
    "relative_file (JStr name) = Inr name'"
proof -
  from assms have "relative_file (JStr name) = Inr name' \<and> n + int (length raw) \<le> MAX_BUNDLE"
  proof (cases v)
    case (JStr s)
    with assms show ?thesis by (cases "b64decode s") (auto simp: decode_member_def exc_simps)
  qed (auto simp: decode_member_def exc_simps)
  then have rf: "relative_file (JStr name) = Inr name'" and n: "n + int (length raw) \<le> MAX_BUNDLE" by simp_all
  show "n + int (length raw) \<le> MAX_BUNDLE" "relative_file (JStr name) = Inr name'" by fact+
  from rf obtain s where s: "name' = join_with ''/'' (posix_tail s)" "posix_tail s \<noteq> []" "list_all safe_component (posix_tail s)"
    by (elim relative_fileD) blast
  have "posix_tail name' = posix_tail s" unfolding s(1) using s(3) by (rule safe_join_tail)
  then show "list_all safe_component (posix_tail name')" "posix_tail name' \<noteq> []" using s by simp_all
qed

lemma tree_ok_dput: "tree_ok tree \<Longrightarrow> list_all safe_component (posix_tail name) \<Longrightarrow> posix_tail name \<noteq> [] \<Longrightarrow> tree_ok (dput name raw tree)"
  by (auto simp: tree_ok_def)

lemma propose_ok:
  "propose n files tree = Inr out \<Longrightarrow> tree_ok tree \<Longrightarrow> tree_bytes tree \<le> n \<Longrightarrow> n \<le> MAX_BUNDLE \<Longrightarrow>
    tree_ok out \<and> tree_bytes out \<le> MAX_BUNDLE"
proof (induction n files tree rule: propose.induct)
  case (1 n tree)
  then show ?case by simp
next
  case (2 n name v files tree)
  from "2.prems"(1) obtain name' raw where d: "decode_member n name v = Inr (name', raw)"
    and rest: "propose (n + int (length raw)) files (dput name' raw tree) = Inr out"
    by (auto simp: exc_simps)
  note dm = decode_memberD [OF d]
  have b: "tree_bytes (dput name' raw tree) \<le> n + int (length raw)"
    using tree_bytes_dput [of name' raw tree] "2.prems"(3) by simp
  have k: "tree_ok (dput name' raw tree)" by (rule tree_ok_dput) (use dm "2.prems"(2) in auto)
  from "2.IH" [OF d refl rest k b dm(1)] show ?case .
qed

text \<open>The staging directory ends with the files the comparison branch computes.\<close>

lemma stage_propose: "stage_files n files tree = Inr out \<Longrightarrow> propose n files tree = Inr out"
  by (induction n files tree rule: stage_files.induct) (auto simp: exc_simps write_member_def split: if_splits)

definition bundle_files :: "jdict \<Rightarrow> string \<Rightarrow> file_tree res" where
  "bundle_files bundle agent_id = ebind (bundle_head agent_id bundle) (\<lambda>(version, files). propose 0 files [])"

definition bundle_target :: "path \<Rightarrow> jdict \<Rightarrow> string \<Rightarrow> path res" where
  "bundle_target rt bundle agent_id = ebind (bundle_head agent_id bundle) (\<lambda>(version, files). Inr (version_dir rt version agent_id))"

lemma arrive_keeps: "map_of c p = Some t \<Longrightarrow> map_of (arrive race target c) p = Some t"
  by (auto simp: arrive_def split: option.splits)

lemma arrive_other: "target \<noteq> p \<Longrightarrow> map_of (arrive race target c) p = map_of c p"
  by (auto simp: arrive_def split: option.splits)

lemma compare_installed_Inr: "compare_installed target current proposed = Inr q \<longleftrightarrow> q = target \<and> map_of current = map_of proposed"
  by (auto simp: compare_installed_def same_files_iff)

lemma install_bundle_keeps:
  assumes "install_bundle race1 race2 rt a bundle c = (res, c')" and "map_of c p = Some tree"
  shows "map_of c' p = Some tree"
  using assms by (auto simp: install_bundle_def Let_def arrive_keeps split: sum.splits option.splits)

lemma install_bundle_other:
  assumes "install_bundle race1 race2 rt a bundle c = (res, c')" and "bundle_target rt bundle a \<noteq> Inr p"
  shows "map_of c' p = map_of c p"
proof (cases "bundle_head a bundle")
  case (Inl e)
  with assms(1) show ?thesis by (simp add: install_bundle_def)
next
  case (Inr vf)
  obtain version files where vf: "vf = (version, files)" by (cases vf)
  have ne: "version_dir rt version a \<noteq> p" using assms(2) Inr vf by (simp add: bundle_target_def)
  with assms(1) Inr vf show ?thesis
    by (auto simp: install_bundle_def Let_def arrive_other [OF ne] split: sum.splits option.splits)
qed

lemma install_bundle_content:
  assumes "install_bundle race1 race2 rt a bundle c = (Inr q, c')"
  shows "\<exists>tree proposed. bundle_target rt bundle a = Inr q \<and> map_of c' q = Some tree \<and> bundle_files bundle a = Inr proposed \<and>
    map_of tree = map_of proposed \<and> map_of proposed ''agent.cfg'' \<noteq> None"
  using assms
  by (auto simp: install_bundle_def Let_def bundle_target_def bundle_files_def exc_simps has_config_def compare_installed_Inr
      split: sum.splits option.splits dest!: stage_propose)

text \<open>C40: whatever a bundle holds and whatever another process installs meanwhile, no installed version
  changes and only the directory of the bundle's own version may appear; a successful installation leaves
  there exactly the decoded files, with \<open>agent.cfg\<close>, contained relative names and at most 100 MiB.\<close>

theorem install_bundle_immutable:
  assumes "install_bundle race1 race2 rt a bundle c = (res, c')"
  shows "(\<forall>p tree. map_of c p = Some tree \<longrightarrow> map_of c' p = Some tree)
    \<and> (\<forall>p. bundle_target rt bundle a \<noteq> Inr p \<longrightarrow> map_of c' p = map_of c p)
    \<and> (\<forall>q. res = Inr q \<longrightarrow> (\<exists>tree proposed. bundle_target rt bundle a = Inr q \<and> map_of c' q = Some tree
        \<and> bundle_files bundle a = Inr proposed \<and> map_of tree = map_of proposed \<and> map_of proposed ''agent.cfg'' \<noteq> None
        \<and> tree_ok proposed \<and> tree_bytes proposed \<le> MAX_BUNDLE))"
proof -
  have ok: "tree_ok proposed \<and> tree_bytes proposed \<le> MAX_BUNDLE" if "bundle_files bundle a = Inr proposed" for proposed
  proof -
    from that obtain files where "propose 0 files [] = Inr proposed" by (auto simp: bundle_files_def exc_simps)
    from propose_ok [OF this] show ?thesis by (simp add: tree_ok_def tree_bytes_def MAX_BUNDLE_def)
  qed
  have "res = Inr q \<Longrightarrow> \<exists>tree proposed. bundle_target rt bundle a = Inr q \<and> map_of c' q = Some tree \<and> bundle_files bundle a = Inr proposed \<and>
    map_of tree = map_of proposed \<and> map_of proposed ''agent.cfg'' \<noteq> None" for q
    using install_bundle_content assms by simp
  then show ?thesis
    using install_bundle_keeps [OF assms] install_bundle_other [OF assms] ok by blast
qed

section \<open>Installing what was encoded\<close>

definition encode_bundle :: "string \<Rightarrow> file_tree \<Rightarrow> jdict" where
  "encode_bundle version tree = [(''version'', JStr version), (''files'', JObj (map (\<lambda>(name, raw). (name, JStr (b64encode raw))) tree))]"

text \<open>A tree a directory can hold: normal relative names, no file below another, within the limits.\<close>

definition bundle_ok :: "file_tree \<Rightarrow> bool" where
  "bundle_ok tree \<longleftrightarrow> distinct (map fst tree) \<and> list_all (\<lambda>(name, raw). relative_file (JStr name) = Inr name) tree
     \<and> list_all (\<lambda>f. list_all (\<lambda>g. \<not> starts_with g (f @ ''/'')) (dkeys tree)) (dkeys tree)
     \<and> map_of tree ''agent.cfg'' \<noteq> None \<and> length tree \<le> 2000 \<and> tree_bytes tree \<le> MAX_BUNDLE"

lemma length_b64encode: "length (b64encode bs) = (length bs + 2) div 3 * 4"
proof (induction bs rule: b64encode.induct)
  case (4 a b c rest)
  have "(length rest + 2 + 3) div 3 = (length rest + 2) div 3 + 1" by simp
  with 4 show ?case by (simp add: add.commute)
qed auto

lemma encoded_size_fits: "n + int (length raw) \<le> MAX_BUNDLE \<Longrightarrow> int (length (b64encode raw)) \<le> ((MAX_BUNDLE - n + 2) div 3) * 4"
proof -
  assume "n + int (length raw) \<le> MAX_BUNDLE"
  then have "(int (length raw) + 2) div 3 \<le> (MAX_BUNDLE - n + 2) div 3" by (intro zdiv_mono1) simp_all
  then show ?thesis by (simp add: length_b64encode zdiv_int add.commute)
qed

lemma decode_encoded:
  "relative_file (JStr name) = Inr name \<Longrightarrow> n + int (length raw) \<le> MAX_BUNDLE \<Longrightarrow>
    decode_member n name (JStr (b64encode raw)) = Inr (name, raw)"
  using encoded_size_fits [of n raw] by (simp add: decode_member_def b64decode_encode raise_if_def)

lemma stage_encoded:
  assumes "list_all (\<lambda>(name, raw). relative_file (JStr name) = Inr name) rest"
    and "distinct (map fst (acc @ rest))"
    and "\<And>f g. f \<in> fst ` set (acc @ rest) \<Longrightarrow> g \<in> fst ` set (acc @ rest) \<Longrightarrow> \<not> starts_with g (f @ ''/'')"
    and "n + tree_bytes rest \<le> MAX_BUNDLE"
  shows "stage_files n (map (\<lambda>(name, raw). (name, JStr (b64encode raw))) rest) acc = Inr (acc @ rest)"
  using assms
proof (induction rest arbitrary: n acc)
  case Nil
  then show ?case by simp
next
  case (Cons p rest)
  obtain name raw where p: "p = (name, raw)" by (cases p)
  have nonneg: "0 \<le> tree_bytes rest" by (auto simp: tree_bytes_def intro!: sum_list_nonneg)
  then have b: "n + int (length raw) \<le> MAX_BUNDLE" using Cons.prems(4) by (simp add: tree_bytes_def p)
  have rf: "relative_file (JStr name) = Inr name" using Cons.prems(1) by (simp add: p)
  have new: "name \<notin> fst ` set acc" using Cons.prems(2) by (auto simp: p)
  have "write_member name raw acc = Inr (acc @ [(name, raw)])"
    using Cons.prems(3) [of _ name] Cons.prems(3) [of name] new
    by (auto simp: write_member_def dkeys_def list_ex_iff p dput_new)
  moreover have "stage_files (n + int (length raw)) (map (\<lambda>(name, raw). (name, JStr (b64encode raw))) rest) (acc @ [(name, raw)])
      = Inr ((acc @ [(name, raw)]) @ rest)"
  proof (rule Cons.IH)
    show "distinct (map fst ((acc @ [(name, raw)]) @ rest))" using Cons.prems(2) p by simp
    show "\<not> starts_with g (f @ ''/'')" if "f \<in> fst ` set ((acc @ [(name, raw)]) @ rest)" "g \<in> fst ` set ((acc @ [(name, raw)]) @ rest)" for f g
      using Cons.prems(3) [of f g] that p by auto
  qed (use Cons.prems p in \<open>auto simp: tree_bytes_def\<close>)
  ultimately show ?case by (simp add: p decode_encoded [OF rf b])
qed

lemma encoded_parts:
  assumes "bundle_ok tree" and "validate_identifier a ''agent_id'' = Inr a" and "validate_identifier v ''version'' = Inr v"
  shows "bundle_head a (encode_bundle v tree) = Inr (v, map (\<lambda>(name, raw). (name, JStr (b64encode raw))) tree)"
    "stage_files 0 (map (\<lambda>(name, raw). (name, JStr (b64encode raw))) tree) [] = Inr tree" "has_config tree = Inr ()"
proof -
  let ?enc = "map (\<lambda>(name, raw). (name, JStr (b64encode raw))) tree"
  show "bundle_head a (encode_bundle v tree) = Inr (v, ?enc)"
    using assms by (simp add: bundle_head_def encode_bundle_def dget_def version_text_def bundle_ok_def raise_if_def Let_def)
  have "stage_files 0 ?enc [] = Inr ([] @ tree)"
    by (rule stage_encoded) (use assms(1) in \<open>auto simp: bundle_ok_def list_all_iff dkeys_def\<close>)
  then show "stage_files 0 ?enc [] = Inr tree" by simp
  obtain y where "map_of tree ''agent.cfg'' = Some y" using assms(1) by (auto simp: bundle_ok_def)
  then show "has_config tree = Inr ()" by (auto simp: has_config_def)
qed

lemma install_encoded_present:
  assumes "bundle_ok tree" and "validate_identifier a ''agent_id'' = Inr a" and "validate_identifier v ''version'' = Inr v"
    and "map_of c (version_dir rt v a) = Some tree"
  shows "install_bundle r1 r2 rt a (encode_bundle v tree) c = (Inr (version_dir rt v a), c)"
  using encoded_parts [OF assms(1-3)] stage_propose assms(4)
  by (simp add: install_bundle_def Let_def compare_installed_def same_files_iff)

text \<open>The bundle of a version, encoded as the catalog sends it, is installed as exactly those files, also
  when it is installed again; the limits on the text never refuse a bundle whose bytes are within them.\<close>

theorem install_bundle_roundtrip:
  assumes "bundle_ok tree" and "validate_identifier a ''agent_id'' = Inr a" and "validate_identifier v ''version'' = Inr v"
    and "map_of c (version_dir rt v a) = None"
  shows "\<exists>c'. install_bundle None None rt a (encode_bundle v tree) c = (Inr (version_dir rt v a), c')
    \<and> map_of c' (version_dir rt v a) = Some tree
    \<and> install_bundle None None rt a (encode_bundle v tree) c' = (Inr (version_dir rt v a), c')"
proof -
  note parts = encoded_parts [OF assms(1-3)]
  have "install_bundle None None rt a (encode_bundle v tree) c = (Inr (version_dir rt v a), dput (version_dir rt v a) tree c)"
    by (simp add: install_bundle_def parts Let_def assms(4) arrive_def)
  then show ?thesis by (simp add: install_encoded_present [OF assms(1-3)])
qed

theorem install_bundle_roundtrip_witness:
  "\<exists>c'. install_bundle None None [''r''] ''a1'' (encode_bundle ''v1'' [(''agent.cfg'', [65, 66]), (''plugins/p.js'', [7])]) []
     = (Inr [''r'', ''versions'', ''v1'', ''a1''], c') \<and> map_of c' [''r'', ''versions'', ''v1'', ''a1''] = Some [(''agent.cfg'', [65, 66]), (''plugins/p.js'', [7])]"
proof -
  let ?tree = "[(''agent.cfg'', [65, 66]), (''plugins/p.js'', [7])] :: file_tree"
  have "bundle_ok ?tree"
    by (simp add: bundle_ok_def relative_file_def posix_path_defs dkeys_def tree_bytes_def MAX_BUNDLE_def)
  moreover have "validate_identifier ''a1'' f = Inr ''a1''" "validate_identifier ''v1'' f = Inr ''v1''" for f
    by (simp_all add: validate_identifier_def identifier_pattern_def ident_tail_char_def char_class_defs)
  ultimately show ?thesis
    using install_bundle_roundtrip [of ?tree "''a1''" "''v1''" "[]" "[''r'']"] by (auto simp: version_dir_def)
qed

theorem install_bundle_immutable_witness:
  "map_of (snd (install_bundle None None [''r''] ''a1'' (encode_bundle ''v1'' [(''agent.cfg'', [65])])
     [([''r'', ''versions'', ''v1'', ''a1''], [(''agent.cfg'', [1])])])) [''r'', ''versions'', ''v1'', ''a1''] = Some [(''agent.cfg'', [1])]"
proof -
  let ?c = "[([''r'', ''versions'', ''v1'', ''a1''], [(''agent.cfg'', [1])])] :: cache"
  obtain res c' where "install_bundle None None [''r''] ''a1'' (encode_bundle ''v1'' [(''agent.cfg'', [65])]) ?c = (res, c')" by fastforce
  from this install_bundle_immutable [OF this] show ?thesis by simp
qed

end
