(* ===== verification/RemoteCatalog.thy ===== *)
theory RemoteCatalog
  imports BundleCache OpsCalls
begin

text \<open>
  \<open>RemoteCatalog\<close> and \<open>Admission\<close> of \<open>sandbox_manager/catalog_client.py\<close>. The catalog keeps the
  staged version of an Agent, its override, in memory and in \<open>applied.json\<close>; without one, the
  version the catalog service answers applies. Answers of the other services are parameters;
  \<open>disk\<close> is the error writing \<open>applied.json\<close> meets, if any. The lock orders the calls.
\<close>

record catalog_state =
  cs_cache :: cache
  cs_overrides :: "(string, path) dict"
  cs_applied :: "(string, path) dict"

text \<open>What does not change: the parsers, the URL of the gateway and the directory of the cache.\<close>

record catalog_setup =
  ct_parsers :: definition_parsers
  ct_gateway :: string
  ct_root :: path

text \<open>The bundle endpoint answers \<open>ca_bundle\<close>; meanwhile other processes install \<open>ca_race1\<close> and
  \<open>ca_race2\<close>.\<close>

record catalog_answer =
  ca_bundle :: "string \<Rightarrow> reply"
  ca_race1 :: "string \<Rightarrow> file_tree option"
  ca_race2 :: "string \<Rightarrow> file_tree option"

section \<open>The remote catalog\<close>

definition on_cache :: "(cache, 'a) sx \<Rightarrow> ('x catalog_state_scheme, 'a) sx" where
  "on_cache m = (\<lambda>s. case m (cs_cache s) of (r, c) \<Rightarrow> (r, s\<lparr>cs_cache := c\<rparr>))"

definition persist_overrides :: "exc option \<Rightarrow> (string, path) dict \<Rightarrow> ('x catalog_state_scheme, unit) sx" where
  "persist_overrides disk updated = (\<lambda>s. case disk of Some e \<Rightarrow> (Inl e, s) | None \<Rightarrow> (Inr (), s\<lparr>cs_applied := updated\<rparr>))"

definition definition_of :: "catalog_setup \<Rightarrow> string \<Rightarrow> path \<Rightarrow> cache \<Rightarrow> agent_definition res" where
  "definition_of su agent_id p c =
    (if \<not> prefix (ct_root su) p \<or> p = [] \<or> last p \<noteq> agent_id
     then Inl (HTTPException 422 ''Applied Agent bundle is outside its cache'')
     else ebind (load_definition (ct_parsers su) (ct_gateway su) (butlast p) (map_of c) agent_id) (\<lambda>d.
       ebind (subscript (ad_opencode d) ''provider'') (\<lambda>v. ebind (subscript v ''cloud-model-gateway'') (\<lambda>v.
       ebind (subscript v ''options'') (\<lambda>v. ebind (attr_get v ''apiKey'' JNull) (\<lambda>key.
       ebind (raise_if (key \<noteq> JStr ''{env:MODEL_GATEWAY_TOKEN}'')
         (HTTPException 422 ''Agent model credential must reference MODEL_GATEWAY_TOKEN'')) (\<lambda>_. Inr d)))))))"

definition bundle_reply :: "reply \<Rightarrow> jdict res" where
  "bundle_reply r = (case r of
     Reply status body \<Rightarrow> if is_error status then Inl (HTTPException status ''Catalog bundle unavailable'')
        else (case body of JObj d \<Rightarrow> Inr d | _ \<Rightarrow> Inl (AttributeError ''get''))
   | BadBody status \<Rightarrow> if is_error status then Inl (HTTPException status ''Catalog bundle unavailable'') else Inl (ValueError ''JSONDecodeError'')
   | TransportError \<Rightarrow> Inl (HTTPError ''catalog_service'')
   | TaskCancelled \<Rightarrow> Inl CancelledError)"

definition authoritative :: "catalog_setup \<Rightarrow> catalog_answer \<Rightarrow> string \<Rightarrow> ('x catalog_state_scheme, path) sx" where
  "authoritative su an agent_id =
    sx_bind (sx_of_res (bundle_reply (ca_bundle an agent_id))) (\<lambda>bundle.
    on_cache (install_bundle (ca_race1 an agent_id) (ca_race2 an agent_id) (ct_root su) agent_id bundle))"

definition stage :: "catalog_setup \<Rightarrow> exc option \<Rightarrow> string \<Rightarrow> path \<Rightarrow> ('x catalog_state_scheme, agent_definition) sx" where
  "stage su disk agent_id p =
    sx_then (sx_of_res (validate_identifier agent_id ''agent_id''))
    (sx_bind (sx_lift (\<lambda>s. definition_of su agent_id p (cs_cache s))) (\<lambda>d.
     sx_bind (sx_lift (\<lambda>s. Inr (dput agent_id (ad_path d) (cs_overrides s)))) (\<lambda>updated.
     sx_then (persist_overrides disk updated)
     (sx_then (sx_modify (\<lambda>s. s\<lparr>cs_overrides := updated\<rparr>)) (sx_return d)))))"

definition load :: "catalog_setup \<Rightarrow> catalog_answer \<Rightarrow> string \<Rightarrow> ('x catalog_state_scheme, agent_definition) sx" where
  "load su an agent_id =
    sx_then (sx_of_res (validate_identifier agent_id ''agent_id''))
    (sx_bind (sx_lift (\<lambda>s. Inr (map_of (cs_overrides s) agent_id))) (\<lambda>override.
     sx_bind (case override of Some p \<Rightarrow> sx_return p | None \<Rightarrow> authoritative su an agent_id) (\<lambda>p.
     sx_lift (\<lambda>s. definition_of su agent_id p (cs_cache s)))))"

definition commit :: "catalog_setup \<Rightarrow> catalog_answer \<Rightarrow> exc option \<Rightarrow> string \<Rightarrow> ('x catalog_state_scheme, agent_definition) sx" where
  "commit su an disk agent_id =
    sx_then (sx_of_res (validate_identifier agent_id ''agent_id''))
    (sx_bind (sx_lift (\<lambda>s. Inr (map_of (cs_overrides s) agent_id))) (\<lambda>override.
     case override of None \<Rightarrow> load su an agent_id
     | Some staged \<Rightarrow>
        sx_bind (authoritative su an agent_id) (\<lambda>current.
        sx_then (sx_of_res (raise_if (current \<noteq> staged) (HTTPException 409 ''Catalog has not committed the staged Agent version'')))
        (sx_bind (sx_lift (\<lambda>s. definition_of su agent_id current (cs_cache s))) (\<lambda>d.
         sx_bind (sx_lift (\<lambda>s. Inr (dpop agent_id (cs_overrides s)))) (\<lambda>updated.
         sx_then (persist_overrides disk updated)
         (sx_then (sx_modify (\<lambda>s. s\<lparr>cs_overrides := updated\<rparr>)) (sx_return d))))))))"

text \<open>A new process reads the overrides from \<open>applied.json\<close>.\<close>

definition reopen_catalog :: "'x catalog_state_scheme \<Rightarrow> 'x catalog_state_scheme" where
  "reopen_catalog s = s\<lparr>cs_overrides := cs_applied s\<rparr>"

section \<open>Admission\<close>

record admission_state =
  as_requests :: "(string, int) dict"
  as_acquiring :: "(string, int) dict"
  as_blocked :: "string list"

record run_resources =
  rr_cpu_limit :: json
  rr_memory_mb :: json
  rr_run_id :: json

text \<open>\<open>response.json().get("detail", default)\<close> of an error response.\<close>

definition error_detail :: "reply \<Rightarrow> string \<Rightarrow> exc" where
  "error_detail r dflt = (case r of
     Reply status body \<Rightarrow> (case attr_get body ''detail'' (JStr dflt) of Inl e \<Rightarrow> e | Inr v \<Rightarrow> HTTPException status (str_of v))
   | BadBody _ \<Rightarrow> ValueError ''JSONDecodeError'' | TransportError \<Rightarrow> HTTPError dflt | TaskCancelled \<Rightarrow> CancelledError)"

definition json_reply :: "string \<Rightarrow> reply \<Rightarrow> json res" where
  "json_reply dflt r = (case r of Reply status body \<Rightarrow> if is_error status then Inl (error_detail r dflt) else Inr body
     | _ \<Rightarrow> Inl (error_detail r dflt))"

definition resources_for :: "reply \<Rightarrow> run_resources option res" where
  "resources_for r =
    ebind (json_reply ''Runtime admission denied'' r) (\<lambda>body. ebind (attr_get body ''resources'' JNull) (\<lambda>item.
    if \<not> truthy item then Inr None
    else ebind (attr_get item ''cpu_limit'' JNull) (\<lambda>cpu_limit. ebind (attr_get item ''cpu'' cpu_limit) (\<lambda>cpu.
      ebind (subscript item ''memory_mb'') (\<lambda>memory. ebind (attr_get item ''run_id'' JNull) (\<lambda>run_id.
      ebind (attr_get item ''load_test'' run_id) (\<lambda>run_id.
      Inr (Some \<lparr>rr_cpu_limit = cpu, rr_memory_mb = memory, rr_run_id = run_id\<rparr>))))))))"

definition blocks_agent :: "string list \<Rightarrow> string \<Rightarrow> bool" where
  "blocks_agent blocked agent_id \<longleftrightarrow> agent_id \<in> set blocked \<or> ''*'' \<in> set blocked"

definition check_acquire_local :: "string list \<Rightarrow> string \<Rightarrow> unit res" where
  "check_acquire_local blocked agent_id =
    raise_if (blocks_agent blocked agent_id) (HTTPException 503 ''Agent lifecycle operation in progress'')"

definition active_user :: "(string \<Rightarrow> string \<Rightarrow> reply) \<Rightarrow> string \<Rightarrow> string \<Rightarrow> bool res" where
  "active_user ask agent_id username =
    (if \<not> starts_with username ''loadtest-'' then Inr False
     else ebind (resources_for (ask agent_id username)) (\<lambda>r. Inr (r \<noteq> None)))"

text \<open>\<open>authorize\<close> gives the mutation verdict and the payload as the catalog rewrote it.\<close>

definition authorize :: "reply \<Rightarrow> string list \<Rightarrow> string \<Rightarrow> string \<Rightarrow> json \<Rightarrow> (json \<times> json) res" where
  "authorize r blocked aid path payload =
    ebind (raise_if (blocks_agent blocked aid \<and> \<not> ends_with path ''/abort'' \<and> \<not> ends_with path ''/interrupt'')
      (HTTPException 503 ''Agent lifecycle operation in progress'')) (\<lambda>_.
    ebind (json_reply ''Agent authorization failed'' r) (\<lambda>body.
    ebind (if is_JObj payload then ebind (attr_get body ''payload'' JNull) (\<lambda>p. Inr (if is_JObj p then p else payload)) else Inr payload) (\<lambda>payload'.
    ebind (subscript body ''mutation'') (\<lambda>mutation. Inr (mutation, payload')))))"

definition lease :: "string \<Rightarrow> bool \<Rightarrow> (string, int) dict \<Rightarrow> (string, int) dict" where
  "lease aid begin_lease requests = dput aid (max 0 (dget requests aid 0 + (if begin_lease then 1 else - 1))) requests"

section \<open>Lookups of the cache\<close>

lemma load_definition_dir: "dir (rt @ [a]) = dir' (rt @ [a]) \<Longrightarrow> load_definition ps gw rt dir a = load_definition ps gw rt dir' a"
  by (simp only: load_definition_def)

lemma definition_of_cong:
  assumes "map_of c' p = map_of c p"
  shows "definition_of su a p c' = definition_of su a p c"
proof (cases "p \<noteq> [] \<and> last p = a")
  case True
  then have "map_of c' (butlast p @ [a]) = map_of c (butlast p @ [a])" using assms by auto
  then have "load_definition ps gw (butlast p) (map_of c') a = load_definition ps gw (butlast p) (map_of c) a" for ps gw
    by (rule load_definition_dir)
  then show ?thesis by (simp only: definition_of_def)
next
  case False
  then have "\<not> prefix (ct_root su) p \<or> p = [] \<or> last p \<noteq> a" by blast
  then show ?thesis by (simp only: definition_of_def if_True)
qed

lemma definition_of_found:
  assumes "definition_of su a p c = Inr d"
  shows "map_of c p \<noteq> None" "ad_path d = p" "ad_agent_id d = a"
proof -
  from assms have ld: "load_definition (ct_parsers su) (ct_gateway su) (butlast p) (map_of c) a = Inr d" and "p \<noteq> []" "last p = a"
    by (auto simp: definition_of_def exc_simps split: if_splits)
  then have p: "butlast p @ [a] = p" by auto
  from ld obtain tree d0 display where "map_of c (butlast p @ [a]) = Some tree" "d = d0\<lparr>ad_display_name := display, ad_path := butlast p @ [a]\<rparr>"
    "ad_agent_id d = a" by (rule load_definition_found)
  then show "map_of c p \<noteq> None" "ad_path d = p" "ad_agent_id d = a" using p by auto
qed

lemma install_bundle_again:
  assumes "install_bundle r1 r2 rt a bundle c = (Inr q, c')"
  shows "install_bundle r1' r2' rt a bundle c' = (Inr q, c')"
  using assms
  by (auto simp: install_bundle_def Let_def exc_simps has_config_def compare_installed_Inr split: sum.splits option.splits
      dest!: stage_propose)

definition cache_grows :: "cache \<Rightarrow> cache \<Rightarrow> bool" where
  "cache_grows c c' \<longleftrightarrow> (\<forall>p tree. map_of c p = Some tree \<longrightarrow> map_of c' p = Some tree)"

lemma authoritative_grows:
  assumes "authoritative su an a s = (r, s')"
  obtains c where "s' = s\<lparr>cs_cache := c\<rparr>" "cache_grows (cs_cache s) c"
proof (cases "bundle_reply (ca_bundle an a)")
  case (Inl e)
  with assms have "s' = s\<lparr>cs_cache := cs_cache s\<rparr>" by (simp add: authoritative_def sx_bind_def sx_of_res_def)
  then show thesis by (rule that) (simp add: cache_grows_def)
next
  case (Inr b)
  obtain r1 c where ib: "install_bundle (ca_race1 an a) (ca_race2 an a) (ct_root su) a b (cs_cache s) = (r1, c)" by fastforce
  with assms Inr have "s' = s\<lparr>cs_cache := c\<rparr>" by (auto simp: authoritative_def sx_bind_def sx_of_res_def on_cache_def)
  then show thesis by (rule that) (auto simp: cache_grows_def intro: install_bundle_keeps [OF ib])
qed

lemma authoritative_again:
  assumes "authoritative su an a s = (Inr q, s')" and "cs_cache t = cs_cache s'"
  shows "authoritative su an a t = (Inr q, t)"
proof -
  from assms(1) obtain b where b: "bundle_reply (ca_bundle an a) = Inr b"
    by (auto simp: authoritative_def sx_bind_def sx_of_res_def split: sum.splits)
  with assms(1) obtain c where "install_bundle (ca_race1 an a) (ca_race2 an a) (ct_root su) a b (cs_cache s) = (Inr q, c)"
    and "s' = s\<lparr>cs_cache := c\<rparr>"
    by (auto simp: authoritative_def sx_bind_def sx_of_res_def on_cache_def split: prod.splits)
  with install_bundle_again b assms(2) show ?thesis
    by (simp add: authoritative_def sx_bind_def sx_of_res_def on_cache_def)
qed

section \<open>Staged versions are durable and stay installed\<close>

definition catalog_ok :: "'x catalog_state_scheme \<Rightarrow> bool" where
  "catalog_ok s \<longleftrightarrow> cs_applied s = cs_overrides s
     \<and> (\<forall>a p. map_of (cs_overrides s) a = Some p \<longrightarrow> map_of (cs_cache s) p \<noteq> None)"

lemma catalog_ok_grows: "catalog_ok s \<Longrightarrow> cache_grows (cs_cache s) c \<Longrightarrow> catalog_ok (s\<lparr>cs_cache := c\<rparr>)"
  by (fastforce simp: catalog_ok_def cache_grows_def)

lemma catalog_ok_authoritative: "keeps catalog_ok (authoritative su an a)"
  by (rule tripleI) (metis authoritative_grows catalog_ok_grows)+

lemma catalog_ok_load: "keeps catalog_ok (load su an a)"
  unfolding load_def by (intro step_rules) (auto split: option.splits intro!: step_rules catalog_ok_authoritative)

text \<open>Writing \<open>applied.json\<close> and then the memory is one step for everyone who waits for the lock.\<close>

lemma set_overrides_cases:
  "sx_then (persist_overrides disk u) (sx_then (sx_modify (\<lambda>s. s\<lparr>cs_overrides := u\<rparr>)) (sx_return d)) s =
    (case disk of Some e \<Rightarrow> (Inl e, s) | None \<Rightarrow> (Inr d, s\<lparr>cs_applied := u, cs_overrides := u\<rparr>))"
  by (simp add: sx_step_defs persist_overrides_def split: option.split)

lemma stage_cases:
  "stage su disk a p s = (case validate_identifier a ''agent_id'' of Inl e \<Rightarrow> (Inl e, s) | Inr _ \<Rightarrow>
     (case definition_of su a p (cs_cache s) of Inl e \<Rightarrow> (Inl e, s) | Inr d \<Rightarrow>
     (case disk of Some e \<Rightarrow> (Inl e, s) | None \<Rightarrow>
       (let u = dput a (ad_path d) (cs_overrides s) in (Inr d, s\<lparr>cs_applied := u, cs_overrides := u\<rparr>)))))"
  unfolding stage_def set_overrides_cases by (simp add: sx_step_defs set_overrides_cases Let_def split: sum.split option.split)

text \<open>What a commit of a staged version comes to, once the catalog has answered.\<close>

lemma commit_cases:
  assumes "map_of (cs_overrides s) a = Some p" and "authoritative su an a s = (ra, s1)"
  shows "commit su an disk a s = (case validate_identifier a ''agent_id'' of Inl e \<Rightarrow> (Inl e, s) | Inr _ \<Rightarrow>
     (case ra of Inl e \<Rightarrow> (Inl e, s1) | Inr q \<Rightarrow>
      if q \<noteq> p then (Inl (HTTPException 409 ''Catalog has not committed the staged Agent version''), s1)
      else case definition_of su a q (cs_cache s1) of Inl e \<Rightarrow> (Inl e, s1) | Inr d \<Rightarrow>
       (case disk of Some e \<Rightarrow> (Inl e, s1) | None \<Rightarrow>
          (let u = dpop a (cs_overrides s1) in (Inr d, s1\<lparr>cs_applied := u, cs_overrides := u\<rparr>)))))"
proof (cases "validate_identifier a ''agent_id''")
  case (Inl e)
  then show ?thesis by (simp add: commit_def sx_step_defs)
next
  case (Inr x)
  note id = Inr
  show ?thesis
  proof (cases ra)
    case (Inl e)
    then show ?thesis using id assms by (simp add: commit_def sx_then_def sx_bind_def sx_of_res_def sx_lift_def)
  next
    case (Inr q)
    note st = id assms Inr
    show ?thesis
    proof (cases "q = p")
      case False
      then show ?thesis using st by (simp add: commit_def sx_then_def sx_bind_def sx_of_res_def sx_lift_def)
    next
      case True
      show ?thesis using st True
        by (cases "definition_of su a p (cs_cache s1)")
           (simp_all add: commit_def persist_overrides_def sx_modify_def sx_return_def sx_then_def sx_bind_def sx_of_res_def sx_lift_def
             Let_def split: option.split)
    qed
  qed
qed

lemma commit_Inr:
  assumes "map_of (cs_overrides s) a = Some p" and "authoritative su an a s = (ra, s1)" and "commit su an disk a s = (Inr d, s')"
  shows "\<exists>x. validate_identifier a ''agent_id'' = Inr x" "ra = Inr p" "definition_of su a p (cs_cache s1) = Inr d"
    "s' = s1\<lparr>cs_applied := dpop a (cs_overrides s1), cs_overrides := dpop a (cs_overrides s1)\<rparr>"
  using commit_cases [OF assms(1,2), of disk, unfolded assms(3)]
  by (simp_all add: Let_def split: sum.splits if_splits option.splits)

lemma commit_Inl:
  assumes "map_of (cs_overrides s) a = Some p" and "authoritative su an a s = (ra, s1)" and "commit su an disk a s = (Inl e, s')"
  shows "s' = s \<or> s' = s1"
  using commit_cases [OF assms(1,2), of disk, unfolded assms(3)]
  by (simp add: Let_def split: sum.splits if_splits option.splits)

lemma load_override:
  "map_of (cs_overrides s) a = Some p \<Longrightarrow> validate_identifier a ''agent_id'' = Inr x \<Longrightarrow> load su an a s = (definition_of su a p (cs_cache s), s)"
  by (simp add: load_def sx_step_defs)

lemma load_catalog:
  "map_of (cs_overrides s) a = None \<Longrightarrow> validate_identifier a ''agent_id'' = Inr x \<Longrightarrow> authoritative su an a s = (Inr q, s') \<Longrightarrow>
    load su an a s = (definition_of su a q (cs_cache s'), s')"
  by (simp add: load_def sx_step_defs)

lemma catalog_ok_dpop: "catalog_ok s \<Longrightarrow> catalog_ok (s\<lparr>cs_applied := dpop a (cs_overrides s), cs_overrides := dpop a (cs_overrides s)\<rparr>)"
  by (simp add: catalog_ok_def)

lemma commit_ok:
  assumes "catalog_ok s" and "map_of (cs_overrides s) a = Some p" and "commit su an disk a s = (r, s')"
  shows "catalog_ok s'"
proof -
  obtain ra s1 where au: "authoritative su an a s = (ra, s1)" by fastforce
  have "catalog_ok s1" by (rule keepsD [OF catalog_ok_authoritative assms(1) au])
  with commit_cases [OF assms(2) au, of disk] assms(1,3) catalog_ok_dpop show ?thesis
    by (auto simp: Let_def split: sum.splits if_splits option.splits)
qed

lemma catalog_ok_commit: "keeps catalog_ok (commit su an disk a)"
proof (rule tripleI)
  have "catalog_ok t" if "catalog_ok s" "commit su an disk a s = (r, t)" for s r t
  proof (cases "map_of (cs_overrides s) a")
    case (Some p)
    with that show ?thesis by (metis commit_ok)
  next
    case None
    show ?thesis
    proof (cases "validate_identifier a ''agent_id''")
      case (Inl e)
      with that show ?thesis by (simp add: commit_def sx_step_defs)
    next
      case (Inr x)
      with None that have "load su an a s = (r, t)" by (simp add: commit_def sx_then_def sx_bind_def sx_of_res_def sx_lift_def)
      with that show ?thesis by (metis keepsD catalog_ok_load)
    qed
  qed
  then show "\<And>s x t. catalog_ok s \<Longrightarrow> commit su an disk a s = (Inr x, t) \<Longrightarrow> catalog_ok t"
    "\<And>s e t. catalog_ok s \<Longrightarrow> commit su an disk a s = (Inl e, t) \<Longrightarrow> catalog_ok t" by blast+
qed

lemma catalog_ok_stage: "keeps catalog_ok (stage su disk a p)"
proof (rule tripleI)
  have "catalog_ok t" if ok: "catalog_ok s" and st: "stage su disk a p s = (r, t)" for s r t
  proof (cases "definition_of su a p (cs_cache s)")
    case (Inl e)
    then show ?thesis using st ok by (auto simp: stage_cases split: sum.splits)
  next
    case (Inr d)
    note found = definition_of_found(1,2) [OF this]
    show ?thesis using st ok Inr found by (auto simp: stage_cases Let_def catalog_ok_def split: sum.splits option.splits if_splits)
  qed
  then show "\<And>s x t. catalog_ok s \<Longrightarrow> stage su disk a p s = (Inr x, t) \<Longrightarrow> catalog_ok t"
    "\<And>s e t. catalog_ok s \<Longrightarrow> stage su disk a p s = (Inl e, t) \<Longrightarrow> catalog_ok t" by blast+
qed

lemma reopen_catalog_same: "catalog_ok s \<Longrightarrow> reopen_catalog s = s"
  by (simp add: catalog_ok_def reopen_catalog_def)

text \<open>C32: committing never switches the version that runs, and a restart changes nothing. When the commit
  succeeds, the catalog answers the staged version, the definition is the one that applied before and
  applies after, and only this Agent's override is gone; when it fails, every override stays.\<close>

theorem commit_switches_nothing:
  assumes "map_of (cs_overrides s) a = Some p" and "catalog_ok s" and "commit su an disk a s = (r, s')"
  shows "catalog_ok s' \<and> reopen_catalog s' = s' \<and> (case r of
     Inr d \<Rightarrow> fst (load su an' a s) = Inr d \<and> load su an a s' = (Inr d, s') \<and> ad_path d = p
       \<and> map_of (cs_overrides s') = (map_of (cs_overrides s))(a := None)
   | Inl e \<Rightarrow> cs_overrides s' = cs_overrides s)"
proof -
  have ok: "catalog_ok s'" by (rule commit_ok [OF assms(2,1,3)])
  obtain ra s1 where au: "authoritative su an a s = (ra, s1)" by fastforce
  obtain c where s1: "s1 = s\<lparr>cs_cache := c\<rparr>" and grows: "cache_grows (cs_cache s) c" by (rule authoritative_grows [OF au])
  show ?thesis
  proof (cases r)
    case (Inl e)
    have "s' = s \<or> s' = s1" by (rule commit_Inl [OF assms(1) au assms(3) [unfolded Inl]])
    then have "cs_overrides s' = cs_overrides s" using s1 by auto
    with ok Inl show ?thesis by (simp add: reopen_catalog_same)
  next
    case (Inr d)
    note ci = commit_Inr [OF assms(1) au assms(3) [unfolded Inr]]
    obtain x where id: "validate_identifier a ''agent_id'' = Inr x" using ci(1) by blast
    note ra = ci(2) and s' = ci(4)
    have d: "definition_of su a p c = Inr d" using ci(3) s1 by simp
    have "map_of (cs_cache s) p \<noteq> None" using assms(1,2) by (auto simp: catalog_ok_def)
    then have "map_of c p = map_of (cs_cache s) p" using grows by (auto simp: cache_grows_def)
    then have "definition_of su a p (cs_cache s) = Inr d" using d by (metis definition_of_cong)
    then have before: "fst (load su an' a s) = Inr d" using load_override [OF assms(1) id] by simp
    have c': "cs_cache s' = c" "cs_cache s1 = c" and ov: "map_of (cs_overrides s') = (map_of (cs_overrides s))(a := None)"
      by (simp_all add: s' s1)
    have again: "authoritative su an a s' = (Inr p, s')"
      by (rule authoritative_again [OF au [unfolded ra]]) (simp add: c')
    have "load su an a s' = (definition_of su a p (cs_cache s'), s')"
      by (rule load_catalog [OF _ id again]) (simp add: ov)
    then have "load su an a s' = (Inr d, s')" by (simp only: c' d)
    then show ?thesis using before ok ov definition_of_found(2) [OF d] Inr by (simp add: reopen_catalog_same)
  qed
qed

definition demo_setup :: catalog_setup where
  "demo_setup = \<lparr>ct_parsers = demo_parsers, ct_gateway = ''http://gw/v1'', ct_root = [''r'']\<rparr>"

definition demo_staged :: path where
  "demo_staged = [''r'', ''versions'', ''v2'', ''a1'']"

definition demo_catalog :: catalog_state where
  "demo_catalog = \<lparr>cs_cache = [(demo_staged, demo_tree)], cs_overrides = [(''a1'', demo_staged)], cs_applied = [(''a1'', demo_staged)]\<rparr>"

definition demo_answer :: catalog_answer where
  "demo_answer = \<lparr>ca_bundle = \<lambda>_. Reply 200 (JObj (encode_bundle ''v2'' demo_tree)), ca_race1 = \<lambda>_. None, ca_race2 = \<lambda>_. None\<rparr>"

lemma demo_ident: "validate_identifier ''a1'' f = Inr ''a1''" "validate_identifier ''v2'' f = Inr ''v2''"
  by (simp_all add: validate_identifier_def identifier_pattern_def ident_tail_char_def char_class_defs)

lemma demo_bundle_ok: "bundle_ok demo_tree"
  by (simp add: bundle_ok_def demo_tree_def relative_file_def posix_path_defs dkeys_def tree_bytes_def MAX_BUNDLE_def)

lemma demo_authoritative: "authoritative demo_setup demo_answer ''a1'' demo_catalog = (Inr demo_staged, demo_catalog)"
proof -
  have "install_bundle None None [''r''] ''a1'' (encode_bundle ''v2'' demo_tree) [(demo_staged, demo_tree)] = (Inr demo_staged, [(demo_staged, demo_tree)])"
    using install_encoded_present [OF demo_bundle_ok demo_ident(1) demo_ident(2), of "[(demo_staged, demo_tree)]" "[''r'']"]
    by (simp add: version_dir_def demo_staged_def)
  then show ?thesis
    by (simp add: authoritative_def sx_bind_def sx_of_res_def on_cache_def bundle_reply_def demo_answer_def demo_setup_def demo_catalog_def is_error_def)
qed

lemma demo_load: "definition_of demo_setup ''a1'' demo_staged (cs_cache demo_catalog) \<noteq> Inl e"
proof -
  have "load_definition demo_parsers ''http://gw/v1'' (butlast demo_staged) (map_of (cs_cache demo_catalog)) ''a1'' =
      load_definition demo_parsers ''http://gw/v1'' (butlast demo_staged) (\<lambda>p. Some demo_tree) ''a1''"
    by (rule load_definition_dir) (simp add: demo_staged_def demo_catalog_def)
  then show ?thesis
    using demo_definition_in [of "butlast demo_staged"]
    by (simp add: definition_of_def demo_setup_def demo_staged_def demo_opencode_def subscript_def jindex_def attr_get_def dget_def)
qed

theorem commit_switches_nothing_witness:
  "\<exists>d s'. commit demo_setup demo_answer None ''a1'' demo_catalog = (Inr d, s') \<and> load demo_setup demo_answer ''a1'' s' = (Inr d, s')
     \<and> map_of (cs_overrides s') ''a1'' = None"
proof -
  have staged: "map_of (cs_overrides demo_catalog) ''a1'' = Some demo_staged" and ok: "catalog_ok demo_catalog"
    by (simp_all add: demo_catalog_def catalog_ok_def)
  obtain d where d: "definition_of demo_setup ''a1'' demo_staged (cs_cache demo_catalog) = Inr d"
    using demo_load by (cases "definition_of demo_setup ''a1'' demo_staged (cs_cache demo_catalog)") auto
  have "\<exists>s'. commit demo_setup demo_answer None ''a1'' demo_catalog = (Inr d, s')"
    by (simp add: commit_cases [OF staged demo_authoritative] demo_ident d Let_def)
  then obtain s' where c: "commit demo_setup demo_answer None ''a1'' demo_catalog = (Inr d, s')" by blast
  from commit_switches_nothing [OF staged ok c] c show ?thesis by auto
qed

end
