(* ===== verification/SandboxBackend.thy ===== *)
theory SandboxBackend
  imports RemoteCatalog Registry
begin

text \<open>
  \<open>sandbox_manager/backend.py\<close>: acquiring and releasing the container of one Agent and user.
  The Docker daemon is the parameter \<open>docker\<close> over an abstract state \<open>'d\<close>; its functions give
  what the client library returns or raises. What else happens while a call is awaited (the
  catalog's and the operations service's answers, the health probes, the workspace allocation,
  the clock) is the parameter \<open>sandbox_env\<close>. The digest in a sandbox's name is \<open>st_key\<close>.
  Metrics and log stages have no part. \<open>management\<close> is always set before a request arrives.
\<close>

section \<open>Docker\<close>

record port_binding =
  pb_host_ip :: "string option"
  pb_host_port :: "string option"

record bind_mount =
  bm_destination :: string
  bm_source :: path
  bm_rw :: bool

record container_view =
  cv_id :: string
  cv_name :: string
  cv_labels :: "(string, string) dict"
  cv_image :: string
  cv_status :: string
  cv_ports :: "(string, port_binding list) dict"
  cv_binds :: "bind_mount list"

record container_spec =
  sp_image :: string
  sp_name :: string
  sp_environment :: "(string, string) dict"
  sp_labels :: "(string, string) dict"
  sp_read_only :: bool
  sp_cap_drop :: "string list"
  sp_security_opt :: "string list"
  sp_tmpfs_mb :: int
  sp_binds :: "bind_mount list"
  sp_port :: string
  sp_host_ip :: string
  sp_nano_cpus :: int
  sp_memory_mb :: json
  sp_pids_limit :: int
  sp_runtime :: string
  sp_privileged :: bool

text \<open>\<open>d_get\<close> and \<open>d_image\<close> answer \<open>None\<close> for \<open>NotFound\<close> and \<open>ImageNotFound\<close>, \<open>d_remove\<close> answers
  \<open>False\<close> for \<open>NotFound\<close>; every other failure is an exception.\<close>

record 'd docker =
  d_get :: "'d \<Rightarrow> string \<Rightarrow> container_view option res"
  d_reload :: "'d \<Rightarrow> container_view \<Rightarrow> container_view res"
  d_list :: "'d \<Rightarrow> container_view list res"
  d_image :: "'d \<Rightarrow> string \<Rightarrow> string option res"
  d_create :: "container_spec \<Rightarrow> ('d, container_view) sx"
  d_start :: "string \<Rightarrow> ('d, unit) sx"
  d_stop :: "string \<Rightarrow> ('d, unit) sx"
  d_remove :: "string \<Rightarrow> ('d, bool) sx"

record 'd sandbox_setup =
  st_docker :: "'d docker"
  st_catalog :: catalog_setup
  st_key :: "string \<Rightarrow> string \<Rightarrow> string"
  st_instance :: string
  st_image :: string
  st_internal_port :: nat
  st_expected_version :: string
  st_read_only_rootfs :: bool
  st_tmpfs_mb :: int
  st_runtime :: string
  st_model_token :: "string option"
  st_log_root :: path
  st_workspace_root :: path
  st_state_root :: path

text \<open>One round of a readiness poll: the container as reloaded (not in the first round) and the answer
  of the health endpoint. The rounds of a poll end at its deadline.\<close>

record poll_round =
  pr_reload :: "container_view \<Rightarrow> container_view res"
  pr_health :: "json res"

record sandbox_env =
  e_catalog :: catalog_answer
  e_layout :: "(path \<times> path) res"
  e_admission :: reply
  e_create_admission :: reply
  e_log_dir_ok :: bool
  e_reuse_rounds :: "poll_round list"
  e_create_rounds :: "poll_round list"
  e_clock :: string

section \<open>State\<close>

record 'd sandbox_world = catalog_state +
  sw_reg :: registry
  sw_docker :: 'd
  sw_in_use :: "(string, int) dict"
  sw_subscribers :: "(string, int) dict"
  sw_requests :: "(string, int) dict"
  sw_acquiring :: "(string, int) dict"
  sw_blocked :: "string list"

record endpoint =
  ep_sandbox :: string
  ep_container :: string
  ep_host_port :: int
  ep_reused :: bool

definition base_url :: "endpoint \<Rightarrow> string" where
  "base_url ep = ''http://127.0.0.1:'' @ dec_nat (nat (ep_host_port ep))"

definition on_docker :: "('d, 'a) sx \<Rightarrow> (('d, 'x) sandbox_world_scheme, 'a) sx" where
  "on_docker m = (\<lambda>s. case m (sw_docker s) of (r, d) \<Rightarrow> (r, s\<lparr>sw_docker := d\<rparr>))"

definition on_registry :: "(registry \<Rightarrow> registry) \<Rightarrow> (('d, 'x) sandbox_world_scheme, unit) sx" where
  "on_registry f = sx_modify (\<lambda>s. s\<lparr>sw_reg := f (sw_reg s)\<rparr>)"

definition put_sandbox ::
  "string \<Rightarrow> string \<Rightarrow> string \<Rightarrow> string option \<Rightarrow> int option \<Rightarrow> string \<Rightarrow> string \<Rightarrow> string \<Rightarrow>
    (('d, 'x) sandbox_world_scheme, unit) sx" where
  "put_sandbox sid a u container_id host_port status img now = (\<lambda>s.
    case upsert_sandbox sid a u container_id host_port status img now (sw_reg s) of
      Inl e \<Rightarrow> (Inl e, s) | Inr (row, reg) \<Rightarrow> (Inr (), s\<lparr>sw_reg := reg\<rparr>))"

definition sandbox_id :: "'d sandbox_setup \<Rightarrow> string \<Rightarrow> string \<Rightarrow> string" where
  "sandbox_id st a u = ''sbx_'' @ st_key st a u"

definition container_name :: "'d sandbox_setup \<Rightarrow> string \<Rightarrow> string \<Rightarrow> string" where
  "container_name st a u = ''cloud-agent-'' @ st_key st a u"

section \<open>Looking at a container\<close>

text \<open>\<open>int(text)\<close> of what Docker reports as a port.\<close>

definition int_text :: "string \<Rightarrow> int res" where
  "int_text s = (if s \<noteq> [] \<and> list_all is_digit s then Inr (int (nat_of_dec s)) else Inl (ValueError ''invalid literal for int()''))"

definition port_key :: "'d sandbox_setup \<Rightarrow> string" where
  "port_key st = dec_nat (st_internal_port st) @ ''/tcp''"

definition endpoint_of :: "'d sandbox_setup \<Rightarrow> string \<Rightarrow> bool \<Rightarrow> container_view \<Rightarrow> endpoint res" where
  "endpoint_of st sid reused c = (case map_of (cv_ports c) (port_key st) of
     Some [b] \<Rightarrow>
       (if pb_host_ip b \<noteq> Some ''127.0.0.1'' \<and> pb_host_ip b \<noteq> Some ''::1''
        then Inl (SandboxError ''OpenCode port is not bound exclusively to loopback'')
        else case pb_host_port b of None \<Rightarrow> Inl (KeyError ''HostPort'')
          | Some p \<Rightarrow> ebind (int_text p) (\<lambda>port.
              Inr \<lparr>ep_sandbox = sid, ep_container = cv_id c, ep_host_port = port, ep_reused = reused\<rparr>))
   | _ \<Rightarrow> Inl (SandboxError (''container has no unique binding for '' @ port_key st)))"

definition expected_image :: "'d sandbox_setup \<Rightarrow> string \<Rightarrow> string \<Rightarrow> registry \<Rightarrow> string" where
  "expected_image st a u reg = (case get_sandbox a u reg of
     Some r \<Rightarrow> sb_image r
   | None \<Rightarrow> (case find_row ag_id a (agents reg) of Some g \<Rightarrow> ag_image g | None \<Rightarrow> st_image st))"

definition expected_labels :: "'d sandbox_setup \<Rightarrow> string \<Rightarrow> string \<Rightarrow> string \<Rightarrow> (string, string) dict" where
  "expected_labels st a u img = [(''cloud.agent_id'', a), (''cloud.username'', u),
     (''cloud.platform_instance'', st_instance st), (''cloud.image_version'', img)]"

definition labels_match :: "(string, string) dict \<Rightarrow> (string, string) dict \<Rightarrow> bool" where
  "labels_match expected labels = list_all (\<lambda>(k, v). map_of labels k = Some v) expected"

definition verify_ownership :: "'d sandbox_setup \<Rightarrow> container_view \<Rightarrow> string \<Rightarrow> string \<Rightarrow> registry \<Rightarrow> unit res" where
  "verify_ownership st c a u reg =
    raise_if (\<not> labels_match (expected_labels st a u (expected_image st a u reg)) (cv_labels c))
      (SandboxOwnershipError (''container label mismatch: '' @ cv_id c))"

definition get_container :: "'d sandbox_setup \<Rightarrow> string \<Rightarrow> 'd \<Rightarrow> container_view option res" where
  "get_container st identifier d = (case d_get (st_docker st) d identifier of
     Inr c \<Rightarrow> Inr c
   | Inl e \<Rightarrow> if is_api_error e \<or> is_os_error e then Inl (SandboxError (''cannot inspect Docker container '' @ identifier)) else Inl e)"

definition recorded_container :: "'d sandbox_setup \<Rightarrow> sandbox_row option \<Rightarrow> 'd \<Rightarrow> container_view option res" where
  "recorded_container st record d = (case record of
     Some r \<Rightarrow> (case sb_container r of Some (c # cs) \<Rightarrow> get_container st (c # cs) d | _ \<Rightarrow> Inr None)
   | None \<Rightarrow> Inr None)"

definition find_existing ::
  "'d sandbox_setup \<Rightarrow> sandbox_row option \<Rightarrow> string \<Rightarrow> string \<Rightarrow> ('d, 'x) sandbox_world_scheme \<Rightarrow> container_view option res" where
  "find_existing st record a u s =
    ebind (recorded_container st record (sw_docker s)) (\<lambda>found.
    ebind (case found of Some c \<Rightarrow> Inr (Some c) | None \<Rightarrow> get_container st (container_name st a u) (sw_docker s)) (\<lambda>found.
    ebind (case found of Some c \<Rightarrow> verify_ownership st c a u (sw_reg s) | None \<Rightarrow> Inr ()) (\<lambda>_. Inr found)))"

definition inspect :: "'d sandbox_setup \<Rightarrow> string \<Rightarrow> string \<Rightarrow> ('d, 'x) sandbox_world_scheme \<Rightarrow> endpoint option res" where
  "inspect st a u s = (case get_sandbox a u (sw_reg s) of
     None \<Rightarrow> Inr None
   | Some r \<Rightarrow>
      ebind (recorded_container st (Some r) (sw_docker s)) (\<lambda>found.
      case found of None \<Rightarrow> Inr None
      | Some c0 \<Rightarrow> ebind (d_reload (st_docker st) (sw_docker s) c0) (\<lambda>c.
          ebind (verify_ownership st c a u (sw_reg s)) (\<lambda>_.
          if cv_status c \<noteq> ''running'' then Inr None
          else ebind (endpoint_of st (sb_id r) True c) (\<lambda>ep. Inr (Some ep))))))"

section \<open>Waiting until it is ready\<close>

text \<open>Which exceptions of a poll round only postpone the answer.\<close>

definition retried :: "exc \<Rightarrow> bool" where
  "retried e \<longleftrightarrow> (case e of HTTPError _ \<Rightarrow> True | _ \<Rightarrow> is_sandbox_error e \<or> is_value_error e)"

definition poll_round_result :: "'d sandbox_setup \<Rightarrow> string \<Rightarrow> bool \<Rightarrow> container_view \<Rightarrow> json res \<Rightarrow> endpoint option res" where
  "poll_round_result st sid reused c health =
    ebind (endpoint_of st sid reused c) (\<lambda>ep. ebind health (\<lambda>payload.
    ebind (attr_get payload ''healthy'' JNull) (\<lambda>healthy. ebind (attr_get payload ''version'' JNull) (\<lambda>version.
    Inr (if healthy = JBool True \<and> version = JStr (st_expected_version st) then Some ep else None)))))"

fun poll_ready :: "'d sandbox_setup \<Rightarrow> string \<Rightarrow> bool \<Rightarrow> bool \<Rightarrow> container_view \<Rightarrow> poll_round list \<Rightarrow> endpoint res" where
  "poll_ready st sid reused first c [] = Inl (SandboxNotReadyError sid)"
| "poll_ready st sid reused first c (r # rs) =
    ebind (if first then Inr c else pr_reload r c) (\<lambda>c.
    if cv_status c \<noteq> ''running'' then Inl (SandboxNotReadyError sid)
    else case poll_round_result st sid reused c (pr_health r) of
      Inr (Some ep) \<Rightarrow> Inr ep
    | Inr None \<Rightarrow> poll_ready st sid reused False c rs
    | Inl e \<Rightarrow> if retried e then poll_ready st sid reused False c rs else Inl e)"

definition wait_ready :: "'d sandbox_setup \<Rightarrow> string \<Rightarrow> bool \<Rightarrow> container_view \<Rightarrow> poll_round list \<Rightarrow> endpoint res" where
  "wait_ready st sid reused c rounds = poll_ready st sid reused True c rounds"

section \<open>Creating and removing\<close>

definition remove_owned :: "'d sandbox_setup \<Rightarrow> container_view \<Rightarrow> (('d, 'x) sandbox_world_scheme, unit) sx" where
  "remove_owned st c = sx_catch (sx_then (on_docker (d_remove (st_docker st) (cv_id c))) (sx_return ()))
    (on_exc is_docker_exception (sx_raise (SandboxError (''cannot remove failed sandbox '' @ cv_id c))))"

definition start_container :: "'d sandbox_setup \<Rightarrow> container_view \<Rightarrow> (('d, 'x) sandbox_world_scheme, container_view) sx" where
  "start_container st c = sx_then (on_docker (d_start (st_docker st) (cv_id c)))
    (sx_lift (\<lambda>s. d_reload (st_docker st) (sw_docker s) c))"

text \<open>\<open>int(cpu * 1_000_000_000)\<close> truncates towards zero.\<close>

definition nano_cpus :: "rat \<Rightarrow> int" where
  "nano_cpus cpu = (let x = cpu * 10 ^ 9 in if x < 0 then - \<lfloor>- x\<rfloor> else \<lfloor>x\<rfloor>)"

definition runtime_environment :: "'d sandbox_setup \<Rightarrow> string \<Rightarrow> string \<Rightarrow> (string, string) dict" where
  "runtime_environment st a u =
    [(''XDG_CONFIG_HOME'', ''/opt/agent/global''), (''OPENCODE_DISABLE_AUTOUPDATE'', ''1''),
     (''OPENCODE_DISABLE_MODELS_FETCH'', ''1''), (''OPENCODE_DISABLE_DEFAULT_PLUGINS'', ''1''),
     (''OPENCODE_DISABLE_LSP_DOWNLOAD'', ''1'')]
    @ (case st_model_token st of Some (c # cs) \<Rightarrow> [(''MODEL_GATEWAY_TOKEN'', c # cs)] | _ \<Rightarrow> [])
    @ [(''SANDBOX_ID'', sandbox_id st a u), (''RUNTIME_LOG_DIR'', ''/runtime-log'')]"

definition runtime_logs :: "'d sandbox_setup \<Rightarrow> string \<Rightarrow> string \<Rightarrow> path" where
  "runtime_logs st a u = st_log_root st @ [''agent_runtime'', sandbox_id st a u]"

definition sandbox_binds :: "'d sandbox_setup \<Rightarrow> string \<Rightarrow> string \<Rightarrow> path \<Rightarrow> path \<Rightarrow> path \<Rightarrow> bind_mount list" where
  "sandbox_binds st a u agent_path workspace state =
    [\<lparr>bm_destination = ''/workspace'', bm_source = workspace, bm_rw = True\<rparr>,
     \<lparr>bm_destination = ''/state/opencode'', bm_source = state, bm_rw = True\<rparr>,
     \<lparr>bm_destination = ''/opt/agent'', bm_source = agent_path, bm_rw = False\<rparr>,
     \<lparr>bm_destination = ''/runtime-log'', bm_source = runtime_logs st a u, bm_rw = True\<rparr>]"

text \<open>The limits of a load-test user replace those of the Agent.\<close>

definition effective_limits :: "agent_resources \<Rightarrow> run_resources option \<Rightarrow> (rat \<times> json) res" where
  "effective_limits r test_user = (case test_user of
     None \<Rightarrow> Inr (ar_cpu_limit r, JInt (ar_memory_mb r))
   | Some t \<Rightarrow> (case num_of (rr_cpu_limit t) of
       Some cpu \<Rightarrow> Inr (cpu, rr_memory_mb t) | None \<Rightarrow> Inl (TypeError ''int() argument'')))"

definition spec_of ::
  "'d sandbox_setup \<Rightarrow> agent_definition \<Rightarrow> string \<Rightarrow> string \<Rightarrow> path \<Rightarrow> path \<Rightarrow> path \<Rightarrow> run_resources option \<Rightarrow> container_spec res" where
  "spec_of st d a u agent_path workspace state test_user =
    ebind (effective_limits (ad_resources d) test_user) (\<lambda>(cpu, memory).
    Inr \<lparr>sp_image = ad_image d, sp_name = container_name st a u, sp_environment = runtime_environment st a u,
      sp_labels = expected_labels st a u (ad_image d)
        @ (case test_user of Some t \<Rightarrow> [(''cloud.load_test'', str_of (rr_run_id t))] | None \<Rightarrow> []),
      sp_read_only = st_read_only_rootfs st, sp_cap_drop = [''ALL''], sp_security_opt = [''no-new-privileges:true''],
      sp_tmpfs_mb = st_tmpfs_mb st, sp_binds = sandbox_binds st a u agent_path workspace state,
      sp_port = port_key st, sp_host_ip = ''127.0.0.1'', sp_nano_cpus = nano_cpus cpu, sp_memory_mb = memory,
      sp_pids_limit = ar_pids_limit (ad_resources d), sp_runtime = st_runtime st, sp_privileged = False\<rparr>)"

definition create_container ::
  "'d sandbox_setup \<Rightarrow> sandbox_env \<Rightarrow> agent_definition \<Rightarrow> string \<Rightarrow> string \<Rightarrow> path \<Rightarrow> path \<Rightarrow> path \<Rightarrow>
    (('d, 'x) sandbox_world_scheme, container_view) sx" where
  "create_container st env d a u agent_path workspace state =
    sx_bind (sx_of_res (resources_for (e_create_admission env))) (\<lambda>test_user.
    sx_bind (sx_lift (\<lambda>s. d_image (st_docker st) (sw_docker s) (ad_image d))) (\<lambda>present.
    if present = None then sx_raise (SandboxError (''required image is not present: '' @ ad_image d))
    else if \<not> e_log_dir_ok env then sx_raise (SandboxError ''Invalid runtime log directory'')
    else sx_bind (sx_of_res (spec_of st d a u agent_path workspace state test_user)) (\<lambda>spec.
      on_docker (d_create (st_docker st) spec))))"

definition persist :: "'d sandbox_setup \<Rightarrow> endpoint \<Rightarrow> string \<Rightarrow> string \<Rightarrow> string \<Rightarrow> string \<Rightarrow> (('d, 'x) sandbox_world_scheme, unit) sx" where
  "persist st ep a u status now = sx_bind (sx_lift (\<lambda>s. Inr (expected_image st a u (sw_reg s)))) (\<lambda>img.
     put_sandbox (ep_sandbox ep) a u (Some (ep_container ep)) (Some (ep_host_port ep)) status img now)"

section \<open>Acquiring\<close>

definition route_current :: "sandbox_row option \<Rightarrow> endpoint \<Rightarrow> string \<Rightarrow> bool" where
  "route_current record ep img \<longleftrightarrow> map_option (\<lambda>r. (sb_status r, sb_container r, sb_port r, sb_image r)) record
     = Some (''ready'', Some (ep_container ep), Some (ep_host_port ep), img)"

text \<open>The container found for the owner: started if it stands still, removed if it does not start
  or does not get ready. \<open>None\<close> means a new one is needed.\<close>

definition ensure_running :: "'d sandbox_setup \<Rightarrow> container_view \<Rightarrow> (('d, 'x) sandbox_world_scheme, container_view option) sx" where
  "ensure_running st c =
    (if cv_status c \<noteq> ''running''
     then sx_catch (sx_bind (start_container st c) (\<lambda>c. sx_return (Some c)))
       (on_exc is_docker_exception (sx_then (remove_owned st c) (sx_return None)))
     else sx_return (Some c))"

definition await_reused ::
  "'d sandbox_setup \<Rightarrow> sandbox_env \<Rightarrow> string \<Rightarrow> container_view \<Rightarrow> (('d, 'x) sandbox_world_scheme, endpoint option) sx" where
  "await_reused st env sid c =
    sx_catch (sx_bind (sx_of_res (wait_ready st sid True c (e_reuse_rounds env))) (\<lambda>ep. sx_return (Some ep)))
      (on_exc is_not_ready (sx_then (remove_owned st c) (sx_return None)))"

definition route_reused ::
  "'d sandbox_setup \<Rightarrow> sandbox_env \<Rightarrow> string \<Rightarrow> string \<Rightarrow> string \<Rightarrow> sandbox_row option \<Rightarrow> endpoint \<Rightarrow> (('d, 'x) sandbox_world_scheme, endpoint option) sx" where
  "route_reused st env img a u record ep =
    sx_then (if \<not> route_current record ep img then persist st ep a u ''ready'' (e_clock env) else sx_return ()) (sx_return (Some ep))"

definition reuse_container ::
  "'d sandbox_setup \<Rightarrow> sandbox_env \<Rightarrow> string \<Rightarrow> string \<Rightarrow> string \<Rightarrow> sandbox_row option \<Rightarrow> container_view \<Rightarrow>
    (('d, 'x) sandbox_world_scheme, endpoint option) sx" where
  "reuse_container st env img a u record c =
    sx_then (sx_lift (\<lambda>s. verify_ownership st c a u (sw_reg s)))
    (sx_bind (ensure_running st c) (\<lambda>running. case running of None \<Rightarrow> sx_return None | Some c \<Rightarrow>
     sx_bind (await_reused st env (sandbox_id st a u) c) (\<lambda>ready. case ready of None \<Rightarrow> sx_return None | Some ep \<Rightarrow>
       route_reused st env img a u record ep)))"

text \<open>A new container, and what is undone when it does not get ready: the exceptions of the
  \<open>except\<close> clause remove it and mark the row failed; others pass.\<close>

definition creation_failure :: "exc \<Rightarrow> bool" where
  "creation_failure e \<longleftrightarrow> is_docker_exception e \<or> is_sandbox_error e \<or> is_os_error e"

definition undo_creation ::
  "'d sandbox_setup \<Rightarrow> sandbox_env \<Rightarrow> string \<Rightarrow> string \<Rightarrow> string \<Rightarrow> container_view option \<Rightarrow> exc \<Rightarrow>
    (('d, 'x) sandbox_world_scheme, endpoint) sx" where
  "undo_creation st env img a u created e =
    sx_then (case created of Some c \<Rightarrow> remove_owned st c | None \<Rightarrow> sx_return ())
    (sx_then (put_sandbox (sandbox_id st a u) a u None None ''failed'' img (e_clock env))
     (sx_raise (if is_sandbox_error e then e else SandboxError (''failed to create sandbox '' @ sandbox_id st a u))))"

definition start_created ::
  "'d sandbox_setup \<Rightarrow> sandbox_env \<Rightarrow> string \<Rightarrow> string \<Rightarrow> container_view \<Rightarrow> (('d, 'x) sandbox_world_scheme, endpoint) sx" where
  "start_created st env a u c =
    sx_bind (start_container st c) (\<lambda>c.
    sx_bind (sx_of_res (wait_ready st (sandbox_id st a u) False c (e_create_rounds env))) (\<lambda>ep.
    sx_then (persist st ep a u ''ready'' (e_clock env)) (sx_return ep)))"

definition catch_failed ::
  "'d sandbox_setup \<Rightarrow> sandbox_env \<Rightarrow> string \<Rightarrow> string \<Rightarrow> string \<Rightarrow> container_view option \<Rightarrow>
    (('d, 'x) sandbox_world_scheme, 'a) sx \<Rightarrow> ('a \<Rightarrow> (('d, 'x) sandbox_world_scheme, endpoint) sx) \<Rightarrow> (('d, 'x) sandbox_world_scheme, endpoint) sx" where
  "catch_failed st env img a u created m next = (\<lambda>s. case m s of
     (Inr x, s') \<Rightarrow> next x s'
   | (Inl e, s') \<Rightarrow> if creation_failure e then undo_creation st env img a u created e s' else (Inl e, s'))"

definition create_sandbox ::
  "'d sandbox_setup \<Rightarrow> sandbox_env \<Rightarrow> agent_definition \<Rightarrow> string \<Rightarrow> string \<Rightarrow> path \<times> path \<Rightarrow> (('d, 'x) sandbox_world_scheme, endpoint) sx" where
  "create_sandbox st env d a u layout =
    sx_then (put_sandbox (sandbox_id st a u) a u None None ''creating'' (ad_image d) (e_clock env))
    (catch_failed st env (ad_image d) a u None (create_container st env d a u (ad_path d) (fst layout) (snd layout)) (\<lambda>c.
     catch_failed st env (ad_image d) a u (Some c) (start_created st env a u c) sx_return))"

text \<open>The workspace is allocated and Docker asked side by side; the first error in that order counts.\<close>

definition acquire_locked :: "'d sandbox_setup \<Rightarrow> sandbox_env \<Rightarrow> string \<Rightarrow> string \<Rightarrow> (('d, 'x) sandbox_world_scheme, endpoint) sx" where
  "acquire_locked st env a u =
    sx_bind (load (st_catalog st) (e_catalog env) a) (\<lambda>d.
    sx_then (on_registry (upsert_agent a (''/'' @ join_with ''/'' (ad_path d)) (ad_image d) True (e_clock env)))
    (sx_bind (sx_of_res (e_layout env)) (\<lambda>layout.
     sx_bind (sx_lift (\<lambda>s. Inr (get_sandbox a u (sw_reg s)))) (\<lambda>record.
     sx_bind (sx_lift (find_existing st record a u)) (\<lambda>found.
     sx_bind (case found of None \<Rightarrow> sx_return None | Some c \<Rightarrow> reuse_container st env (ad_image d) a u record c) (\<lambda>reused.
     case reused of Some ep \<Rightarrow> sx_return ep | None \<Rightarrow> create_sandbox st env d a u layout))))))"

text \<open>\<open>others1\<close> and \<open>others2\<close> are what other tasks do while the request waits for the user's lock and
  for the answer of the operations service.\<close>

definition acquire ::
  "'d sandbox_setup \<Rightarrow> sandbox_env \<Rightarrow> (('d, 'x) sandbox_world_scheme \<Rightarrow> ('d, 'x) sandbox_world_scheme) \<Rightarrow>
    (('d, 'x) sandbox_world_scheme \<Rightarrow> ('d, 'x) sandbox_world_scheme) \<Rightarrow> string \<Rightarrow> string \<Rightarrow>
    (('d, 'x) sandbox_world_scheme, endpoint) sx" where
  "acquire st env others1 others2 a u =
    sx_then (sx_lift (\<lambda>s. check_acquire_local (sw_blocked s) a))
    (sx_then (sx_modify others1)
    (sx_then (sx_lift (\<lambda>s. check_acquire_local (sw_blocked s) a))
    (sx_then (sx_of_res (resources_for (e_admission env)))
    (sx_then (sx_modify others2)
    (sx_then (sx_lift (\<lambda>s. check_acquire_local (sw_blocked s) a))
    (sx_bind (acquire_locked st env a u) (\<lambda>ep.
     sx_then (sx_modify (\<lambda>s. s\<lparr>sw_in_use := dput (ep_sandbox ep) (dget (sw_in_use s) (ep_sandbox ep) 0 + 1) (sw_in_use s)\<rparr>))
     (sx_return ep))))))))"

text \<open>\<open>touch\<close> is the outcome of writing the idle time, which the last lease does before it ends.\<close>

definition release :: "endpoint \<Rightarrow> bool \<Rightarrow> unit res \<Rightarrow> string \<Rightarrow> (('d, 'x) sandbox_world_scheme, unit) sx" where
  "release ep activity_persisted touch now = (\<lambda>s.
    let sid = ep_sandbox ep; count = dget (sw_in_use s) sid 0 in
    if 1 < count then (Inr (), s\<lparr>sw_in_use := dput sid (count - 1) (sw_in_use s)\<rparr>)
    else sx_finally
      (if activity_persisted then sx_return ()
       else sx_then (sx_of_res touch) (on_registry (touch_sandbox sid now)))
      (sx_modify (\<lambda>s. let remaining = dget (sw_in_use s) sid 0 - 1 in
         s\<lparr>sw_in_use := (if 0 < remaining then dput sid remaining (sw_in_use s) else dpop sid (sw_in_use s))\<rparr>)) s)"

section \<open>What Docker documents\<close>

definition same_container :: "container_view \<Rightarrow> container_view \<Rightarrow> bool" where
  "same_container c c' \<longleftrightarrow> cv_id c' = cv_id c \<and> cv_labels c' = cv_labels c"

text \<open>A created container has the labels it was created with, and reloading a container does not
  make it another one.\<close>

definition docker_faithful :: "'d docker \<Rightarrow> sandbox_env \<Rightarrow> bool" where
  "docker_faithful dk env \<longleftrightarrow>
     (\<forall>spec d c d'. d_create dk spec d = (Inr c, d') \<longrightarrow> map_of (sp_labels spec) \<subseteq>\<^sub>m map_of (cv_labels c))
   \<and> (\<forall>d c c'. d_reload dk d c = Inr c' \<longrightarrow> same_container c c')
   \<and> (\<forall>r \<in> set (e_reuse_rounds env @ e_create_rounds env). \<forall>c c'. pr_reload r c = Inr c' \<longrightarrow> same_container c c')"

lemma same_container_refl [simp]: "same_container c c"
  by (simp add: same_container_def)

lemma same_container_trans: "same_container a b \<Longrightarrow> same_container b c \<Longrightarrow> same_container a c"
  by (simp add: same_container_def)

section \<open>What an acquired endpoint is\<close>

text \<open>The endpoint of a running container of this owner on the loopback interface, whose health
  endpoint answered with the expected version.\<close>

definition healthy_payload :: "'d sandbox_setup \<Rightarrow> json \<Rightarrow> bool" where
  "healthy_payload st v \<longleftrightarrow> is_JObj v \<and> jget (obj_of v) ''healthy'' = JBool True
     \<and> jget (obj_of v) ''version'' = JStr (st_expected_version st)"

definition polled :: "poll_round list \<Rightarrow> container_view \<Rightarrow> container_view \<Rightarrow> bool" where
  "polled rounds c c' \<longleftrightarrow> c' = c \<or> (\<exists>r \<in> set rounds. \<exists>c0. same_container c c0 \<and> pr_reload r c0 = Inr c')"

definition ready_in :: "'d sandbox_setup \<Rightarrow> string \<Rightarrow> container_view \<Rightarrow> poll_round list \<Rightarrow> endpoint \<Rightarrow> bool" where
  "ready_in st sid c rounds ep \<longleftrightarrow> (\<exists>c' payload. same_container c c' \<and> polled rounds c c' \<and> cv_status c' = ''running''
     \<and> endpoint_of st sid (ep_reused ep) c' = Inr ep \<and> Inr payload \<in> pr_health ` set rounds \<and> healthy_payload st payload)"

lemma attr_get_Inr: "attr_get v k dflt = Inr x \<longleftrightarrow> (\<exists>d. v = JObj d \<and> x = dget d k dflt)"
  by (auto simp: attr_get_def split: json.splits)

lemma poll_round_ready:
  assumes "poll_round_result st sid reused c h = Inr (Some ep)"
  shows "endpoint_of st sid reused c = Inr ep \<and> ep_reused ep = reused \<and> (\<exists>payload. h = Inr payload \<and> healthy_payload st payload)"
proof -
  from assms obtain payload where "endpoint_of st sid reused c = Inr ep" "h = Inr payload" "healthy_payload st payload"
    by (auto simp: poll_round_result_def exc_simps attr_get_Inr healthy_payload_def jget_def split: if_splits)
  moreover then have "ep_reused ep = reused"
    by (auto simp: endpoint_of_def exc_simps split: option.splits list.splits if_splits)
  ultimately show ?thesis by blast
qed

lemma poll_ready_Inr:
  assumes "poll_ready st sid reused first c rounds = Inr ep"
    and "\<And>r c c'. r \<in> set rounds \<Longrightarrow> pr_reload r c = Inr c' \<Longrightarrow> same_container c c'"
  shows "ready_in st sid c rounds ep"
  using assms
proof (induction st sid reused first c rounds rule: poll_ready.induct)
  case (1 st sid reused first c)
  then show ?case by simp
next
  case (2 st sid reused first c r rs)
  from "2.prems"(1) obtain c1 where c1: "(if first then Inr c else pr_reload r c) = Inr c1" and run: "cv_status c1 = ''running''"
    by (auto simp: exc_simps split: if_splits)
  have same: "same_container c c1" using c1 "2.prems"(2) [of r c c1] by (cases first) auto
  have first_or: "c1 = c \<or> pr_reload r c = Inr c1" using c1 by (cases first) auto
  have later: "ready_in st sid c (r # rs) ep" if "poll_ready st sid reused False c1 rs = Inr ep"
    "ready_in st sid c1 rs ep"
    using that(2) same first_or unfolding ready_in_def polled_def
    by (elim exE conjE, intro exI conjI) (auto intro: same_container_trans)
  show ?case
  proof (cases "poll_round_result st sid reused c1 (pr_health r)")
    case (Inl e)
    then have n: "poll_ready st sid reused False c1 rs = Inr ep" "retried e" using "2.prems"(1) c1 run by (auto split: if_splits)
    have "ready_in st sid c1 rs ep" by (rule "2.IH"(1) [OF c1 _ Inl n(2,1)]) (use run "2.prems"(2) in auto)
    with later n(1) show ?thesis by blast
  next
    case (Inr x)
    show ?thesis
    proof (cases x)
      case None
      then have n: "poll_ready st sid reused False c1 rs = Inr ep" using "2.prems"(1) c1 run Inr by auto
      have "ready_in st sid c1 rs ep" by (rule "2.IH"(2) [OF c1 _ Inr None n]) (use run "2.prems"(2) in auto)
      with later n(1) show ?thesis by blast
    next
      case (Some e)
      then have "e = ep" using "2.prems"(1) c1 run Inr by auto
      with Some Inr poll_round_ready [of st sid reused c1 "pr_health r" ep] same run first_or show ?thesis
        unfolding ready_in_def polled_def by force
    qed
  qed
qed

text \<open>The registry holds the sandbox of the owner as ready at this endpoint.\<close>

definition routed :: "string \<Rightarrow> string \<Rightarrow> endpoint \<Rightarrow> registry \<Rightarrow> bool" where
  "routed a u ep reg \<longleftrightarrow> (\<exists>row. get_sandbox a u reg = Some row \<and> sb_status row = ''ready''
     \<and> sb_container row = Some (ep_container ep) \<and> sb_port row = Some (ep_host_port ep))"

lemma upsert_sandbox_lookup:
  assumes "upsert_sandbox sid a u c p status img now reg = Inr (row, reg')"
  shows "get_sandbox a u reg' = Some row \<and> sb_container row = c \<and> sb_port row = p \<and> sb_status row = status \<and> sb_image row = img"
proof (cases "get_sandbox a u reg")
  case None
  note new = upsert_sandbox_new [OF assms None]
  from assms None have "sb_container row = c \<and> sb_port row = p \<and> sb_status row = status \<and> sb_image row = img"
    by (auto simp: upsert_sandbox_def Let_def split: if_splits)
  moreover have "get_sandbox a u reg' = Some row"
    using None new(1,3) by (simp add: get_sandbox_def find_row_append)
  ultimately show ?thesis by blast
next
  case (Some old)
  note upd = upsert_sandbox_old [OF assms Some]
  have "get_sandbox a u reg' = Some row"
    using Some by (simp add: upd(2,3) get_sandbox_def owner_update.lookup_update)
  then show ?thesis by (simp add: upd(2) set_sandbox_row_def)
qed

text \<open>Where the container comes from: Docker answered with it when it was asked for the container the row
  names or for the owner's container name, or it was just created under that name with the owner's labels.\<close>

definition looked_up :: "'d sandbox_setup \<Rightarrow> string \<Rightarrow> string \<Rightarrow> ('d, 'x) sandbox_world_scheme \<Rightarrow> container_view \<Rightarrow> bool" where
  "looked_up st a u s0 c \<longleftrightarrow> (\<exists>name. d_get (st_docker st) (sw_docker s0) name = Inr (Some c)
     \<and> (name = container_name st a u \<or> (\<exists>row. get_sandbox a u (sw_reg s0) = Some row \<and> sb_container row = Some name)))"

definition created_for :: "'d sandbox_setup \<Rightarrow> string \<Rightarrow> string \<Rightarrow> string \<Rightarrow> container_view \<Rightarrow> bool" where
  "created_for st a u img c \<longleftrightarrow> (\<exists>spec d d'. d_create (st_docker st) spec d = (Inr c, d')
     \<and> sp_name spec = container_name st a u \<and> sp_image spec = img
     \<and> labels_match (expected_labels st a u img) (sp_labels spec))"

definition reloaded :: "'d docker \<Rightarrow> container_view \<Rightarrow> container_view \<Rightarrow> bool" where
  "reloaded dk c c1 \<longleftrightarrow> c1 = c \<or> (\<exists>d. d_reload dk d c = Inr c1)"

text \<open>What holds when an acquisition that looked Docker up in \<open>s0\<close> returns an endpoint in \<open>s\<close>: the owner's row
  is ready at this endpoint, and the endpoint is read off the container Docker supplied, which carries the
  owner's labels with the image of that row.\<close>

definition acquired ::
  "'d sandbox_setup \<Rightarrow> sandbox_env \<Rightarrow> string \<Rightarrow> string \<Rightarrow> endpoint \<Rightarrow> ('d, 'x) sandbox_world_scheme \<Rightarrow>
    ('d, 'x) sandbox_world_scheme \<Rightarrow> bool" where
  "acquired st env a u ep s0 s \<longleftrightarrow> routed a u ep (sw_reg s)
     \<and> (\<exists>row c c1. get_sandbox a u (sw_reg s) = Some row
          \<and> (if ep_reused ep then looked_up st a u s0 c else created_for st a u (sb_image row) c)
          \<and> labels_match (expected_labels st a u (sb_image row)) (cv_labels c)
          \<and> reloaded (st_docker st) c c1 \<and> ep_container ep = cv_id c
          \<and> ready_in st (sandbox_id st a u) c1 (e_reuse_rounds env @ e_create_rounds env) ep)"

lemma on_docker_reg: "on_docker m s = (r, s') \<Longrightarrow> sw_reg s' = sw_reg s \<and> s' = s\<lparr>sw_docker := sw_docker s'\<rparr>"
  by (auto simp: on_docker_def split: prod.splits)

lemma start_container_Inr:
  assumes "start_container st c s = (Inr c', s')" and "docker_faithful (st_docker st) env"
  shows "sw_reg s' = sw_reg s" "same_container c c'" "reloaded (st_docker st) c c'"
  using assms by (auto simp: start_container_def sx_outcome_simps docker_faithful_def reloaded_def dest: on_docker_reg)

lemma put_sandbox_Inr:
  "put_sandbox sid a u c p status img now s = (Inr x, s') \<Longrightarrow>
    \<exists>row reg. upsert_sandbox sid a u c p status img now (sw_reg s) = Inr (row, reg) \<and> s' = s\<lparr>sw_reg := reg\<rparr>"
  by (auto simp: put_sandbox_def split: sum.splits)

lemma persist_row:
  "persist st ep a u ''ready'' now s = (Inr x, s') \<Longrightarrow> routed a u ep (sw_reg s')
    \<and> (\<exists>row. get_sandbox a u (sw_reg s') = Some row \<and> sb_image row = expected_image st a u (sw_reg s))"
  by (auto simp: persist_def sx_outcome_simps routed_def dest!: put_sandbox_Inr upsert_sandbox_lookup)

lemma ensure_running_Inr:
  assumes "ensure_running st c s = (Inr (Some c1), s1)" and "docker_faithful (st_docker st) env"
  shows "sw_reg s1 = sw_reg s \<and> same_container c c1 \<and> reloaded (st_docker st) c c1"
  using assms
  by (auto simp: ensure_running_def sx_catch_Inr sx_outcome_simps start_container_Inr split: if_splits)
    (simp add: reloaded_def)

lemma await_reused_Inr:
  "await_reused st env sid c s = (Inr (Some ep), s') \<Longrightarrow> wait_ready st sid True c (e_reuse_rounds env) = Inr ep \<and> s' = s"
  by (auto simp: await_reused_def sx_catch_Inr sx_outcome_simps)

lemma route_reused_Inr:
  assumes "route_reused st env img a u (get_sandbox a u (sw_reg s)) ep s = (Inr (Some ep'), s')"
  shows "ep' = ep \<and> routed a u ep (sw_reg s')
    \<and> (\<exists>row. get_sandbox a u (sw_reg s') = Some row \<and> sb_image row = expected_image st a u (sw_reg s))"
proof (cases "route_current (get_sandbox a u (sw_reg s)) ep img")
  case True
  with assms have "ep' = ep" "s' = s" by (simp_all add: route_reused_def sx_outcome_simps)
  with True show ?thesis by (auto simp: route_current_def routed_def expected_image_def)
next
  case False
  with assms persist_row [of st ep a u "e_clock env" s "()" s'] show ?thesis
    by (auto simp: route_reused_def sx_outcome_simps)
qed

lemma ready_in_rounds:
  assumes "ready_in st sid c rs ep" and "set rs \<subseteq> set rs'"
  shows "ready_in st sid c rs' ep"
proof -
  from assms(1) obtain c' payload where c: "same_container c c'" "polled rs c c'" "cv_status c' = ''running''"
    "endpoint_of st sid (ep_reused ep) c' = Inr ep" "Inr payload \<in> pr_health ` set rs" "healthy_payload st payload"
    unfolding ready_in_def by blast
  moreover have "polled rs' c c'" using c(2) assms(2) unfolding polled_def by blast
  ultimately show ?thesis using assms(2) unfolding ready_in_def by blast
qed

lemma endpoint_of_fields: "endpoint_of st sid reused c = Inr ep \<Longrightarrow> ep_container ep = cv_id c \<and> ep_sandbox ep = sid"
  by (auto simp: endpoint_of_def exc_simps split: option.splits list.splits if_splits)

lemma ready_in_endpoint: "ready_in st sid c rs ep \<Longrightarrow> ep_container ep = cv_id c \<and> ep_sandbox ep = sid"
  by (auto simp: ready_in_def same_container_def dest!: endpoint_of_fields)

lemma wait_ready_Inr:
  assumes "wait_ready st sid reused c rounds = Inr ep" and "docker_faithful (st_docker st) env"
    and "set rounds \<subseteq> set (e_reuse_rounds env @ e_create_rounds env)"
  shows "ready_in st sid c (e_reuse_rounds env @ e_create_rounds env) ep"
proof (rule ready_in_rounds [OF _ assms(3)])
  show "ready_in st sid c rounds ep"
  proof (rule poll_ready_Inr)
    show "poll_ready st sid reused True c rounds = Inr ep" using assms(1) by (simp add: wait_ready_def)
    show "same_container c c'" if "r \<in> set rounds" "pr_reload r c = Inr c'" for r c c'
    proof -
      from that(1) assms(3) have "r \<in> set (e_reuse_rounds env @ e_create_rounds env)" by blast
      with assms(2) that(2) show ?thesis unfolding docker_faithful_def by blast
    qed
  qed
qed

lemma poll_ready_reused: "poll_ready st sid reused first c rounds = Inr ep \<Longrightarrow> ep_reused ep = reused"
  by (induction st sid reused first c rounds rule: poll_ready.induct)
    (auto simp: exc_simps dest: poll_round_ready split: if_splits sum.splits option.splits)

lemma reuse_acquired:
  assumes faithful: "docker_faithful (st_docker st) env"
    and found: "looked_up st a u s0 c"
    and run: "reuse_container st env img a u (get_sandbox a u (sw_reg s)) c s = (Inr (Some ep), s')"
  shows "ep_reused ep \<Longrightarrow> acquired st env a u ep s0 s'" "ep_reused ep"
proof -
  from run obtain running s1 where own: "verify_ownership st c a u (sw_reg s) = Inr ()"
    and er: "ensure_running st c s = (Inr running, s1)"
    and rest: "(case running of None \<Rightarrow> sx_return None | Some c \<Rightarrow>
     sx_bind (await_reused st env (sandbox_id st a u) c) (\<lambda>ready. case ready of None \<Rightarrow> sx_return None | Some ep \<Rightarrow>
       route_reused st env img a u (get_sandbox a u (sw_reg s)) ep)) s1 = (Inr (Some ep), s')"
    unfolding reuse_container_def sx_then_Inr sx_bind_Inr sx_lift_Inr by auto
  from rest obtain c1 where c1: "running = Some c1" by (cases running) (auto simp: sx_return_Inr)
  note same = ensure_running_Inr [OF er [unfolded c1] faithful]
  from rest c1 obtain ready s2 where aw: "await_reused st env (sandbox_id st a u) c1 s1 = (Inr ready, s2)"
    and rest2: "(case ready of None \<Rightarrow> sx_return None | Some ep \<Rightarrow>
       route_reused st env img a u (get_sandbox a u (sw_reg s)) ep) s2 = (Inr (Some ep), s')"
    by (auto simp: sx_bind_Inr)
  from rest2 obtain ep1 where ep1: "ready = Some ep1" by (cases ready) (auto simp: sx_return_Inr)
  note wait = await_reused_Inr [OF aw [unfolded ep1]]
  have "route_reused st env img a u (get_sandbox a u (sw_reg s2)) ep1 s2 = (Inr (Some ep), s')"
    using rest2 ep1 wait same by simp
  from route_reused_Inr [OF this] wait same have r: "ep = ep1" "routed a u ep (sw_reg s')"
    "\<exists>row. get_sandbox a u (sw_reg s') = Some row \<and> sb_image row = expected_image st a u (sw_reg s)" by simp_all
  have ready: "ready_in st (sandbox_id st a u) c1 (e_reuse_rounds env @ e_create_rounds env) ep"
    by (rule wait_ready_Inr [OF _ faithful]) (use wait r(1) in auto)
  have "ep_container ep = cv_id c" using ready_in_endpoint [OF ready] same by (simp add: same_container_def)
  moreover have "labels_match (expected_labels st a u (expected_image st a u (sw_reg s))) (cv_labels c)"
    using own by (simp add: verify_ownership_def)
  moreover from r(3) obtain row where "get_sandbox a u (sw_reg s') = Some row" "sb_image row = expected_image st a u (sw_reg s)" by blast
  ultimately show "acquired st env a u ep s0 s'" if "ep_reused ep"
    using r(2) same ready found that unfolding acquired_def by metis
  show "ep_reused ep" using wait r(1) by (auto simp: wait_ready_def dest!: poll_ready_reused)
qed

lemma undo_creation_raises: "undo_creation st env img a u created e s \<noteq> (Inr ep, s')"
  by (auto simp: undo_creation_def sx_outcome_simps)

lemma catch_failed_Inr:
  "catch_failed st env img a u created m next s = (Inr ep, s') \<longleftrightarrow> (\<exists>x s1. m s = (Inr x, s1) \<and> next x s1 = (Inr ep, s'))"
  by (auto simp: catch_failed_def undo_creation_raises split: prod.splits sum.splits)

lemma create_container_labels:
  assumes "create_container st env d a u p w sd s = (Inr c, s')" and "docker_faithful (st_docker st) env"
  shows "labels_match (expected_labels st a u (ad_image d)) (cv_labels c)" "created_for st a u (ad_image d) c" "sw_reg s' = sw_reg s"
proof -
  from assms(1) obtain t spec where spec: "spec_of st d a u p w sd t = Inr spec"
    and c: "on_docker (d_create (st_docker st) spec) s = (Inr c, s')"
    by (auto simp: create_container_def sx_outcome_simps split: if_splits)
  from c obtain dd where dd: "d_create (st_docker st) spec (sw_docker s) = (Inr c, dd)"
    by (auto simp: on_docker_def split: prod.splits)
  with assms(2) have "map_of (sp_labels spec) \<subseteq>\<^sub>m map_of (cv_labels c)" unfolding docker_faithful_def by blast
  moreover from spec obtain extra where l: "sp_labels spec = expected_labels st a u (ad_image d) @ extra"
    and n: "sp_name spec = container_name st a u" "sp_image spec = ad_image d"
    by (auto simp: spec_of_def exc_simps split: prod.splits)
  ultimately show "labels_match (expected_labels st a u (ad_image d)) (cv_labels c)"
    by (simp add: labels_match_def expected_labels_def map_le_def dom_def)
  have "labels_match (expected_labels st a u (ad_image d)) (sp_labels spec)"
    by (simp add: l labels_match_def expected_labels_def)
  with dd n show "created_for st a u (ad_image d) c" unfolding created_for_def by blast
  show "sw_reg s' = sw_reg s" using on_docker_reg [OF c] by simp
qed

lemma create_acquired:
  assumes faithful: "docker_faithful (st_docker st) env" and run: "create_sandbox st env d a u layout s = (Inr ep, s')"
  shows "acquired st env a u ep s0 s'"
proof -
  from run obtain x s1 s2 c where put: "put_sandbox (sandbox_id st a u) a u None None ''creating'' (ad_image d) (e_clock env) s = (Inr x, s1)"
    and c: "create_container st env d a u (ad_path d) (fst layout) (snd layout) s1 = (Inr c, s2)"
    and start: "start_created st env a u c s2 = (Inr ep, s')"
    by (auto simp: create_sandbox_def sx_then_Inr catch_failed_Inr sx_return_Inr)
  from start obtain c1 s3 where c1: "start_container st c s2 = (Inr c1, s3)"
    and wait: "wait_ready st (sandbox_id st a u) False c1 (e_create_rounds env) = Inr ep"
    and pe: "persist st ep a u ''ready'' (e_clock env) s3 = (Inr (), s')"
    by (auto simp: start_created_def sx_outcome_simps)
  note made = create_container_labels [OF c faithful] and begun = start_container_Inr [OF c1 faithful]
  have "expected_image st a u (sw_reg s1) = ad_image d"
    using put_sandbox_Inr [OF put] by (auto simp: expected_image_def dest!: upsert_sandbox_lookup)
  with persist_row [OF pe] begun(1) made(3)
  have row: "routed a u ep (sw_reg s')" "\<exists>row. get_sandbox a u (sw_reg s') = Some row \<and> sb_image row = ad_image d"
    by simp_all
  have ready: "ready_in st (sandbox_id st a u) c1 (e_reuse_rounds env @ e_create_rounds env) ep"
    by (rule wait_ready_Inr [OF wait faithful]) simp
  have "\<not> ep_reused ep" using poll_ready_reused [OF wait [unfolded wait_ready_def]] by simp
  moreover have "ep_container ep = cv_id c" using ready_in_endpoint [OF ready] begun(2) by (simp add: same_container_def)
  ultimately show ?thesis using row made(1,2) begun(3) ready unfolding acquired_def by metis
qed

lemma load_keeps: "load su an a s = (r, t) \<Longrightarrow> sw_reg t = sw_reg s \<and> sw_docker t = sw_docker s"
proof -
  let ?I = "\<lambda>t. sw_reg t = sw_reg s \<and> sw_docker t = sw_docker s"
  have "keeps ?I (authoritative su an a)" by (rule tripleI) (auto elim!: authoritative_grows)
  then have "keeps ?I (load su an a)"
    unfolding load_def by (intro step_rules) (auto split: option.split intro: step_rules)
  then show "load su an a s = (r, t) \<Longrightarrow> ?thesis" using keepsD [of ?I "load su an a" s r t] by simp
qed

lemma found_looked_up:
  assumes "find_existing st (get_sandbox a u (sw_reg s)) a u s = Inr (Some c)"
  shows "looked_up st a u s c"
  using assms
  by (auto simp: find_existing_def recorded_container_def get_container_def exc_simps looked_up_def
      split: option.splits list.splits sum.splits if_splits)

lemma acquire_locked_acquired:
  assumes faithful: "docker_faithful (st_docker st) env" and run: "acquire_locked st env a u s = (Inr ep, s')"
  shows "acquired st env a u ep s s'"
proof -
  from run obtain d s0 x s1 layout found where ld: "load (st_catalog st) (e_catalog env) a s = (Inr d, s0)"
    and ag: "on_registry (upsert_agent a (''/'' @ join_with ''/'' (ad_path d)) (ad_image d) True (e_clock env)) s0 = (Inr x, s1)"
    and found: "find_existing st (get_sandbox a u (sw_reg s1)) a u s1 = Inr found"
    and rest: "sx_bind (case found of None \<Rightarrow> sx_return None
        | Some c \<Rightarrow> reuse_container st env (ad_image d) a u (get_sandbox a u (sw_reg s1)) c) (\<lambda>reused.
      case reused of Some ep \<Rightarrow> sx_return ep | None \<Rightarrow> create_sandbox st env d a u layout) s1 = (Inr ep, s')"
    unfolding acquire_locked_def sx_bind_Inr sx_then_Inr sx_of_res_Inr sx_lift_Inr by blast
  have same: "sw_docker s1 = sw_docker s" "get_sandbox a u (sw_reg s1) = get_sandbox a u (sw_reg s)"
    using load_keeps [OF ld] ag by (auto simp: on_registry_def sx_modify_def get_sandbox_def upsert_agent_def split: option.splits)
  from rest obtain reused s2 where reuse: "(case found of None \<Rightarrow> sx_return None
        | Some c \<Rightarrow> reuse_container st env (ad_image d) a u (get_sandbox a u (sw_reg s1)) c) s1 = (Inr reused, s2)"
    and final: "(case reused of Some ep \<Rightarrow> sx_return ep | None \<Rightarrow> create_sandbox st env d a u layout) s2 = (Inr ep, s')"
    unfolding sx_bind_Inr by blast
  show ?thesis
  proof (cases reused)
    case None
    with final show ?thesis by (auto intro: create_acquired [OF faithful])
  next
    case (Some e)
    with final have e: "e = ep" "s2 = s'" by (simp_all add: sx_return_Inr)
    moreover from reuse Some obtain c where c: "found = Some c" by (cases found) (auto simp: sx_return_Inr)
    have "looked_up st a u s1 c" using found_looked_up [of st a u s1 c] found c by simp
    then have "looked_up st a u s c" using same by (simp add: looked_up_def)
    from reuse_acquired [OF faithful this] reuse Some c e show ?thesis by simp
  qed
qed

section \<open>What acquiring can touch\<close>

lemma keeps_option_case [step_rules]:
  "(x = None \<Longrightarrow> keeps I m) \<Longrightarrow> (\<And>y. x = Some y \<Longrightarrow> keeps I (f y)) \<Longrightarrow> keeps I (case x of None \<Rightarrow> m | Some y \<Rightarrow> f y)"
  by (cases x) auto

lemma keeps_catch_failed:
  assumes "keeps I m" and "\<And>x. keeps I (next x)" and "\<And>e. keeps I (undo_creation st env img a u created e)"
  shows "keeps I (catch_failed st env img a u created m next)"
proof (rule tripleI)
  have "I t" if i: "I s" and r: "catch_failed st env img a u created m next s = (r, t)" for s r t
  proof -
    obtain r1 s1 where m: "m s = (r1, s1)" by fastforce
    have "I s1" by (rule keepsD [OF assms(1) i m])
    with r m show ?thesis
      by (cases r1) (auto simp: catch_failed_def split: if_splits intro: keepsD [OF assms(2)] keepsD [OF assms(3)])
  qed
  then show "\<And>s x t. I s \<Longrightarrow> catch_failed st env img a u created m next s = (Inr x, t) \<Longrightarrow> I t"
    "\<And>s e t. I s \<Longrightarrow> catch_failed st env img a u created m next s = (Inl e, t) \<Longrightarrow> I t" by blast+
qed

text \<open>A property of the state that the daemon, new bundles and the two upserts leave alone is an
  invariant of every step of an acquisition, whether it returns or raises.\<close>

locale acquire_frame =
  fixes I :: "('d, 'x) sandbox_world_scheme \<Rightarrow> bool"
  assumes docker: "I s \<Longrightarrow> I (s\<lparr>sw_docker := d\<rparr>)"
    and cache: "I s \<Longrightarrow> I (s\<lparr>cs_cache := c\<rparr>)"
    and agent: "I s \<Longrightarrow> I (s\<lparr>sw_reg := upsert_agent a p img e now (sw_reg s)\<rparr>)"
    and sandbox: "I s \<Longrightarrow> upsert_sandbox sid a u ci hp status img now (sw_reg s) = Inr (row, reg) \<Longrightarrow> I (s\<lparr>sw_reg := reg\<rparr>)"
begin

lemma keeps_on_docker: "keeps I (on_docker f)"
  by (rule tripleI) (auto simp: on_docker_def docker split: prod.splits)

lemma keeps_put_sandbox: "keeps I (put_sandbox sid a u c p status img now)"
  by (rule tripleI) (auto simp: put_sandbox_def intro: sandbox split: sum.splits)

lemma keeps_authoritative: "keeps I (authoritative su an a)"
  by (rule tripleI) (auto intro: cache elim!: authoritative_grows)

lemma keeps_load: "keeps I (load su an a)"
  unfolding load_def by (intro step_rules keeps_authoritative) auto

lemma keeps_remove_owned: "keeps I (remove_owned st c)"
  unfolding remove_owned_def by (intro keeps_except step_rules keeps_on_docker) auto

lemma keeps_start_container: "keeps I (start_container st c)"
  unfolding start_container_def by (intro step_rules keeps_on_docker) auto

lemma keeps_persist: "keeps I (persist st ep a u status now)"
  unfolding persist_def by (intro step_rules keeps_put_sandbox) auto

lemma keeps_ensure_running: "keeps I (ensure_running st c)"
  unfolding ensure_running_def by (intro keeps_except step_rules keeps_start_container keeps_remove_owned) auto

lemma keeps_await_reused: "keeps I (await_reused st env sid c)"
  unfolding await_reused_def by (intro keeps_except step_rules keeps_remove_owned) auto

lemma keeps_route_reused: "keeps I (route_reused st env img a u record ep)"
  unfolding route_reused_def by (intro step_rules keeps_persist) auto

lemma keeps_reuse: "keeps I (reuse_container st env img a u record c)"
  unfolding reuse_container_def by (intro step_rules keeps_ensure_running keeps_await_reused keeps_route_reused) auto

lemma keeps_undo: "keeps I (undo_creation st env img a u created e)"
  unfolding undo_creation_def by (intro step_rules keeps_remove_owned keeps_put_sandbox) auto

lemma keeps_create_container: "keeps I (create_container st env d a u p w sd)"
  unfolding create_container_def by (intro step_rules keeps_on_docker) auto

lemma keeps_start_created: "keeps I (start_created st env a u c)"
  unfolding start_created_def by (intro step_rules keeps_start_container keeps_persist) auto

lemma keeps_create_sandbox: "keeps I (create_sandbox st env d a u layout)"
  unfolding create_sandbox_def
  by (intro keeps_catch_failed step_rules keeps_put_sandbox keeps_create_container keeps_start_created keeps_undo) auto

lemma keeps_upsert_agent: "keeps I (on_registry (upsert_agent a p img e now))"
  unfolding on_registry_def by (intro step_rules agent)

lemma keeps_acquire_locked: "keeps I (acquire_locked st env a u)"
  unfolding acquire_locked_def
  by (intro step_rules keeps_load keeps_upsert_agent keeps_reuse keeps_create_sandbox) auto

end

text \<open>The leases and admission marks are such a property, and so is the invariant of the registry.\<close>

definition marks :: "('d, 'x) sandbox_world_scheme \<Rightarrow> (string, int) dict \<times> string list" where
  "marks s = (sw_in_use s, sw_blocked s)"

interpretation marks_frame: acquire_frame "\<lambda>s. marks s = m" for m
  by unfold_locales (auto simp: marks_def)

interpretation registry_frame: acquire_frame "\<lambda>s. registry_inv (sw_reg s)"
  by unfold_locales (auto intro: upsert_agent_inv upsert_sandbox_inv)

lemma acquire_Inr:
  assumes "acquire st env others1 others2 a u s = (Inr ep, s')"
  obtains s1 where "\<not> blocks_agent (sw_blocked (others2 (others1 s))) a" "acquire_locked st env a u (others2 (others1 s)) = (Inr ep, s1)"
    "s' = s1\<lparr>sw_in_use := dput (ep_sandbox ep) (dget (sw_in_use s1) (ep_sandbox ep) 0 + 1) (sw_in_use s1)\<rparr>"
  using assms by (auto simp: acquire_def sx_outcome_simps sx_modify_def check_acquire_local_def)

lemma acquire_acquired:
  assumes "docker_faithful (st_docker st) env" and "acquire st env others1 others2 a u s = (Inr ep, s')"
  shows "acquired st env a u ep (others2 (others1 s)) s'"
proof (rule acquire_Inr [OF assms(2)])
  fix s1 assume "acquire_locked st env a u (others2 (others1 s)) = (Inr ep, s1)"
    and s': "s' = s1\<lparr>sw_in_use := dput (ep_sandbox ep) (dget (sw_in_use s1) (ep_sandbox ep) 0 + 1) (sw_in_use s1)\<rparr>"
  from acquire_locked_acquired [OF assms(1) this(1)] show ?thesis by (simp add: s' acquired_def)
qed

text \<open>C21: a successful acquire hands out the endpoint of a container that Docker itself supplied: either the one it
  answered with, when it was asked after the last admission check for the container of the owner's row or
  for the owner's container name, or one just created under that name. That container carries the labels of
  this Agent, this user, this installation and the image in the owner's row; as polled it was running, bound
  to the loopback interface only, and a health answer of these polls was healthy in the expected version.
  The registry routes the owner to it as ready, exactly one lease is added, and the Agent was not blocked
  when its container was looked up. Docker is assumed to create containers with the labels asked for and to
  reload a container as itself.\<close>

theorem acquire_sound:
  assumes "docker_faithful (st_docker st) env" and "acquire st env others1 others2 a u s = (Inr ep, s')"
  shows "acquired st env a u ep (others2 (others1 s)) s' \<and> \<not> blocks_agent (sw_blocked (others2 (others1 s))) a
    \<and> dget (sw_in_use s') (ep_sandbox ep) 0 = dget (sw_in_use (others2 (others1 s))) (ep_sandbox ep) 0 + 1
    \<and> (\<forall>sid. sid \<noteq> ep_sandbox ep \<longrightarrow> dget (sw_in_use s') sid 0 = dget (sw_in_use (others2 (others1 s))) sid 0)"
proof -
  obtain s1 where free: "\<not> blocks_agent (sw_blocked (others2 (others1 s))) a"
    and aq: "acquire_locked st env a u (others2 (others1 s)) = (Inr ep, s1)"
    and s': "s' = s1\<lparr>sw_in_use := dput (ep_sandbox ep) (dget (sw_in_use s1) (ep_sandbox ep) 0 + 1) (sw_in_use s1)\<rparr>"
    by (rule acquire_Inr [OF assms(2)])
  have "marks s1 = marks (others2 (others1 s))" by (rule keepsD [OF marks_frame.keeps_acquire_locked _ aq]) simp
  then have u: "sw_in_use s1 = sw_in_use (others2 (others1 s))" by (simp add: marks_def)
  from acquire_acquired [OF assms] free u show ?thesis by (simp add: s')
qed

section \<open>A concrete installation\<close>

definition spec_view :: "container_spec \<Rightarrow> container_view" where
  "spec_view spec = \<lparr>cv_id = ''c1'', cv_name = sp_name spec, cv_labels = sp_labels spec, cv_image = sp_image spec, cv_status = ''running'',
     cv_ports = [(sp_port spec, [\<lparr>pb_host_ip = Some (sp_host_ip spec), pb_host_port = Some ''4100''\<rparr>])], cv_binds = sp_binds spec\<rparr>"

text \<open>A daemon that holds at most one container.\<close>

definition demo_docker :: "container_view option docker" where
  "demo_docker = \<lparr>d_get = \<lambda>d i. Inr d, d_reload = \<lambda>d c. Inr c, d_list = \<lambda>d. Inr (case d of None \<Rightarrow> [] | Some c \<Rightarrow> [c]),
     d_image = \<lambda>d i. Inr (Some i), d_create = \<lambda>spec d. (Inr (spec_view spec), Some (spec_view spec)),
     d_start = \<lambda>i d. (Inr (), d), d_stop = \<lambda>i d. (Inr (), d), d_remove = \<lambda>i d. (Inr True, None)\<rparr>"

definition demo_sandbox_setup :: "container_view option sandbox_setup" where
  "demo_sandbox_setup = \<lparr>st_docker = demo_docker, st_catalog = demo_setup, st_key = \<lambda>a u. a @ ''-'' @ u, st_instance = ''i'',
     st_image = ''img:1'', st_internal_port = 4, st_expected_version = ''1'', st_read_only_rootfs = True, st_tmpfs_mb = 256,
     st_runtime = ''docker'', st_model_token = None, st_log_root = [''log''], st_workspace_root = [''w''], st_state_root = [''s'']\<rparr>"

definition demo_env :: sandbox_env where
  "demo_env = \<lparr>e_catalog = demo_answer, e_layout = Inr ([''w'', ''a1'', ''u1''], [''s'', ''a1'', ''u1'', ''opencode'']),
     e_admission = Reply 200 (JObj []), e_create_admission = Reply 200 (JObj []), e_log_dir_ok = True, e_reuse_rounds = [],
     e_create_rounds = [\<lparr>pr_reload = Inr, pr_health = Inr (JObj [(''healthy'', JBool True), (''version'', JStr ''1'')])\<rparr>],
     e_clock = ''t1''\<rparr>"

definition demo_world :: "container_view option sandbox_world" where
  "demo_world = \<lparr>cs_cache = [(demo_staged, demo_tree)], cs_overrides = [(''a1'', demo_staged)], cs_applied = [(''a1'', demo_staged)],
     sw_reg = empty_registry, sw_docker = None, sw_in_use = [], sw_subscribers = [], sw_requests = [], sw_acquiring = [], sw_blocked = []\<rparr>"

lemma demo_faithful: "docker_faithful demo_docker demo_env"
  by (auto simp: docker_faithful_def demo_docker_def demo_env_def spec_view_def)

lemma demo_acquire: "\<exists>ep s'. acquire demo_sandbox_setup demo_env id id ''a1'' ''u1'' demo_world = (Inr ep, s')"
proof -
  obtain d where d: "definition_of demo_setup ''a1'' demo_staged [(demo_staged, demo_tree)] = Inr d"
    using demo_load by (cases "definition_of demo_setup ''a1'' demo_staged (cs_cache demo_catalog)") (auto simp: demo_catalog_def)
  have staged: "map_of (cs_overrides demo_world) ''a1'' = Some demo_staged" by (simp add: demo_world_def)
  have "load demo_setup demo_answer ''a1'' demo_world = (Inr d, demo_world)"
    using load_override [OF staged demo_ident(1), of demo_setup demo_answer] d by (simp add: demo_world_def)
  then show ?thesis
    by (simp add: acquire_def acquire_locked_def sx_then_def sx_bind_def sx_lift_def sx_modify_def sx_of_res_def sx_return_def
        check_acquire_local_def blocks_agent_def resources_for_def json_reply_def is_error_def attr_get_def
        on_registry_def upsert_agent_def find_existing_def recorded_container_def get_container_def create_sandbox_def put_sandbox_def
        catch_failed_def create_container_def spec_of_def effective_limits_def start_created_def start_container_def on_docker_def
        wait_ready_def poll_round_result_def endpoint_of_def int_text_def persist_def expected_image_def upsert_sandbox_def get_sandbox_def
        port_ok_def empty_registry_def sb_owner_def Let_def dget_def jget_def update_rows_def set_sandbox_row_def nat_of_dec_def is_digit_def
        demo_world_def demo_sandbox_setup_def demo_env_def demo_docker_def spec_view_def)
qed

theorem acquire_sound_witness:
  "\<exists>ep s'. acquire demo_sandbox_setup demo_env id id ''a1'' ''u1'' demo_world = (Inr ep, s') \<and>
     routed ''a1'' ''u1'' ep (sw_reg s') \<and> dget (sw_in_use s') (ep_sandbox ep) 0 = 1"
proof -
  obtain ep s' where r: "acquire demo_sandbox_setup demo_env id id ''a1'' ''u1'' demo_world = (Inr ep, s')" using demo_acquire by blast
  have "docker_faithful (st_docker demo_sandbox_setup) demo_env" using demo_faithful by (simp add: demo_sandbox_setup_def)
  from acquire_sound [OF this r] have "acquired demo_sandbox_setup demo_env ''a1'' ''u1'' ep (id (id demo_world)) s'"
    "dget (sw_in_use s') (ep_sandbox ep) 0 = dget (sw_in_use (id (id demo_world))) (ep_sandbox ep) 0 + 1" by simp_all
  then show ?thesis using r by (auto simp: acquired_def demo_world_def)
qed

end
