(* ===== verification/SandboxSessions.thy ===== *)
theory SandboxSessions
  imports SandboxBackend
begin

text \<open>
  \<open>sandbox_manager/session_binding.py\<close>: the statuses a sandbox reports for the directories of its
  sessions, and the binding of a native session to its directory; and \<open>execution\<close> of
  \<open>sandbox_manager/main.py\<close>, which decides whether a sandbox is idle. The native server of the
  sandbox is a parameter: \<open>get d\<close> is its answer for the directory \<open>d\<close>.
\<close>

section \<open>Collections over the directories of a sandbox\<close>

definition session_directory :: "string \<Rightarrow> string" where
  "session_directory sid = ''/workspace/sessions/'' @ sid"

text \<open>\<open>dict.fromkeys\<close>: the first of equal directories stays.\<close>

fun first_of_each :: "'a list \<Rightarrow> 'a list" where
  "first_of_each [] = []"
| "first_of_each (x # xs) = x # filter (\<lambda>y. y \<noteq> x) (first_of_each xs)"

definition directories_of :: "string \<Rightarrow> registry \<Rightarrow> string list" where
  "directories_of sid reg = first_of_each (''/workspace'' # map (session_directory \<circ> ss_id) (list_sessions_for_sandbox sid reg))"

fun merge_group :: "jdict \<Rightarrow> jdict \<Rightarrow> jdict res" where
  "merge_group [] result = Inr result"
| "merge_group ((sid, status) # entries) result =
    ebind (attr_get (dget result sid (JObj [])) ''type'' JNull) (\<lambda>ty.
    ebind (in_strings ty [''busy'', ''retry'']) (\<lambda>b.
    merge_group entries (if b then result else dput sid status result)))"

fun merge_groups :: "json list \<Rightarrow> jdict \<Rightarrow> jdict res" where
  "merge_groups [] result = Inr result"
| "merge_groups (g # gs) result = (case g of
     JObj entries \<Rightarrow> ebind (merge_group entries result) (merge_groups gs)
   | _ \<Rightarrow> Inl (AttributeError ''items''))"

fun by_id :: "json list \<Rightarrow> (json, json) dict \<Rightarrow> (json, json) dict res" where
  "by_id [] result = Inr result"
| "by_id (item # items) result =
    ebind (subscript item ''id'') (\<lambda>i.
    if \<not> hashable i then Inl (TypeError ''unhashable type'') else by_id items (dput i item result))"

definition directory_collection :: "(string \<Rightarrow> json res) \<Rightarrow> string \<Rightarrow> registry \<Rightarrow> bool \<Rightarrow> json res" where
  "directory_collection get sid reg session_status =
    ebind (emap get (directories_of sid reg)) (\<lambda>groups.
    if session_status then ebind (merge_groups groups []) (\<lambda>d. Inr (JObj d))
    else ebind (emap jiter groups) (\<lambda>lists. ebind (by_id (concat lists) []) (\<lambda>d. Inr (JArr (map snd d)))))"

section \<open>Binding a session to its directory\<close>

text \<open>\<open>scope\<close> and \<open>placeholder name\<close> are the workspace calls; \<open>first\<close>, \<open>move\<close> and \<open>second\<close> are the native
  answers: the session, the move, and the session again. A status of 400 or more raises.\<close>

definition native_json :: "reply \<Rightarrow> json res" where
  "native_json r = (case r of
     Reply status body \<Rightarrow> if 400 \<le> status then Inl (HTTPError ''status'') else Inr body
   | BadBody status \<Rightarrow> if 400 \<le> status then Inl (HTTPError ''status'') else Inl (ValueError ''JSONDecodeError'')
   | TransportError \<Rightarrow> Inl (HTTPError ''transport'')
   | TaskCancelled \<Rightarrow> Inl CancelledError)"

definition reply_status :: "reply \<Rightarrow> nat option" where
  "reply_status r = (case r of Reply status _ \<Rightarrow> Some status | BadBody status \<Rightarrow> Some status | _ \<Rightarrow> None)"

definition session_in :: "string \<Rightarrow> json \<Rightarrow> bool res" where
  "session_in directory session = ebind (attr_get session ''directory'' JNull) (\<lambda>d. Inr (d = JStr directory))"

definition bind_native :: "string \<Rightarrow> reply \<Rightarrow> reply \<Rightarrow> reply \<Rightarrow> json res" where
  "bind_native directory first move second =
    ebind (raise_if (reply_status first = Some 404) (HTTPException 404 ''Native session no longer exists'')) (\<lambda>_.
    ebind (native_json first) (\<lambda>session. ebind (session_in directory session) (\<lambda>there.
    if there then Inr session
    else (case reply_status move of
       None \<Rightarrow> ebind (native_json move) (\<lambda>_. Inl (HTTPError ''transport''))
     | Some status \<Rightarrow>
        ebind (raise_if (400 \<le> status) (HTTPException 409 ''Session directory binding failed; wait for active tasks to finish and retry'')) (\<lambda>_.
        ebind (native_json second) (\<lambda>session. ebind (session_in directory session) (\<lambda>there.
        if there then Inr session else Inl (HTTPException 502 ''Native session directory binding was not confirmed''))))))))"

definition ensure_binding :: "unit res \<Rightarrow> (string \<Rightarrow> unit res) \<Rightarrow> reply \<Rightarrow> reply \<Rightarrow> reply \<Rightarrow> session_row \<Rightarrow> json res" where
  "ensure_binding scope placeholder first move second route =
    ebind (validate_identifier (ss_id route) ''session_id'') (\<lambda>sid.
    ebind scope (\<lambda>_. ebind (each_ok placeholder [''inputs/.placeholder'', ''outputs/.placeholder'']) (\<lambda>_.
    case bind_native (session_directory sid) first move second of
      Inr session \<Rightarrow> Inr session
    | Inl e \<Rightarrow> (case e of HTTPError _ \<Rightarrow> Inl (HTTPException 502 ''Unable to verify native session directory'')
        | _ \<Rightarrow> if is_value_error e then Inl (HTTPException 502 ''Unable to verify native session directory'') else Inl e))))"

section \<open>Is a sandbox idle?\<close>

text \<open>The counters, the registry and Docker are read as one state; the answers of the directories are \<open>get\<close>.\<close>

definition active_request_leases :: "('d, 'x) sandbox_world_scheme \<Rightarrow> string \<Rightarrow> int" where
  "active_request_leases s sid = max 0 (dget (sw_in_use s) sid 0 - dget (sw_subscribers s) sid 0)"

fun any_in :: "json list \<Rightarrow> string list \<Rightarrow> bool res" where
  "any_in [] names = Inr False"
| "any_in (v # vs) names = ebind (in_strings v names) (\<lambda>b. if b then Inr True else any_in vs names)"

definition status_type :: "json \<Rightarrow> json" where
  "status_type v = (case v of JObj d \<Rightarrow> jget d ''type'' | _ \<Rightarrow> JNull)"

definition observe_idle :: "'d sandbox_setup \<Rightarrow> (string \<Rightarrow> json res) \<Rightarrow> sandbox_row \<Rightarrow> ('d, 'x) sandbox_world_scheme \<Rightarrow> string res" where
  "observe_idle st get r s =
    ebind (inspect st (sb_agent r) (sb_user r) s) (\<lambda>ep. case ep of
      None \<Rightarrow>
       ebind (find_existing st (Some r) (sb_agent r) (sb_user r) s) (\<lambda>found. case found of
         None \<Rightarrow> Inr ''idle''
       | Some c0 \<Rightarrow>
          ebind (verify_ownership st c0 (sb_agent r) (sb_user r) (sw_reg s)) (\<lambda>_.
          ebind (d_reload (st_docker st) (sw_docker s) c0) (\<lambda>c.
          Inr (if cv_status c \<in> {''created'', ''exited'', ''dead''} then ''idle'' else ''unknown''))))
    | Some ep \<Rightarrow>
       ebind (directory_collection get (ep_sandbox ep) (sw_reg s) True) (\<lambda>statuses. case statuses of
         JObj d \<Rightarrow> (let types = map (status_type \<circ> snd) d in
           ebind (any_in types [''busy'', ''retry'']) (\<lambda>b.
           Inr (if b then ''busy'' else if list_all (\<lambda>v. v = JStr ''idle'') types then ''idle'' else ''unknown'')))
       | _ \<Rightarrow> Inr ''unknown''))"

definition execution :: "'d sandbox_setup \<Rightarrow> (string \<Rightarrow> json res) \<Rightarrow> sandbox_row \<Rightarrow> ('d, 'x) sandbox_world_scheme \<Rightarrow> string res" where
  "execution st get r s =
    (if active_request_leases s (sb_id r) \<noteq> 0 \<or> dget (sw_requests s) (sb_agent r) 0 \<noteq> 0 \<or> dget (sw_acquiring s) (sb_agent r) 0 \<noteq> 0
     then Inr ''busy''
     else case observe_idle st get r s of
       Inr x \<Rightarrow> Inr x
     | Inl e \<Rightarrow> if (case e of HTTPError _ \<Rightarrow> True | _ \<Rightarrow> is_value_error e \<or> is_sandbox_error e) then Inr ''unknown'' else Inl e)"

section \<open>A busy session is never reported idle\<close>

definition busy_status :: "json \<Rightarrow> bool" where
  "busy_status v \<longleftrightarrow> status_type v \<in> {JStr ''busy'', JStr ''retry''}"

definition busy_in :: "jdict \<Rightarrow> string \<Rightarrow> bool" where
  "busy_in d sid \<longleftrightarrow> (\<exists>v. map_of d sid = Some v \<and> busy_status v)"

lemma merge_step:
  assumes "attr_get (dget result sid (JObj [])) ''type'' JNull = Inr ty" and "in_strings ty [''busy'', ''retry''] = Inr b"
  shows "b \<longleftrightarrow> busy_in result sid"
  using assms
  by (auto simp: busy_in_def busy_status_def status_type_def attr_get_Inr in_strings_def dget_def jget_def split: option.splits if_splits)

lemma merge_group_busy:
  "merge_group g result = Inr out \<Longrightarrow> busy_in result sid \<or> (\<exists>v. (sid, v) \<in> set g \<and> busy_status v) \<Longrightarrow> busy_in out sid"
proof (induction g result rule: merge_group.induct)
  case (1 result)
  then show ?case by simp
next
  case (2 i status g result)
  from "2.prems"(1) obtain ty b where ty: "attr_get (dget result i (JObj [])) ''type'' JNull = Inr ty"
    and b: "in_strings ty [''busy'', ''retry''] = Inr b"
    and rest: "merge_group g (if b then result else dput i status result) = Inr out"
    by (auto simp: exc_simps)
  note m = merge_step [OF ty b]
  have "busy_in (if b then result else dput i status result) sid \<or> (\<exists>v. (sid, v) \<in> set g \<and> busy_status v)"
    using "2.prems"(2) m by (auto simp: busy_in_def)
  from "2.IH" [OF ty b rest this] show ?case .
qed

lemma merge_groups_busy:
  "merge_groups gs result = Inr out \<Longrightarrow> busy_in result sid \<or> (\<exists>g v. JObj g \<in> set gs \<and> (sid, v) \<in> set g \<and> busy_status v) \<Longrightarrow> busy_in out sid"
proof (induction gs result rule: merge_groups.induct)
  case (1 result)
  then show ?case by simp
next
  case (2 g gs result)
  from "2.prems"(1) obtain entries r1 where g: "g = JObj entries" and r1: "merge_group entries result = Inr r1"
    and rest: "merge_groups gs r1 = Inr out"
    by (cases g) (auto simp: exc_simps)
  have "busy_in r1 sid \<or> (\<exists>g v. JObj g \<in> set gs \<and> (sid, v) \<in> set g \<and> busy_status v)"
    using merge_group_busy [OF r1, of sid] "2.prems"(2) g by auto
  from "2.IH" [OF g r1 rest this] show ?case .
qed

text \<open>Where nothing is busy, the last report of a session is the one that counts.\<close>

lemma merge_group_last:
  "merge_group g result = Inr out \<Longrightarrow> \<forall>sid. \<not> busy_in out sid \<Longrightarrow> map_of out = map_of result ++ map_of (rev g)"
proof (induction g result rule: merge_group.induct)
  case (1 result)
  then show ?case by simp
next
  case (2 i status g result)
  from "2.prems"(1) obtain ty b where ty: "attr_get (dget result i (JObj [])) ''type'' JNull = Inr ty"
    and b: "in_strings ty [''busy'', ''retry''] = Inr b"
    and rest: "merge_group g (if b then result else dput i status result) = Inr out"
    by (auto simp: exc_simps)
  have "\<not> busy_in result i"
    using merge_group_busy [OF "2.prems"(1), of i] "2.prems"(2) by blast
  then have "\<not> b" using merge_step [OF ty b] by simp
  with "2.IH" [OF ty b rest "2.prems"(2)] show ?case by (auto simp: map_of_dput fun_eq_iff map_add_def split: option.splits)
qed

lemma merge_groups_last:
  "merge_groups (map JObj gs) result = Inr out \<Longrightarrow> \<forall>sid. \<not> busy_in out sid \<Longrightarrow> map_of out = map_of result ++ map_of (rev (concat gs))"
proof (induction gs arbitrary: result)
  case Nil
  then show ?case by simp
next
  case (Cons g gs)
  from Cons.prems(1) obtain r1 where r1: "merge_group g result = Inr r1" and rest: "merge_groups (map JObj gs) r1 = Inr out"
    by (auto simp: exc_simps)
  have "\<forall>sid. \<not> busy_in r1 sid" using merge_groups_busy [OF rest] Cons.prems(2) by blast
  from merge_group_last [OF r1 this] Cons.IH [OF rest Cons.prems(2)] show ?case by simp
qed

lemma merge_groups_objects: "merge_groups gs result = Inr out \<Longrightarrow> x \<in> set gs \<Longrightarrow> \<exists>g. x = JObj g"
  by (induction gs result rule: merge_groups.induct) (auto simp: exc_simps split: json.splits)

lemma any_in_True: "any_in vs names = Inr False \<Longrightarrow> v \<in> set vs \<Longrightarrow> v \<notin> JStr ` set names"
  by (induction vs) (auto simp: exc_simps in_strings_def split: if_splits)

lemma emap_get: "emap f xs = Inr ys \<Longrightarrow> x \<in> set xs \<Longrightarrow> \<exists>y \<in> set ys. f x = Inr y"
  by (induction xs arbitrary: ys) (auto simp: exc_simps)



end
