(* ===== verification/SandboxLifecycle.thy ===== *)
theory SandboxLifecycle
  imports SandboxSessions Journal
begin

text \<open>
  The lifecycle endpoints of \<open>sandbox_manager/main.py\<close>: actions on one sandbox with force previews, and
  actions on an Agent (quiesce, apply, verify, resume, ...) with the admission blocks, the verified
  versions and the journal of commands in \<open>lifecycle.db\<close>. A handler holds the lock of its sandbox
  or Agent; what the other services answer meanwhile is \<open>manager_env\<close>, what other tasks do is the
  list of changes between the polls of \<open>drain\<close> and the receipt of another replica.
\<close>

record preview_row =
  pv_sandbox :: string
  pv_expires :: rat
  pv_container :: "string option"
  pv_activity :: string

record 'd manager_world = "'d sandbox_world" +
  mw_commands :: "receipt list"
  mw_blocks :: "string list"
  mw_verified :: "(string, string) dict"
  mw_previews :: "(string, preview_row) dict"

text \<open>\<open>g_get sid dir\<close> is the native status answer of a sandbox for a directory, \<open>g_sandbox a u\<close> what
  acquiring meets, \<open>g_desired sid\<close> the desired state the operations service reports.\<close>

record manager_env =
  g_time :: rat
  g_clock :: string
  g_get :: "string \<Rightarrow> string \<Rightarrow> json res"
  g_sandbox :: "string \<Rightarrow> string \<Rightarrow> sandbox_env"
  g_admission :: reply
  g_desired :: "string \<Rightarrow> reply"
  g_catalog :: catalog_answer
  g_disk :: "exc option"
  g_replica :: "receipt option"
  g_digest :: "json \<Rightarrow> string"
  g_float :: "json \<Rightarrow> unit res"
  g_races :: "file_tree option \<times> file_tree option"

section \<open>Rows as JSON\<close>

definition opt_json :: "string option \<Rightarrow> json" where
  "opt_json x = (case x of None \<Rightarrow> JNull | Some s \<Rightarrow> JStr s)"

definition sandbox_json :: "sandbox_row \<Rightarrow> json" where
  "sandbox_json r = JObj [(''sandbox_id'', JStr (sb_id r)), (''agent_id'', JStr (sb_agent r)), (''username'', JStr (sb_user r)),
     (''container_id'', opt_json (sb_container r)), (''host_port'', case sb_port r of None \<Rightarrow> JNull | Some p \<Rightarrow> JInt p),
     (''status'', JStr (sb_status r)), (''image_version'', JStr (sb_image r)), (''last_active_at'', JStr (sb_last_active r)),
     (''created_at'', JStr (sb_created r))]"

definition session_json :: "session_row \<Rightarrow> json" where
  "session_json r = JObj [(''session_id'', JStr (ss_id r)), (''sandbox_id'', JStr (ss_sandbox r)), (''agent_id'', JStr (ss_agent r)),
     (''username'', JStr (ss_user r)), (''session_path'', JStr (ss_path r)), (''created_at'', JStr (ss_created r)),
     (''last_active_at'', JStr (ss_last_active r))]"

section \<open>One sandbox\<close>

definition by_sid :: "string \<Rightarrow> ('d, 'x) sandbox_world_scheme \<Rightarrow> sandbox_row res" where
  "by_sid sid s = (case find_row sb_id sid (sandboxes (sw_reg s)) of
     None \<Rightarrow> Inl (HTTPException 404 ''Sandbox not found'') | Some r \<Rightarrow> Inr r)"

definition make_preview ::
  "'d sandbox_setup \<Rightarrow> manager_env \<Rightarrow> string \<Rightarrow> string \<Rightarrow> (('d, 'x) manager_world_scheme, preview_row \<times> string) sx" where
  "make_preview st env sid pid =
    sx_bind (sx_lift (by_sid sid)) (\<lambda>r.
    sx_bind (sx_lift (execution st (g_get env sid) r)) (\<lambda>observed.
    let result = \<lparr>pv_sandbox = sid, pv_expires = g_time env + 300, pv_container = sb_container r, pv_activity = sb_last_active r\<rparr> in
    sx_then (sx_modify (\<lambda>s. s\<lparr>mw_previews := dput pid result (mw_previews s)\<rparr>)) (sx_return (result, observed))))"

definition action_names :: "string list" where
  "action_names = [''start'', ''stop'', ''restart'', ''recover'', ''destroy'']"

definition command_head :: "jdict \<Rightarrow> (string \<times> string) res" where
  "command_head body =
    ebind (in_strings (jget body ''action'') action_names) (\<lambda>known.
    ebind (raise_if (\<not> known) (HTTPException 400 ''Invalid sandbox action'')) (\<lambda>_.
    case jget body ''request_id'' of
      JStr key \<Rightarrow> if key = [] \<or> 256 < length key then Inl (HTTPException 400 ''A bounded request_id is required'')
        else Inr (str_of (jget body ''action''), key)
    | _ \<Rightarrow> Inl (HTTPException 400 ''A bounded request_id is required'')))"

definition sandbox_payload :: "string \<Rightarrow> jdict \<Rightarrow> json" where
  "sandbox_payload sid body = canonical (JObj (dupdate [(''resource'', JStr ''sandbox''), (''sandbox_id'', JStr sid)] body))"

text \<open>What a stored command answers: its result, or why it must not run again.\<close>

definition replayed :: "string \<Rightarrow> json \<Rightarrow> receipt list \<Rightarrow> json option res" where
  "replayed key payload rows = (case receipt_of key rows of
     None \<Rightarrow> Inr None
   | Some (stored, result) \<Rightarrow>
      if stored \<noteq> payload then Inl (HTTPException 409 ''Idempotency key reused'')
      else (case result of None \<Rightarrow> Inl (HTTPException 409 ''Prior action interrupted; reconcile before retry'')
        | Some r \<Rightarrow> Inr (Some r)))"

definition check_expected :: "jdict \<Rightarrow> sandbox_row \<Rightarrow> unit res" where
  "check_expected body r =
    ebind (raise_if (jget body ''expected_container_id'' \<noteq> JNull \<and> jget body ''expected_container_id'' \<noteq> opt_json (sb_container r))
      (HTTPException 409 ''Container changed'')) (\<lambda>_.
    raise_if (jget body ''expected_activity_generation'' \<noteq> JNull \<and> jget body ''expected_activity_generation'' \<noteq> JStr (sb_last_active r))
      (HTTPException 409 ''Activity changed''))"

definition preview_current :: "manager_env \<Rightarrow> string \<Rightarrow> sandbox_row \<Rightarrow> preview_row \<Rightarrow> bool" where
  "preview_current env sid r p \<longleftrightarrow> pv_sandbox p = sid \<and> g_time env \<le> pv_expires p \<and> pv_container p = sb_container r
     \<and> pv_activity p = sb_last_active r"

definition find_preview :: "json \<Rightarrow> (string, preview_row) dict \<Rightarrow> preview_row option res" where
  "find_preview pid previews = (case pid of JStr k \<Rightarrow> Inr (map_of previews k)
     | _ \<Rightarrow> if hashable pid then Inr None else Inl (TypeError ''unhashable type''))"

definition action_allowed ::
  "manager_env \<Rightarrow> string \<Rightarrow> jdict \<Rightarrow> string \<Rightarrow> sandbox_row \<Rightarrow> string \<Rightarrow> ('d, 'x) manager_world_scheme \<Rightarrow> unit res" where
  "action_allowed env name body sid r observed s =
    (if truthy (jget body ''force'')
     then ebind (find_preview (jget body ''preview_id'') (mw_previews s)) (\<lambda>p.
       raise_if (case p of None \<Rightarrow> True | Some p \<Rightarrow> \<not> preview_current env sid r p) (HTTPException 409 ''Force preview expired or changed''))
     else raise_if (name \<noteq> ''start'' \<and> (active_request_leases s sid \<noteq> 0 \<or> observed \<noteq> ''idle''))
       (HTTPException 409 ''Sandbox execution is not confirmed idle''))"

definition action_container :: "'d sandbox_setup \<Rightarrow> string \<Rightarrow> sandbox_row \<Rightarrow> ('d, 'x) sandbox_world_scheme \<Rightarrow> container_view option res" where
  "action_container st name r s =
    ebind (recorded_container st (Some r) (sw_docker s)) (\<lambda>found.
    ebind (if name = ''destroy'' \<and> found = None then find_existing st (Some r) (sb_agent r) (sb_user r) s else Inr found) (\<lambda>found.
    ebind (case found of Some c \<Rightarrow> verify_ownership st c (sb_agent r) (sb_user r) (sw_reg s) | None \<Rightarrow> Inr ()) (\<lambda>_. Inr found)))"

text \<open>The reservation runs under the write lock of the journal; another replica may have written a
  receipt since it was read first.\<close>

definition reserve :: "manager_env \<Rightarrow> string \<Rightarrow> json \<Rightarrow> (('d, 'x) manager_world_scheme, json option) sx" where
  "reserve env key payload = (\<lambda>s.
    let rows = (case g_replica env of
        Some rc \<Rightarrow> if receipt_of (rc_id rc) (mw_commands s) = None then mw_commands s @ [rc] else mw_commands s
      | None \<Rightarrow> mw_commands s);
      s1 = s\<lparr>mw_commands := rows\<rparr>
    in case receipt_of key rows of
      Some (stored, result) \<Rightarrow> (case result of
          Some r \<Rightarrow> (if stored \<noteq> payload then Inl (HTTPException 409 ''Command is already executing or its identity changed'') else Inr (Some r), s1)
        | None \<Rightarrow> (Inl (HTTPException 409 ''Command is already executing or its identity changed''), s1))
    | None \<Rightarrow> (case enter key payload rows of
        Inl e \<Rightarrow> (Inl e, s1) | Inr rows' \<Rightarrow> (Inr None, s1\<lparr>mw_commands := rows'\<rparr>)))"

definition remove_if :: "'d sandbox_setup \<Rightarrow> container_view option \<Rightarrow> (('d, 'x) sandbox_world_scheme, unit) sx" where
  "remove_if st found = (case found of Some c \<Rightarrow> remove_owned st c | None \<Rightarrow> sx_return ())"

definition mark_status :: "string \<Rightarrow> string \<Rightarrow> string \<Rightarrow> (('d, 'x) sandbox_world_scheme, unit) sx" where
  "mark_status sid status now = on_registry (\<lambda>reg. snd (mark_sandbox_status sid status now reg))"

definition perform :: "'d sandbox_setup \<Rightarrow> manager_env \<Rightarrow> string \<Rightarrow> string \<Rightarrow> sandbox_row \<Rightarrow> container_view option \<Rightarrow> (('d, 'x) sandbox_world_scheme, unit) sx" where
  "perform st env name sid r found =
    (let acquire_now = sx_then (acquire_locked st (g_sandbox env (sb_agent r) (sb_user r)) (sb_agent r) (sb_user r)) (sx_return ()) in
     if name = ''destroy'' then sx_then (remove_if st found)
        (put_sandbox sid (sb_agent r) (sb_user r) None None ''destroyed'' (sb_image r) (g_clock env))
     else if name = ''stop'' then sx_then (case found of Some c \<Rightarrow> on_docker (d_stop (st_docker st) (cv_id c)) | None \<Rightarrow> sx_return ())
        (mark_status sid ''stopped'' (g_clock env))
     else if name = ''restart'' \<or> name = ''recover'' then sx_then (remove_if st found) acquire_now
     else acquire_now)"

definition sandbox_result :: "string \<Rightarrow> string \<Rightarrow> json" where
  "sandbox_result sid name = JObj [(''ok'', JBool True), (''sandbox_id'', JStr sid), (''action'', JStr name)]"

text \<open>Everything that is checked before the command is reserved; it changes no state.\<close>

definition admit_command ::
  "'d sandbox_setup \<Rightarrow> manager_env \<Rightarrow> string \<Rightarrow> jdict \<Rightarrow> string \<Rightarrow> ('d, 'x) manager_world_scheme \<Rightarrow> (sandbox_row \<times> container_view option) res" where
  "admit_command st env sid body name s =
    ebind (by_sid sid s) (\<lambda>r.
    ebind (check_expected body r) (\<lambda>_.
    ebind (execution st (g_get env sid) r s) (\<lambda>observed.
    ebind (action_allowed env name body sid r observed s) (\<lambda>_.
    ebind (if name \<in> {''start'', ''restart'', ''recover''} then ebind (resources_for (g_admission env)) (\<lambda>_. Inr ()) else Inr ()) (\<lambda>_.
    ebind (action_container st name r s) (\<lambda>found. Inr (r, found)))))))"

definition use_preview :: "jdict \<Rightarrow> (('d, 'x) manager_world_scheme, unit) sx" where
  "use_preview body = (if truthy (jget body ''force'')
     then sx_modify (\<lambda>s. s\<lparr>mw_previews := dpop (str_of (jget body ''preview_id'')) (mw_previews s)\<rparr>) else sx_return ())"

definition close_command :: "string \<Rightarrow> json \<Rightarrow> (('d, 'x) manager_world_scheme, unit) sx" where
  "close_command key result = sx_modify (\<lambda>s. s\<lparr>mw_commands := settle key result (mw_commands s)\<rparr>)"

definition run_command :: "'d sandbox_setup \<Rightarrow> manager_env \<Rightarrow> string \<Rightarrow> jdict \<Rightarrow> string \<Rightarrow> string \<Rightarrow> (('d, 'x) manager_world_scheme, json) sx" where
  "run_command st env sid body name key =
    sx_bind (sx_lift (admit_command st env sid body name)) (\<lambda>(r, found).
    sx_bind (reserve env key (sandbox_payload sid body)) (\<lambda>other. case other of Some result \<Rightarrow> sx_return result | None \<Rightarrow>
    sx_then (use_preview body)
    (sx_then (perform st env name sid r found)
    (sx_then (close_command key (sandbox_result sid name))
     (sx_return (sandbox_result sid name))))))"

definition run_sandbox_action :: "'d sandbox_setup \<Rightarrow> manager_env \<Rightarrow> string \<Rightarrow> jdict \<Rightarrow> (('d, 'x) manager_world_scheme, json) sx" where
  "run_sandbox_action st env sid body =
    sx_then (sx_lift (by_sid sid))
    (sx_bind (sx_of_res (command_head body)) (\<lambda>(name, key).
     sx_bind (sx_lift (\<lambda>s. replayed key (sandbox_payload sid body) (mw_commands s))) (\<lambda>old. case old of
       Some result \<Rightarrow> sx_return result
     | None \<Rightarrow> run_command st env sid body name key)))"

section \<open>What a command leaves alone while it runs\<close>

lemma upsert_sandbox_ids:
  assumes "upsert_sandbox sid a u c p status img now reg = Inr (row, reg')"
  shows "sb_id ` set (sandboxes reg) \<subseteq> sb_id ` set (sandboxes reg')"
proof (cases "get_sandbox a u reg")
  case None
  then show ?thesis using upsert_sandbox_new(1) [OF assms] by auto
next
  case (Some old)
  have "map sb_id (sandboxes reg') = map sb_id (sandboxes reg)"
    unfolding upsert_sandbox_old(3) [OF assms Some] by (simp add: map_update_rows set_sandbox_row_def)
  then show ?thesis by (metis order_refl set_map)
qed

interpretation journal_frame: acquire_frame
  "\<lambda>s :: ('d, 'x) manager_world_scheme. mw_commands s = c \<and> mw_previews s = v \<and> sid \<in> sb_id ` set (sandboxes (sw_reg s))" for c v sid
proof unfold_locales
  fix s :: "('d, 'x) manager_world_scheme" and sid' a u ci hp status img now row reg
  assume s: "mw_commands s = c \<and> mw_previews s = v \<and> sid \<in> sb_id ` set (sandboxes (sw_reg s))"
    and u: "upsert_sandbox sid' a u ci hp status img now (sw_reg s) = Inr (row, reg)"
  from s subsetD [OF upsert_sandbox_ids [OF u], of sid]
  show "mw_commands (s\<lparr>sw_reg := reg\<rparr>) = c \<and> mw_previews (s\<lparr>sw_reg := reg\<rparr>) = v \<and> sid \<in> sb_id ` set (sandboxes (sw_reg (s\<lparr>sw_reg := reg\<rparr>)))"
    by simp
qed (auto simp: upsert_agent_def split: option.splits)

lemma mark_status_ids: "sb_id ` set (sandboxes (snd (mark_sandbox_status sid status now reg))) = sb_id ` set (sandboxes reg)"
proof -
  have "map sb_id (sandboxes (snd (mark_sandbox_status sid status now reg))) = map sb_id (sandboxes reg)"
    by (simp add: mark_sandbox_status_def map_update_rows set_status_row_def split: prod.splits)
  then show ?thesis by (metis set_map)
qed

definition journal_held :: "receipt list \<Rightarrow> (string, preview_row) dict \<Rightarrow> string \<Rightarrow> ('d, 'x) manager_world_scheme \<Rightarrow> bool" where
  "journal_held c v sid s \<longleftrightarrow> mw_commands s = c \<and> mw_previews s = v \<and> sid \<in> sb_id ` set (sandboxes (sw_reg s))"

lemma journal_perform: "keeps (journal_held c v sid) (perform st env name sid' r found)"
proof -
  have m: "keeps (journal_held c v sid) (mark_status sid' status now)" for status now
    unfolding mark_status_def on_registry_def journal_held_def by (rule triple_modify) (simp add: mark_status_ids)
  show ?thesis
    using m unfolding perform_def Let_def remove_if_def journal_held_def
    by (intro step_rules journal_frame.keeps_remove_owned journal_frame.keeps_put_sandbox journal_frame.keeps_on_docker
        journal_frame.keeps_acquire_locked) auto
qed

section \<open>A command runs once\<close>

lemma by_sid_iff: "(\<exists>r. by_sid sid s = Inr r) \<longleftrightarrow> sid \<in> sb_id ` set (sandboxes (sw_reg s))"
  using find_row_None [of sb_id sid "sandboxes (sw_reg s)"] by (auto simp: by_sid_def split: option.splits)

lemma reserve_alone:
  "g_replica env = None \<Longrightarrow> receipt_of key (mw_commands s) = None \<Longrightarrow> reserve env key payload s = (Inr other, s') \<Longrightarrow>
    other = None \<and> (\<exists>rows. enter key payload (mw_commands s) = Inr rows \<and> s' = s\<lparr>mw_commands := rows\<rparr>)"
  by (auto simp: reserve_def Let_def split: sum.splits)

lemma use_preview_shape:
  "use_preview body s = (x, s') \<Longrightarrow> x = Inr () \<and> sw_reg s' = sw_reg s \<and> mw_commands s' = mw_commands s \<and> sw_docker s' = sw_docker s
    \<and> mw_previews s' = (if truthy (jget body ''force'') then dpop (str_of (jget body ''preview_id'')) (mw_previews s) else mw_previews s)"
  by (auto simp: use_preview_def sx_modify_def sx_return_def split: if_splits)

text \<open>A command without a receipt that returned: it was reserved, performed and closed.\<close>

lemma sandbox_action_first:
  assumes "run_sandbox_action st env sid body s = (Inr result, s')" and "command_head body = Inr (name, key)"
    and "receipt_of key (mw_commands s) = None" and "g_replica env = None"
  shows "result = sandbox_result sid name"
    "\<exists>rows. enter key (sandbox_payload sid body) (mw_commands s) = Inr rows \<and> mw_commands s' = settle key result rows"
    "sid \<in> sb_id ` set (sandboxes (sw_reg s'))"
proof -
  from assms obtain r found where adm: "admit_command st env sid body name s = Inr (r, found)"
    and run: "sx_bind (reserve env key (sandbox_payload sid body)) (\<lambda>other. case other of Some result \<Rightarrow> sx_return result | None \<Rightarrow>
      sx_then (use_preview body) (sx_then (perform st env name sid r found) (sx_then (close_command key (sandbox_result sid name))
     (sx_return (sandbox_result sid name))))) s = (Inr result, s')"
    by (auto simp: run_sandbox_action_def run_command_def replayed_def sx_outcome_simps)
  from run obtain other s1 where res: "reserve env key (sandbox_payload sid body) s = (Inr other, s1)"
    and rest: "(case other of Some result \<Rightarrow> sx_return result | None \<Rightarrow>
      sx_then (use_preview body) (sx_then (perform st env name sid r found) (sx_then (close_command key (sandbox_result sid name))
     (sx_return (sandbox_result sid name))))) s1 = (Inr result, s')"
    by (auto simp: sx_bind_Inr)
  from reserve_alone [OF assms(4,3) res] obtain rows where other: "other = None"
    and rows: "enter key (sandbox_payload sid body) (mw_commands s) = Inr rows" "s1 = s\<lparr>mw_commands := rows\<rparr>" by blast
  from rest other obtain u s2 s3 where up: "use_preview body s1 = (Inr u, s2)" and pf: "perform st env name sid r found s2 = (Inr (), s3)"
    and fin: "s' = s3\<lparr>mw_commands := settle key result (mw_commands s3)\<rparr>" "result = sandbox_result sid name"
    by (auto simp: sx_outcome_simps close_command_def sx_modify_def)
  have "\<exists>r. by_sid sid s = Inr r" using adm by (auto simp: admit_command_def exc_simps)
  then have "sid \<in> sb_id ` set (sandboxes (sw_reg s))" by (simp only: by_sid_iff)
  moreover have "sw_reg s2 = sw_reg s" "mw_commands s2 = rows" using use_preview_shape [OF up] rows(2) by simp_all
  ultimately have "journal_held rows (mw_previews s2) sid s2" by (simp add: journal_held_def)
  from keepsD [OF journal_perform this pf] have held: "journal_held rows (mw_previews s2) sid s3" .
  show "result = sandbox_result sid name" by (rule fin(2))
  show "\<exists>rows. enter key (sandbox_payload sid body) (mw_commands s) = Inr rows \<and> mw_commands s' = settle key result rows"
    using rows(1) held by (auto simp: fin(1) journal_held_def)
  show "sid \<in> sb_id ` set (sandboxes (sw_reg s'))" using held by (simp add: fin(1) journal_held_def)
qed

text \<open>A sandbox command takes effect once. When it returns, its receipt holds its payload and result and no
  other receipt changed; sent again with the same request identifier it answers the same and touches
  nothing, whatever state Docker and the other services are in, and with another payload it is refused.\<close>

theorem sandbox_action_once:
  assumes "run_sandbox_action st env sid body s = (Inr result, s')" and "command_head body = Inr (name, key)"
    and "receipt_of key (mw_commands s) = None" and "g_replica env = None"
  shows "receipt_of key (mw_commands s') = Some (sandbox_payload sid body, Some result)
    \<and> (\<forall>k. k \<noteq> key \<longrightarrow> receipt_of k (mw_commands s') = receipt_of k (mw_commands s))
    \<and> (\<forall>env'. run_sandbox_action st env' sid body s' = (Inr result, s'))
    \<and> (\<forall>env' body' name'. command_head body' = Inr (name', key) \<longrightarrow> sandbox_payload sid body' \<noteq> sandbox_payload sid body \<longrightarrow>
         run_sandbox_action st env' sid body' s' = (Inl (HTTPException 409 ''Idempotency key reused''), s'))"
proof -
  note f = sandbox_action_first [OF assms]
  obtain rows where rows: "enter key (sandbox_payload sid body) (mw_commands s) = Inr rows" "mw_commands s' = settle key result rows"
    using f(2) by blast
  note rc = receipts.ran_once [OF rows(1), of result, folded rows(2)]
  obtain r where r: "by_sid sid s' = Inr r" using f(3) by_sid_iff [of sid s'] by blast
  have "run_sandbox_action st env' sid body s' = (Inr result, s')" for env'
    using r assms(2) rc by (simp add: run_sandbox_action_def replayed_def sx_step_defs)
  moreover have "run_sandbox_action st env' sid body' s' = (Inl (HTTPException 409 ''Idempotency key reused''), s')"
    if "command_head body' = Inr (name', key)" "sandbox_payload sid body' \<noteq> sandbox_payload sid body" for env' body' name'
    using r that rc by (simp add: run_sandbox_action_def replayed_def sx_step_defs)
  ultimately show ?thesis using rc by blast
qed

text \<open>A command that was interrupted, by an error or by a crash, is never run again.\<close>

lemma interrupted_command_refused:
  assumes "command_head body = Inr (name, key)" and "receipt_of key (mw_commands s) = Some (p, None)"
  shows "\<exists>e. run_sandbox_action st env sid body s = (Inl e, s)"
  using assms by (cases "by_sid sid s") (auto simp: run_sandbox_action_def replayed_def sx_step_defs)

section \<open>When a command may touch the container\<close>

definition action_justified ::
  "'d sandbox_setup \<Rightarrow> manager_env \<Rightarrow> string \<Rightarrow> jdict \<Rightarrow> string \<Rightarrow> sandbox_row \<Rightarrow> ('d, 'x) manager_world_scheme \<Rightarrow> bool" where
  "action_justified st env sid body name r s \<longleftrightarrow> name = ''start''
     \<or> execution st (g_get env sid) r s = Inr ''idle'' \<and> active_request_leases s sid = 0
     \<or> truthy (jget body ''force'') \<and> (\<exists>pid p. jget body ''preview_id'' = JStr pid \<and> map_of (mw_previews s) pid = Some p
          \<and> preview_current env sid r p)"

lemma admit_command_justified:
  assumes "admit_command st env sid body name s = Inr (r, found)"
  shows "by_sid sid s = Inr r" "check_expected body r = Inr ()" "action_justified st env sid body name r s"
    "\<And>c. found = Some c \<Longrightarrow> verify_ownership st c (sb_agent r) (sb_user r) (sw_reg s) = Inr ()"
proof -
  from assms obtain observed where ex: "execution st (g_get env sid) r s = Inr observed" and al: "action_allowed env name body sid r observed s = Inr ()"
    and b: "by_sid sid s = Inr r" "check_expected body r = Inr ()" and ac: "action_container st name r s = Inr found"
    by (auto simp: admit_command_def exc_simps)
  show "by_sid sid s = Inr r" "check_expected body r = Inr ()" by fact+
  show "verify_ownership st c (sb_agent r) (sb_user r) (sw_reg s) = Inr ()" if "found = Some c" for c
    using ac that by (auto simp: action_container_def exc_simps)
  show "action_justified st env sid body name r s"
    using ex al by (cases "jget body ''preview_id''") (auto simp: action_justified_def action_allowed_def find_preview_def exc_simps split: if_splits option.splits)
qed

lemma reserve_keeps: "reserve env key payload s = (x, s') \<Longrightarrow> sw_docker s' = sw_docker s \<and> sw_reg s' = sw_reg s \<and> mw_previews s' = mw_previews s"
  by (auto simp: reserve_def Let_def split: option.splits prod.splits sum.splits)

text \<open>C30: a command leaves Docker and the registry alone, whether it returns or fails, unless it is new, the
  sandbox is in the expected state, any container it acts on carries the owner's labels, and it is a start, or
  the sandbox was observed idle without leases, or a force preview of exactly this state is current; a
  force preview serves one command only.\<close>

theorem sandbox_action_guarded:
  assumes run: "run_sandbox_action st env sid body s = (res, s')" and touched: "sw_docker s' \<noteq> sw_docker s \<or> sw_reg s' \<noteq> sw_reg s"
  shows "\<exists>name key r found. command_head body = Inr (name, key) \<and> receipt_of key (mw_commands s) = None \<and> by_sid sid s = Inr r
    \<and> check_expected body r = Inr () \<and> action_justified st env sid body name r s
    \<and> action_container st name r s = Inr found \<and> (\<forall>c. found = Some c \<longrightarrow> verify_ownership st c (sb_agent r) (sb_user r) (sw_reg s) = Inr ())
    \<and> (truthy (jget body ''force'') \<longrightarrow> map_of (mw_previews s') (str_of (jget body ''preview_id'')) = None)"
proof (cases "command_head body")
  case (Inl e)
  with run touched show ?thesis by (cases "by_sid sid s") (auto simp: run_sandbox_action_def sx_step_defs)
next
  case (Inr nk)
  obtain name key where nk: "command_head body = Inr (name, key)" using Inr by (cases nk) simp
  have rp: "replayed key (sandbox_payload sid body) (mw_commands s) = Inr None" and
    rc: "run_command st env sid body name key s = (res, s')"
    using run touched nk
    by (cases "by_sid sid s"; cases "replayed key (sandbox_payload sid body) (mw_commands s)";
        auto simp: run_sandbox_action_def sx_step_defs split: option.splits)+
  have new: "receipt_of key (mw_commands s) = None" using rp by (auto simp: replayed_def split: option.splits if_splits prod.splits)
  obtain r found where adm: "admit_command st env sid body name s = Inr (r, found)"
    using rc touched by (cases "admit_command st env sid body name s") (auto simp: run_command_def sx_step_defs)
  note a = admit_command_justified [OF adm]
  have ac: "action_container st name r s = Inr found" using adm by (auto simp: admit_command_def exc_simps)
  obtain o1 s1 where res: "reserve env key (sandbox_payload sid body) s = (o1, s1)" by fastforce
  note rk = reserve_keeps [OF res]
  have o1: "o1 = Inr None" using rc touched adm res rk
    by (cases o1) (auto simp: run_command_def sx_bind_def sx_lift_def sx_return_def split: option.splits)
  obtain u s2 where up: "use_preview body s1 = (u, s2)" by fastforce
  note us = use_preview_shape [OF up]
  obtain o3 s3 where pf: "perform st env name sid r found s2 = (o3, s3)" by fastforce
  have "sid \<in> sb_id ` set (sandboxes (sw_reg s))" using a(1) by_sid_iff [of sid s] by auto
  then have "journal_held (mw_commands s2) (mw_previews s2) sid s2" using us rk by (simp add: journal_held_def)
  from keepsD [OF journal_perform this pf] have "mw_previews s3 = mw_previews s2" by (simp add: journal_held_def)
  moreover have "mw_previews s' = mw_previews s3"
    using rc adm res o1 up us pf
    by (cases o3) (auto simp: run_command_def close_command_def sx_bind_def sx_then_def sx_lift_def sx_modify_def sx_return_def)
  ultimately have "truthy (jget body ''force'') \<longrightarrow> map_of (mw_previews s') (str_of (jget body ''preview_id'')) = None"
    using us by simp
  with nk new a ac show ?thesis by blast
qed

section \<open>A concrete command\<close>

definition demo_manager_world :: "container_view option manager_world" where
  "demo_manager_world = \<lparr>cs_cache = [(demo_staged, demo_tree)], cs_overrides = [(''a1'', demo_staged)], cs_applied = [(''a1'', demo_staged)],
     sw_reg = \<lparr>agents = [demo_agent_row], sandboxes = [demo_sandbox\<lparr>sb_container := None\<rparr>], sessions = []\<rparr>,
     sw_docker = None, sw_in_use = [], sw_subscribers = [], sw_requests = [], sw_acquiring = [], sw_blocked = [],
     mw_commands = [], mw_blocks = [], mw_verified = [], mw_previews = []\<rparr>"

definition demo_manager_env :: manager_env where
  "demo_manager_env = \<lparr>g_time = 10, g_clock = ''t9'', g_get = \<lambda>_ _. Inr (JObj []), g_sandbox = \<lambda>_ _. demo_env,
     g_admission = Reply 200 (JObj []), g_desired = \<lambda>_. Reply 200 (JObj []), g_catalog = demo_answer, g_disk = None, g_replica = None,
     g_digest = \<lambda>_. [], g_float = \<lambda>_. Inr (), g_races = (None, None)\<rparr>"

definition demo_stop :: jdict where
  "demo_stop = [(''action'', JStr ''stop''), (''request_id'', JStr ''k1'')]"

lemma demo_stop_head: "command_head demo_stop = Inr (''stop'', ''k1'')"
  by (simp add: command_head_def demo_stop_def jget_def dget_def in_strings_def action_names_def)

lemma demo_stop_runs:
  "\<exists>result s'. run_sandbox_action demo_sandbox_setup demo_manager_env ''s1'' demo_stop demo_manager_world = (Inr result, s') \<and>
     sw_reg s' \<noteq> sw_reg demo_manager_world"
proof -
  let ?r = "demo_sandbox\<lparr>sb_container := None\<rparr>"
  have b: "by_sid ''s1'' demo_manager_world = Inr ?r" by (simp add: by_sid_def demo_manager_world_def demo_sandbox_def)
  have ex: "execution demo_sandbox_setup (g_get demo_manager_env ''s1'') ?r demo_manager_world = Inr ''idle''"
    by (simp add: execution_def active_request_leases_def observe_idle_def inspect_def get_sandbox_def sb_owner_def find_existing_def
        recorded_container_def get_container_def demo_manager_world_def demo_sandbox_setup_def demo_docker_def demo_sandbox_def)
  have adm: "admit_command demo_sandbox_setup demo_manager_env ''s1'' demo_stop ''stop'' demo_manager_world = Inr (?r, None)"
  proof -
    have "active_request_leases demo_manager_world ''s1'' = 0" by (simp add: active_request_leases_def demo_manager_world_def)
    then show ?thesis
      by (simp add: admit_command_def b ex check_expected_def action_allowed_def action_container_def recorded_container_def demo_stop_def
          jget_def dget_def)
  qed
  have "mw_commands demo_manager_world = []" "g_replica demo_manager_env = None"
    by (simp_all add: demo_manager_world_def demo_manager_env_def)
  moreover have "jget demo_stop ''force'' = JNull" by (simp add: demo_stop_def jget_def dget_def)
  ultimately show ?thesis
    by (simp add: run_sandbox_action_def run_command_def sx_step_defs b adm demo_stop_head replayed_def receipt_of_def reserve_def enter_def
        use_preview_def perform_def mark_status_def on_registry_def close_command_def)
       (simp add: demo_manager_world_def mark_sandbox_status_def update_rows_def set_status_row_def demo_sandbox_def demo_manager_env_def)
qed

theorem sandbox_action_once_witness:
  "\<exists>result s'. run_sandbox_action demo_sandbox_setup demo_manager_env ''s1'' demo_stop demo_manager_world = (Inr result, s') \<and>
     receipt_of ''k1'' (mw_commands s') = Some (sandbox_payload ''s1'' demo_stop, Some result) \<and>
     run_sandbox_action demo_sandbox_setup demo_manager_env ''s1'' demo_stop s' = (Inr result, s')"
proof -
  obtain result s' where r: "run_sandbox_action demo_sandbox_setup demo_manager_env ''s1'' demo_stop demo_manager_world = (Inr result, s')"
    using demo_stop_runs by blast
  have "receipt_of ''k1'' (mw_commands demo_manager_world) = None" "g_replica demo_manager_env = None"
    by (simp_all add: demo_manager_world_def demo_manager_env_def receipt_of_def)
  from sandbox_action_once [OF r demo_stop_head this] r show ?thesis by blast
qed

theorem sandbox_action_guarded_witness:
  "\<exists>r. by_sid ''s1'' demo_manager_world = Inr r \<and> action_justified demo_sandbox_setup demo_manager_env ''s1'' demo_stop ''stop'' r demo_manager_world"
proof -
  obtain result s' where r: "run_sandbox_action demo_sandbox_setup demo_manager_env ''s1'' demo_stop demo_manager_world = (Inr result, s')"
    and ch: "sw_reg s' \<noteq> sw_reg demo_manager_world" using demo_stop_runs by blast
  from sandbox_action_guarded [OF r] ch demo_stop_head show ?thesis by auto
qed

end
