(* ===== verification/AgentLifecycle.thy ===== *)
theory AgentLifecycle
  imports SandboxLifecycle
begin

text \<open>
  The actions on an Agent in \<open>sandbox_manager/main.py\<close>: quiesce, apply, verify, resume, archive,
  restore, delete, restart and stop, with \<open>impact\<close>, \<open>drain\<close>, \<open>remove_records\<close>, the status endpoint,
  the cleanup of a load-test user and a restart of the service. The polls of \<open>drain\<close> are a list:
  each gives what other tasks did since the last poll and the native answers it meets; the list
  ends at the deadline.
\<close>

section \<open>Deletion impact\<close>

definition agent_sandboxes :: "string \<Rightarrow> registry \<Rightarrow> sandbox_row list" where
  "agent_sandboxes aid reg = filter (\<lambda>r. aid = ''*'' \<or> sb_agent r = aid) (sandboxes reg)"

record impact_report =
  im_sandboxes :: "string list"
  im_sessions :: nat
  im_fingerprint :: string

definition impact :: "manager_env \<Rightarrow> string \<Rightarrow> registry \<Rightarrow> impact_report res" where
  "impact env aid reg = ebind (validate_identifier aid ''agent_id'') (\<lambda>_.
     let records = filter (\<lambda>r. sb_agent r = aid) (sandboxes reg);
         found = concat (map (\<lambda>r. list_sessions_for_sandbox (sb_id r) reg) records)
     in Inr \<lparr>im_sandboxes = map sb_id records, im_sessions = length found,
          im_fingerprint = g_digest env (canonical (JArr [JArr (map sandbox_json records), JArr (map session_json found)]))\<rparr>)"

definition check_fingerprint :: "manager_env \<Rightarrow> string \<Rightarrow> jdict \<Rightarrow> string \<Rightarrow> registry \<Rightarrow> unit res" where
  "check_fingerprint env aid body msg reg =
    (if \<not> truthy (jget body ''expected_fingerprint'') then Inr ()
     else ebind (impact env aid reg) (\<lambda>im.
       raise_if (JStr (im_fingerprint im) \<noteq> jget body ''expected_fingerprint'') (HTTPException 409 msg)))"

section \<open>Draining\<close>

type_synonym ('d, 'x) poll = "(('d, 'x) manager_world_scheme \<Rightarrow> ('d, 'x) manager_world_scheme) \<times> (string \<Rightarrow> string \<Rightarrow> json res)"

definition count_for :: "string \<Rightarrow> (string, int) dict \<Rightarrow> int" where
  "count_for aid counts = (if aid = ''*'' then sum_list (map snd counts) else dget counts aid 0)"

fun drain :: "'d sandbox_setup \<Rightarrow> string \<Rightarrow> ('d, 'x) poll list \<Rightarrow> (('d, 'x) manager_world_scheme, unit) sx" where
  "drain st aid [] s = (Inl (HTTPException 409 ''Could not confirm sandbox idle before operation''), s)"
| "drain st aid ((others, get) # polls) s = (let s1 = others s in
    case emap (\<lambda>r. execution st (get (sb_id r)) r s1) (agent_sandboxes aid (sw_reg s1)) of
      Inl e \<Rightarrow> (Inl e, s1)
    | Inr status \<Rightarrow>
       if count_for aid (sw_requests s1) = 0 \<and> count_for aid (sw_acquiring s1) = 0 \<and> list_all (\<lambda>x. x = ''idle'') status
       then (Inr (), s1) else drain st aid polls s1)"

section \<open>Removing sandboxes\<close>

definition remove_record ::
  "'d sandbox_setup \<Rightarrow> manager_env \<Rightarrow> string \<Rightarrow> json \<Rightarrow> sandbox_row \<Rightarrow> (('d, 'x) sandbox_world_scheme, json) sx" where
  "remove_record st env aid load_test r =
    sx_then (sx_lift (\<lambda>s. raise_if (active_request_leases s (sb_id r) \<noteq> 0) (HTTPException 409 ''Sandbox has active leases'')))
    (sx_bind (sx_lift (\<lambda>s. recorded_container st (Some r) (sw_docker s))) (\<lambda>found.
     sx_then (case found of None \<Rightarrow> sx_return ()
       | Some c \<Rightarrow> sx_then (sx_lift (\<lambda>s. verify_ownership st c aid (sb_user r) (sw_reg s)))
          (sx_then (sx_of_res (raise_if (truthy load_test \<and> map_option JStr (map_of (cv_labels c) ''cloud.load_test'') \<noteq> Some load_test)
             (HTTPException 409 ''Load-test ownership changed'')))
           (remove_owned st c)))
     (sx_then (mark_status (sb_id r) ''missing'' (g_clock env)) (sx_return (JStr (sb_id r))))))"

definition remove_records ::
  "'d sandbox_setup \<Rightarrow> manager_env \<Rightarrow> string \<Rightarrow> json \<Rightarrow> json \<Rightarrow> (('d, 'x) sandbox_world_scheme, json list) sx" where
  "remove_records st env aid username load_test =
    sx_bind (sx_lift (\<lambda>s. Inr (filter (\<lambda>r. sb_agent r = aid \<and> (\<not> truthy username \<or> JStr (sb_user r) = username)) (sandboxes (sw_reg s)))))
      (sx_map (remove_record st env aid load_test))"

section \<open>The actions\<close>

definition agent_action_names :: "string list" where
  "agent_action_names = [''quiesce'', ''apply'', ''verify'', ''resume'', ''archive'', ''restore'', ''delete'', ''restart'', ''stop'']"

definition action_head :: "string \<Rightarrow> jdict \<Rightarrow> string res" where
  "action_head aid body =
    ebind (if aid \<noteq> ''*'' then ebind (validate_identifier aid ''agent_id'') (\<lambda>_. Inr ()) else Inr ()) (\<lambda>_.
    ebind (if aid = ''*'' then in_strings (jget body ''action'') [''quiesce'', ''resume'', ''verify''] else Inr True) (\<lambda>global_ok.
    ebind (raise_if (\<not> global_ok) (HTTPException 400 ''Global action not allowed'')) (\<lambda>_.
    ebind (in_strings (jget body ''action'') agent_action_names) (\<lambda>known.
    ebind (raise_if (\<not> known) (HTTPException 400 ''Unknown lifecycle action'')) (\<lambda>_.
    Inr (str_of (jget body ''action'')))))))"

text \<open>\<open>if key\<close>, and the text SQLite keeps of it.\<close>

definition journal_key :: "jdict \<Rightarrow> string option res" where
  "journal_key body = (case jget body ''request_id'' of
     JStr k \<Rightarrow> Inr (if k = [] then None else Some k)
   | JInt i \<Rightarrow> Inr (if i = 0 then None else Some (version_text (JInt i)))
   | JBool b \<Rightarrow> Inr (if b then Some ''1'' else None)
   | JNull \<Rightarrow> Inr None
   | v \<Rightarrow> if truthy v then Inl (TypeError ''type is not supported'') else Inr None)"

definition agent_payload :: "string \<Rightarrow> jdict \<Rightarrow> json" where
  "agent_payload aid body = canonical (JObj (dupdate [(''aid'', JStr aid)] body))"

definition open_command :: "string option \<Rightarrow> json \<Rightarrow> (('d, 'x) manager_world_scheme, json option) sx" where
  "open_command key payload = (case key of None \<Rightarrow> sx_return None | Some k \<Rightarrow>
     (\<lambda>s. case replayed k payload (mw_commands s) of
        Inl e \<Rightarrow> (Inl e, s)
      | Inr (Some result) \<Rightarrow> (Inr (Some result), s)
      | Inr None \<Rightarrow> (case enter k payload (mw_commands s) of
          Inl e \<Rightarrow> (Inl e, s) | Inr rows \<Rightarrow> (Inr None, s\<lparr>mw_commands := rows\<rparr>))))"

definition block :: "string \<Rightarrow> (('d, 'x) manager_world_scheme, unit) sx" where
  "block aid = sx_modify (\<lambda>s. s\<lparr>sw_blocked := List.insert aid (sw_blocked s), mw_blocks := List.insert aid (mw_blocks s)\<rparr>)"

definition unblock :: "string \<Rightarrow> (('d, 'x) manager_world_scheme, unit) sx" where
  "unblock aid = sx_modify (\<lambda>s. s\<lparr>sw_blocked := removeAll aid (sw_blocked s), mw_blocks := removeAll aid (mw_blocks s)\<rparr>)"

definition staged_targets :: "string \<Rightarrow> 'x catalog_state_scheme \<Rightarrow> string list" where
  "staged_targets aid s = (if aid = ''*'' then dkeys (cs_overrides s)
     else if map_of (cs_overrides s) aid \<noteq> None then [aid] else [])"

definition resume_agent :: "'d sandbox_setup \<Rightarrow> manager_env \<Rightarrow> string \<Rightarrow> string \<Rightarrow> (('d, 'x) manager_world_scheme, unit) sx" where
  "resume_agent st env name aid =
    sx_then (if name = ''resume''
        then sx_bind (sx_lift (\<lambda>s. Inr (staged_targets aid s)))
          (sx_for (\<lambda>target. sx_then (commit (st_catalog st) (g_catalog env) (g_disk env) target) (sx_return ())))
        else sx_return ())
      (unblock aid)"

definition version_of :: "path \<Rightarrow> string" where
  "version_of p = (if butlast p = [] then [] else last (butlast p))"

definition verify_sandbox :: "'d sandbox_setup \<Rightarrow> manager_env \<Rightarrow> string \<Rightarrow> sandbox_row \<Rightarrow> (('d, 'x) sandbox_world_scheme, unit) sx" where
  "verify_sandbox st env target r =
    (if sb_agent r \<noteq> target then sx_return ()
     else sx_bind (sx_of_res (case g_desired env (sb_id r) of
          Reply status body \<Rightarrow> if is_error status then Inl (HTTPException 503 ''Cannot verify sandbox desired state'') else attr_get body ''state'' JNull
        | BadBody status \<Rightarrow> if is_error status then Inl (HTTPException 503 ''Cannot verify sandbox desired state'') else Inl (ValueError ''JSONDecodeError'')
        | TransportError \<Rightarrow> Inl (HTTPError ''operations'') | TaskCancelled \<Rightarrow> Inl CancelledError)) (\<lambda>desired.
       if desired = JStr ''stopped'' then sx_return ()
       else sx_then (acquire_locked st (g_sandbox env target (sb_user r)) target (sb_user r)) (sx_return ())))"

definition verify_target :: "'d sandbox_setup \<Rightarrow> manager_env \<Rightarrow> string \<Rightarrow> (('d, 'x) manager_world_scheme, unit) sx" where
  "verify_target st env target =
    sx_bind (load (st_catalog st) (g_catalog env) target) (\<lambda>d.
    sx_then (sx_bind (sx_lift (\<lambda>s. Inr (sandboxes (sw_reg s)))) (sx_for (verify_sandbox st env target)))
    (sx_modify (\<lambda>s. s\<lparr>mw_verified := dput target (version_of (ad_path d)) (mw_verified s)\<rparr>)))"

definition apply_bundle :: "'d sandbox_setup \<Rightarrow> manager_env \<Rightarrow> string \<Rightarrow> jdict \<Rightarrow> (('d, 'x) manager_world_scheme, unit) sx" where
  "apply_bundle st env aid body =
    sx_then (sx_modify (\<lambda>s. s\<lparr>mw_verified := dpop aid (mw_verified s)\<rparr>))
    (sx_bind (sx_of_res (case dget body ''bundle'' (JObj []) of JObj d \<Rightarrow> Inr d | _ \<Rightarrow> Inl (AttributeError ''get''))) (\<lambda>bun.
     sx_bind (on_cache (install_bundle (fst (g_races env)) (snd (g_races env)) (ct_root (st_catalog st)) aid bun)) (\<lambda>p.
     sx_then (stage (st_catalog st) (g_disk env) aid p) (sx_return ()))))"

text \<open>What follows once the Agent is idle.\<close>

definition halt_finish ::
  "'d sandbox_setup \<Rightarrow> manager_env \<Rightarrow> string \<Rightarrow> string \<Rightarrow> jdict \<Rightarrow> (('d, 'x) manager_world_scheme, jdict) sx" where
  "halt_finish st env name aid body =
    sx_then (sx_lift (\<lambda>s. check_fingerprint env aid body ''Deletion impact changed while draining'' (sw_reg s)))
    (sx_then (if name = ''apply'' then apply_bundle st env aid body else sx_return ())
    (sx_bind (if name \<in> {''apply'', ''archive'', ''delete'', ''restart'', ''stop''}
        then sx_bind (remove_records st env aid (jget body ''username'') JNull) (\<lambda>removed. sx_return [(''removed'', JArr removed)])
        else sx_return []) (\<lambda>extra.
     sx_then (if name = ''delete'' then on_registry (delete_agent_rows aid) else sx_return ())
     (sx_return extra))))"

definition halt_agent ::
  "'d sandbox_setup \<Rightarrow> manager_env \<Rightarrow> ('d, 'x) poll list \<Rightarrow> string \<Rightarrow> string \<Rightarrow> jdict \<Rightarrow> (('d, 'x) manager_world_scheme, jdict) sx" where
  "halt_agent st env polls name aid body =
    sx_then (sx_lift (\<lambda>s. check_fingerprint env aid body ''Deletion impact changed'' (sw_reg s)))
    (sx_then (block aid)
    (sx_then (sx_of_res (g_float env (dget body ''timeout'' (JInt 120))))
    (sx_then (drain st aid polls) (halt_finish st env name aid body))))"

definition agent_step ::
  "'d sandbox_setup \<Rightarrow> manager_env \<Rightarrow> ('d, 'x) poll list \<Rightarrow> string \<Rightarrow> string \<Rightarrow> jdict \<Rightarrow> (('d, 'x) manager_world_scheme, jdict) sx" where
  "agent_step st env polls name aid body =
    (if name = ''resume'' \<or> name = ''restore'' then sx_then (resume_agent st env name aid) (sx_return [])
     else if name = ''verify'' then
       sx_then (sx_bind (sx_lift (\<lambda>s. Inr (if aid = ''*'' then dkeys (cs_overrides s) else [aid]))) (sx_for (verify_target st env)))
       (sx_lift (\<lambda>s. Inr [(''records'', JArr (map sandbox_json (agent_sandboxes aid (sw_reg s)))), (''verified'', JBool True)]))
     else halt_agent st env polls name aid body)"

definition action_result :: "string \<Rightarrow> string \<Rightarrow> jdict \<Rightarrow> json" where
  "action_result name aid extra = JObj ([(''ok'', JBool True), (''action'', JStr name), (''agent_id'', JStr aid)] @ extra)"

definition close_action :: "string option \<Rightarrow> json \<Rightarrow> (('d, 'x) manager_world_scheme, json) sx" where
  "close_action key result = sx_then (case key of Some k \<Rightarrow> close_command k result | None \<Rightarrow> sx_return ()) (sx_return result)"

definition run_agent_action ::
  "'d sandbox_setup \<Rightarrow> manager_env \<Rightarrow> ('d, 'x) poll list \<Rightarrow> string \<Rightarrow> jdict \<Rightarrow> (('d, 'x) manager_world_scheme, json) sx" where
  "run_agent_action st env polls aid body =
    sx_bind (sx_of_res (action_head aid body)) (\<lambda>name.
    sx_bind (sx_of_res (journal_key body)) (\<lambda>key.
    sx_bind (open_command key (agent_payload aid body)) (\<lambda>old. case old of Some result \<Rightarrow> sx_return result | None \<Rightarrow>
    sx_bind (agent_step st env polls name aid body) (\<lambda>extra. close_action key (action_result name aid extra)))))"

section \<open>Status, cleanup and restart\<close>

definition application_status :: "'d sandbox_setup \<Rightarrow> manager_env \<Rightarrow> string \<Rightarrow> (('d, 'x) manager_world_scheme, json) sx" where
  "application_status st env aid =
    sx_then (sx_of_res (validate_identifier aid ''agent_id''))
    (sx_bind (load (st_catalog st) (g_catalog env) aid) (\<lambda>d.
     sx_lift (\<lambda>s. let version = version_of (ad_path d) in Inr (JObj [(''version'', JStr version),
       (''staged'', JBool (map_of (cs_overrides s) aid \<noteq> None)),
       (''verified'', JBool (map_of (mw_verified s) aid = Some version)),
       (''blocked'', JBool (blocks_agent (sw_blocked s) aid))]))))"

definition cleanup_load_user :: "'d sandbox_setup \<Rightarrow> manager_env \<Rightarrow> string \<Rightarrow> string \<Rightarrow> string \<Rightarrow> (('d, 'x) sandbox_world_scheme, json) sx" where
  "cleanup_load_user st env rid aid username =
    sx_then (sx_of_res (validate_identifier aid ''agent_id'')) (sx_then (sx_of_res (validate_identifier username ''username''))
    (sx_bind (sx_lift (\<lambda>s. Inr (get_sandbox aid username (sw_reg s)))) (\<lambda>record.
     sx_bind (remove_records st env aid (JStr username) (JStr rid)) (\<lambda>removed.
     sx_then (case record of Some r \<Rightarrow> on_registry (delete_sandbox_rows (sb_id r)) | None \<Rightarrow> sx_return ())
     (sx_return (JObj [(''ok'', JBool True), (''removed'', JArr removed)]))))))"

text \<open>A new process: the blocks come back from their table and the overrides from \<open>applied.json\<close>; leases,
  counters and previews are gone.\<close>

definition restart_manager :: "('d, 'x) manager_world_scheme \<Rightarrow> ('d, 'x) manager_world_scheme" where
  "restart_manager s = s\<lparr>cs_overrides := cs_applied s, sw_in_use := [], sw_subscribers := [], sw_requests := [], sw_acquiring := [],
     sw_blocked := mw_blocks s, mw_previews := []\<rparr>"

section \<open>The block of an Agent\<close>

text \<open>Blocked in memory, where requests look, and in the table, from which a new process reads it.\<close>

definition held :: "string \<Rightarrow> ('d, 'x) manager_world_scheme \<Rightarrow> bool" where
  "held aid s \<longleftrightarrow> aid \<in> set (sw_blocked s) \<and> aid \<in> set (mw_blocks s)"

definition polls_keep :: "(('d, 'x) manager_world_scheme \<Rightarrow> bool) \<Rightarrow> ('d, 'x) poll list \<Rightarrow> bool" where
  "polls_keep I polls \<longleftrightarrow> (\<forall>p \<in> set polls. \<forall>s. I s \<longrightarrow> I (fst p s))"

interpretation held_frame: acquire_frame "\<lambda>s. held aid s" for aid
  by unfold_locales (auto simp: held_def)

text \<open>The steps of an action keep every property that acquiring keeps and that neither the columns of the
  registry nor the catalog's, the journal's and the verification tables matter to.\<close>

locale action_frame = acquire_frame I
  for I :: "('d, 'x) manager_world_scheme \<Rightarrow> bool" +
  assumes registry: "I s \<Longrightarrow> I (s\<lparr>sw_reg := reg\<rparr>)"
    and overrides: "I s \<Longrightarrow> I (s\<lparr>cs_applied := ap, cs_overrides := ov\<rparr>)"
    and applied: "I s \<Longrightarrow> I (s\<lparr>cs_applied := ap\<rparr>)"
    and verified: "I s \<Longrightarrow> I (s\<lparr>mw_verified := v\<rparr>)"
    and commands: "I s \<Longrightarrow> I (s\<lparr>mw_commands := c\<rparr>)"
begin

lemma keeps_on_registry: "keeps I (on_registry f)"
  unfolding on_registry_def by (intro step_rules registry)

lemma keeps_remove_record: "keeps I (remove_record st env aid load_test r)"
  unfolding remove_record_def mark_status_def
  by (intro step_rules keeps_remove_owned keeps_on_registry) auto

lemma keeps_remove_records: "keeps I (remove_records st env aid username load_test)"
  unfolding remove_records_def by (intro step_rules keeps_remove_record) auto

lemma keeps_on_cache: "keeps I (on_cache m)"
  by (rule tripleI) (auto simp: on_cache_def cache split: prod.splits)

lemma keeps_stage: "keeps I (stage su disk a p)"
proof (rule tripleI)
  have "I t" if "I s" "stage su disk a p s = (r, t)" for s r t
    using that by (auto simp: stage_cases Let_def overrides split: sum.splits option.splits)
  then show "\<And>s x t. I s \<Longrightarrow> stage su disk a p s = (Inr x, t) \<Longrightarrow> I t" "\<And>s e t. I s \<Longrightarrow> stage su disk a p s = (Inl e, t) \<Longrightarrow> I t"
    by blast+
qed

lemma keeps_apply_bundle: "keeps I (apply_bundle st env aid body)"
  unfolding apply_bundle_def by (intro step_rules keeps_on_cache keeps_stage verified) auto

lemma keeps_commit: "keeps I (commit su an disk a)"
proof (rule tripleI)
  have "I t" if s: "I s" and c: "commit su an disk a s = (r, t)" for s r t
  proof (cases "map_of (cs_overrides s) a")
    case None
    show ?thesis
    proof (cases "validate_identifier a ''agent_id''")
      case (Inl e)
      with s c show ?thesis by (simp add: commit_def sx_step_defs)
    next
      case (Inr x)
      with None c have "load su an a s = (r, t)" by (simp add: commit_def sx_then_def sx_bind_def sx_of_res_def sx_lift_def)
      then show ?thesis by (rule keepsD [OF keeps_load s])
    qed
  next
    case (Some p)
    obtain ra s1 where au: "authoritative su an a s = (ra, s1)" by fastforce
    have "I s1" by (rule keepsD [OF keeps_authoritative s au])
    with s commit_cases [OF Some au, of disk] c show ?thesis
      by (auto simp: Let_def overrides split: sum.splits if_splits option.splits)
  qed
  then show "\<And>s x t. I s \<Longrightarrow> commit su an disk a s = (Inr x, t) \<Longrightarrow> I t" "\<And>s e t. I s \<Longrightarrow> commit su an disk a s = (Inl e, t) \<Longrightarrow> I t"
    by blast+
qed

lemma keeps_drain: "polls_keep I polls \<Longrightarrow> keeps I (drain st aid polls)"
proof (rule tripleI)
  have "I t" if "polls_keep I polls" "I s" "drain st aid polls s = (r, t)" for s r t
    using that
  proof (induction st aid polls s rule: drain.induct)
    case (1 st aid s)
    then show ?case by simp
  next
    case (2 st aid others get polls s)
    have i: "I (others s)" using "2.prems"(1,2) by (auto simp: polls_keep_def)
    show ?case
      using "2.prems" i "2.IH" [OF refl] by (auto simp: Let_def polls_keep_def split: sum.splits if_splits)
  qed
  then show "\<And>s x t. polls_keep I polls \<Longrightarrow> I s \<Longrightarrow> drain st aid polls s = (Inr x, t) \<Longrightarrow> I t"
    "\<And>s e t. polls_keep I polls \<Longrightarrow> I s \<Longrightarrow> drain st aid polls s = (Inl e, t) \<Longrightarrow> I t" by blast+
qed

end

interpretation held_action: action_frame "\<lambda>s. held aid s" for aid
  by unfold_locales (auto simp: held_def)

section \<open>Halting an Agent\<close>

text \<open>What the last poll saw: no request and no acquisition of the Agent open, every sandbox idle.\<close>

definition quiet :: "'d sandbox_setup \<Rightarrow> (string \<Rightarrow> string \<Rightarrow> json res) \<Rightarrow> string \<Rightarrow> ('d, 'x) manager_world_scheme \<Rightarrow> bool" where
  "quiet st get aid s \<longleftrightarrow> count_for aid (sw_requests s) = 0 \<and> count_for aid (sw_acquiring s) = 0
     \<and> (\<forall>r \<in> set (agent_sandboxes aid (sw_reg s)). execution st (get (sb_id r)) r s = Inr ''idle'')"

lemma emap_all_idle: "emap f xs = Inr ys \<Longrightarrow> list_all (\<lambda>y. y = v) ys \<Longrightarrow> x \<in> set xs \<Longrightarrow> f x = Inr v"
  by (induction xs arbitrary: ys) (auto simp: exc_simps)

lemma drain_quiet:
  "drain st aid polls s = (Inr (), s1) \<Longrightarrow> \<exists>others get. (others, get) \<in> set polls \<and> quiet st get aid s1"
proof (induction st aid polls s rule: drain.induct)
  case (1 st aid s)
  then show ?case by simp
next
  case (2 st aid others get polls s)
  let ?s = "others s"
  show ?case
  proof (cases "emap (\<lambda>r. execution st (get (sb_id r)) r ?s) (agent_sandboxes aid (sw_reg ?s))")
    case (Inl e)
    with "2.prems" show ?thesis by (simp add: Let_def)
  next
    case (Inr status)
    show ?thesis
    proof (cases "count_for aid (sw_requests ?s) = 0 \<and> count_for aid (sw_acquiring ?s) = 0 \<and> list_all (\<lambda>x. x = ''idle'') status")
      case True
      with "2.prems" Inr have "s1 = ?s" by (simp add: Let_def)
      with True emap_all_idle [OF Inr] have "quiet st get aid s1" by (auto simp: quiet_def)
      then show ?thesis by auto
    next
      case False
      with "2.prems" Inr have "drain st aid polls ?s = (Inr (), s1)" by (auto simp: Let_def)
      from "2.IH" [OF refl Inr False this] show ?thesis by auto
    qed
  qed
qed

definition halts :: "string \<Rightarrow> bool" where
  "halts name \<longleftrightarrow> name \<in> {''quiesce'', ''apply'', ''archive'', ''delete'', ''restart'', ''stop''}"

lemma sx_then_lift: "sx_then (sx_lift f) m s = (case f s of Inl e \<Rightarrow> (Inl e, s) | Inr x \<Rightarrow> m s)"
  by (simp add: sx_step_defs)

lemma sx_then_modify: "sx_then (sx_modify f) m s = m (f s)"
  by (simp add: sx_step_defs)

lemma halt_held:
  assumes run: "halt_agent st env polls name aid body s = (res, s')" and peers: "polls_keep (held aid) polls"
  shows "(s' = s \<and> (\<exists>e. res = Inl e)) \<or> (held aid s' \<and> (\<forall>x. res = Inr x \<longrightarrow>
    (\<exists>others get s0 s1. (others, get) \<in> set polls \<and> quiet st get aid s1 \<and> drain st aid polls s0 = (Inr (), s1) \<and> held aid s0)))"
proof (cases "check_fingerprint env aid body ''Deletion impact changed'' (sw_reg s)")
  case (Inl e)
  with run have "res = Inl e" "s' = s" by (simp_all add: halt_agent_def sx_step_defs)
  then show ?thesis by simp
next
  case (Inr u)
  define s0 where "s0 = s\<lparr>sw_blocked := List.insert aid (sw_blocked s), mw_blocks := List.insert aid (mw_blocks s)\<rparr>"
  define later where "later = sx_then (sx_of_res (g_float env (dget body ''timeout'' (JInt 120))))
    (sx_then (drain st aid polls) (halt_finish st env name aid body))"
  have l: "later s0 = (res, s')"
    using run Inr unfolding halt_agent_def later_def [symmetric] by (simp add: sx_then_lift sx_then_modify block_def s0_def)
  have h0: "held aid s0" by (simp add: s0_def held_def)
  have "keeps (held aid) later"
    unfolding later_def halt_finish_def
    by (intro step_rules held_action.keeps_drain [OF peers] held_action.keeps_apply_bundle held_action.keeps_remove_records
        held_action.keeps_on_registry) auto
  from keepsD [OF this h0 l] have h: "held aid s'" .
  moreover have "\<exists>others get s1. (others, get) \<in> set polls \<and> quiet st get aid s1 \<and> drain st aid polls s0 = (Inr (), s1)" if "res = Inr x" for x
  proof -
    from l [unfolded that later_def sx_then_Inr sx_of_res_Inr] obtain s1 where "drain st aid polls s0 = (Inr (), s1)" by auto
    with drain_quiet [OF this] show ?thesis by blast
  qed
  ultimately show ?thesis using h0 by blast
qed

text \<open>A blocked Agent is refused, in this process and in the next one.\<close>

definition refused :: "string \<Rightarrow> ('d, 'x) manager_world_scheme \<Rightarrow> bool" where
  "refused aid s \<longleftrightarrow> (\<forall>(st :: 'd sandbox_setup) env others1 others2 a u. aid = ''*'' \<or> a = aid \<longrightarrow>
     acquire st env others1 others2 a u s = (Inl (HTTPException 503 ''Agent lifecycle operation in progress''), s))"

lemma blocked_refused: "aid \<in> set (sw_blocked s) \<Longrightarrow> refused aid s"
  by (auto simp: refused_def acquire_def sx_then_lift check_acquire_local_def blocks_agent_def raise_if_def)

lemma held_refused: "held aid s \<Longrightarrow> refused aid s \<and> refused aid (restart_manager s)"
  by (auto simp: held_def restart_manager_def intro: blocked_refused)

lemma close_action_shape: "\<exists>rows. close_action key result s = (Inr result, s\<lparr>mw_commands := rows\<rparr>)"
proof (cases key)
  case None
  then show ?thesis by (intro exI [of _ "mw_commands s"]) (simp add: close_action_def sx_step_defs)
qed (auto simp: close_action_def close_command_def sx_step_defs)

lemma agent_action_new:
  assumes "action_head aid body = Inr name" and "journal_key body = Inr key"
    and "open_command key (agent_payload aid body) s = (Inr None, s0)" and "agent_step st env polls name aid body s0 = (r1, s1)"
  shows "\<exists>rows. run_agent_action st env polls aid body s = (case r1 of Inl e \<Rightarrow> (Inl e, s1)
    | Inr extra \<Rightarrow> (Inr (action_result name aid extra), s1\<lparr>mw_commands := rows\<rparr>))"
proof (cases r1)
  case (Inl e)
  then show ?thesis using assms by (simp add: run_agent_action_def sx_bind_def sx_of_res_def)
next
  case (Inr extra)
  obtain rows where "close_action key (action_result name aid extra) s1 = (Inr (action_result name aid extra), s1\<lparr>mw_commands := rows\<rparr>)"
    using close_action_shape by blast
  then show ?thesis using assms Inr by (auto simp: run_agent_action_def sx_bind_def sx_of_res_def)
qed

text \<open>C31: a halting action (quiesce, apply, archive, delete, restart, stop) that was not answered from its journal
  either was refused before it changed anything, or leaves the Agent blocked, whether it succeeds or
  fails: acquiring a sandbox of it is refused, also by a restarted service. It succeeds only after a poll
  during the block found no request and no acquisition open and every sandbox idle.\<close>

theorem agent_halt_holds:
  assumes run: "run_agent_action st env polls aid body s = (res, s')" and head: "action_head aid body = Inr name" and h: "halts name"
    and key: "journal_key body = Inr key" and new: "open_command key (agent_payload aid body) s = (Inr None, s0)"
    and peers: "polls_keep (held aid) polls"
  shows "(s' = s0 \<and> (\<exists>e. res = Inl e)) \<or>
    (refused aid s' \<and> refused aid (restart_manager s') \<and> (\<forall>x. res = Inr x \<longrightarrow>
       (\<exists>others get t t'. (others, get) \<in> set polls \<and> held aid t \<and> drain st aid polls t = (Inr (), t') \<and> quiet st get aid t')))"
proof -
  have step: "agent_step st env polls name aid body = halt_agent st env polls name aid body"
    using h by (auto simp: agent_step_def halts_def)
  obtain r1 s1 where r1: "halt_agent st env polls name aid body s0 = (r1, s1)" by fastforce
  note hh = halt_held [OF r1 peers]
  obtain rows where out: "(res, s') = (case r1 of Inl e \<Rightarrow> (Inl e, s1)
    | Inr extra \<Rightarrow> (Inr (action_result name aid extra), s1\<lparr>mw_commands := rows\<rparr>))"
    using agent_action_new [OF head key new, of st env polls r1 s1] run r1 step by auto
  show ?thesis
  proof (cases r1)
    case (Inl e)
    with out have "res = Inl e" "s' = s1" by simp_all
    with hh Inl held_refused show ?thesis by blast
  next
    case (Inr extra)
    with hh have hs: "held aid s1" by auto
    from Inr out have "s' = s1\<lparr>mw_commands := rows\<rparr>" by simp
    with hs have "held aid s'" by (simp add: held_def)
    with hh Inr held_refused show ?thesis by blast
  qed
qed

section \<open>Resuming an Agent\<close>

text \<open>What a committed version rests on: the bundle the catalog answers is the staged one.\<close>

definition confirmed :: "'d sandbox_setup \<Rightarrow> manager_env \<Rightarrow> string \<Rightarrow> path \<Rightarrow> bool" where
  "confirmed st env target p \<longleftrightarrow> (\<exists>b. bundle_reply (ca_bundle (g_catalog env) target) = Inr b \<and>
     bundle_target (ct_root (st_catalog st)) b target = Inr p)"

lemma authoritative_confirmed:
  assumes "authoritative (st_catalog st) (g_catalog env) a s = (Inr p, s')"
  shows "confirmed st env a p"
proof -
  from assms obtain b where b: "bundle_reply (ca_bundle (g_catalog env) a) = Inr b"
    by (auto simp: authoritative_def sx_bind_def sx_of_res_def split: sum.splits)
  with assms obtain c where "install_bundle (ca_race1 (g_catalog env) a) (ca_race2 (g_catalog env) a) (ct_root (st_catalog st)) a b (cs_cache s) = (Inr p, c)"
    by (auto simp: authoritative_def sx_bind_def sx_of_res_def on_cache_def split: prod.splits)
  from install_bundle_content [OF this] b show ?thesis by (auto simp: confirmed_def)
qed

text \<open>While versions are committed every override is the one before or a confirmed one that is gone; blocks stay.\<close>

definition settling :: "'d sandbox_setup \<Rightarrow> manager_env \<Rightarrow> ('d, 'x) manager_world_scheme \<Rightarrow> ('d, 'x) manager_world_scheme \<Rightarrow> bool" where
  "settling st env s0 s \<longleftrightarrow> sw_blocked s = sw_blocked s0 \<and> mw_blocks s = mw_blocks s0 \<and>
     (\<forall>t. map_of (cs_overrides s) t = map_of (cs_overrides s0) t
        \<or> map_of (cs_overrides s) t = None \<and> (\<exists>p. map_of (cs_overrides s0) t = Some p \<and> confirmed st env t p))"

lemma settling_refl: "settling st env s s"
  by (simp add: settling_def)

lemma settling_cache: "settling st env s0 s \<Longrightarrow> settling st env s0 (s\<lparr>cs_cache := c\<rparr>)"
  by (simp add: settling_def)

lemma commit_settles:
  assumes c: "commit (st_catalog st) (g_catalog env) disk a s = (r, s')" and set: "settling st env s0 s"
  shows "settling st env s0 s' \<and> ((\<exists>d. r = Inr d) \<longrightarrow> map_of (cs_overrides s') a = None)
    \<and> (\<forall>t. map_of (cs_overrides s) t = None \<longrightarrow> map_of (cs_overrides s') t = None)"
proof -
  obtain ra s1 where au: "authoritative (st_catalog st) (g_catalog env) a s = (ra, s1)" by fastforce
  obtain ca where s1: "s1 = s\<lparr>cs_cache := ca\<rparr>" by (rule authoritative_grows [OF au])
  show ?thesis
  proof (cases "map_of (cs_overrides s) a")
    case None
    have "s' = s \<or> s' = s1"
      using c au None by (auto simp: commit_def load_def sx_then_def sx_bind_def sx_of_res_def sx_lift_def split: sum.splits prod.splits)
    then show ?thesis using s1 set None by (auto simp: settling_cache)
  next
    case (Some p)
    show ?thesis
    proof (cases r)
      case (Inl e)
      with commit_Inl [OF Some au c [unfolded Inl]] s1 set show ?thesis by (auto simp: settling_cache)
    next
      case (Inr d)
      note ci = commit_Inr [OF Some au c [unfolded Inr]]
      have conf: "confirmed st env a p" using authoritative_confirmed [of st env a s p s1] au ci(2) by simp
      have "map_of (cs_overrides s0) a = Some p" using set Some unfolding settling_def by (metis option.distinct(1))
      with set s1 conf Inr show ?thesis by (auto simp: ci(4) settling_def)
    qed
  qed
qed

lemma commits_settle:
  assumes "sx_for (\<lambda>t. sx_then (commit (st_catalog st) (g_catalog env) disk t) (sx_return ())) ts s = (r, s')" and "settling st env s0 s"
  shows "settling st env s0 s' \<and> (r = Inr () \<longrightarrow> (\<forall>t \<in> set ts. map_of (cs_overrides s') t = None))
    \<and> (\<forall>t. map_of (cs_overrides s) t = None \<longrightarrow> map_of (cs_overrides s') t = None)"
  using assms
proof (induction ts arbitrary: s)
  case Nil
  then show ?case by (simp add: sx_return_def)
next
  case (Cons a ts)
  obtain r1 s1 where c: "commit (st_catalog st) (g_catalog env) disk a s = (r1, s1)" by fastforce
  note cs = commit_settles [OF c Cons.prems(2)]
  show ?case
  proof (cases r1)
    case (Inl e)
    with Cons.prems(1) c have "r = Inl e" "s' = s1" by (simp_all add: sx_then_def sx_bind_def)
    with cs show ?thesis by simp
  next
    case (Inr d)
    with Cons.prems(1) c have "sx_for (\<lambda>t. sx_then (commit (st_catalog st) (g_catalog env) disk t) (sx_return ())) ts s1 = (r, s')"
      by (simp add: sx_then_def sx_bind_def sx_return_def)
    from Cons.IH [OF this] cs Inr show ?thesis by auto
  qed
qed

text \<open>C38: resuming lifts the block only after the catalog has confirmed every staged version of the Agent (of every
  Agent for \<open>*\<close>): each was the version of the bundle the catalog answered, and none is staged afterwards.
  When a version is not confirmed, the action fails and the blocks stay as they were.\<close>

theorem agent_resume_confirmed:
  assumes run: "run_agent_action st env polls aid body s = (res, s')" and head: "action_head aid body = Inr ''resume''"
    and key: "journal_key body = Inr key" and new: "open_command key (agent_payload aid body) s = (Inr None, s0)"
  shows "(case res of
      Inr x \<Rightarrow> aid \<notin> set (sw_blocked s') \<and> aid \<notin> set (mw_blocks s') \<and> (\<forall>t \<in> set (staged_targets aid s0).
        map_of (cs_overrides s') t = None \<and> (\<exists>p. map_of (cs_overrides s0) t = Some p \<and> confirmed st env t p))
    | Inl e \<Rightarrow> sw_blocked s' = sw_blocked s0 \<and> mw_blocks s' = mw_blocks s0)"
proof -
  obtain r1 s1 where c: "sx_for (\<lambda>t. sx_then (commit (st_catalog st) (g_catalog env) (g_disk env) t) (sx_return ())) (staged_targets aid s0) s0 = (r1, s1)"
    by fastforce
  note cs = commits_settle [OF c settling_refl]
  define s2 where "s2 = s1\<lparr>sw_blocked := removeAll aid (sw_blocked s1), mw_blocks := removeAll aid (mw_blocks s1)\<rparr>"
  define q where "q = (case r1 of Inl e \<Rightarrow> Inl e | Inr _ \<Rightarrow> Inr ([] :: jdict))"
  define s3 where "s3 = (case r1 of Inl e \<Rightarrow> s1 | Inr _ \<Rightarrow> s2)"
  have step: "agent_step st env polls ''resume'' aid body s0 = (q, s3)"
  proof -
    have b: "sx_bind (sx_lift (\<lambda>s. Inr (staged_targets aid s)))
        (sx_for (\<lambda>t. sx_then (commit (st_catalog st) (g_catalog env) (g_disk env) t) (sx_return ()))) s0 = (r1, s1)"
      using c by (simp add: sx_bind_def sx_lift_def)
    have "resume_agent st env ''resume'' aid s0 = (case r1 of Inl e \<Rightarrow> (Inl e, s1) | Inr _ \<Rightarrow> (Inr (), s2))"
      unfolding resume_agent_def if_P [OF refl] sx_then_def [of "sx_bind (sx_lift _) _"] sx_bind_def [of "sx_bind (sx_lift _) _"] b
      by (simp add: unblock_def sx_modify_def s2_def split: sum.split)
    then show ?thesis by (simp add: agent_step_def sx_then_def sx_bind_def sx_return_def q_def s3_def split: sum.split)
  qed
  obtain rows where out: "(res, s') = (case q of Inl e \<Rightarrow> (Inl e, s3)
    | Inr extra \<Rightarrow> (Inr (action_result ''resume'' aid extra), s3\<lparr>mw_commands := rows\<rparr>))"
    using agent_action_new [OF head key new step] run by auto
  show ?thesis
  proof (cases r1)
    case (Inl e)
    with out have "res = Inl e" "s' = s1" by (simp_all add: q_def s3_def)
    with cs show ?thesis by (simp add: settling_def)
  next
    case (Inr u)
    with out obtain x where "res = Inr x" and s': "s' = s2\<lparr>mw_commands := rows\<rparr>" by (simp add: q_def s3_def)
    moreover have "\<exists>p. map_of (cs_overrides s0) t = Some p \<and> confirmed st env t p" if t: "t \<in> set (staged_targets aid s0)" for t
    proof -
      have "map_of (cs_overrides s1) t = None" using cs Inr t by simp
      moreover have "map_of (cs_overrides s0) t \<noteq> None"
        using t by (auto simp: staged_targets_def dkeys_def map_of_eq_None_iff split: if_splits)
      ultimately show ?thesis using cs unfolding settling_def by metis
    qed
    ultimately show ?thesis using cs Inr by (auto simp: s2_def)
  qed
qed

section \<open>Concrete actions\<close>

definition demo_quiesce :: jdict where
  "demo_quiesce = [(''action'', JStr ''quiesce'')]"

definition demo_polls :: "(container_view option, 'x) poll list" where
  "demo_polls = [(id, \<lambda>_ _. Inr (JObj []))]"

lemma demo_head:
  "action_head ''a'' demo_quiesce = Inr ''quiesce''" "journal_key demo_quiesce = Inr None"
  "action_head ''a1'' [(''action'', JStr ''resume'')] = Inr ''resume''" "journal_key [(''action'', JStr ''resume'')] = Inr None"
  by (simp_all add: action_head_def demo_quiesce_def jget_def dget_def in_strings_def agent_action_names_def journal_key_def
      validate_identifier_def identifier_pattern_def ident_tail_char_def char_class_defs)

lemma demo_unjournaled: "open_command None payload s = (Inr None, s)"
  by (simp add: open_command_def sx_return_def)

lemma demo_drain:
  assumes "sw_reg s = sw_reg demo_manager_world" "sw_docker s = None" "sw_in_use s = []" "sw_subscribers s = []" "sw_requests s = []" "sw_acquiring s = []"
  shows "drain demo_sandbox_setup ''a'' demo_polls s = (Inr (), s)"
proof -
  let ?r = "demo_sandbox\<lparr>sb_container := None\<rparr>"
  have "execution demo_sandbox_setup (\<lambda>_. Inr (JObj [])) ?r s = Inr ''idle''"
    using assms
    by (simp add: execution_def active_request_leases_def observe_idle_def inspect_def get_sandbox_def sb_owner_def find_existing_def
        recorded_container_def get_container_def demo_manager_world_def demo_sandbox_setup_def demo_docker_def demo_sandbox_def)
  moreover have "agent_sandboxes ''a'' (sw_reg s) = [?r]"
    using assms by (simp add: agent_sandboxes_def demo_manager_world_def demo_sandbox_def)
  ultimately show ?thesis using assms by (simp add: demo_polls_def count_for_def)
qed

theorem agent_halt_holds_witness:
  "\<exists>result s'. run_agent_action demo_sandbox_setup demo_manager_env demo_polls ''a'' demo_quiesce demo_manager_world = (Inr result, s')
     \<and> refused ''a'' s' \<and> refused ''a'' (restart_manager s')"
proof -
  define s0 where "s0 = demo_manager_world\<lparr>sw_blocked := [''a''], mw_blocks := [''a'']\<rparr>"
  have nf: "\<not> truthy (jget demo_quiesce ''expected_fingerprint'')" by (simp add: demo_quiesce_def jget_def dget_def)
  have d: "drain demo_sandbox_setup ''a'' demo_polls s0 = (Inr (), s0)"
    by (rule demo_drain) (simp_all add: s0_def demo_manager_world_def)
  have b: "demo_manager_world\<lparr>sw_blocked := List.insert ''a'' (sw_blocked demo_manager_world), mw_blocks := List.insert ''a'' (mw_blocks demo_manager_world)\<rparr> = s0"
    by (simp add: s0_def demo_manager_world_def)
  have "halt_finish demo_sandbox_setup demo_manager_env ''quiesce'' ''a'' demo_quiesce s0 = (Inr [], s0)"
    by (simp add: halt_finish_def check_fingerprint_def nf sx_step_defs)
  then have "halt_agent demo_sandbox_setup demo_manager_env demo_polls ''quiesce'' ''a'' demo_quiesce demo_manager_world = (Inr [], s0)"
    by (simp add: halt_agent_def check_fingerprint_def nf sx_then_lift sx_then_modify block_def b)
       (simp add: sx_then_def sx_bind_def sx_of_res_def demo_manager_env_def d)
  then have step: "agent_step demo_sandbox_setup demo_manager_env demo_polls ''quiesce'' ''a'' demo_quiesce demo_manager_world = (Inr [], s0)"
    by (simp add: agent_step_def)
  obtain rows where r: "run_agent_action demo_sandbox_setup demo_manager_env demo_polls ''a'' demo_quiesce demo_manager_world
      = (Inr (action_result ''quiesce'' ''a'' []), s0\<lparr>mw_commands := rows\<rparr>)"
    using agent_action_new [OF demo_head(1,2) demo_unjournaled step] by auto
  have peers: "polls_keep (held ''a'') demo_polls" by (simp add: polls_keep_def demo_polls_def)
  have "halts ''quiesce''" by (simp add: halts_def)
  from agent_halt_holds [OF r demo_head(1) this demo_head(2) demo_unjournaled peers] r show ?thesis by auto
qed

lemma demo_authoritative_any:
  "cs_cache t = [(demo_staged, demo_tree)] \<Longrightarrow> authoritative demo_setup demo_answer ''a1'' t = (Inr demo_staged, t)"
  by (rule authoritative_again [OF demo_authoritative]) (simp add: demo_catalog_def)

theorem agent_resume_confirmed_witness:
  "\<exists>result s'. run_agent_action demo_sandbox_setup demo_manager_env [] ''a1'' [(''action'', JStr ''resume'')]
      (demo_manager_world\<lparr>sw_blocked := [''a1''], mw_blocks := [''a1'']\<rparr>) = (Inr result, s')
     \<and> ''a1'' \<notin> set (sw_blocked s') \<and> map_of (cs_overrides s') ''a1'' = None \<and> confirmed demo_sandbox_setup demo_manager_env ''a1'' demo_staged"
proof -
  let ?s = "demo_manager_world\<lparr>sw_blocked := [''a1''], mw_blocks := [''a1'']\<rparr>"
  have ov: "map_of (cs_overrides ?s) ''a1'' = Some demo_staged" and t: "staged_targets ''a1'' ?s = [''a1'']"
    by (simp_all add: demo_manager_world_def staged_targets_def)
  have au: "authoritative demo_setup demo_answer ''a1'' ?s = (Inr demo_staged, ?s)"
    by (rule demo_authoritative_any) (simp add: demo_manager_world_def)
  obtain d where d: "definition_of demo_setup ''a1'' demo_staged (cs_cache demo_manager_world) = Inr d"
    using demo_load by (cases "definition_of demo_setup ''a1'' demo_staged (cs_cache demo_catalog)") (auto simp: demo_catalog_def demo_manager_world_def)
  have "\<exists>s1. commit demo_setup demo_answer None ''a1'' ?s = (Inr d, s1)"
    using d by (simp add: commit_cases [OF ov au] demo_ident Let_def)
  then obtain s1 where "commit demo_setup demo_answer None ''a1'' ?s = (Inr d, s1)" by blast
  then have "resume_agent demo_sandbox_setup demo_manager_env ''resume'' ''a1'' ?s
      = (Inr (), s1\<lparr>sw_blocked := removeAll ''a1'' (sw_blocked s1), mw_blocks := removeAll ''a1'' (mw_blocks s1)\<rparr>)"
    by (simp add: resume_agent_def sx_then_def sx_bind_def sx_lift_def t demo_sandbox_setup_def demo_manager_env_def sx_return_def
        unblock_def sx_modify_def)
  then have step: "agent_step demo_sandbox_setup demo_manager_env [] ''resume'' ''a1'' [(''action'', JStr ''resume'')] ?s
      = (Inr [], s1\<lparr>sw_blocked := removeAll ''a1'' (sw_blocked s1), mw_blocks := removeAll ''a1'' (mw_blocks s1)\<rparr>)"
    by (simp add: agent_step_def sx_then_def sx_bind_def sx_return_def)
  obtain result s' where r: "run_agent_action demo_sandbox_setup demo_manager_env [] ''a1'' [(''action'', JStr ''resume'')] ?s = (Inr result, s')"
    using agent_action_new [OF demo_head(3,4) demo_unjournaled step] by auto
  from agent_resume_confirmed [OF r demo_head(3,4) demo_unjournaled] t ov r show ?thesis by auto
qed

section \<open>Containers without a recorded identifier\<close>

text \<open>An interrupted creation leaves a row without container identifier, while the container stands under its
  name. Applying, stopping and deleting look only at the identifier: such a container stays, although
  \<open>execution\<close> and \<open>destroy\<close> find it by its name. After a deletion its labels name an Agent the
  catalog does not have, and the start-up snapshot fails on it.\<close>

lemma unrecorded_container_survives:
  assumes "sb_container r = None" and "active_request_leases s (sb_id r) = 0"
  shows "\<exists>reg. remove_record st env aid test r s = (Inr (JStr (sb_id r)), s\<lparr>sw_reg := reg\<rparr>)"
    "find_existing st (Some r) (sb_agent r) (sb_user r) s = find_existing st None (sb_agent r) (sb_user r) s"
  using assms
  by (auto simp: remove_record_def mark_status_def on_registry_def recorded_container_def find_existing_def sx_step_defs raise_if_def)

end
