(* ===== verification/HealthMonitor.thy ===== *)
theory HealthMonitor
  imports AgentLifecycle
begin

text \<open>
  \<open>sandbox_manager/health.py\<close>: one pass of the monitor over the sandboxes of the registry, which marks
  failing ones unhealthy and removes the containers of idle ones. A check runs under the lock of its
  user, but other tasks go on at every \<open>await\<close>: \<open>interference\<close> holds what they do while the lock is
  waited for, while the Agent's definition is read (one entry per attempt; the list ends when the pass
  is cancelled), during the health probe and while the native sessions are listed.
\<close>

record 'd monitor_world = "'d manager_world" +
  hm_failures :: "(string, int) dict"
  hm_definitions :: "(string \<times> path option, agent_definition res) dict"

record check_env =
  hm_active :: "string \<Rightarrow> string \<Rightarrow> reply"
  hm_now :: rat
  hm_later :: rat
  hm_clock :: string
  hm_parse :: "string \<Rightarrow> rat res"
  hm_catalog :: catalog_answer
  hm_threshold :: int
  hm_health :: "string \<Rightarrow> json res"
  hm_get :: "string \<Rightarrow> json res"

record 'w interference =
  at_lock :: "'w \<Rightarrow> 'w"
  at_definition :: "('w \<Rightarrow> 'w) list"
  at_probe :: "'w \<Rightarrow> 'w"
  at_sessions :: "'w \<Rightarrow> 'w"

section \<open>The definition of an Agent during a pass\<close>

definition registered_path :: "string \<Rightarrow> registry \<Rightarrow> path option" where
  "registered_path a reg = map_option (posix_tail \<circ> ag_config_path) (find_row ag_id a (agents reg))"

text \<open>The reads of a pass are shared per Agent and registered path.\<close>

definition shared_load :: "'d sandbox_setup \<Rightarrow> check_env \<Rightarrow> string \<Rightarrow> path option \<Rightarrow> (('d, 'x) monitor_world_scheme, agent_definition) sx" where
  "shared_load st env a p = (\<lambda>s. case map_of (hm_definitions s) (a, p) of
     Some r \<Rightarrow> (r, s)
   | None \<Rightarrow> (case load (st_catalog st) (hm_catalog env) a s of (r, s1) \<Rightarrow> (r, s1\<lparr>hm_definitions := dput (a, p) r (hm_definitions s1)\<rparr>)))"

fun idle_definition ::
  "'d sandbox_setup \<Rightarrow> check_env \<Rightarrow> (('d, 'x) monitor_world_scheme \<Rightarrow> ('d, 'x) monitor_world_scheme) list \<Rightarrow> string \<Rightarrow>
    (('d, 'x) monitor_world_scheme, agent_definition) sx" where
  "idle_definition st env [] a = sx_raise CancelledError"
| "idle_definition st env (others # rest) a =
    sx_bind (sx_lift (\<lambda>s. Inr (registered_path a (sw_reg s)))) (\<lambda>p.
    sx_bind (sx_catch (shared_load st env a p) (\<lambda>e. Some (sx_then (sx_modify others) (sx_raise e)))) (\<lambda>d.
    sx_then (sx_modify others)
    (sx_bind (sx_lift (\<lambda>s. Inr (registered_path a (sw_reg s)))) (\<lambda>current.
     if current \<noteq> p then idle_definition st env rest a
     else if p \<noteq> Some (ad_path d) then sx_raise (RuntimeError ''Agent publication snapshot changed; defer idle eviction'')
     else sx_return d))))"

section \<open>Checking one sandbox\<close>

definition still_status :: "container_view \<Rightarrow> bool" where
  "still_status c \<longleftrightarrow> cv_status c \<in> {''exited'', ''created'', ''dead''}"

definition monitored :: "check_env \<Rightarrow> sandbox_row \<Rightarrow> ('d, 'x) monitor_world_scheme \<Rightarrow> bool res" where
  "monitored env r s = ebind (active_user (hm_active env) (sb_agent r) (sb_user r)) (\<lambda>active.
     Inr (\<not> active \<and> \<not> blocks_agent (sw_blocked s) (sb_agent r) \<and> sb_container r \<noteq> None \<and> sb_container r \<noteq> Some []))"

text \<open>\<open>_get_container\<close> of a row read again: the client refuses an empty identifier.\<close>

definition container_of :: "'d sandbox_setup \<Rightarrow> sandbox_row \<Rightarrow> ('d, 'x) monitor_world_scheme \<Rightarrow> container_view option res" where
  "container_of st r s = (case sb_container r of
     Some (c # cs) \<Rightarrow> get_container st (c # cs) (sw_docker s) | _ \<Rightarrow> Inl (DockerException ''Resource ID was not provided''))"

definition owned_container :: "'d sandbox_setup \<Rightarrow> sandbox_row \<Rightarrow> ('d, 'x) monitor_world_scheme \<Rightarrow> container_view option res" where
  "owned_container st r s = ebind (container_of st r s) (\<lambda>found.
     ebind (case found of Some c \<Rightarrow> verify_ownership st c (sb_agent r) (sb_user r) (sw_reg s) | None \<Rightarrow> Inr ()) (\<lambda>_. Inr found))"

definition expired :: "check_env \<Rightarrow> rat \<Rightarrow> int \<Rightarrow> sandbox_row \<Rightarrow> bool res" where
  "expired env now timeout r = ebind (hm_parse env (sb_last_active r)) (\<lambda>t. Inr (of_int timeout \<le> now - t))"

definition remove_idle :: "'d sandbox_setup \<Rightarrow> sandbox_row \<Rightarrow> container_view \<Rightarrow> (('d, 'x) monitor_world_scheme, unit) sx" where
  "remove_idle st r c =
    sx_bind (on_docker (d_remove (st_docker st) (cv_id c))) (\<lambda>found.
    if \<not> found then sx_raise (DockerAPIError ''NotFound'')
    else sx_then (put_sandbox (sb_id r) (sb_agent r) (sb_user r) None None ''stopped'' (sb_image r) (sb_last_active r))
      (sx_modify (\<lambda>s. s\<lparr>hm_failures := dpop (sb_id r) (hm_failures s)\<rparr>)))"

text \<open>Deleting a container whose stop succeeded before; \<open>True\<close> ends the check.\<close>

definition retry_removal :: "'d sandbox_setup \<Rightarrow> bool \<Rightarrow> sandbox_row \<Rightarrow> (('d, 'x) monitor_world_scheme, bool) sx" where
  "retry_removal st due r =
    sx_bind (sx_lift (\<lambda>s. if due \<and> dget (sw_in_use s) (sb_id r) 0 = 0 then owned_container st r s else Inr None)) (\<lambda>found. case found of
      None \<Rightarrow> sx_return False
    | Some c \<Rightarrow> if still_status c then sx_then (remove_idle st r c) (sx_return True) else sx_return False)"

definition observe_stopped :: "'d sandbox_setup \<Rightarrow> sandbox_row \<Rightarrow> (('d, 'x) monitor_world_scheme, bool) sx" where
  "observe_stopped st r =
    (if sb_status r \<noteq> ''stopped'' then sx_return False
     else sx_bind (sx_lift (owned_container st r)) (\<lambda>found. case found of
       None \<Rightarrow> sx_return False
     | Some c \<Rightarrow> if still_status c
         then sx_then (sx_modify (\<lambda>s. s\<lparr>hm_failures := dpop (sb_id r) (hm_failures s)\<rparr>)) (sx_return True) else sx_return False))"

definition probe_sandbox :: "'d sandbox_setup \<Rightarrow> check_env \<Rightarrow> sandbox_row \<Rightarrow> ('d, 'x) monitor_world_scheme \<Rightarrow> endpoint res" where
  "probe_sandbox st env r s =
    ebind (inspect st (sb_agent r) (sb_user r) s) (\<lambda>ep. case ep of
      None \<Rightarrow> Inl (RuntimeError ''sandbox is no longer running'')
    | Some ep \<Rightarrow> ebind (hm_health env (ep_container ep)) (\<lambda>payload.
        ebind (attr_get payload ''healthy'' JNull) (\<lambda>healthy. ebind (attr_get payload ''version'' JNull) (\<lambda>version.
        if healthy \<noteq> JBool True \<or> version \<noteq> JStr (st_expected_version st) then Inl (RuntimeError ''OpenCode health/version mismatch'')
        else Inr ep))))"

definition count_failure :: "check_env \<Rightarrow> sandbox_row \<Rightarrow> (('d, 'x) monitor_world_scheme, unit) sx" where
  "count_failure env r =
    sx_then (sx_modify (\<lambda>s. s\<lparr>hm_failures := dput (sb_id r) (dget (hm_failures s) (sb_id r) 0 + 1) (hm_failures s)\<rparr>))
    (sx_bind (sx_lift (\<lambda>s. Inr (hm_threshold env \<le> dget (hm_failures s) (sb_id r) 0))) (\<lambda>reached.
     if reached then on_registry (set_health_status (sb_id r) ''unhealthy'') else sx_return ()))"

definition note_healthy :: "sandbox_row \<Rightarrow> (('d, 'x) monitor_world_scheme, unit) sx" where
  "note_healthy r =
    sx_then (sx_modify (\<lambda>s. s\<lparr>hm_failures := dpop (sb_id r) (hm_failures s)\<rparr>))
    (if sb_status r \<in> {''unhealthy'', ''stopped''} then on_registry (set_health_status (sb_id r) ''ready'') else sx_return ())"

text \<open>\<open>any(value.get("type") != "idle" for value in sessions.values())\<close> stops at the first hit.\<close>

fun any_busy :: "json list \<Rightarrow> bool res" where
  "any_busy [] = Inr False"
| "any_busy (v # vs) = ebind (attr_get v ''type'' JNull) (\<lambda>ty. if ty \<noteq> JStr ''idle'' then Inr True else any_busy vs)"

definition sessions_busy :: "check_env \<Rightarrow> endpoint \<Rightarrow> ('d, 'x) monitor_world_scheme \<Rightarrow> bool res" where
  "sessions_busy env ep s =
    ebind (directory_collection (hm_get env) (ep_sandbox ep) (sw_reg s) True) (\<lambda>sessions. case sessions of
      JObj d \<Rightarrow> any_busy (map snd d) | _ \<Rightarrow> Inr True)"

definition sessions_unknown :: "exc \<Rightarrow> bool" where
  "sessions_unknown e \<longleftrightarrow> (case e of HTTPError _ \<Rightarrow> True | AttributeError _ \<Rightarrow> True | _ \<Rightarrow> is_value_error e)"

definition evict :: "'d sandbox_setup \<Rightarrow> sandbox_row \<Rightarrow> (('d, 'x) monitor_world_scheme, unit) sx" where
  "evict st r = sx_bind (sx_lift (owned_container st r)) (\<lambda>found. case found of
     None \<Rightarrow> sx_return ()
   | Some c \<Rightarrow> sx_then (on_docker (d_stop (st_docker st) (cv_id c))) (remove_idle st r c))"

definition evict_idle ::
  "'d sandbox_setup \<Rightarrow> check_env \<Rightarrow> ('d, 'x) monitor_world_scheme interference \<Rightarrow> sandbox_row \<Rightarrow> endpoint \<Rightarrow> (('d, 'x) monitor_world_scheme, unit) sx" where
  "evict_idle st env ot r ep = (\<lambda>s. case sessions_busy env ep s of
     Inl e \<Rightarrow> if sessions_unknown e then (Inr (), at_sessions ot s) else (Inl e, at_sessions ot s)
   | Inr True \<Rightarrow> on_registry (touch_sandbox (sb_id r) (hm_clock env)) (at_sessions ot s)
   | Inr False \<Rightarrow> evict st r (at_sessions ot s))"

definition settle_healthy ::
  "'d sandbox_setup \<Rightarrow> check_env \<Rightarrow> ('d, 'x) monitor_world_scheme interference \<Rightarrow> int \<Rightarrow> sandbox_row \<Rightarrow> endpoint \<Rightarrow> (('d, 'x) monitor_world_scheme, unit) sx" where
  "settle_healthy st env ot timeout r ep =
    sx_then (note_healthy r)
    (sx_bind (sx_lift (\<lambda>s. Inr (dget (sw_in_use s) (sb_id r) 0 \<noteq> 0))) (\<lambda>used.
     if used then on_registry (touch_sandbox (sb_id r) (hm_clock env))
     else sx_bind (sx_of_res (expired env (hm_later env) timeout r)) (\<lambda>due.
       if \<not> due then sx_return () else evict_idle st env ot r ep)))"

definition check_health ::
  "'d sandbox_setup \<Rightarrow> check_env \<Rightarrow> ('d, 'x) monitor_world_scheme interference \<Rightarrow> int \<Rightarrow> sandbox_row \<Rightarrow> (('d, 'x) monitor_world_scheme, unit) sx" where
  "check_health st env ot timeout r = (\<lambda>s. case probe_sandbox st env r s of
     Inl e \<Rightarrow> if is_exception e then count_failure env r (at_probe ot s) else (Inl e, at_probe ot s)
   | Inr ep \<Rightarrow> settle_healthy st env ot timeout r ep (at_probe ot s))"

definition check_row ::
  "'d sandbox_setup \<Rightarrow> check_env \<Rightarrow> ('d, 'x) monitor_world_scheme interference \<Rightarrow> sandbox_row \<Rightarrow> (('d, 'x) monitor_world_scheme, unit) sx" where
  "check_row st env ot r =
    sx_then (sx_of_res (hm_parse env (sb_last_active r)))
    (sx_bind (idle_definition st env (at_definition ot) (sb_agent r)) (\<lambda>d.
     sx_bind (sx_of_res (expired env (hm_now env) (ad_idle_timeout d) r)) (\<lambda>due.
     sx_bind (retry_removal st due r) (\<lambda>removed. if removed then sx_return ()
     else sx_bind (observe_stopped st r) (\<lambda>stopped. if stopped then sx_return ()
     else check_health st env ot (ad_idle_timeout d) r)))))"

definition check_locked ::
  "'d sandbox_setup \<Rightarrow> check_env \<Rightarrow> ('d, 'x) monitor_world_scheme interference \<Rightarrow> string \<Rightarrow> string \<Rightarrow> (('d, 'x) monitor_world_scheme, unit) sx" where
  "check_locked st env ot a u =
    sx_bind (sx_lift (\<lambda>s. Inr (if blocks_agent (sw_blocked s) a then None else get_sandbox a u (sw_reg s)))) (\<lambda>record. case record of
      None \<Rightarrow> sx_return ()
    | Some r \<Rightarrow> if sb_status r \<notin> {''ready'', ''unhealthy'', ''stopped''} then sx_return () else check_row st env ot r)"

definition check_sandbox ::
  "'d sandbox_setup \<Rightarrow> check_env \<Rightarrow> ('d, 'x) monitor_world_scheme interference \<Rightarrow> sandbox_row \<Rightarrow> (('d, 'x) monitor_world_scheme, unit) sx" where
  "check_sandbox st env ot snapshot =
    sx_bind (sx_lift (monitored env snapshot)) (\<lambda>go. if \<not> go then sx_return ()
     else sx_then (sx_modify (at_lock ot)) (check_locked st env ot (sb_agent snapshot) (sb_user snapshot)))"

section \<open>A pass\<close>

text \<open>A failing check is logged and the next one runs. The workers take the records in turn; what the
  other workers do meanwhile is part of the interference of a check.\<close>

fun check_each ::
  "'d sandbox_setup \<Rightarrow> (sandbox_row \<Rightarrow> check_env) \<Rightarrow> (sandbox_row \<Rightarrow> ('d, 'x) monitor_world_scheme interference) \<Rightarrow> sandbox_row list \<Rightarrow>
    (('d, 'x) monitor_world_scheme, unit) sx" where
  "check_each st env ot [] = sx_return ()"
| "check_each st env ot (r # rs) =
    sx_then (sx_catch (check_sandbox st (env r) (ot r) r) (on_exc is_exception (sx_return ()))) (check_each st env ot rs)"

definition monitor_tick ::
  "'d sandbox_setup \<Rightarrow> (sandbox_row \<Rightarrow> check_env) \<Rightarrow> (sandbox_row \<Rightarrow> ('d, 'x) monitor_world_scheme interference) \<Rightarrow> (('d, 'x) monitor_world_scheme, unit) sx" where
  "monitor_tick st env ot =
    sx_then (sx_modify (\<lambda>s. s\<lparr>hm_definitions := []\<rparr>))
    (sx_bind (sx_lift (\<lambda>s. Inr (sandboxes (sw_reg s)))) (check_each st env ot))"

section \<open>What justifies an eviction\<close>

text \<open>Other tasks do not touch the containers of the user whose lock is held.\<close>

definition leaves_docker :: "('w \<Rightarrow> 'd) \<Rightarrow> 'w interference \<Rightarrow> bool" where
  "leaves_docker docker_of ot \<longleftrightarrow> (\<forall>f \<in> {at_lock ot, at_probe ot, at_sessions ot} \<union> set (at_definition ot). \<forall>s. docker_of (f s) = docker_of s)"

text \<open>A container that a failed removal left standing: the idle time of the row read under the lock is over when
  the definition has been read, and no request holds a lease then.\<close>

definition left_standing ::
  "'d sandbox_setup \<Rightarrow> check_env \<Rightarrow> int \<Rightarrow> sandbox_row \<Rightarrow> container_view \<Rightarrow> ('d, 'x) monitor_world_scheme \<Rightarrow> bool" where
  "left_standing st env timeout r c s1 \<longleftrightarrow> expired env (hm_now env) timeout r = Inr True \<and> dget (sw_in_use s1) (sb_id r) 0 = 0
     \<and> owned_container st r s1 = Inr (Some c) \<and> still_status c"

text \<open>A running one: the sandbox answered the probe of this check, its idle time was over after it, no request held a
  lease when the answer came, and with that state every session of every directory was reported idle. The container
  is the one found once the reports had come.\<close>

definition running_idle ::
  "'d sandbox_setup \<Rightarrow> check_env \<Rightarrow> ('d, 'x) monitor_world_scheme interference \<Rightarrow> int \<Rightarrow> sandbox_row \<Rightarrow> container_view \<Rightarrow>
    ('d, 'x) monitor_world_scheme \<Rightarrow> bool" where
  "running_idle st env ot timeout r c s1 \<longleftrightarrow> (\<exists>ep t. probe_sandbox st env r s1 = Inr ep
     \<and> dget (sw_in_use (at_probe ot s1)) (sb_id r) 0 = 0 \<and> expired env (hm_later env) timeout r = Inr True
     \<and> note_healthy r (at_probe ot s1) = (Inr (), t) \<and> sessions_busy env ep t = Inr False
     \<and> owned_container st r (at_sessions ot t) = Inr (Some c))"

text \<open>Docker is asked to remove that container, after a stop when it runs.\<close>

definition container_ended :: "'d sandbox_setup \<Rightarrow> container_view \<Rightarrow> 'd \<Rightarrow> 'd \<Rightarrow> bool" where
  "container_ended st c d d' \<longleftrightarrow> d' = snd (d_remove (st_docker st) (cv_id c) d) \<or>
     (let stopping = d_stop (st_docker st) (cv_id c) d in
      d' = snd stopping \<or> fst stopping = Inr () \<and> d' = snd (d_remove (st_docker st) (cv_id c) (snd stopping)))"

lemma remove_idle_regs: "sx_then (on_docker f) (remove_idle st r c) s = (res, s') \<Longrightarrow> sw_in_use s' = sw_in_use s"
  by (auto simp: remove_idle_def on_docker_def put_sandbox_def sx_step_defs split: prod.splits sum.splits if_splits)

lemma authoritative_docker: "authoritative su an a s = (r, s') \<Longrightarrow> sw_docker s' = sw_docker s"
  by (erule authoritative_grows) simp

lemma load_docker: "load su an a s = (r, s') \<Longrightarrow> sw_docker s' = sw_docker s"
  by (auto simp: load_def sx_then_outcome sx_bind_outcome sx_of_res_def sx_lift_def sx_return_def dest!: authoritative_docker split: option.splits)

lemma shared_load_docker: "shared_load st env a p s = (r, s') \<Longrightarrow> sw_docker s' = sw_docker s"
  by (auto simp: shared_load_def split: option.splits prod.splits dest: load_docker)

lemma idle_definition_docker:
  "idle_definition st env defs a s = (r, s') \<Longrightarrow> \<forall>f \<in> set defs. \<forall>s. sw_docker (f s) = sw_docker s \<Longrightarrow> sw_docker s' = sw_docker s"
proof (induction defs arbitrary: s)
  case Nil
  then show ?case by (simp add: sx_raise_def)
next
  case (Cons others rest)
  let ?p = "registered_path a (sw_reg s)"
  obtain r1 s1 where l: "shared_load st env a ?p s = (r1, s1)" by fastforce
  have d: "sw_docker (others s1) = sw_docker s" using shared_load_docker [OF l] Cons.prems(2) by simp
  show ?case
  proof (cases r1)
    case (Inl e)
    with l Cons.prems(1) d show ?thesis by (simp add: sx_step_defs)
  next
    case (Inr x)
    with l Cons.prems(1) have "(if registered_path a (sw_reg (others s1)) \<noteq> ?p then idle_definition st env rest a
      else if ?p \<noteq> Some (ad_path x) then sx_raise (RuntimeError ''Agent publication snapshot changed; defer idle eviction'')
      else sx_return x) (others s1) = (r, s')"
      by (simp add: sx_then_def sx_bind_def sx_lift_def sx_modify_def sx_catch_def)
    with Cons.IH [of "others s1"] Cons.prems(2) d show ?thesis by (auto simp: sx_raise_def sx_return_def split: if_splits)
  qed
qed

lemma idle_definition_path:
  "idle_definition st env defs a s = (Inr d, s') \<Longrightarrow> registered_path a (sw_reg s') = Some (ad_path d)"
proof (induction defs arbitrary: s)
  case Nil
  then show ?case by (simp add: sx_raise_def)
next
  case (Cons others rest)
  let ?p = "registered_path a (sw_reg s)"
  from Cons.prems obtain x s1 where "shared_load st env a ?p s = (Inr x, s1)" and
    "(if registered_path a (sw_reg (others s1)) \<noteq> ?p then idle_definition st env rest a
      else if ?p \<noteq> Some (ad_path x) then sx_raise (RuntimeError ''Agent publication snapshot changed; defer idle eviction'')
      else sx_return x) (others s1) = (Inr d, s')"
    by (cases "shared_load st env a ?p s")
       (auto simp: sx_then_def sx_bind_def sx_lift_def sx_modify_def sx_catch_def sx_raise_def split: sum.splits)
  with Cons.IH [of "others s1"] show ?case by (auto simp: sx_raise_def sx_return_def split: if_splits)
qed

lemma put_sandbox_docker: "put_sandbox sid a u c p stt img now s = (res, s') \<Longrightarrow> sw_docker s' = sw_docker s"
  by (auto simp: put_sandbox_def split: sum.splits prod.splits)

lemma remove_idle_docker: "remove_idle st r c s = (res, s') \<Longrightarrow> sw_docker s' = snd (d_remove (st_docker st) (cv_id c) (sw_docker s))"
  by (auto simp: remove_idle_def on_docker_def sx_step_defs dest!: put_sandbox_docker split: prod.splits sum.splits if_splits)

lemma evict_ends:
  assumes "evict st r s = (res, s')" and "owned_container st r s = Inr (Some c)"
  shows "container_ended st c (sw_docker s) (sw_docker s')"
proof -
  obtain stopped d1 where stop: "d_stop (st_docker st) (cv_id c) (sw_docker s) = (stopped, d1)" by fastforce
  show ?thesis
  proof (cases stopped)
    case (Inl e)
    with assms stop show ?thesis
      by (auto simp: container_ended_def Let_def evict_def sx_then_def sx_bind_def sx_lift_def on_docker_def)
  next
    case (Inr x)
    with assms stop have "remove_idle st r c (s\<lparr>sw_docker := d1\<rparr>) = (res, s')"
      by (simp add: evict_def sx_then_def sx_bind_def sx_lift_def on_docker_def)
    from remove_idle_docker [OF this] stop Inr show ?thesis by (simp add: container_ended_def Let_def)
  qed
qed

lemma retry_removal_same: "retry_removal st due r s = (Inr False, s') \<Longrightarrow> s' = s"
  by (auto simp: retry_removal_def sx_step_defs split: sum.splits option.splits if_splits prod.splits)

lemma retry_removal_docker:
  assumes "retry_removal st due r s = (res, s')" and "sw_docker s' \<noteq> sw_docker s"
  shows "due \<and> dget (sw_in_use s) (sb_id r) 0 = 0 \<and>
    (\<exists>c. owned_container st r s = Inr (Some c) \<and> still_status c \<and> container_ended st c (sw_docker s) (sw_docker s'))"
proof -
  from assms obtain c res1 where c: "due" "dget (sw_in_use s) (sb_id r) 0 = 0" "owned_container st r s = Inr (Some c)" "still_status c"
    and rem: "remove_idle st r c s = (res1, s')"
    by (auto simp: retry_removal_def sx_step_defs split: sum.splits option.splits if_splits prod.splits)
  from remove_idle_docker [OF rem] c show ?thesis by (auto simp: container_ended_def)
qed

lemma observe_stopped_same: "observe_stopped st r s = (Inr False, s') \<Longrightarrow> s' = s"
  by (auto simp: observe_stopped_def sx_step_defs split: sum.splits option.splits if_splits)

lemma observe_stopped_docker: "observe_stopped st r s = (res, s') \<Longrightarrow> sw_docker s' = sw_docker s"
  by (auto simp: observe_stopped_def sx_step_defs split: sum.splits option.splits if_splits)

lemma on_registry_docker: "on_registry f s = (res, s') \<Longrightarrow> sw_docker s' = sw_docker s"
  by (auto simp: on_registry_def sx_modify_def)

lemma evict_idle_docker:
  assumes "evict_idle st env ot r ep s = (res, s')" and "sw_docker (at_sessions ot s) = sw_docker s" and "sw_docker s' \<noteq> sw_docker s"
  shows "sessions_busy env ep s = Inr False \<and> (\<exists>c. owned_container st r (at_sessions ot s) = Inr (Some c) \<and>
    container_ended st c (sw_docker s) (sw_docker s'))"
proof -
  from assms have busy: "sessions_busy env ep s = Inr False" and ev: "evict st r (at_sessions ot s) = (res, s')"
    by (auto simp: evict_idle_def dest: on_registry_docker split: sum.splits if_splits bool.splits)
  with assms(2,3) obtain c where c: "owned_container st r (at_sessions ot s) = Inr (Some c)"
    by (auto simp: evict_def sx_step_defs split: sum.splits option.splits)
  from evict_ends [OF ev c] assms(2) busy c show ?thesis by auto
qed

lemma note_healthy_step: "\<exists>s1. note_healthy r s = (Inr (), s1) \<and> sw_docker s1 = sw_docker s \<and> sw_in_use s1 = sw_in_use s"
  by (simp add: note_healthy_def on_registry_def sx_step_defs)

lemma settle_healthy_docker:
  assumes "settle_healthy st env ot timeout r ep s = (res, s')" and "\<And>t. sw_docker (at_sessions ot t) = sw_docker t"
    and "sw_docker s' \<noteq> sw_docker s"
  shows "\<exists>t c. note_healthy r s = (Inr (), t) \<and> dget (sw_in_use s) (sb_id r) 0 = 0 \<and> expired env (hm_later env) timeout r = Inr True \<and>
    sessions_busy env ep t = Inr False \<and> owned_container st r (at_sessions ot t) = Inr (Some c) \<and> container_ended st c (sw_docker s) (sw_docker s')"
proof -
  obtain s1 where n: "note_healthy r s = (Inr (), s1)" "sw_docker s1 = sw_docker s" "sw_in_use s1 = sw_in_use s" using note_healthy_step by blast
  with assms(1,3) have "dget (sw_in_use s) (sb_id r) 0 = 0" "expired env (hm_later env) timeout r = Inr True"
    "evict_idle st env ot r ep s1 = (res, s')"
    by (auto simp: settle_healthy_def sx_then_def sx_bind_def sx_lift_def sx_of_res_def sx_return_def dest: on_registry_docker
        split: if_splits sum.splits)
  with evict_idle_docker [of st env ot r ep s1 res s'] assms(2,3) n show ?thesis by auto
qed

lemma count_failure_docker: "count_failure env r s = (res, s') \<Longrightarrow> sw_docker s' = sw_docker s"
  by (auto simp: count_failure_def on_registry_def sx_step_defs split: if_splits)

lemma check_health_docker:
  assumes "check_health st env ot timeout r s = (res, s')" and "leaves_docker sw_docker ot" and "sw_docker s' \<noteq> sw_docker s"
  shows "\<exists>c. running_idle st env ot timeout r c s \<and> container_ended st c (sw_docker s) (sw_docker s')"
proof -
  have keep: "sw_docker (at_probe ot t) = sw_docker t" "sw_docker (at_sessions ot t) = sw_docker t" for t
    using assms(2) by (auto simp: leaves_docker_def)
  from assms(1,3) keep obtain ep where p: "probe_sandbox st env r s = Inr ep"
    and sh: "settle_healthy st env ot timeout r ep (at_probe ot s) = (res, s')"
    by (auto simp: check_health_def dest: count_failure_docker split: sum.splits if_splits)
  from settle_healthy_docker [OF sh keep(2)] assms(3) keep(1) obtain t c where
    t: "note_healthy r (at_probe ot s) = (Inr (), t)" "dget (sw_in_use (at_probe ot s)) (sb_id r) 0 = 0"
    "expired env (hm_later env) timeout r = Inr True" "sessions_busy env ep t = Inr False"
    "owned_container st r (at_sessions ot t) = Inr (Some c)" "container_ended st c (sw_docker s) (sw_docker s')"
    by auto
  with p have "running_idle st env ot timeout r c s" unfolding running_idle_def by blast
  with t(6) show ?thesis by blast
qed

lemma check_row_docker:
  assumes "check_row st env ot r s = (res, s')" and lv: "leaves_docker sw_docker ot" and ch: "sw_docker s' \<noteq> sw_docker s"
  shows "\<exists>d s1 c. idle_definition st env (at_definition ot) (sb_agent r) s = (Inr d, s1) \<and> registered_path (sb_agent r) (sw_reg s1) = Some (ad_path d)
    \<and> (left_standing st env (ad_idle_timeout d) r c s1 \<or> running_idle st env ot (ad_idle_timeout d) r c s1)
    \<and> container_ended st c (sw_docker s) (sw_docker s')"
proof -
  have keeps: "\<forall>f \<in> set (at_definition ot). \<forall>t. sw_docker (f t) = sw_docker t" using lv by (auto simp: leaves_docker_def)
  from assms(1) obtain r1 s1 where def1: "idle_definition st env (at_definition ot) (sb_agent r) s = (r1, s1)"
    and after: "(\<exists>e. r1 = Inl e \<and> s' = s1) \<or> (\<exists>d :: agent_definition. r1 = Inr d \<and>
      sx_bind (sx_of_res (expired env (hm_now env) (ad_idle_timeout d) r)) (\<lambda>due.
       sx_bind (retry_removal st due r) (\<lambda>removed. if removed then sx_return ()
       else sx_bind (observe_stopped st r) (\<lambda>stopped. if stopped then sx_return () else check_health st env ot (ad_idle_timeout d) r))) s1 = (res, s'))"
    using ch unfolding check_row_def sx_then_outcome sx_bind_outcome [of "idle_definition _ _ _ _"] by (auto simp: sx_of_res_def)
  have d1: "sw_docker s1 = sw_docker s" by (rule idle_definition_docker [OF def1 keeps])
  with after ch obtain d :: agent_definition where r1: "r1 = Inr d" and after': "sx_bind (sx_of_res (expired env (hm_now env) (ad_idle_timeout d) r)) (\<lambda>due.
       sx_bind (retry_removal st due r) (\<lambda>removed. if removed then sx_return ()
       else sx_bind (observe_stopped st r) (\<lambda>stopped. if stopped then sx_return () else check_health st env ot (ad_idle_timeout d) r))) s1 = (res, s')"
    by auto
  with d1 ch obtain due where due: "expired env (hm_now env) (ad_idle_timeout d) r = Inr due"
    unfolding sx_bind_of_res by (cases "expired env (hm_now env) (ad_idle_timeout d) r") auto
  have rest: "sx_bind (retry_removal st due r) (\<lambda>removed. if removed then sx_return ()
       else sx_bind (observe_stopped st r) (\<lambda>stopped. if stopped then sx_return () else check_health st env ot (ad_idle_timeout d) r)) s1 = (res, s')"
    using after' unfolding sx_bind_of_res due sum.case .
  obtain r2 s2 where rr: "retry_removal st due r s1 = (r2, s2)" by fastforce
  have "\<exists>c. (left_standing st env (ad_idle_timeout d) r c s1 \<or> running_idle st env ot (ad_idle_timeout d) r c s1)
    \<and> container_ended st c (sw_docker s) (sw_docker s')"
  proof (cases "r2 = Inr False")
    case True
    then have s2: "s2 = s1" using retry_removal_same rr by blast
    obtain r3 s3 where os: "observe_stopped st r s1 = (r3, s3)" by fastforce
    have "r3 = Inr False"
      using rest rr os True s2 ch d1 observe_stopped_docker [OF os]
      by (cases r3) (auto simp: sx_bind_def sx_return_def split: if_splits)
    then have "s3 = s1" using observe_stopped_same os by blast
    then have h: "check_health st env ot (ad_idle_timeout d) r s1 = (res, s')"
      using rest rr os True s2 \<open>r3 = Inr False\<close> by (simp add: sx_bind_def)
    from check_health_docker [OF h lv] ch d1 show ?thesis by auto
  next
    case False
    then have "s' = s2" using rest rr by (cases r2) (auto simp: sx_bind_def sx_return_def)
    with retry_removal_docker [OF rr] ch d1 due show ?thesis by (auto simp: left_standing_def)
  qed
  with def1 r1 idle_definition_path show ?thesis by blast
qed

text \<open>C27: the monitor changes containers only to end the one of the sandbox it checks: then no load test runs for the
  owner, the Agent was not blocked when the lock was taken, and the idle time of the row read under the lock is over
  by the timeout of the definition this check read, which is the published one. Either the container stood still and no
  request held a lease when the definition had been read, or the sandbox answered the probe, no request held a
  lease when it answered, and every session of every directory was reported idle. The container carries
  the labels of its owner. A request that ends while the probe is awaited renews the row but not the
  check's copy of it (\<open>demo_evicted\<close>).\<close>

theorem eviction_justified:
  assumes "check_sandbox st env ot snapshot s = (res, s')" and "leaves_docker sw_docker ot" and "sw_docker s' \<noteq> sw_docker s"
  shows "active_user (hm_active env) (sb_agent snapshot) (sb_user snapshot) = Inr False \<and>
    \<not> blocks_agent (sw_blocked (at_lock ot s)) (sb_agent snapshot) \<and>
    (\<exists>r d s1 c. get_sandbox (sb_agent snapshot) (sb_user snapshot) (sw_reg (at_lock ot s)) = Some r \<and>
       idle_definition st env (at_definition ot) (sb_agent r) (at_lock ot s) = (Inr d, s1) \<and>
       registered_path (sb_agent r) (sw_reg s1) = Some (ad_path d) \<and>
       (left_standing st env (ad_idle_timeout d) r c s1 \<or> running_idle st env ot (ad_idle_timeout d) r c s1) \<and>
       container_ended st c (sw_docker s) (sw_docker s'))"
proof -
  have keep: "sw_docker (at_lock ot t) = sw_docker t" for t using assms(2) by (auto simp: leaves_docker_def)
  let ?a = "sb_agent snapshot" and ?u = "sb_user snapshot" and ?s = "at_lock ot s"
  from assms(1,3) have mon: "monitored env snapshot s = Inr True" and lk: "check_locked st env ot ?a ?u ?s = (res, s')"
    by (auto simp: check_sandbox_def sx_then_def sx_bind_def sx_lift_def sx_modify_def sx_return_def split: sum.splits if_splits)
  from mon have active: "active_user (hm_active env) ?a ?u = Inr False" by (auto simp: monitored_def exc_simps)
  from lk assms(3) keep obtain r where free: "\<not> blocks_agent (sw_blocked ?s) ?a" and r: "get_sandbox ?a ?u (sw_reg ?s) = Some r"
    and row: "check_row st env ot r ?s = (res, s')"
    by (auto simp: check_locked_def sx_bind_def sx_lift_def sx_return_def split: if_splits option.splits)
  from check_row_docker [OF row assms(2)] assms(3) keep active free r show ?thesis by auto
qed

section \<open>A concrete eviction\<close>

definition demo_container :: container_view where
  "demo_container = \<lparr>cv_id = ''c1'', cv_name = ''cloud-agent-a1-u1'', cv_labels = expected_labels demo_sandbox_setup ''a1'' ''u1'' ''img:1'',
     cv_image = ''img:1'', cv_status = ''running'',
     cv_ports = [(port_key demo_sandbox_setup, [\<lparr>pb_host_ip = Some ''127.0.0.1'', pb_host_port = Some ''4100''\<rparr>])], cv_binds = []\<rparr>"

definition demo_idle_row :: sandbox_row where
  "demo_idle_row = \<lparr>sb_id = ''s1'', sb_agent = ''a1'', sb_user = ''u1'', sb_container = Some ''c1'', sb_port = Some 4100,
     sb_status = ''ready'', sb_image = ''img:1'', sb_last_active = ''t1'', sb_created = ''t1''\<rparr>"

definition demo_published :: agent_row where
  "demo_published = \<lparr>ag_id = ''a1'', ag_config_path = ''/r/versions/v2/a1'', ag_image = ''img:1'', ag_enabled = True, ag_updated_at = ''t1''\<rparr>"

definition demo_monitored :: "container_view option monitor_world" where
  "demo_monitored = \<lparr>cs_cache = [(demo_staged, demo_tree)], cs_overrides = [(''a1'', demo_staged)], cs_applied = [(''a1'', demo_staged)],
     sw_reg = \<lparr>agents = [demo_published], sandboxes = [demo_idle_row], sessions = []\<rparr>,
     sw_docker = Some demo_container, sw_in_use = [(''s1'', 1)], sw_subscribers = [], sw_requests = [], sw_acquiring = [], sw_blocked = [],
     mw_commands = [], mw_blocks = [], mw_verified = [], mw_previews = [], hm_failures = [], hm_definitions = []\<rparr>"

definition demo_check :: check_env where
  "demo_check = \<lparr>hm_active = \<lambda>_ _. Reply 200 (JObj []), hm_now = 10, hm_later = 10, hm_clock = ''t9'',
     hm_parse = \<lambda>s. Inr (if s = ''t1'' then 0 else 10), hm_catalog = demo_answer, hm_threshold = 3,
     hm_health = \<lambda>_. Inr (JObj [(''healthy'', JBool True), (''version'', JStr ''1'')]), hm_get = \<lambda>_. Inr (JObj [])\<rparr>"

text \<open>The only request of the sandbox ends while the health probe is awaited: its idle time is written and its lease given up.\<close>

definition demo_meanwhile :: "container_view option monitor_world interference" where
  "demo_meanwhile = \<lparr>at_lock = id, at_definition = [id],
     at_probe = (\<lambda>s. s\<lparr>sw_reg := touch_sandbox ''s1'' ''t9'' (sw_reg s), sw_in_use := dpop ''s1'' (sw_in_use s)\<rparr>), at_sessions = id\<rparr>"

lemma demo_meanwhile_release:
  "sw_in_use s = [(''s1'', 1)] \<Longrightarrow>
    release \<lparr>ep_sandbox = ''s1'', ep_container = ''c1'', ep_host_port = 4100, ep_reused = True\<rparr> False (Inr ()) ''t9'' s = (Inr (), at_probe demo_meanwhile s)"
  by (simp add: release_def demo_meanwhile_def dget_def sx_step_defs on_registry_def Let_def)

lemma demo_idle_definition:
  "\<exists>d s1. idle_definition demo_sandbox_setup demo_check [id] ''a1'' demo_monitored = (Inr d, s1) \<and> ad_idle_timeout d = 1
     \<and> s1 = demo_monitored\<lparr>hm_definitions := hm_definitions s1\<rparr>"
proof -
  have l: "load_definition demo_parsers ''http://gw/v1'' (butlast demo_staged) (map_of [(demo_staged, demo_tree)]) ''a1'' =
      load_definition demo_parsers ''http://gw/v1'' (butlast demo_staged) (\<lambda>p. Some demo_tree) ''a1''"
    by (rule load_definition_dir) (simp add: demo_staged_def)
  have "\<exists>d. definition_of demo_setup ''a1'' demo_staged [(demo_staged, demo_tree)] = Inr d \<and> ad_idle_timeout d = 1 \<and> ad_path d = demo_staged"
    using l demo_definition_in [of "butlast demo_staged"]
    by (simp add: definition_of_def demo_setup_def demo_staged_def demo_opencode_def subscript_def jindex_def attr_get_def dget_def jget_def raise_if_def)
  then obtain d where d: "definition_of demo_setup ''a1'' demo_staged (cs_cache demo_monitored) = Inr d" "ad_idle_timeout d = 1" "ad_path d = demo_staged"
    by (auto simp: demo_monitored_def)
  have ov: "map_of (cs_overrides demo_monitored) ''a1'' = Some demo_staged" by (simp add: demo_monitored_def)
  have ld: "load (st_catalog demo_sandbox_setup) (hm_catalog demo_check) ''a1'' demo_monitored = (Inr d, demo_monitored)"
    using load_override [OF ov demo_ident(1), of demo_setup demo_answer] d(1) by (simp add: demo_sandbox_setup_def demo_check_def)
  have p: "registered_path ''a1'' (sw_reg demo_monitored) = Some demo_staged"
    by (simp add: registered_path_def demo_monitored_def find_row_def demo_published_def demo_staged_def posix_path_defs)
  have n: "hm_definitions demo_monitored = []" by (simp add: demo_monitored_def)
  show ?thesis
    by (rule exI [of _ d], rule exI [of _ "demo_monitored\<lparr>hm_definitions := [((''a1'', Some demo_staged), Inr d)]\<rparr>"])
       (simp add: sx_bind_lift p sx_bind_outcome sx_then_outcome sx_catch_def shared_load_def n ld d sx_modify_def sx_return_def)
qed

text \<open>The check goes on with the row it read before, so the sandbox whose request has just ended is evicted although
  its idle time has only begun.\<close>

lemma demo_evicted:
  "\<exists>s'. check_sandbox demo_sandbox_setup demo_check demo_meanwhile demo_idle_row demo_monitored = (Inr (), s') \<and> sw_docker s' = None"
proof -
  obtain d s1 where i: "idle_definition demo_sandbox_setup demo_check [id] ''a1'' demo_monitored = (Inr d, s1)" "ad_idle_timeout d = 1"
    and s1: "s1 = demo_monitored\<lparr>hm_definitions := hm_definitions s1\<rparr>" using demo_idle_definition by blast
  have m: "at_definition demo_meanwhile = [id]" "at_lock demo_meanwhile = id" by (simp_all add: demo_meanwhile_def)
  have row: "sb_agent demo_idle_row = ''a1''" "sb_user demo_idle_row = ''u1''" "sb_status demo_idle_row = ''ready''"
    by (simp_all add: demo_idle_row_def)
  have due: "expired demo_check (hm_now demo_check) 1 demo_idle_row = Inr True" "expired demo_check (hm_later demo_check) 1 demo_idle_row = Inr True"
    by (simp_all add: expired_def demo_check_def demo_idle_row_def)
  have pr: "hm_parse demo_check (sb_last_active demo_idle_row) = Inr 0" by (simp add: demo_check_def demo_idle_row_def)
  have mon: "monitored demo_check demo_idle_row demo_monitored = Inr True"
    by (simp add: monitored_def active_user_def demo_idle_row_def starts_with_def blocks_agent_def demo_monitored_def)
  have w: "sw_reg s1 = \<lparr>agents = [demo_published], sandboxes = [demo_idle_row], sessions = []\<rparr>" "sw_docker s1 = Some demo_container"
    "sw_in_use s1 = [(''s1'', 1)]" "hm_failures s1 = []"
    by (subst s1, simp add: demo_monitored_def)+
  have ret: "retry_removal demo_sandbox_setup True demo_idle_row s1 = (Inr False, s1)"
    by (simp add: retry_removal_def sx_bind_lift w demo_idle_row_def dget_def sx_return_def)
  have obs: "observe_stopped demo_sandbox_setup demo_idle_row s1 = (Inr False, s1)"
    by (simp add: observe_stopped_def demo_idle_row_def sx_return_def)
  define s2 where "s2 = at_probe demo_meanwhile s1"
  have probe: "probe_sandbox demo_sandbox_setup demo_check demo_idle_row s1 =
      Inr \<lparr>ep_sandbox = ''s1'', ep_container = ''c1'', ep_host_port = 4100, ep_reused = True\<rparr>"
    by (simp add: probe_sandbox_def inspect_def w get_sandbox_def find_row_def sb_owner_def demo_idle_row_def recorded_container_def get_container_def
        verify_ownership_def expected_image_def labels_match_def demo_container_def expected_labels_def endpoint_of_def int_text_def
        demo_sandbox_setup_def demo_docker_def demo_check_def attr_get_def dget_def jget_def raise_if_def is_digit_def nat_of_dec_def)
  define r2 where "r2 = demo_idle_row\<lparr>sb_last_active := ''t9''\<rparr>"
  have w2: "sw_reg s2 = \<lparr>agents = [demo_published], sandboxes = [r2], sessions = []\<rparr>" "sw_docker s2 = Some demo_container"
    "sw_in_use s2 = []" "hm_failures s2 = []"
    by (simp_all add: s2_def r2_def demo_meanwhile_def w touch_sandbox_def update_rows_def touch_row_def demo_idle_row_def dpop_def)
  have busy: "sessions_busy demo_check \<lparr>ep_sandbox = ''s1'', ep_container = ''c1'', ep_host_port = 4100, ep_reused = True\<rparr> t = Inr False"
    if "sessions (sw_reg t) = []" for t :: "container_view option monitor_world"
    using that by (simp add: sessions_busy_def directory_collection_def directories_of_def list_sessions_for_sandbox_def demo_check_def)
  have owned: "owned_container demo_sandbox_setup demo_idle_row t = Inr (Some demo_container)"
    if "sw_reg t = \<lparr>agents = [demo_published], sandboxes = [r2], sessions = []\<rparr>" "sw_docker t = Some demo_container"
    for t :: "container_view option monitor_world"
    using that by (simp add: owned_container_def container_of_def demo_idle_row_def get_container_def verify_ownership_def expected_image_def
        get_sandbox_def find_row_def sb_owner_def r2_def labels_match_def demo_container_def expected_labels_def demo_sandbox_setup_def
        demo_docker_def raise_if_def)
  have settle: "\<exists>s'. settle_healthy demo_sandbox_setup demo_check demo_meanwhile 1 demo_idle_row
      \<lparr>ep_sandbox = ''s1'', ep_container = ''c1'', ep_host_port = 4100, ep_reused = True\<rparr> s2 = (Inr (), s') \<and> sw_docker s' = None"
  proof -
    define s3 where "s3 = s2\<lparr>hm_failures := dpop ''s1'' (hm_failures s2)\<rparr>"
    have n: "note_healthy demo_idle_row s2 = (Inr (), s3)"
      by (simp add: note_healthy_def demo_idle_row_def sx_step_defs s3_def)
    have w3: "sw_reg s3 = \<lparr>agents = [demo_published], sandboxes = [r2], sessions = []\<rparr>" "sw_docker s3 = Some demo_container" "sw_in_use s3 = []"
      by (simp_all add: s3_def w2)
    have e: "\<exists>s'. evict demo_sandbox_setup demo_idle_row s3 = (Inr (), s') \<and> sw_docker s' = None"
      using w3 owned [OF w3(1,2)]
      by (simp add: evict_def sx_lift_def remove_idle_def sx_then_def sx_bind_def on_docker_def demo_sandbox_setup_def demo_docker_def
          put_sandbox_def upsert_sandbox_def get_sandbox_def find_row_def sb_owner_def r2_def demo_idle_row_def port_ok_def sx_modify_def Let_def)
    have "evict_idle demo_sandbox_setup demo_check demo_meanwhile demo_idle_row
        \<lparr>ep_sandbox = ''s1'', ep_container = ''c1'', ep_host_port = 4100, ep_reused = True\<rparr> s3 = evict demo_sandbox_setup demo_idle_row s3"
      using busy [of s3] w3 by (simp add: evict_idle_def demo_meanwhile_def)
    with e obtain s' where "evict_idle demo_sandbox_setup demo_check demo_meanwhile demo_idle_row
        \<lparr>ep_sandbox = ''s1'', ep_container = ''c1'', ep_host_port = 4100, ep_reused = True\<rparr> s3 = (Inr (), s')" "sw_docker s' = None" by auto
    moreover have "dget (sw_in_use s3) (sb_id demo_idle_row) 0 = 0" by (simp add: w3 dget_def)
    ultimately show ?thesis
      by (simp add: settle_healthy_def sx_then_def sx_bind_def [of "note_healthy _"] n sx_bind_lift sx_bind_of_res due)
  qed
  have "check_health demo_sandbox_setup demo_check demo_meanwhile 1 demo_idle_row s1 =
      settle_healthy demo_sandbox_setup demo_check demo_meanwhile 1 demo_idle_row \<lparr>ep_sandbox = ''s1'', ep_container = ''c1'', ep_host_port = 4100, ep_reused = True\<rparr> s2"
    by (simp add: check_health_def probe s2_def)
  then have "check_row demo_sandbox_setup demo_check demo_meanwhile demo_idle_row demo_monitored =
      settle_healthy demo_sandbox_setup demo_check demo_meanwhile 1 demo_idle_row \<lparr>ep_sandbox = ''s1'', ep_container = ''c1'', ep_host_port = 4100, ep_reused = True\<rparr> s2"
    using i ret obs m row
    by (simp add: check_row_def sx_then_def sx_bind_of_res pr due
        sx_bind_def [of "idle_definition _ _ _ _"] sx_bind_def [of "retry_removal _ _ _"] sx_bind_def [of "observe_stopped _ _"] del: idle_definition.simps)
  then show ?thesis
    using settle mon m row
    by (simp add: check_sandbox_def sx_bind_lift sx_then_modify check_locked_def demo_monitored_def blocks_agent_def get_sandbox_def
        find_row_def sb_owner_def)
qed

theorem eviction_justified_witness:
  "\<exists>r d (s1 :: container_view option monitor_world) c. get_sandbox ''a1'' ''u1'' (sw_reg demo_monitored) = Some r \<and>
     idle_definition demo_sandbox_setup demo_check [id] (sb_agent r) demo_monitored = (Inr d, s1) \<and>
     (left_standing demo_sandbox_setup demo_check (ad_idle_timeout d) r c s1 \<or>
      running_idle demo_sandbox_setup demo_check demo_meanwhile (ad_idle_timeout d) r c s1)"
proof -
  obtain s' where r: "check_sandbox demo_sandbox_setup demo_check demo_meanwhile demo_idle_row demo_monitored = (Inr (), s')" "sw_docker s' = None"
    using demo_evicted by blast
  have lv: "leaves_docker sw_docker demo_meanwhile" by (auto simp: leaves_docker_def demo_meanwhile_def)
  have ch: "sw_docker s' \<noteq> sw_docker demo_monitored" using r(2) by (simp add: demo_monitored_def)
  have row: "sb_agent demo_idle_row = ''a1''" "sb_user demo_idle_row = ''u1''" "at_lock demo_meanwhile demo_monitored = demo_monitored"
    "at_definition demo_meanwhile = [id]"
    by (simp_all add: demo_idle_row_def demo_meanwhile_def)
  from eviction_justified [OF r(1) lv ch, unfolded row] show ?thesis by blast
qed

section \<open>Sessions survive\<close>

interpretation routes_frame: acquire_frame "\<lambda>s. sessions (sw_reg s) = S" for S
  by unfold_locales (auto simp: upsert_agent_def upsert_sandbox_def Let_def split: option.splits if_splits)

definition leaves_routes :: "('d, 'x) monitor_world_scheme interference \<Rightarrow> bool" where
  "leaves_routes ot \<longleftrightarrow> (\<forall>f \<in> {at_lock ot, at_probe ot, at_sessions ot} \<union> set (at_definition ot). \<forall>s. sessions (sw_reg (f s)) = sessions (sw_reg s))"

definition routes :: "session_row list \<Rightarrow> ('d, 'x) monitor_world_scheme \<Rightarrow> bool" where
  "routes S s \<longleftrightarrow> sessions (sw_reg s) = S"

lemma routes_load: "keeps (routes S) (load su an a)" and routes_docker: "keeps (routes S) (on_docker f)"
  and routes_put: "keeps (routes S) (put_sandbox sid a u c p status img now)"
  unfolding routes_def by (rule routes_frame.keeps_load routes_frame.keeps_on_docker routes_frame.keeps_put_sandbox)+

lemma routes_registry: "(\<And>reg. sessions (f reg) = sessions reg) \<Longrightarrow> keeps (routes S) (on_registry f)"
  unfolding on_registry_def by (rule triple_modify) (simp add: routes_def)

lemma routes_shared_load: "keeps (routes S) (shared_load st env a p)"
proof (rule tripleI)
  have "routes S t" if "routes S s" "shared_load st env a p s = (r, t)" for s r t
    using that keepsD [OF routes_load] by (fastforce simp: shared_load_def routes_def split: option.splits prod.splits)
  then show "\<And>s x t. routes S s \<Longrightarrow> shared_load st env a p s = (Inr x, t) \<Longrightarrow> routes S t"
    "\<And>s e t. routes S s \<Longrightarrow> shared_load st env a p s = (Inl e, t) \<Longrightarrow> routes S t" by blast+
qed

lemma routes_idle_definition:
  "\<forall>f \<in> set defs. \<forall>s. sessions (sw_reg (f s)) = sessions (sw_reg s) \<Longrightarrow> keeps (routes S) (idle_definition st env defs a)"
proof (induction defs)
  case (Cons f defs)
  have m: "keeps (routes S) (sx_modify f)" by (rule triple_modify) (use Cons.prems in \<open>simp add: routes_def\<close>)
  have "keeps (routes S) (idle_definition st env defs a)" using Cons by simp
  then show ?case
    unfolding idle_definition.simps by (intro keeps_bind keeps_then keeps_catch triple_if triple_lift m routes_shared_load) (auto intro!: step_rules m)
qed (auto intro: step_rules)

lemma routes_remove_idle: "keeps (routes S) (remove_idle st r c)"
  unfolding remove_idle_def by (intro step_rules routes_docker routes_put) (simp_all add: routes_def)

lemma routes_evict: "keeps (routes S) (evict st r)"
  unfolding evict_def by (intro step_rules routes_docker routes_remove_idle) simp_all

lemma routes_evict_idle:
  assumes "leaves_routes ot"
  shows "keeps (routes S) (evict_idle st env ot r ep)"
proof (rule tripleI)
  have "routes S t" if "routes S s" "evict_idle st env ot r ep s = (x, t)" for s x t
  proof -
    have a: "routes S (at_sessions ot s)" using that(1) assms by (simp add: routes_def leaves_routes_def)
    have "keeps (routes S) (on_registry (touch_sandbox (sb_id r) (hm_clock env)))" by (rule routes_registry) (simp add: touch_sandbox_def)
    with that(2) a keepsD [OF routes_evict a] show ?thesis
      by (auto simp: evict_idle_def split: sum.splits bool.splits if_splits dest: keepsD)
  qed
  then show "\<And>s x t. routes S s \<Longrightarrow> evict_idle st env ot r ep s = (Inr x, t) \<Longrightarrow> routes S t"
    "\<And>s e t. routes S s \<Longrightarrow> evict_idle st env ot r ep s = (Inl e, t) \<Longrightarrow> routes S t" by blast+
qed

lemma routes_check_health:
  assumes "leaves_routes ot"
  shows "keeps (routes S) (check_health st env ot timeout r)"
proof (rule tripleI)
  have status: "keeps (routes S) (on_registry (set_health_status (sb_id r) status))" for status
    by (rule routes_registry) (simp add: set_health_status_def)
  have touch: "keeps (routes S) (on_registry (touch_sandbox (sb_id r) (hm_clock env)))" by (rule routes_registry) (simp add: touch_sandbox_def)
  have settle: "keeps (routes S) (settle_healthy st env ot timeout r ep)" for ep
    unfolding settle_healthy_def note_healthy_def
    by (intro step_rules status touch routes_evict_idle [OF assms]) (simp_all add: routes_def)
  have failure: "keeps (routes S) (count_failure env r)"
    unfolding count_failure_def by (intro step_rules status) (simp_all add: routes_def)
  have "routes S t" if "routes S s" "check_health st env ot timeout r s = (x, t)" for s x t
  proof -
    have a: "routes S (at_probe ot s)" using that(1) assms by (simp add: routes_def leaves_routes_def)
    with that(2) keepsD [OF settle a] keepsD [OF failure a] show ?thesis
      by (auto simp: check_health_def split: sum.splits if_splits)
  qed
  then show "\<And>s x t. routes S s \<Longrightarrow> check_health st env ot timeout r s = (Inr x, t) \<Longrightarrow> routes S t"
    "\<And>s e t. routes S s \<Longrightarrow> check_health st env ot timeout r s = (Inl e, t) \<Longrightarrow> routes S t" by blast+
qed

text \<open>Whatever a check does to a container and its row, no session route is lost.\<close>

lemma monitor_keeps_routes:
  assumes "leaves_routes ot"
  shows "keeps (routes S) (check_sandbox st env ot snapshot)"
proof -
  have defs: "\<forall>f \<in> set (at_definition ot). \<forall>s. sessions (sw_reg (f s)) = sessions (sw_reg s)"
    and lock: "\<And>s. sessions (sw_reg (at_lock ot s)) = sessions (sw_reg s)" using assms by (auto simp: leaves_routes_def)
  have "keeps (routes S) (check_row st env ot r)" for r
    unfolding check_row_def retry_removal_def observe_stopped_def
    by (intro step_rules routes_idle_definition [OF defs] routes_remove_idle routes_check_health [OF assms]) (simp_all add: routes_def)
  then show ?thesis
    unfolding check_sandbox_def check_locked_def by (auto intro!: step_rules simp: routes_def lock split: option.split)
qed

end
