(* ===== verification/SandboxSnapshot.thy ===== *)
theory SandboxSnapshot
  imports SandboxBackend
begin

text \<open>
  \<open>LocalDockerBackend.reconcile\<close> of \<open>sandbox_manager/backend.py\<close>: before the first request, every
  container of this installation is checked against the registry, the catalog and the expected
  mounts; only when the whole snapshot is valid are the tables brought up to date. \<open>rv_resolves p\<close>
  says that \<open>p\<close> exists and is its own resolution, \<open>rv_health\<close> is the probe of a container.
\<close>

record reconcile_env =
  rv_catalog :: catalog_answer
  rv_resolves :: "path \<Rightarrow> bool"
  rv_health :: "string \<Rightarrow> json res"
  rv_clock :: string

text \<open>What the loop has collected: the records, the agents' paths and images, the owners and ports seen.\<close>

record observation =
  ob_records :: "sandbox_row list"
  ob_agents :: "(string, string \<times> string) dict"
  ob_owners :: "(string \<times> string) list"
  ob_ports :: "int list"

definition label_identifier :: "container_view \<Rightarrow> string \<Rightarrow> string \<Rightarrow> string res" where
  "label_identifier c label field = (case map_of (cv_labels c) label of
     None \<Rightarrow> Inl (TypeError ''expected string'') | Some v \<Rightarrow> validate_identifier v field)"

definition own_error :: "string \<Rightarrow> exc" where
  "own_error msg = SandboxOwnershipError msg"

definition snapshot_image :: "'d sandbox_setup \<Rightarrow> reconcile_env \<Rightarrow> string \<Rightarrow> sandbox_row option \<Rightarrow> (('d, 'x) sandbox_world_scheme, string) sx" where
  "snapshot_image st rv a old = (case old of
     Some r \<Rightarrow> sx_return (sb_image r)
   | None \<Rightarrow> sx_bind (load (st_catalog st) (rv_catalog rv) a) (\<lambda>d. sx_return (ad_image d)))"

definition check_image :: "'d sandbox_setup \<Rightarrow> string \<Rightarrow> container_view \<Rightarrow> 'd \<Rightarrow> unit res" where
  "check_image st img c d = ebind (d_image (st_docker st) d img) (\<lambda>found. case found of
     None \<Rightarrow> Inl (DockerAPIError ''ImageNotFound'')
   | Some image_id \<Rightarrow> raise_if (cv_image c \<noteq> image_id) (own_error ''actual sandbox image differs from recovery configuration''))"

definition snapshot_path :: "'d sandbox_setup \<Rightarrow> reconcile_env \<Rightarrow> string \<Rightarrow> (('d, 'x) sandbox_world_scheme, path) sx" where
  "snapshot_path st rv a = sx_bind (sx_lift (\<lambda>s. Inr (find_row ag_id a (agents (sw_reg s))))) (\<lambda>stored. case stored of
     Some g \<Rightarrow> sx_return (posix_tail (ag_config_path g))
   | None \<Rightarrow> sx_bind (load (st_catalog st) (rv_catalog rv) a) (\<lambda>d. sx_return (ad_path d)))"

definition expected_mounts :: "'d sandbox_setup \<Rightarrow> string \<Rightarrow> string \<Rightarrow> path \<Rightarrow> (string, path \<times> bool) dict" where
  "expected_mounts st a u agent_path =
    [(''/opt/agent'', (agent_path, False)), (''/runtime-log'', (runtime_logs st a u, True)),
     (''/workspace'', (st_workspace_root st @ [a, u], True)),
     (''/state/opencode'', (st_state_root st @ [a, u, ''opencode''], True))]"

definition actual_mounts :: "container_view \<Rightarrow> (string, path \<times> bool) dict" where
  "actual_mounts c = dupdate [] (map (\<lambda>m. (bm_destination m, (bm_source m, bm_rw m))) (cv_binds c))"

definition check_mounts :: "reconcile_env \<Rightarrow> (string, path \<times> bool) dict \<Rightarrow> (string, path \<times> bool) dict \<Rightarrow> unit res" where
  "check_mounts rv expected mounts =
    (if set (dkeys mounts) \<noteq> set (dkeys expected) then Inl (own_error ''unexpected sandbox bind mounts during recovery'')
     else each_ok (\<lambda>(destination, (expected_path, writable)). case map_of mounts destination of
         None \<Rightarrow> Inl (KeyError destination)
       | Some (source, rw) \<Rightarrow> raise_if (source \<noteq> expected_path \<or> \<not> rv_resolves rv expected_path \<or> rw \<noteq> writable)
           (own_error ''sandbox mount ownership differs during recovery'')) expected)"

text \<open>Port and status of one container; a failing probe makes it unhealthy.\<close>

definition snapshot_status :: "'d sandbox_setup \<Rightarrow> reconcile_env \<Rightarrow> string \<Rightarrow> container_view \<Rightarrow> int list \<Rightarrow> (int option \<times> string) res" where
  "snapshot_status st rv sid c ports =
    (if cv_status c \<noteq> ''running'' then Inr (None, ''stopped'')
     else ebind (endpoint_of st sid True c) (\<lambda>ep.
       ebind (raise_if (ep_host_port ep \<in> set ports) (own_error ''duplicate native host port during recovery'')) (\<lambda>_.
       case rv_health rv (cv_id c) of
         Inr health \<Rightarrow> Inr (Some (ep_host_port ep),
            if json_eq health (JObj [(''healthy'', JBool True), (''version'', JStr (st_expected_version st))]) then ''ready'' else ''unhealthy'')
       | Inl e \<Rightarrow> if (case e of HTTPError _ \<Rightarrow> True | _ \<Rightarrow> is_value_error e) then Inr (Some (ep_host_port ep), ''unhealthy'') else Inl e)))"

text \<open>The first checks: whose container it is, by its labels and its name, and that the owner is new.\<close>

definition identify :: "'d sandbox_setup \<Rightarrow> container_view \<Rightarrow> observation \<Rightarrow> ('d, 'x) sandbox_world_scheme \<Rightarrow> (container_view \<times> string \<times> string) res" where
  "identify st c0 ob s =
    ebind (d_reload (st_docker st) (sw_docker s) c0) (\<lambda>c.
    ebind (label_identifier c ''cloud.agent_id'' ''agent_id'') (\<lambda>a.
    ebind (label_identifier c ''cloud.username'' ''username'') (\<lambda>u.
    ebind (verify_ownership st c a u (sw_reg s)) (\<lambda>_.
    ebind (raise_if ((a, u) \<in> set (ob_owners ob) \<or> cv_name c \<noteq> container_name st a u)
       (own_error ''duplicate or incorrectly named sandbox during recovery'')) (\<lambda>_. Inr (c, a, u))))))"

text \<open>Its image, the directory of its Agent and its mounts.\<close>

definition check_source ::
  "'d sandbox_setup \<Rightarrow> reconcile_env \<Rightarrow> container_view \<Rightarrow> string \<Rightarrow> string \<Rightarrow> sandbox_row option \<Rightarrow> (('d, 'x) sandbox_world_scheme, string \<times> path) sx" where
  "check_source st rv c a u old =
    sx_bind (snapshot_image st rv a old) (\<lambda>img.
    sx_then (sx_lift (\<lambda>s. check_image st img c (sw_docker s)))
    (sx_bind (snapshot_path st rv a) (\<lambda>agent_path.
     sx_then (sx_of_res (raise_if (\<not> prefix (ct_root (st_catalog st)) agent_path) (own_error ''Recorded Agent path escaped cache'')))
    (sx_then (sx_of_res (check_mounts rv (expected_mounts st a u agent_path) (actual_mounts c)))
     (sx_return (img, agent_path))))))"

definition observed_row :: "reconcile_env \<Rightarrow> sandbox_row option \<Rightarrow> string \<Rightarrow> container_view \<Rightarrow> string \<Rightarrow> string \<Rightarrow> string \<Rightarrow> int option \<Rightarrow> string \<Rightarrow> sandbox_row" where
  "observed_row rv old sid c a u img port status = \<lparr>sb_id = sid, sb_agent = a, sb_user = u, sb_container = Some (cv_id c), sb_port = port,
     sb_status = status, sb_image = img, sb_last_active = (case old of Some r \<Rightarrow> sb_last_active r | None \<Rightarrow> rv_clock rv),
     sb_created = (case old of Some r \<Rightarrow> sb_created r | None \<Rightarrow> rv_clock rv)\<rparr>"

definition add_observation :: "sandbox_row \<Rightarrow> path \<Rightarrow> observation \<Rightarrow> observation" where
  "add_observation r agent_path ob = ob\<lparr>ob_records := ob_records ob @ [r],
     ob_agents := dput (sb_agent r) (''/'' @ join_with ''/'' agent_path, sb_image r) (ob_agents ob),
     ob_owners := sb_owner r # ob_owners ob,
     ob_ports := (case sb_port r of Some p \<Rightarrow> p # ob_ports ob | None \<Rightarrow> ob_ports ob)\<rparr>"

definition observe :: "'d sandbox_setup \<Rightarrow> reconcile_env \<Rightarrow> container_view \<Rightarrow> observation \<Rightarrow> (('d, 'x) sandbox_world_scheme, observation) sx" where
  "observe st rv c0 ob =
    sx_bind (sx_lift (identify st c0 ob)) (\<lambda>(c, a, u).
    sx_bind (sx_lift (\<lambda>s. Inr (get_sandbox a u (sw_reg s)))) (\<lambda>old.
    sx_bind (check_source st rv c a u old) (\<lambda>(img, agent_path).
    let sid = (case old of Some r \<Rightarrow> sb_id r | None \<Rightarrow> sandbox_id st a u) in
    sx_bind (sx_of_res (snapshot_status st rv sid c (ob_ports ob))) (\<lambda>(port, status).
    sx_return (add_observation (observed_row rv old sid c a u img port status) agent_path ob)))))"

fun observe_all :: "'d sandbox_setup \<Rightarrow> reconcile_env \<Rightarrow> container_view list \<Rightarrow> observation \<Rightarrow> (('d, 'x) sandbox_world_scheme, observation) sx" where
  "observe_all st rv [] ob = sx_return ob"
| "observe_all st rv (c # cs) ob = sx_bind (observe st rv c ob) (observe_all st rv cs)"

definition empty_observation :: observation where
  "empty_observation = \<lparr>ob_records = [], ob_agents = [], ob_owners = [], ob_ports = []\<rparr>"

definition store_agents :: "observation \<Rightarrow> string \<Rightarrow> registry \<Rightarrow> registry" where
  "store_agents ob now reg = fold (\<lambda>r reg. case map_of (ob_agents ob) (sb_agent r) of
     Some (p, img) \<Rightarrow> upsert_agent (sb_agent r) p img True now reg | None \<Rightarrow> reg) (ob_records ob) reg"

definition reconcile_backend :: "'d sandbox_setup \<Rightarrow> reconcile_env \<Rightarrow> (('d, 'x) sandbox_world_scheme, nat \<times> nat) sx" where
  "reconcile_backend st rv =
    sx_bind (sx_lift (\<lambda>s. d_list (st_docker st) (sw_docker s))) (\<lambda>containers.
    sx_bind (observe_all st rv containers empty_observation) (\<lambda>ob.
    sx_then (on_registry (store_agents ob (rv_clock rv)))
    (sx_bind (\<lambda>s. case Registry.reconcile (ob_records ob) (rv_clock rv) (sw_reg s) of (r, reg) \<Rightarrow> (r, s\<lparr>sw_reg := reg\<rparr>)) (\<lambda>missing.
     sx_return (length (ob_records ob), length missing)))))"

section \<open>Nothing is written before everything is checked\<close>

named_theorems reg_rules \<open>steps that leave the registry alone\<close>

lemma reg_authoritative [reg_rules]: "keeps (\<lambda>s. sw_reg s = g) (authoritative su an a)"
  by (rule tripleI) (auto elim!: authoritative_grows)

lemma reg_load [reg_rules]: "keeps (\<lambda>s. sw_reg s = g) (load su an a)"
  unfolding load_def by (intro step_rules reg_rules) auto

lemma reg_image [reg_rules]: "keeps (\<lambda>s. sw_reg s = g) (snapshot_image st rv a old)"
  unfolding snapshot_image_def by (intro step_rules reg_rules) auto

lemma reg_path [reg_rules]: "keeps (\<lambda>s. sw_reg s = g) (snapshot_path st rv a)"
  unfolding snapshot_path_def by (intro step_rules reg_rules) auto

lemma keeps_prod_case [step_rules]: "(\<And>x y. p = (x, y) \<Longrightarrow> keeps I (f x y)) \<Longrightarrow> keeps I (case p of (x, y) \<Rightarrow> f x y)"
  by (cases p) auto

lemma reg_check_source [reg_rules]: "keeps (\<lambda>s. sw_reg s = g) (check_source st rv c a u old)"
  unfolding check_source_def by (intro step_rules reg_rules) auto

lemma reg_observe [reg_rules]: "keeps (\<lambda>s. sw_reg s = g) (observe st rv c ob)"
  unfolding observe_def Let_def by (intro step_rules reg_rules) auto

lemma reg_observe_all [reg_rules]: "keeps (\<lambda>s. sw_reg s = g) (observe_all st rv cs ob)"
  by (induction st rv cs ob rule: observe_all.induct) (auto intro!: step_rules reg_rules)

section \<open>What an adopted container is\<close>

text \<open>\<open>adopted st rv s t c0 r\<close>: the container \<open>c0\<close>, read again from Docker's state \<open>sw_docker s\<close>, becomes the
  record \<open>r\<close>. It carries the labels of the record's owner, has that owner's name, runs the image of the
  record, which is that of the owner's row in the registry or else of the Agent's definition, and mounts
  exactly the owner's workspace, state and log directories and the Agent's files, the last read-only.
  The record is ready only when the container runs and answers the probe with the expected version.
  \<open>t\<close> is the state after the reads of the catalog.\<close>

definition answers_healthy :: "'d sandbox_setup \<Rightarrow> reconcile_env \<Rightarrow> container_view \<Rightarrow> bool" where
  "answers_healthy st rv c \<longleftrightarrow> (case rv_health rv (cv_id c) of
     Inr health \<Rightarrow> json_eq health (JObj [(''healthy'', JBool True), (''version'', JStr (st_expected_version st))]) | Inl e \<Rightarrow> False)"

definition status_fits :: "'d sandbox_setup \<Rightarrow> reconcile_env \<Rightarrow> container_view \<Rightarrow> sandbox_row \<Rightarrow> bool" where
  "status_fits st rv c r \<longleftrightarrow> (if cv_status c \<noteq> ''running'' then sb_status r = ''stopped'' \<and> sb_port r = None
     else (\<exists>ep. endpoint_of st (sb_id r) True c = Inr ep \<and> sb_port r = Some (ep_host_port ep))
       \<and> sb_status r = (if answers_healthy st rv c then ''ready'' else ''unhealthy''))"

definition adopted ::
  "'d sandbox_setup \<Rightarrow> reconcile_env \<Rightarrow> ('d, 'x) sandbox_world_scheme \<Rightarrow> ('d, 'x) sandbox_world_scheme \<Rightarrow> container_view \<Rightarrow> sandbox_row \<Rightarrow> bool" where
  "adopted st rv s t c0 r \<longleftrightarrow> sw_docker t = sw_docker s \<and> sw_reg t = sw_reg s \<and> (\<exists>c agent_path s1.
     d_reload (st_docker st) (sw_docker s) c0 = Inr c \<and> sb_container r = Some (cv_id c)
     \<and> labels_match (expected_labels st (sb_agent r) (sb_user r) (expected_image st (sb_agent r) (sb_user r) (sw_reg s))) (cv_labels c)
     \<and> cv_name c = container_name st (sb_agent r) (sb_user r)
     \<and> snapshot_image st rv (sb_agent r) (get_sandbox (sb_agent r) (sb_user r) (sw_reg s)) s = (Inr (sb_image r), s1)
     \<and> d_image (st_docker st) (sw_docker s) (sb_image r) = Inr (Some (cv_image c))
     \<and> snapshot_path st rv (sb_agent r) s1 = (Inr agent_path, t) \<and> prefix (ct_root (st_catalog st)) agent_path
     \<and> set (dkeys (actual_mounts c)) = set (dkeys (expected_mounts st (sb_agent r) (sb_user r) agent_path))
     \<and> (\<forall>(k, v) \<in> set (expected_mounts st (sb_agent r) (sb_user r) agent_path). map_of (actual_mounts c) k = Some v \<and> rv_resolves rv (fst v))
     \<and> status_fits st rv c r)"

text \<open>All containers of the list, one after the other.\<close>

fun all_adopted ::
  "'d sandbox_setup \<Rightarrow> reconcile_env \<Rightarrow> ('d, 'x) sandbox_world_scheme \<Rightarrow> container_view list \<Rightarrow> sandbox_row list \<Rightarrow> bool" where
  "all_adopted st rv s [] rs \<longleftrightarrow> rs = []"
| "all_adopted st rv s (c # cs) rs \<longleftrightarrow> (\<exists>r rest t. rs = r # rest \<and> adopted st rv s t c r \<and> all_adopted st rv t cs rest)"

definition grows_by :: "observation \<Rightarrow> sandbox_row \<Rightarrow> observation \<Rightarrow> bool" where
  "grows_by ob r ob' \<longleftrightarrow> ob_records ob' = ob_records ob @ [r] \<and> sb_owner r \<notin> set (ob_owners ob) \<and> ob_owners ob' = sb_owner r # ob_owners ob
     \<and> (case sb_port r of None \<Rightarrow> ob_ports ob' = ob_ports ob | Some p \<Rightarrow> p \<notin> set (ob_ports ob) \<and> ob_ports ob' = p # ob_ports ob)"

lemma mount_step_Inr:
  "(case m of None \<Rightarrow> Inl (KeyError k) | Some (source, rw) \<Rightarrow> raise_if (source \<noteq> p \<or> \<not> rv_resolves rv p \<or> rw \<noteq> w) e) = Inr () \<longleftrightarrow>
    m = Some (p, w) \<and> rv_resolves rv p"
  by (cases m) (auto split: prod.splits)

lemma check_mounts_Inr:
  assumes "check_mounts rv expected mounts = Inr ()"
  shows "set (dkeys mounts) = set (dkeys expected)"
    "\<And>k v. (k, v) \<in> set expected \<Longrightarrow> map_of mounts k = Some v \<and> rv_resolves rv (fst v)"
proof -
  show "set (dkeys mounts) = set (dkeys expected)" using assms by (auto simp: check_mounts_def split: if_splits)
  fix k v assume kv: "(k, v) \<in> set expected"
  obtain p w where v: "v = (p, w)" by (cases v)
  have "\<forall>x \<in> set expected. (case x of (destination, expected_path, writable) \<Rightarrow> (case map_of mounts destination of
         None \<Rightarrow> Inl (KeyError destination)
       | Some (source, rw) \<Rightarrow> raise_if (source \<noteq> expected_path \<or> \<not> rv_resolves rv expected_path \<or> rw \<noteq> writable)
           (own_error ''sandbox mount ownership differs during recovery''))) = Inr ()"
    using assms by (auto simp: check_mounts_def each_ok_Inr list_all_iff split: if_splits)
  from bspec [OF this kv] show "map_of mounts k = Some v \<and> rv_resolves rv (fst v)"
    by (simp add: v mount_step_Inr)
qed

lemma snapshot_status_Inr:
  assumes "snapshot_status st rv (sb_id r) c ports = Inr (sb_port r, sb_status r)"
  shows "(case sb_port r of None \<Rightarrow> True | Some p \<Rightarrow> p \<notin> set ports) \<and> status_fits st rv c r"
proof (cases "cv_status c = ''running''")
  case False
  with assms show ?thesis by (auto simp: snapshot_status_def status_fits_def)
next
  case True
  with assms obtain ep where "endpoint_of st (sb_id r) True c = Inr ep" "sb_port r = Some (ep_host_port ep)" "ep_host_port ep \<notin> set ports"
    "sb_status r = (if answers_healthy st rv c then ''ready'' else ''unhealthy'')"
    by (cases "rv_health rv (cv_id c)") (auto simp: snapshot_status_def answers_healthy_def exc_simps split: if_splits)
  with True show ?thesis by (simp add: status_fits_def)
qed

lemma identify_Inr:
  assumes "identify st c0 ob s = Inr (c, a, u)"
  shows "d_reload (st_docker st) (sw_docker s) c0 = Inr c" "(a, u) \<notin> set (ob_owners ob)" "cv_name c = container_name st a u"
    "labels_match (expected_labels st a u (expected_image st a u (sw_reg s))) (cv_labels c)"
  using assms by (auto simp: identify_def exc_simps verify_ownership_def)

lemma docker_image: "keeps (\<lambda>s. sw_docker s = d) (snapshot_image st rv a old)"
  and docker_path: "keeps (\<lambda>s. sw_docker s = d) (snapshot_path st rv a)"
  and docker_load: "keeps (\<lambda>s. sw_docker s = d) (load su an a)"
proof -
  have l: "keeps (\<lambda>s. sw_docker s = d) (load su an a)" for su an
    unfolding load_def by (intro step_rules) (auto intro!: tripleI elim!: authoritative_grows)
  then show "keeps (\<lambda>s. sw_docker s = d) (load su an a)" .
  show "keeps (\<lambda>s. sw_docker s = d) (snapshot_image st rv a old)" "keeps (\<lambda>s. sw_docker s = d) (snapshot_path st rv a)"
    unfolding snapshot_image_def snapshot_path_def by (intro step_rules l; auto)+
qed

lemma check_source_Inr:
  assumes "check_source st rv c a u old s = (Inr (img, agent_path), s')"
  shows "prefix (ct_root (st_catalog st)) agent_path" "check_mounts rv (expected_mounts st a u agent_path) (actual_mounts c) = Inr ()"
    "\<exists>s1. snapshot_image st rv a old s = (Inr img, s1) \<and> d_image (st_docker st) (sw_docker s) img = Inr (Some (cv_image c)) \<and>
       snapshot_path st rv a s1 = (Inr agent_path, s')"
    "sw_docker s' = sw_docker s" "sw_reg s' = sw_reg s"
proof -
  from assms obtain s1 where im: "snapshot_image st rv a old s = (Inr img, s1)" and ok: "check_image st img c (sw_docker s1) = Inr ()"
    and pa: "snapshot_path st rv a s1 = (Inr agent_path, s')"
    by (auto simp: check_source_def sx_outcome_simps)
  note d1 = keepsD [OF docker_image refl im] and d2 = keepsD [OF docker_path refl pa]
  from ok d1 have "d_image (st_docker st) (sw_docker s) img = Inr (Some (cv_image c))"
    by (auto simp: check_image_def exc_simps split: option.splits)
  with im pa show "\<exists>s1. snapshot_image st rv a old s = (Inr img, s1) \<and> d_image (st_docker st) (sw_docker s) img = Inr (Some (cv_image c)) \<and>
       snapshot_path st rv a s1 = (Inr agent_path, s')" by blast
  show "sw_docker s' = sw_docker s" using d1 d2 by simp
  show "sw_reg s' = sw_reg s" by (rule keepsD [OF reg_check_source refl assms])
  show "prefix (ct_root (st_catalog st)) agent_path" "check_mounts rv (expected_mounts st a u agent_path) (actual_mounts c) = Inr ()"
    using assms by (auto simp: check_source_def sx_outcome_simps)
qed

lemma observe_Inr:
  assumes "observe st rv c0 ob s = (Inr ob', s')"
  shows "\<exists>r. grows_by ob r ob' \<and> adopted st rv s s' c0 r"
proof -
  from assms obtain c a u img agent_path sid port status where id: "identify st c0 ob s = Inr (c, a, u)"
    and src: "check_source st rv c a u (get_sandbox a u (sw_reg s)) s = (Inr (img, agent_path), s')"
    and status: "snapshot_status st rv sid c (ob_ports ob) = Inr (port, status)"
    and ob': "ob' = add_observation (observed_row rv (get_sandbox a u (sw_reg s)) sid c a u img port status) agent_path ob"
    by (auto simp: observe_def Let_def sx_outcome_simps)
  let ?r = "observed_row rv (get_sandbox a u (sw_reg s)) sid c a u img port status"
  note i = identify_Inr [OF id] and m = check_source_Inr [OF src]
  have ss: "(case port of None \<Rightarrow> True | Some p \<Rightarrow> p \<notin> set (ob_ports ob))" "status_fits st rv c ?r"
    using snapshot_status_Inr [of st rv ?r c "ob_ports ob"] status by (simp_all add: observed_row_def)
  have "grows_by ob ?r ob'"
    using i(2) ss(1) by (auto simp: grows_by_def ob' add_observation_def observed_row_def sb_owner_def split: option.splits)
  moreover have r: "sb_agent ?r = a" "sb_user ?r = u" "sb_container ?r = Some (cv_id c)" "sb_image ?r = img" by (simp_all add: observed_row_def)
  obtain s1 where s1: "snapshot_image st rv a (get_sandbox a u (sw_reg s)) s = (Inr img, s1)"
    "d_image (st_docker st) (sw_docker s) img = Inr (Some (cv_image c))" "snapshot_path st rv a s1 = (Inr agent_path, s')"
    using m(3) by blast
  have "adopted st rv s s' c0 ?r"
    unfolding adopted_def r using i(1,3,4) m(1,4,5) ss(2) s1 check_mounts_Inr [OF m(2)] by blast
  ultimately show ?thesis by blast
qed

text \<open>The records of a snapshot: one per container, in order, no owner and no port twice.\<close>

definition unmixed :: "observation \<Rightarrow> bool" where
  "unmixed ob \<longleftrightarrow> distinct (map sb_owner (ob_records ob)) \<and> distinct (List.map_filter sb_port (ob_records ob))
     \<and> set (ob_owners ob) = sb_owner ` set (ob_records ob) \<and> set (ob_ports ob) = set (List.map_filter sb_port (ob_records ob))"

lemma unmixed_grows: "unmixed ob \<Longrightarrow> grows_by ob r ob' \<Longrightarrow> unmixed ob'"
  by (cases "sb_port r") (auto simp: unmixed_def grows_by_def map_filter_def image_iff)

lemma observe_all_ok:
  "observe_all st rv cs ob s = (Inr ob', s') \<Longrightarrow> unmixed ob \<Longrightarrow>
    unmixed ob' \<and> (\<exists>rs. ob_records ob' = ob_records ob @ rs \<and> all_adopted st rv s cs rs)"
proof (induction st rv cs ob arbitrary: s rule: observe_all.induct)
  case (1 st rv ob)
  then show ?case by (simp add: sx_return_def)
next
  case (2 st rv c cs ob)
  from "2.prems"(1) obtain ob1 s1 where o1: "observe st rv c ob s = (Inr ob1, s1)" and rest: "observe_all st rv cs ob1 s1 = (Inr ob', s')"
    by (auto simp: sx_bind_Inr)
  from observe_Inr [OF o1] obtain r where r: "grows_by ob r ob1" "adopted st rv s s1 c r" by blast
  from "2.IH" [OF rest unmixed_grows [OF "2.prems"(2) r(1)]] obtain rs where
    rs: "unmixed ob'" "ob_records ob' = ob_records ob1 @ rs" "all_adopted st rv s1 cs rs" by blast
  then have "ob_records ob' = ob_records ob @ (r # rs) \<and> all_adopted st rv s (c # cs) (r # rs)"
    using r by (auto simp: grows_by_def)
  with rs(1) show ?case by blast
qed

definition snapshot_ok ::
  "'d sandbox_setup \<Rightarrow> reconcile_env \<Rightarrow> ('d, 'x) sandbox_world_scheme \<Rightarrow> container_view list \<Rightarrow> observation \<Rightarrow> bool" where
  "snapshot_ok st rv s cs ob \<longleftrightarrow> all_adopted st rv s cs (ob_records ob) \<and> distinct (map sb_owner (ob_records ob))
     \<and> distinct (List.map_filter sb_port (ob_records ob))"

section \<open>The table after the snapshot\<close>

text \<open>The row of the owner shows what the record says.\<close>

definition stored :: "sandbox_row \<Rightarrow> sandbox_row \<Rightarrow> bool" where
  "stored r0 r \<longleftrightarrow> sb_owner r = sb_owner r0 \<and> sb_container r = sb_container r0 \<and> sb_port r = sb_port r0 \<and> sb_status r = sb_status r0
     \<and> sb_image r = sb_image r0 \<and> sb_last_active r = sb_last_active r0"

text \<open>The table holds the records, and rows of owners without a container, which stand as missing.\<close>

definition table_shows :: "sandbox_row list \<Rightarrow> registry \<Rightarrow> bool" where
  "table_shows rs reg \<longleftrightarrow> (\<forall>r0 \<in> set rs. \<exists>r \<in> set (sandboxes reg). stored r0 r)
     \<and> (\<forall>r \<in> set (sandboxes reg). (\<exists>r0 \<in> set rs. stored r0 r) \<or> sb_owner r \<notin> sb_owner ` set rs \<and> sb_status r = ''missing'')"

lemma upsert_stored:
  assumes "registry_inv reg"
    and up: "upsert_sandbox (sb_id r0) (sb_agent r0) (sb_user r0) (sb_container r0) (sb_port r0) (sb_status r0) (sb_image r0) (sb_last_active r0) reg = Inr (row, reg')"
  shows "stored r0 row" "row \<in> set (sandboxes reg')"
    "\<And>r. r \<in> set (sandboxes reg') \<Longrightarrow> sb_owner r = sb_owner r0 \<Longrightarrow> r = row"
    "\<And>r. sb_owner r \<noteq> sb_owner r0 \<Longrightarrow> r \<in> set (sandboxes reg') \<longleftrightarrow> r \<in> set (sandboxes reg)"
proof -
  note o = upsert_sandbox_owner_rows [OF assms]
  note inv' = upsert_sandbox_inv [OF assms]
  show row: "row \<in> set (sandboxes reg')" by (rule o(1))
  from up show st: "stored r0 row"
    by (cases "get_sandbox (sb_agent r0) (sb_user r0) reg")
       (auto simp: upsert_sandbox_def stored_def set_sandbox_row_def sb_owner_def get_sandbox_def Let_def dest: find_row_Some split: if_splits)
  show "r = row" if "r \<in> set (sandboxes reg')" "sb_owner r = sb_owner r0" for r
    using that row o(2) inv' by (auto simp: registry_inv_def unique_key_def distinct_map inj_on_def sb_owner_def)
  show "r \<in> set (sandboxes reg') \<longleftrightarrow> r \<in> set (sandboxes reg)" if "sb_owner r \<noteq> sb_owner r0" for r
  proof
    show "r \<in> set (sandboxes reg)" if "r \<in> set (sandboxes reg')" using o(3) that \<open>sb_owner r \<noteq> sb_owner r0\<close> by (simp add: sb_owner_def)
    show "r \<in> set (sandboxes reg')" if "r \<in> set (sandboxes reg)"
      using that \<open>sb_owner r \<noteq> sb_owner r0\<close> up
      by (auto simp: upsert_sandbox_def update_rows_def sb_owner_def Let_def image_iff split: if_splits option.splits)
  qed
qed

lemma reconcile_observed_rows:
  assumes "reconcile_observed rs ids reg = (Inr out, reg')" and "registry_inv reg" and "distinct (map sb_owner rs)"
  shows "\<forall>r0 \<in> set rs. \<exists>r \<in> set (sandboxes reg'). stored r0 r"
    "\<forall>r \<in> set (sandboxes reg'). sb_owner r \<in> sb_owner ` set rs \<longrightarrow> (\<exists>r0 \<in> set rs. stored r0 r)"
    "\<forall>r. sb_owner r \<notin> sb_owner ` set rs \<longrightarrow> r \<in> set (sandboxes reg') \<longleftrightarrow> r \<in> set (sandboxes reg)"
proof -
  have "(\<forall>r0 \<in> set rs. \<exists>r \<in> set (sandboxes reg'). stored r0 r) \<and>
    (\<forall>r \<in> set (sandboxes reg'). sb_owner r \<in> sb_owner ` set rs \<longrightarrow> (\<exists>r0 \<in> set rs. stored r0 r)) \<and>
    (\<forall>r. sb_owner r \<notin> sb_owner ` set rs \<longrightarrow> r \<in> set (sandboxes reg') \<longleftrightarrow> r \<in> set (sandboxes reg))"
    using assms
  proof (induction rs ids reg rule: reconcile_observed.induct)
    case (1 ids reg)
    then show ?case by simp
  next
    case (2 r0 rs ids reg)
    from "2.prems"(1) obtain row reg1 where
      up: "upsert_sandbox (sb_id r0) (sb_agent r0) (sb_user r0) (sb_container r0) (sb_port r0) (sb_status r0) (sb_image r0) (sb_last_active r0) reg = Inr (row, reg1)"
      and rest: "reconcile_observed rs (sb_id row # ids) reg1 = (Inr out, reg')"
      by (auto split: sum.splits)
    note u = upsert_stored [OF "2.prems"(2) up]
    from "2.prems"(3) have new: "sb_owner r0 \<notin> sb_owner ` set rs" and dist: "distinct (map sb_owner rs)" by auto
    note IH = "2.IH" [OF up refl rest upsert_sandbox_inv [OF "2.prems"(2) up] dist]
    have keep: "r \<in> set (sandboxes reg') \<longleftrightarrow> r \<in> set (sandboxes reg1)" if "sb_owner r \<notin> sb_owner ` set rs" for r using IH that by blast
    have own: "sb_owner row = sb_owner r0" using u(1) by (simp add: stored_def)
    have "row \<in> set (sandboxes reg')" using keep [of row] own new u(2) by simp
    then have a: "\<forall>q \<in> set (r0 # rs). \<exists>r \<in> set (sandboxes reg'). stored q r" using IH u(1) by auto
    have b: "\<exists>q \<in> set (r0 # rs). stored q r" if r: "r \<in> set (sandboxes reg')" "sb_owner r \<in> sb_owner ` set (r0 # rs)" for r
    proof (cases "sb_owner r \<in> sb_owner ` set rs")
      case True
      with IH r(1) show ?thesis by auto
    next
      case False
      with r(2) have o: "sb_owner r = sb_owner r0" by auto
      from keep [OF False] r(1) have "r \<in> set (sandboxes reg1)" by blast
      from u(3) [OF this o] u(1) show ?thesis by simp
    qed
    have c: "r \<in> set (sandboxes reg') \<longleftrightarrow> r \<in> set (sandboxes reg)" if "sb_owner r \<notin> sb_owner ` set (r0 # rs)" for r
      using that keep [of r] u(4) [of r] by auto
    show ?case using a b c by blast
  qed
  then show "\<forall>r0 \<in> set rs. \<exists>r \<in> set (sandboxes reg'). stored r0 r"
    "\<forall>r \<in> set (sandboxes reg'). sb_owner r \<in> sb_owner ` set rs \<longrightarrow> (\<exists>r0 \<in> set rs. stored r0 r)"
    "\<forall>r. sb_owner r \<notin> sb_owner ` set rs \<longrightarrow> r \<in> set (sandboxes reg') \<longleftrightarrow> r \<in> set (sandboxes reg)" by blast+
qed

lemma reconcile_table:
  assumes inv: "registry_inv reg" and rec: "Registry.reconcile rs now reg = (Inr missing, reg')" and dist: "distinct (map sb_owner rs)"
  shows "table_shows rs reg'"
proof -
  from rec obtain ids reg1 where obs: "reconcile_observed rs [] reg = (Inr ids, reg1)"
    and m: "missing = missing_ids ids reg1" "reg' = mark_missing missing now reg1"
    by (auto simp: Registry.reconcile_def sx_bind_def Let_def split: prod.splits sum.splits)
  note rows = reconcile_observed_rows [OF obs inv dist]
  have match: "sb_id q \<in> set ids \<longleftrightarrow> sb_owner q \<in> sb_owner ` set rs" if "q \<in> set (sandboxes reg1)" for q
    using reconcile_observed_match [OF obs inv, of "{}"] that by (simp add: observed_ids_match_def)
  have table: "sandboxes reg' = map (\<lambda>q. if sb_owner q \<in> sb_owner ` set rs then q else set_status_row (''missing'', now) q) (sandboxes reg1)"
    unfolding m mark_missing_rows by (rule map_cong) (auto simp: missing_ids_def match)
  have "\<exists>r \<in> set (sandboxes reg'). stored r0 r" if r0: "r0 \<in> set rs" for r0
  proof -
    from rows(1) r0 obtain r where r: "r \<in> set (sandboxes reg1)" "stored r0 r" by blast
    then have "sb_owner r \<in> sb_owner ` set rs" using r0 by (auto simp: stored_def)
    with r(1) have "r \<in> set (sandboxes reg')" unfolding table by force
    with r(2) show ?thesis by blast
  qed
  moreover have "(\<exists>r0 \<in> set rs. stored r0 r) \<or> sb_owner r \<notin> sb_owner ` set rs \<and> sb_status r = ''missing''" if r: "r \<in> set (sandboxes reg')" for r
  proof -
    from r obtain q where q: "q \<in> set (sandboxes reg1)" "r = (if sb_owner q \<in> sb_owner ` set rs then q else set_status_row (''missing'', now) q)"
      unfolding table by auto
    with rows(2) show ?thesis by (auto simp: set_status_row_def sb_owner_def)
  qed
  ultimately show ?thesis by (simp add: table_shows_def)
qed

lemma store_agents_inv: "registry_inv reg \<Longrightarrow> registry_inv (store_agents ob now reg)"
proof -
  have "registry_inv reg \<Longrightarrow> registry_inv (fold (\<lambda>r reg. case map_of (ob_agents ob) (sb_agent r) of
     Some (p, img) \<Rightarrow> upsert_agent (sb_agent r) p img True now reg | None \<Rightarrow> reg) rs reg)" for rs reg
    by (induction rs arbitrary: reg) (auto simp: upsert_agent_inv split: option.splits)
  then show "registry_inv reg \<Longrightarrow> registry_inv (store_agents ob now reg)" unfolding store_agents_def .
qed

text \<open>C28: when the start-up check fails on a container, the registry stays as it was. It is written only from
  a snapshot in which every container Docker lists for the installation, in Docker's state at the start, carries the
  labels and the name of its owner, runs the image of its record, mounts exactly that owner's directories and the
  Agent's files and has the status its probe gave, and no two share an owner or a port. When the whole call succeeds
  on a consistent registry, the table holds these records, and every other row stands as missing.\<close>

theorem snapshot_checked_before_write:
  assumes "reconcile_backend st rv s = (res, s')"
  shows "sw_reg s' = sw_reg s \<and> (\<exists>e. res = Inl e) \<or> (\<exists>cs ob. d_list (st_docker st) (sw_docker s) = Inr cs \<and> snapshot_ok st rv s cs ob
    \<and> sw_reg s' = snd (Registry.reconcile (ob_records ob) (rv_clock rv) (store_agents ob (rv_clock rv) (sw_reg s)))
    \<and> (registry_inv (sw_reg s) \<and> (\<exists>n. res = Inr n) \<longrightarrow> table_shows (ob_records ob) (sw_reg s')))"
proof (cases "d_list (st_docker st) (sw_docker s)")
  case (Inl e)
  with assms show ?thesis by (auto simp: reconcile_backend_def sx_bind_def sx_lift_def)
next
  case (Inr cs)
  obtain r1 s1 where o: "observe_all st rv cs empty_observation s = (r1, s1)" by fastforce
  have same: "sw_reg s1 = sw_reg s" by (rule keepsD [OF reg_observe_all _ o]) simp
  show ?thesis
  proof (cases r1)
    case (Inl e)
    with assms Inr o same show ?thesis by (auto simp: reconcile_backend_def sx_bind_def sx_lift_def)
  next
    case (Inr ob)
    have ok: "snapshot_ok st rv s cs ob"
      using observe_all_ok [OF o [unfolded Inr]] by (auto simp: snapshot_ok_def unmixed_def empty_observation_def map_filter_def)
    obtain r2 reg2 where rec: "Registry.reconcile (ob_records ob) (rv_clock rv) (store_agents ob (rv_clock rv) (sw_reg s)) = (r2, reg2)" by fastforce
    have out: "sw_reg s' = reg2" "(\<exists>n. res = Inr n) \<Longrightarrow> \<exists>missing. r2 = Inr missing"
      using assms \<open>d_list _ _ = Inr cs\<close> o Inr same rec
      by (auto simp: reconcile_backend_def sx_then_def sx_bind_def sx_lift_def on_registry_def sx_modify_def sx_return_def split: prod.splits sum.splits)
    have "table_shows (ob_records ob) reg2" if "registry_inv (sw_reg s)" "\<exists>n. res = Inr n"
      using out(2) [OF that(2)] rec reconcile_table [OF store_agents_inv [OF that(1)]] ok by (auto simp: snapshot_ok_def)
    with out(1) rec ok \<open>d_list _ _ = Inr cs\<close> show ?thesis by auto
  qed
qed

definition demo_reconcile_env :: reconcile_env where
  "demo_reconcile_env = \<lparr>rv_catalog = demo_answer, rv_resolves = \<lambda>_. True, rv_health = \<lambda>_. Inr JNull, rv_clock = ''t2''\<rparr>"

theorem snapshot_checked_before_write_witness:
  "sw_reg (snd (reconcile_backend demo_sandbox_setup demo_reconcile_env (demo_world\<lparr>sw_docker := Some (spec_view
     \<lparr>sp_image = ''img:1'', sp_name = ''cloud-agent-a1-u1'', sp_environment = [], sp_labels = [(''cloud.agent_id'', ''a1''), (''cloud.username'', ''u2'')],
       sp_read_only = True, sp_cap_drop = [], sp_security_opt = [], sp_tmpfs_mb = 1, sp_binds = [], sp_port = ''4/tcp'', sp_host_ip = ''127.0.0.1'',
       sp_nano_cpus = 1, sp_memory_mb = JInt 1, sp_pids_limit = 1, sp_runtime = ''docker'', sp_privileged = False\<rparr>)\<rparr>))) = empty_registry"
proof -
  let ?c = "spec_view \<lparr>sp_image = ''img:1'', sp_name = ''cloud-agent-a1-u1'', sp_environment = [], sp_labels = [(''cloud.agent_id'', ''a1''), (''cloud.username'', ''u2'')],
       sp_read_only = True, sp_cap_drop = [], sp_security_opt = [], sp_tmpfs_mb = 1, sp_binds = [], sp_port = ''4/tcp'', sp_host_ip = ''127.0.0.1'',
       sp_nano_cpus = 1, sp_memory_mb = JInt 1, sp_pids_limit = 1, sp_runtime = ''docker'', sp_privileged = False\<rparr>"
  let ?s = "demo_world\<lparr>sw_docker := Some ?c\<rparr>"
  obtain res s' where r: "reconcile_backend demo_sandbox_setup demo_reconcile_env ?s = (res, s')" by fastforce
  have "\<not> adopted demo_sandbox_setup demo_reconcile_env ?s t ?c row" for t row
    by (auto simp: adopted_def demo_sandbox_setup_def demo_docker_def spec_view_def labels_match_def expected_labels_def)
  moreover have "d_list (st_docker demo_sandbox_setup) (sw_docker ?s) = Inr [?c]"
    by (simp add: demo_sandbox_setup_def demo_docker_def)
  ultimately have "sw_reg s' = sw_reg ?s"
    using snapshot_checked_before_write [OF r] by (auto simp: snapshot_ok_def)
  then show ?thesis using r by (simp add: demo_world_def)
qed

end
