(* ===== verification/SessionRecorder.thy ===== *)
theory SessionRecorder
  imports Registry
begin

text \<open>
  \<open>SessionRecorder\<close> of \<open>sandbox_manager/native_router.py\<close>: the requests that create sessions at the
  same time share transactions of at most 64 entries, and each waits for the answer of its own. A round
  of \<open>_flush\<close> is what arrives in the queue until its batch is cut off, and the exception of its
  transaction, if it has one; rounds beyond the list bring nothing and do not fail.
\<close>

type_synonym flush_round = "session_entry list \<times> exc option"

definition batch_limit :: nat where
  "batch_limit = 64"

definition round_of :: "flush_round list \<Rightarrow> flush_round" where
  "round_of rounds = (case rounds of [] \<Rightarrow> ([], None) | r # _ \<Rightarrow> r)"

text \<open>One transaction: when it fails, every entry of the batch gets the exception.\<close>

definition commit_batch :: "exc option \<Rightarrow> session_entry list \<Rightarrow> registry \<Rightarrow> session_row res list \<times> registry" where
  "commit_batch failure batch reg = (case failure of
     Some e \<Rightarrow> (map (\<lambda>_. Inl e) batch, reg) | None \<Rightarrow> record_sessions_batch batch reg)"

function flush :: "flush_round list \<Rightarrow> session_entry list \<Rightarrow> registry \<Rightarrow> session_row res list \<times> registry" where
  "flush rounds pending reg =
    (if pending = [] then ([], reg)
     else let (arrivals, failure) = round_of rounds;
       queue = pending @ arrivals;
       (results, reg1) = commit_batch failure (take batch_limit queue) reg;
       (later, reg2) = flush (tl rounds) (drop batch_limit queue) reg1
     in (results @ later, reg2))"
  by auto

definition arriving :: "flush_round list \<Rightarrow> nat" where
  "arriving rounds = sum_list (map (length \<circ> fst) rounds)"

lemma arriving_round: "length (fst (round_of rounds)) + arriving (tl rounds) = arriving rounds"
  by (cases rounds) (simp_all add: arriving_def round_of_def)

termination flush
proof (relation "measure (\<lambda>(rounds, pending, reg). length pending + arriving rounds)")
  fix rounds :: "flush_round list" and pending :: "session_entry list" and reg x arrivals failure queue and y :: "session_row res list \<times> registry" and results reg1
  assume "pending \<noteq> []" "x = round_of rounds" "(arrivals, failure) = x" "queue = pending @ arrivals"
  moreover from this have "length arrivals + arriving (tl rounds) = arriving rounds" using arriving_round [of rounds] by (metis fst_conv)
  ultimately show "((tl rounds, drop batch_limit queue, reg1), rounds, pending, reg) \<in> measure (\<lambda>(rounds, pending, reg). length pending + arriving rounds)"
    by (cases pending) (auto simp: batch_limit_def)
qed simp

declare flush.simps [simp del]

section \<open>Grouping is invisible\<close>

text \<open>The reference: each entry is recorded by a transaction of its own.\<close>

fun record_each :: "session_entry list \<Rightarrow> registry \<Rightarrow> session_row res list \<times> registry" where
  "record_each [] reg = ([], reg)"
| "record_each (e # es) reg =
    (let (r, reg1) = record_session e reg; (rs, reg2) = record_each es reg1 in (r # rs, reg2))"

lemma record_each_batch: "record_each es reg = record_sessions_batch es reg"
proof (induction es arbitrary: reg)
  case (Cons e es)
  then show ?case
    by (cases "record_entry e reg") (auto simp: record_session_def Let_def split: prod.splits)
qed simp

lemma record_each_append:
  "record_each (xs @ ys) reg = (fst (record_each xs reg) @ fst (record_each ys (snd (record_each xs reg))),
     snd (record_each ys (snd (record_each xs reg))))"
  by (induction xs arbitrary: reg) (simp_all add: Let_def split: prod.splits)

lemma record_each_length: "length (fst (record_each es reg)) = length es"
  by (induction es arbitrary: reg) (auto simp: Let_def split: prod.splits, metis fst_conv)

text \<open>The entries a worker handles before its queue is empty.\<close>

function handled :: "flush_round list \<Rightarrow> session_entry list \<Rightarrow> session_entry list" where
  "handled rounds pending = (if pending = [] then [] else
     let queue = pending @ fst (round_of rounds) in take batch_limit queue @ handled (tl rounds) (drop batch_limit queue))"
  by auto

termination handled
proof (relation "measure (\<lambda>(rounds, pending). length pending + arriving rounds)")
  fix rounds :: "flush_round list" and pending queue :: "session_entry list"
  assume "pending \<noteq> []" "queue = pending @ fst (round_of rounds)"
  then show "((tl rounds, drop batch_limit queue), rounds, pending) \<in> measure (\<lambda>(rounds, pending). length pending + arriving rounds)"
    using arriving_round [of rounds] by (cases pending) (auto simp: batch_limit_def)
qed simp

declare handled.simps [simp del]

lemma handled_starts: "\<exists>more. handled rounds pending = pending @ more"
proof (induction rounds pending rule: handled.induct)
  case (1 rounds pending)
  show ?case
  proof (cases "pending = []")
    case True
    then show ?thesis by (simp add: handled.simps)
  next
    case False
    define queue where "queue = pending @ fst (round_of rounds)"
    from "1.IH" [OF False queue_def] obtain more where "handled (tl rounds) (drop batch_limit queue) = drop batch_limit queue @ more" by blast
    with False have "handled rounds pending = queue @ more"
      by (subst handled.simps) (simp add: queue_def [symmetric] Let_def)
    then show ?thesis by (simp add: queue_def)
  qed
qed

lemma flush_Nil [simp]: "flush rounds [] reg = ([], reg)" and handled_Nil [simp]: "handled rounds [] = []"
  by (simp_all add: flush.simps handled.simps)

lemma flush_step:
  assumes "pending \<noteq> []" and "round_of rounds = (arrivals, failure)"
    and "commit_batch failure (take batch_limit (pending @ arrivals)) reg = (results, reg1)"
    and "flush (tl rounds) (drop batch_limit (pending @ arrivals)) reg1 = (later, reg2)"
  shows "flush rounds pending reg = (results @ later, reg2)"
    "handled rounds pending = take batch_limit (pending @ arrivals) @ handled (tl rounds) (drop batch_limit (pending @ arrivals))"
  using assms by (simp_all add: flush.simps [of rounds pending] handled.simps [of rounds pending] Let_def)

text \<open>A route that was answered is in the table and stays there.\<close>

definition routed_to :: "registry \<Rightarrow> session_entry \<Rightarrow> session_row \<Rightarrow> bool" where
  "routed_to reg e route \<longleftrightarrow> ss_id route = en_session e \<and> (ss_sandbox route, ss_agent route, ss_user route) = (en_sandbox e, en_agent e, en_user e)
     \<and> (\<exists>r. get_session_route (en_session e) reg = Some r \<and> ss_binding r = ss_binding route)"

lemma record_entry_routed:
  assumes "record_entry e reg = Inr (route, reg')"
  shows "routed_to reg' e route"
proof -
  from assms obtain reg1 where i: "insert_session e reg = (route, reg1)" and r: "reg' = touch_sandbox (en_sandbox e) (en_now2 e) reg1"
    and b: "(ss_sandbox route, ss_agent route, ss_user route) = (en_sandbox e, en_agent e, en_user e)"
    by (auto simp: record_entry_def split: option.splits prod.splits if_splits)
  have "ss_id route = en_session e \<and> (\<exists>r. get_session_route (en_session e) reg1 = Some r \<and> ss_binding r = ss_binding route)"
    using i by (auto simp: insert_session_def get_session_route_def Let_def session_update.lookup_update find_row_append session_activity_def
        split: option.splits dest: find_row_Some)
  with b r show ?thesis by (simp add: routed_to_def touch_sandbox_def get_session_route_def)
qed

lemma routed_to_batch: "routed_to reg e route \<Longrightarrow> routed_to (snd (record_sessions_batch es reg)) e route"
  unfolding routed_to_def using record_batch_keeps by metis

lemma batch_routed:
  "list_all2 (\<lambda>e r. \<forall>route. r = Inr route \<longrightarrow> routed_to (snd (record_sessions_batch es reg)) e route) es (fst (record_sessions_batch es reg))"
proof (induction es arbitrary: reg)
  case (Cons e es)
  show ?case
  proof (cases "record_entry e reg")
    case (Inl err)
    then show ?thesis using Cons.IH [of reg] by (simp add: batch_Cons_Inl del: record_sessions_batch.simps)
  next
    case (Inr p)
    obtain route reg1 where p: "p = (route, reg1)" by fastforce
    note e = Inr [unfolded p]
    show ?thesis
      using Cons.IH [of reg1] routed_to_batch [OF record_entry_routed [OF e]] by (simp add: batch_Cons_Inr [OF e] del: record_sessions_batch.simps)
  qed
qed simp

lemma commit_batch_routed:
  assumes "commit_batch failure batch reg = (results, reg')"
  shows "list_all2 (\<lambda>e r. \<forall>route. r = Inr route \<longrightarrow> routed_to reg' e route) batch results"
    "routed_to reg e route \<Longrightarrow> routed_to reg' e route"
proof -
  show "list_all2 (\<lambda>e r. \<forall>route. r = Inr route \<longrightarrow> routed_to reg' e route) batch results"
    using assms batch_routed [of batch reg]
    by (cases failure) (auto simp: commit_batch_def list_all2_map2 list.rel_refl list_all2_same)
  show "routed_to reg e route \<Longrightarrow> routed_to reg' e route"
    using assms by (cases failure) (auto simp: commit_batch_def dest: routed_to_batch [of _ _ _ batch])
qed

lemma flush_keeps:
  "routed_to reg e route \<Longrightarrow> routed_to (snd (flush rounds pending reg)) e route"
proof (induction rounds pending reg rule: flush.induct)
  case (1 rounds pending reg)
  show ?case
  proof (cases "pending = []")
    case False
    obtain arrivals failure where rd: "round_of rounds = (arrivals, failure)" by fastforce
    obtain res1 reg1 where cb: "commit_batch failure (take batch_limit (pending @ arrivals)) reg = (res1, reg1)" by fastforce
    obtain later reg2 where fl: "flush (tl rounds) (drop batch_limit (pending @ arrivals)) reg1 = (later, reg2)" by fastforce
    have "routed_to reg1 e route" by (rule commit_batch_routed(2) [OF cb "1.prems"])
    from "1.IH" [OF False rd [symmetric] refl refl cb [symmetric] refl this] fl flush_step(1) [OF False rd cb fl] show ?thesis by simp
  qed (use "1.prems" in simp)
qed

lemma flush_routed:
  "list_all2 (\<lambda>e r. \<forall>route. r = Inr route \<longrightarrow> routed_to (snd (flush rounds pending reg)) e route)
     (handled rounds pending) (fst (flush rounds pending reg))"
proof (induction rounds pending reg rule: flush.induct)
  case (1 rounds pending reg)
  show ?case
  proof (cases "pending = []")
    case False
    obtain arrivals failure where rd: "round_of rounds = (arrivals, failure)" by fastforce
    obtain res1 reg1 where cb: "commit_batch failure (take batch_limit (pending @ arrivals)) reg = (res1, reg1)" by fastforce
    obtain later reg2 where fl: "flush (tl rounds) (drop batch_limit (pending @ arrivals)) reg1 = (later, reg2)" by fastforce
    note st = flush_step [OF False rd cb fl]
    have "routed_to reg1 e route \<Longrightarrow> routed_to reg2 e route" for e route
      using flush_keeps [of reg1 e route "tl rounds" "drop batch_limit (pending @ arrivals)"] fl by simp
    with commit_batch_routed(1) [OF cb]
    have "list_all2 (\<lambda>e r. \<forall>route. r = Inr route \<longrightarrow> routed_to reg2 e route) (take batch_limit (pending @ arrivals)) res1"
      by (auto elim!: list_all2_mono)
    with "1.IH" [OF False rd [symmetric] refl refl cb [symmetric] refl] fl show ?thesis
      by (simp add: st list_all2_appendI del: take_append drop_append append_assoc)
  qed simp
qed

lemma handled_all: "handled [] pending = pending"
proof (induction "length pending" arbitrary: pending rule: less_induct)
  case less
  show ?case
  proof (cases "pending = []")
    case False
    then have "handled [] (drop batch_limit pending) = drop batch_limit pending"
      by (intro less) (simp add: batch_limit_def)
    with False show ?thesis by (subst handled.simps) (simp add: round_of_def Let_def)
  qed simp
qed

text \<open>Transactions that do not fail record what the entries recorded one at a time would.\<close>

lemma flush_each:
  "list_all (\<lambda>r. snd r = None) rounds \<Longrightarrow> flush rounds pending reg = record_each (handled rounds pending) reg"
proof (induction rounds pending reg rule: flush.induct)
  case (1 rounds pending reg)
  show ?case
  proof (cases "pending = []")
    case False
    obtain arrivals where rd: "round_of rounds = (arrivals, None)" using "1.prems" by (cases rounds) (auto simp: round_of_def)
    obtain res1 reg1 where cb: "commit_batch None (take batch_limit (pending @ arrivals)) reg = (res1, reg1)" by fastforce
    obtain later reg2 where fl: "flush (tl rounds) (drop batch_limit (pending @ arrivals)) reg1 = (later, reg2)" by fastforce
    note st = flush_step [OF False rd cb fl]
    have "list_all (\<lambda>r. snd r = None) (tl rounds)" using "1.prems" by (cases rounds) auto
    from "1.IH" [OF False rd [symmetric] refl refl cb [symmetric] refl this] fl
    have "record_each (handled (tl rounds) (drop batch_limit (pending @ arrivals))) reg1 = (later, reg2)" by simp
    moreover have "record_each (take batch_limit (pending @ arrivals)) reg = (res1, reg1)"
      using cb by (simp add: commit_batch_def record_each_batch)
    ultimately show ?thesis by (simp add: st record_each_append del: take_append drop_append)
  qed simp
qed

text \<open>C26: every request that waits for its session to be recorded is answered, whatever arrives meanwhile and
  whichever transactions fail: the worker handles the queue and all later arrivals in order, one answer
  each, and an answer with a route stands in the table, with the sandbox and owner that were asked for.
  When no transaction fails, the answers and the table are those of recording each entry by itself.\<close>

theorem flush_answers_everyone:
  "(\<exists>more. handled rounds pending = pending @ more)
   \<and> list_all2 (\<lambda>e r. \<forall>route. r = Inr route \<longrightarrow> routed_to (snd (flush rounds pending reg)) e route)
       (handled rounds pending) (fst (flush rounds pending reg))
   \<and> (list_all (\<lambda>r. snd r = None) rounds \<longrightarrow> flush rounds pending reg = record_each (handled rounds pending) reg)"
  using handled_starts flush_routed flush_each by blast

theorem flush_answers_everyone_witness:
  "flush [] [demo_entry] \<lparr>agents = [], sandboxes = [demo_sandbox], sessions = []\<rparr>
     = record_each [demo_entry] \<lparr>agents = [], sandboxes = [demo_sandbox], sessions = []\<rparr>"
proof -
  have "list_all (\<lambda>r :: flush_round. snd r = None) []" by simp
  with flush_answers_everyone [of "[]" "[demo_entry]"] show ?thesis by (metis handled_all)
qed

end
