(* ===== verification/NativeRouter.thy ===== *)
theory NativeRouter
  imports SessionRecorder SandboxSessions
begin

text \<open>
  The transparent proxy of \<open>sandbox_manager/native_router.py\<close>: routing metadata, the owner of a
  request, the call it makes to the native server of that owner's sandbox, the recording of sessions
  that the server creates, and event streams. Parsing JSON is part of a \<open>content\<close>; the URL library,
  the catalog's authorization and the native server are parameters. Logging and metrics are left out, and
  so are the branches for a backend without management or workspaces, which only tests build.
\<close>

section \<open>Requests\<close>

text \<open>Bytes, as \<open>json.loads\<close> reads them; \<open>Dumped j\<close> is the output of \<open>json.dumps\<close>.\<close>

datatype content = NoBytes | Bytes string "json res" | Dumped json

definition loads :: "content \<Rightarrow> json res" where
  "loads c = (case c of NoBytes \<Rightarrow> Inl (ValueError ''JSONDecodeError'') | Bytes _ r \<Rightarrow> r | Dumped j \<Rightarrow> Inr j)"

record http_request =
  rq_method :: string
  rq_path :: string
  rq_query :: string
  rq_items :: "(string \<times> string) list"
  rq_headers :: "(string \<times> string) list"
  rq_body :: content
  rq_log_id :: "string option"

record route_metadata =
  rm_agent :: "string option"
  rm_user :: "string option"
  rm_workspace :: "string option"
  rm_request :: "string option"

definition header :: "http_request \<Rightarrow> string \<Rightarrow> string option" where
  "header rq name = map_of (rq_headers rq) name"

text \<open>\<open>a or b\<close> for values that may be missing: the empty string counts as missing.\<close>

definition or_else :: "string option \<Rightarrow> string option \<Rightarrow> string option" where
  "or_else a b = (if a = None \<or> a = Some [] then b else a)"

definition conflicting :: "string option \<Rightarrow> string option \<Rightarrow> bool" where
  "conflicting a b \<longleftrightarrow> a \<notin> {None, Some []} \<and> b \<notin> {None, Some []} \<and> a \<noteq> b"

definition optional_string :: "jdict \<Rightarrow> string \<Rightarrow> string option res" where
  "optional_string d key = (case jget d key of
     JNull \<Rightarrow> Inr None
   | JStr s \<Rightarrow> if s = [] then Inl (HTTPException 400 (''_cloud.'' @ key @ '' must be a non-empty string'')) else Inr (Some s)
   | _ \<Rightarrow> Inl (HTTPException 400 (''_cloud.'' @ key @ '' must be a non-empty string'')))"

definition header_metadata :: "http_request \<Rightarrow> route_metadata" where
  "header_metadata rq = \<lparr>rm_agent = header rq ''x-cloud-agent-id'', rm_user = header rq ''x-cloud-username'',
     rm_workspace = None, rm_request = header rq ''x-cloud-request-id''\<rparr>"

definition content_type :: "http_request \<Rightarrow> string" where
  "content_type rq = lower (strip (fst (partition_at (CHR '';'') (case header rq ''content-type'' of None \<Rightarrow> [] | Some v \<Rightarrow> v))))"

definition cloud_metadata :: "jdict \<Rightarrow> route_metadata \<Rightarrow> route_metadata res" where
  "cloud_metadata cloud h =
    ebind (optional_string cloud ''agent_id'') (\<lambda>a.
    ebind (optional_string cloud ''username'') (\<lambda>u.
    ebind (optional_string cloud ''session_workspace'') (\<lambda>w.
    ebind (optional_string cloud ''request_id'') (\<lambda>r. let rid = or_else r (rm_request h) in
    ebind (raise_if (conflicting (rm_request h) rid) (HTTPException 409 ''conflicting request IDs'')) (\<lambda>_.
    ebind (raise_if (conflicting (rm_agent h) a) (HTTPException 409 ''conflicting Agent routing metadata'')) (\<lambda>_.
    ebind (raise_if (conflicting (rm_user h) u) (HTTPException 409 ''conflicting user routing metadata'')) (\<lambda>_.
    Inr \<lparr>rm_agent = or_else a (rm_agent h), rm_user = or_else u (rm_user h), rm_workspace = w, rm_request = rid\<rparr>)))))))"

text \<open>Only \<open>JSONDecodeError\<close> is answered with 400; text that is not UTF-8 raises another \<open>ValueError\<close>.\<close>

definition parse_body :: "content \<Rightarrow> json res" where
  "parse_body c = (case loads c of
     Inl e \<Rightarrow> if e = ValueError ''JSONDecodeError'' then Inl (HTTPException 400 ''invalid JSON request body'') else Inl e
   | Inr v \<Rightarrow> Inr v)"

definition extract_metadata :: "http_request \<Rightarrow> (route_metadata \<times> content) res" where
  "extract_metadata rq =
    (let h = header_metadata rq; body = rq_body rq in
     if rq_method rq \<notin> {''POST'', ''PUT'', ''PATCH''} \<or> content_type rq \<noteq> ''application/json'' \<or> body = NoBytes then Inr (h, body)
     else ebind (parse_body body) (\<lambda>payload. case payload of
       JObj d \<Rightarrow> (case jget d ''_cloud'' of
           JNull \<Rightarrow> Inr (h, body)
         | JObj cloud \<Rightarrow> ebind (cloud_metadata cloud h) (\<lambda>m. Inr (m, Dumped (JObj (dpop ''_cloud'' d))))
         | _ \<Rightarrow> Inl (HTTPException 400 ''_cloud must be an object''))
     | _ \<Rightarrow> Inr (h, body)))"

text \<open>\<open>safe_request_id\<close> of \<open>shared_libs/logging.py\<close>; the fresh identifier is a parameter.\<close>

definition request_id_char :: "char \<Rightarrow> bool" where
  "request_id_char c \<longleftrightarrow> is_alnum c \<or> c \<in> {CHR ''_'', CHR ''.'', CHR '':'', CHR ''-''}"

definition safe_request_id :: "string option \<Rightarrow> string \<Rightarrow> string" where
  "safe_request_id v fresh = (case v of
     Some s \<Rightarrow> if s \<noteq> [] \<and> length s \<le> 128 \<and> list_all request_id_char s then s else ''req_'' @ fresh
   | None \<Rightarrow> ''req_'' @ fresh)"

section \<open>The owner of a request\<close>

text \<open>\<open>^(?:api/)?session/(ses_[^/]+)(?:/|$)\<close>: the session is the segment after \<open>session/\<close>.\<close>

definition session_of_path :: "string \<Rightarrow> string option" where
  "session_of_path path =
    (let rest = (if starts_with path ''api/'' then drop 4 path else path);
       sid = takeWhile (\<lambda>c. c \<noteq> CHR ''/'') (drop 8 rest) in
     if starts_with rest ''session/'' \<and> starts_with sid ''ses_'' \<and> 4 < length sid then Some sid else None)"

definition session_route :: "string \<Rightarrow> registry \<Rightarrow> session_row option" where
  "session_route path reg = (case session_of_path path of None \<Rightarrow> None | Some sid \<Rightarrow> get_session_route sid reg)"

definition find_route :: "http_request \<Rightarrow> registry \<Rightarrow> session_row option res" where
  "find_route rq reg =
    (let route = session_route (rq_path rq) reg in
     case or_else (header rq ''x-cloud-session-id'') None of
       None \<Rightarrow> Inr route
     | Some sid \<Rightarrow> (case get_session_route sid reg of
         None \<Rightarrow> Inl (HTTPException 404 ''Unknown session context'')
       | Some contextual \<Rightarrow> (case route of
           None \<Rightarrow> Inr (Some contextual)
         | Some r \<Rightarrow> if ss_id r \<noteq> sid then Inl (HTTPException 409 ''Session context conflicts with URL'') else Inr (Some r))))"

definition resolve_owner :: "session_row option \<Rightarrow> route_metadata \<Rightarrow> (string \<times> string) res" where
  "resolve_owner route m = (case route of
     Some r \<Rightarrow>
       ebind (raise_if (rm_agent m \<notin> {None, Some [], Some (ss_agent r)})
         (HTTPException 409 ''session Agent route conflicts with request'')) (\<lambda>_.
       ebind (raise_if (rm_user m \<notin> {None, Some [], Some (ss_user r)})
         (HTTPException 409 ''session user route conflicts with request'')) (\<lambda>_. Inr (ss_agent r, ss_user r)))
   | None \<Rightarrow> (case (or_else (rm_agent m) None, or_else (rm_user m) None) of
       (Some a, Some u) \<Rightarrow> Inr (a, u)
     | _ \<Rightarrow> Inl (HTTPException 400 ''Agent and username routing metadata are required'')))"

section \<open>The call to the native server\<close>

text \<open>\<open>httpx.URL\<close>: an invalid URL raises \<open>InvalidURL\<close>, which is not an \<open>HTTPError\<close>. \<open>ul_origin\<close> is the
  part before the path and \<open>ul_params u k\<close> the values of a query parameter; both are for specification only.\<close>

record 'u url_lib =
  ul_parse :: "string \<Rightarrow> 'u res"
  ul_remove :: "string \<Rightarrow> 'u \<Rightarrow> 'u"
  ul_set :: "string \<Rightarrow> string \<Rightarrow> 'u \<Rightarrow> 'u"
  ul_merge :: "(string \<times> string) list \<Rightarrow> 'u \<Rightarrow> 'u"
  ul_str :: "'u \<Rightarrow> string"
  ul_origin :: "'u \<Rightarrow> string"
  ul_params :: "'u \<Rightarrow> string \<Rightarrow> string list"

record native_call =
  nc_method :: string
  nc_url :: string
  nc_headers :: "(string \<times> string) list"
  nc_body :: content

datatype upstream = UpReply nat "(string \<times> string) list" content | UpError exc

datatype sse_opening = Opened nat "(string \<times> string) list" | Disconnected | SendFailed exc

datatype response = Answer nat "(string \<times> string) list" content | Stream nat "(string \<times> string) list" endpoint bool

definition hop_by_hop :: "string list" where
  "hop_by_hop = [''connection'', ''keep-alive'', ''proxy-authenticate'', ''proxy-authorization'', ''te'', ''trailer'',
     ''transfer-encoding'', ''upgrade'']"

definition cloud_headers :: "string list" where
  "cloud_headers = [''x-cloud-agent-id'', ''x-cloud-username'', ''x-cloud-request-id'', ''x-cloud-session-id'']"

definition dropped_headers :: "string list" where
  "dropped_headers = hop_by_hop @ cloud_headers @ [''host'', ''content-length'', ''authorization'']"

definition forward_headers :: "http_request \<Rightarrow> string \<Rightarrow> (string \<times> string) list" where
  "forward_headers rq rid = dput ''X-Cloud-Request-ID'' rid
     (dupdate [] (filter (\<lambda>(name, v). lower name \<notin> set dropped_headers) (rq_headers rq)))"

definition response_headers :: "(string \<times> string) list \<Rightarrow> (string \<times> string) list" where
  "response_headers hs = dupdate [] (filter (\<lambda>(name, v). lower name \<notin> set (''content-length'' # hop_by_hop)) hs)"

definition without_directory :: "(string \<times> string) list \<Rightarrow> (string \<times> string) list" where
  "without_directory hs = dpop ''x-opencode-workspace'' (dpop ''x-opencode-directory'' hs)"

definition pin_directory :: "'u url_lib \<Rightarrow> string \<Rightarrow> string \<Rightarrow> string res" where
  "pin_directory ul directory url = ebind (ul_parse ul url) (\<lambda>u. Inr (ul_str ul (ul_set ul ''directory'' directory (ul_remove ul ''workspace'' u))))"

definition rstrip_slash :: "string \<Rightarrow> string" where
  "rstrip_slash s = rev (dropWhile (\<lambda>c. c = CHR ''/'') (rev s))"

definition session_collection :: "http_request \<Rightarrow> bool" where
  "session_collection rq \<longleftrightarrow> rq_method rq = ''POST'' \<and> rstrip_slash (rq_path rq) \<in> {''session'', ''api/session''}"

text \<open>The URL and headers before the session directory is pinned.\<close>

definition native_target :: "'u url_lib \<Rightarrow> http_request \<Rightarrow> endpoint \<Rightarrow> string \<Rightarrow> (string \<times> (string \<times> string) list) res" where
  "native_target ul rq ep rid =
    (let url = base_url ep @ ''/'' @ rq_path rq @ (if rq_query rq = [] then [] else ''?'' @ rq_query rq);
       hs = forward_headers rq rid in
     ebind (if session_collection rq
         then ebind (pin_directory ul ''/workspace'' url) (\<lambda>url. Inr (url, without_directory hs)) else Inr (url, hs)) (\<lambda>(url, hs).
     let url = (if rq_path rq = ''event'' then base_url ep @ ''/global/event'' else url) in
     if rq_method rq = ''GET'' \<and> rq_path rq = ''session''
     then ebind (ul_parse ul (base_url ep @ ''/experimental/session'')) (\<lambda>u.
       Inr (ul_str ul (ul_merge ul (filter (\<lambda>(k, v). k \<notin> {''directory'', ''workspace'', ''path'', ''scope''}) (rq_items rq)) u), hs))
     else Inr (url, hs)))"

definition is_event_stream :: "http_request \<Rightarrow> bool" where
  "is_event_stream rq \<longleftrightarrow> rq_method rq = ''GET'' \<and> (rq_path rq \<in> {''event'', ''global/event'', ''api/event''}
     \<or> (case split_on (CHR ''/'') (rq_path rq) of [a, b, sid, e] \<Rightarrow> a = ''api'' \<and> b = ''session'' \<and> sid \<noteq> [] \<and> e = ''event'' | _ \<Rightarrow> False))"

section \<open>State and environment\<close>

text \<open>The calls handed to the client, and the open event streams.\<close>

record 'd router_world = "'d sandbox_world" +
  rw_sent :: "native_call list"
  rw_streams :: int

text \<open>What the parties outside answer during one request, and what other requests do meanwhile.\<close>

record ('d, 'u) router_env =
  re_setup :: "'d sandbox_setup"
  re_acquire :: sandbox_env
  re_urls :: "'u url_lib"
  re_fresh :: string
  re_authorize :: "string \<Rightarrow> string \<Rightarrow> string \<Rightarrow> json \<Rightarrow> reply"
  re_directory :: "endpoint \<Rightarrow> string \<Rightarrow> string \<Rightarrow> json res"
  re_scope :: "session_row \<Rightarrow> unit res"
  re_placeholder :: "session_row \<Rightarrow> string \<Rightarrow> unit res"
  re_native :: "session_row \<Rightarrow> reply \<times> reply \<times> reply"
  re_upstream :: "native_call \<Rightarrow> upstream"
  re_open :: "native_call \<Rightarrow> sse_opening"
  re_record :: "exc option"
  re_touch :: "unit res"
  re_times :: "string \<times> string \<times> string"
  re_admitting :: "'d router_world \<Rightarrow> 'd router_world"
  re_waiting :: "'d router_world \<Rightarrow> 'd router_world"
  re_meanwhile :: "'d router_world \<Rightarrow> 'd router_world"

type_synonym ('d, 'a) rx = "('d router_world, 'a) sx"

text \<open>The outcome of a step as a value, for the \<open>finally\<close> of the request, whose cleanup depends on it.\<close>

definition attempt :: "('s, 'a) sx \<Rightarrow> ('s, 'a res) sx" where
  "attempt m = (\<lambda>s. case m s of (r, t) \<Rightarrow> (Inr r, t))"

section \<open>Handling a request\<close>

definition on_counts :: "((string, int) dict \<Rightarrow> (string, int) dict) \<Rightarrow> ('d, unit) rx" where
  "on_counts f = sx_modify (\<lambda>s. s\<lparr>sw_requests := f (sw_requests s)\<rparr>)"

definition unless :: "bool \<Rightarrow> ('s, unit) sx \<Rightarrow> ('s, unit) sx" where
  "unless b m = (if b then sx_return () else m)"

definition let_go :: "('d, 'u) router_env \<Rightarrow> endpoint \<Rightarrow> bool \<Rightarrow> ('d, unit) rx" where
  "let_go env ep persisted = release ep persisted (re_touch env) (snd (snd (re_times env)))"

definition count_acquiring :: "string \<Rightarrow> int \<Rightarrow> ('d, unit) rx" where
  "count_acquiring a k = sx_modify (\<lambda>s. s\<lparr>sw_acquiring := dput a (dget (sw_acquiring s) a 0 + k) (sw_acquiring s)\<rparr>)"

definition refuse_acquire :: "exc \<Rightarrow> exc" where
  "refuse_acquire e = (if is_sandbox_error e then HTTPException 503 (exc_text e) else e)"

definition acquire_counted :: "('d, 'u) router_env \<Rightarrow> string \<Rightarrow> string \<Rightarrow> bool \<Rightarrow> ('d, endpoint) rx" where
  "acquire_counted env a u leased =
    sx_then (count_acquiring a 1)
    (sx_finally
      (sx_catch (acquire (re_setup env) (re_acquire env) (re_admitting env) (re_waiting env) a u)
        (\<lambda>e. Some (sx_then (unless (\<not> leased) (on_counts (lease a False))) (sx_raise (refuse_acquire e)))))
      (count_acquiring a (-1)))"

definition ensure :: "('d, 'u) router_env \<Rightarrow> session_row \<Rightarrow> json res" where
  "ensure env route = (case re_native env route of (first, move, second) \<Rightarrow>
    ensure_binding (re_scope env route) (re_placeholder env route) first move second route)"

definition send_native :: "('d, 'u) router_env \<Rightarrow> native_call \<Rightarrow> ('d, nat \<times> (string \<times> string) list \<times> content) rx" where
  "send_native env nc =
    sx_then (sx_modify (\<lambda>s. s\<lparr>rw_sent := rw_sent s @ [nc]\<rparr>))
    (sx_then (sx_modify (re_meanwhile env))
    (sx_of_res (case re_upstream env nc of
       UpReply status hs body \<Rightarrow> Inr (status, response_headers hs, body)
     | UpError e \<Rightarrow> Inl (case e of HTTPError m \<Rightarrow> HTTPException 502 (''OpenCode upstream failed: '' @ m) | _ \<Rightarrow> e))))"

definition is_collection :: "http_request \<Rightarrow> session_row option \<Rightarrow> bool" where
  "is_collection rq route \<longleftrightarrow> route = None \<and> rq_method rq = ''GET'' \<and> rq_path rq \<in> {''session/status'', ''permission'', ''question''}"

definition read_collection :: "('d, 'u) router_env \<Rightarrow> http_request \<Rightarrow> endpoint \<Rightarrow> ('d, response) rx" where
  "read_collection env rq ep = sx_lift (\<lambda>s.
    case directory_collection (re_directory env ep (''/'' @ rq_path rq)) (ep_sandbox ep) (sw_reg s) (rq_path rq = ''session/status'') of
      Inr v \<Rightarrow> Inr (Answer 200 [(''content-type'', ''application/json'')] (Dumped v))
    | Inl e \<Rightarrow> Inl (if is_value_error e \<or> (case e of HTTPError _ \<Rightarrow> True | _ \<Rightarrow> False)
        then HTTPException 502 ''Could not read state across session directories'' else e))"

definition executes :: "http_request \<Rightarrow> bool" where
  "executes rq \<longleftrightarrow> rq_method rq \<notin> {''GET'', ''HEAD'', ''DELETE''} \<and> \<not> ends_with (rq_path rq) ''/abort'' \<and> \<not> ends_with (rq_path rq) ''/interrupt''"

definition exchange :: "('d, 'u) router_env \<Rightarrow> http_request \<Rightarrow> session_row option \<Rightarrow> string \<times> (string \<times> string) list \<Rightarrow> content \<Rightarrow>
    ('d, nat \<times> (string \<times> string) list \<times> content) rx" where
  "exchange env rq route target body =
    sx_bind (sx_of_res (case route of
        None \<Rightarrow> Inr target
      | Some r \<Rightarrow> ebind (if executes rq then ebind (ensure env r) (\<lambda>_. Inr ()) else Inr ()) (\<lambda>_.
          ebind (pin_directory (re_urls env) (session_directory (ss_id r)) (fst target)) (\<lambda>url. Inr (url, without_directory (snd target))))))
    (\<lambda>(url, hs). send_native env \<lparr>nc_method = rq_method rq, nc_url = url, nc_headers = hs, nc_body = body\<rparr>)"

text \<open>\<open>_record_created_session\<close>.\<close>

definition created_id :: "content \<Rightarrow> bool \<Rightarrow> string res" where
  "created_id c v2 =
    ebind (case ebind (loads c) (\<lambda>payload. ebind (if v2 then subscript payload ''data'' else Inr payload) (\<lambda>payload. subscript payload ''id'')) of
        Inr v \<Rightarrow> Inr v
      | Inl e \<Rightarrow> Inl (if e = ValueError ''JSONDecodeError'' \<or> (case e of KeyError _ \<Rightarrow> True | TypeError _ \<Rightarrow> True | _ \<Rightarrow> False)
          then HTTPException 502 ''OpenCode session response lacks an ID'' else e)) (\<lambda>v.
    case v of JStr s \<Rightarrow> if s = [] then Inl (HTTPException 502 ''OpenCode session response has an invalid ID'') else Inr s
    | _ \<Rightarrow> Inl (HTTPException 502 ''OpenCode session response has an invalid ID''))"

definition session_entry_of :: "('d, 'u) router_env \<Rightarrow> endpoint \<Rightarrow> string \<Rightarrow> string \<Rightarrow> route_metadata \<Rightarrow> string \<Rightarrow> session_entry" where
  "session_entry_of env ep a u m sid = \<lparr>en_session = sid, en_sandbox = ep_sandbox ep, en_agent = a, en_user = u,
     en_path = (case or_else (rm_workspace m) None of None \<Rightarrow> ''sessions/'' @ sid | Some w \<Rightarrow> w),
     en_now = fst (re_times env), en_now2 = fst (snd (re_times env))\<rparr>"

definition record_created :: "('d, 'u) router_env \<Rightarrow> endpoint \<Rightarrow> string \<Rightarrow> string \<Rightarrow> route_metadata \<Rightarrow> content \<Rightarrow> bool \<Rightarrow> ('d, string) rx" where
  "record_created env ep a u m c v2 =
    sx_bind (sx_of_res (created_id c v2)) (\<lambda>sid s.
      case commit_batch (re_record env) [session_entry_of env ep a u m sid] (sw_reg s) of (results, reg) \<Rightarrow>
        (case hd results of
           Inr _ \<Rightarrow> Inr sid
         | Inl e \<Rightarrow> Inl (if is_value_error e \<or> (case e of KeyError _ \<Rightarrow> True | _ \<Rightarrow> False) then HTTPException 409 (exc_text e) else e),
         s\<lparr>sw_reg := reg\<rparr>))"

text \<open>The created session in the answer gets the directory it was bound to.\<close>

definition present_created :: "('d, 'u) router_env \<Rightarrow> string \<Rightarrow> bool \<Rightarrow> nat \<times> (string \<times> string) list \<times> content \<Rightarrow> ('d, response) rx" where
  "present_created env sid v2 reply = sx_lift (\<lambda>s. case reply of (status, hs, c) \<Rightarrow>
    ebind (case get_session_route sid (sw_reg s) of None \<Rightarrow> Inl (AttributeError ''session_id'') | Some r \<Rightarrow> ensure env r) (\<lambda>bound.
    ebind (loads c) (\<lambda>payload. ebind (subscript bound ''directory'') (\<lambda>directory.
    ebind (if v2 then ebind (subscript payload ''data'') (\<lambda>d. case d of
               JObj e \<Rightarrow> Inr (JObj (dput ''data'' (JObj (dput ''directory'' directory e)) (obj_of payload)))
             | _ \<Rightarrow> Inl (AttributeError ''update''))
           else (case payload of JObj d \<Rightarrow> Inr (JObj (dput ''directory'' directory d)) | _ \<Rightarrow> Inl (AttributeError ''update''))) (\<lambda>payload.
    Inr (Answer status (dpop ''content-encoding'' hs) (Dumped payload)))))))"

definition creates_session :: "http_request \<Rightarrow> session_row option \<Rightarrow> nat \<Rightarrow> bool" where
  "creates_session rq route status \<longleftrightarrow> rq_method rq = ''POST''
     \<and> (session_collection rq \<or> route \<noteq> None \<and> ends_with (rq_path rq) ''/fork'') \<and> 200 \<le> status \<and> status < 300"

definition conceal_config :: "http_request \<Rightarrow> nat \<times> (string \<times> string) list \<times> content \<Rightarrow> response res" where
  "conceal_config rq reply = (case reply of (status, hs, c) \<Rightarrow>
    if rq_method rq = ''GET'' \<and> rq_path rq \<in> {''config'', ''global/config''}
    then (case loads c of
        Inr v \<Rightarrow> Inr (Answer status (dpop ''content-encoding'' hs) (Dumped (redact v)))
      | Inl e \<Rightarrow> Inl (if is_value_error e \<or> (case e of TypeError _ \<Rightarrow> True | _ \<Rightarrow> False)
          then HTTPException 502 ''Could not read managed runtime configuration'' else e))
    else Inr (Answer status hs c))"

text \<open>The \<open>finally\<close> of the request: the Agent's lease, then the sandbox's.\<close>

definition finish :: "('d, 'u) router_env \<Rightarrow> string \<Rightarrow> bool \<Rightarrow> endpoint \<Rightarrow> bool \<Rightarrow> 'a res \<Rightarrow> ('d, 'a) rx" where
  "finish env a leased ep persisted r =
    sx_then (unless (\<not> leased) (on_counts (lease a False))) (sx_then (let_go env ep persisted) (sx_of_res r))"

definition native_body :: "('d, 'u) router_env \<Rightarrow> http_request \<Rightarrow> route_metadata \<Rightarrow> session_row option \<Rightarrow> string \<Rightarrow> string \<Rightarrow> bool \<Rightarrow>
    endpoint \<Rightarrow> string \<times> (string \<times> string) list \<Rightarrow> content \<Rightarrow> ('d, response) rx" where
  "native_body env rq m route a u leased ep target body =
    (if is_collection rq route then sx_bind (attempt (read_collection env rq ep)) (finish env a leased ep False)
     else sx_bind (attempt (exchange env rq route target body)) (\<lambda>r. case r of
       Inl e \<Rightarrow> finish env a leased ep False (Inl e)
     | Inr reply \<Rightarrow>
        (if creates_session rq route (fst reply) then
           (let v2 = rstrip_slash (rq_path rq) = ''api/session'' in
            sx_bind (attempt (record_created env ep a u m (snd (snd reply)) v2)) (\<lambda>r. case r of
              Inl e \<Rightarrow> finish env a leased ep False (Inl e)
            | Inr sid \<Rightarrow> sx_bind (attempt (present_created env sid v2 reply)) (finish env a leased ep True)))
         else finish env a leased ep False (conceal_config rq reply))))"

section \<open>Event streams\<close>

text \<open>\<open>_stream_sse\<close>: the request is built before the \<open>try\<close>, so an invalid URL raises without a release.\<close>

definition stream_open :: "('d, 'u) router_env \<Rightarrow> endpoint \<Rightarrow> string \<times> (string \<times> string) list \<Rightarrow> bool \<Rightarrow> ('d, response) rx" where
  "stream_open env ep target flatten =
    sx_bind (sx_of_res (ul_parse (re_urls env) (fst target))) (\<lambda>_.
    let nc = \<lparr>nc_method = ''GET'', nc_url = fst target, nc_headers = snd target, nc_body = NoBytes\<rparr>;
      refuse = (\<lambda>e. sx_then (let_go env ep False) (sx_raise e)) in
    sx_then (sx_modify (\<lambda>s. s\<lparr>rw_sent := rw_sent s @ [nc]\<rparr>))
    (sx_then (sx_modify (re_meanwhile env))
    (case re_open env nc of
       Disconnected \<Rightarrow> refuse (HTTPException 499 ''SSE client disconnected before upstream headers'')
     | SendFailed e \<Rightarrow> refuse (case e of HTTPError m \<Rightarrow> HTTPException 502 (''OpenCode upstream failed: '' @ m) | _ \<Rightarrow> e)
     | Opened status hs \<Rightarrow>
        sx_then (sx_modify (\<lambda>s. s\<lparr>sw_subscribers := dput (ep_sandbox ep) (dget (sw_subscribers s) (ep_sandbox ep) 0 + 1) (sw_subscribers s),
            rw_streams := rw_streams s + 1\<rparr>))
        (sx_return (Stream status (if flatten then dpop ''content-encoding'' (response_headers hs) else response_headers hs) ep flatten)))))"

text \<open>\<open>perform_cleanup\<close>: every step is taken, the first error is raised. \<open>aclosed\<close> is the outcome of closing
  the upstream response.\<close>

definition first_error :: "unit res \<Rightarrow> unit res \<Rightarrow> unit res" where
  "first_error r r' = (case r of Inl e \<Rightarrow> Inl e | Inr _ \<Rightarrow> r')"

definition close_gauge :: "('d, unit) rx" where
  "close_gauge = sx_then (sx_modify (\<lambda>s. s\<lparr>rw_streams := rw_streams s - 1\<rparr>))
    (sx_lift (\<lambda>s. raise_if (rw_streams s < 0) (RuntimeError ''SSE connection gauge underflow'')))"

definition unsubscribe :: "endpoint \<Rightarrow> ('d, unit) rx" where
  "unsubscribe ep = sx_modify (\<lambda>s. let remaining = dget (sw_subscribers s) (ep_sandbox ep) 0 - 1 in
    s\<lparr>sw_subscribers := (if 0 < remaining then dput (ep_sandbox ep) remaining (sw_subscribers s) else dpop (ep_sandbox ep) (sw_subscribers s))\<rparr>)"

definition perform_cleanup :: "('d, 'u) router_env \<Rightarrow> endpoint \<Rightarrow> unit res \<Rightarrow> ('d, unit) rx" where
  "perform_cleanup env ep aclosed =
    sx_bind (attempt close_gauge) (\<lambda>gauge.
    sx_then (unsubscribe ep)
    (sx_bind (attempt (let_go env ep False)) (\<lambda>released.
    sx_of_res (first_error (first_error aclosed gauge) released))))"

text \<open>\<open>cleanup\<close> runs once: later callers await the same task and get its outcome.\<close>

definition cleanup :: "('d, 'u) router_env \<Rightarrow> endpoint \<Rightarrow> unit res \<Rightarrow> unit res option \<Rightarrow> ('d, unit res) rx" where
  "cleanup env ep aclosed cleaned = (case cleaned of Some r \<Rightarrow> sx_return r | None \<Rightarrow> attempt (perform_cleanup env ep aclosed))"

text \<open>The generator of chunks and the response each call it when they end, in some order and number.\<close>

fun cleanups :: "('d, 'u) router_env \<Rightarrow> endpoint \<Rightarrow> unit res list \<Rightarrow> unit res option \<Rightarrow> ('d, unit res option) rx" where
  "cleanups env ep [] cleaned = sx_return cleaned"
| "cleanups env ep (aclosed # rest) cleaned = sx_bind (cleanup env ep aclosed cleaned) (\<lambda>r. cleanups env ep rest (Some r))"

section \<open>The proxy\<close>

definition admit_path :: "string \<Rightarrow> unit res" where
  "admit_path path =
    ebind (raise_if (path = ''doc'' \<or> starts_with path ''cloud/'') (HTTPException 404 ''route not found'')) (\<lambda>_.
    raise_if (path \<in> {''experimental/control-plane/move-session'', ''experimental/workspace/warp''})
      (HTTPException 403 ''Session directories are managed by the platform''))"

text \<open>The request as the router understands it, before anything is asked or changed.\<close>

definition routed_request :: "http_request \<Rightarrow> string \<Rightarrow> registry \<Rightarrow>
    (route_metadata \<times> session_row option \<times> (string \<times> string) \<times> content) res" where
  "routed_request rq fresh reg =
    ebind (admit_path (rq_path rq)) (\<lambda>_. ebind (extract_metadata rq) (\<lambda>(m0, body).
    let m = m0\<lparr>rm_request := Some (safe_request_id (or_else (rm_request m0) (rq_log_id rq)) fresh)\<rparr> in
    ebind (find_route rq reg) (\<lambda>route. ebind (resolve_owner route m) (\<lambda>owner. Inr (m, route, owner, body)))))"

definition parse_payload :: "content \<Rightarrow> json res" where
  "parse_payload body = (if body = NoBytes then Inr (JObj []) else case loads body of
     Inl e \<Rightarrow> if is_value_error e then Inl (HTTPException 400 ''Invalid JSON'') else Inl e | Inr v \<Rightarrow> Inr v)"

definition rewritten :: "content \<Rightarrow> json \<Rightarrow> content" where
  "rewritten body payload = (if body \<noteq> NoBytes \<and> is_JObj payload then Dumped payload else body)"

definition proxy :: "('d, 'u) router_env \<Rightarrow> http_request \<Rightarrow> ('d, response) rx" where
  "proxy env rq =
    sx_bind (sx_lift (\<lambda>s. routed_request rq (re_fresh env) (sw_reg s))) (\<lambda>(m, route, (a, u), body).
    sx_bind (sx_of_res (parse_payload body)) (\<lambda>payload.
    sx_bind (sx_lift (\<lambda>s. authorize (re_authorize env a (rq_method rq) (rq_path rq) payload) (sw_blocked s) a (rq_path rq) payload)) (\<lambda>(mutation, payload).
    let body = rewritten body payload; leased = truthy mutation in
    sx_then (unless (\<not> leased) (on_counts (lease a True)))
    (sx_bind (acquire_counted env a u leased) (\<lambda>ep.
    sx_bind (sx_of_res (native_target (re_urls env) rq ep (case rm_request m of None \<Rightarrow> [] | Some rid \<Rightarrow> rid))) (\<lambda>target.
    if is_event_stream rq then stream_open env ep target (rq_path rq = ''event'')
    else native_body env rq m route a u leased ep target body))))))"


text \<open>The steps up to the endpoint, with any continuation.\<close>

definition admit :: "('d, 'u) router_env \<Rightarrow> http_request \<Rightarrow>
    (route_metadata \<Rightarrow> session_row option \<Rightarrow> string \<Rightarrow> string \<Rightarrow> bool \<Rightarrow> endpoint \<Rightarrow> string \<times> (string \<times> string) list \<Rightarrow> content \<Rightarrow> ('d, 'a) rx) \<Rightarrow> ('d, 'a) rx" where
  "admit env rq rest =
    sx_bind (sx_lift (\<lambda>s. routed_request rq (re_fresh env) (sw_reg s))) (\<lambda>(m, route, (a, u), body).
    sx_bind (sx_of_res (parse_payload body)) (\<lambda>payload.
    sx_bind (sx_lift (\<lambda>s. authorize (re_authorize env a (rq_method rq) (rq_path rq) payload) (sw_blocked s) a (rq_path rq) payload)) (\<lambda>(mutation, payload).
    let body = rewritten body payload; leased = truthy mutation in
    sx_then (unless (\<not> leased) (on_counts (lease a True)))
    (sx_bind (acquire_counted env a u leased) (\<lambda>ep.
    sx_bind (sx_of_res (native_target (re_urls env) rq ep (case rm_request m of None \<Rightarrow> [] | Some rid \<Rightarrow> rid))) (\<lambda>target.
    rest m route a u leased ep target body))))))"

lemma proxy_admit: "proxy env rq = admit env rq (\<lambda>m route a u leased ep target body.
    if is_event_stream rq then stream_open env ep target (rq_path rq = ''event'') else native_body env rq m route a u leased ep target body)"
  unfolding proxy_def admit_def ..

end
