(* ===== verification/RouterDemo.thy ===== *)
theory RouterDemo
  imports NativeRouter
begin

text \<open>
  A concrete installation for the proxy: the daemon and catalog of \<open>SandboxBackend\<close>, a URL library for
  loopback addresses, and three requests that run to an answer.
\<close>

section \<open>A URL library\<close>

definition demo_urls :: "(nat \<times> (string \<times> string) list) url_lib" where
  "demo_urls = \<lparr>ul_parse = \<lambda>s. Inr (nat_of_dec (takeWhile (\<lambda>c. c \<noteq> CHR ''/'') (drop 17 s)), []),
     ul_remove = \<lambda>k (p, ps). (p, filter (\<lambda>q. fst q \<noteq> k) ps), ul_set = \<lambda>k v (p, ps). (p, filter (\<lambda>q. fst q \<noteq> k) ps @ [(k, v)]),
     ul_merge = \<lambda>items (p, ps). (p, ps @ items), ul_str = \<lambda>(p, ps). ''http://127.0.0.1:'' @ dec_nat p @ ''/'',
     ul_origin = \<lambda>(p, ps). ''http://127.0.0.1:'' @ dec_nat p, ul_params = \<lambda>(p, ps) k. map snd (filter (\<lambda>q. fst q = k) ps)\<rparr>"

lemma dec_nat_no_slash: "takeWhile (\<lambda>c. c \<noteq> CHR ''/'') (dec_nat n @ CHR ''/'' # rest) = dec_nat n"
proof -
  have "c \<noteq> CHR ''/''" if "c \<in> set (dec_nat n)" for c using dec_nat_digits [OF that] by (auto simp: is_digit_def)
  then show ?thesis by (simp add: takeWhile_append2)
qed

section \<open>The installation\<close>

definition demo_router_world :: "(string, int) dict \<Rightarrow> (string, int) dict \<Rightarrow> container_view option router_world" where
  "demo_router_world requests acquiring = \<lparr>cs_cache = [(demo_staged, demo_tree)], cs_overrides = [(''a1'', demo_staged)], cs_applied = [(''a1'', demo_staged)],
     sw_reg = empty_registry, sw_docker = None, sw_in_use = [], sw_subscribers = [], sw_requests = requests, sw_acquiring = acquiring, sw_blocked = [],
     rw_sent = [], rw_streams = 0\<rparr>"

definition demo_endpoint :: endpoint where
  "demo_endpoint = \<lparr>ep_sandbox = ''sbx_a1-u1'', ep_container = ''c1'', ep_host_port = 4100, ep_reused = False\<rparr>"

lemma demo_router_acquire:
  "\<exists>s' row. acquire demo_sandbox_setup demo_env id id ''a1'' ''u1'' (demo_router_world requests acquiring) = (Inr demo_endpoint, s')
     \<and> sandboxes (sw_reg s') = [row] \<and> sessions (sw_reg s') = [] \<and> sb_id row = ''sbx_a1-u1'' \<and> sb_owner row = (''a1'', ''u1'')
     \<and> sw_requests s' = requests \<and> sw_acquiring s' = acquiring \<and> sw_in_use s' = [(''sbx_a1-u1'', 1)] \<and> sw_subscribers s' = []
     \<and> rw_sent s' = [] \<and> rw_streams s' = 0"
proof -
  obtain d where d: "definition_of demo_setup ''a1'' demo_staged [(demo_staged, demo_tree)] = Inr d"
    using demo_load by (cases "definition_of demo_setup ''a1'' demo_staged (cs_cache demo_catalog)") (auto simp: demo_catalog_def)
  have staged: "map_of (cs_overrides (demo_router_world requests acquiring)) ''a1'' = Some demo_staged" by (simp add: demo_router_world_def)
  have "load demo_setup demo_answer ''a1'' (demo_router_world requests acquiring) = (Inr d, demo_router_world requests acquiring)"
    using load_override [OF staged demo_ident(1), of demo_setup demo_answer] d by (simp add: demo_router_world_def)
  then show ?thesis
    by (simp add: acquire_def acquire_locked_def sx_then_def sx_bind_def sx_lift_def sx_modify_def sx_of_res_def sx_return_def
        check_acquire_local_def blocks_agent_def resources_for_def json_reply_def is_error_def attr_get_def
        on_registry_def upsert_agent_def find_existing_def recorded_container_def get_container_def create_sandbox_def put_sandbox_def
        catch_failed_def create_container_def spec_of_def effective_limits_def start_created_def start_container_def on_docker_def
        wait_ready_def poll_round_result_def endpoint_of_def int_text_def persist_def expected_image_def upsert_sandbox_def get_sandbox_def
        port_ok_def empty_registry_def sb_owner_def Let_def dget_def jget_def update_rows_def set_sandbox_row_def nat_of_dec_def is_digit_def
        demo_router_world_def demo_sandbox_setup_def demo_env_def demo_docker_def spec_view_def demo_endpoint_def sandbox_id_def)
qed

definition demo_reply :: "string \<Rightarrow> bool \<Rightarrow> reply" where
  "demo_reply directory mutation = Reply 200 (JObj [(''mutation'', JBool mutation), (''directory'', JStr directory)])"

definition demo_router_env :: "(container_view option, nat \<times> (string \<times> string) list) router_env" where
  "demo_router_env = \<lparr>re_setup = demo_sandbox_setup, re_acquire = demo_env, re_urls = demo_urls, re_fresh = ''f'',
     re_authorize = (\<lambda>a method p payload. demo_reply [] (method = ''POST'')), re_directory = (\<lambda>ep p dir. Inr (JObj [])),
     re_scope = (\<lambda>r. Inr ()), re_placeholder = (\<lambda>r p. Inr ()),
     re_native = (\<lambda>r. (demo_reply (session_directory (ss_id r)) False, demo_reply [] False, demo_reply [] False)),
     re_upstream = (\<lambda>nc. UpReply 200 [] (Dumped (JObj [(''id'', JStr ''ses_1'')]))), re_open = (\<lambda>nc. Opened 200 []),
     re_record = None, re_touch = Inr (), re_times = (''t1'', ''t2'', ''t3''),
     re_admitting = id, re_waiting = id, re_meanwhile = id\<rparr>"

definition demo_request :: "string \<Rightarrow> string \<Rightarrow> http_request" where
  "demo_request method path = \<lparr>rq_method = method, rq_path = path, rq_query = [], rq_items = [],
     rq_headers = [(''x-cloud-agent-id'', ''a1''), (''x-cloud-username'', ''u1'')], rq_body = NoBytes, rq_log_id = None\<rparr>"

lemma demo_routed:
  assumes "path \<in> {''file'', ''event'', ''session''}" and "sessions reg = []"
  shows "routed_request (demo_request method path) ''f'' reg = Inr (\<lparr>rm_agent = Some ''a1'', rm_user = Some ''u1'', rm_workspace = None,
    rm_request = Some ''req_f''\<rparr>, None, (''a1'', ''u1''), NoBytes)"
  using assms
  by (auto simp: routed_request_def demo_request_def admit_path_def starts_with_def extract_metadata_def header_metadata_def header_def
      find_route_def session_route_def session_of_path_def or_else_def resolve_owner_def safe_request_id_def Let_def)

lemma demo_authorized: "authorize (demo_reply dir mutation) [] a path payload = Inr (JBool mutation, payload)"
  by (cases payload) (simp_all add: authorize_def demo_reply_def blocks_agent_def json_reply_def is_error_def attr_get_def subscript_def jindex_def dget_def)


lemma demo_acquire_counted:
  shows "\<exists>w row. acquire_counted demo_router_env ''a1'' ''u1'' leased (demo_router_world requests []) = (Inr demo_endpoint, w)
     \<and> sandboxes (sw_reg w) = [row] \<and> sessions (sw_reg w) = [] \<and> sb_id row = ''sbx_a1-u1'' \<and> sb_owner row = (''a1'', ''u1'')
     \<and> sw_requests w = requests \<and> sw_acquiring w = [(''a1'', 0)] \<and> sw_in_use w = [(''sbx_a1-u1'', 1)] \<and> sw_subscribers w = []
     \<and> rw_sent w = [] \<and> rw_streams w = 0"
proof -
  have c: "count_acquiring ''a1'' 1 (demo_router_world requests []) = (Inr (), demo_router_world requests [(''a1'', 1)])"
    by (simp add: count_acquiring_def sx_modify_def demo_router_world_def)
  obtain s' row where "acquire demo_sandbox_setup demo_env id id ''a1'' ''u1'' (demo_router_world requests [(''a1'', 1)]) = (Inr demo_endpoint, s')"
    "sandboxes (sw_reg s') = [row] \<and> sessions (sw_reg s') = [] \<and> sb_id row = ''sbx_a1-u1'' \<and> sb_owner row = (''a1'', ''u1'')
     \<and> sw_requests s' = requests \<and> sw_acquiring s' = [(''a1'', 1)] \<and> sw_in_use s' = [(''sbx_a1-u1'', 1)] \<and> sw_subscribers s' = []
     \<and> rw_sent s' = [] \<and> rw_streams s' = 0"
    using demo_router_acquire [of requests "[(''a1'', 1)]"] by blast
  then show ?thesis
    by (simp add: acquire_counted_def sx_then_def sx_bind_def c sx_finally_def sx_catch_def demo_router_env_def, simp add: count_acquiring_def sx_modify_def dget_def)
qed

lemma demo_admitted:
  assumes path: "path \<in> {''file'', ''event'', ''session''}"
    and target: "native_target demo_urls (demo_request method path) demo_endpoint ''req_f'' = Inr target"
  shows "\<exists>m w row. (\<forall>rest :: route_metadata \<Rightarrow> session_row option \<Rightarrow> string \<Rightarrow> string \<Rightarrow> bool \<Rightarrow> endpoint \<Rightarrow> string \<times> (string \<times> string) list \<Rightarrow> content \<Rightarrow> (container_view option, 'a) rx.
       admit demo_router_env (demo_request method path) rest (demo_router_world [] []) =
       rest m None ''a1'' ''u1'' (method = ''POST'') demo_endpoint target NoBytes w)
     \<and> rm_workspace m = None
     \<and> sandboxes (sw_reg w) = [row] \<and> sessions (sw_reg w) = [] \<and> sb_id row = ''sbx_a1-u1'' \<and> sb_owner row = (''a1'', ''u1'')
     \<and> sw_requests w = (if method = ''POST'' then [(''a1'', 1)] else []) \<and> sw_in_use w = [(''sbx_a1-u1'', 1)] \<and> sw_subscribers w = []
     \<and> rw_sent w = [] \<and> rw_streams w = 0"
proof -
  define m where "m = \<lparr>rm_agent = Some ''a1'', rm_user = Some ''u1'', rm_workspace = None, rm_request = Some ''req_f''\<rparr>"
  define requests :: "(string, int) dict" where "requests = (if method = ''POST'' then [(''a1'', 1)] else [])"
  have reg: "sw_reg (demo_router_world [] []) = empty_registry" "sw_blocked (demo_router_world [] []) = []" "sessions empty_registry = []"
    by (simp_all add: demo_router_world_def empty_registry_def)
  have l: "unless (\<not> method = ''POST'') (on_counts (lease ''a1'' True)) (demo_router_world [] []) = (Inr (), demo_router_world requests [])"
    by (simp add: unless_def on_counts_def lease_def sx_modify_def sx_return_def requests_def demo_router_world_def)
  obtain w row where aq: "acquire_counted demo_router_env ''a1'' ''u1'' (method = ''POST'') (demo_router_world requests []) = (Inr demo_endpoint, w)"
    and w: "sandboxes (sw_reg w) = [row] \<and> sessions (sw_reg w) = [] \<and> sb_id row = ''sbx_a1-u1'' \<and> sb_owner row = (''a1'', ''u1'')
     \<and> sw_requests w = requests \<and> sw_in_use w = [(''sbx_a1-u1'', 1)] \<and> sw_subscribers w = [] \<and> rw_sent w = [] \<and> rw_streams w = 0"
    using demo_acquire_counted by blast
  have env: "re_fresh demo_router_env = ''f''" "re_authorize demo_router_env = (\<lambda>a method p payload. demo_reply [] (method = ''POST''))"
    "re_urls demo_router_env = demo_urls" "rq_method (demo_request method path) = method"
    by (simp_all add: demo_router_env_def demo_request_def)
  have "admit demo_router_env (demo_request method path) rest (demo_router_world [] []) =
      rest m None ''a1'' ''u1'' (method = ''POST'') demo_endpoint target NoBytes w"
    for rest :: "route_metadata \<Rightarrow> session_row option \<Rightarrow> string \<Rightarrow> string \<Rightarrow> bool \<Rightarrow> endpoint \<Rightarrow> string \<times> (string \<times> string) list \<Rightarrow> content \<Rightarrow> (container_view option, 'a) rx"
    by (simp add: admit_def Let_def sx_lift_def reg env demo_routed [OF path] parse_payload_def demo_authorized rewritten_def
        sx_then_def sx_bind_def l aq target m_def sx_of_res_def)
  with w show ?thesis by (auto simp: requests_def m_def intro!: exI [of _ m] exI [of _ w])
qed


section \<open>Three requests\<close>

lemma demo_file_target: "\<exists>hs. native_target demo_urls (demo_request ''GET'' ''file'') demo_endpoint ''req_f'' = Inr (base_url demo_endpoint @ ''/file'', hs)"
  by (simp add: native_target_def demo_request_def session_collection_def Let_def)

lemma demo_env_simps: "re_upstream demo_router_env nc = UpReply 200 [] (Dumped (JObj [(''id'', JStr ''ses_1'')]))"
  "re_meanwhile demo_router_env = id" "re_urls demo_router_env = demo_urls" "re_open demo_router_env nc = Opened 200 []"
  "re_touch demo_router_env = Inr ()" "re_times demo_router_env = (''t1'', ''t2'', ''t3'')" "re_record demo_router_env = None"
  by (simp_all add: demo_router_env_def)

lemma demo_file_run:
  "\<exists>t c nc. proxy demo_router_env (demo_request ''GET'' ''file'') (demo_router_world [] []) = (Inr (Answer 200 [] c), t) \<and> rw_sent t = [nc]"
proof -
  obtain hs where target: "native_target demo_urls (demo_request ''GET'' ''file'') demo_endpoint ''req_f'' = Inr (base_url demo_endpoint @ ''/file'', hs)"
    using demo_file_target by blast
  obtain m w where run: "proxy demo_router_env (demo_request ''GET'' ''file'') (demo_router_world [] []) =
      native_body demo_router_env (demo_request ''GET'' ''file'') m None ''a1'' ''u1'' False demo_endpoint (base_url demo_endpoint @ ''/file'', hs) NoBytes w"
    and w: "sw_in_use w = [(''sbx_a1-u1'', 1)]" "rw_sent w = []"
    using demo_admitted [OF _ target, where 'a = response] by (auto simp: proxy_admit is_event_stream_def demo_request_def)
  show ?thesis
    unfolding run native_body_def
    by (simp add: is_collection_def demo_request_def sx_bind_def attempt_def exchange_def sx_of_res_def send_native_def sx_then_def sx_modify_def
        demo_env_simps response_headers_def dupdate_def creates_session_def session_collection_def conceal_config_def finish_def unless_def sx_return_def
        let_go_def release_def Let_def w demo_endpoint_def dget_def sx_finally_def on_registry_def)
qed

lemma demo_stream_run:
  "\<exists>t. proxy demo_router_env (demo_request ''GET'' ''event'') (demo_router_world [] []) = (Inr (Stream 200 [] demo_endpoint True), t)"
proof -
  obtain hs where target: "native_target demo_urls (demo_request ''GET'' ''event'') demo_endpoint ''req_f'' = Inr (base_url demo_endpoint @ ''/global/event'', hs)"
    by (auto simp: native_target_def demo_request_def session_collection_def Let_def)
  obtain w where run: "proxy demo_router_env (demo_request ''GET'' ''event'') (demo_router_world [] []) =
      stream_open demo_router_env demo_endpoint (base_url demo_endpoint @ ''/global/event'', hs) True w"
    using demo_admitted [OF _ target, where 'a = response] by (auto simp: proxy_admit is_event_stream_def demo_request_def)
  show ?thesis
    unfolding run
    by (simp add: stream_open_def sx_bind_def sx_of_res_def demo_env_simps demo_urls_def Let_def sx_then_def sx_modify_def sx_return_def
        response_headers_def dupdate_def dpop_def)
qed

lemma demo_identifier: "validate_identifier ''ses_1'' f = Inr ''ses_1''"
  by (simp add: validate_identifier_def identifier_pattern_def ident_tail_char_def char_class_defs)

lemma demo_ensure: "ss_id r = ''ses_1'' \<Longrightarrow>
    ensure demo_router_env r = Inr (JObj [(''mutation'', JBool False), (''directory'', JStr (session_directory ''ses_1''))])"
  by (simp add: ensure_def demo_router_env_def ensure_binding_def demo_identifier bind_native_def demo_reply_def reply_status_def native_json_def
      session_in_def attr_get_def dget_def)

lemma demo_create_run:
  "\<exists>t c. proxy demo_router_env (demo_request ''POST'' ''session'') (demo_router_world [] []) = (Inr (Answer 200 [] c), t)"
proof -
  obtain target where target: "native_target demo_urls (demo_request ''POST'' ''session'') demo_endpoint ''req_f'' = Inr target"
    by (auto simp: native_target_def demo_request_def session_collection_def Let_def rstrip_slash_def pin_directory_def demo_urls_def)
  obtain m w row where run: "proxy demo_router_env (demo_request ''POST'' ''session'') (demo_router_world [] []) =
      native_body demo_router_env (demo_request ''POST'' ''session'') m None ''a1'' ''u1'' True demo_endpoint target NoBytes w"
    and w: "sw_in_use w = [(''sbx_a1-u1'', 1)]" "rw_sent w = []" "sandboxes (sw_reg w) = [row]" "sessions (sw_reg w) = []" "sb_id row = ''sbx_a1-u1''"
      "sb_owner row = (''a1'', ''u1'')" "sw_requests w = [(''a1'', 1)]" "rm_workspace m = None"
    using demo_admitted [OF _ target, where 'a = response] by (auto simp: proxy_admit is_event_stream_def demo_request_def)
  obtain url hs where t: "target = (url, hs)" by fastforce
  show ?thesis
    unfolding run native_body_def t
    by (simp add: is_collection_def demo_request_def sx_bind_def attempt_def exchange_def sx_of_res_def send_native_def sx_then_def sx_modify_def
        demo_env_simps response_headers_def dupdate_def creates_session_def session_collection_def finish_def unless_def sx_return_def
        let_go_def release_def Let_def w demo_endpoint_def dget_def sx_finally_def on_registry_def rstrip_slash_def record_created_def created_id_def loads_def
        subscript_def jindex_def session_entry_of_def commit_batch_def record_entry_def find_row_def insert_session_def touch_sandbox_def
        or_else_def present_created_def sx_lift_def get_session_route_def on_counts_def lease_def demo_ensure dpop_def)
qed

end
