(* ===== verification/RouterSafety.thy ===== *)
theory RouterSafety
  imports RouterDemo
begin

text \<open>
  What the proxy of \<open>NativeRouter\<close> promises: the marks it sets for a request (the Agent's lease, the
  acquisition, the sandbox's lease, the subscription and the stream) are taken back on every path, its
  call stays inside the sandbox of the owner, and a created session is recorded for that owner.
\<close>

section \<open>Marks of open work\<close>

datatype mark = Leased string | Acquiring string | InUse string | Subscribed string | Streams

fun tally :: "('d, 'x) router_world_scheme \<Rightarrow> mark \<Rightarrow> int" where
  "tally s (Leased a) = dget (sw_requests s) a 0"
| "tally s (Acquiring a) = dget (sw_acquiring s) a 0"
| "tally s (InUse sid) = dget (sw_in_use s) sid 0"
| "tally s (Subscribed sid) = dget (sw_subscribers s) sid 0"
| "tally s Streams = rw_streams s"

text \<open>What other requests add to and take from the marks while this one runs: \<open>ds\<close> lists it for the three
  places where they can, and \<open>drift ds n\<close> sums up the first \<open>n\<close>.\<close>

definition shifts :: "('d router_world \<Rightarrow> 'd router_world) \<Rightarrow> (mark \<Rightarrow> int) \<Rightarrow> bool" where
  "shifts f d \<longleftrightarrow> (\<forall>w k. tally (f w) k = tally w k + d k)"

definition drift :: "(mark \<Rightarrow> int) list \<Rightarrow> nat \<Rightarrow> mark \<Rightarrow> int" where
  "drift ds n k = sum_list (map (\<lambda>d. d k) (take n ds))"

text \<open>The marks are those of \<open>s0\<close>, moved by others, and \<open>e\<close> of this request.\<close>

definition stands :: "'d router_world \<Rightarrow> (mark \<Rightarrow> int) list \<Rightarrow> nat \<Rightarrow> (mark \<Rightarrow> int) \<Rightarrow> 'd router_world \<Rightarrow> bool" where
  "stands s0 ds n e s \<longleftrightarrow> (\<forall>k. tally s k = tally s0 k + drift ds n k + e k)"

definition settled :: "'d router_world \<Rightarrow> (mark \<Rightarrow> int) list \<Rightarrow> (mark \<Rightarrow> int) \<Rightarrow> 'd router_world \<Rightarrow> bool" where
  "settled s0 ds e s \<longleftrightarrow> (\<exists>n. stands s0 ds n e s)"

definition never_negative :: "'d router_world \<Rightarrow> (mark \<Rightarrow> int) list \<Rightarrow> bool" where
  "never_negative s0 ds \<longleftrightarrow> (\<forall>n k. 0 \<le> tally s0 k + drift ds n k)"

definition held :: "bool \<Rightarrow> string \<Rightarrow> mark \<Rightarrow> int" where
  "held leased a k = of_bool (leased \<and> k = Leased a)"

definition using_sandbox :: "endpoint \<Rightarrow> mark \<Rightarrow> int" where
  "using_sandbox ep k = of_bool (k = InUse (ep_sandbox ep))"

definition working :: "bool \<Rightarrow> string \<Rightarrow> endpoint \<Rightarrow> mark \<Rightarrow> int" where
  "working leased a ep k = held leased a k + using_sandbox ep k"

definition streaming :: "endpoint \<Rightarrow> mark \<Rightarrow> int" where
  "streaming ep k = of_bool (k \<in> {InUse (ep_sandbox ep), Subscribed (ep_sandbox ep), Streams})"

abbreviation nothing :: "mark \<Rightarrow> int" where
  "nothing \<equiv> \<lambda>_. 0"

lemma settledI: "stands s0 ds n e s \<Longrightarrow> settled s0 ds e s"
  by (auto simp: settled_def)

lemma dget_dpop: "dget (dpop k d) k' x = (if k = k' then x else dget d k' x)"
  by (simp add: dget_def)

text \<open>A step moves the marks by \<open>d\<close>, however it ends.\<close>

lemma settled_move:
  assumes "settled s0 ds e s" and "\<And>k. tally t k = tally s k + d k"
  shows "settled s0 ds (\<lambda>k. e k + d k) t"
  using assms by (auto simp: settled_def stands_def)

lemma triple_attempt [step_rules]:
  "triple P m Q E \<Longrightarrow> triple P (attempt m) (\<lambda>r s. case r of Inl e \<Rightarrow> E e s | Inr x \<Rightarrow> Q x s) F"
  by (auto simp: triple_def attempt_def split: prod.splits sum.splits)

lemma keeps_attempt: "keeps I m \<Longrightarrow> triple I (attempt m) (\<lambda>_. I) F"
  by (auto simp: triple_def attempt_def split: prod.splits sum.splits)

lemma tally_frame_simps:
  "tally (s\<lparr>sw_docker := d\<rparr>) = tally s" "tally (s\<lparr>cs_cache := c\<rparr>) = tally s" "tally (s\<lparr>sw_reg := reg\<rparr>) = tally s"
  "tally (s\<lparr>rw_sent := calls\<rparr>) = tally s"
  by (rule ext, rename_tac k, case_tac k, simp_all)+

interpretation tally_frame: acquire_frame "\<lambda>s. tally s = m" for m
  by unfold_locales (simp_all add: tally_frame_simps)

text \<open>An acquisition adds one lease of the sandbox it returns, and nothing when it fails.\<close>

lemma acquire_settled:
  assumes "shifts f1 d1" and "shifts f2 d2" and aq: "acquire st en f1 f2 a u s = (r, t)" and "ds = [d1, d2, d3]"
    and "stands s0 ds 0 e s"
  shows "case r of Inl _ \<Rightarrow> settled s0 ds e t | Inr ep \<Rightarrow> stands s0 ds 2 (\<lambda>k. e k + using_sandbox ep k) t"
proof -
  have 0: "stands s0 ds 0 e s" by fact
  then have 1: "stands s0 ds 1 e (f1 s)" and 2: "stands s0 ds 2 e (f2 (f1 s))"
    using assms(1,2,4) by (auto simp: shifts_def stands_def drift_def numeral_2_eq_2)
  obtain r1 s1 where l: "acquire_locked st en a u (f2 (f1 s)) = (r1, s1)" by fastforce
  have "tally s1 = tally (f2 (f1 s))" by (rule keepsD [OF tally_frame.keeps_acquire_locked _ l]) simp
  with 2 have 3: "stands s0 ds 2 e s1" by (simp add: stands_def)
  have 4: "stands s0 ds 2 (\<lambda>k. e k + using_sandbox ep k) (s1\<lparr>sw_in_use := dput (ep_sandbox ep) (dget (sw_in_use s1) (ep_sandbox ep) 0 + 1) (sw_in_use s1)\<rparr>)" for ep
    unfolding stands_def
  proof
    fix k
    show "tally (s1\<lparr>sw_in_use := dput (ep_sandbox ep) (dget (sw_in_use s1) (ep_sandbox ep) 0 + 1) (sw_in_use s1)\<rparr>) k
        = tally s0 k + drift ds 2 k + (e k + using_sandbox ep k)"
      using 3 [unfolded stands_def, rule_format, of k] by (cases k) (simp_all add: using_sandbox_def)
  qed
  show ?thesis
  proof (cases r)
    case (Inl x)
    with aq have "t = s \<or> t = f1 s \<or> t = f2 (f1 s) \<or> t = s1"
      by (auto simp: acquire_def l sx_then_def sx_bind_def sx_lift_def sx_modify_def sx_of_res_def sx_return_def split: sum.splits prod.splits)
    with 0 1 2 3 Inl show ?thesis by (auto intro: settledI)
  next
    case (Inr ep)
    with aq have "t = s1\<lparr>sw_in_use := dput (ep_sandbox ep) (dget (sw_in_use s1) (ep_sandbox ep) 0 + 1) (sw_in_use s1)\<rparr>"
      by (auto simp: acquire_def l sx_outcome_simps sx_modify_def)
    with 4 [of ep] Inr show ?thesis by simp
  qed
qed


text \<open>Leases are given back.\<close>

lemma lease_begins:
  assumes "never_negative s0 ds"
  shows "triple (stands s0 ds 0 nothing) (unless (\<not> leased) (on_counts (lease a True))) (\<lambda>_. stands s0 ds 0 (held leased a)) F"
proof (cases leased)
  case True
  have "tally (s\<lparr>sw_requests := lease a True (sw_requests s)\<rparr>) k = tally s0 k + drift ds 0 k + held leased a k"
    if s: "stands s0 ds 0 nothing s" for s k
  proof -
    have "tally s k = tally s0 k + drift ds 0 k" "0 \<le> tally s k"
      using s assms by (simp_all add: stands_def never_negative_def)
    then show ?thesis using True by (cases k) (auto simp: lease_def held_def)
  qed
  with True show ?thesis by (auto simp: triple_def unless_def on_counts_def sx_modify_def stands_def)
next
  case False
  then show ?thesis by (auto simp: triple_def unless_def sx_return_def stands_def held_def)
qed

lemma lease_ends:
  assumes "never_negative s0 ds" and "0 \<le> e (Leased a)"
  shows "triple (settled s0 ds (\<lambda>k. held leased a k + e k)) (unless (\<not> leased) (on_counts (lease a False))) (\<lambda>_. settled s0 ds e) F"
proof (cases leased)
  case True
  have "settled s0 ds e (s\<lparr>sw_requests := lease a False (sw_requests s)\<rparr>)"
    if s: "settled s0 ds (\<lambda>k. held leased a k + e k) s" for s
  proof -
    from s obtain n where n: "tally s k = tally s0 k + drift ds n k + (held leased a k + e k)" for k
      by (auto simp: settled_def stands_def)
    have "0 \<le> tally s0 (Leased a) + drift ds n (Leased a)" using assms(1) by (simp only: never_negative_def)
    with n [of "Leased a"] True assms(2) have l: "1 \<le> tally s (Leased a)" by (simp add: held_def)
    have "tally (s\<lparr>sw_requests := lease a False (sw_requests s)\<rparr>) k = tally s k + - held leased a k" for k
      using l True by (cases k) (auto simp: lease_def held_def)
    from settled_move [OF s this] show ?thesis by simp
  qed
  with True show ?thesis by (auto simp: triple_def unless_def on_counts_def sx_modify_def)
next
  case False
  then show ?thesis by (auto simp: triple_def unless_def sx_return_def held_def)
qed

lemma release_tally:
  assumes "1 \<le> tally s (InUse (ep_sandbox ep))" and "release ep persisted touch now s = (r, t)"
  shows "tally t k = tally s k - using_sandbox ep k"
  using assms
  by (cases k) (auto simp: release_def Let_def using_sandbox_def sx_finally_def sx_then_def sx_bind_def sx_of_res_def sx_modify_def sx_return_def
      on_registry_def dget_dpop split: if_splits sum.splits prod.splits)

lemma release_settled:
  assumes "never_negative s0 ds" and s: "settled s0 ds (\<lambda>k. using_sandbox ep k + e k) s" and e: "0 \<le> e (InUse (ep_sandbox ep))"
    and r: "release ep persisted touch now s = (r, t)"
  shows "settled s0 ds e t"
proof -
  let ?k = "InUse (ep_sandbox ep)"
  from s obtain n where n: "tally s k = tally s0 k + drift ds n k + (using_sandbox ep k + e k)" for k
    by (auto simp: settled_def stands_def)
  have "0 \<le> tally s0 ?k + drift ds n ?k" using assms(1) by (simp only: never_negative_def)
  with n [of ?k] e have "1 \<le> tally s ?k" by (simp add: using_sandbox_def)
  from release_tally [OF this r] have "tally t k = tally s k + - using_sandbox ep k" for k by simp
  from settled_move [OF s this] show ?thesis by simp
qed

lemma let_go_settled:
  assumes "never_negative s0 ds" and "0 \<le> e (InUse (ep_sandbox ep))"
  shows "triple (settled s0 ds (\<lambda>k. using_sandbox ep k + e k)) (let_go env ep persisted) (\<lambda>_. settled s0 ds e) (\<lambda>_. settled s0 ds e)"
  by (rule tripleI) (auto simp: let_go_def intro: release_settled [where e = e, OF assms(1) _ assms(2)])

lemma count_acquiring_stands:
  fixes s0 :: "'d router_world"
  shows "triple (stands s0 ds n e) (count_acquiring a c) (\<lambda>_. stands s0 ds n (\<lambda>k. e k + c * of_bool (k = Acquiring a))) F"
proof -
  have t: "tally (s\<lparr>sw_acquiring := dput a (dget (sw_acquiring s) a 0 + c) (sw_acquiring s)\<rparr>) k = tally s k + c * of_bool (k = Acquiring a)"
    for s :: "'d router_world" and k
    by (cases k) auto
  show ?thesis by (simp add: triple_def count_acquiring_def sx_modify_def stands_def t del: tally.simps)
qed

lemma count_acquiring_settled:
  "triple (settled s0 ds e) (count_acquiring a c) (\<lambda>_. settled s0 ds (\<lambda>k. e k + c * of_bool (k = Acquiring a))) F"
  using count_acquiring_stands [of s0 ds _ e a c] unfolding triple_def settled_def by (fastforce split: prod.splits sum.splits)


text \<open>The acquisition of a request.\<close>

lemma acquire_counted_settled:
  assumes nn: "never_negative s0 ds" and sh: "shifts (re_admitting env) d1" "shifts (re_waiting env) d2" and ds: "ds = [d1, d2, d3]"
  shows "triple (stands s0 ds 0 (held leased a)) (acquire_counted env a u leased)
    (\<lambda>ep. stands s0 ds 2 (working leased a ep)) (\<lambda>_. settled s0 ds nothing)"
proof -
  define acq :: "mark \<Rightarrow> int" where "acq k = of_bool (k = Acquiring a)" for k
  let ?off = "\<lambda>e. sx_then (unless (\<not> leased) (on_counts (lease a False))) (sx_raise (refuse_acquire e))"
  let ?aq = "acquire (re_setup env) (re_acquire env) (re_admitting env) (re_waiting env) a u"
  have aq: "triple (stands s0 ds 0 (\<lambda>k. held leased a k + acq k)) ?aq
      (\<lambda>ep. stands s0 ds 2 (\<lambda>k. working leased a ep k + acq k)) (\<lambda>_. settled s0 ds (\<lambda>k. held leased a k + acq k))"
  proof (rule tripleI)
    fix s ep t assume "stands s0 ds 0 (\<lambda>k. held leased a k + acq k) s" "?aq s = (Inr ep, t)"
    from acquire_settled [OF sh this(2) ds this(1)] show "stands s0 ds 2 (\<lambda>k. working leased a ep k + acq k) t"
      by (simp add: working_def algebra_simps)
  next
    fix s e t assume "stands s0 ds 0 (\<lambda>k. held leased a k + acq k) s" "?aq s = (Inl e, t)"
    from acquire_settled [OF sh this(2) ds this(1)] show "settled s0 ds (\<lambda>k. held leased a k + acq k) t" by simp
  qed
  have off: "triple (settled s0 ds (\<lambda>k. held leased a k + acq k)) (?off e) Q (\<lambda>_. settled s0 ds acq)" for e Q
    by (rule triple_then [OF lease_ends [where e = acq, OF nn] triple_raise]) (simp add: acq_def, assumption)
  have tried: "triple (stands s0 ds 0 (\<lambda>k. held leased a k + acq k)) (sx_catch ?aq (\<lambda>e. Some (?off e)))
      (\<lambda>ep. stands s0 ds 2 (\<lambda>k. working leased a ep k + acq k)) (\<lambda>_. settled s0 ds acq)"
    by (rule triple_catch [OF aq]) (auto intro: off)
  have began: "triple (stands s0 ds 0 (held leased a)) (count_acquiring a 1) (\<lambda>_. stands s0 ds 0 (\<lambda>k. held leased a k + acq k)) F" for F
    using count_acquiring_stands [of s0 ds 0 "held leased a" a 1 F] by (simp add: acq_def)
  have undone: "triple (stands s0 ds n (\<lambda>k. e k + acq k)) (count_acquiring a (- 1)) (\<lambda>_. stands s0 ds n e) F" for n e F
    using count_acquiring_stands [of s0 ds n "\<lambda>k. e k + acq k" a "- 1" F] by (simp add: acq_def)
  have ended: "triple (settled s0 ds acq) (count_acquiring a (- 1)) (\<lambda>_. settled s0 ds nothing) F" for F
    using count_acquiring_settled [of s0 ds acq a "- 1" F] by (simp add: acq_def)
  show ?thesis
    unfolding acquire_counted_def by (rule triple_then [OF began triple_finally [OF tried undone ended]])
qed

lemma finish_settled:
  assumes "never_negative s0 ds"
  shows "triple (settled s0 ds (working leased a ep)) (finish env a leased ep persisted r) (\<lambda>x s. r = Inr x \<and> settled s0 ds nothing s) (\<lambda>_. settled s0 ds nothing)"
proof -
  have off: "triple (settled s0 ds (working leased a ep)) (unless (\<not> leased) (on_counts (lease a False)))
      (\<lambda>_. settled s0 ds (\<lambda>k. using_sandbox ep k + nothing k)) F" for F
    using lease_ends [OF assms, of "\<lambda>k. using_sandbox ep k + nothing k" a leased F] by (simp add: working_def [abs_def] using_sandbox_def)
  show ?thesis
    unfolding finish_def
    by (rule triple_then [OF off triple_then [OF let_go_settled [OF assms]]]) (auto intro: triple_of_res)
qed

lemma meanwhile_settled:
  assumes "shifts (re_meanwhile env) d3" and "ds = [d1, d2, d3]"
  shows "triple (stands s0 ds 2 e) (sx_modify (re_meanwhile env)) (\<lambda>_. settled s0 ds e) F"
  using assms by (auto simp: triple_def sx_modify_def settled_def stands_def shifts_def drift_def numeral_2_eq_2 intro!: exI [of _ 3])

lemma sent_stands: "triple (stands s0 ds n e) (sx_modify (\<lambda>s. s\<lparr>rw_sent := rw_sent s @ [c]\<rparr>)) (\<lambda>_. stands s0 ds n e) F"
  by (simp add: triple_def sx_modify_def stands_def tally_frame_simps)

lemma exchange_settled:
  assumes "shifts (re_meanwhile env) d3" and "ds = [d1, d2, d3]"
  shows "triple (stands s0 ds 2 e) (exchange env rq route target body) (\<lambda>_. settled s0 ds e) (\<lambda>_. settled s0 ds e)"
proof -
  have "triple (stands s0 ds 2 e) (send_native env nc) (\<lambda>_. settled s0 ds e) (\<lambda>_. settled s0 ds e)" for nc
    unfolding send_native_def
    by (rule triple_then [OF sent_stands triple_then [OF meanwhile_settled [OF assms]]]) (auto intro: triple_of_res)
  then show ?thesis
    unfolding exchange_def by (intro triple_bind [where R = "\<lambda>_. stands s0 ds 2 e"] triple_of_res) (auto intro: settledI)
qed

lemma keeps_record_created: "keeps (settled s0 ds e) (record_created env ep a u m c v2)"
  unfolding record_created_def
  by (intro step_rules) (auto intro!: tripleI simp: settled_def stands_def tally_frame_simps split: prod.splits)

lemma native_body_settled:
  assumes nn: "never_negative s0 ds" and sh: "shifts (re_meanwhile env) d3" and ds: "ds = [d1, d2, d3]"
  shows "triple (stands s0 ds 2 (working leased a ep)) (native_body env rq m route a u leased ep target body)
    (\<lambda>_. settled s0 ds nothing) (\<lambda>_. settled s0 ds nothing)"
proof -
  let ?W = "settled s0 ds (working leased a ep)" and ?N = "settled s0 ds nothing"
  have fin: "triple ?W (finish env a leased ep p r) (\<lambda>_. ?N) (\<lambda>_. ?N)" for p and r :: "response res"
    by (rule triple_conseq [OF finish_settled [OF nn]]) auto
  have read: "triple (stands s0 ds 2 (working leased a ep)) (attempt (read_collection env rq ep)) (\<lambda>_. ?W) F" for F
    by (rule tripleI) (auto simp: attempt_def read_collection_def sx_lift_def intro: settledI)
  have exch: "triple (stands s0 ds 2 (working leased a ep)) (attempt (exchange env rq route target body)) (\<lambda>_. ?W) F" for F
    using exchange_settled [OF sh ds, of s0 "working leased a ep" rq route target body]
    by (auto simp: triple_def attempt_def split: prod.splits sum.splits)
  have rec: "triple ?W (attempt (record_created env ep a u m c v2)) (\<lambda>_. ?W) F" for c v2 F
    by (rule keeps_attempt [OF keeps_record_created])
  have pres: "triple ?W (attempt (present_created env sid v2 reply)) (\<lambda>_. ?W) F" for sid v2 reply F
    by (rule tripleI) (auto simp: attempt_def present_created_def sx_lift_def)
  have created: "triple ?W (sx_bind (attempt (record_created env ep a u m c v2)) (\<lambda>r. case r of
              Inl e \<Rightarrow> finish env a leased ep False (Inl e)
            | Inr sid \<Rightarrow> sx_bind (attempt (present_created env sid v2 reply)) (finish env a leased ep True))) (\<lambda>_. ?N) (\<lambda>_. ?N)" for c v2 reply
    by (rule triple_bind [OF rec]) (auto split: sum.split intro!: fin triple_bind [OF pres])
  show ?thesis
    unfolding native_body_def Let_def
    by (auto split: sum.split intro!: triple_bind [OF read fin] triple_bind [OF exch] fin created)
qed


section \<open>A request leaves no mark\<close>

text \<open>\<open>httpx\<close> accepts the URLs that are built outside the \<open>try\<close> of the request.\<close>

definition sendable :: "('d, 'u) router_env \<Rightarrow> http_request \<Rightarrow> bool" where
  "sendable env rq \<longleftrightarrow> (\<forall>ep rid. \<exists>target. native_target (re_urls env) rq ep rid = Inr target
     \<and> (is_event_stream rq \<longrightarrow> (\<exists>u. ul_parse (re_urls env) (fst target) = Inr u)))"

lemma triple_fact: "(c \<Longrightarrow> triple P m Q E) \<Longrightarrow> triple (\<lambda>s. c \<and> P s) m Q E"
  by (auto simp: triple_def)

lemma sendable_target: "sendable env rq \<Longrightarrow> \<exists>target. native_target (re_urls env) rq ep rid = Inr target"
  unfolding sendable_def by blast

lemma admit_settled:
  assumes nn: "never_negative s0 ds" and sh: "shifts (re_admitting env) d1" "shifts (re_waiting env) d2" and ds: "ds = [d1, d2, d3]"
    and target: "\<And>ep rid. \<exists>target. native_target (re_urls env) rq ep rid = Inr target"
    and leases: "\<And>a p b payload mutation payload'. authorize (re_authorize env a (rq_method rq) p payload) b a p payload = Inr (mutation, payload') \<Longrightarrow> L (truthy mutation)"
    and tail: "\<And>m route a u leased ep target body rid. L leased \<Longrightarrow> native_target (re_urls env) rq ep rid = Inr target \<Longrightarrow>
      triple (stands s0 ds 2 (working leased a ep)) (rest m route a u leased ep target body) Q (\<lambda>_. settled s0 ds nothing)"
  shows "triple (stands s0 ds 0 nothing) (admit env rq rest) Q (\<lambda>_. settled s0 ds nothing)"
proof -
  let ?S = "\<lambda>_. stands s0 ds 0 nothing"
  have start: "triple (stands s0 ds 0 nothing) (sx_lift f) ?S (\<lambda>_. settled s0 ds nothing)" for f :: "'a router_world \<Rightarrow> 'z res"
    by (rule triple_lift) (auto intro: settledI)
  have pure: "triple (stands s0 ds 0 nothing) (sx_of_res r) ?S (\<lambda>_. settled s0 ds nothing)" for r :: "'z res"
    by (rule triple_of_res) (auto intro: settledI)
  have build: "triple (stands s0 ds 2 (working leased a ep)) (sx_bind (sx_of_res (native_target (re_urls env) rq ep rid)) (\<lambda>target.
      rest m route a u leased ep target body)) Q (\<lambda>_. settled s0 ds nothing)" if "L leased" for leased a ep rid m route u body
  proof -
    obtain target where t: "native_target (re_urls env) rq ep rid = Inr target" using target by blast
    have "sx_bind (sx_of_res (native_target (re_urls env) rq ep rid)) (\<lambda>target. rest m route a u leased ep target body)
        = rest m route a u leased ep target body"
      by (rule ext) (simp add: t sx_bind_of_res)
    with tail [OF that t] show ?thesis by simp
  qed
  have acq: "triple (stands s0 ds 0 nothing) (sx_then (unless (\<not> leased) (on_counts (lease a True)))
    (sx_bind (acquire_counted env a u leased) (\<lambda>ep.
    sx_bind (sx_of_res (native_target (re_urls env) rq ep rid)) (\<lambda>target. rest m route a u leased ep target body)))) Q (\<lambda>_. settled s0 ds nothing)"
    if "L leased" for leased a u m rid route body
    by (rule triple_then [OF lease_begins [OF nn] triple_bind [OF acquire_counted_settled [OF nn sh ds] build [OF that]]])
  show ?thesis
    unfolding admit_def Let_def
    by (rule triple_bind [OF start], clarify, rule triple_bind [OF pure], rule triple_bind [where R = "\<lambda>x s. L (truthy (fst x)) \<and> stands s0 ds 0 nothing s"],
      rule triple_lift, auto intro: settledI leases intro!: triple_fact acq)
qed

lemma tripleD_any: "triple P m (\<lambda>_. I) (\<lambda>_. I) \<Longrightarrow> P s \<Longrightarrow> m s = (r, t) \<Longrightarrow> I t"
  by (cases r) (auto dest: tripleD_return tripleD_raise)

lemma stands_start: "stands s ds 0 nothing s"
  by (simp add: stands_def drift_def)

lemma demo_shifts: "shifts (re_admitting demo_router_env) (\<lambda>_. 0)" "shifts (re_waiting demo_router_env) (\<lambda>_. 0)"
    "shifts (re_meanwhile demo_router_env) (\<lambda>_. 0)"
  by (simp_all add: shifts_def demo_router_env_def)

lemma demo_never_negative: "never_negative (demo_router_world [] []) [\<lambda>_. 0, \<lambda>_. 0, \<lambda>_. 0]"
  unfolding never_negative_def
proof (intro allI)
  fix n k
  have "drift [\<lambda>_. 0, \<lambda>_. 0, \<lambda>_. 0] n k = 0" by (auto simp: drift_def take_Cons split: nat.split)
  then show "0 \<le> tally (demo_router_world [] []) k + drift [\<lambda>_. 0, \<lambda>_. 0, \<lambda>_. 0] n k"
    by (cases k) (simp_all add: demo_router_world_def)
qed

lemma demo_sendable: "sendable demo_router_env rq"
  by (auto simp: sendable_def native_target_def demo_router_env_def demo_urls_def pin_directory_def Let_def)

text \<open>C23: a request that opens no event stream, and whose target URL the client library accepts, leaves no
  mark: however it ends, with an answer, refused, failed or cancelled, it has taken back the lease of the
  Agent, the acquisition and the lease of the sandbox, so that these counters are those before it, moved
  only by the other requests that ran meanwhile (each of which may move them by some amount and never
  takes more than there is). A URL the library rejects is the exception, shown below: it is built outside
  the \<open>try\<close>, and the leases stay.\<close>

theorem request_leaves_no_mark:
  assumes "never_negative s [d1, d2, d3]" and "shifts (re_admitting env) d1" "shifts (re_waiting env) d2" "shifts (re_meanwhile env) d3"
    and "sendable env rq" and "\<not> is_event_stream rq" and "proxy env rq s = (r, t)"
  shows "\<exists>n. \<forall>k. tally t k = tally s k + drift [d1, d2, d3] n k"
proof -
  let ?N = "settled s [d1, d2, d3] nothing"
  have "triple (stands s [d1, d2, d3] 0 nothing) (proxy env rq) (\<lambda>_. ?N) (\<lambda>_. ?N)"
    unfolding proxy_admit
    by (rule admit_settled [OF assms(1-3) refl, where L = "\<lambda>_. True"]) (use assms(5,6) in \<open>auto simp: sendable_def intro: native_body_settled [OF assms(1,4) refl]\<close>)
  from tripleD_any [OF this stands_start assms(7)] have "?N t" .
  then show ?thesis by (simp add: settled_def stands_def)
qed


theorem request_leaves_no_mark_witness:
  "\<exists>t c. proxy demo_router_env (demo_request ''GET'' ''file'') (demo_router_world [] []) = (Inr (Answer 200 [] c), t)
     \<and> (\<exists>n. \<forall>k. tally t k = tally (demo_router_world [] []) k + drift [\<lambda>_. 0, \<lambda>_. 0, \<lambda>_. 0] n k)"
proof -
  obtain t c where run: "proxy demo_router_env (demo_request ''GET'' ''file'') (demo_router_world [] []) = (Inr (Answer 200 [] c), t)"
    using demo_file_run by blast
  have "\<not> is_event_stream (demo_request ''GET'' ''file'')" by (simp add: is_event_stream_def demo_request_def)
  from request_leaves_no_mark [OF demo_never_negative demo_shifts demo_sendable this run] run
  show ?thesis by blast
qed

section \<open>Event streams\<close>

definition opens :: "endpoint \<Rightarrow> bool \<Rightarrow> response \<Rightarrow> bool" where
  "opens ep flatten r \<longleftrightarrow> (\<exists>status hs. r = Stream status hs ep flatten)"

lemma stream_open_settled:
  assumes nn: "never_negative s0 ds" and sh: "shifts (re_meanwhile env) d3" and ds: "ds = [d1, d2, d3]"
    and url: "ul_parse (re_urls env) (fst target) = Inr x"
  shows "triple (stands s0 ds 2 (using_sandbox ep)) (stream_open env ep target flatten)
    (\<lambda>r s. opens ep flatten r \<and> settled s0 ds (streaming ep) s) (\<lambda>_. settled s0 ds nothing)"
proof -
  let ?Q = "\<lambda>r s. opens ep flatten r \<and> settled s0 ds (streaming ep) s"
  have refused: "triple (settled s0 ds (using_sandbox ep)) (sx_then (let_go env ep False) (sx_raise e)) ?Q (\<lambda>_. settled s0 ds nothing)" for e
    using triple_then [OF let_go_settled [OF nn, where e = nothing and ep = ep and env = env and persisted = False] triple_raise] by simp
  have t: "tally (s\<lparr>sw_subscribers := dput (ep_sandbox ep) (dget (sw_subscribers s) (ep_sandbox ep) 0 + 1) (sw_subscribers s), rw_streams := rw_streams s + 1\<rparr>) k
      = tally s k + of_bool (k \<in> {Subscribed (ep_sandbox ep), Streams})" for s :: "'a router_world" and k
    by (cases k) auto
  have "triple (settled s0 ds (using_sandbox ep)) (sx_modify (\<lambda>s. s\<lparr>sw_subscribers := dput (ep_sandbox ep) (dget (sw_subscribers s) (ep_sandbox ep) 0 + 1) (sw_subscribers s),
            rw_streams := rw_streams s + 1\<rparr>)) (\<lambda>_. settled s0 ds (streaming ep)) F" for F
  proof (rule triple_modify)
    fix s assume "settled s0 ds (using_sandbox ep) s"
    from settled_move [OF this t]
    show "settled s0 ds (streaming ep) (s\<lparr>sw_subscribers := dput (ep_sandbox ep) (dget (sw_subscribers s) (ep_sandbox ep) 0 + 1) (sw_subscribers s), rw_streams := rw_streams s + 1\<rparr>)"
      by (rule back_subst [where P = "\<lambda>e. settled s0 ds e _"]) (auto simp: fun_eq_iff streaming_def using_sandbox_def)
  qed
  then have opened: "triple (settled s0 ds (using_sandbox ep)) (sx_then (sx_modify (\<lambda>s. s\<lparr>sw_subscribers := dput (ep_sandbox ep) (dget (sw_subscribers s) (ep_sandbox ep) 0 + 1) (sw_subscribers s),
            rw_streams := rw_streams s + 1\<rparr>)) (sx_return (Stream status hs ep flatten))) ?Q (\<lambda>_. settled s0 ds nothing)" for status hs
    by (rule triple_then) (rule triple_return, auto simp: opens_def)
  show ?thesis
    unfolding stream_open_def Let_def url
    by (rule triple_bind [where R = "\<lambda>_. stands s0 ds 2 (using_sandbox ep)"], rule triple_of_res, simp, simp,
      rule triple_then [OF sent_stands triple_then [OF meanwhile_settled [OF sh ds]]])
      (simp only: refused opened split: sse_opening.split, simp add: refused opened)
qed

lemma perform_cleanup_tally:
  assumes base: "\<And>k. tally w k = base k + streaming ep k" "\<And>k. 0 \<le> base k" and run: "perform_cleanup env ep aclosed w = (r, w')"
  shows "tally w' k = base k"
proof -
  let ?w1 = "w\<lparr>rw_streams := rw_streams w - 1\<rparr>"
  obtain w2 where u: "unsubscribe ep ?w1 = (Inr (), w2)" by (auto simp: unsubscribe_def sx_modify_def)
  obtain released w3 where l: "let_go env ep False w2 = (released, w3)" by fastforce
  from run u l have w': "w' = w3"
    by (auto simp: perform_cleanup_def close_gauge_def attempt_def sx_then_def sx_bind_def sx_modify_def sx_lift_def sx_of_res_def split: prod.splits)
  have w2: "tally w2 k = base k + using_sandbox ep k" for k
    using u base(1) [of k] base(2) [of k]
    by (cases k) (auto simp: unsubscribe_def sx_modify_def Let_def streaming_def using_sandbox_def dget_dpop)
  then have "1 \<le> tally w2 (InUse (ep_sandbox ep))" using base(2) [of "InUse (ep_sandbox ep)"] by (simp add: using_sandbox_def del: tally.simps)
  from release_tally [OF this l [unfolded let_go_def], of k] w2 [of k] show ?thesis by (simp add: w')
qed

lemma cleanups_done: "cleanups env ep aclosed (Some r) w = (Inr (Some r), w)"
  by (induction aclosed) (simp_all add: cleanup_def sx_bind_def sx_return_def)

text \<open>C24: an event stream that opens holds one lease, one subscription and one place in the gauge, and one that
  does not open holds nothing. However often and in whatever order the generator and the response end it,
  and whatever fails then, these are taken back exactly once, and every caller gets the same outcome.\<close>

theorem stream_marks_taken_back_once:
  assumes "never_negative s [d1, d2, d3]" and "shifts (re_admitting env) d1" "shifts (re_waiting env) d2" "shifts (re_meanwhile env) d3"
    and "sendable env rq" and "is_event_stream rq" and "proxy env rq s = (r, t)"
    and unleased: "\<And>a p payload code body. re_authorize env a (rq_method rq) p payload = Reply code body \<Longrightarrow> \<not> truthy (jget (obj_of body) ''mutation'')"
  shows "case r of
      Inl _ \<Rightarrow> \<exists>n. \<forall>k. tally t k = tally s k + drift [d1, d2, d3] n k
    | Inr answer \<Rightarrow> (\<exists>status hs ep n. answer = Stream status hs ep (rq_path rq = ''event'')
        \<and> (\<forall>k. tally t k = tally s k + drift [d1, d2, d3] n k + streaming ep k)
        \<and> (\<forall>w base c aclosed. (\<forall>k. tally w k = base k + streaming ep k \<and> 0 \<le> base k) \<longrightarrow>
            (\<exists>r w'. cleanups env ep (c # aclosed) None w = (Inr (Some r), w') \<and> (\<forall>k. tally w' k = base k))))"
proof -
  let ?ds = "[d1, d2, d3]"
  have leases: "\<not> truthy mutation" if "authorize (re_authorize env a (rq_method rq) p payload) b a p payload = Inr (mutation, payload')"
    for a p b payload mutation payload'
    using that by (cases "re_authorize env a (rq_method rq) p payload")
      (auto simp: authorize_def json_reply_def subscript_def jindex_def jget_def dget_def exc_simps split: if_splits json.splits option.splits dest: unleased)
  have "triple (stands s ?ds 0 nothing) (proxy env rq)
      (\<lambda>r t. \<exists>ep. opens ep (rq_path rq = ''event'') r \<and> settled s ?ds (streaming ep) t) (\<lambda>_. settled s ?ds nothing)"
    unfolding proxy_admit
  proof (rule admit_settled [OF assms(1-3) refl, where L = "\<lambda>l. \<not> l"])
    fix m route a u leased ep target body rid
    assume l: "\<not> leased" and target: "native_target (re_urls env) rq ep rid = Inr target"
    then obtain x where x: "ul_parse (re_urls env) (fst target) = Inr x" using assms(5,6) unfolding sendable_def by (metis sum.inject(2))
    have w: "working leased a ep = using_sandbox ep" using l by (simp add: working_def held_def fun_eq_iff)
    show "triple (stands s ?ds 2 (working leased a ep)) (if is_event_stream rq then stream_open env ep target (rq_path rq = ''event'')
        else native_body env rq m route a u leased ep target body)
      (\<lambda>r t. \<exists>ep. opens ep (rq_path rq = ''event'') r \<and> settled s ?ds (streaming ep) t) (\<lambda>_. settled s ?ds nothing)"
      unfolding w using assms(6) by simp (rule triple_conseq [OF stream_open_settled [OF assms(1,4) refl x]], auto)
  qed (use assms(5) leases in \<open>auto dest: sendable_target simp del: split_paired_Ex\<close>)
  note outcome = tripleD_return [OF this stands_start] tripleD_raise [OF this stands_start]
  show ?thesis
  proof (cases r)
    case (Inl e)
    with outcome(2) assms(7) show ?thesis by (simp add: settled_def stands_def)
  next
    case (Inr answer)
    with outcome(1) assms(7) obtain ep n where "opens ep (rq_path rq = ''event'') answer" "stands s ?ds n (streaming ep) t"
      by (auto simp: settled_def)
    moreover have "\<exists>r w'. cleanups env ep (c # aclosed) None w = (Inr (Some r), w') \<and> (\<forall>k. tally w' k = base k)"
      if "\<forall>k. tally w k = base k + streaming ep k \<and> 0 \<le> base k" for w base c aclosed
    proof -
      obtain r w' where run: "perform_cleanup env ep c w = (r, w')" by fastforce
      have "tally w' k = base k" for k by (rule perform_cleanup_tally [OF _ _ run]) (use that in auto)
      with run cleanups_done [of env ep aclosed r w'] show ?thesis by (simp add: cleanup_def attempt_def sx_bind_def)
    qed
    ultimately show ?thesis using Inr by (auto simp: opens_def stands_def simp del: cleanups.simps tally.simps)
  qed
qed

theorem stream_marks_taken_back_once_witness:
  "\<exists>t status hs ep n. proxy demo_router_env (demo_request ''GET'' ''event'') (demo_router_world [] []) = (Inr (Stream status hs ep True), t)
     \<and> (\<forall>k. tally t k = tally (demo_router_world [] []) k + drift [\<lambda>_. 0, \<lambda>_. 0, \<lambda>_. 0] n k + streaming ep k)"
proof -
  obtain t where run: "proxy demo_router_env (demo_request ''GET'' ''event'') (demo_router_world [] []) = (Inr (Stream 200 [] demo_endpoint True), t)"
    using demo_stream_run by blast
  have ev: "is_event_stream (demo_request ''GET'' ''event'')" by (simp add: is_event_stream_def demo_request_def)
  have auth: "\<not> truthy (jget (obj_of body) ''mutation'')" if "re_authorize demo_router_env a (rq_method (demo_request ''GET'' ''event'')) p payload = Reply code body"
    for a p payload code body
    using that by (auto simp: demo_router_env_def demo_request_def demo_reply_def jget_def dget_def)
  from stream_marks_taken_back_once [OF demo_never_negative demo_shifts demo_sendable ev run auth] run
  show ?thesis by (auto simp: demo_request_def)
qed

section \<open>An address that cannot be built\<close>

text \<open>The URL is built between the acquisition and the \<open>try\<close>: when the library refuses it, both leases of the request stay,
  and the Agent counts as busy until the process restarts.\<close>

lemma invalid_url_keeps_leases:
  "\<exists>t. proxy (demo_router_env\<lparr>re_urls := demo_urls\<lparr>ul_parse := \<lambda>_. Inl e\<rparr>\<rparr>) (demo_request ''POST'' ''session'') (demo_router_world [] []) = (Inl e, t)
     \<and> tally t (Leased ''a1'') = 1 \<and> tally t (InUse ''sbx_a1-u1'') = 1"
proof -
  let ?env = "demo_router_env\<lparr>re_urls := demo_urls\<lparr>ul_parse := \<lambda>_. Inl e\<rparr>\<rparr>"
  have reg: "sw_reg (demo_router_world [] []) = empty_registry" "sw_blocked (demo_router_world [] []) = []" "sessions empty_registry = []"
    by (simp_all add: demo_router_world_def empty_registry_def)
  have l: "on_counts (lease ''a1'' True) (demo_router_world [] []) = (Inr (), demo_router_world [(''a1'', 1)] [])"
    by (simp add: on_counts_def lease_def sx_modify_def demo_router_world_def)
  obtain w where aq: "acquire_counted demo_router_env ''a1'' ''u1'' True (demo_router_world [(''a1'', 1)] []) = (Inr demo_endpoint, w)"
    and w: "sw_requests w = [(''a1'', 1)]" "sw_in_use w = [(''sbx_a1-u1'', 1)]"
    using demo_acquire_counted [of True "[(''a1'', 1)]"] by blast
  have same: "acquire_counted ?env = acquire_counted demo_router_env" by (simp add: acquire_counted_def fun_eq_iff)
  have env: "re_fresh demo_router_env = ''f''" "re_authorize demo_router_env = (\<lambda>a method p payload. demo_reply [] (method = ''POST''))"
    "rq_method (demo_request ''POST'' ''session'') = ''POST''"
    by (simp_all add: demo_router_env_def demo_request_def)
  have "native_target (demo_urls\<lparr>ul_parse := \<lambda>_. Inl e\<rparr>) (demo_request ''POST'' ''session'') demo_endpoint rid = Inl e" for rid
    by (simp add: native_target_def session_collection_def rstrip_slash_def demo_request_def pin_directory_def Let_def)
  then have "proxy ?env (demo_request ''POST'' ''session'') (demo_router_world [] []) = (Inl e, w)"
    by (simp add: proxy_admit admit_def Let_def sx_lift_def reg env demo_routed parse_payload_def demo_authorized rewritten_def
        sx_then_def sx_bind_def unless_def l same aq sx_of_res_def)
  with w show ?thesis by (simp add: dget_def)
qed

end
