(* ===== verification/RouterCalls.thy ===== *)
theory RouterCalls
  imports RouterSafety
begin

text \<open>
  Where the proxy's call goes, and what it records: the call of a request reaches only the sandbox of
  the owner it resolved, without the caller's credentials and routing headers, and in the directory of its
  session; a session that is created is recorded for the same owner and sandbox.
\<close>

section \<open>What the URL library documents\<close>

definition url_lib_ok :: "'u url_lib \<Rightarrow> bool" where
  "url_lib_ok ul \<longleftrightarrow>
    (\<forall>ep rest u. ul_parse ul (base_url ep @ ''/'' @ rest) = Inr u \<longrightarrow> ul_origin ul u = base_url ep)
    \<and> (\<forall>u v. ul_parse ul (ul_str ul u) = Inr v \<longrightarrow> ul_origin ul v = ul_origin ul u)
    \<and> (\<forall>k u. ul_origin ul (ul_remove ul k u) = ul_origin ul u)
    \<and> (\<forall>k v u. ul_origin ul (ul_set ul k v u) = ul_origin ul u)
    \<and> (\<forall>items u. ul_origin ul (ul_merge ul items u) = ul_origin ul u)
    \<and> (\<forall>k k' u. ul_params ul (ul_remove ul k u) k' = (if k' = k then [] else ul_params ul u k'))
    \<and> (\<forall>k v k' u. ul_params ul (ul_set ul k v u) k' = (if k' = k then [v] else ul_params ul u k'))"

text \<open>The URLs that reach a sandbox: below its base URL, or built from one that is.\<close>

definition reaches :: "'u url_lib \<Rightarrow> endpoint \<Rightarrow> string \<Rightarrow> bool" where
  "reaches ul ep url \<longleftrightarrow> prefix (base_url ep @ ''/'') url \<or> (\<exists>u. url = ul_str ul u \<and> ul_origin ul u = base_url ep)"

definition pinned_to :: "'u url_lib \<Rightarrow> endpoint \<Rightarrow> string \<Rightarrow> string \<Rightarrow> bool" where
  "pinned_to ul ep directory url \<longleftrightarrow> (\<exists>u. url = ul_str ul u \<and> ul_origin ul u = base_url ep
     \<and> ul_params ul u ''directory'' = [directory] \<and> ul_params ul u ''workspace'' = [])"

definition clean_headers :: "(string \<times> string) list \<Rightarrow> bool" where
  "clean_headers hs \<longleftrightarrow> (\<forall>name \<in> fst ` set hs. name = ''X-Cloud-Request-ID'' \<or> lower name \<notin> set dropped_headers)"

definition unscoped_headers :: "(string \<times> string) list \<Rightarrow> bool" where
  "unscoped_headers hs \<longleftrightarrow> fst ` set hs \<inter> {''x-opencode-directory'', ''x-opencode-workspace''} = {}"

definition confined_call :: "'u url_lib \<Rightarrow> http_request \<Rightarrow> session_row option \<Rightarrow> endpoint \<Rightarrow> native_call \<Rightarrow> bool" where
  "confined_call ul rq route ep nc \<longleftrightarrow> nc_method nc = rq_method rq \<and> reaches ul ep (nc_url nc) \<and> clean_headers (nc_headers nc)
     \<and> (\<forall>r. route = Some r \<and> \<not> is_event_stream rq \<longrightarrow>
          pinned_to ul ep (session_directory (ss_id r)) (nc_url nc) \<and> unscoped_headers (nc_headers nc))
     \<and> (route = None \<and> session_collection rq \<longrightarrow> pinned_to ul ep ''/workspace'' (nc_url nc) \<and> unscoped_headers (nc_headers nc))"

lemma pin_directory_reaches:
  assumes "url_lib_ok ul" and "reaches ul ep url" and "pin_directory ul directory url = Inr url'"
  shows "pinned_to ul ep directory url'"
proof -
  from assms(3) obtain u where u: "ul_parse ul url = Inr u" and url': "url' = ul_str ul (ul_set ul ''directory'' directory (ul_remove ul ''workspace'' u))"
    by (auto simp: pin_directory_def exc_simps)
  have "ul_origin ul u = base_url ep"
    using assms(1,2) u unfolding reaches_def url_lib_ok_def by (auto simp: prefix_def)
  with assms(1) show ?thesis
    unfolding pinned_to_def url_lib_ok_def
    by (intro exI [of _ "ul_set ul ''directory'' directory (ul_remove ul ''workspace'' u)"]) (simp add: url')
qed

lemma pinned_reaches: "pinned_to ul ep directory url \<Longrightarrow> reaches ul ep url"
  by (auto simp: pinned_to_def reaches_def)

lemma fst_dupdate: "fst ` set (dupdate d u) = fst ` set d \<union> fst ` set u"
proof (induction u arbitrary: d)
  case (Cons p u)
  then show ?case by (cases p) (simp add: dupdate_def)
qed (simp add: dupdate_def)

lemma forward_headers_clean: "clean_headers (forward_headers rq rid)"
  by (auto simp: clean_headers_def forward_headers_def fst_dupdate)

lemma without_directory_headers:
  "unscoped_headers (without_directory hs)" "clean_headers hs \<Longrightarrow> clean_headers (without_directory hs)"
  by (auto simp: unscoped_headers_def clean_headers_def without_directory_def dpop_def)

lemma native_target_reaches:
  assumes ok: "url_lib_ok ul" and t: "native_target ul rq ep rid = Inr (url, hs)"
  shows "reaches ul ep url" "clean_headers hs"
    "session_collection rq \<Longrightarrow> pinned_to ul ep ''/workspace'' url \<and> unscoped_headers hs"
proof -
  let ?url0 = "base_url ep @ ''/'' @ rq_path rq @ (if rq_query rq = [] then [] else ''?'' @ rq_query rq)"
  from t obtain url1 hs1 where
    first: "(if session_collection rq then ebind (pin_directory ul ''/workspace'' ?url0) (\<lambda>url. Inr (url, without_directory (forward_headers rq rid)))
        else Inr (?url0, forward_headers rq rid)) = Inr (url1, hs1)"
    and second: "(let url = (if rq_path rq = ''event'' then base_url ep @ ''/global/event'' else url1) in
     if rq_method rq = ''GET'' \<and> rq_path rq = ''session''
     then ebind (ul_parse ul (base_url ep @ ''/experimental/session'')) (\<lambda>u.
       Inr (ul_str ul (ul_merge ul (filter (\<lambda>(k, v). k \<notin> {''directory'', ''workspace'', ''path'', ''scope''}) (rq_items rq)) u), hs1))
     else Inr (url, hs1)) = Inr (url, hs)"
    by (auto simp: native_target_def Let_def exc_simps split: if_splits)
  have reach0: "reaches ul ep ?url0" by (auto simp: reaches_def prefix_def)
  have pin: "pinned_to ul ep ''/workspace'' url1 \<and> unscoped_headers hs1" if "session_collection rq"
    using first that pin_directory_reaches [OF ok reach0] by (auto simp: exc_simps without_directory_headers)
  have "reaches ul ep url1" using first reach0 pin pinned_reaches by (cases "session_collection rq") auto
  moreover have "reaches ul ep (base_url ep @ ''/global/event'')" by (simp add: reaches_def)
  moreover have "reaches ul ep (ul_str ul (ul_merge ul items u))" if "ul_parse ul (base_url ep @ ''/experimental/session'') = Inr u" for items u
  proof -
    have "ul_parse ul (base_url ep @ ''/'' @ ''experimental/session'') = Inr u" using that by simp
    with ok have "ul_origin ul u = base_url ep" unfolding url_lib_ok_def by blast
    with ok show ?thesis unfolding url_lib_ok_def reaches_def by auto
  qed
  ultimately show "reaches ul ep url" using second by (auto simp: Let_def exc_simps split: if_splits)
  have "clean_headers hs1" using first forward_headers_clean by (auto simp: exc_simps without_directory_headers split: if_splits)
  then show "clean_headers hs" using second by (auto simp: Let_def exc_simps split: if_splits)
  assume s: "session_collection rq"
  then have "rq_method rq \<noteq> ''GET''" "rq_path rq \<noteq> ''event''" by (auto simp: session_collection_def rstrip_slash_def)
  with second pin [OF s] show "pinned_to ul ep ''/workspace'' url \<and> unscoped_headers hs" by simp
qed

section \<open>One call, inside the sandbox of the owner\<close>

text \<open>Other requests make their own calls: the log is of this one.\<close>

definition own_log :: "('d, 'u) router_env \<Rightarrow> bool" where
  "own_log env \<longleftrightarrow> (\<forall>w. rw_sent (re_admitting env w) = rw_sent w \<and> rw_sent (re_waiting env w) = rw_sent w \<and> rw_sent (re_meanwhile env w) = rw_sent w)"

interpretation sent_frame: acquire_frame "\<lambda>s. rw_sent s = c" for c
  by unfold_locales simp_all

lemma keeps_unless [step_rules]: "keeps I m \<Longrightarrow> keeps I (unless b m)"
  unfolding unless_def by (intro step_rules)

lemma keeps_acquire:
  assumes "\<And>s. I s \<Longrightarrow> I (f1 s)" "\<And>s. I s \<Longrightarrow> I (f2 s)" and "keeps I (acquire_locked st en a u)"
    and "\<And>s d. I s \<Longrightarrow> I (s\<lparr>sw_in_use := d\<rparr>)"
  shows "keeps I (acquire st en f1 f2 a u)"
  unfolding acquire_def by (intro step_rules assms) auto

lemma keeps_acquire_counted:
  assumes "own_log env"
  shows "keeps (\<lambda>s. rw_sent s = c) (acquire_counted env a u leased)"
  unfolding acquire_counted_def on_counts_def count_acquiring_def
  by (intro step_rules keeps_catch keeps_acquire sent_frame.keeps_acquire_locked) (use assms in \<open>auto simp: own_log_def intro!: step_rules\<close>)

text \<open>The state in which the acquisition of a request that arrived in \<open>s\<close> looks Docker up: the request has set
  its marks, and other tasks have run while it waited for the user's lock and for the operations service.\<close>

definition lookup_state :: "('d, 'u) router_env \<Rightarrow> 'd router_world \<Rightarrow> (string, int) dict \<times> (string, int) dict \<Rightarrow> 'd router_world" where
  "lookup_state env s counts = re_waiting env (re_admitting env (s\<lparr>sw_requests := fst counts, sw_acquiring := snd counts\<rparr>))"

lemma acquire_counted_Inr:
  assumes "docker_faithful (st_docker (re_setup env)) (re_acquire env)" and "acquire_counted env a u leased s = (Inr ep, t)"
  shows "\<exists>counts. acquired (re_setup env) (re_acquire env) a u ep (lookup_state env s counts) t"
proof -
  from assms(2) obtain s1 s2 where a: "acquire (re_setup env) (re_acquire env) (re_admitting env) (re_waiting env) a u s1 = (Inr ep, s2)"
    and s1: "s1 = s\<lparr>sw_acquiring := sw_acquiring s1\<rparr>" and t: "sw_reg t = sw_reg s2"
    by (auto simp: acquire_counted_def sx_then_Inr sx_finally_def sx_catch_Inr count_acquiring_def sx_modify_def split: prod.splits sum.splits)
  have look: "lookup_state env s (sw_requests s, sw_acquiring s1) = re_waiting env (re_admitting env s1)"
    by (subst (2) s1) (simp add: lookup_state_def)
  have "acquired (re_setup env) (re_acquire env) a u ep (lookup_state env s (sw_requests s, sw_acquiring s1)) t"
    using acquire_acquired [OF assms(1) a] unfolding acquired_def t look .
  then show ?thesis by blast
qed

lemma lookup_state_requests: "lookup_state env (s\<lparr>sw_requests := x\<rparr>) counts = lookup_state env s counts"
  by (simp add: lookup_state_def)

text \<open>What has happened when the tail of the request starts.\<close>

lemma admit_cases:
  assumes log: "own_log env" and faithful: "docker_faithful (st_docker (re_setup env)) (re_acquire env)" and run: "admit env rq rest s = (r, t)"
  obtains (refused) e where "r = Inl e" "rw_sent t = rw_sent s"
  | (admitted) m route a u body0 leased ep rid target body counts w where
      "routed_request rq (re_fresh env) (sw_reg s) = Inr (m, route, (a, u), body0)"
      "acquired (re_setup env) (re_acquire env) a u ep (lookup_state env s counts) w" "native_target (re_urls env) rq ep rid = Inr target"
      "rest m route a u leased ep target body w = (r, t)" "rw_sent w = rw_sent s"
proof (cases "routed_request rq (re_fresh env) (sw_reg s)")
  case (Inl e)
  with run have "r = Inl e" "t = s" by (simp_all add: admit_def sx_bind_lift)
  then show ?thesis by (intro refused) simp_all
next
  case (Inr p)
  obtain m route a u body0 where p: "p = (m, route, (a, u), body0)" by (metis surj_pair)
  note rr = Inr [unfolded p]
  consider (no) e where "r = Inl e" "t = s"
    | (yes) body leased where "(sx_then (unless (\<not> leased) (on_counts (lease a True)))
        (sx_bind (acquire_counted env a u leased) (\<lambda>ep.
        sx_bind (sx_of_res (native_target (re_urls env) rq ep (case rm_request m of None \<Rightarrow> [] | Some rid \<Rightarrow> rid))) (\<lambda>target.
        rest m route a u leased ep target body)))) s = (r, t)"
    using run unfolding admit_def
    by (auto simp: rr sx_bind_lift sx_bind_of_res Let_def split: sum.splits prod.splits)
  then show ?thesis
  proof cases
    case no
    with refused show ?thesis by simp
  next
    case yes
    obtain s1 where l: "unless (\<not> leased) (on_counts (lease a True)) s = (Inr (), s1)" and s1: "rw_sent s1 = rw_sent s"
      and s1_marks: "s1 = s\<lparr>sw_requests := sw_requests s1\<rparr>"
      by (cases leased) (auto simp: unless_def on_counts_def sx_modify_def sx_return_def)
    obtain r2 s2 where aq: "acquire_counted env a u leased s1 = (r2, s2)" by fastforce
    have s2: "rw_sent s2 = rw_sent s" by (rule keepsD [OF keeps_acquire_counted [OF log] s1 aq])
    show ?thesis
    proof (cases r2)
      case (Inl e)
      with yes l aq have "r = Inl e" "t = s2" by (simp_all add: sx_then_def sx_bind_def)
      with s2 show ?thesis by (intro refused) simp_all
    next
      case ep: (Inr ep)
      obtain counts where "acquired (re_setup env) (re_acquire env) a u ep (lookup_state env s1 counts) s2"
        using acquire_counted_Inr [OF faithful aq [unfolded ep]] by blast
      then have acq: "acquired (re_setup env) (re_acquire env) a u ep (lookup_state env s counts) s2"
        using lookup_state_requests [where s = s and x = "sw_requests s1"] s1_marks by metis
      show ?thesis
      proof (cases "native_target (re_urls env) rq ep (case rm_request m of None \<Rightarrow> [] | Some rid \<Rightarrow> rid)")
        case (Inl e)
        with yes l aq ep have "r = Inl e" "t = s2" by (simp_all add: sx_then_def sx_bind_def sx_of_res_def)
        with s2 show ?thesis by (intro refused) simp_all
      next
        case (Inr target)
        with yes l aq ep have "rest m route a u leased ep target body s2 = (r, t)" by (simp add: sx_then_def sx_bind_def sx_of_res_def)
        with admitted [OF rr acq Inr _ s2] show ?thesis by blast
      qed
    qed
  qed
qed

text \<open>At most one call was made, and it satisfies \<open>C\<close>.\<close>

definition one_call :: "(native_call \<Rightarrow> bool) \<Rightarrow> native_call list \<Rightarrow> ('d, 'x) router_world_scheme \<Rightarrow> bool" where
  "one_call C c s \<longleftrightarrow> rw_sent s = c \<or> (\<exists>nc. C nc \<and> rw_sent s = c @ [nc])"

lemma release_sent: "release ep persisted touch now s = (r, t) \<Longrightarrow> rw_sent t = rw_sent s"
  by (auto simp: release_def Let_def sx_finally_def sx_then_def sx_bind_def sx_of_res_def sx_modify_def sx_return_def on_registry_def
      split: if_splits sum.splits prod.splits)

lemma keeps_let_go: "keeps (one_call C c) (let_go env ep persisted)"
  by (rule tripleI) (auto simp: let_go_def one_call_def dest!: release_sent)

lemma keeps_finish: "keeps (one_call C c) (finish env a leased ep persisted r)"
  unfolding finish_def on_counts_def by (intro step_rules keeps_let_go) (auto simp: one_call_def)

lemma keeps_recorded: "keeps (one_call C c) (record_created env ep a u m body v2)"
  unfolding record_created_def by (intro step_rules) (auto intro!: tripleI simp: one_call_def split: prod.splits)

lemma sends_one:
  assumes "own_log env" and "C nc"
  shows "triple (\<lambda>s. rw_sent s = c) (send_native env nc) (\<lambda>_. one_call C c) (\<lambda>_. one_call C c)"
  using assms
  by (auto simp: triple_def send_native_def sx_then_def sx_bind_def sx_modify_def sx_of_res_def one_call_def own_log_def split: sum.splits)

lemma exchange_sends:
  assumes "own_log env" and "url_lib_ok (re_urls env)" and "native_target (re_urls env) rq ep rid = Inr target" and ev: "\<not> is_event_stream rq"
  shows "triple (\<lambda>s. rw_sent s = c) (exchange env rq route target body) (\<lambda>_. one_call (confined_call (re_urls env) rq route ep) c)
    (\<lambda>_. one_call (confined_call (re_urls env) rq route ep) c)"
proof -
  obtain url0 hs0 where target: "target = (url0, hs0)" by fastforce
  note reach = native_target_reaches [OF assms(2) assms(3) [unfolded target]]
  have "confined_call (re_urls env) rq route ep \<lparr>nc_method = rq_method rq, nc_url = url, nc_headers = hs, nc_body = body\<rparr>"
    if "(case route of None \<Rightarrow> Inr target
      | Some r \<Rightarrow> ebind (if executes rq then ebind (ensure env r) (\<lambda>_. Inr ()) else Inr ()) (\<lambda>_.
          ebind (pin_directory (re_urls env) (session_directory (ss_id r)) (fst target)) (\<lambda>url. Inr (url, without_directory (snd target))))) = Inr (url, hs)" for url hs
    using that reach ev pin_directory_reaches [OF assms(2) reach(1)]
    by (auto intro: pinned_reaches simp: confined_call_def target without_directory_headers exc_simps split: option.splits)
  then show ?thesis
    unfolding exchange_def
    by (intro triple_bind [where R = "\<lambda>x s. confined_call (re_urls env) rq route ep
          \<lparr>nc_method = rq_method rq, nc_url = fst x, nc_headers = snd x, nc_body = body\<rparr> \<and> rw_sent s = c"] triple_of_res)
      (auto simp: one_call_def intro!: triple_fact sends_one [OF assms(1)])
qed

lemma native_body_sends:
  assumes "own_log env" and "url_lib_ok (re_urls env)" and "native_target (re_urls env) rq ep rid = Inr target" and "\<not> is_event_stream rq"
  shows "triple (\<lambda>s. rw_sent s = c) (native_body env rq m route a u leased ep target body)
    (\<lambda>_. one_call (confined_call (re_urls env) rq route ep) c) (\<lambda>_. one_call (confined_call (re_urls env) rq route ep) c)"
proof -
  let ?I = "one_call (confined_call (re_urls env) rq route ep) c"
  have exch: "triple (\<lambda>s. rw_sent s = c) (attempt (exchange env rq route target body)) (\<lambda>_. ?I) F" for F
    using exchange_sends [OF assms, of c route body] by (auto simp: triple_def attempt_def split: prod.splits sum.splits)
  have read: "triple (\<lambda>s. rw_sent s = c) (attempt (read_collection env rq ep)) (\<lambda>_. ?I) F" for F
    by (rule tripleI) (auto simp: attempt_def read_collection_def sx_lift_def one_call_def)
  have rec: "triple ?I (attempt (record_created env ep a u m body v2)) (\<lambda>_. ?I) F" for body v2 F
    by (rule keeps_attempt [OF keeps_recorded])
  have pres: "triple ?I (attempt (present_created env sid v2 reply)) (\<lambda>_. ?I) F" for sid v2 reply F
    by (rule tripleI) (auto simp: attempt_def present_created_def sx_lift_def)
  have created: "keeps ?I (sx_bind (attempt (record_created env ep a u m body v2)) (\<lambda>r. case r of
              Inl e \<Rightarrow> finish env a leased ep False (Inl e)
            | Inr sid \<Rightarrow> sx_bind (attempt (present_created env sid v2 reply)) (finish env a leased ep True)))" for body v2 and reply
    by (rule triple_bind [OF rec]) (auto split: sum.split intro!: keeps_finish triple_bind [OF pres])
  show ?thesis
    unfolding native_body_def Let_def
    by (auto split: sum.split intro!: triple_bind [OF read keeps_finish] triple_bind [OF exch] keeps_finish created)
qed

lemma finish_sent: "finish env a leased ep persisted r w = (x, t) \<Longrightarrow> rw_sent t = rw_sent w"
  by (auto simp: finish_def unless_def on_counts_def let_go_def sx_then_def sx_bind_def sx_modify_def sx_return_def sx_of_res_def
      split: if_splits sum.splits prod.splits dest!: release_sent)

lemma collection_forwards_nothing:
  "is_collection rq route \<Longrightarrow> native_body env rq m route a u leased ep target body w = (r, t) \<Longrightarrow> rw_sent t = rw_sent w"
  by (auto simp: native_body_def sx_bind_def attempt_def read_collection_def sx_lift_def dest!: finish_sent split: prod.splits)

lemma stream_open_sends:
  assumes "own_log env" and "url_lib_ok (re_urls env)" and "native_target (re_urls env) rq ep rid = Inr target" and ev: "is_event_stream rq"
  shows "triple (\<lambda>s. rw_sent s = c) (stream_open env ep target flatten)
    (\<lambda>_. one_call (confined_call (re_urls env) rq route ep) c) (\<lambda>_. one_call (confined_call (re_urls env) rq route ep) c)"
proof -
  let ?nc = "\<lparr>nc_method = ''GET'', nc_url = fst target, nc_headers = snd target, nc_body = NoBytes\<rparr>"
  let ?I = "one_call (confined_call (re_urls env) rq route ep) c"
  obtain url0 hs0 where target: "target = (url0, hs0)" by fastforce
  note reach = native_target_reaches [OF assms(2) assms(3) [unfolded target]]
  have get: "rq_method rq = ''GET''" "\<not> session_collection rq" using ev by (auto simp: is_event_stream_def session_collection_def)
  have "confined_call (re_urls env) rq route ep ?nc" using reach ev get by (simp add: confined_call_def target)
  then have sent: "triple (\<lambda>s. rw_sent s = c) (sx_modify (\<lambda>s. s\<lparr>rw_sent := rw_sent s @ [?nc]\<rparr>)) (\<lambda>_. ?I) F" for F
    by (auto simp: triple_def sx_modify_def one_call_def)
  have rest: "keeps ?I (sx_modify (re_meanwhile env))" using assms(1) by (auto simp: triple_def sx_modify_def one_call_def own_log_def)
  show ?thesis
    unfolding stream_open_def Let_def
    by (rule triple_bind [where R = "\<lambda>_ s. rw_sent s = c"], rule triple_of_res, simp, simp add: one_call_def,
      rule triple_then [OF sent triple_then [OF rest]])
      (auto split: sse_opening.split intro!: step_rules keeps_let_go simp: one_call_def)
qed


lemma routed_request_Inr:
  assumes "routed_request rq fresh reg = Inr (m, route, (a, u), body)"
  shows "find_route rq reg = Inr route" "resolve_owner route m = Inr (a, u)"
  using assms by (auto simp: routed_request_def Let_def exc_simps split: prod.splits)

lemma find_route_stored: "find_route rq reg = Inr (Some r) \<Longrightarrow> r \<in> set (sessions reg)"
  by (auto simp: find_route_def session_route_def get_session_route_def Let_def split: option.splits if_splits dest: find_row_Some)

text \<open>A route that governs the request is the one of its URL, and of its context header.\<close>

definition governs :: "http_request \<Rightarrow> registry \<Rightarrow> session_row option \<Rightarrow> bool" where
  "governs rq reg route \<longleftrightarrow> (\<forall>row. session_route (rq_path rq) reg = Some row \<longrightarrow> route = Some row)
     \<and> (\<forall>sid. header rq ''x-cloud-session-id'' = Some sid \<and> sid \<noteq> [] \<longrightarrow> (\<exists>row. route = Some row \<and> ss_id row = sid))"

lemma find_route_governs:
  assumes "find_route rq reg = Inr route"
  shows "governs rq reg route"
proof (cases "or_else (header rq ''x-cloud-session-id'') None")
  case None
  with assms show ?thesis by (auto simp: find_route_def governs_def or_else_def split: if_splits)
next
  case (Some sid)
  with assms obtain row where "get_session_route sid reg = Some row"
    and "session_route (rq_path rq) reg = None \<and> route = Some row \<or> (\<exists>r. session_route (rq_path rq) reg = Some r \<and> ss_id r = sid \<and> route = Some r)"
    by (fastforce simp: find_route_def Let_def split: option.splits if_splits)
  then show ?thesis
    using Some by (auto simp: governs_def or_else_def get_session_route_def dest: find_row_Some split: if_splits)
qed

lemma resolve_owner_Inr:
  assumes "resolve_owner route m = Inr (a, u)"
  shows "case route of Some r \<Rightarrow> ss_agent r = a \<and> ss_user r = u \<and> rm_agent m \<in> {None, Some [], Some a} \<and> rm_user m \<in> {None, Some [], Some u}
    | None \<Rightarrow> rm_agent m = Some a \<and> rm_user m = Some u \<and> a \<noteq> [] \<and> u \<noteq> []"
  using assms by (auto simp: resolve_owner_def or_else_def exc_simps split: option.splits if_splits)

lemma demo_origin: "ul_parse demo_urls (base_url ep @ ''/'' @ rest) = Inr u \<Longrightarrow> ul_origin demo_urls u = base_url ep"
proof -
  have "drop 17 (base_url ep @ ''/'' @ rest) = dec_nat (nat (ep_host_port ep)) @ CHR ''/'' # rest" by (simp add: base_url_def)
  then show "ul_parse demo_urls (base_url ep @ ''/'' @ rest) = Inr u \<Longrightarrow> ul_origin demo_urls u = base_url ep"
    by (auto simp: demo_urls_def base_url_def dec_nat_no_slash)
qed

lemma demo_urls_ok: "url_lib_ok demo_urls"
  unfolding url_lib_ok_def
proof (intro conjI allI impI)
  show "ul_origin demo_urls u = base_url ep" if "ul_parse demo_urls (base_url ep @ ''/'' @ rest) = Inr u" for ep rest u
    using that by (rule demo_origin)
  show "ul_origin demo_urls v = ul_origin demo_urls u" if "ul_parse demo_urls (ul_str demo_urls u) = Inr v" for u v
    using that by (cases u) (auto simp: demo_urls_def dec_nat_no_slash)
qed (auto simp: demo_urls_def filter_empty_conv intro!: arg_cong [where f = "map snd"] filter_cong split: prod.splits)

lemma demo_own_log: "own_log demo_router_env"
  by (simp add: own_log_def demo_router_env_def)

lemma demo_router_faithful: "docker_faithful (st_docker (re_setup demo_router_env)) (re_acquire demo_router_env)"
  using demo_faithful by (simp add: demo_router_env_def demo_sandbox_setup_def)

text \<open>C22: a request forwards at most one call, and only to the sandbox acquired for its owner: the owner of the
  session that the URL or the context header names, or else the one in its routing metadata. Acquired
  means that Docker supplied the container, looked up while this request was admitted, that it carries
  this owner's labels and that the owner's row is ready at it. The call has the request's method, goes
  below that sandbox's address and has no hop-by-hop, credential or routing headers. If a session is
  named and the request does not open an event stream, it is pinned to the session's directory; an event
  stream keeps the directory the client asked for. Creating a session is pinned to the workspace. Not
  counted are the router's own calls, which confirm a session's binding (\<open>ensure\<close>) or read a collection
  over the directories (\<open>directory_collection\<close>); a request that reads a collection forwards nothing.\<close>

theorem call_stays_with_owner:
  assumes "own_log env" and "url_lib_ok (re_urls env)" and "docker_faithful (st_docker (re_setup env)) (re_acquire env)"
    and "proxy env rq s = (r, t)" and "rw_sent t \<noteq> rw_sent s"
  shows "\<exists>m route a u body ep counts w nc. routed_request rq (re_fresh env) (sw_reg s) = Inr (m, route, (a, u), body)
    \<and> governs rq (sw_reg s) route
    \<and> (case route of
         Some row \<Rightarrow> row \<in> set (sessions (sw_reg s)) \<and> ss_agent row = a \<and> ss_user row = u
           \<and> rm_agent m \<in> {None, Some [], Some a} \<and> rm_user m \<in> {None, Some [], Some u}
       | None \<Rightarrow> rm_agent m = Some a \<and> rm_user m = Some u)
    \<and> acquired (re_setup env) (re_acquire env) a u ep (lookup_state env s counts) (w :: 'd router_world)
    \<and> \<not> (is_collection rq route \<and> \<not> is_event_stream rq) \<and> rw_sent t = rw_sent s @ [nc] \<and> confined_call (re_urls env) rq route ep nc"
proof (rule admit_cases [OF assms(1,3) assms(4) [unfolded proxy_admit]])
  fix m route a u body0 leased ep rid target body counts w
  assume rr: "routed_request rq (re_fresh env) (sw_reg s) = Inr (m, route, (a, u), body0)"
    and acq: "acquired (re_setup env) (re_acquire env) a u ep (lookup_state env s counts) (w :: 'd router_world)"
    and target: "native_target (re_urls env) rq ep rid = Inr target"
    and tail: "(if is_event_stream rq then stream_open env ep target (rq_path rq = ''event'')
      else native_body env rq m route a u leased ep target body) w = (r, t)" and w: "rw_sent w = rw_sent s"
  have "one_call (confined_call (re_urls env) rq route ep) (rw_sent s) t"
  proof (cases "is_event_stream rq")
    case True
    with tail show ?thesis by (intro tripleD_any [OF stream_open_sends [OF assms(1,2) target True] w]) simp
  next
    case False
    with tail show ?thesis by (intro tripleD_any [OF native_body_sends [OF assms(1,2) target False] w]) simp
  qed
  with assms(5) obtain nc where "rw_sent t = rw_sent s @ [nc]" "confined_call (re_urls env) rq route ep nc" by (auto simp: one_call_def)
  moreover note routed = routed_request_Inr [OF rr]
  have "case route of Some row \<Rightarrow> row \<in> set (sessions (sw_reg s)) \<and> ss_agent row = a \<and> ss_user row = u
           \<and> rm_agent m \<in> {None, Some [], Some a} \<and> rm_user m \<in> {None, Some [], Some u}
       | None \<Rightarrow> rm_agent m = Some a \<and> rm_user m = Some u"
    using resolve_owner_Inr [OF routed(2)] find_route_stored routed(1) by (cases route) auto
  moreover have "\<not> (is_collection rq route \<and> \<not> is_event_stream rq)"
    using tail collection_forwards_nothing w assms(5) by fastforce
  ultimately show ?thesis using rr acq find_route_governs [OF routed(1)] by blast
qed (use assms(5) in simp)


theorem call_stays_with_owner_witness:
  "\<exists>t ep nc counts (w :: container_view option router_world). snd (proxy demo_router_env (demo_request ''GET'' ''file'') (demo_router_world [] [])) = t
     \<and> acquired demo_sandbox_setup demo_env ''a1'' ''u1'' ep (lookup_state demo_router_env (demo_router_world [] []) counts) w \<and> rw_sent t = [nc]
     \<and> confined_call demo_urls (demo_request ''GET'' ''file'') None ep nc"
proof -
  obtain t c nc where run: "proxy demo_router_env (demo_request ''GET'' ''file'') (demo_router_world [] []) = (Inr (Answer 200 [] c), t)" "rw_sent t = [nc]"
    using demo_file_run by blast
  have w: "rw_sent (demo_router_world [] []) = []" "re_fresh demo_router_env = ''f''" "re_setup demo_router_env = demo_sandbox_setup" "re_acquire demo_router_env = demo_env"
    "re_urls demo_router_env = demo_urls" "sw_reg (demo_router_world [] []) = empty_registry" "sessions empty_registry = []"
    by (simp_all add: demo_router_world_def demo_router_env_def empty_registry_def)
  have ok: "url_lib_ok (re_urls demo_router_env)" using demo_urls_ok by (simp add: w)
  from call_stays_with_owner [OF demo_own_log ok demo_router_faithful run(1)] run show ?thesis by (auto simp: w demo_routed)
qed

section \<open>Created sessions\<close>

lemma session_in_True: "session_in d session = Inr True \<Longrightarrow> \<exists>e. session = JObj e \<and> map_of e ''directory'' = Some (JStr d)"
  by (auto simp: session_in_def attr_get_def dget_def exc_simps split: json.splits option.splits)

lemma bind_native_Inr: "bind_native d first move second = Inr session \<Longrightarrow> session_in d session = Inr True"
  by (auto simp: bind_native_def exc_simps split: if_splits option.splits)

lemma ensure_binding_Inr:
  assumes "ensure_binding scope placeholder first move second r = Inr b"
  shows "bind_native (session_directory (ss_id r)) first move second = Inr b"
proof (cases "bind_native (session_directory (ss_id r)) first move second")
  case (Inl e)
  with assms show ?thesis by (cases e) (auto simp: ensure_binding_def exc_simps validate_identifier_iff)
qed (use assms in \<open>auto simp: ensure_binding_def exc_simps validate_identifier_iff\<close>)

lemma ensure_Inr:
  assumes "ensure env r = Inr b"
  shows "subscript b ''directory'' = Inr (JStr (session_directory (ss_id r)))"
proof -
  obtain first move second where n: "re_native env r = (first, move, second)" by (metis surj_pair)
  with assms have "ensure_binding (re_scope env r) (re_placeholder env r) first move second r = Inr b" by (simp add: ensure_def)
  from session_in_True [OF bind_native_Inr [OF ensure_binding_Inr [OF this]]] show ?thesis
    by (auto simp: subscript_def jindex_def)
qed

text \<open>The identifier and the directory of a created session, as its client reads them.\<close>

definition answered_session :: "bool \<Rightarrow> json \<Rightarrow> jdict res" where
  "answered_session v2 payload = (case (if v2 then subscript payload ''data'' else Inr payload) of
     Inr (JObj d) \<Rightarrow> Inr d | Inr _ \<Rightarrow> Inl (TypeError ''object'') | Inl e \<Rightarrow> Inl e)"

lemma record_created_Inr:
  assumes "record_created env ep a u m c v2 s = (Inr sid, t)"
  shows "created_id c v2 = Inr sid" "\<exists>row. get_session_route sid (sw_reg t) = Some row \<and> ss_agent row = a \<and> ss_user row = u \<and> ss_sandbox row = ep_sandbox ep \<and> ss_id row = sid"
proof -
  from assms obtain results reg route where id: "created_id c v2 = Inr sid"
    and cb: "commit_batch (re_record env) [session_entry_of env ep a u m sid] (sw_reg s) = (results, reg)"
    and route: "hd results = Inr route" and t: "t = s\<lparr>sw_reg := reg\<rparr>"
    by (auto simp: record_created_def sx_bind_of_res split: sum.splits prod.splits)
  show "created_id c v2 = Inr sid" by (rule id)
  from commit_batch_routed(1) [OF cb] route have "routed_to reg (session_entry_of env ep a u m sid) route"
    by (auto simp: list_all2_Cons1)
  then show "\<exists>row. get_session_route sid (sw_reg t) = Some row \<and> ss_agent row = a \<and> ss_user row = u \<and> ss_sandbox row = ep_sandbox ep \<and> ss_id row = sid"
    by (auto simp: routed_to_def session_entry_of_def ss_binding_def t get_session_route_def dest: find_row_Some)
qed

lemma present_created_Inr:
  assumes run: "present_created env sid v2 (status, hs, c) s = (Inr answer, t)" and id: "created_id c v2 = Inr sid"
    and row: "get_session_route sid (sw_reg s) = Some row" "ss_id row = sid"
  shows "t = s \<and> (\<exists>hs' payload d. answer = Answer status hs' (Dumped payload) \<and> answered_session v2 payload = Inr d
     \<and> map_of d ''id'' = Some (JStr sid) \<and> map_of d ''directory'' = Some (JStr (session_directory sid)))"
proof -
  from run row obtain bound payload0 where b: "ensure env row = Inr bound" and p0: "loads c = Inr payload0" and t: "t = s"
    by (auto simp: present_created_def sx_lift_def exc_simps split: sum.splits)
  note dir = ensure_Inr [OF b, unfolded row(2)]
  from id p0 obtain inner where inner: "(if v2 then subscript payload0 ''data'' else Inr payload0) = Inr inner" and sid: "subscript inner ''id'' = Inr (JStr sid)"
    by (auto simp: created_id_def exc_simps split: sum.splits json.splits if_splits)
  from sid obtain d where d: "inner = JObj d" "map_of d ''id'' = Some (JStr sid)"
    by (auto simp: subscript_def jindex_def split: json.splits option.splits)
  show ?thesis
  proof (cases v2)
    case True
    with inner d obtain e where "payload0 = JObj e" "map_of e ''data'' = Some (JObj d)"
      by (auto simp: subscript_def jindex_def split: json.splits option.splits)
    with run row b p0 dir inner True
    have "answer = Answer status (dpop ''content-encoding'' hs) (Dumped (JObj (dput ''data'' (JObj (dput ''directory'' (JStr (session_directory sid)) d)) e)))"
      by (auto simp: present_created_def sx_lift_def exc_simps d(1))
    moreover have "answered_session v2 (JObj (dput ''data'' (JObj (dput ''directory'' (JStr (session_directory sid)) d)) e))
        = Inr (dput ''directory'' (JStr (session_directory sid)) d)"
      using True by (simp add: answered_session_def subscript_def jindex_def)
    ultimately show ?thesis using t d(2) by auto
  next
    case False
    with run row b p0 dir inner
    have "answer = Answer status (dpop ''content-encoding'' hs) (Dumped (JObj (dput ''directory'' (JStr (session_directory sid)) d)))"
      by (auto simp: present_created_def sx_lift_def exc_simps d(1))
    moreover have "answered_session v2 (JObj (dput ''directory'' (JStr (session_directory sid)) d)) = Inr (dput ''directory'' (JStr (session_directory sid)) d)"
      using False by (simp add: answered_session_def)
    ultimately show ?thesis using t d(2) by auto
  qed
qed

lemma finish_Inr:
  assumes "finish env a leased ep persisted r s = (Inr x, t)"
  shows "r = Inr x" "persisted \<Longrightarrow> sw_reg t = sw_reg s"
proof -
  from assms obtain s1 s2 where l: "unless (\<not> leased) (on_counts (lease a False)) s = (Inr (), s1)"
    and g: "let_go env ep persisted s1 = (Inr (), s2)" and r: "r = Inr x" "t = s2"
    by (auto simp: finish_def sx_then_Inr sx_of_res_Inr)
  show "r = Inr x" by (rule r)
  have "sw_reg s1 = sw_reg s" using l by (auto simp: unless_def on_counts_def sx_modify_def sx_return_def split: if_splits)
  moreover have "sw_reg s2 = sw_reg s1" if persisted
    using g that by (auto simp: let_go_def release_def Let_def sx_finally_def sx_return_def sx_modify_def split: if_splits)
  ultimately show "persisted \<Longrightarrow> sw_reg t = sw_reg s" using r by simp
qed

lemma sx_bind_attempt: "m s = (r1, s1) \<Longrightarrow> sx_bind (attempt m) f s = f r1 s1"
  by (simp add: sx_bind_def attempt_def)

lemma native_body_created:
  assumes run: "native_body env rq m route a u leased ep target body s = (Inr (Answer status hs c), t)"
    and rq: "session_collection rq" and status: "200 \<le> status" "status < 300"
  shows "\<exists>payload d sid row. c = Dumped payload \<and> answered_session (rstrip_slash (rq_path rq) = ''api/session'') payload = Inr d
    \<and> map_of d ''id'' = Some (JStr sid) \<and> map_of d ''directory'' = Some (JStr (session_directory sid))
    \<and> get_session_route sid (sw_reg t) = Some row \<and> ss_agent row = a \<and> ss_user row = u \<and> ss_sandbox row = ep_sandbox ep"
proof -
  let ?v2 = "rstrip_slash (rq_path rq) = ''api/session''"
  have post: "rq_method rq = ''POST''" using rq by (simp add: session_collection_def)
  obtain r1 s1 where ex: "exchange env rq route target body s = (r1, s1)" by fastforce
  have step: "(case r1 of Inl e \<Rightarrow> finish env a leased ep False (Inl e)
     | Inr reply \<Rightarrow> (if creates_session rq route (fst reply) then
            sx_bind (attempt (record_created env ep a u m (snd (snd reply)) ?v2)) (\<lambda>r. case r of
              Inl e \<Rightarrow> finish env a leased ep False (Inl e)
            | Inr sid \<Rightarrow> sx_bind (attempt (present_created env sid ?v2 reply)) (finish env a leased ep True))
         else finish env a leased ep False (conceal_config rq reply))) s1 = (Inr (Answer status hs c), t)"
    using run post ex unfolding native_body_def Let_def by (simp add: is_collection_def sx_bind_attempt [where m = "exchange env rq route target body" and s = s, OF ex])
  then obtain status1 hs1 c1 where r1: "r1 = Inr (status1, hs1, c1)"
    by (cases r1) (auto dest: finish_Inr(1))
  have cr: "creates_session rq route status1"
  proof (rule ccontr)
    assume n: "\<not> creates_session rq route status1"
    with step r1 have "conceal_config rq (status1, hs1, c1) = Inr (Answer status hs c)" by (auto dest: finish_Inr(1))
    then have "status1 = status" using post by (simp add: conceal_config_def)
    with n rq status post show False by (simp add: creates_session_def)
  qed
  obtain r2 s2 where rec: "record_created env ep a u m c1 ?v2 s1 = (r2, s2)" by fastforce
  with step r1 cr obtain sid where r2: "r2 = Inr sid"
    by (cases r2) (auto simp: sx_bind_def attempt_def dest: finish_Inr(1))
  obtain r3 s3 where pres: "present_created env sid ?v2 (status1, hs1, c1) s2 = (r3, s3)" by fastforce
  with step r1 cr rec r2 have fin: "finish env a leased ep True r3 s3 = (Inr (Answer status hs c), t)"
    by (simp add: sx_bind_def attempt_def)
  note rc = record_created_Inr [OF rec [unfolded r2]]
  from rc(2) obtain row where row: "get_session_route sid (sw_reg s2) = Some row" "ss_agent row = a" "ss_user row = u"
    "ss_sandbox row = ep_sandbox ep" "ss_id row = sid" by blast
  from present_created_Inr [OF pres [unfolded finish_Inr(1) [OF fin]] rc(1) row(1,5)] finish_Inr(2) [OF fin] row
  show ?thesis by auto
qed




end
