(* ===== verification/CatalogStore.thy ===== *)
theory CatalogStore
  imports ModelConfig ModelRouting SkillUpload StepLogic
begin

text \<open>
  The configuration the catalog service keeps: \<open>ManagementStore\<close> of \<open>catalog_service/src/management.py\<close>, the
  endpoints of \<open>catalog_service/src/admin_api.py\<close> that edit it, and \<open>catalog_service/src/agent_templates.py\<close>.
  The document is one JSON value in one row; here it is a record. Field types are those the request
  models (\<open>admin_dto.py\<close>) admit; models and resource data stay JSON. The field \<open>jobs\<close> is emptied by every
  read, so the checks on it never apply and are left out, and so is the set \<open>blocked\<close> that is never filled. Messages
  that are not ASCII are given in English, and lists of choices in them are shortened.
\<close>

section \<open>The document\<close>

type_synonym binding = "string \<times> nat"

record agent_config =
  ac_name :: string
  ac_description :: string
  ac_enabled :: bool
  ac_instructions :: string
  ac_allowed :: "string list option"
  ac_default :: "string option"
  ac_small :: "string option"
  ac_cpu :: "int option"
  ac_memory :: "int option"
  ac_bindings :: "binding list option"

record published_version =
  vn_number :: nat
  vn_created :: rat
  vn_data :: jdict
  vn_files :: "(string, string) dict"

record catalog_resource =
  cr_id :: string
  cr_name :: string
  cr_kind :: string
  cr_owner :: "string option"
  cr_archived :: bool
  cr_data :: jdict
  cr_files :: "(string, string) dict"
  cr_versions :: "published_version list"

record agent_version =
  an_number :: nat
  an_created :: rat
  an_config :: agent_config
  an_path :: string

record catalog_agent =
  ag_draft :: agent_config
  ag_versions :: "agent_version list"
  ag_active :: "nat option"
  ag_lifecycle :: string

record gateway_version =
  gn_number :: nat
  gn_created :: rat
  gn_models :: "(string, jdict) dict"

record agent_template =
  tp_config :: agent_config
  tp_imported :: bool
  tp_restored :: "(string \<times> rat) option"

text \<open>The entries of the model gateway: a managed deployment, or one of the original deployment.\<close>

datatype gateway_entry = Managed router_entry | Legacy string string string string nat

datatype release_content = GatewayRelease "(string, jdict) dict" "gateway_entry list" | AgentRelease agent_config string

record catalog_release =
  rl_target :: string
  rl_number :: nat
  rl_content :: release_content
  rl_revision :: nat
  rl_old_active :: "nat option"
  rl_committed :: bool

record catalog_doc =
  cd_models :: "(string, jdict) dict"
  cd_resources :: "(string, catalog_resource) dict"
  cd_agents :: "(string, catalog_agent) dict"
  cd_tombstones :: "(string, rat \<times> json) dict"
  cd_gateway_versions :: "gateway_version list"
  cd_gateway_active :: "nat option"
  cd_releases :: "(string, catalog_release) dict"
  cd_templates :: "(string, agent_template) dict"
  cd_bootstrapped :: bool

record catalog_store =
  cat_revision :: nat
  cat_doc :: catalog_doc
  cat_blobs :: "(string, string) dict"

type_synonym 'a cx = "(catalog_store, 'a) sx"

definition allowed_of :: "agent_config \<Rightarrow> string list" where
  "allowed_of cfg = (case ac_allowed cfg of None \<Rightarrow> [] | Some xs \<Rightarrow> xs)"

definition bindings_of :: "agent_config \<Rightarrow> binding list" where
  "bindings_of cfg = (case ac_bindings cfg of None \<Rightarrow> [] | Some xs \<Rightarrow> xs)"

section \<open>Transactions and blobs\<close>

text \<open>An edit that raises is rolled back; the blobs it wrote are files and stay.\<close>

definition edit :: "nat option \<Rightarrow> 'a cx \<Rightarrow> 'a cx" where
  "edit expected m = (\<lambda>s.
    if expected \<noteq> None \<and> expected \<noteq> Some (cat_revision s) then (Inl (fail ''Configuration changed; reload before saving'' 409), s)
    else case m s of
      (Inl e, t) \<Rightarrow> (Inl e, s\<lparr>cat_blobs := cat_blobs t\<rparr>)
    | (Inr x, t) \<Rightarrow> (Inr x, t\<lparr>cat_revision := cat_revision s + 1\<rparr>))"

definition on_doc :: "(catalog_doc \<Rightarrow> ('a \<times> catalog_doc) res) \<Rightarrow> 'a cx" where
  "on_doc f = (\<lambda>s. case f (cat_doc s) of Inl e \<Rightarrow> (Inl e, s) | Inr (x, d) \<Rightarrow> (Inr x, s\<lparr>cat_doc := d\<rparr>))"

definition change :: "(catalog_doc \<Rightarrow> catalog_doc res) \<Rightarrow> unit cx" where
  "change f = on_doc (\<lambda>d. ebind (f d) (\<lambda>d'. Inr ((), d')))"

text \<open>\<open>blob\<close>: content-addressed files; \<open>digest\<close> is SHA-256.\<close>

definition blob :: "(string \<Rightarrow> string) \<Rightarrow> string \<Rightarrow> string cx" where
  "blob digest content = (\<lambda>s. (Inr (digest content),
     if map_of (cat_blobs s) (digest content) = None then s\<lparr>cat_blobs := dput (digest content) content (cat_blobs s)\<rparr> else s))"

definition hex_digit :: "char \<Rightarrow> bool" where
  "hex_digit c \<longleftrightarrow> is_digit c \<or> (CHR ''a'' \<le> c \<and> c \<le> CHR ''f'')"

definition blob_file :: "string \<Rightarrow> (string, string) dict \<Rightarrow> string res" where
  "blob_file d blobs =
    ebind (raise_if (length d \<noteq> 64 \<or> \<not> list_all hex_digit d) (fail ''Invalid blob ID'' 400)) (\<lambda>_.
    case map_of blobs d of None \<Rightarrow> Inl (FileNotFoundError d) | Some content \<Rightarrow> Inr content)"

section \<open>Versions and references\<close>

definition resource_version :: "catalog_doc \<Rightarrow> string \<Rightarrow> nat \<Rightarrow> (catalog_resource \<times> published_version) res" where
  "resource_version doc rid n = (case map_of (cd_resources doc) rid of
     None \<Rightarrow> Inl (fail ''Resource not found'' 404)
   | Some r \<Rightarrow> (case find (\<lambda>v. vn_number v = n) (cr_versions r) of
       None \<Rightarrow> Inl (fail ''Published resource version not found'' 404)
     | Some v \<Rightarrow> Inr (r, v)))"

definition active_config :: "catalog_agent \<Rightarrow> agent_config option" where
  "active_config a = map_option an_config (find (\<lambda>v. Some (an_number v) = ag_active a) (ag_versions a))"

definition model_enabled :: "jdict \<Rightarrow> bool" where
  "model_enabled m \<longleftrightarrow> truthy (dget m ''enabled'' (JBool True))"

definition live_configs :: "catalog_agent \<Rightarrow> agent_config list" where
  "live_configs a = ag_draft a # (case active_config a of None \<Rightarrow> [] | Some c \<Rightarrow> [c])"

definition model_references :: "catalog_doc \<Rightarrow> string \<Rightarrow> bool \<Rightarrow> string list" where
  "model_references doc mid enabled_only = map fst (filter (\<lambda>(aid, a).
     list_ex (\<lambda>c. mid \<in> set (allowed_of c) \<and> (\<not> enabled_only \<or> ac_enabled c)) (live_configs a)) (cd_agents doc))"

section \<open>Checking an Agent\<close>

fun check_models :: "catalog_doc \<Rightarrow> bool \<Rightarrow> string list \<Rightarrow> unit res" where
  "check_models doc enabled [] = Inr ()"
| "check_models doc enabled (mid # mids) = (case map_of (cd_models doc) mid of
     None \<Rightarrow> Inl (fail (''Agent references an unavailable model: '' @ mid) 400)
   | Some m \<Rightarrow> if enabled \<and> \<not> model_enabled m then Inl (fail (''Agent references an unavailable model: '' @ mid) 400)
       else check_models doc enabled mids)"

definition runtime_name :: "catalog_resource \<Rightarrow> published_version \<Rightarrow> string \<times> json" where
  "runtime_name r v = (cr_kind r, dget (vn_data v) ''name'' (JStr (cr_name r)))"

fun check_bindings :: "catalog_doc \<Rightarrow> string \<Rightarrow> (string \<times> json) list \<Rightarrow> string list \<Rightarrow> binding list \<Rightarrow> unit res" where
  "check_bindings doc aid names ids [] = Inr ()"
| "check_bindings doc aid names ids ((rid, n) # bs) =
    ebind (resource_version doc rid n) (\<lambda>(r, v).
    ebind (raise_if (cr_owner r \<notin> {None, Some aid}) (fail ''Cannot bind another Agent's private resource'' 403)) (\<lambda>_.
    ebind (raise_if (runtime_name r v \<in> set names \<or> cr_id r \<in> set ids) (fail ''Duplicate resource binding or runtime name'' 400)) (\<lambda>_.
    check_bindings doc aid (runtime_name r v # names) (cr_id r # ids) bs)))"

definition validate_agent :: "catalog_doc \<Rightarrow> string \<Rightarrow> agent_config \<Rightarrow> unit res" where
  "validate_agent doc aid cfg =
    ebind (raise_if (ac_cpu cfg \<notin> {None, Some 1, Some 2, Some 4, Some 8}) (fail ''cpu_limit must be one of (1, 2, 4, 8)'' 400)) (\<lambda>_.
    ebind (raise_if (ac_memory cfg \<notin> {None, Some 1024, Some 2048, Some 4096, Some 8192}) (fail ''memory_mb must be one of (1024, 2048, 4096, 8192)'' 400)) (\<lambda>_.
    ebind (raise_if (ac_allowed cfg \<in> {None, Some []} \<or> \<not> distinct (allowed_of cfg)) (fail ''Choose one or more unique models'' 400)) (\<lambda>_.
    ebind (check_models doc (ac_enabled cfg) (allowed_of cfg)) (\<lambda>_.
    ebind (raise_if (ac_default cfg \<notin> Some ` set (allowed_of cfg) \<or> ac_small cfg \<notin> {None, Some []} \<union> Some ` set (allowed_of cfg))
      (fail ''Default and small models must be assigned to this Agent'' 400)) (\<lambda>_.
    ebind (raise_if (ac_bindings cfg = None) (fail ''Bindings must be a list'' 400)) (\<lambda>_.
    ebind (check_bindings doc aid [] [] (bindings_of cfg)) (\<lambda>_.
    raise_if (200000 < length (ac_instructions cfg)) (fail ''Agent instructions are too large'' 400))))))))"

section \<open>Models\<close>

definition put_model :: "string \<Rightarrow> jdict \<Rightarrow> catalog_doc \<Rightarrow> catalog_doc res" where
  "put_model mid value doc = (let old = dget (cd_models doc) mid [] in
    ebind (preserve_secrets (JObj value) (JObj old)) (\<lambda>v.
    ebind (platform_identifier (JStr mid)) (\<lambda>i.
    ebind (validate_model (dput ''id'' (JStr i) (obj_of v))) (\<lambda>m.
    ebind (raise_if (jget m ''provider'' = JStr ''legacy'' \<and> \<not> truthy (jget old ''legacy''))
      (fail ''Legacy models can only be migrated from the existing deployment'' 400)) (\<lambda>_.
    ebind (raise_if (\<not> model_enabled m \<and> model_references doc mid True \<noteq> [])
      (fail (''Model is referenced by: '' @ join_with '', '' (model_references doc mid True)) 409)) (\<lambda>_.
    Inr (doc\<lparr>cd_models := dput mid m (cd_models doc)\<rparr>)))))))"

definition save_model :: "string \<Rightarrow> jdict \<Rightarrow> nat option \<Rightarrow> unit cx" where
  "save_model mid value expected = edit expected (change (put_model mid value))"

fun import_each :: "bool \<Rightarrow> string list \<Rightarrow> jdict list \<Rightarrow> catalog_doc \<Rightarrow> catalog_doc res" where
  "import_each replace ids [] doc = Inr doc"
| "import_each replace ids (item # items) doc =
    ebind (platform_identifier (jget item ''id'')) (\<lambda>mid.
    ebind (raise_if (mid \<in> set ids) (fail ''Duplicate imported model ID'' 400)) (\<lambda>_.
    ebind (raise_if (map_of (cd_models doc) mid \<noteq> None \<and> \<not> replace) (fail (''Model already exists: '' @ mid) 409)) (\<lambda>_.
    ebind (preserve_secrets (JObj item) (JObj (dget (cd_models doc) mid []))) (\<lambda>v.
    ebind (validate_model (obj_of v)) (\<lambda>m.
    ebind (raise_if (truthy (jget m ''legacy'') \<or> jget m ''provider'' = JStr ''legacy'') (fail ''Imported models cannot claim legacy identity'' 400)) (\<lambda>_.
    ebind (raise_if (\<not> model_enabled m \<and> model_references doc mid True \<noteq> [])
      (fail ''Replace Agent references before disabling imported models'' 409)) (\<lambda>_.
    import_each replace (mid # ids) items (doc\<lparr>cd_models := dput mid m (cd_models doc)\<rparr>))))))))"

definition import_models :: "jdict list \<Rightarrow> bool \<Rightarrow> nat option \<Rightarrow> unit cx" where
  "import_models items replace expected =
    (if items = [] \<or> 100 < length items then sx_raise (fail ''Import 1-100 models at a time'' 400)
     else edit expected (change (import_each replace [] items)))"

definition drop_model :: "string \<Rightarrow> catalog_doc \<Rightarrow> catalog_doc res" where
  "drop_model mid doc =
    ebind (raise_if (map_of (cd_models doc) mid = None) (fail ''Model not found'' 404)) (\<lambda>_.
    ebind (raise_if (model_references doc mid False \<noteq> [])
      (fail (''Replace model references in these Agents first: '' @ join_with '', '' (model_references doc mid False)) 409)) (\<lambda>_.
    Inr (doc\<lparr>cd_models := dpop mid (cd_models doc)\<rparr>)))"

definition delete_model :: "string \<Rightarrow> nat option \<Rightarrow> unit cx" where
  "delete_model mid expected = edit expected (change (drop_model mid))"

section \<open>Agents\<close>

definition retired_id :: "catalog_doc \<Rightarrow> string \<Rightarrow> bool" where
  "retired_id doc aid \<longleftrightarrow> map_of (cd_tombstones doc) aid \<noteq> None"

definition deleting :: "catalog_doc \<Rightarrow> string \<Rightarrow> bool" where
  "deleting doc aid \<longleftrightarrow> (\<exists>a. map_of (cd_agents doc) aid = Some a \<and> ag_lifecycle a = ''deleting'')"

definition put_draft :: "string \<Rightarrow> agent_config \<Rightarrow> catalog_doc \<Rightarrow> catalog_doc res" where
  "put_draft aid cfg doc =
    ebind (validate_agent doc aid cfg) (\<lambda>_.
    Inr (doc\<lparr>cd_agents := dput aid (case map_of (cd_agents doc) aid of
        Some a \<Rightarrow> a\<lparr>ag_draft := cfg\<rparr>
      | None \<Rightarrow> \<lparr>ag_draft = cfg, ag_versions = [], ag_active = None, ag_lifecycle = ''active''\<rparr>) (cd_agents doc)\<rparr>))"

definition editable :: "string \<Rightarrow> catalog_doc \<Rightarrow> unit res" where
  "editable aid doc =
    ebind (raise_if (retired_id doc aid) (fail ''This Agent ID was retired; choose a new ID'' 409)) (\<lambda>_.
    raise_if (deleting doc aid) (fail ''Agent deletion is in progress'' 409))"

definition save_agent :: "string \<Rightarrow> agent_config \<Rightarrow> nat option \<Rightarrow> unit cx" where
  "save_agent aid cfg expected =
    sx_then (sx_of_res (platform_identifier (JStr aid)))
    (edit expected (change (\<lambda>doc. ebind (editable aid doc) (\<lambda>_. put_draft aid cfg doc))))"

text \<open>Copying an Agent copies its private resources under fresh identifiers.\<close>

fun copy_bindings :: "(nat \<Rightarrow> string) \<Rightarrow> string \<Rightarrow> string \<Rightarrow> binding list \<Rightarrow> (string, catalog_resource) dict \<Rightarrow>
    (binding list \<times> (string, catalog_resource) dict) res" where
  "copy_bindings fresh source aid [] resources = Inr ([], resources)"
| "copy_bindings fresh source aid ((rid, n) # bs) resources = (case map_of resources rid of
     None \<Rightarrow> Inl (KeyError rid)
   | Some r \<Rightarrow>
      (let new = fresh (length bs); own = (cr_owner r = Some source) in
       ebind (copy_bindings fresh source aid bs
           (if own then dput new (r\<lparr>cr_id := new, cr_owner := Some aid\<rparr>) resources else resources)) (\<lambda>(bs', resources').
       Inr ((if own then new else rid, n) # bs', resources'))))"

definition copy_into :: "(nat \<Rightarrow> string) \<Rightarrow> string \<Rightarrow> string \<Rightarrow> catalog_doc \<Rightarrow> catalog_doc res" where
  "copy_into fresh source aid doc = (case map_of (cd_agents doc) source of
     None \<Rightarrow> Inl (fail ''Invalid copy source or destination'' 409)
   | Some src \<Rightarrow>
      ebind (raise_if (map_of (cd_agents doc) aid \<noteq> None) (fail ''Invalid copy source or destination'' 409)) (\<lambda>_.
      ebind (copy_bindings fresh source aid (bindings_of (ag_draft src)) (cd_resources doc)) (\<lambda>(bs, resources).
      put_draft aid ((ag_draft src)\<lparr>ac_name := aid, ac_bindings := Some bs\<rparr>) (doc\<lparr>cd_resources := resources\<rparr>))))"

definition copy_agent :: "(nat \<Rightarrow> string) \<Rightarrow> string \<Rightarrow> string \<Rightarrow> nat option \<Rightarrow> unit cx" where
  "copy_agent fresh source aid expected =
    sx_then (sx_of_res (platform_identifier (JStr aid)))
    (edit expected (change (\<lambda>doc. ebind (editable aid doc) (\<lambda>_.
      ebind (raise_if (deleting doc source) (fail ''Agent deletion is in progress'' 409)) (\<lambda>_. copy_into fresh source aid doc)))))"

text \<open>The fields that a request to change the assignments gives, \<open>Some None\<close> where it gives null.\<close>

record assignment =
  as_bindings :: "binding list option option"
  as_allowed :: "string list option option"
  as_default :: "string option option"
  as_small :: "string option option"

definition given :: "'a option \<Rightarrow> 'a \<Rightarrow> 'a" where
  "given x old = (case x of None \<Rightarrow> old | Some v \<Rightarrow> v)"

definition save_bindings :: "string \<Rightarrow> assignment \<Rightarrow> nat option \<Rightarrow> (catalog_store \<Rightarrow> catalog_store) \<Rightarrow> unit cx" where
  "save_bindings aid p expected others =
    sx_bind (sx_lift (\<lambda>s. case map_of (cd_agents (cat_doc s)) aid of None \<Rightarrow> Inl (fail ''Agent not found'' 404) | Some a \<Rightarrow> Inr (ag_draft a))) (\<lambda>d.
    sx_then (sx_modify others)
    (save_agent aid (d\<lparr>ac_bindings := given (as_bindings p) (ac_bindings d), ac_allowed := given (as_allowed p) (ac_allowed d),
       ac_default := given (as_default p) (ac_default d), ac_small := given (as_small p) (ac_small d)\<rparr>) expected))"

text \<open>A template becomes an Agent; \<open>models\<close> and \<open>resources\<close> are the administrator's mappings.\<close>

definition remap_config :: "(string, string) dict \<Rightarrow> (string, binding) dict \<Rightarrow> bool \<Rightarrow> agent_config \<Rightarrow> agent_config" where
  "remap_config models resources imported cfg = cfg\<lparr>
     ac_allowed := map_option (map (\<lambda>m. dget models m m)) (ac_allowed cfg),
     ac_default := map_option (\<lambda>m. dget models m m) (ac_default cfg),
     ac_small := map_option (\<lambda>m. if m = [] then m else dget models m m) (ac_small cfg),
     ac_bindings := map_option (map (\<lambda>(rid, n). case map_of resources rid of Some b \<Rightarrow> b | None \<Rightarrow> (rid, if imported then 1 else n))) (ac_bindings cfg)\<rparr>"

definition restore_template :: "string \<Rightarrow> string \<Rightarrow> (string, string) dict \<Rightarrow> (string, binding) dict \<Rightarrow> rat \<Rightarrow> catalog_doc \<Rightarrow> catalog_doc res" where
  "restore_template tid aid models resources now doc = (case map_of (cd_templates doc) tid of
     None \<Rightarrow> Inl (fail ''Agent template not found'' 404)
   | Some t \<Rightarrow>
      ebind (raise_if (map_of (cd_agents doc) aid \<noteq> None \<or> retired_id doc aid) (fail ''Choose an unused Agent ID'' 409)) (\<lambda>_.
      ebind (put_draft aid (remap_config models resources (tp_imported t) (tp_config t)) doc) (\<lambda>doc'.
      Inr (doc'\<lparr>cd_templates := dput tid (t\<lparr>tp_restored := Some (aid, now)\<rparr>) (cd_templates doc')\<rparr>))))"

definition restore_agent :: "string \<Rightarrow> string \<Rightarrow> (string, string) dict \<Rightarrow> (string, binding) dict \<Rightarrow> rat \<Rightarrow> unit cx" where
  "restore_agent tid aid models resources now =
    sx_then (sx_of_res (platform_identifier (JStr aid))) (edit None (change (restore_template tid aid models resources now)))"

section \<open>Resources\<close>

record resource_request =
  sr_kind :: string
  sr_name :: string
  sr_owner :: "string option"
  sr_archived :: bool
  sr_data :: jdict

definition owner_ready :: "catalog_doc \<Rightarrow> string option \<Rightarrow> string \<Rightarrow> unit res" where
  "owner_ready doc owner unknown = (case owner of None \<Rightarrow> Inr () | Some aid \<Rightarrow>
    ebind (raise_if (map_of (cd_agents doc) aid = None) (fail unknown 400)) (\<lambda>_.
    raise_if (deleting doc aid) (fail ''Agent deletion is in progress'' 409)))"

definition nonempty :: "string option \<Rightarrow> string option" where
  "nonempty x = (if x = Some [] then None else x)"

text \<open>The sources of a hook. A value that has no length, or is no text to encode, raises.\<close>

fun json_length :: "json \<Rightarrow> nat res" where
  "json_length (JStr t) = Inr (length t)"
| "json_length (JArr xs) = Inr (length xs)"
| "json_length (JObj d) = Inr (length d)"
| "json_length _ = Inl (TypeError ''object has no len()'')"

definition hook_sources :: "jdict \<Rightarrow> string \<Rightarrow> jdict res" where
  "hook_sources content entry = (case map_of content ''sources'' of
     None \<Rightarrow> Inr [(entry, dget content ''source'' (JStr []))]
   | Some (JObj d) \<Rightarrow> Inr d
   | Some _ \<Rightarrow> Inl (AttributeError ''values''))"

definition path_suffix :: "string \<Rightarrow> string" where
  "path_suffix p = (let name = path_name p; (stem, found, ext) = rpartition_at (CHR ''.'') name in
     if found \<and> stem \<noteq> [] \<and> ext \<noteq> [] then CHR ''.'' # ext else [])"

definition hook_entry :: "jdict \<Rightarrow> (string \<times> jdict) res" where
  "hook_entry content =
    ebind (relative_file (dget content ''entry'' (JStr ''hook.mjs''))) (\<lambda>entry.
    ebind (hook_sources content entry) (\<lambda>sources.
    ebind (raise_if (path_suffix entry \<notin> {''.js'', ''.mjs'', ''.ts''} \<or> entry \<notin> fst ` set sources)
      (fail ''Hook entry must be a JS/MJS/TS source file'' 400)) (\<lambda>_.
    ebind (if 50 < length sources then Inl (fail ''Hook source limit exceeded'' 400) else emap (json_length \<circ> snd) sources) (\<lambda>sizes.
    ebind (raise_if (1048576 < sum_list sizes) (fail ''Hook source limit exceeded'' 400)) (\<lambda>_.
    Inr (entry, sources))))))"

fun store_sources :: "(string \<Rightarrow> string) \<Rightarrow> jdict \<Rightarrow> (string, string) dict \<Rightarrow> (string, string) dict cx" where
  "store_sources digest [] files = sx_return files"
| "store_sources digest ((p, v) # rest) files =
    sx_bind (sx_of_res (relative_file (JStr p))) (\<lambda>q.
    sx_bind (sx_of_res (case v of JStr t \<Rightarrow> Inr t | _ \<Rightarrow> Inl (AttributeError ''encode''))) (\<lambda>t.
    sx_bind (blob digest t) (\<lambda>d. store_sources digest rest (dput q d files))))"

definition hook_draft :: "(string \<Rightarrow> string) \<Rightarrow> jdict \<Rightarrow> (jdict \<times> (string, string) dict) cx" where
  "hook_draft digest content =
    sx_bind (sx_of_res (hook_entry content)) (\<lambda>(entry, sources).
    sx_bind (store_sources digest sources []) (\<lambda>files.
    sx_return ([(''entry'', JStr entry), (''sources'', JObj sources)], files)))"

definition resource_draft :: "(string \<Rightarrow> string) \<Rightarrow> catalog_resource option \<Rightarrow> resource_request \<Rightarrow> (jdict \<times> (string, string) dict) cx" where
  "resource_draft digest old value =
    sx_bind (sx_of_res (preserve_secrets (JObj (sr_data value)) (case old of None \<Rightarrow> JObj [] | Some r \<Rightarrow> JObj (cr_data r)))) (\<lambda>v.
    let content = obj_of v; files = (case old of None \<Rightarrow> [] | Some r \<Rightarrow> cr_files r) in
    if sr_kind value = ''mcp'' then sx_bind (sx_of_res (validate_mcp content)) (\<lambda>c. sx_return (c, files))
    else if sr_kind value = ''hook'' then hook_draft digest content
    else if old = None then sx_raise (fail ''Create Skill resources using the upload endpoint'' 400)
    else sx_return (content, files))"

definition put_resource :: "string \<Rightarrow> catalog_resource \<Rightarrow> catalog_doc \<Rightarrow> catalog_doc" where
  "put_resource rid r doc = doc\<lparr>cd_resources := dput rid r (cd_resources doc)\<rparr>"

definition resource_head :: "string \<Rightarrow> resource_request \<Rightarrow> catalog_doc \<Rightarrow> catalog_resource option res" where
  "resource_head rid value doc = (let old = map_of (cd_resources doc) rid; owner = nonempty (sr_owner value) in
    ebind (raise_if (sr_kind value \<notin> {''skill'', ''mcp'', ''hook''}) (fail ''Invalid resource kind'' 400)) (\<lambda>_.
    ebind (owner_ready doc owner ''Owner Agent does not exist'') (\<lambda>_.
    ebind (raise_if (\<exists>r. old = Some r \<and> (cr_kind r \<noteq> sr_kind value \<or> cr_owner r \<noteq> owner))
      (fail ''Resource kind and ownership are immutable'' 400)) (\<lambda>_.
    ebind (platform_identifier (JStr (sr_name value))) (\<lambda>_. Inr old)))))"

definition resource_with :: "string \<Rightarrow> resource_request \<Rightarrow> catalog_resource option \<Rightarrow> jdict \<times> (string, string) dict \<Rightarrow> catalog_resource" where
  "resource_with rid value old draft = (case old of
     Some r \<Rightarrow> r\<lparr>cr_name := sr_name value, cr_archived := sr_archived value, cr_data := fst draft, cr_files := snd draft\<rparr>
   | None \<Rightarrow> \<lparr>cr_id = rid, cr_name = sr_name value, cr_kind = sr_kind value, cr_owner = nonempty (sr_owner value), cr_archived = False,
       cr_data = fst draft, cr_files = snd draft, cr_versions = []\<rparr>)"

definition save_resource :: "(string \<Rightarrow> string) \<Rightarrow> string \<Rightarrow> resource_request \<Rightarrow> nat option \<Rightarrow> unit cx" where
  "save_resource digest rid value expected =
    sx_then (sx_of_res (platform_identifier (JStr rid)))
    (edit expected
      (sx_bind (sx_lift (\<lambda>s. resource_head rid value (cat_doc s))) (\<lambda>old.
       sx_bind (resource_draft digest old value) (\<lambda>draft.
       change (\<lambda>doc. Inr (put_resource rid (resource_with rid value old draft) doc))))))"

definition binds :: "string \<Rightarrow> agent_config \<Rightarrow> bool" where
  "binds rid cfg \<longleftrightarrow> rid \<in> fst ` set (bindings_of cfg)"

definition all_configs :: "catalog_agent \<Rightarrow> agent_config list" where
  "all_configs a = ag_draft a # map an_config (ag_versions a)"

definition resource_references :: "string \<Rightarrow> catalog_doc \<Rightarrow> string list" where
  "resource_references rid doc =
    map (\<lambda>p. ''Agent '' @ fst p) (filter (\<lambda>(aid, a). list_ex (binds rid) (all_configs a)) (cd_agents doc))
    @ map (\<lambda>p. ''template '' @ fst p) (filter (\<lambda>(tid, t). binds rid (tp_config t)) (cd_templates doc))"

definition lifecycle_step :: "string \<Rightarrow> string \<Rightarrow> catalog_doc \<Rightarrow> catalog_doc res" where
  "lifecycle_step rid act doc = (case map_of (cd_resources doc) rid of
     None \<Rightarrow> Inl (fail ''Resource not found'' 404)
   | Some r \<Rightarrow>
      if act \<in> {''archive'', ''restore''} then Inr (put_resource rid (r\<lparr>cr_archived := (act = ''archive'')\<rparr>) doc)
      else ebind (raise_if (act \<noteq> ''delete'') (fail ''Unknown resource action'' 400)) (\<lambda>_.
        ebind (raise_if (\<not> cr_archived r) (fail ''Archive the resource before deleting it'' 409)) (\<lambda>_.
        ebind (raise_if (resource_references rid doc \<noteq> [])
          (fail (''The resource is still referenced: '' @ join_with '', '' (resource_references rid doc)) 409)) (\<lambda>_.
        Inr (doc\<lparr>cd_resources := dpop rid (cd_resources doc)\<rparr>)))))"

definition resource_lifecycle :: "string \<Rightarrow> string \<Rightarrow> nat option \<Rightarrow> unit cx" where
  "resource_lifecycle rid act expected = edit expected (change (lifecycle_step rid act))"

fun store_files :: "(string \<Rightarrow> string) \<Rightarrow> (string, string) dict \<Rightarrow> (string, string) dict cx" where
  "store_files digest [] = sx_return []"
| "store_files digest ((p, c) # rest) = sx_bind (blob digest c) (\<lambda>d. sx_bind (store_files digest rest) (\<lambda>files. sx_return ((p, d) # files)))"

definition put_skill :: "string \<Rightarrow> string option \<Rightarrow> string \<times> string \<Rightarrow> (string, string) dict \<Rightarrow> catalog_doc \<Rightarrow> catalog_doc res" where
  "put_skill rid owner meta blobs doc = (let old = map_of (cd_resources doc) rid in
    ebind (owner_ready doc owner ''Unknown owner'') (\<lambda>_.
    ebind (raise_if (\<exists>r. old = Some r \<and> (cr_kind r \<noteq> ''skill'' \<or> cr_owner r \<noteq> owner)) (fail ''Resource kind and owner cannot change'' 400)) (\<lambda>_.
    let r = (case old of Some r \<Rightarrow> r | None \<Rightarrow> \<lparr>cr_id = rid, cr_name = fst meta, cr_kind = ''skill'', cr_owner = owner, cr_archived = False,
         cr_data = [], cr_files = [], cr_versions = []\<rparr>) in
    Inr (put_resource rid (r\<lparr>cr_name := fst meta, cr_data := [(''name'', JStr (fst meta)), (''description'', JStr (snd meta))], cr_files := blobs\<rparr>) doc))))"

definition upload_skill ::
  "(string \<Rightarrow> zip_entry list res) \<Rightarrow> (string \<Rightarrow> string) \<Rightarrow> string \<Rightarrow> string \<Rightarrow> string \<Rightarrow> string option \<Rightarrow> nat option \<Rightarrow> unit cx" where
  "upload_skill open_zip digest rid filename content owner expected =
    sx_then (sx_of_res (platform_identifier (JStr rid)))
    (sx_bind (sx_of_res (unpack_skill open_zip filename content)) (\<lambda>(meta, files).
     sx_bind (store_files digest files) (\<lambda>blobs. edit expected (change (put_skill rid (nonempty owner) meta blobs)))))"

definition put_copy :: "string \<Rightarrow> string \<Rightarrow> string option \<Rightarrow> catalog_doc \<Rightarrow> catalog_doc res" where
  "put_copy source rid owner doc = (case map_of (cd_resources doc) source of
     None \<Rightarrow> Inl (fail ''Invalid source or duplicate destination'' 409)
   | Some r \<Rightarrow>
      ebind (raise_if (map_of (cd_resources doc) rid \<noteq> None) (fail ''Invalid source or duplicate destination'' 409)) (\<lambda>_.
      ebind (raise_if (\<exists>aid. owner = Some aid \<and> map_of (cd_agents doc) aid = None) (fail ''Unknown owner Agent'' 404)) (\<lambda>_.
      Inr (put_resource rid (r\<lparr>cr_id := rid, cr_owner := owner, cr_archived := False\<rparr>) doc))))"

definition copy_resource :: "string \<Rightarrow> string \<Rightarrow> string option \<Rightarrow> nat option \<Rightarrow> unit cx" where
  "copy_resource source rid owner expected =
    sx_then (sx_of_res (platform_identifier (JStr rid))) (edit expected (change (put_copy source rid (nonempty owner))))"

text \<open>Publishing checks the draft outside the transaction: \<open>check\<close> is the compilation and probe of a hook, and
  the identity for other kinds, and \<open>others\<close> is what is edited meanwhile.\<close>

definition same_draft :: "catalog_resource \<Rightarrow> catalog_resource \<Rightarrow> bool" where
  "same_draft r r' \<longleftrightarrow> cr_data r = cr_data r' \<and> cr_files r = cr_files r'"

definition append_version :: "string \<Rightarrow> catalog_resource \<Rightarrow> jdict \<times> (string, string) dict \<Rightarrow> rat \<Rightarrow> catalog_doc \<Rightarrow> (nat \<times> catalog_doc) res" where
  "append_version rid original checked now doc = (case map_of (cd_resources doc) rid of
     None \<Rightarrow> Inl (fail ''Draft changed during validation'' 409)
   | Some r \<Rightarrow>
      ebind (raise_if (cr_archived r \<or> \<not> same_draft r original) (fail ''Draft changed during validation'' 409)) (\<lambda>_.
      let n = Suc (length (cr_versions r)) in
      Inr (n, put_resource rid (r\<lparr>cr_versions := cr_versions r @ [\<lparr>vn_number = n, vn_created = now, vn_data = fst checked, vn_files = snd checked\<rparr>]\<rparr>) doc)))"

definition publish_resource ::
  "(catalog_resource \<Rightarrow> (jdict \<times> (string, string) dict) res) \<Rightarrow> (catalog_store \<Rightarrow> catalog_store) \<Rightarrow> string \<Rightarrow> rat \<Rightarrow> nat cx" where
  "publish_resource check others rid now =
    sx_bind (sx_lift (\<lambda>s. case map_of (cd_resources (cat_doc s)) rid of
        None \<Rightarrow> Inl (fail ''Resource is missing or archived'' 404)
      | Some r \<Rightarrow> if cr_archived r then Inl (fail ''Resource is missing or archived'' 404) else Inr r)) (\<lambda>r.
    sx_bind (sx_of_res (if cr_kind r = ''hook'' then check r else Inr (cr_data r, cr_files r))) (\<lambda>checked.
    sx_then (sx_modify others)
    (edit None (on_doc (append_version rid r checked now)))))"

section \<open>Releases\<close>

text \<open>\<open>gateway_configuration\<close> of \<open>catalog_service/src/compiler.py\<close>: the enabled models become router entries; those of
  the original deployment come from the environment.\<close>

definition environ :: "(string, string) dict \<Rightarrow> string \<Rightarrow> string res" where
  "environ env key = (case map_of env key of None \<Rightarrow> Inl (KeyError key) | Some v \<Rightarrow> Inr v)"

definition legacy_prefix :: "string \<Rightarrow> string" where
  "legacy_prefix mid = map (\<lambda>c. if c = CHR ''-'' then CHR ''_'' else if is_lower c then char_of (of_char c - 32 :: nat) else c) mid"

definition legacy_entry :: "(string, string) dict \<Rightarrow> string \<Rightarrow> nat \<Rightarrow> gateway_entry res" where
  "legacy_entry env mid i = (let pre = legacy_prefix mid in
    ebind (environ env (pre @ ''_MODEL'')) (\<lambda>m.
    ebind (environ env (pre @ ''_'' @ dec_nat i @ ''_API_BASE'')) (\<lambda>base.
    ebind (environ env (pre @ ''_API_KEY'')) (\<lambda>key. Inr (Legacy mid m base key i)))))"

definition gateway_entries :: "(string, string) dict \<Rightarrow> bool \<Rightarrow> jdict \<Rightarrow> gateway_entry list res" where
  "gateway_entries env require_credentials m =
    (if \<not> model_enabled m then Inr []
     else ebind (jindex m ''id'') (\<lambda>i. let mid = str_of i in
       if truthy (jget m ''legacy'') then
         ebind (raise_if (map_of env (legacy_prefix mid @ ''_MODEL'') = None) (fail (''Original gateway environment is missing model '' @ mid) 400)) (\<lambda>_.
         emap (legacy_entry env mid) [1, 2])
       else (case deployment_entries m require_credentials of
         Inr es \<Rightarrow> Inr (map Managed es)
       | Inl e \<Rightarrow> Inl (if is_value_error e then fail (exc_text e) 400 else e))))"

definition gateway_configuration :: "(string, string) dict \<Rightarrow> bool \<Rightarrow> (string, jdict) dict \<Rightarrow> gateway_entry list res" where
  "gateway_configuration env require_credentials models =
    ebind (emap (gateway_entries env require_credentials \<circ> snd) models) (\<lambda>groups. Inr (concat groups))"

record release_request =
  pq_kind :: string
  pq_target :: string
  pq_version :: "nat option"
  pq_revision :: "nat option"

definition enabled_models :: "(string, jdict) dict \<Rightarrow> string list" where
  "enabled_models models = map fst (filter (\<lambda>(mid, m). model_enabled m) models)"

text \<open>\<open>active_config or {}\<close> of an Agent without an active version names no model.\<close>

definition uses_missing :: "(string, jdict) dict \<Rightarrow> catalog_agent \<Rightarrow> bool" where
  "uses_missing models a = (case active_config a of None \<Rightarrow> False
     | Some c \<Rightarrow> ac_enabled c \<and> \<not> set (allowed_of c) \<subseteq> set (enabled_models models))"

text \<open>A version 0 is falsy: the current draft is meant.\<close>

definition nonzero :: "nat option \<Rightarrow> nat option" where
  "nonzero version = (if version = Some 0 then None else version)"

definition gateway_models :: "catalog_doc \<Rightarrow> nat option \<Rightarrow> (string, jdict) dict res" where
  "gateway_models doc version = (case nonzero version of None \<Rightarrow> Inr (cd_models doc)
     | Some n \<Rightarrow> (case find (\<lambda>v. gn_number v = n) (cd_gateway_versions doc) of
         None \<Rightarrow> Inl (fail ''Unknown gateway version'' 404) | Some v \<Rightarrow> Inr (gn_models v)))"

definition active_of :: "catalog_doc \<Rightarrow> string \<Rightarrow> nat option res" where
  "active_of doc target = (if target = ''*'' then Inr (cd_gateway_active doc)
     else case map_of (cd_agents doc) target of None \<Rightarrow> Inl (KeyError target) | Some a \<Rightarrow> Inr (ag_active a))"

definition prepare_gateway :: "(string, string) dict \<Rightarrow> nat \<Rightarrow> string \<Rightarrow> nat option \<Rightarrow> catalog_doc \<Rightarrow> catalog_release res" where
  "prepare_gateway env revision target version doc =
    ebind (gateway_models doc version) (\<lambda>models.
    ebind (case find (\<lambda>(aid, a). uses_missing models a) (cd_agents doc) of
        Some (aid, a) \<Rightarrow> Inl (fail (''Model is used by '' @ aid) 409) | None \<Rightarrow> Inr ()) (\<lambda>_.
    ebind (gateway_configuration env True models) (\<lambda>entries.
    ebind (active_of doc target) (\<lambda>old.
    Inr \<lparr>rl_target = ''*'', rl_number = Suc (length (cd_gateway_versions doc)), rl_content = GatewayRelease models entries,
      rl_revision = revision, rl_old_active = old, rl_committed = False\<rparr>))))"

definition available_models :: "catalog_doc \<Rightarrow> (string, jdict) dict" where
  "available_models doc = (case find (\<lambda>v. Some (gn_number v) = cd_gateway_active doc) (cd_gateway_versions doc) of
     Some v \<Rightarrow> if gn_models v \<noteq> [] then gn_models v else filter (\<lambda>(mid, m). truthy (jget m ''legacy'')) (cd_models doc)
   | None \<Rightarrow> filter (\<lambda>(mid, m). truthy (jget m ''legacy'')) (cd_models doc))"

text \<open>\<open>written\<close> is the part of \<open>compile_agent\<close> that writes and loads the files of a checked configuration.\<close>

definition compile_agent :: "(agent_config \<Rightarrow> string res) \<Rightarrow> catalog_doc \<Rightarrow> string \<Rightarrow> agent_config \<Rightarrow> string res" where
  "compile_agent written doc aid cfg = ebind (validate_agent doc aid cfg) (\<lambda>_. written cfg)"

definition prepare_agent :: "(agent_config \<Rightarrow> string res) \<Rightarrow> nat \<Rightarrow> string \<Rightarrow> nat option \<Rightarrow> catalog_doc \<Rightarrow> catalog_release res" where
  "prepare_agent written revision target version doc =
    ebind (platform_identifier (JStr target)) (\<lambda>_. case map_of (cd_agents doc) target of
      None \<Rightarrow> Inl (fail ''Agent not found'' 404)
    | Some a \<Rightarrow>
       ebind (raise_if (ag_lifecycle a = ''deleting'') (fail ''Finish permanent deletion before applying configuration'' 409)) (\<lambda>_.
       ebind (case nonzero version of None \<Rightarrow> Inr (ag_draft a)
           | Some n \<Rightarrow> (case find (\<lambda>v. an_number v = n) (ag_versions a) of
               None \<Rightarrow> Inl (fail ''Agent version not found'' 404) | Some v \<Rightarrow> Inr (an_config v))) (\<lambda>cfg.
       ebind (raise_if (\<not> set (allowed_of cfg) \<subseteq> set (enabled_models (available_models doc))) (fail ''Publish selected models to the gateway first'' 409)) (\<lambda>_.
       ebind (compile_agent written doc target cfg) (\<lambda>path.
       Inr \<lparr>rl_target = target, rl_number = Suc (length (ag_versions a)), rl_content = AgentRelease cfg path,
         rl_revision = revision, rl_old_active = ag_active a, rl_committed = False\<rparr>)))))"

definition put_release :: "string \<Rightarrow> catalog_release \<Rightarrow> catalog_doc \<Rightarrow> catalog_doc" where
  "put_release rid v doc = doc\<lparr>cd_releases := dput rid v (cd_releases doc)\<rparr>"

definition prepare_release ::
  "(string, string) dict \<Rightarrow> (agent_config \<Rightarrow> string res) \<Rightarrow> (catalog_store \<Rightarrow> catalog_store) \<Rightarrow> string \<Rightarrow> release_request \<Rightarrow> catalog_release cx" where
  "prepare_release env written others rid q =
    sx_bind (sx_lift (\<lambda>s. ebind (raise_if (pq_revision q \<notin> {None, Some (cat_revision s)}) (fail ''Configuration changed; reload'' 409)) (\<lambda>_.
      ebind (if pq_kind q = ''models.apply'' then prepare_gateway env (cat_revision s) (pq_target q) (pq_version q) (cat_doc s)
        else prepare_agent written (cat_revision s) (pq_target q) (pq_version q) (cat_doc s)) (\<lambda>v. Inr (cat_revision s, v))))) (\<lambda>(revision, v).
    sx_then (sx_modify others)
    (sx_then (edit (Some revision) (change (\<lambda>doc. Inr (put_release rid v doc)))) (sx_return v)))"

definition commit_content :: "catalog_release \<Rightarrow> rat \<Rightarrow> catalog_doc \<Rightarrow> catalog_doc res" where
  "commit_content v now doc = (case rl_content v of
     GatewayRelease models entries \<Rightarrow>
       ebind (raise_if (cd_gateway_active doc \<noteq> rl_old_active v) (fail ''Applied version changed'' 409)) (\<lambda>_.
       Inr (doc\<lparr>cd_gateway_versions := cd_gateway_versions doc @ [\<lparr>gn_number = rl_number v, gn_created = now, gn_models = models\<rparr>],
         cd_gateway_active := Some (rl_number v)\<rparr>))
   | AgentRelease cfg path \<Rightarrow> (case map_of (cd_agents doc) (rl_target v) of
       None \<Rightarrow> Inl (KeyError (rl_target v))
     | Some a \<Rightarrow>
        ebind (raise_if (ag_active a \<noteq> rl_old_active v) (fail ''Applied version changed'' 409)) (\<lambda>_.
        Inr (doc\<lparr>cd_agents := dput (rl_target v) (a\<lparr>ag_versions := ag_versions a @
            [\<lparr>an_number = rl_number v, an_created = now, an_config = cfg, an_path = path\<rparr>], ag_active := Some (rl_number v)\<rparr>) (cd_agents doc)\<rparr>))))"

definition commit_version :: "string \<Rightarrow> rat \<Rightarrow> catalog_doc \<Rightarrow> (nat \<times> catalog_doc) res" where
  "commit_version rid now doc = (case map_of (cd_releases doc) rid of
     None \<Rightarrow> Inl (fail ''Release not found'' 404)
   | Some v \<Rightarrow>
      if rl_committed v then Inr (rl_number v, doc)
      else ebind (commit_content v now doc) (\<lambda>doc'. Inr (rl_number v, put_release rid (v\<lparr>rl_committed := True\<rparr>) doc')))"

definition commit_prepared :: "string \<Rightarrow> rat \<Rightarrow> nat cx" where
  "commit_prepared rid now = edit None (on_doc (commit_version rid now))"

section \<open>The lifecycle of an Agent\<close>

definition private_resources :: "catalog_doc \<Rightarrow> string \<Rightarrow> (string, catalog_resource) dict" where
  "private_resources doc aid = filter (\<lambda>(rid, r). cr_owner r = Some aid) (cd_resources doc)"

definition operation_check :: "string \<Rightarrow> string \<Rightarrow> nat option \<Rightarrow> catalog_store \<Rightarrow> (nat \<times> string) res" where
  "operation_check aid kind revision s = (case map_of (cd_agents (cat_doc s)) aid of
     None \<Rightarrow> Inl (fail ''Agent not found'' 404)
   | Some a \<Rightarrow>
      ebind (raise_if (revision \<notin> {None, Some (cat_revision s)}) (fail ''Configuration changed; reload before operating'' 409)) (\<lambda>_.
      ebind (raise_if (ag_lifecycle a = ''deleting'' \<and> kind \<noteq> ''agent.delete'') (fail ''Finish permanent deletion before using this Agent ID'' 409)) (\<lambda>_.
      ebind (raise_if (kind \<in> {''sandbox.start'', ''sandbox.restart'', ''sandbox.recover''} \<and> ag_lifecycle a \<in> {''archived'', ''deleting''})
        (fail ''Restore archived Agent first'' 409)) (\<lambda>_.
      ebind (raise_if (kind = ''agent.restore'' \<and> ag_lifecycle a \<notin> {''archived'', ''deleting''}) (fail ''Agent is not archived'' 409)) (\<lambda>_.
      ebind (raise_if (kind = ''agent.archive'' \<and> ag_lifecycle a \<in> {''archived'', ''deleting''}) (fail ''Agent is already archived'' 409)) (\<lambda>_.
      ebind (raise_if (kind = ''agent.delete-empty'' \<and> (ag_versions a \<noteq> [] \<or> private_resources (cat_doc s) aid \<noteq> []))
        (fail ''Only an unpublished Agent without private resources can be deleted here'' 409)) (\<lambda>_.
      Inr (cat_revision s, ag_lifecycle a))))))))"

text \<open>\<open>fingerprint\<close> is the digest of the Agent without its lifecycle and of its private resources; \<open>path_ok\<close>
  says that a compiled version is still where it was put, which is removed with the Agent.\<close>

record lifecycle_request =
  lq_action :: string
  lq_request :: json
  lq_fingerprint :: "string option"

definition remove_agent :: "string \<Rightarrow> json \<Rightarrow> rat \<Rightarrow> catalog_doc \<Rightarrow> catalog_doc" where
  "remove_agent aid request now doc = doc\<lparr>cd_resources := filter (\<lambda>(rid, r). cr_owner r \<noteq> Some aid) (cd_resources doc),
     cd_agents := dpop aid (cd_agents doc), cd_tombstones := dput aid (now, request) (cd_tombstones doc)\<rparr>"

definition set_lifecycle :: "string \<Rightarrow> catalog_agent \<Rightarrow> string \<Rightarrow> catalog_doc \<Rightarrow> catalog_doc" where
  "set_lifecycle aid a state doc = doc\<lparr>cd_agents := dput aid (a\<lparr>ag_lifecycle := state\<rparr>) (cd_agents doc)\<rparr>"

definition change_lifecycle ::
  "(catalog_agent \<Rightarrow> (string, catalog_resource) dict \<Rightarrow> string) \<Rightarrow> (agent_version \<Rightarrow> bool) \<Rightarrow> string \<Rightarrow> lifecycle_request \<Rightarrow> rat \<Rightarrow>
    catalog_doc \<Rightarrow> catalog_doc res" where
  "change_lifecycle fingerprint path_ok aid q now doc = (case map_of (cd_agents doc) aid of
     None \<Rightarrow> if lq_action q = ''delete'' \<and> (case map_of (cd_tombstones doc) aid of None \<Rightarrow> JNull | Some t \<Rightarrow> snd t) = lq_request q
       then Inr doc else Inl (fail ''Agent not found'' 404)
   | Some a \<Rightarrow>
      ebind (raise_if (lq_fingerprint q \<notin> {None, Some [], Some (fingerprint a (private_resources doc aid))})
        (fail ''Catalog deletion impact changed'' 409)) (\<lambda>_.
      if lq_action q = ''delete'' then
        ebind (raise_if (ag_lifecycle a \<notin> {''archived'', ''deleting''}) (fail ''Archive the Agent before permanent deletion'' 409)) (\<lambda>_.
        ebind (raise_if (\<not> list_all path_ok (ag_versions a)) (fail ''Compiled configuration path changed'' 409)) (\<lambda>_.
        Inr (remove_agent aid (lq_request q) now doc)))
      else if lq_action q = ''archive'' then Inr (set_lifecycle aid a ''archived'' doc)
      else if lq_action q = ''restore'' then Inr (set_lifecycle aid a ''active'' doc)
      else if lq_action q = ''deleting'' then Inr (set_lifecycle aid a ''deleting'' doc)
      else Inl (fail ''Unknown lifecycle action'' 400)))"

definition agent_lifecycle ::
  "(catalog_agent \<Rightarrow> (string, catalog_resource) dict \<Rightarrow> string) \<Rightarrow> (agent_version \<Rightarrow> bool) \<Rightarrow> string \<Rightarrow> lifecycle_request \<Rightarrow> nat option \<Rightarrow> rat \<Rightarrow> unit cx" where
  "agent_lifecycle fingerprint path_ok aid q revision now = edit revision (change (change_lifecycle fingerprint path_ok aid q now))"

section \<open>Authorizing native requests\<close>

text \<open>\<open>Compiler.authorize\<close> of \<open>catalog_service/src/compiler.py\<close>. The last segments of a path; \<open>$\<close> also matches
  before a final newline.\<close>

definition segment_is :: "string \<Rightarrow> string list \<Rightarrow> bool" where
  "segment_is s names \<longleftrightarrow> s \<in> set names \<or> s \<in> (\<lambda>n. n @ [CHR 0x0A]) ` set names"

definition answers_request :: "string \<Rightarrow> bool" where
  "answers_request path = (case rev (split_on (CHR ''/'') path) of
     x # y # z # rest \<Rightarrow> y = ''permissions'' \<and> x \<noteq> []
       \<or> rest \<noteq> [] \<and> y \<noteq> [] \<and> (z = ''permission'' \<and> segment_is x [''reply''] \<or> z = ''question'' \<and> segment_is x [''reply'', ''reject''])
   | _ \<Rightarrow> False)"

definition starts_turn :: "string \<Rightarrow> bool" where
  "starts_turn path = (case rev (split_on (CHR ''/'') path) of
     x # y # z # rest \<Rightarrow> z = ''session'' \<and> y \<noteq> [] \<and> segment_is x [''message'', ''prompt_async'', ''command'', ''shell'']
   | _ \<Rightarrow> False)"

definition reads_only :: "string \<Rightarrow> bool" where
  "reads_only meth \<longleftrightarrow> meth \<in> {''GET'', ''HEAD'', ''OPTIONS''}"

definition mutates :: "string \<Rightarrow> bool" where
  "mutates meth \<longleftrightarrow> \<not> reads_only meth \<and> meth \<noteq> ''DELETE''"

definition with_default_model :: "agent_config \<Rightarrow> string \<Rightarrow> string \<Rightarrow> json \<Rightarrow> json" where
  "with_default_model cfg meth path payload = (case payload of
     JObj d \<Rightarrow> if mutates meth \<and> starts_turn path \<and> \<not> truthy (jget d ''model'')
       then (let mid = (case ac_default cfg of None \<Rightarrow> [] | Some m \<Rightarrow> m) in
         JObj (dput ''model'' (if ends_with path ''/command'' then JStr (''cloud-model-gateway/'' @ mid)
           else JObj [(''providerID'', JStr ''cloud-model-gateway''), (''modelID'', JStr mid)]) d))
       else payload
   | _ \<Rightarrow> payload)"

definition selected_model :: "json \<Rightarrow> json" where
  "selected_model payload = (case payload of
     JObj d \<Rightarrow> if truthy (jget d ''model'') then jget d ''model''
       else if jhas d ''providerID'' \<or> jhas d ''modelID'' then JObj [(''providerID'', jget d ''providerID''), (''modelID'', jget d ''modelID'')]
       else JNull
   | _ \<Rightarrow> JNull)"

definition model_pair :: "json \<Rightarrow> (json \<times> json) res" where
  "model_pair model = (case model of
     JStr t \<Rightarrow> (case partition_at (CHR ''/'') t of (provider, found, mid) \<Rightarrow> Inr (JStr provider, JStr mid))
   | JObj d \<Rightarrow> Inr (jget d ''providerID'', jget d ''modelID'')
   | _ \<Rightarrow> Inl (fail ''Invalid model selection'' 400))"

definition check_model :: "agent_config \<Rightarrow> json \<Rightarrow> unit res" where
  "check_model cfg model = (if \<not> truthy model then Inr ()
     else ebind (model_pair model) (\<lambda>(provider, mid).
       raise_if (provider \<noteq> JStr ''cloud-model-gateway'' \<or> mid \<notin> JStr ` set (allowed_of cfg)) (fail ''Model is not assigned to this Agent'' 403)))"

definition managed_path :: "string \<Rightarrow> bool" where
  "managed_path path \<longleftrightarrow> path \<in> {''config'', ''global/config''} \<or> starts_with path ''auth/'' \<or> starts_with path ''mcp/'' \<or> starts_with path ''provider/''"

definition authorize_agent :: "catalog_doc \<Rightarrow> string \<Rightarrow> string \<Rightarrow> string \<Rightarrow> json \<Rightarrow> (bool \<times> json) res" where
  "authorize_agent doc aid meth path payload = (case map_of (cd_agents doc) aid of
     None \<Rightarrow> Inl (fail ''Unknown Agent'' 404)
   | Some a \<Rightarrow>
      ebind (raise_if (ag_lifecycle a = ''deleting'') (fail ''Agent deletion is pending; inspect the operation result'' 409)) (\<lambda>_.
      case active_config a of None \<Rightarrow> Inl (fail ''Publish this Agent before starting a session'' 409)
      | Some cfg \<Rightarrow>
         (let work = (mutates meth \<and> \<not> ends_with path ''/abort'' \<and> \<not> answers_request path); payload' = with_default_model cfg meth path payload in
          ebind (raise_if (work \<and> ag_lifecycle a = ''archived'') (fail ''Agent is archived; restore it before generating'' 409)) (\<lambda>_.
          ebind (raise_if (work \<and> \<not> ac_enabled cfg) (fail ''Agent is disabled; history remains available'' 409)) (\<lambda>_.
          ebind (raise_if (\<not> reads_only meth \<and> managed_path path) (fail ''Use the versioned management API for configuration changes'' 403)) (\<lambda>_.
          ebind (check_model cfg (selected_model payload')) (\<lambda>_. Inr (work, payload'))))))))"

end
