(* ===== verification/CatalogSafety.thy ===== *)
theory CatalogSafety
  imports CatalogStore
begin

text \<open>
  What the configuration of the catalog keeps true while it is edited: references of Agents to models and
  resource versions resolve, version numbers count up from 1 with the last one active, and what was
  published never changes.
\<close>

section \<open>Edits\<close>

text \<open>The edits of the document, one rule per operation, and the commit of a prepared release. The only caller that
  prepares a release of the gateway names the target \<open>*\<close>.\<close>

inductive catalog_edit :: "catalog_doc \<Rightarrow> catalog_doc \<Rightarrow> bool" where
  model: "put_model mid value d = Inr d' \<Longrightarrow> catalog_edit d d'"
| imported: "import_each replace [] items d = Inr d' \<Longrightarrow> catalog_edit d d'"
| dropped: "drop_model mid d = Inr d' \<Longrightarrow> catalog_edit d d'"
| draft: "editable aid d = Inr () \<Longrightarrow> put_draft aid cfg d = Inr d' \<Longrightarrow> catalog_edit d d'"
| copied: "editable aid d = Inr () \<Longrightarrow> (\<forall>i. map_of (cd_resources d) (fresh i) = None) \<Longrightarrow> inj fresh \<Longrightarrow>
    copy_into fresh source aid d = Inr d' \<Longrightarrow> catalog_edit d d'"
| restored: "restore_template tid aid ms rs now d = Inr d' \<Longrightarrow> catalog_edit d d'"
| resource: "resource_head rid value d = Inr old \<Longrightarrow> catalog_edit d (put_resource rid (resource_with rid value old dr) d)"
| arranged: "lifecycle_step rid act d = Inr d' \<Longrightarrow> catalog_edit d d'"
| skill: "put_skill rid owner meta blobs d = Inr d' \<Longrightarrow> catalog_edit d d'"
| copied_resource: "put_copy source rid owner d = Inr d' \<Longrightarrow> catalog_edit d d'"
| published: "append_version rid original checked now d = Inr (n, d') \<Longrightarrow> catalog_edit d d'"
| prepared_gateway: "prepare_gateway env revision ''*'' version d = Inr v \<Longrightarrow> catalog_edit d (put_release rid v d)"
| prepared_agent: "prepare_agent written revision target version d = Inr v \<Longrightarrow> catalog_edit d (put_release rid v d)"
| lived: "change_lifecycle fingerprint path_ok aid q now d = Inr d' \<Longrightarrow> catalog_edit d d'"

text \<open>A release is current when what it was prepared from would still be accepted.\<close>

definition current_release :: "string \<Rightarrow> catalog_doc \<Rightarrow> bool" where
  "current_release rid d \<longleftrightarrow> (\<forall>v cfg path. map_of (cd_releases d) rid = Some v \<and> rl_content v = AgentRelease cfg path \<longrightarrow>
     validate_agent d (rl_target v) cfg = Inr ())"

definition empty_catalog :: catalog_doc where
  "empty_catalog = \<lparr>cd_models = [], cd_resources = [], cd_agents = [], cd_tombstones = [], cd_gateway_versions = [], cd_gateway_active = None,
     cd_releases = [], cd_templates = [], cd_bootstrapped = False\<rparr>"

text \<open>With \<open>guarded\<close> only current releases are committed.\<close>

inductive catalog_reachable :: "bool \<Rightarrow> catalog_doc \<Rightarrow> bool" for guarded where
  start: "catalog_reachable guarded empty_catalog"
| edited: "catalog_reachable guarded d \<Longrightarrow> catalog_edit d d' \<Longrightarrow> catalog_reachable guarded d'"
| committed: "catalog_reachable guarded d \<Longrightarrow> commit_version rid now d = Inr (n, d') \<Longrightarrow> (guarded \<Longrightarrow> current_release rid d) \<Longrightarrow>
    catalog_reachable guarded d'"

section \<open>Version numbers\<close>

definition counted_up :: "('v \<Rightarrow> nat) \<Rightarrow> 'v list \<Rightarrow> bool" where
  "counted_up number vs \<longleftrightarrow> map number vs = [1..<Suc (length vs)]"

lemma counted_up_simps [simp]: "counted_up number []" "counted_up number vs \<Longrightarrow> counted_up number (vs @ [v]) \<longleftrightarrow> number v = Suc (length vs)"
  by (auto simp: counted_up_def)

definition numbered :: "('v \<Rightarrow> nat) \<Rightarrow> 'v list \<Rightarrow> nat option \<Rightarrow> bool" where
  "numbered number vs active \<longleftrightarrow> counted_up number vs \<and> active = (if vs = [] then None else Some (length vs))"

definition next_number :: "nat option \<Rightarrow> nat" where
  "next_number active = (case active of None \<Rightarrow> 1 | Some n \<Rightarrow> Suc n)"

definition agents_numbered :: "catalog_doc \<Rightarrow> bool" where
  "agents_numbered d \<longleftrightarrow> (\<forall>aid a. map_of (cd_agents d) aid = Some a \<longrightarrow> numbered an_number (ag_versions a) (ag_active a))"

definition gateway_numbered :: "catalog_doc \<Rightarrow> bool" where
  "gateway_numbered d \<longleftrightarrow> numbered gn_number (cd_gateway_versions d) (cd_gateway_active d)"

definition resources_numbered :: "(string, catalog_resource) dict \<Rightarrow> bool" where
  "resources_numbered res \<longleftrightarrow> (\<forall>rid r. map_of res rid = Some r \<longrightarrow> counted_up vn_number (cr_versions r))"

definition releases_numbered :: "catalog_doc \<Rightarrow> bool" where
  "releases_numbered d \<longleftrightarrow> (\<forall>rid v. map_of (cd_releases d) rid = Some v \<longrightarrow> rl_number v = next_number (rl_old_active v))"

definition numbers_ok :: "catalog_doc \<Rightarrow> bool" where
  "numbers_ok d \<longleftrightarrow> agents_numbered d \<and> gateway_numbered d \<and> resources_numbered (cd_resources d) \<and> releases_numbered d"

section \<open>References resolve\<close>

definition binding_ok :: "(string, catalog_resource) dict \<Rightarrow> string \<Rightarrow> binding \<Rightarrow> bool" where
  "binding_ok resources aid b \<longleftrightarrow> (\<exists>r. map_of resources (fst b) = Some r \<and> cr_owner r \<in> {None, Some aid} \<and> snd b \<in> vn_number ` set (cr_versions r))"

definition config_ok :: "(string, catalog_resource) dict \<Rightarrow> string \<Rightarrow> agent_config \<Rightarrow> bool" where
  "config_ok resources aid cfg \<longleftrightarrow> (\<forall>b \<in> set (bindings_of cfg). binding_ok resources aid b)"

definition refs_ok :: "catalog_doc \<Rightarrow> bool" where
  "refs_ok d \<longleftrightarrow> (\<forall>aid a. map_of (cd_agents d) aid = Some a \<longrightarrow> (\<forall>cfg \<in> set (all_configs a). config_ok (cd_resources d) aid cfg))"

definition served :: "(string, jdict) dict \<Rightarrow> agent_config \<Rightarrow> bool" where
  "served models cfg \<longleftrightarrow> (\<forall>mid \<in> set (allowed_of cfg). \<exists>m. map_of models mid = Some m \<and> (ac_enabled cfg \<longrightarrow> model_enabled m))"

definition models_ok :: "catalog_doc \<Rightarrow> bool" where
  "models_ok d \<longleftrightarrow> (\<forall>aid a. map_of (cd_agents d) aid = Some a \<longrightarrow> (\<forall>cfg \<in> set (live_configs a). served (cd_models d) cfg))"

lemma check_models_Inr: "check_models d e mids = Inr () \<longleftrightarrow> (\<forall>mid \<in> set mids. \<exists>m. map_of (cd_models d) mid = Some m \<and> (e \<longrightarrow> model_enabled m))"
  by (induction mids) (auto split: option.splits)

lemma resource_version_Inr: "resource_version d rid n = Inr (r, v) \<Longrightarrow> map_of (cd_resources d) rid = Some r \<and> v \<in> set (cr_versions r) \<and> vn_number v = n"
  by (auto simp: resource_version_def find_Some_iff split: option.splits)

lemma binding_ok_version:
  "binding_ok (cd_resources d) aid b \<Longrightarrow> \<exists>r v. resource_version d (fst b) (snd b) = Inr (r, v) \<and> cr_owner r \<in> {None, Some aid}"
  by (cases "map_of (cd_resources d) (fst b)")
    (auto simp: binding_ok_def resource_version_def find_None_iff split: option.splits)

lemma check_bindings_Inr: "check_bindings d aid names ids bs = Inr () \<Longrightarrow> \<forall>b \<in> set bs. binding_ok (cd_resources d) aid b"
proof (induction d aid names ids bs rule: check_bindings.induct)
  case (2 d aid names ids rid n bs)
  from "2.prems" obtain r v where rv: "resource_version d rid n = Inr (r, v)" and owner: "cr_owner r \<in> {None, Some aid}"
    and free: "\<not> (runtime_name r v \<in> set names \<or> cr_id r \<in> set ids)"
    and rest: "check_bindings d aid (runtime_name r v # names) (cr_id r # ids) bs = Inr ()"
    by (auto simp: exc_simps split: prod.splits)
  have "\<forall>b \<in> set bs. binding_ok (cd_resources d) aid b"
    by (rule "2.IH" [OF rv refl _ _ rest]) (use owner free in \<open>simp_all add: raise_if_def\<close>)
  moreover have "binding_ok (cd_resources d) aid (rid, n)" using resource_version_Inr [OF rv] owner by (auto simp: binding_ok_def)
  ultimately show ?case by simp
qed simp

lemma validate_agent_Inr:
  assumes "validate_agent d aid cfg = Inr ()"
  shows "config_ok (cd_resources d) aid cfg" "served (cd_models d) cfg"
  using assms check_bindings_Inr by (auto simp: validate_agent_def exc_simps config_ok_def served_def check_models_Inr)

text \<open>Resources that only grow keep every reference.\<close>

definition grows :: "(string, catalog_resource) dict \<Rightarrow> (string, catalog_resource) dict \<Rightarrow> bool" where
  "grows res res' \<longleftrightarrow> (\<forall>rid r. map_of res rid = Some r \<longrightarrow>
     (\<exists>r'. map_of res' rid = Some r' \<and> cr_owner r' = cr_owner r \<and> cr_kind r' = cr_kind r \<and> prefix (cr_versions r) (cr_versions r')))"

lemma grows_refl [simp]: "grows res res"
  by (simp add: grows_def)

lemma grows_config: "grows res res' \<Longrightarrow> config_ok res aid cfg \<Longrightarrow> config_ok res' aid cfg"
  unfolding grows_def config_ok_def binding_ok_def by (fastforce dest: set_mono_prefix)

lemma grows_dput: "map_of res rid = Some r \<Longrightarrow> cr_owner r' = cr_owner r \<Longrightarrow> cr_kind r' = cr_kind r \<Longrightarrow> prefix (cr_versions r) (cr_versions r') \<Longrightarrow> grows res (dput rid r' res)"
  by (simp add: grows_def)

lemma grows_new: "map_of res rid = None \<Longrightarrow> grows res (dput rid r res)"
  by (auto simp: grows_def)

lemma copy_bindings_same:
  "copy_bindings fresh source aid bs res = Inr (bs', res') \<Longrightarrow> inj fresh \<Longrightarrow> (\<forall>i. map_of res (fresh i) = None \<or> length bs \<le> i) \<Longrightarrow>
    map_of res k = Some r \<Longrightarrow> map_of res' k = Some r"
proof (induction fresh source aid bs res arbitrary: bs' res' rule: copy_bindings.induct)
  case (2 fresh source aid rid n bs res)
  from "2.prems"(1) obtain r0 bs1 where r0: "map_of res rid = Some r0"
    and rest: "copy_bindings fresh source aid bs (if cr_owner r0 = Some source then dput (fresh (length bs)) (r0\<lparr>cr_id := fresh (length bs), cr_owner := Some aid\<rparr>) res else res) = Inr (bs1, res')"
    by (auto simp: exc_simps Let_def split: option.splits prod.splits)
  have new: "map_of res (fresh (length bs)) = None" using "2.prems"(3) by (auto dest: spec [of _ "length bs"])
  show ?case
  proof (rule "2.IH" [OF r0 refl refl rest "2.prems"(2)])
    show "\<forall>i. map_of (if cr_owner r0 = Some source then dput (fresh (length bs)) (r0\<lparr>cr_id := fresh (length bs), cr_owner := Some aid\<rparr>) res else res) (fresh i) = None \<or> length bs \<le> i"
      using "2.prems"(2,3) by (auto simp: inj_eq)
    show "map_of (if cr_owner r0 = Some source then dput (fresh (length bs)) (r0\<lparr>cr_id := fresh (length bs), cr_owner := Some aid\<rparr>) res else res) k = Some r"
      using "2.prems"(4) new by auto
  qed
qed simp

lemma active_config_Some: "active_config a = Some cfg \<Longrightarrow> \<exists>v \<in> set (ag_versions a). an_config v = cfg \<and> ag_active a = Some (an_number v)"
  by (auto simp: active_config_def find_Some_iff)

lemma live_all: "set (live_configs a) \<subseteq> set (all_configs a)"
proof (cases "active_config a")
  case (Some cfg)
  then show ?thesis using active_config_Some [OF Some] by (auto simp: live_configs_def all_configs_def)
qed (simp add: live_configs_def all_configs_def)

lemma config_updates [simp]:
  "all_configs (a\<lparr>ag_draft := cfg\<rparr>) = cfg # map an_config (ag_versions a)" "all_configs (a\<lparr>ag_lifecycle := l\<rparr>) = all_configs a"
  "active_config (a\<lparr>ag_draft := cfg\<rparr>) = active_config a" "active_config (a\<lparr>ag_lifecycle := l\<rparr>) = active_config a"
  "live_configs (a\<lparr>ag_lifecycle := l\<rparr>) = live_configs a"
  by (simp_all add: all_configs_def active_config_def live_configs_def)

lemma refs_okD: "refs_ok d \<Longrightarrow> map_of (cd_agents d) aid = Some a \<Longrightarrow> cfg \<in> set (all_configs a) \<Longrightarrow> config_ok (cd_resources d) aid cfg"
  by (simp add: refs_ok_def)

lemma refs_grow: "refs_ok d \<Longrightarrow> cd_agents d' = cd_agents d \<Longrightarrow> grows (cd_resources d) (cd_resources d') \<Longrightarrow> refs_ok d'"
  using grows_config by (fastforce simp: refs_ok_def)

lemma models_same: "models_ok d \<Longrightarrow> cd_agents d' = cd_agents d \<Longrightarrow> cd_models d' = cd_models d \<Longrightarrow> models_ok d'"
  by (simp add: models_ok_def)

lemma put_draft_ok:
  assumes "put_draft aid cfg d = Inr d'"
  shows "refs_ok d \<Longrightarrow> refs_ok d'" "models_ok d \<Longrightarrow> models_ok d'"
proof -
  from assms have ok: "validate_agent d aid cfg = Inr ()"
    and d': "d' = d\<lparr>cd_agents := dput aid (case map_of (cd_agents d) aid of Some a \<Rightarrow> a\<lparr>ag_draft := cfg\<rparr>
      | None \<Rightarrow> \<lparr>ag_draft = cfg, ag_versions = [], ag_active = None, ag_lifecycle = ''active''\<rparr>) (cd_agents d)\<rparr>"
    by (auto simp: put_draft_def exc_simps)
  note valid = validate_agent_Inr [OF ok]
  show "refs_ok d'" if r: "refs_ok d"
    using refs_okD [OF r] valid(1) by (auto simp: refs_ok_def d' all_configs_def split: option.splits if_splits)
  show "models_ok d'" if "models_ok d"
    using that valid(2) by (auto simp: models_ok_def d' live_configs_def active_config_def split: option.splits if_splits)
qed

lemma no_references:
  assumes "model_references d mid only = []" and "map_of (cd_agents d) aid = Some a" and "cfg \<in> set (live_configs a)"
  shows "mid \<in> set (allowed_of cfg) \<Longrightarrow> only \<and> \<not> ac_enabled cfg"
  using assms map_of_SomeD [OF assms(2)] by (fastforce simp: model_references_def filter_empty_conv list_ex_iff)

lemma put_model_served:
  assumes "models_ok d" and "\<not> model_enabled m \<longrightarrow> model_references d mid True = []"
  shows "models_ok (d\<lparr>cd_models := dput mid m (cd_models d)\<rparr>)"
proof -
  have "served (dput mid m (cd_models d)) cfg" if a: "map_of (cd_agents d) aid = Some a" "cfg \<in> set (live_configs a)" for aid a cfg
  proof -
    have "served (cd_models d) cfg" using assms(1) a by (auto simp: models_ok_def)
    moreover have "model_enabled m" if "mid \<in> set (allowed_of cfg)" "ac_enabled cfg"
      using no_references [OF _ a that(1)] assms(2) that(2) by blast
    ultimately show ?thesis by (auto simp: served_def)
  qed
  then show ?thesis by (simp add: models_ok_def)
qed

lemma import_each_models:
  "import_each replace ids (item # items) d = Inr d' \<Longrightarrow>
    \<exists>mid m. import_each replace (mid # ids) items (d\<lparr>cd_models := dput mid m (cd_models d)\<rparr>) = Inr d' \<and>
      (\<not> model_enabled m \<longrightarrow> model_references d mid True = [])"
  by (auto simp: exc_simps simp del: preserve_secrets.simps)

lemma import_each_same: "import_each replace ids items d = Inr d' \<Longrightarrow> \<exists>ms. d' = d\<lparr>cd_models := ms\<rparr>"
proof (induction items arbitrary: ids d)
  case (Cons item items)
  from import_each_models [OF Cons.prems] Cons.IH show ?case by fastforce
qed (auto intro: exI [of _ "cd_models d'"])

lemma import_each_ok: "import_each replace ids items d = Inr d' \<Longrightarrow> models_ok d \<Longrightarrow> models_ok d'"
proof (induction items arbitrary: ids d)
  case (Cons item items)
  from import_each_models [OF Cons.prems(1)] obtain mid m
    where rest: "import_each replace (mid # ids) items (d\<lparr>cd_models := dput mid m (cd_models d)\<rparr>) = Inr d'"
      and unused: "\<not> model_enabled m \<longrightarrow> model_references d mid True = []"
    by blast
  show ?case by (rule Cons.IH [OF rest put_model_served [OF Cons.prems(2) unused]])
qed simp

text \<open>What each edit does to the two kinds of reference.\<close>

definition unique_names :: "catalog_doc \<Rightarrow> bool" where
  "unique_names d \<longleftrightarrow> distinct (map fst (cd_resources d))"

lemma map_of_filter_fst: "distinct (map fst xs) \<Longrightarrow> map_of (filter (\<lambda>(k, r). P r) xs) k = (case map_of xs k of None \<Rightarrow> None | Some r \<Rightarrow> if P r then Some r else None)"
  by (induction xs) (auto simp: image_iff split: option.splits dest: map_of_SomeD)

lemma no_resource_references:
  assumes "resource_references rid d = []" and "map_of (cd_agents d) aid = Some a" and "cfg \<in> set (all_configs a)"
  shows "\<not> binds rid cfg"
  using assms map_of_SomeD [OF assms(2)] by (fastforce simp: resource_references_def filter_empty_conv list_ex_iff)

lemma copy_bindings_names:
  "copy_bindings fresh source aid bs res = Inr (bs', res') \<Longrightarrow> distinct (map fst res) \<Longrightarrow> distinct (map fst res')"
  by (induction fresh source aid bs res arbitrary: bs' res' rule: copy_bindings.induct)
    (auto simp: exc_simps Let_def split: option.splits prod.splits if_splits)

lemma copy_bindings_numbers:
  "copy_bindings fresh source aid bs res = Inr (bs', res') \<Longrightarrow> resources_numbered res \<Longrightarrow> resources_numbered res'"
proof (induction fresh source aid bs res arbitrary: bs' res' rule: copy_bindings.induct)
  case (2 fresh source aid rid n bs res)
  from "2.prems"(1) obtain bs1 and r0 :: catalog_resource where r0: "map_of res rid = Some r0"
    and rest: "copy_bindings fresh source aid bs (if cr_owner r0 = Some source then dput (fresh (length bs)) (r0\<lparr>cr_id := fresh (length bs), cr_owner := Some aid\<rparr>) res else res) = Inr (bs1, res')"
    by (auto simp: exc_simps Let_def split: option.splits prod.splits)
  show ?case
    by (rule "2.IH" [OF r0 refl refl rest]) (use "2.prems"(2) r0 in \<open>auto simp: resources_numbered_def\<close>)
qed simp

lemma copy_into_cases:
  assumes "copy_into fresh source aid d = Inr d'" and "inj fresh" and "\<forall>i. map_of (cd_resources d) (fresh i) = None"
  obtains cfg res where "put_draft aid cfg (d\<lparr>cd_resources := res\<rparr>) = Inr d'" and "map_of (cd_agents d) aid = None"
    and "grows (cd_resources d) res" and "distinct (map fst (cd_resources d)) \<Longrightarrow> distinct (map fst res)"
    and "resources_numbered (cd_resources d) \<Longrightarrow> resources_numbered res"
proof -
  from assms(1) obtain bs res and src :: catalog_agent where src: "map_of (cd_agents d) aid = None"
    and copy: "copy_bindings fresh source aid (bindings_of (ag_draft src)) (cd_resources d) = Inr (bs, res)"
    and draft: "put_draft aid ((ag_draft src)\<lparr>ac_name := aid, ac_bindings := Some bs\<rparr>) (d\<lparr>cd_resources := res\<rparr>) = Inr d'"
    by (auto simp: copy_into_def exc_simps split: option.splits)
  have "grows (cd_resources d) res" using copy_bindings_same [OF copy assms(2)] assms(3) by (auto simp: grows_def)
  from that [OF draft src this copy_bindings_names [OF copy] copy_bindings_numbers [OF copy]] show thesis .
qed

lemma resource_with_grows:
  assumes "resource_head rid value d = Inr old"
  shows "grows (cd_resources d) (cd_resources (put_resource rid (resource_with rid value old dr) d))"
proof (cases "map_of (cd_resources d) rid")
  case None
  then show ?thesis by (simp add: put_resource_def grows_new)
next
  case (Some r)
  with assms have "old = Some r" by (auto simp: resource_head_def Let_def exc_simps)
  then show ?thesis using grows_dput [OF Some] by (simp add: put_resource_def resource_with_def)
qed

lemma put_skill_grows:
  assumes "put_skill rid owner meta blobs d = Inr d'"
  shows "grows (cd_resources d) (cd_resources d')"
proof (cases "map_of (cd_resources d) rid")
  case None
  with assms show ?thesis by (auto simp: put_skill_def put_resource_def Let_def exc_simps intro: grows_new)
next
  case (Some r)
  with assms show ?thesis by (auto simp: put_skill_def put_resource_def Let_def exc_simps intro!: grows_dput)
qed

lemma put_copy_grows: "put_copy source rid owner d = Inr d' \<Longrightarrow> grows (cd_resources d) (cd_resources d')"
  by (auto simp: put_copy_def put_resource_def exc_simps split: option.splits intro: grows_new)

lemma append_version_grows: "append_version rid original checked now d = Inr (n, d') \<Longrightarrow> grows (cd_resources d) (cd_resources d')"
  by (auto simp: append_version_def put_resource_def Let_def exc_simps split: option.splits intro!: grows_dput)

text \<open>What an edit other than a deletion leaves as it was.\<close>

definition same_but_resources :: "catalog_doc \<Rightarrow> catalog_doc \<Rightarrow> bool" where
  "same_but_resources d d' \<longleftrightarrow> d' = d\<lparr>cd_resources := cd_resources d'\<rparr>"

lemma resource_edits:
  "same_but_resources d (put_resource rid r d)"
  "put_skill rid owner meta blobs d = Inr d' \<Longrightarrow> same_but_resources d d'"
  "put_copy source rid owner d = Inr d' \<Longrightarrow> same_but_resources d d'"
  "append_version rid original checked now d = Inr (n, d') \<Longrightarrow> same_but_resources d d'"
  "lifecycle_step rid act d = Inr d' \<Longrightarrow> same_but_resources d d'"
  by (auto simp: same_but_resources_def put_resource_def put_skill_def put_copy_def append_version_def lifecycle_step_def Let_def exc_simps
      split: option.splits if_splits)

lemma resource_names:
  "unique_names d \<Longrightarrow> unique_names (put_resource rid r d)"
  "put_skill rid owner meta blobs d = Inr d' \<Longrightarrow> unique_names d \<Longrightarrow> unique_names d'"
  "put_copy source rid owner d = Inr d' \<Longrightarrow> unique_names d \<Longrightarrow> unique_names d'"
  "append_version rid original checked now d = Inr (n, d') \<Longrightarrow> unique_names d \<Longrightarrow> unique_names d'"
  "lifecycle_step rid act d = Inr d' \<Longrightarrow> unique_names d \<Longrightarrow> unique_names d'"
  by (auto simp: unique_names_def put_resource_def put_skill_def put_copy_def append_version_def lifecycle_step_def Let_def exc_simps distinct_dpop
      split: option.splits if_splits)

lemma same_but_resourcesD:
  assumes "same_but_resources d d'"
  shows "cd_agents d' = cd_agents d" "cd_models d' = cd_models d" "cd_gateway_versions d' = cd_gateway_versions d"
    "cd_gateway_active d' = cd_gateway_active d" "cd_releases d' = cd_releases d"
  using arg_cong [OF assms [unfolded same_but_resources_def], of cd_agents] arg_cong [OF assms [unfolded same_but_resources_def], of cd_models]
    arg_cong [OF assms [unfolded same_but_resources_def], of cd_gateway_versions]
    arg_cong [OF assms [unfolded same_but_resources_def], of cd_gateway_active]
    arg_cong [OF assms [unfolded same_but_resources_def], of cd_releases]
  by simp_all

lemma refs_grow_resources: "same_but_resources d d' \<Longrightarrow> grows (cd_resources d) (cd_resources d') \<Longrightarrow> refs_ok d \<Longrightarrow> refs_ok d'"
  using refs_grow same_but_resourcesD(1) by blast

lemma models_same_resources: "same_but_resources d d' \<Longrightarrow> models_ok d \<Longrightarrow> models_ok d'"
  using models_same same_but_resourcesD(1,2) by blast

lemma lifecycle_step_refs:
  assumes "lifecycle_step rid act d = Inr d'" and refs: "refs_ok d"
  shows "refs_ok d'"
proof (cases "act \<in> {''archive'', ''restore''}")
  case True
  with assms(1) obtain r where "map_of (cd_resources d) rid = Some r" and d': "d' = put_resource rid (r\<lparr>cr_archived := (act = ''archive'')\<rparr>) d"
    by (auto simp: lifecycle_step_def split: option.splits)
  then have "grows (cd_resources d) (cd_resources d')" by (auto simp: put_resource_def intro!: grows_dput)
  from refs_grow_resources [OF resource_edits(5) [OF assms(1)] this refs] show ?thesis .
next
  case False
  with assms(1) have unused: "resource_references rid d = []" and d': "d' = d\<lparr>cd_resources := dpop rid (cd_resources d)\<rparr>"
    by (auto simp: lifecycle_step_def exc_simps split: option.splits if_splits)
  have "config_ok (dpop rid (cd_resources d)) aid cfg" if a: "map_of (cd_agents d) aid = Some a" "cfg \<in> set (all_configs a)" for aid a cfg
  proof -
    have "binding_ok (dpop rid (cd_resources d)) aid b" if b: "b \<in> set (bindings_of cfg)" for b
    proof -
      have "fst b \<noteq> rid" using no_resource_references [OF unused a] b by (auto simp: binds_def)
      moreover have "binding_ok (cd_resources d) aid b" using refs_okD [OF refs a] b by (simp add: config_ok_def)
      ultimately show ?thesis by (simp add: binding_ok_def)
    qed
    then show ?thesis by (simp add: config_ok_def)
  qed
  then show ?thesis by (simp add: refs_ok_def d')
qed

text \<open>Removing an Agent removes only resources that no other Agent may bind.\<close>

lemma remove_agent_refs:
  assumes "refs_ok d" and "unique_names d"
  shows "refs_ok (remove_agent aid request now d)"
proof -
  have "config_ok (cd_resources (remove_agent aid request now d)) aid' cfg"
    if a: "map_of (cd_agents d) aid' = Some a" "cfg \<in> set (all_configs a)" and other: "aid' \<noteq> aid" for aid' a cfg
    using refs_okD [OF assms(1) a] other assms(2)
    by (auto simp: config_ok_def binding_ok_def remove_agent_def unique_names_def map_of_filter_fst)
  then show ?thesis by (auto simp: refs_ok_def remove_agent_def split: if_splits)
qed

lemma change_lifecycle_cases:
  assumes "change_lifecycle fingerprint path_ok aid q now d = Inr d'"
  obtains "d' = d" | "d' = remove_agent aid (lq_request q) now d"
    | a state where "map_of (cd_agents d) aid = Some a" and "d' = set_lifecycle aid a state d"
  using assms by (auto simp: change_lifecycle_def exc_simps split: option.splits if_splits)

lemma set_lifecycle_keeps:
  assumes "map_of (cd_agents d) aid = Some a"
  shows "refs_ok d \<Longrightarrow> refs_ok (set_lifecycle aid a state d)" "models_ok d \<Longrightarrow> models_ok (set_lifecycle aid a state d)"
  using assms by (auto simp: refs_ok_def models_ok_def set_lifecycle_def split: if_splits)

lemma remove_agent_models: "models_ok d \<Longrightarrow> models_ok (remove_agent aid request now d)"
  by (auto simp: models_ok_def remove_agent_def split: if_splits)

lemma drop_model_keeps:
  assumes "drop_model mid d = Inr d'"
  shows "models_ok d \<Longrightarrow> models_ok d'" "refs_ok d \<Longrightarrow> refs_ok d'"
proof -
  from assms have unused: "model_references d mid False = []" and d': "d' = d\<lparr>cd_models := dpop mid (cd_models d)\<rparr>"
    by (auto simp: drop_model_def exc_simps)
  show "refs_ok d \<Longrightarrow> refs_ok d'" by (simp add: refs_ok_def d')
  assume ok: "models_ok d"
  have "served (dpop mid (cd_models d)) cfg" if a: "map_of (cd_agents d) aid = Some a" "cfg \<in> set (live_configs a)" for aid a cfg
  proof -
    have "served (cd_models d) cfg" using ok a by (auto simp: models_ok_def)
    moreover have "mid \<notin> set (allowed_of cfg)" using no_references [OF unused a] by blast
    ultimately show ?thesis by (auto simp: served_def)
  qed
  then show "models_ok d'" by (simp add: models_ok_def d')
qed

lemma put_model_keeps:
  assumes "put_model mid value d = Inr d'"
  shows "models_ok d \<Longrightarrow> models_ok d'" "refs_ok d \<Longrightarrow> refs_ok d'"
proof -
  from assms obtain m where d': "d' = d\<lparr>cd_models := dput mid m (cd_models d)\<rparr>"
    and unused: "\<not> model_enabled m \<longrightarrow> model_references d mid True = []"
    by (auto simp: put_model_def Let_def exc_simps simp del: preserve_secrets.simps)
  show "models_ok d \<Longrightarrow> models_ok d'" unfolding d' by (rule put_model_served [OF _ unused])
  show "refs_ok d \<Longrightarrow> refs_ok d'" by (simp add: refs_ok_def d')
qed

lemma numbered_Nil [simp]: "numbered number [] active \<longleftrightarrow> active = None"
  by (simp add: numbered_def)

lemma numbered_append: "numbered number vs active \<Longrightarrow> number v = next_number active \<Longrightarrow> numbered number (vs @ [v]) (Some (number v))"
  by (auto simp: numbered_def next_number_def split: if_splits)

lemma numbered_next: "numbered number vs active \<Longrightarrow> Suc (length vs) = next_number active"
  by (auto simp: numbered_def next_number_def)

lemma numbered_set: "numbered number vs active \<Longrightarrow> number ` set vs = {1..<Suc (length vs)}"
  unfolding numbered_def counted_up_def by (metis set_map set_upt)

lemma numbered_fresh: "numbered number vs active \<Longrightarrow> next_number active \<notin> number ` set vs"
  using numbered_set [of number vs active] numbered_next [of number vs active] by force

lemma find_snoc: "find P xs = None \<Longrightarrow> find P (xs @ [x]) = (if P x then Some x else None)"
  by (induction xs) (auto split: if_splits)

lemma active_config_appended:
  assumes "numbered an_number (ag_versions a) (ag_active a)" and "an_number v = next_number (ag_active a)"
  shows "active_config (a\<lparr>ag_versions := ag_versions a @ [v], ag_active := Some (an_number v)\<rparr>) = Some (an_config v)"
proof -
  have "find (\<lambda>w. Some (an_number w) = Some (an_number v)) (ag_versions a) = None"
    using numbered_fresh [OF assms(1)] assms(2) by (force simp: find_None_iff)
  from find_snoc [OF this, of v] have "find (\<lambda>w. Some (an_number w) = Some (an_number v)) (ag_versions a @ [v]) = Some v" by simp
  then show ?thesis by (simp add: active_config_def)
qed

lemma find_kept: "find P xs = Some x \<Longrightarrow> find P (xs @ ys) = Some x"
  by (induction xs) (auto split: if_splits)

lemma active_config_last:
  assumes "numbered an_number (ag_versions a) (ag_active a)"
  shows "active_config a = (if ag_versions a = [] then None else Some (an_config (last (ag_versions a))))"
proof (cases "ag_versions a" rule: rev_cases)
  case (snoc vs v)
  with assms have c: "map an_number vs @ [an_number v] = [1..<Suc (length vs)] @ [Suc (length vs)]" "ag_active a = Some (Suc (length vs))"
    by (simp_all add: numbered_def counted_up_def)
  then have n: "an_number v = Suc (length vs)" and "map an_number vs = [1..<Suc (length vs)]" by (simp_all only: append1_eq_conv)
  from arg_cong [OF this(2), of set] have "an_number ` set vs = {1..<Suc (length vs)}" by (simp only: set_map set_upt)
  then have "find (\<lambda>w. Some (an_number w) = ag_active a) vs = None" using c(2) by (force simp: find_None_iff)
  from find_snoc [OF this, of v] show ?thesis using c(2) n snoc by (simp add: active_config_def)
qed (use assms in \<open>simp add: active_config_def\<close>)

text \<open>The edits keep the numbering.\<close>

definition same_versions :: "catalog_doc \<Rightarrow> catalog_doc \<Rightarrow> bool" where
  "same_versions d d' \<longleftrightarrow> cd_gateway_versions d' = cd_gateway_versions d \<and> cd_gateway_active d' = cd_gateway_active d \<and> cd_releases d' = cd_releases d \<and>
     (\<forall>aid a'. map_of (cd_agents d') aid = Some a' \<longrightarrow>
        map_of (cd_agents d) aid = None \<and> ag_versions a' = [] \<and> ag_active a' = None
        \<or> (\<exists>a. map_of (cd_agents d) aid = Some a \<and> ag_versions a' = ag_versions a \<and> ag_active a' = ag_active a))"

lemma same_versionsD:
  "same_versions d d' \<Longrightarrow> map_of (cd_agents d') aid = Some a' \<Longrightarrow> map_of (cd_agents d) aid = None \<and> ag_versions a' = [] \<and> ag_active a' = None
    \<or> (\<exists>a. map_of (cd_agents d) aid = Some a \<and> ag_versions a' = ag_versions a \<and> ag_active a' = ag_active a)"
  unfolding same_versions_def by blast

lemma same_versions_numbers:
  assumes same: "same_versions d d'" and "resources_numbered (cd_resources d) \<Longrightarrow> resources_numbered (cd_resources d')" and ok: "numbers_ok d"
  shows "numbers_ok d'"
proof -
  have "numbered an_number (ag_versions a') (ag_active a')" if "map_of (cd_agents d') aid = Some a'" for aid a'
    using same_versionsD [OF same that] ok by (auto simp: numbers_ok_def agents_numbered_def)
  then have "agents_numbered d'" by (simp add: agents_numbered_def)
  then show ?thesis using assms(2,3) same by (simp add: numbers_ok_def gateway_numbered_def releases_numbered_def same_versions_def)
qed

lemma same_versions_refl: "cd_agents d' = cd_agents d \<Longrightarrow> cd_gateway_versions d' = cd_gateway_versions d \<Longrightarrow>
    cd_gateway_active d' = cd_gateway_active d \<Longrightarrow> cd_releases d' = cd_releases d \<Longrightarrow> same_versions d d'"
  by (auto simp: same_versions_def)

lemma put_draft_versions: "put_draft aid cfg d = Inr d' \<Longrightarrow> same_versions d d' \<and> cd_resources d' = cd_resources d"
  by (auto simp: put_draft_def exc_simps same_versions_def split: option.splits if_splits)

lemma resource_numbers:
  assumes ok: "resources_numbered (cd_resources d)"
  shows "resource_head rid value d = Inr old \<Longrightarrow> resources_numbered (cd_resources (put_resource rid (resource_with rid value old dr) d))"
    "put_skill rid owner meta blobs d = Inr d' \<Longrightarrow> resources_numbered (cd_resources d')"
    "put_copy source rid owner d = Inr d' \<Longrightarrow> resources_numbered (cd_resources d')"
    "append_version rid original checked now d = Inr (n, d') \<Longrightarrow> resources_numbered (cd_resources d')"
    "lifecycle_step rid act d = Inr d' \<Longrightarrow> resources_numbered (cd_resources d')"
  using ok by (auto simp: resources_numbered_def resource_head_def resource_with_def put_resource_def put_skill_def put_copy_def append_version_def
      lifecycle_step_def Let_def exc_simps split: option.splits if_splits)

lemma remove_agent_versions: "same_versions d (remove_agent aid request now d)"
  by (auto simp: same_versions_def remove_agent_def split: option.splits)

lemma remove_agent_resources:
  assumes "unique_names d"
  shows "map_of (cd_resources (remove_agent aid request now d)) rid = (case map_of (cd_resources d) rid of None \<Rightarrow> None
    | Some r \<Rightarrow> if cr_owner r = Some aid then None else Some r)"
  using assms by (simp add: remove_agent_def unique_names_def map_of_filter_fst split: option.splits)

lemma set_lifecycle_versions: "map_of (cd_agents d) aid = Some a \<Longrightarrow> same_versions d (set_lifecycle aid a state d)"
  by (auto simp: same_versions_def set_lifecycle_def split: option.splits)

section \<open>What a commit does\<close>

lemma commit_content_cases:
  assumes "commit_content v now d = Inr d'"
  obtains (Gateway) models entries where "rl_content v = GatewayRelease models entries" and "cd_gateway_active d = rl_old_active v"
      and "d' = d\<lparr>cd_gateway_versions := cd_gateway_versions d @ [\<lparr>gn_number = rl_number v, gn_created = now, gn_models = models\<rparr>],
        cd_gateway_active := Some (rl_number v)\<rparr>"
    | (Agent) cfg path and a :: catalog_agent where "rl_content v = AgentRelease cfg path" and "map_of (cd_agents d) (rl_target v) = Some a"
      and "ag_active a = rl_old_active v"
      and "d' = d\<lparr>cd_agents := dput (rl_target v) (a\<lparr>ag_versions := ag_versions a @
        [\<lparr>an_number = rl_number v, an_created = now, an_config = cfg, an_path = path\<rparr>], ag_active := Some (rl_number v)\<rparr>) (cd_agents d)\<rparr>"
  using assms by (cases "rl_content v") (auto simp: commit_content_def exc_simps split: option.splits)

lemma commit_version_cases:
  assumes "commit_version rid now d = Inr (n, d')"
  obtains (Again) "d' = d" | (First) v d1 where "map_of (cd_releases d) rid = Some v" and "\<not> rl_committed v" and "commit_content v now d = Inr d1"
    and "n = rl_number v" and "d' = put_release rid (v\<lparr>rl_committed := True\<rparr>) d1"
  using assms by (auto simp: commit_version_def exc_simps split: option.splits if_splits)

lemma commit_content_same: "commit_content v now d = Inr d' \<Longrightarrow> cd_resources d' = cd_resources d \<and> cd_models d' = cd_models d \<and> cd_releases d' = cd_releases d"
  by (erule commit_content_cases) simp_all

lemma commit_content_numbers:
  assumes c: "commit_content v now d = Inr d'" and ok: "numbers_ok d" and v: "rl_number v = next_number (rl_old_active v)"
  shows "numbers_ok d'"
  using c
proof (cases rule: commit_content_cases)
  case (Gateway models entries)
  from ok v Gateway(2) have "numbered gn_number (cd_gateway_versions d @ [\<lparr>gn_number = rl_number v, gn_created = now, gn_models = models\<rparr>]) (Some (rl_number v))"
    using numbered_append [of gn_number "cd_gateway_versions d" "cd_gateway_active d" "\<lparr>gn_number = rl_number v, gn_created = now, gn_models = models\<rparr>"]
    by (simp add: numbers_ok_def gateway_numbered_def)
  with ok Gateway(3) show ?thesis by (simp add: numbers_ok_def agents_numbered_def gateway_numbered_def releases_numbered_def)
next
  case (Agent cfg path a)
  have "numbered an_number (ag_versions a) (ag_active a)" using ok Agent(2) by (simp add: numbers_ok_def agents_numbered_def)
  from numbered_append [OF this, of "\<lparr>an_number = rl_number v, an_created = now, an_config = cfg, an_path = path\<rparr>"] v Agent(3)
  have "numbered an_number (ag_versions a @ [\<lparr>an_number = rl_number v, an_created = now, an_config = cfg, an_path = path\<rparr>]) (Some (rl_number v))"
    by simp
  with ok Agent(4) show ?thesis by (auto simp: numbers_ok_def agents_numbered_def gateway_numbered_def releases_numbered_def)
qed

lemma put_release_numbers: "numbers_ok d \<Longrightarrow> rl_number v = next_number (rl_old_active v) \<Longrightarrow> numbers_ok (put_release rid v d)"
  by (auto simp: numbers_ok_def agents_numbered_def gateway_numbered_def releases_numbered_def put_release_def)

lemma commit_version_numbers: "commit_version rid now d = Inr (n, d') \<Longrightarrow> numbers_ok d \<Longrightarrow> numbers_ok d'"
proof (erule commit_version_cases)
  fix v d1
  assume v: "map_of (cd_releases d) rid = Some v" and c: "commit_content v now d = Inr d1" and d': "d' = put_release rid (v\<lparr>rl_committed := True\<rparr>) d1"
    and ok: "numbers_ok d"
  from ok v have n: "rl_number v = next_number (rl_old_active v)" by (simp add: numbers_ok_def releases_numbered_def)
  show "numbers_ok d'" unfolding d' by (rule put_release_numbers [OF commit_content_numbers [OF c ok n]]) (simp add: n)
qed simp

lemma commit_content_refs:
  assumes c: "commit_content v now d = Inr d'" and refs: "refs_ok d"
    and valid: "\<forall>cfg path. rl_content v = AgentRelease cfg path \<longrightarrow> validate_agent d (rl_target v) cfg = Inr ()"
  shows "refs_ok d'"
  using c
proof (cases rule: commit_content_cases)
  case (Agent cfg path a)
  from valid Agent(1) have "config_ok (cd_resources d) (rl_target v) cfg" using validate_agent_Inr(1) by simp
  moreover have "\<forall>c \<in> set (all_configs a). config_ok (cd_resources d) (rl_target v) c" using refs_okD [OF refs Agent(2)] by simp
  ultimately show ?thesis using refs Agent(4) by (auto simp: refs_ok_def all_configs_def)
qed (use refs in \<open>simp add: refs_ok_def\<close>)

lemma commit_content_models:
  assumes c: "commit_content v now d = Inr d'" and ok: "models_ok d" and num: "numbers_ok d" and v: "rl_number v = next_number (rl_old_active v)"
    and valid: "\<forall>cfg path. rl_content v = AgentRelease cfg path \<longrightarrow> validate_agent d (rl_target v) cfg = Inr ()"
  shows "models_ok d'"
  using c
proof (cases rule: commit_content_cases)
  case (Agent cfg path a)
  let ?w = "\<lparr>an_number = rl_number v, an_created = now, an_config = cfg, an_path = path\<rparr>"
  let ?a = "a\<lparr>ag_versions := ag_versions a @ [?w], ag_active := Some (rl_number v)\<rparr>"
  have "numbered an_number (ag_versions a) (ag_active a)" using num Agent(2) by (simp add: numbers_ok_def agents_numbered_def)
  from active_config_appended [OF this, of ?w] v Agent(3) have "active_config ?a = Some cfg" by simp
  then have live: "live_configs ?a = [ag_draft a, cfg]" by (simp add: live_configs_def)
  have "served (cd_models d) (ag_draft a)" using ok Agent(2) by (auto simp: models_ok_def live_configs_def)
  moreover have "served (cd_models d) cfg" using valid Agent(1) validate_agent_Inr(2) by simp
  ultimately show ?thesis using ok live by (auto simp: models_ok_def Agent(4))
qed (use ok in \<open>simp add: models_ok_def\<close>)

end
