(* ===== verification/CatalogInvariants.thy ===== *)
theory CatalogInvariants
  imports CatalogSafety
begin

text \<open>
  The invariants of the catalog over every sequence of edits and commits: version numbers, resolution of
  references, and that what was published stays as it was published.
\<close>

section \<open>Every edit\<close>

lemma prepared_gateway_release:
  assumes "prepare_gateway env revision ''*'' version d = Inr v" and "numbers_ok d"
  shows "rl_number v = next_number (rl_old_active v)"
  using assms by (auto simp: prepare_gateway_def active_of_def exc_simps numbers_ok_def gateway_numbered_def split: option.splits dest: numbered_next)

lemma agents_next: "agents_numbered d \<Longrightarrow> map_of (cd_agents d) aid = Some a \<Longrightarrow> Suc (length (ag_versions a)) = next_number (ag_active a)"
  by (rule numbered_next [of an_number]) (auto simp: agents_numbered_def)

lemma prepared_agent_release:
  assumes "prepare_agent written revision target version d = Inr v" and "numbers_ok d"
  shows "rl_number v = next_number (rl_old_active v)"
  using assms by (auto simp: prepare_agent_def exc_simps numbers_ok_def agents_next Let_def split: option.splits)

lemma restore_template_cases:
  assumes "restore_template tid aid ms rs now d = Inr d'"
  obtains cfg d1 where "put_draft aid cfg d = Inr d1" and "cd_agents d' = cd_agents d1" and "cd_models d' = cd_models d1"
    and "cd_resources d' = cd_resources d1" and "cd_gateway_versions d' = cd_gateway_versions d1"
    and "cd_gateway_active d' = cd_gateway_active d1" and "cd_releases d' = cd_releases d1"
  using assms by (auto simp: restore_template_def exc_simps split: option.splits)

lemma put_draft_same: "put_draft aid cfg d = Inr d' \<Longrightarrow> d' = d\<lparr>cd_agents := cd_agents d'\<rparr>"
  by (auto simp: put_draft_def exc_simps)

text \<open>An edit either registers a prepared release or leaves the published versions of Agents and of the gateway alone.\<close>

definition release_only :: "catalog_doc \<Rightarrow> catalog_doc \<Rightarrow> bool" where
  "release_only d d' \<longleftrightarrow> (\<exists>rid v. d' = put_release rid v d \<and> (numbers_ok d \<longrightarrow> rl_number v = next_number (rl_old_active v)))"

lemma same_versions_resources [simp]: "same_versions (d\<lparr>cd_resources := res\<rparr>) d' \<longleftrightarrow> same_versions d d'"
  by (simp add: same_versions_def)

lemma same_versions_trans: "same_versions d d1 \<Longrightarrow> cd_agents d' = cd_agents d1 \<Longrightarrow> cd_gateway_versions d' = cd_gateway_versions d1 \<Longrightarrow>
    cd_gateway_active d' = cd_gateway_active d1 \<Longrightarrow> cd_releases d' = cd_releases d1 \<Longrightarrow> same_versions d d'"
  unfolding same_versions_def by simp

lemma same_resources_versions: "same_but_resources d d' \<Longrightarrow> same_versions d d'"
  by (rule same_versions_refl) (simp_all add: same_but_resourcesD)

lemma edit_versions: "catalog_edit d d' \<Longrightarrow> release_only d d' \<or> same_versions d d'"
proof (induction rule: catalog_edit.induct)
  case (model mid v d d')
  then show ?case by (auto simp: put_model_def Let_def exc_simps simp del: preserve_secrets.simps intro!: same_versions_refl)
next
  case (imported replace items d d')
  from import_each_same [OF imported] show ?case by (auto intro!: same_versions_refl)
next
  case (copied aid d fresh source d')
  from copied(4,3,2) show ?case
    by (rule copy_into_cases) (auto dest!: put_draft_versions)
next
  case (restored tid aid ms rs now d d')
  then show ?case by (rule restore_template_cases) (blast dest: put_draft_versions intro: same_versions_trans)
next
  case (lived fingerprint path_ok aid q now d d')
  then show ?case
    by (rule change_lifecycle_cases) (auto simp: remove_agent_versions set_lifecycle_versions intro: same_versions_refl)
next
  case (prepared_gateway env revision version d v rid)
  then have "numbers_ok d \<longrightarrow> rl_number v = next_number (rl_old_active v)" using prepared_gateway_release by blast
  then show ?case unfolding release_only_def by blast
next
  case (prepared_agent written revision target version d v rid)
  then have "numbers_ok d \<longrightarrow> rl_number v = next_number (rl_old_active v)" using prepared_agent_release by blast
  then show ?case unfolding release_only_def by blast
qed (auto simp: drop_model_def exc_simps dest: put_draft_versions resource_edits(2-) intro: same_versions_refl same_resources_versions resource_edits(1))

text \<open>The resources an edit keeps keep their kind, owner and published versions; names stay unique.\<close>

definition kept :: "(string, catalog_resource) dict \<Rightarrow> (string, catalog_resource) dict \<Rightarrow> bool" where
  "kept res res' \<longleftrightarrow> (\<forall>rid r r'. map_of res rid = Some r \<longrightarrow> map_of res' rid = Some r' \<longrightarrow>
     cr_owner r' = cr_owner r \<and> cr_kind r' = cr_kind r \<and> prefix (cr_versions r) (cr_versions r'))"

definition resources_good :: "catalog_doc \<Rightarrow> bool" where
  "resources_good d \<longleftrightarrow> unique_names d \<and> resources_numbered (cd_resources d)"

lemma good_updates [simp]:
  "resources_good (d\<lparr>cd_models := ms\<rparr>) = resources_good d" "resources_good (d\<lparr>cd_agents := as\<rparr>) = resources_good d"
  "resources_good (d\<lparr>cd_releases := rs\<rparr>) = resources_good d"
  by (simp_all add: resources_good_def unique_names_def)

lemma grows_kept: "grows res res' \<Longrightarrow> kept res res'"
  by (fastforce simp: grows_def kept_def)

lemma kept_refl [simp]: "kept res res"
  by (simp add: kept_def)

lemma lifecycle_step_kept: "lifecycle_step rid act d = Inr d' \<Longrightarrow> kept (cd_resources d) (cd_resources d')"
  by (auto simp: lifecycle_step_def put_resource_def kept_def exc_simps split: option.splits if_splits)

lemma remove_agent_kept: "unique_names d \<Longrightarrow> kept (cd_resources d) (cd_resources (remove_agent aid request now d))"
  unfolding kept_def by (auto simp: remove_agent_resources split: option.splits if_splits)

lemma remove_agent_good: "resources_good d \<Longrightarrow> resources_good (remove_agent aid request now d)"
  unfolding resources_good_def resources_numbered_def
  by (auto simp: remove_agent_resources split: option.splits if_splits) (simp add: unique_names_def remove_agent_def distinct_map_filter)

lemma good_same: "cd_resources d' = cd_resources d \<Longrightarrow> resources_good d \<Longrightarrow> kept (cd_resources d) (cd_resources d') \<and> resources_good d'"
  by (simp add: resources_good_def unique_names_def)

lemma good_grows: "grows (cd_resources d) (cd_resources d') \<Longrightarrow> unique_names d' \<Longrightarrow> resources_numbered (cd_resources d') \<Longrightarrow>
    kept (cd_resources d) (cd_resources d') \<and> resources_good d'"
  by (simp add: resources_good_def grows_kept)

lemma restore_template_same: "restore_template tid aid ms rs now d = Inr d' \<Longrightarrow> cd_resources d' = cd_resources d"
  by (auto dest!: put_draft_versions elim!: restore_template_cases)

lemma copy_into_good:
  assumes c: "copy_into fresh source aid d = Inr d'" and f: "inj fresh" "\<forall>i. map_of (cd_resources d) (fresh i) = None" and ok: "resources_good d"
  shows "kept (cd_resources d) (cd_resources d') \<and> resources_good d'"
  using c f
proof (rule copy_into_cases)
  fix cfg res
  assume p: "put_draft aid cfg (d\<lparr>cd_resources := res\<rparr>) = Inr d'" and g: "grows (cd_resources d) res"
    and u: "distinct (map fst (cd_resources d)) \<Longrightarrow> distinct (map fst res)" and n: "resources_numbered (cd_resources d) \<Longrightarrow> resources_numbered res"
  from put_draft_versions [OF p] have "cd_resources d' = res" by simp
  with g u n ok show ?thesis by (simp add: resources_good_def unique_names_def grows_kept)
qed

lemma edit_resources:
  "catalog_edit d d' \<Longrightarrow> resources_good d \<Longrightarrow> kept (cd_resources d) (cd_resources d') \<and> resources_good d'"
proof (induction rule: catalog_edit.induct)
  case (model mid v d d')
  then have "cd_resources d' = cd_resources d" by (auto simp: put_model_def Let_def exc_simps simp del: preserve_secrets.simps)
  then show ?case by (rule good_same) (rule model)
next
  case (imported replace items d d')
  from import_each_same [OF imported(1)] imported(2) show ?case by (auto intro!: good_same)
next
  case (copied aid d fresh source d')
  show ?case by (rule copy_into_good [OF copied(4,3,2,5)])
next
  case (resource rid v d old dr)
  from resource(2) show ?case
    by (intro good_grows resource_with_grows [OF resource(1)] resource_names(1) resource_numbers(1) [OF _ resource(1)]) (simp_all add: resources_good_def)
next
  case (arranged rid act d d')
  then show ?case using lifecycle_step_kept resource_names(5) resource_numbers(5) by (metis resources_good_def)
next
  case (skill rid owner meta blobs d d')
  then show ?case by (metis good_grows put_skill_grows resource_names(2) resource_numbers(2) resources_good_def)
next
  case (copied_resource source rid owner d d')
  then show ?case by (metis good_grows put_copy_grows resource_names(3) resource_numbers(3) resources_good_def)
next
  case (published rid original checked now d n d')
  then show ?case by (metis good_grows append_version_grows resource_names(4) resource_numbers(4) resources_good_def)
next
  case (lived fingerprint path_ok aid q now d d')
  from lived(1) show ?case
  proof (rule change_lifecycle_cases)
    assume "d' = remove_agent aid (lq_request q) now d"
    with remove_agent_kept remove_agent_good lived(2) show ?thesis by (simp add: resources_good_def)
  qed (use lived(2) in \<open>simp_all add: resources_good_def unique_names_def set_lifecycle_def\<close>)
qed (auto intro!: good_same simp: drop_model_def exc_simps put_release_def dest: put_draft_versions restore_template_same)

section \<open>The numbers of versions\<close>

lemma same_versions_agents: "same_versions d d' \<Longrightarrow> agents_numbered d \<Longrightarrow> agents_numbered d'"
  by (fastforce simp: agents_numbered_def dest: same_versionsD)

lemma edit_numbers: "catalog_edit d d' \<Longrightarrow> resources_good d \<Longrightarrow> numbers_ok d \<Longrightarrow> numbers_ok d'"
proof -
  assume e: "catalog_edit d d'" and r: "resources_good d" and n: "numbers_ok d"
  from edit_versions [OF e] show "numbers_ok d'"
  proof
    assume "release_only d d'"
    with n put_release_numbers show ?thesis by (auto simp: release_only_def)
  next
    assume "same_versions d d'"
    moreover have "resources_numbered (cd_resources d')" using edit_resources [OF e r] by (simp add: resources_good_def)
    ultimately show ?thesis using n same_versions_numbers by blast
  qed
qed

lemma commit_version_same: "commit_version rid now d = Inr (n, d') \<Longrightarrow> cd_resources d' = cd_resources d \<and> cd_models d' = cd_models d"
  by (erule commit_version_cases) (auto dest: commit_content_same simp: put_release_def)

lemma reachable_numbers: "catalog_reachable guarded d \<Longrightarrow> resources_good d \<and> numbers_ok d"
proof (induction rule: catalog_reachable.induct)
  case start
  show ?case by (simp add: empty_catalog_def resources_good_def unique_names_def numbers_ok_def agents_numbered_def gateway_numbered_def
        resources_numbered_def releases_numbered_def)
next
  case (edited d d')
  then show ?case using edit_numbers edit_resources by blast
next
  case (committed d rid now n d')
  then show ?case using commit_version_numbers commit_version_same good_same by blast
qed

text \<open>Published versions of what an edit or a commit keeps are unchanged; new ones are appended.\<close>

definition published_kept :: "catalog_doc \<Rightarrow> catalog_doc \<Rightarrow> bool" where
  "published_kept d d' \<longleftrightarrow>
     prefix (cd_gateway_versions d) (cd_gateway_versions d') \<and>
     (\<forall>aid a a'. map_of (cd_agents d) aid = Some a \<longrightarrow> map_of (cd_agents d') aid = Some a' \<longrightarrow> prefix (ag_versions a) (ag_versions a')) \<and>
     (\<forall>rid r r'. map_of (cd_resources d) rid = Some r \<longrightarrow> map_of (cd_resources d') rid = Some r' \<longrightarrow> prefix (cr_versions r) (cr_versions r'))"

lemma same_versions_published: "same_versions d d' \<Longrightarrow> kept (cd_resources d) (cd_resources d') \<Longrightarrow> published_kept d d'"
  unfolding published_kept_def kept_def by (auto dest: same_versionsD) (simp_all add: same_versions_def)

lemma edit_published: "catalog_edit d d' \<Longrightarrow> resources_good d \<Longrightarrow> published_kept d d'"
proof -
  assume e: "catalog_edit d d'" and r: "resources_good d"
  from edit_versions [OF e] show "published_kept d d'"
  proof
    assume "release_only d d'"
    then show ?thesis by (auto simp: release_only_def published_kept_def put_release_def)
  next
    assume "same_versions d d'"
    with edit_resources [OF e r] same_versions_published show ?thesis by blast
  qed
qed

lemma commit_content_published: "commit_content v now d = Inr d' \<Longrightarrow> published_kept d d'"
  by (erule commit_content_cases) (auto simp: published_kept_def)

lemma commit_published: "commit_version rid now d = Inr (n, d') \<Longrightarrow> published_kept d d'"
proof (erule commit_version_cases)
  show "published_kept d d'" if "d' = d" using that by (simp add: published_kept_def)
  fix v d1
  assume "commit_content v now d = Inr d1" and d': "d' = put_release rid (v\<lparr>rl_committed := True\<rparr>) d1"
  from commit_content_published [OF this(1)] show "published_kept d d'" by (simp add: published_kept_def d' put_release_def)
qed

section \<open>References\<close>

lemma put_release_keeps [simp]: "refs_ok (put_release rid v d) = refs_ok d" "models_ok (put_release rid v d) = models_ok d"
  by (simp_all add: put_release_def refs_ok_def models_ok_def)

lemma refs_same: "cd_agents d' = cd_agents d \<Longrightarrow> cd_resources d' = cd_resources d \<Longrightarrow> refs_ok d \<Longrightarrow> refs_ok d'"
  by (simp add: refs_ok_def)

lemma copy_into_keeps:
  assumes c: "copy_into fresh source aid d = Inr d'" and f: "inj fresh" "\<forall>i. map_of (cd_resources d) (fresh i) = None"
  shows "refs_ok d \<Longrightarrow> refs_ok d'" "models_ok d \<Longrightarrow> models_ok d'"
proof -
  from c f obtain cfg res where p: "put_draft aid cfg (d\<lparr>cd_resources := res\<rparr>) = Inr d'" and g: "grows (cd_resources d) res"
    by (rule copy_into_cases)
  show "refs_ok d'" if "refs_ok d"
    by (rule put_draft_ok(1) [OF p], rule refs_grow [OF that]) (simp_all add: g)
  show "models_ok d'" if "models_ok d"
    by (rule put_draft_ok(2) [OF p], rule models_same [OF that]) simp_all
qed

lemma restore_template_keeps:
  assumes r: "restore_template tid aid ms rs now d = Inr d'"
  shows "refs_ok d \<Longrightarrow> refs_ok d'" "models_ok d \<Longrightarrow> models_ok d'"
proof -
  from r obtain cfg d1 where p: "put_draft aid cfg d = Inr d1" and same: "cd_agents d' = cd_agents d1" "cd_models d' = cd_models d1" "cd_resources d' = cd_resources d1"
    by (rule restore_template_cases)
  show "refs_ok d \<Longrightarrow> refs_ok d'" by (rule refs_same [OF same(1,3) put_draft_ok(1) [OF p]])
  show "models_ok d \<Longrightarrow> models_ok d'" by (rule models_same [OF put_draft_ok(2) [OF p] same(1,2)])
qed

lemma change_lifecycle_keeps:
  assumes c: "change_lifecycle fingerprint path_ok aid q now d = Inr d'" and u: "unique_names d"
  shows "refs_ok d \<Longrightarrow> refs_ok d'" "models_ok d \<Longrightarrow> models_ok d'"
proof -
  have "(refs_ok d \<longrightarrow> refs_ok d') \<and> (models_ok d \<longrightarrow> models_ok d')"
    using c
  proof (rule change_lifecycle_cases)
    assume "d' = remove_agent aid (lq_request q) now d"
    then show ?thesis using remove_agent_refs [OF _ u] remove_agent_models by simp
  next
    fix a state
    assume "map_of (cd_agents d) aid = Some a" and "d' = set_lifecycle aid a state d"
    then show ?thesis using set_lifecycle_keeps by simp
  qed simp
  then show "refs_ok d \<Longrightarrow> refs_ok d'" "models_ok d \<Longrightarrow> models_ok d'" by blast+
qed

lemma resource_edit_keeps:
  assumes "same_but_resources d d'" and "grows (cd_resources d) (cd_resources d')"
  shows "refs_ok d \<Longrightarrow> refs_ok d'" "models_ok d \<Longrightarrow> models_ok d'"
  using refs_grow_resources [OF assms] models_same_resources [OF assms(1)] by blast+

definition refs_models :: "catalog_doc \<Rightarrow> bool" where
  "refs_models d \<longleftrightarrow> refs_ok d \<and> models_ok d"

lemma edit_refs: "catalog_edit d d' \<Longrightarrow> unique_names d \<Longrightarrow> refs_models d \<Longrightarrow> refs_models d'"
proof (induction rule: catalog_edit.induct)
  case (model mid v d d')
  then show ?case by (simp add: refs_models_def put_model_keeps [OF model(1)])
next
  case (imported replace items d d')
  from import_each_same [OF imported(1)] import_each_ok [OF imported(1)] imported(3) show ?case by (auto simp: refs_models_def intro: refs_same)
next
  case (dropped mid d d')
  then show ?case by (simp add: refs_models_def drop_model_keeps [OF dropped(1)])
next
  case (draft aid d cfg d')
  then show ?case by (simp add: refs_models_def put_draft_ok [OF draft(2)])
next
  case (copied aid d fresh source d')
  then show ?case by (simp add: refs_models_def copy_into_keeps [OF copied(4,3,2)])
next
  case (restored tid aid ms rs now d d')
  then show ?case by (simp add: refs_models_def restore_template_keeps [OF restored(1)])
next
  case (resource rid v d old dr)
  then show ?case by (simp add: refs_models_def resource_edit_keeps [OF resource_edits(1) resource_with_grows [OF resource(1)]])
next
  case (arranged rid act d d')
  then show ?case by (simp add: refs_models_def lifecycle_step_refs [OF arranged(1)] models_same_resources [OF resource_edits(5) [OF arranged(1)]])
next
  case (skill rid owner meta blobs d d')
  then show ?case by (simp add: refs_models_def resource_edit_keeps [OF resource_edits(2) [OF skill(1)] put_skill_grows [OF skill(1)]])
next
  case (copied_resource source rid owner d d')
  then show ?case by (simp add: refs_models_def resource_edit_keeps [OF resource_edits(3) [OF copied_resource(1)] put_copy_grows [OF copied_resource(1)]])
next
  case (published rid original checked now d n d')
  then show ?case by (simp add: refs_models_def resource_edit_keeps [OF resource_edits(4) [OF published(1)] append_version_grows [OF published(1)]])
next
  case (lived fingerprint path_ok aid q now d d')
  then show ?case by (simp add: refs_models_def change_lifecycle_keeps [OF lived(1,2)])
qed (simp_all add: refs_models_def)

lemma commit_keeps:
  assumes c: "commit_version rid now d = Inr (n, d')" and cur: "current_release rid d" and num: "numbers_ok d"
  shows "refs_ok d \<Longrightarrow> refs_ok d'" "models_ok d \<Longrightarrow> models_ok d'"
proof -
  have "(refs_ok d \<longrightarrow> refs_ok d') \<and> (models_ok d \<longrightarrow> models_ok d')"
    using c
  proof (rule commit_version_cases)
    fix v d1
    assume v: "map_of (cd_releases d) rid = Some v" and c1: "commit_content v now d = Inr d1" and d': "d' = put_release rid (v\<lparr>rl_committed := True\<rparr>) d1"
    have valid: "\<forall>cfg path. rl_content v = AgentRelease cfg path \<longrightarrow> validate_agent d (rl_target v) cfg = Inr ()"
      using cur v by (auto simp: current_release_def)
    have "rl_number v = next_number (rl_old_active v)" using num v by (simp add: numbers_ok_def releases_numbered_def)
    then show ?thesis
      using commit_content_refs [OF c1 _ valid] commit_content_models [OF c1 _ num _ valid] by (simp add: d')
  qed simp
  then show "refs_ok d \<Longrightarrow> refs_ok d'" "models_ok d \<Longrightarrow> models_ok d'" by blast+
qed

lemma reachable_refs: "catalog_reachable guarded d \<Longrightarrow> guarded \<Longrightarrow> refs_models d"
proof (induction rule: catalog_reachable.induct)
  case start
  show ?case by (simp add: empty_catalog_def refs_ok_def models_ok_def refs_models_def)
next
  case (edited d d')
  then show ?case using edit_refs reachable_numbers by (metis resources_good_def)
next
  case (committed d rid now n d')
  then show ?case using commit_keeps reachable_numbers by (metis refs_models_def)
qed

section \<open>Owners\<close>

definition resource_kinds :: "string set" where
  "resource_kinds = {''skill'', ''mcp'', ''hook''}"

definition resource_typed :: "string set \<Rightarrow> string \<Rightarrow> catalog_resource \<Rightarrow> bool" where
  "resource_typed agents rid r \<longleftrightarrow> cr_id r = rid \<and> cr_kind r \<in> resource_kinds \<and> (\<forall>aid. cr_owner r = Some aid \<longrightarrow> aid \<in> agents)"

definition resources_typed :: "string set \<Rightarrow> (string, catalog_resource) dict \<Rightarrow> bool" where
  "resources_typed agents res \<longleftrightarrow> (\<forall>rid r. map_of res rid = Some r \<longrightarrow> resource_typed agents rid r)"

definition agent_ids :: "catalog_doc \<Rightarrow> string set" where
  "agent_ids d = dom (map_of (cd_agents d))"

definition catalog_typed :: "catalog_doc \<Rightarrow> bool" where
  "catalog_typed d \<longleftrightarrow> resources_typed (agent_ids d) (cd_resources d)"

lemma resources_typed_mono: "resources_typed agents res \<Longrightarrow> agents \<subseteq> agents' \<Longrightarrow> resources_typed agents' res"
  by (fastforce simp: resources_typed_def resource_typed_def)

lemma resources_typed_dput: "resources_typed agents res \<Longrightarrow> resource_typed agents rid r \<Longrightarrow> resources_typed agents (dput rid r res)"
  by (simp add: resources_typed_def)

lemma resources_typedD: "resources_typed agents res \<Longrightarrow> map_of res rid = Some r \<Longrightarrow> resource_typed agents rid r"
  by (simp add: resources_typed_def)

lemma copy_bindings_typed:
  "copy_bindings fresh source aid bs res = Inr (bs', res') \<Longrightarrow> resources_typed agents res \<Longrightarrow> aid \<in> agents \<Longrightarrow> resources_typed agents res'"
proof (induction fresh source aid bs res arbitrary: bs' res' rule: copy_bindings.induct)
  case (2 fresh source aid rid n bs res)
  from "2.prems"(1) obtain bs1 and r0 :: catalog_resource where r0: "map_of res rid = Some r0"
    and rest: "copy_bindings fresh source aid bs (if cr_owner r0 = Some source then dput (fresh (length bs)) (r0\<lparr>cr_id := fresh (length bs), cr_owner := Some aid\<rparr>) res else res) = Inr (bs1, res')"
    by (auto simp: exc_simps Let_def split: option.splits prod.splits)
  have "resource_typed agents (fresh (length bs)) (r0\<lparr>cr_id := fresh (length bs), cr_owner := Some aid\<rparr>)"
    using resources_typedD [OF "2.prems"(2) r0] "2.prems"(3) by (simp add: resource_typed_def)
  then show ?case
    by (intro "2.IH" [OF r0 refl refl rest _ "2.prems"(3)]) (simp add: resources_typed_dput "2.prems"(2))
qed simp

lemma put_draft_agents: "put_draft aid cfg d = Inr d' \<Longrightarrow> agent_ids d' = insert aid (agent_ids d) \<and> cd_resources d' = cd_resources d"
  by (auto simp: put_draft_def exc_simps agent_ids_def)

lemma owner_ready_known: "owner_ready d owner unknown = Inr () \<Longrightarrow> owner = Some aid \<Longrightarrow> aid \<in> agent_ids d"
  by (auto simp: owner_ready_def exc_simps agent_ids_def)

lemma put_resource_typed:
  "catalog_typed d \<Longrightarrow> resource_typed (agent_ids d) rid r \<Longrightarrow> catalog_typed (put_resource rid r d)"
  by (simp add: catalog_typed_def agent_ids_def put_resource_def resources_typed_dput)

lemma resource_with_typed:
  assumes "resource_head rid value d = Inr old" and "catalog_typed d"
  shows "resource_typed (agent_ids d) rid (resource_with rid value old dr)"
proof (cases old)
  case None
  with assms(1) show ?thesis
    using owner_ready_known by (fastforce simp: resource_head_def Let_def exc_simps resource_with_def resource_typed_def resource_kinds_def)
next
  case (Some r)
  with assms(1) have "map_of (cd_resources d) rid = Some r" by (auto simp: resource_head_def Let_def exc_simps)
  from resources_typedD [OF assms(2) [unfolded catalog_typed_def] this] show ?thesis by (simp add: resource_with_def Some resource_typed_def)
qed

lemma put_skill_typed: "put_skill rid owner meta blobs d = Inr d' \<Longrightarrow> catalog_typed d \<Longrightarrow> catalog_typed d'"
  by (cases "map_of (cd_resources d) rid")
    (auto simp: put_skill_def Let_def exc_simps resource_typed_def resource_kinds_def catalog_typed_def intro!: put_resource_typed [unfolded catalog_typed_def]
      dest: owner_ready_known resources_typedD)

lemma put_copy_typed:
  assumes "put_copy source rid owner d = Inr d'" and typed: "catalog_typed d"
  shows "catalog_typed d'"
proof -
  from assms(1) obtain r :: catalog_resource where r: "map_of (cd_resources d) source = Some r"
    and owner: "\<forall>aid. owner = Some aid \<longrightarrow> aid \<in> agent_ids d"
    and d': "d' = put_resource rid (r\<lparr>cr_id := rid, cr_owner := owner, cr_archived := False\<rparr>) d"
    by (auto simp: put_copy_def exc_simps agent_ids_def split: option.splits)
  from resources_typedD [OF typed [unfolded catalog_typed_def] r] owner show ?thesis
    unfolding d' by (intro put_resource_typed [OF typed]) (simp add: resource_typed_def)
qed

lemma append_version_typed: "append_version rid original checked now d = Inr (n, d') \<Longrightarrow> catalog_typed d \<Longrightarrow> catalog_typed d'"
  by (auto simp: append_version_def Let_def exc_simps resource_typed_def catalog_typed_def intro!: put_resource_typed [unfolded catalog_typed_def]
      dest: resources_typedD split: option.splits)

lemma lifecycle_step_typed:
  assumes "lifecycle_step rid act d = Inr d'" and typed: "catalog_typed d"
  shows "catalog_typed d'"
proof -
  from assms(1) obtain r :: catalog_resource where r: "map_of (cd_resources d) rid = Some r"
    and d': "d' = put_resource rid (r\<lparr>cr_archived := (act = ''archive'')\<rparr>) d \<or> d' = d\<lparr>cd_resources := dpop rid (cd_resources d)\<rparr>"
    by (auto simp: lifecycle_step_def exc_simps split: option.splits if_splits)
  from resources_typedD [OF typed [unfolded catalog_typed_def] r]
  have "catalog_typed (put_resource rid (r\<lparr>cr_archived := (act = ''archive'')\<rparr>) d)"
    by (intro put_resource_typed [OF typed]) (simp add: resource_typed_def)
  moreover have "catalog_typed (d\<lparr>cd_resources := dpop rid (cd_resources d)\<rparr>)"
    using typed by (simp add: catalog_typed_def resources_typed_def agent_ids_def)
  ultimately show ?thesis using d' by auto
qed

lemma remove_agent_typed:
  assumes "unique_names d" and "catalog_typed d"
  shows "catalog_typed (remove_agent aid request now d)"
  unfolding catalog_typed_def resources_typed_def
proof (intro allI impI)
  fix rid r
  assume "map_of (cd_resources (remove_agent aid request now d)) rid = Some r"
  then have r: "map_of (cd_resources d) rid = Some r" and o: "cr_owner r \<noteq> Some aid"
    by (auto simp: remove_agent_resources [OF assms(1)] split: option.splits if_splits)
  have "agent_ids (remove_agent aid request now d) = agent_ids d - {aid}" by (auto simp: agent_ids_def remove_agent_def)
  with resources_typedD [OF assms(2) [unfolded catalog_typed_def] r] o
  show "resource_typed (agent_ids (remove_agent aid request now d)) rid r" by (auto simp: resource_typed_def)
qed

lemma typed_draft:
  assumes "put_draft aid cfg d = Inr d'" and "catalog_typed d"
  shows "catalog_typed d'"
  using put_draft_agents [OF assms(1)] resources_typed_mono [OF assms(2) [unfolded catalog_typed_def], of "insert aid (agent_ids d)"]
  by (auto simp: catalog_typed_def)

lemma typed_same: "agent_ids d' = agent_ids d \<Longrightarrow> cd_resources d' = cd_resources d \<Longrightarrow> catalog_typed d \<Longrightarrow> catalog_typed d'"
  by (simp add: catalog_typed_def)

lemma edit_typed: "catalog_edit d d' \<Longrightarrow> unique_names d \<Longrightarrow> catalog_typed d \<Longrightarrow> catalog_typed d'"
proof (induction rule: catalog_edit.induct)
  case (model mid v d d')
  then have "agent_ids d' = agent_ids d \<and> cd_resources d' = cd_resources d"
    by (auto simp: put_model_def Let_def exc_simps agent_ids_def simp del: preserve_secrets.simps)
  with model(3) show ?case by (blast intro: typed_same)
next
  case (imported replace items d d')
  from import_each_same [OF imported(1)] imported(3) show ?case by (auto simp: agent_ids_def intro: typed_same)
next
  case (dropped mid d d')
  then show ?case by (auto simp: drop_model_def exc_simps agent_ids_def intro: typed_same)
next
  case (copied aid d fresh source d')
  from copied(4) obtain src bs res and cfg where copy: "copy_bindings fresh source aid bs (cd_resources d) = Inr (fst res, snd res)"
    and p: "put_draft aid cfg (d\<lparr>cd_resources := snd res\<rparr>) = Inr d'"
    by (fastforce simp: copy_into_def exc_simps split: option.splits)
  from copied(6) have "resources_typed (insert aid (agent_ids d)) (cd_resources d)" unfolding catalog_typed_def by (rule resources_typed_mono) blast
  from copy_bindings_typed [OF copy this] put_draft_agents [OF p] show ?case by (simp add: catalog_typed_def agent_ids_def)
next
  case (restored tid aid ms rs now d d')
  from restored(1) obtain cfg d1 where "put_draft aid cfg d = Inr d1" and "cd_agents d' = cd_agents d1" and "cd_resources d' = cd_resources d1"
    by (rule restore_template_cases)
  with restored(3) show ?case using typed_draft typed_same by (metis agent_ids_def)
next
  case (resource rid v d old dr)
  then show ?case by (intro put_resource_typed resource_with_typed)
next
  case (lived fingerprint path_ok aid q now d d')
  from lived(1) show ?case
  proof (rule change_lifecycle_cases)
    fix a state
    assume a: "map_of (cd_agents d) aid = Some a" and d': "d' = set_lifecycle aid a state d"
    have "agent_ids d' = agent_ids d" using a by (auto simp: d' set_lifecycle_def agent_ids_def)
    with lived(3) show ?thesis by (auto simp: d' set_lifecycle_def intro: typed_same)
  qed (use lived(2,3) remove_agent_typed in simp_all)
qed (auto simp: put_release_def agent_ids_def intro: typed_draft typed_same put_skill_typed put_copy_typed append_version_typed lifecycle_step_typed)

lemma commit_typed: "commit_version rid now d = Inr (n, d') \<Longrightarrow> catalog_typed d \<Longrightarrow> catalog_typed d'"
proof (erule commit_version_cases)
  fix v d1
  assume c: "commit_content v now d = Inr d1" and d': "d' = put_release rid (v\<lparr>rl_committed := True\<rparr>) d1" and ok: "catalog_typed d"
  from c have "agent_ids d1 = agent_ids d \<and> cd_resources d1 = cd_resources d"
    by (cases rule: commit_content_cases) (auto simp: agent_ids_def)
  with ok show "catalog_typed d'" by (auto simp: d' put_release_def agent_ids_def intro: typed_same)
qed simp

lemma reachable_typed: "catalog_reachable guarded d \<Longrightarrow> catalog_typed d"
proof (induction rule: catalog_reachable.induct)
  case start
  show ?case by (simp add: empty_catalog_def catalog_typed_def resources_typed_def)
next
  case (edited d d')
  then show ?case using edit_typed reachable_numbers by (metis resources_good_def)
next
  case (committed d rid now n d')
  then show ?case using commit_typed by blast
qed

end
