(* ===== verification/CatalogCalls.thy ===== *)
theory CatalogCalls
  imports CatalogInvariants
begin

text \<open>
  What the operations of the catalog promise to their callers: the operations are edits, the invariants hold
  of whatever they produce, publishing takes effect, and which native requests an Agent is allowed. A small
  catalog with one model, one MCP server and one Agent shows that the statements apply.
\<close>

section \<open>A small catalog\<close>

definition demo_config :: agent_config where
  "demo_config = \<lparr>ac_name = ''a'', ac_description = [], ac_enabled = True, ac_instructions = ''i'', ac_allowed = Some [''m''],
     ac_default = Some ''m'', ac_small = None, ac_cpu = Some 2, ac_memory = None, ac_bindings = Some [(''r'', 1)]\<rparr>"

definition demo_request :: resource_request where
  "demo_request = \<lparr>sr_kind = ''mcp'', sr_name = ''tool'', sr_owner = None, sr_archived = False, sr_data = []\<rparr>"

definition demo_draft :: catalog_resource where
  "demo_draft = resource_with ''r'' demo_request None ([], [])"

definition demo_models :: catalog_doc where
  "demo_models = empty_catalog\<lparr>cd_models := [(''m'', demo_model ''m'' [])]\<rparr>"

definition demo_published :: catalog_doc where
  "demo_published = put_resource ''r'' (demo_draft\<lparr>cr_versions := [\<lparr>vn_number = 1, vn_created = 0, vn_data = [], vn_files = []\<rparr>]\<rparr>) (put_resource ''r'' demo_draft demo_models)"

definition demo_agents :: catalog_doc where
  "demo_agents = demo_published\<lparr>cd_agents := [(''a'', \<lparr>ag_draft = demo_config, ag_versions = [], ag_active = None, ag_lifecycle = ''active''\<rparr>)]\<rparr>"

lemmas demo_doc_defs = demo_models_def demo_published_def demo_agents_def demo_draft_def demo_request_def demo_config_def empty_catalog_def
  put_resource_def resource_with_def nonempty_def

lemma demo_model_enabled: "model_enabled (demo_model i es)" "jget (demo_model i es) ''provider'' \<noteq> JStr ''legacy''"
  by (simp_all add: demo_model_def model_enabled_def dget_def jget_def)

lemma demo_mask: "''m'' \<noteq> MASK" "''g'' \<noteq> MASK" "''k'' \<noteq> MASK" "''openai'' \<noteq> MASK"
  by (simp_all add: MASK_def numeral_eq_Suc)

lemma demo_put_model: "put_model ''m'' (demo_model ''m'' []) empty_catalog = Inr demo_models"
proof -
  have p: "preserve_secrets (JObj (demo_model ''m'' [])) (JObj []) = Inr (JObj (demo_model ''m'' []))"
    by (simp add: demo_model_def demo_mask exc_simps previous_fields_def items_by_id_def jget_def dget_def Let_def)
  have i: "platform_identifier (JStr ''m'') = Inr ''m''" by (simp add: platform_identifier_def platform_id_def char_class_defs)
  have s: "dput ''id'' (JStr ''m'') (demo_model ''m'' []) = demo_model ''m'' []" by (simp add: demo_model_def)
  show ?thesis
    by (simp only: put_model_def empty_catalog_def Let_def) (simp add: p i s demo_model_valid demo_model_enabled demo_models_def empty_catalog_def exc_simps
        del: preserve_secrets.simps)
qed

lemma demo_reachable:
  "catalog_reachable guarded demo_models" "catalog_reachable guarded demo_published" "catalog_reachable guarded demo_agents"
proof -
  show m: "catalog_reachable guarded demo_models"
    by (rule edited [OF start catalog_edit.model [OF demo_put_model]])
  have "resource_head ''r'' demo_request demo_models = Inr None"
    by (simp add: resource_head_def demo_doc_defs owner_ready_def platform_identifier_def platform_id_def char_class_defs)
  from edited [OF m catalog_edit.resource [OF this, of "([], [])"]] have r: "catalog_reachable guarded (put_resource ''r'' demo_draft demo_models)"
    by (simp add: demo_draft_def)
  have "append_version ''r'' demo_draft ([], []) 0 (put_resource ''r'' demo_draft demo_models) = Inr (1, demo_published)"
    by (simp add: append_version_def same_draft_def demo_published_def put_resource_def) (simp add: demo_draft_def resource_with_def demo_request_def)
  from edited [OF r catalog_edit.published [OF this]] show p: "catalog_reachable guarded demo_published" .
  have "editable ''a'' demo_published = Inr ()" by (simp add: editable_def retired_id_def deleting_def demo_doc_defs)
  moreover have "put_draft ''a'' demo_config demo_published = Inr demo_agents"
    by (simp add: put_draft_def validate_agent_def demo_agents_def demo_doc_defs demo_model_enabled allowed_of_def bindings_of_def resource_version_def)
  ultimately show "catalog_reachable guarded demo_agents" by (intro edited [OF p] catalog_edit.draft)
qed

text \<open>The model is published to the gateway, then a release of the Agent is prepared.\<close>

definition demo_gateway_release :: catalog_release where
  "demo_gateway_release = \<lparr>rl_target = ''*'', rl_number = 1, rl_content = GatewayRelease [(''m'', demo_model ''m'' [])]
     [Managed \<lparr>model_name = ''m'', litellm_params = [(''model'', JStr ''openai/g''), (''api_key'', JStr ''k'')], model_info_id = ''m''\<rparr>],
     rl_revision = 3, rl_old_active = None, rl_committed = False\<rparr>"

definition demo_gateway :: catalog_doc where
  "demo_gateway = put_release ''g'' (demo_gateway_release\<lparr>rl_committed := True\<rparr>) ((put_release ''g'' demo_gateway_release demo_agents)
     \<lparr>cd_gateway_versions := [\<lparr>gn_number = 1, gn_created = 0, gn_models = [(''m'', demo_model ''m'' [])]\<rparr>], cd_gateway_active := Some 1\<rparr>)"

definition demo_release :: catalog_release where
  "demo_release = \<lparr>rl_target = ''a'', rl_number = 1, rl_content = AgentRelease demo_config ''/p'', rl_revision = 5, rl_old_active = None, rl_committed = False\<rparr>"

lemma demo_prepare_gateway: "prepare_gateway [] 3 ''*'' None demo_agents = Inr demo_gateway_release"
proof -
  have e: "gateway_entries [] True (demo_model ''m'' []) =
      Inr [Managed \<lparr>model_name = ''m'', litellm_params = [(''model'', JStr ''openai/g''), (''api_key'', JStr ''k'')], model_info_id = ''m''\<rparr>]"
  proof -
    have "jindex (demo_model ''m'' []) ''id'' = Inr (JStr ''m'')" "jget (demo_model ''m'' []) ''legacy'' = JNull"
      by (simp_all add: demo_model_def jindex_def jget_def dget_def)
    then show ?thesis by (simp add: gateway_entries_def demo_model_enabled demo_entries)
  qed
  show ?thesis
    by (simp add: prepare_gateway_def active_of_def gateway_models_def nonzero_def demo_doc_defs uses_missing_def active_config_def gateway_configuration_def e demo_gateway_release_def)
qed

lemma demo_gateway_reachable: "catalog_reachable guarded demo_gateway"
proof -
  let ?d = "put_release ''g'' demo_gateway_release demo_agents"
  have d: "catalog_reachable guarded ?d" by (rule edited [OF demo_reachable(3) catalog_edit.prepared_gateway [OF demo_prepare_gateway]])
  have "commit_version ''g'' 0 ?d = Inr (1, demo_gateway)"
    by (simp add: commit_version_def put_release_def commit_content_def demo_gateway_release_def demo_gateway_def) (simp add: demo_doc_defs)
  moreover have "current_release ''g'' ?d" by (simp add: current_release_def put_release_def demo_gateway_release_def)
  ultimately show ?thesis using committed [OF d] by blast
qed

lemma demo_prepare_agent: "prepare_agent (\<lambda>_. Inr ''/p'') 5 ''a'' None demo_gateway = Inr demo_release"
proof -
  have i: "platform_identifier (JStr ''a'') = Inr ''a''" by (simp add: platform_identifier_def platform_id_def char_class_defs)
  have m: "available_models demo_gateway = [(''m'', demo_model ''m'' [])]" by (simp add: available_models_def demo_gateway_def put_release_def)
  have a: "map_of (cd_agents demo_gateway) ''a'' = Some \<lparr>ag_draft = demo_config, ag_versions = [], ag_active = None, ag_lifecycle = ''active''\<rparr>"
    by (simp add: demo_gateway_def put_release_def demo_agents_def)
  have v: "validate_agent demo_gateway ''a'' demo_config = Inr ()"
    by (simp add: validate_agent_def demo_gateway_def put_release_def demo_doc_defs demo_model_enabled allowed_of_def bindings_of_def resource_version_def)
  show ?thesis
    by (simp add: prepare_agent_def nonzero_def i a m v compile_agent_def demo_release_def enabled_models_def demo_model_enabled) (simp add: demo_config_def allowed_of_def)
qed

section \<open>What every catalog satisfies\<close>

text \<open>C33: as long as no release is committed after what it was prepared from became unacceptable, every
  model an Agent may use (in its draft or its active version) exists and is enabled when the Agent is, and
  every resource version that any draft or published version binds can be looked up and belongs to everyone or
  to that Agent.\<close>

theorem references_resolve:
  assumes "catalog_reachable True d" and "map_of (cd_agents d) aid = Some a"
  shows "(\<forall>cfg \<in> set (live_configs a). \<forall>mid \<in> set (allowed_of cfg). \<exists>m. map_of (cd_models d) mid = Some m \<and> (ac_enabled cfg \<longrightarrow> model_enabled m))
    \<and> (\<forall>cfg \<in> set (all_configs a). \<forall>(rid, n) \<in> set (bindings_of cfg). \<exists>r v. resource_version d rid n = Inr (r, v) \<and> cr_owner r \<in> {None, Some aid})"
proof -
  from reachable_refs [OF assms(1)] have ok: "refs_ok d" "models_ok d" by (simp_all add: refs_models_def)
  have "\<forall>cfg \<in> set (live_configs a). served (cd_models d) cfg" using ok(2) assms(2) by (auto simp: models_ok_def)
  moreover have "\<exists>r v. resource_version d (fst b) (snd b) = Inr (r, v) \<and> cr_owner r \<in> {None, Some aid}"
    if "cfg \<in> set (all_configs a)" "b \<in> set (bindings_of cfg)" for cfg b
    by (rule binding_ok_version) (use refs_okD [OF ok(1) assms(2) that(1)] that(2) in \<open>simp add: config_ok_def\<close>)
  ultimately show ?thesis by (fastforce simp: served_def)
qed

theorem references_resolve_witness:
  "\<exists>r v. resource_version demo_agents ''r'' 1 = Inr (r, v) \<and> cr_owner r \<in> {None, Some ''a''}"
proof -
  let ?a = "\<lparr>ag_draft = demo_config, ag_versions = [], ag_active = None, ag_lifecycle = ''active''\<rparr> :: catalog_agent"
  have "map_of (cd_agents demo_agents) ''a'' = Some ?a" by (simp add: demo_agents_def)
  from references_resolve [OF demo_reachable(3) this] have "\<forall>cfg \<in> set (all_configs ?a). \<forall>(rid, n) \<in> set (bindings_of cfg).
      \<exists>r v. resource_version demo_agents rid n = Inr (r, v) \<and> cr_owner r \<in> {None, Some ''a''}" by (rule conjunct2)
  then show ?thesis by (simp add: all_configs_def demo_config_def bindings_of_def)
qed

text \<open>C34: in every catalog that edits and commits lead to, the versions of an Agent, of the model gateway and of a
  resource are numbered 1, 2, ... without gaps, and the last one of an Agent and of the gateway is the active
  one; without versions none is active.\<close>

theorem versions_numbered:
  assumes "catalog_reachable guarded d"
  shows "map gn_number (cd_gateway_versions d) = [1..<Suc (length (cd_gateway_versions d))]
    \<and> cd_gateway_active d = (if cd_gateway_versions d = [] then None else Some (length (cd_gateway_versions d)))
    \<and> (\<forall>aid a. map_of (cd_agents d) aid = Some a \<longrightarrow> map an_number (ag_versions a) = [1..<Suc (length (ag_versions a))]
         \<and> active_config a = (if ag_versions a = [] then None else Some (an_config (last (ag_versions a)))))
    \<and> (\<forall>rid r. map_of (cd_resources d) rid = Some r \<longrightarrow> map vn_number (cr_versions r) = [1..<Suc (length (cr_versions r))])"
proof -
  from reachable_numbers [OF assms] have n: "numbers_ok d" by blast
  have "map an_number (ag_versions a) = [1..<Suc (length (ag_versions a))]
      \<and> active_config a = (if ag_versions a = [] then None else Some (an_config (last (ag_versions a))))"
    if "map_of (cd_agents d) aid = Some a" for aid a
  proof -
    from n that have "numbered an_number (ag_versions a) (ag_active a)" by (auto simp: numbers_ok_def agents_numbered_def)
    then show ?thesis using active_config_last by (auto simp: numbered_def counted_up_def)
  qed
  then show ?thesis using n by (auto simp: numbers_ok_def gateway_numbered_def resources_numbered_def numbered_def counted_up_def)
qed

theorem versions_numbered_witness: "map vn_number (cr_versions (the (map_of (cd_resources demo_published) ''r''))) = [1]"
  using versions_numbered [OF demo_reachable(2) [of True]] by (simp add: demo_doc_defs)

text \<open>C39: a resource's ID, kind and owner are sound in every catalog: it is stored under its ID, it is a Skill,
  an MCP server or a hook, and a private resource belongs to an Agent that exists.\<close>

theorem resources_are_typed:
  assumes "catalog_reachable guarded d" and "map_of (cd_resources d) rid = Some r"
  shows "cr_id r = rid \<and> cr_kind r \<in> {''skill'', ''mcp'', ''hook''} \<and> (\<forall>aid. cr_owner r = Some aid \<longrightarrow> map_of (cd_agents d) aid \<noteq> None)"
  using resources_typedD [OF reachable_typed [OF assms(1), unfolded catalog_typed_def] assms(2)]
  by (auto simp: resource_typed_def resource_kinds_def agent_ids_def)

theorem resources_are_typed_witness:
  "\<exists>r. map_of (cd_resources demo_published) ''r'' = Some r \<and> cr_kind r \<in> {''skill'', ''mcp'', ''hook''}"
proof -
  obtain r :: catalog_resource where r: "map_of (cd_resources demo_published) ''r'' = Some r" by (simp add: demo_published_def put_resource_def)
  from resources_are_typed [OF demo_reachable(2) [of True] r] r show ?thesis by blast
qed

text \<open>C35: what a published version of a resource contains never changes: after any edit or commit that keeps the
  resource, looking the version up gives the same version.\<close>

theorem published_version_fixed:
  assumes "catalog_reachable guarded d" and "catalog_edit d d' \<or> commit_version release now d = Inr (k, d')"
    and "resource_version d rid n = Inr (r, v)" and "map_of (cd_resources d') rid = Some r'"
  shows "resource_version d' rid n = Inr (r', v)"
proof -
  from assms(2) have "published_kept d d'" using edit_published commit_published reachable_numbers [OF assms(1)] by blast
  moreover have "map_of (cd_resources d) rid = Some r" using resource_version_Inr [OF assms(3)] by simp
  ultimately have "prefix (cr_versions r) (cr_versions r')" using assms(4) unfolding published_kept_def by blast
  then obtain more_versions where more: "cr_versions r' = cr_versions r @ more_versions" by (auto simp: prefix_def)
  from assms(3) have "find (\<lambda>w. vn_number w = n) (cr_versions r) = Some v"
    by (auto simp: resource_version_def split: option.splits)
  then show ?thesis using assms(4) by (simp add: resource_version_def more find_kept)
qed

theorem published_version_fixed_witness:
  "\<exists>r'. resource_version (put_resource ''r'' (demo_draft\<lparr>cr_archived := True,
      cr_versions := [\<lparr>vn_number = 1, vn_created = 0, vn_data = [], vn_files = []\<rparr>]\<rparr>) demo_published) ''r'' 1
    = Inr (r', \<lparr>vn_number = 1, vn_created = 0, vn_data = [], vn_files = []\<rparr>)"
proof -
  let ?v = "\<lparr>vn_number = 1, vn_created = 0, vn_data = [], vn_files = []\<rparr> :: published_version"
  let ?d = "put_resource ''r'' (demo_draft\<lparr>cr_archived := True, cr_versions := [?v]\<rparr>) demo_published"
  have step: "lifecycle_step ''r'' ''archive'' demo_published = Inr ?d"
    by (simp add: lifecycle_step_def demo_published_def put_resource_def) (simp add: demo_draft_def resource_with_def demo_request_def)
  have v: "resource_version demo_published ''r'' 1 = Inr (demo_draft\<lparr>cr_versions := [?v]\<rparr>, ?v)"
    by (simp add: resource_version_def demo_published_def put_resource_def)
  have r: "map_of (cd_resources ?d) ''r'' = Some (demo_draft\<lparr>cr_archived := True, cr_versions := [?v]\<rparr>)" by (simp add: put_resource_def)
  from published_version_fixed [OF demo_reachable(2) [of True] disjI1 [OF catalog_edit.arranged [OF step]] v r] show ?thesis by blast
qed

section \<open>The operations are edits\<close>

datatype catalog_call =
    SaveModel string jdict
  | ImportModels "jdict list" bool
  | DeleteModel string
  | SaveAgent string agent_config
  | RestoreAgent string string "(string, string) dict" "(string, binding) dict" rat
  | SaveResource string resource_request
  | ResourceLifecycle string string
  | UploadSkill string string string "string option"
  | CopyResource string string "string option"
  | AgentLifecycle string lifecycle_request rat

text \<open>The operations that are one transaction; \<open>digest\<close>, \<open>open_zip\<close>, \<open>fingerprint\<close> and \<open>path_ok\<close> stand for
  SHA-256, the archive reader, and the checks of a lifecycle change.\<close>

record catalog_services =
  sv_digest :: "string \<Rightarrow> string"
  sv_zip :: "string \<Rightarrow> zip_entry list res"
  sv_fingerprint :: "catalog_agent \<Rightarrow> (string, catalog_resource) dict \<Rightarrow> string"
  sv_path_ok :: "agent_version \<Rightarrow> bool"

fun transact :: "catalog_services \<Rightarrow> catalog_call \<Rightarrow> nat option \<Rightarrow> unit cx" where
  "transact sv (SaveModel mid m) expected = save_model mid m expected"
| "transact sv (ImportModels items replace) expected = import_models items replace expected"
| "transact sv (DeleteModel mid) expected = delete_model mid expected"
| "transact sv (SaveAgent aid cfg) expected = save_agent aid cfg expected"
| "transact sv (RestoreAgent tid aid ms rs now) expected = restore_agent tid aid ms rs now"
| "transact sv (SaveResource rid q) expected = save_resource (sv_digest sv) rid q expected"
| "transact sv (ResourceLifecycle rid act) expected = resource_lifecycle rid act expected"
| "transact sv (UploadSkill rid filename content owner) expected = upload_skill (sv_zip sv) (sv_digest sv) rid filename content owner expected"
| "transact sv (CopyResource source rid owner) expected = copy_resource source rid owner expected"
| "transact sv (AgentLifecycle aid q now) expected = agent_lifecycle (sv_fingerprint sv) (sv_path_ok sv) aid q expected now"

lemma edit_Inr:
  "edit expected m s = (Inr x, t) \<longleftrightarrow> (expected = None \<or> expected = Some (cat_revision s)) \<and>
     (\<exists>u. m s = (Inr x, u) \<and> t = u\<lparr>cat_revision := cat_revision s + 1\<rparr>)"
  by (auto simp: edit_def split: prod.splits sum.splits if_splits)

lemma edit_Inl: "edit expected m s = (Inl e, t) \<Longrightarrow> cat_revision t = cat_revision s \<and> cat_doc t = cat_doc s"
  by (auto simp: edit_def split: prod.splits sum.splits if_splits)

lemma change_Inr: "change f s = (Inr x, t) \<longleftrightarrow> (\<exists>d. f (cat_doc s) = Inr d \<and> t = s\<lparr>cat_doc := d\<rparr>)"
  by (auto simp: change_def on_doc_def ebind_def split: sum.splits prod.splits)

text \<open>Computations that only add blobs.\<close>

definition only_blobs :: "catalog_store \<Rightarrow> catalog_store \<Rightarrow> bool" where
  "only_blobs s t \<longleftrightarrow> cat_doc t = cat_doc s \<and> cat_revision t = cat_revision s \<and> map_of (cat_blobs s) \<subseteq>\<^sub>m map_of (cat_blobs t)"

definition adds_blobs :: "'a cx \<Rightarrow> bool" where
  "adds_blobs m \<longleftrightarrow> (\<forall>s r t. m s = (r, t) \<longrightarrow> only_blobs s t)"

lemma only_blobs_refl [simp]: "only_blobs s s"
  by (simp add: only_blobs_def)

lemma only_blobs_trans: "only_blobs s t \<Longrightarrow> only_blobs t u \<Longrightarrow> only_blobs s u"
  by (auto simp: only_blobs_def intro: map_le_trans)

lemma adds_blobsD: "adds_blobs m \<Longrightarrow> m s = (r, t) \<Longrightarrow> only_blobs s t"
  by (simp add: adds_blobs_def)

lemma adds_blobs_bind:
  assumes "adds_blobs m" and "\<And>x. adds_blobs (f x)"
  shows "adds_blobs (sx_bind m f)"
  unfolding adds_blobs_def
proof (intro allI impI)
  fix s r t
  assume "sx_bind m f s = (r, t)"
  then consider e where "m s = (Inl e, t)" | x u where "m s = (Inr x, u)" and "f x u = (r, t)" by (auto simp: sx_bind_outcome)
  then show "only_blobs s t"
  proof cases
    case 1
    with adds_blobsD [OF assms(1)] show ?thesis by blast
  next
    case (2 x u)
    show ?thesis by (rule only_blobs_trans [OF adds_blobsD [OF assms(1) 2(1)] adds_blobsD [OF assms(2) 2(2)]])
  qed
qed

lemma adds_blobs_simple [simp]: "adds_blobs (sx_return x)" "adds_blobs (sx_raise e)" "adds_blobs (sx_of_res r)" "adds_blobs (sx_lift f)"
  by (auto simp: adds_blobs_def sx_return_def sx_raise_def sx_of_res_def sx_lift_def split: sum.splits)

lemma adds_blobs_blob [simp]: "adds_blobs (blob digest c)"
  by (auto simp: adds_blobs_def blob_def only_blobs_def map_le_def)

lemma adds_blobs_sources [simp]: "adds_blobs (store_sources digest xs files)"
  by (induction xs arbitrary: files) (auto intro!: adds_blobs_bind)

lemma adds_blobs_files [simp]: "adds_blobs (store_files digest xs)"
  by (induction xs) (auto intro!: adds_blobs_bind)

lemma adds_blobs_draft [simp]: "adds_blobs (resource_draft digest old q)"
  by (auto simp: resource_draft_def hook_draft_def Let_def intro!: adds_blobs_bind split: if_splits)

text \<open>An outcome of an operation: an accepted edit with the next revision, or nothing but blobs.\<close>

definition edited_or_not :: "'a + 'b \<Rightarrow> catalog_store \<Rightarrow> catalog_store \<Rightarrow> bool" where
  "edited_or_not r s t \<longleftrightarrow> map_of (cat_blobs s) \<subseteq>\<^sub>m map_of (cat_blobs t) \<and>
     (case r of Inl e \<Rightarrow> cat_doc t = cat_doc s \<and> cat_revision t = cat_revision s
      | Inr x \<Rightarrow> catalog_edit (cat_doc s) (cat_doc t) \<and> cat_revision t = Suc (cat_revision s))"

definition checks :: "nat option \<Rightarrow> catalog_store \<Rightarrow> bool" where
  "checks expected s \<longleftrightarrow> expected = None \<or> expected = Some (cat_revision s)"

lemma edit_change_outcome:
  assumes "edit expected (change f) s = (r, t)" and "\<And>d. f (cat_doc s) = Inr d \<Longrightarrow> catalog_edit (cat_doc s) d"
  shows "edited_or_not r s t" "\<exists>x. r = Inr x \<Longrightarrow> checks expected s"
  using assms by (auto simp: edit_def change_def on_doc_def ebind_def edited_or_not_def checks_def split: if_splits sum.splits prod.splits)

lemma then_of_res_outcome:
  assumes "sx_then (sx_of_res q) m s = (r, t)" and "m s = (r, t) \<Longrightarrow> edited_or_not r s t"
  shows "edited_or_not r s t"
  using assms by (cases q) (auto simp: sx_then_def sx_bind_of_res edited_or_not_def)

lemma after_blobs: "only_blobs s u \<Longrightarrow> edited_or_not r u t \<Longrightarrow> edited_or_not r s t"
  by (auto simp: only_blobs_def edited_or_not_def intro: map_le_trans split: sum.splits)

lemma save_resource_outcome:
  assumes "save_resource digest rid q expected s = (r, t)"
  shows "edited_or_not r s t"
  using assms unfolding save_resource_def
proof (rule then_of_res_outcome)
  let ?m = "sx_bind (sx_lift (\<lambda>s. resource_head rid q (cat_doc s))) (\<lambda>old. sx_bind (resource_draft digest old q) (\<lambda>draft.
    change (\<lambda>doc. Inr (put_resource rid (resource_with rid q old draft) doc))))"
  assume e: "edit expected ?m s = (r, t)"
  show "edited_or_not r s t"
  proof (cases "resource_head rid q (cat_doc s)")
    case (Inl x)
    then have "?m s = (Inl x, s)" by (simp add: sx_bind_lift)
    with e show ?thesis by (auto simp: edit_def edited_or_not_def split: if_splits)
  next
    case (Inr old)
    obtain rd u where d: "resource_draft digest old q s = (rd, u)" by (cases "resource_draft digest old q s")
    from adds_blobsD [OF adds_blobs_draft d] have b: "only_blobs s u" .
    from Inr d have "?m s = (case rd of Inl x \<Rightarrow> (Inl x, u) | Inr dr \<Rightarrow> (Inr (), u\<lparr>cat_doc := put_resource rid (resource_with rid q old dr) (cat_doc u)\<rparr>))"
      by (auto simp: sx_bind_lift sx_bind_def [of "resource_draft digest old q"] change_def on_doc_def split: sum.splits)
    with e b catalog_edit.resource [OF Inr] show ?thesis
      by (auto simp: edit_def edited_or_not_def only_blobs_def split: if_splits sum.splits)
  qed
qed

lemma upload_skill_outcome:
  assumes "upload_skill open_zip digest rid filename content owner expected s = (r, t)"
  shows "edited_or_not r s t"
  using assms unfolding upload_skill_def
proof (rule then_of_res_outcome)
  assume u: "sx_bind (sx_of_res (unpack_skill open_zip filename content)) (\<lambda>(meta, files).
     sx_bind (store_files digest files) (\<lambda>blobs. edit expected (change (put_skill rid (nonempty owner) meta blobs)))) s = (r, t)"
  show "edited_or_not r s t"
  proof (cases "unpack_skill open_zip filename content")
    case (Inl e)
    with u show ?thesis by (auto simp: sx_bind_of_res edited_or_not_def)
  next
    case (Inr p)
    obtain meta files where p: "p = (meta, files)" by (cases p)
    obtain rf s1 where f: "store_files digest files s = (rf, s1)" by (cases "store_files digest files s")
    from adds_blobsD [OF adds_blobs_files f] have b: "only_blobs s s1" .
    show ?thesis
    proof (cases rf)
      case (Inl e)
      with u Inr p f b show ?thesis by (auto simp: sx_bind_of_res sx_bind_def [of "store_files digest files"] edited_or_not_def only_blobs_def)
    next
      case (Inr blobs)
      with u \<open>unpack_skill open_zip filename content = Inr p\<close> p f
      have "edit expected (change (put_skill rid (nonempty owner) meta blobs)) s1 = (r, t)"
        by (simp add: sx_bind_of_res sx_bind_def [of "store_files digest files"])
      from after_blobs [OF b edit_change_outcome(1) [OF this]] show ?thesis using catalog_edit.skill by blast
    qed
  qed
qed

text \<open>Only the restoration of a template does not take the revision its caller saw.\<close>

definition names_revision :: "catalog_call \<Rightarrow> bool" where
  "names_revision c \<longleftrightarrow> (case c of RestoreAgent tid aid ms rs now \<Rightarrow> False | _ \<Rightarrow> True)"

lemma transact_current: "transact sv c expected s = (Inr x, t) \<Longrightarrow> names_revision c \<Longrightarrow> expected \<in> {None, Some (cat_revision s)}"
proof (cases c)
  case (UploadSkill rid filename content owner)
  assume "transact sv c expected s = (Inr x, t)"
  then obtain files blobs u k where "store_files (sv_digest sv) files s = (Inr blobs, u)"
    and e: "expected = None \<or> expected = Some (cat_revision u)"
    by (auto simp: UploadSkill upload_skill_def sx_then_Inr sx_bind_Inr sx_of_res_Inr edit_Inr split: prod.splits)
  with adds_blobsD [OF adds_blobs_files, of "sv_digest sv" files s] show ?thesis by (auto simp: only_blobs_def)
qed (auto simp: names_revision_def save_model_def import_models_def delete_model_def save_agent_def save_resource_def resource_lifecycle_def
    copy_resource_def agent_lifecycle_def sx_then_Inr sx_of_res_Inr edit_Inr split: if_splits)


definition demo_services :: catalog_services where
  "demo_services = \<lparr>sv_digest = (\<lambda>x. x), sv_zip = (\<lambda>_. Inr []), sv_fingerprint = (\<lambda>_ _. []), sv_path_ok = (\<lambda>_. True)\<rparr>"


section \<open>Publishing an Agent\<close>

definition requested_config :: "catalog_agent \<Rightarrow> nat option \<Rightarrow> agent_config option" where
  "requested_config a version = (case nonzero version of None \<Rightarrow> Some (ag_draft a)
     | Some n \<Rightarrow> map_option an_config (find (\<lambda>v. an_number v = n) (ag_versions a)))"

lemma prepare_agent_content:
  assumes "prepare_agent written revision target version d = Inr v"
  obtains a cfg path where "map_of (cd_agents d) target = Some a" and "requested_config a version = Some cfg"
    and "rl_content v = AgentRelease cfg path" and "rl_target v = target" and "\<not> rl_committed v" and "rl_old_active v = ag_active a"
  using assms by (auto simp: prepare_agent_def exc_simps requested_config_def split: option.splits)

text \<open>C37: a prepared release of an Agent takes effect: whatever is edited after its preparation, as long as the
  release is registered and no other version was activated, committing it succeeds, makes the configuration that
  was requested the active one under the next number, and committing it again changes nothing.\<close>

theorem prepared_release_takes_effect:
  assumes "prepare_agent written revision target version d = Inr v"
    and "catalog_reachable guarded d1" and "map_of (cd_releases d1) rid = Some v"
    and "map_of (cd_agents d1) target = Some a1" and "ag_active a1 = rl_old_active v"
  shows "\<exists>d2 a a2 cfg. commit_version rid now d1 = Inr (rl_number v, d2)
    \<and> map_of (cd_agents d) target = Some a \<and> requested_config a version = Some cfg
    \<and> map_of (cd_agents d2) target = Some a2 \<and> active_config a2 = Some cfg
    \<and> ag_active a2 = Some (Suc (length (ag_versions a1))) \<and> ag_draft a2 = ag_draft a1
    \<and> commit_version rid later d2 = Inr (rl_number v, d2)"
proof -
  from assms(1) obtain a cfg path where a: "map_of (cd_agents d) target = Some a" "requested_config a version = Some cfg"
    and v: "rl_content v = AgentRelease cfg path" "rl_target v = target" "\<not> rl_committed v"
    by (rule prepare_agent_content)
  let ?w = "\<lparr>an_number = rl_number v, an_created = now, an_config = cfg, an_path = path\<rparr>"
  let ?a = "a1\<lparr>ag_versions := ag_versions a1 @ [?w], ag_active := Some (rl_number v)\<rparr>"
  let ?d = "put_release rid (v\<lparr>rl_committed := True\<rparr>) (d1\<lparr>cd_agents := dput target ?a (cd_agents d1)\<rparr>)"
  from reachable_numbers [OF assms(2)] have n: "numbers_ok d1" by blast
  then have num: "numbered an_number (ag_versions a1) (ag_active a1)" using assms(4) by (auto simp: numbers_ok_def agents_numbered_def)
  from n assms(3,5) have next_v: "rl_number v = next_number (ag_active a1)" by (simp add: numbers_ok_def releases_numbered_def)
  from active_config_appended [OF num, of ?w] next_v have "active_config ?a = Some cfg" by simp
  moreover have "rl_number v = Suc (length (ag_versions a1))" using numbered_next [OF num] next_v by simp
  moreover have "commit_version rid now d1 = Inr (rl_number v, ?d)"
    using assms(3-5) v by (simp add: commit_version_def commit_content_def)
  moreover have "commit_version rid later ?d = Inr (rl_number v, ?d)" by (simp add: commit_version_def put_release_def)
  ultimately show ?thesis using a by (intro exI [of _ ?d] exI [of _ a] exI [of _ ?a] exI [of _ cfg]) (simp add: put_release_def)
qed

definition demo_pending :: catalog_doc where
  "demo_pending = put_release ''p'' demo_release demo_gateway"

lemma demo_pending_reachable: "catalog_reachable guarded demo_pending"
  unfolding demo_pending_def by (rule edited [OF demo_gateway_reachable catalog_edit.prepared_agent [OF demo_prepare_agent]])

lemma demo_pending_agent:
  "map_of (cd_agents demo_pending) ''a'' = Some \<lparr>ag_draft = demo_config, ag_versions = [], ag_active = None, ag_lifecycle = ''active''\<rparr>"
  by (simp add: demo_pending_def demo_gateway_def put_release_def demo_agents_def)

theorem prepared_release_takes_effect_witness:
  "\<exists>d a. commit_version ''p'' 7 demo_pending = Inr (1, d) \<and> map_of (cd_agents d) ''a'' = Some a \<and> active_config a = Some demo_config"
proof -
  have r: "map_of (cd_releases demo_pending) ''p'' = Some demo_release" by (simp add: demo_pending_def put_release_def)
  from prepared_release_takes_effect [OF demo_prepare_agent demo_pending_reachable [of True] r demo_pending_agent, of 7 8]
  have "\<exists>d2 a a2 cfg. commit_version ''p'' 7 demo_pending = Inr (1, d2) \<and> map_of (cd_agents demo_gateway) ''a'' = Some a
      \<and> requested_config a None = Some cfg \<and> map_of (cd_agents d2) ''a'' = Some a2 \<and> active_config a2 = Some cfg"
    by (fastforce simp: demo_release_def)
  then show ?thesis by (auto simp: requested_config_def nonzero_def demo_gateway_def put_release_def demo_agents_def)
qed

section \<open>A release that became unacceptable\<close>

text \<open>\<open>commit_release\<close> checks neither the revision nor the release's configuration again. Between the preparation and
  the commit the draft can let go of a resource, which can then be deleted: the committed version binds a
  resource that does not exist.\<close>

definition demo_unbound :: catalog_doc where
  "demo_unbound = demo_pending\<lparr>cd_agents := [(''a'', \<lparr>ag_draft = demo_config\<lparr>ac_bindings := Some []\<rparr>, ag_versions = [], ag_active = None, ag_lifecycle = ''active''\<rparr>)]\<rparr>"

lemma stale_release_dangles:
  "\<exists>d a. catalog_reachable False d \<and> map_of (cd_agents d) ''a'' = Some a \<and> active_config a = Some demo_config
    \<and> (''r'', 1) \<in> set (bindings_of demo_config) \<and> resource_version d ''r'' 1 = Inl (fail ''Resource not found'' 404)"
proof -
  have e: "editable ''a'' demo_pending = Inr ()"
    by (simp add: editable_def retired_id_def deleting_def demo_pending_agent) (simp add: demo_pending_def demo_gateway_def put_release_def demo_doc_defs)
  have "cd_models demo_pending = [(''m'', demo_model ''m'' [])]" by (simp add: demo_pending_def demo_gateway_def put_release_def demo_doc_defs)
  then have "put_draft ''a'' (demo_config\<lparr>ac_bindings := Some []\<rparr>) demo_pending = Inr demo_unbound"
    by (simp add: put_draft_def demo_pending_agent validate_agent_def demo_config_def allowed_of_def bindings_of_def demo_model_enabled)
      (simp add: demo_unbound_def demo_config_def demo_pending_def demo_gateway_def put_release_def demo_agents_def)
  from edited [OF demo_pending_reachable catalog_edit.draft [OF e this]] have u: "catalog_reachable False demo_unbound" .
  let ?r = "demo_draft\<lparr>cr_archived := True, cr_versions := [\<lparr>vn_number = 1, vn_created = 0, vn_data = [], vn_files = []\<rparr>]\<rparr>"
  let ?archived = "demo_unbound\<lparr>cd_resources := [(''r'', ?r)]\<rparr>" and ?deleted = "demo_unbound\<lparr>cd_resources := []\<rparr>"
  have res: "cd_resources demo_unbound = [(''r'', demo_draft\<lparr>cr_versions := [\<lparr>vn_number = 1, vn_created = 0, vn_data = [], vn_files = []\<rparr>]\<rparr>)]"
    by (simp add: demo_unbound_def demo_pending_def demo_gateway_def put_release_def demo_agents_def demo_published_def put_resource_def demo_models_def empty_catalog_def)
  have "lifecycle_step ''r'' ''archive'' demo_unbound = Inr ?archived"
    by (simp add: lifecycle_step_def res put_resource_def)
  from edited [OF u catalog_edit.arranged [OF this]] have x: "catalog_reachable False ?archived" .
  have "cd_templates demo_unbound = []" and agents: "cd_agents demo_unbound =
      [(''a'', \<lparr>ag_draft = demo_config\<lparr>ac_bindings := Some []\<rparr>, ag_versions = [], ag_active = None, ag_lifecycle = ''active''\<rparr>)]"
    by (simp_all add: demo_unbound_def demo_pending_def demo_gateway_def put_release_def demo_agents_def demo_published_def put_resource_def
        demo_models_def empty_catalog_def)
  then have "lifecycle_step ''r'' ''delete'' ?archived = Inr ?deleted"
    by (simp add: lifecycle_step_def resource_references_def binds_def all_configs_def bindings_of_def dpop_def)
  from edited [OF x catalog_edit.arranged [OF this]] have y: "catalog_reachable False ?deleted" .
  have "cd_releases demo_unbound = [(''g'', demo_gateway_release\<lparr>rl_committed := True\<rparr>), (''p'', demo_release)]"
    by (simp add: demo_unbound_def demo_pending_def demo_gateway_def put_release_def demo_agents_def demo_published_def put_resource_def
        demo_models_def empty_catalog_def)
  then obtain d where c: "commit_version ''p'' 7 ?deleted = Inr (1, d)" and d: "cd_resources d = []"
      and a: "map_of (cd_agents d) ''a'' = Some \<lparr>ag_draft = demo_config\<lparr>ac_bindings := Some []\<rparr>,
        ag_versions = [\<lparr>an_number = 1, an_created = 7, an_config = demo_config, an_path = ''/p''\<rparr>], ag_active = Some 1, ag_lifecycle = ''active''\<rparr>"
    by (simp add: commit_version_def commit_content_def demo_release_def agents put_release_def)
  have "catalog_reachable False d" by (rule committed [OF y c]) simp
  moreover have "(''r'', 1) \<in> set (bindings_of demo_config)" by (simp add: bindings_of_def demo_config_def)
  moreover have "resource_version d ''r'' 1 = Inl (fail ''Resource not found'' 404)" by (simp add: resource_version_def d)
  ultimately show ?thesis using a by (fastforce simp: active_config_def)
qed

section \<open>Native requests\<close>

lemma check_model_Inr: "check_model cfg m = Inr () \<Longrightarrow> truthy m \<Longrightarrow>
    \<exists>mid \<in> set (allowed_of cfg). model_pair m = Inr (JStr ''cloud-model-gateway'', JStr mid)"
  by (auto simp: check_model_def exc_simps)

lemma turn_names_model:
  "mutates meth \<Longrightarrow> starts_turn path \<Longrightarrow> truthy (selected_model (with_default_model cfg meth path (JObj b)))"
  by (auto simp: with_default_model_def selected_model_def Let_def)

text \<open>C38: a native request is admitted only to an Agent with an active version that is not being deleted; work only
  to one that is enabled and not archived; configuration paths only for reading. A model that the request names is
  assigned to the Agent, and a request that starts a turn always names one once the default is filled in.\<close>

theorem authorized_request_is_allowed:
  assumes "authorize_agent d aid meth path payload = Inr (work, payload')"
  shows "\<exists>a cfg. map_of (cd_agents d) aid = Some a \<and> active_config a = Some cfg \<and> ag_lifecycle a \<noteq> ''deleting''
    \<and> (work \<longrightarrow> ag_lifecycle a \<noteq> ''archived'' \<and> ac_enabled cfg)
    \<and> (managed_path path \<longrightarrow> reads_only meth)
    \<and> (truthy (selected_model payload') \<longrightarrow>
         (\<exists>mid \<in> set (allowed_of cfg). model_pair (selected_model payload') = Inr (JStr ''cloud-model-gateway'', JStr mid)))
    \<and> (mutates meth \<and> starts_turn path \<and> is_JObj payload \<longrightarrow> truthy (selected_model payload'))"
proof -
  from assms obtain a cfg where a: "map_of (cd_agents d) aid = Some a" "active_config a = Some cfg" "ag_lifecycle a \<noteq> ''deleting''"
    and work: "work \<longrightarrow> ag_lifecycle a \<noteq> ''archived'' \<and> ac_enabled cfg" and managed: "managed_path path \<longrightarrow> reads_only meth"
    and p: "payload' = with_default_model cfg meth path payload" and m: "check_model cfg (selected_model payload') = Inr ()"
    by (auto simp: authorize_agent_def Let_def exc_simps split: option.splits)
  have "truthy (selected_model payload')" if "mutates meth \<and> starts_turn path \<and> is_JObj payload"
    using that turn_names_model p by (cases payload) auto
  with a work managed check_model_Inr [OF m] show ?thesis by blast
qed

definition demo_live :: catalog_doc where
  "demo_live = empty_catalog\<lparr>cd_agents := [(''a'', \<lparr>ag_draft = demo_config,
     ag_versions = [\<lparr>an_number = 1, an_created = 7, an_config = demo_config, an_path = ''/p''\<rparr>], ag_active = Some 1, ag_lifecycle = ''active''\<rparr>)]\<rparr>"

theorem authorized_request_is_allowed_witness:
  "\<exists>payload'. authorize_agent demo_live ''a'' ''POST'' ''session/s/message'' (JObj []) = Inr (True, payload')
    \<and> (\<exists>mid \<in> set (allowed_of demo_config). model_pair (selected_model payload') = Inr (JStr ''cloud-model-gateway'', JStr mid))"
proof -
  let ?p = "JObj [(''model'', JObj [(''providerID'', JStr ''cloud-model-gateway''), (''modelID'', JStr ''m'')])]"
  have p: "with_default_model demo_config ''POST'' ''session/s/message'' (JObj []) = ?p"
    by (simp add: with_default_model_def demo_config_def mutates_def reads_only_def starts_turn_def segment_is_def ends_with_def jget_def dget_def)
  have run: "authorize_agent demo_live ''a'' ''POST'' ''session/s/message'' (JObj []) = Inr (True, ?p)"
    by (simp add: authorize_agent_def demo_live_def active_config_def p mutates_def reads_only_def ends_with_def answers_request_def managed_path_def
        starts_with_def check_model_def selected_model_def jget_def dget_def model_pair_def)
      (simp add: demo_config_def allowed_of_def)
  obtain a cfg where "map_of (cd_agents demo_live) ''a'' = Some a" and "active_config a = Some cfg"
    and "truthy (selected_model ?p) \<longrightarrow> (\<exists>mid \<in> set (allowed_of cfg). model_pair (selected_model ?p) = Inr (JStr ''cloud-model-gateway'', JStr mid))"
    using authorized_request_is_allowed [OF run] by blast
  then show ?thesis using run by (auto simp: demo_live_def active_config_def selected_model_def jget_def dget_def)
qed

text \<open>A reply to a permission or a question counts as an answer only under a path that starts with a slash; the
  router passes the path without one.\<close>

lemma native_replies_count_as_work:
  "\<not> answers_request ''permission/p/reply'' \<and> \<not> answers_request ''question/q/reject'' \<and> answers_request ''/permission/p/reply''"
  by (simp add: answers_request_def segment_is_def)

end
