(* ===== verification/LoadRunner.thy ===== *)
theory LoadRunner
  imports Capacity LoadTests
begin

text \<open>
  The runner of load tests: \<open>LoadTests\<close> of \<open>operations/src/load_tests.py\<close>. A test prepares its users in batches
  of four, starts all generations at once, and is finally destroyed on request. What the API of the
  platform answers, what the capacity and catalog calls return and the clock are arguments; a cancellation of
  the task is an outcome of what it waits for. The tasks of a batch run one after the other here: each
  writes only the row of its own user (\<open>child_of_user\<close>), so the order does not matter. A second cancellation while a
  task still settles its first one is not modelled.
\<close>

section \<open>Answers and errors\<close>

text \<open>An answer of the API: a status and the body when it is JSON, or a transport error by its class.\<close>

datatype http_answer = Http nat "json option" | Raises string

text \<open>\<open>error_code\<close>: of an error status, or of another exception by its class.\<close>

datatype failure = StatusError nat | Named string

fun error_code :: "failure \<Rightarrow> string" where
  "error_code (StatusError n) = ''HTTP_'' @ dec_nat n"
| "error_code (Named c) = c"

fun exc_class :: "exc \<Rightarrow> string" where
  "exc_class (TypeError _) = ''TypeError''" | "exc_class (AttributeError _) = ''AttributeError''" | "exc_class (KeyError _) = ''KeyError''"
| "exc_class (ValueError _) = ''ValueError''" | "exc_class (HTTPException _ _) = ''HTTPException''"
| "exc_class (IntegrityError _) = ''IntegrityError''" | "exc_class (WorkspacePathError _) = ''WorkspacePathError''"
| "exc_class (IndexError _) = ''IndexError''" | "exc_class (RuntimeError _) = ''RuntimeError''" | "exc_class (OSError _) = ''OSError''"
| "exc_class (FileNotFoundError _) = ''FileNotFoundError''" | "exc_class (FileExistsError _) = ''FileExistsError''"
| "exc_class (SandboxError _) = ''SandboxError''" | "exc_class (SandboxOwnershipError _) = ''SandboxOwnershipError''"
| "exc_class (SandboxNotReadyError _) = ''SandboxNotReadyError''" | "exc_class (DockerAPIError _) = ''APIError''" | "exc_class (DockerException _) = ''DockerException''"
| "exc_class (HTTPError _) = ''HTTPError''" | "exc_class CancelledError = ''CancelledError''"

definition response_json :: "http_answer \<Rightarrow> failure + json" where
  "response_json a = (case a of
     Raises c \<Rightarrow> Inl (Named c)
   | Http status body \<Rightarrow> if status < 200 \<or> 300 \<le> status then Inl (StatusError status)
       else (case body of None \<Rightarrow> Inl (Named ''JSONDecodeError'') | Some v \<Rightarrow> Inr v))"

definition created_session :: "http_answer \<Rightarrow> failure + string" where
  "created_session a = (case response_json a of
     Inl f \<Rightarrow> Inl f
   | Inr (JObj d) \<Rightarrow> (case jget d ''id'' of
       JStr sid \<Rightarrow> if starts_with sid ''ses_'' then Inr sid else Inl (Named ''ValueError'')
     | _ \<Rightarrow> Inl (Named ''ValueError''))
   | Inr _ \<Rightarrow> Inl (Named ''AttributeError''))"

section \<open>Preparing a user\<close>

text \<open>How the creation of a session ends: within the time, after it (the request is left to settle), with the task
  cancelled (likewise), or cancelled before the task began.\<close>

datatype creation = Settled http_answer | Late http_answer | CancelledWhile http_answer | NeverStarted

datatype generation = Answered http_answer bool | GaveUp bool | CancelledInFlight bool | NotSent

record user_run =
  ur_created :: creation
  ur_generated :: generation
  ur_prepare :: "rat \<times> rat"
  ur_generate :: "rat \<times> rat"

definition millis :: "rat \<times> rat \<Rightarrow> json" where
  "millis t = JFloat (py_round 2 ((snd t - fst t) * 1000))"

type_synonym 'a lx = "(ops_db, 'a) sx"

definition put_user :: "jdict \<Rightarrow> jdict \<Rightarrow> unit lx" where
  "put_user u values = writing (update_user (str_of (jget u ''username'')) None values)"

text \<open>\<open>key\<close> is the digest that names the sandbox of a user.\<close>

definition session_fields :: "(string \<Rightarrow> string \<Rightarrow> string) \<Rightarrow> jdict \<Rightarrow> string \<Rightarrow> jdict" where
  "session_fields key u sid = [(''session_id'', JStr sid),
     (''sandbox_id'', JStr (''sbx_'' @ key (str_of (jget u ''agent_id'')) (str_of (jget u ''username''))))]"

definition record_late :: "(string \<Rightarrow> string \<Rightarrow> string) \<Rightarrow> jdict \<Rightarrow> http_answer \<Rightarrow> unit lx" where
  "record_late key u a = (case created_session a of Inl _ \<Rightarrow> sx_return () | Inr sid \<Rightarrow> put_user u (session_fields key u sid))"

definition prepare_failed :: "user_run \<Rightarrow> string \<Rightarrow> string \<Rightarrow> jdict" where
  "prepare_failed r ph err = [(''phase'', JStr ph), (''error'', JStr err), (''prepare_ms'', millis (ur_prepare r)), (''finished_at'', JFloat (snd (ur_prepare r)))]"

definition prepare_user :: "(string \<Rightarrow> string \<Rightarrow> string) \<Rightarrow> user_run \<Rightarrow> jdict \<Rightarrow> unit lx" where
  "prepare_user key r u =
    (if ur_created r = NeverStarted then sx_raise CancelledError
     else sx_then (put_user u [(''phase'', JStr ''preparing''), (''prepare_started_at'', JFloat (fst (ur_prepare r)))])
       (case ur_created r of
          Settled a \<Rightarrow> (case created_session a of
              Inr sid \<Rightarrow> sx_then (put_user u (session_fields key u sid))
                (put_user u [(''phase'', JStr ''ready''), (''prepare_ms'', millis (ur_prepare r))])
            | Inl f \<Rightarrow> put_user u (prepare_failed r ''prepare_failed'' (error_code f)))
        | Late a \<Rightarrow> sx_then (record_late key u a) (put_user u (prepare_failed r ''prepare_failed'' ''PREPARE_TIMEOUT''))
        | CancelledWhile a \<Rightarrow> sx_then (record_late key u a)
            (sx_then (put_user u (prepare_failed r ''cancelled'' ''CANCELLED'')) (sx_raise CancelledError))
        | NeverStarted \<Rightarrow> sx_return ()))"

section \<open>Generating\<close>

text \<open>What an answered message says: the text of its parts, an error of the model, the tokens.\<close>

definition occurs_in :: "string \<Rightarrow> string \<Rightarrow> bool" where
  "occurs_in w s = list_ex (\<lambda>i. starts_with (drop i s) w) [0..<Suc (length s)]"

definition part_text :: "json \<Rightarrow> string res" where
  "part_text p =
    ebind (attr_get p ''type'' JNull) (\<lambda>t.
    if t \<noteq> JStr ''text'' then Inr []
    else ebind (attr_get p ''text'' (JStr [])) (\<lambda>v. case v of JStr s \<Rightarrow> Inr s | _ \<Rightarrow> Inl (TypeError ''join'')))"

definition token_count :: "json \<Rightarrow> string \<Rightarrow> json res" where
  "token_count tokens k = ebind (attr_get tokens k (JInt 0)) (\<lambda>v. Inr (if truthy v then v else JInt 0))"

definition message_fields :: "json \<Rightarrow> jdict res" where
  "message_fields body =
    ebind (attr_get body ''info'' (JObj [])) (\<lambda>info.
    ebind (attr_get body ''parts'' (JArr [])) (\<lambda>parts.
    ebind (jiter parts) (\<lambda>ps.
    ebind (emap part_text ps) (\<lambda>texts.
    ebind (attr_get info ''error'' JNull) (\<lambda>e1.
    ebind (if truthy e1 then Inr e1 else attr_get body ''error'' JNull) (\<lambda>e2.
    ebind (attr_get info ''tokens'' JNull) (\<lambda>t.
    let text = concat texts; tokens = (if truthy t then t else JObj []);
        err = (if truthy e2 then JStr ''MODEL_ERROR'' else if strip text = [] then JStr ''EMPTY_RESPONSE'' else JNull) in
    ebind (token_count tokens ''input'') (\<lambda>i.
    ebind (token_count tokens ''output'') (\<lambda>out.
    Inr [(''phase'', JStr (if err \<noteq> JNull then ''failed'' else ''succeeded'')), (''error'', err),
      (''response_matches'', JBool (occurs_in ''LOAD-TEST-OK'' text)), (''input_tokens'', i), (''output_tokens'', out)])))))))))"

definition generated_fields :: "http_answer \<Rightarrow> failure + jdict" where
  "generated_fields a = (case response_json a of
     Inl f \<Rightarrow> Inl f
   | Inr body \<Rightarrow> (case message_fields body of Inl e \<Rightarrow> Inl (Named (exc_class e)) | Inr d \<Rightarrow> Inr d))"

definition ended_fields :: "string \<Rightarrow> string \<Rightarrow> bool \<Rightarrow> jdict" where
  "ended_fields ph err aborted = [(''phase'', JStr ph), (''abort_confirmed'', JBool aborted), (''error'', JStr err)]"

definition generate_user :: "user_run \<Rightarrow> jdict \<Rightarrow> unit lx" where
  "generate_user r u =
    (if ur_generated r = NotSent then sx_raise CancelledError
     else sx_then (put_user u [(''phase'', JStr ''running''), (''sent_at'', JFloat (fst (ur_generate r)))])
       (sx_finally
         (case ur_generated r of
            Answered a aborted \<Rightarrow> (case generated_fields a of
                Inr d \<Rightarrow> put_user u d
              | Inl f \<Rightarrow> put_user u (ended_fields ''failed'' (error_code f) aborted))
          | GaveUp aborted \<Rightarrow> put_user u (ended_fields ''timed_out'' ''REQUEST_TIMEOUT'' aborted)
          | CancelledInFlight aborted \<Rightarrow> sx_then (put_user u (ended_fields ''cancelled'' ''CANCELLED'' aborted)) (sx_raise CancelledError)
          | NotSent \<Rightarrow> sx_return ())
         (put_user u [(''latency_ms'', millis (ur_generate r)), (''finished_at'', JFloat (snd (ur_generate r)))])))"

text \<open>\<open>_join\<close>: the first failure is raised once every task has settled.\<close>

fun join_all :: "(jdict \<Rightarrow> unit lx) \<Rightarrow> jdict list \<Rightarrow> unit lx" where
  "join_all f [] = sx_return ()"
| "join_all f (u # us) = (\<lambda>s. case f u s of (r, t) \<Rightarrow> (case join_all f us t of (r', v) \<Rightarrow>
     ((case r of Inl e \<Rightarrow> Inl e | Inr _ \<Rightarrow> r'), v)))"

section \<open>The run of a test\<close>

text \<open>\<open>LoadRequest.model_validate\<close> of the stored request: the fields of a dump, checked again.\<close>

definition int_field :: "jdict \<Rightarrow> string \<Rightarrow> int res" where
  "int_field d k = (case jget d k of JInt i \<Rightarrow> Inr i | _ \<Rightarrow> Inl (ValueError k))"

definition str_field :: "jdict \<Rightarrow> string \<Rightarrow> string res" where
  "str_field d k = (case jget d k of JStr s \<Rightarrow> Inr s | _ \<Rightarrow> Inl (ValueError k))"

definition agent_of :: "json \<Rightarrow> load_agent res" where
  "agent_of v = (let d = obj_of v in
    ebind (str_field d ''agent_id'') (\<lambda>aid. ebind (int_field d ''users'') (\<lambda>n.
    ebind (case num_of (jget d ''cpu_limit'') of None \<Rightarrow> Inl (ValueError ''cpu_limit'') | Some c \<Rightarrow> Inr c) (\<lambda>cpu.
    ebind (int_field d ''memory_mb'') (\<lambda>m. Inr \<lparr>la_agent = aid, la_users = n, la_cpu = cpu, la_memory = m\<rparr>)))))"

definition request_of :: "json \<Rightarrow> load_request res" where
  "request_of v = (let d = obj_of v in
    ebind (str_field d ''request_id'') (\<lambda>i. ebind (emap agent_of (arr_of (jget d ''agents''))) (\<lambda>as.
    ebind (int_field d ''timeout_seconds'') (\<lambda>t. ebind (int_field d ''prepare_timeout_seconds'') (\<lambda>p.
    let r = \<lparr>lr_request_id = i, lr_agents = as, lr_timeout = t, lr_prepare_timeout = p\<rparr> in
    if load_request_ok r then Inr r else Inl (ValueError ''LoadRequest''))))))"

text \<open>\<open>le_meanwhile\<close> is what other requests write while the run waits for the n-th time, \<open>le_checks\<close> the sample of the
  n-th capacity check with the time of its evaluation.\<close>

record load_env =
  le_key :: "string \<Rightarrow> string \<Rightarrow> string"
  le_catalog :: "json res"
  le_checks :: "nat \<Rightarrow> (json \<times> capacity \<times> rat) res"
  le_user :: "string \<Rightarrow> user_run"
  le_meanwhile :: "nat \<Rightarrow> ops_db \<Rightarrow> ops_db"
  le_times :: "rat \<times> rat \<times> rat"

definition meanwhile :: "load_env \<Rightarrow> nat \<Rightarrow> unit lx" where
  "meanwhile env n = sx_modify (le_meanwhile env n)"

definition demand_of :: "jdict \<Rightarrow> demand" where
  "demand_of u = \<lparr>dm_agent = str_of (jget u ''agent_id''), dm_cpu = (case num_of (jget u ''cpu_limit'') of None \<Rightarrow> 0 | Some c \<Rightarrow> c),
     dm_memory = (case jget u ''memory_mb'' of JInt m \<Rightarrow> m | _ \<Rightarrow> 0), dm_users = 1\<rparr>"

definition block_user :: "rat \<Rightarrow> jdict \<Rightarrow> unit lx" where
  "block_user now u = (if \<not> truthy (jget u ''username'') then sx_return ()
     else put_user u [(''phase'', JStr ''prepare_failed''), (''error'', JStr ''CAPACITY_BLOCKED''), (''finished_at'', JFloat now)])"

definition last_checks :: "jdict \<Rightarrow> json \<Rightarrow> json" where
  "last_checks d doc = (let samples = arr_of (dget d ''capacity_checks'' (JArr [])) @ [doc] in JArr (drop (length samples - 30) samples))"

definition capacity_check :: "load_env \<Rightarrow> nat \<Rightarrow> string \<Rightarrow> jdict list \<Rightarrow> unit lx" where
  "capacity_check env n rid users =
    sx_then (meanwhile env n)
    (sx_bind (sx_of_res (le_checks env n)) (\<lambda>(doc, snap, now).
     sx_bind (sx_lift (get_test rid)) (\<lambda>report.
     sx_then (writing (update_test rid None [(''capacity_checks'', last_checks (rp_doc report) doc)]))
     (case check_capacity now snap (map demand_of users) of
        Inr _ \<Rightarrow> sx_return ()
      | Inl e \<Rightarrow> sx_then (writing (update_test rid None [(''capacity_blocked'', JBool True)]))
          (sx_then (sx_for (block_user now) users) (sx_raise e))))))"

text \<open>Before every batch of four the capacity for all users still to come is checked.\<close>

function prepare_batches :: "load_env \<Rightarrow> string \<Rightarrow> nat \<Rightarrow> jdict list \<Rightarrow> nat lx" where
  "prepare_batches env rid n [] = sx_return n"
| "prepare_batches env rid n (u # us) =
    sx_then (capacity_check env n rid (u # us))
    (sx_then (join_all (\<lambda>v. prepare_user (le_key env) (le_user env (str_of (jget v ''username''))) v) (take 4 (u # us)))
    (sx_then (meanwhile env (Suc n))
    (prepare_batches env rid (n + 2) (drop 4 (u # us)))))"
  by pat_completeness auto
termination by (relation "measure (\<lambda>(env, rid, n, us). length us)") auto

definition generate_all :: "load_env \<Rightarrow> string \<Rightarrow> nat \<Rightarrow> jdict list \<Rightarrow> unit lx" where
  "generate_all env rid n ready =
    sx_then (writing (update_test rid (Some ''running'') [(''generation_started_at'', JFloat (fst (snd (le_times env))))]))
    (sx_then (join_all (\<lambda>v. generate_user (le_user env (str_of (jget v ''username''))) v) ready)
    (sx_then (meanwhile env n)
    (sx_bind (sx_lift (get_test rid)) (\<lambda>report.
     writing (update_test rid (Some (if list_all (phase_in [''succeeded'']) (rp_users report) then ''completed'' else ''completed_with_errors'')) [])))))"

definition run_users :: "load_env \<Rightarrow> string \<Rightarrow> jdict list \<Rightarrow> unit lx" where
  "run_users env rid users =
    sx_bind (prepare_batches env rid 1 users) (\<lambda>n.
    sx_then (capacity_check env n rid [])
    (sx_bind (sx_lift (get_test rid)) (\<lambda>report.
     let ready = filter (phase_in [''ready'']) (rp_users report) in
     if ready = [] then writing (update_test rid (Some ''failed'') [(''error'', JStr ''No sessions were prepared'')])
     else generate_all env rid (Suc n) ready)))"

definition load_body :: "load_env \<Rightarrow> string \<Rightarrow> unit lx" where
  "load_body env rid =
    sx_then (meanwhile env 0)
    (sx_bind (sx_of_res (le_catalog env)) (\<lambda>catalog.
     sx_bind (sx_lift (get_test rid)) (\<lambda>report.
     if jget (rp_doc report) ''status'' \<notin> JStr ` set ACTIVE then sx_return ()
     else sx_bind (sx_of_res (request_of (jget (rp_doc report) ''request''))) (\<lambda>request.
       sx_bind (sx_of_res (validate_agents request catalog)) (\<lambda>snapshots.
       if \<not> json_eq (JObj snapshots) (jget (rp_doc report) ''snapshots'')
       then sx_raise (HTTPException 409 ''Agent configuration changed before test start; create a new test'')
       else sx_then (writing (update_test rid (Some ''preparing'') [(''started_at'', JFloat (fst (le_times env)))]))
         (run_users env rid (rp_users report)))))))"

definition failure_text :: "exc \<Rightarrow> string" where
  "failure_text e = (case e of HTTPException _ detail \<Rightarrow> detail | _ \<Rightarrow> exc_class e)"

definition settle_run :: "string \<Rightarrow> exc \<Rightarrow> unit lx" where
  "settle_run rid e =
    (if e = CancelledError then sx_bind (sx_lift (get_test rid)) (\<lambda>report.
       writing (update_test rid (Some (if truthy (dget (rp_doc report) ''cancel_requested'' (JBool False)) then ''cancelled'' else ''interrupted'')) []))
     else writing (update_test rid (Some ''failed'') [(''error'', JStr (failure_text e))]))"

definition close_user :: "jdict \<Rightarrow> rat \<Rightarrow> jdict \<Rightarrow> unit lx" where
  "close_user doc now u = (if \<not> phase_in OPEN_PHASES u then sx_return ()
     else put_user u [(''phase'', JStr (if truthy (jget doc ''cancel_requested'') \<or> truthy (jget doc ''capacity_blocked'') then ''cancelled'' else ''interrupted'')),
       (''finished_at'', JFloat now)])"

definition close_run :: "rat \<Rightarrow> string \<Rightarrow> unit lx" where
  "close_run now rid =
    sx_bind (sx_lift (get_test rid)) (\<lambda>report.
    sx_then (sx_for (close_user (rp_doc report) now) (rp_users report))
    (writing (update_test rid None [(''finished_at'', JFloat now)])))"

definition run_test :: "load_env \<Rightarrow> string \<Rightarrow> unit lx" where
  "run_test env rid = sx_finally (sx_catch (load_body env rid) (\<lambda>e. Some (settle_run rid e))) (close_run (snd (snd (le_times env))) rid)"

end
