(* ===== verification/RunnerSafety.thy ===== *)
theory RunnerSafety
  imports LoadRunner
begin

text \<open>
  What the runner of load tests keeps of the store: the report of the test can always be read, each task
  touches only its own user, and however the run ends, the test and all of its users are settled.
\<close>

section \<open>Reports that can be read\<close>

definition numeric :: "json \<Rightarrow> bool" where
  "numeric v \<longleftrightarrow> num_of v \<noteq> None"

definition user_sound :: "jdict \<Rightarrow> bool" where
  "user_sound d \<longleftrightarrow> (jget d ''phase'' = JStr ''succeeded'' \<longrightarrow> numeric (jget d ''latency_ms''))
     \<and> (jget d ''sent_at'' = JNull \<or> numeric (jget d ''sent_at''))
     \<and> (truthy (jget d ''finished_at'') \<longrightarrow> numeric (jget d ''finished_at''))
     \<and> numeric (dget d ''input_tokens'' (JInt 0)) \<and> numeric (dget d ''output_tokens'' (JInt 0))"

lemma emap_total: "(\<And>x. x \<in> set xs \<Longrightarrow> \<exists>y. f x = Inr y) \<Longrightarrow> \<exists>ys. emap f xs = Inr ys"
  by (induction xs) fastforce+

lemma number_numeric: "numeric v \<Longrightarrow> \<exists>r. number v = Inr r"
  by (auto simp: numeric_def number_def)

lemma latency_present: "numeric (jget d k) \<Longrightarrow> \<exists>r. ebind (jindex d k) number = Inr r"
  by (cases "map_of d k") (auto simp: numeric_def jget_def dget_def jindex_def number_def split: option.splits)

lemma summarize_total:
  assumes "\<And>u. u \<in> set us \<Longrightarrow> user_sound u"
  shows "\<exists>s. summarize us = Inr s"
proof -
  obtain a where a: "emap (\<lambda>u. ebind (jindex u ''latency_ms'') number) (filter (phase_in [''succeeded'']) us) = Inr a"
    using emap_total [of "filter (phase_in [''succeeded'']) us" "\<lambda>u. ebind (jindex u ''latency_ms'') number"] assms latency_present
    by (auto simp: user_sound_def phase_in_def)
  obtain b where b: "emap (\<lambda>u. number (jget u ''sent_at'')) (filter (\<lambda>u. jget u ''sent_at'' \<noteq> JNull) us) = Inr b"
    using emap_total [of "filter (\<lambda>u. jget u ''sent_at'' \<noteq> JNull) us" "\<lambda>u. number (jget u ''sent_at'')"] assms number_numeric
    by (auto simp: user_sound_def)
  obtain c where c: "emap (\<lambda>u. number (jget u ''finished_at'')) (filter (\<lambda>u. truthy (jget u ''finished_at'')) (filter (\<lambda>u. jget u ''sent_at'' \<noteq> JNull) us)) = Inr c"
    using emap_total [of "filter (\<lambda>u. truthy (jget u ''finished_at'')) (filter (\<lambda>u. jget u ''sent_at'' \<noteq> JNull) us)" "\<lambda>u. number (jget u ''finished_at'')"]
      assms number_numeric by (auto simp: user_sound_def)
  obtain d where d: "emap (\<lambda>u. number (dget u ''input_tokens'' (JInt 0))) us = Inr d"
    using emap_total [of us "\<lambda>u. number (dget u ''input_tokens'' (JInt 0))"] assms number_numeric by (auto simp: user_sound_def)
  obtain e where e: "emap (\<lambda>u. number (dget u ''output_tokens'' (JInt 0))) us = Inr e"
    using emap_total [of us "\<lambda>u. number (dget u ''output_tokens'' (JInt 0))"] assms number_numeric by (auto simp: user_sound_def)
  show ?thesis unfolding summarize_def Let_def by (simp only: a b c d e ebind_Inr) simp
qed

text \<open>The rows of a test: its own row exists, its users are named by their rows, and their reports are readable.\<close>

definition of_test :: "string \<Rightarrow> ops_db \<Rightarrow> load_user_row list" where
  "of_test rid db = filter (\<lambda>u. lu_run u = rid) (load_users db)"

definition row_sound :: "load_user_row \<Rightarrow> bool" where
  "row_sound u \<longleftrightarrow> user_sound (lu_doc u) \<and> jget (lu_doc u) ''username'' = JStr (lu_name u)"

definition test_sound :: "string \<Rightarrow> string set \<Rightarrow> ops_db \<Rightarrow> bool" where
  "test_sound rid names db \<longleftrightarrow> find_row lt_id rid (load_rows db) \<noteq> None \<and> unique_key lu_name (load_users db)
     \<and> list_all row_sound (of_test rid db) \<and> lu_name ` set (of_test rid db) = names"

lemma user_view_sound: "user_sound (user_view u) \<longleftrightarrow> user_sound (lu_doc u)"
  by (simp add: user_sound_def user_view_def)

lemma view_jget: "k \<noteq> ''storage_state'' \<Longrightarrow> jget (user_view u) k = jget (lu_doc u) k"
  by (simp add: user_view_def)

lemma get_test_total:
  assumes "test_sound rid names db"
  obtains report row where "get_test rid db = Inr report" and "find_row lt_id rid (load_rows db) = Some row"
    and "rp_users report = report_users rid db" and "rp_doc report = dput ''status'' (JStr (lt_status row)) (lt_doc row)"
proof -
  from assms obtain row where row: "find_row lt_id rid (load_rows db) = Some row" by (auto simp: test_sound_def)
  have s: "user_sound u" if "u \<in> set (report_users rid db)" for u
    using assms that by (auto simp: report_users_def test_sound_def of_test_def row_sound_def list_all_iff user_view_sound)
  obtain total where t: "summarize (report_users rid db) = Inr total" using summarize_total s by blast
  have "\<exists>by_agent. emap (\<lambda>aid. ebind (summarize (filter (\<lambda>u. jget u ''agent_id'' = JStr aid) (report_users rid db))) (\<lambda>s. Inr (aid, s)))
      (dkeys (obj_of (jget (lt_doc row) ''snapshots''))) = Inr by_agent"
  proof (rule emap_total)
    fix aid
    show "\<exists>p. ebind (summarize (filter (\<lambda>u. jget u ''agent_id'' = JStr aid) (report_users rid db))) (\<lambda>s. Inr (aid, s)) = Inr p"
      using summarize_total [of "filter (\<lambda>u. jget u ''agent_id'' = JStr aid) (report_users rid db)"] s by fastforce
  qed
  then obtain by_agent where b: "emap (\<lambda>aid. ebind (summarize (filter (\<lambda>u. jget u ''agent_id'' = JStr aid) (report_users rid db))) (\<lambda>s. Inr (aid, s)))
      (dkeys (obj_of (jget (lt_doc row) ''snapshots''))) = Inr by_agent" by blast
  show thesis
    by (rule that [of "\<lparr>rp_doc = dput ''status'' (JStr (lt_status row)) (lt_doc row), rp_users = report_users rid db, rp_summary = total, rp_by_agent = by_agent\<rparr>" row])
      (simp_all add: get_test_def row t b Let_def)
qed

section \<open>A task writes only its own user\<close>

definition uname :: "jdict \<Rightarrow> string" where
  "uname u = str_of (jget u ''username'')"

definition upd_user :: "string \<Rightarrow> jdict \<Rightarrow> ops_db \<Rightarrow> ops_db" where
  "upd_user name values db = db\<lparr>load_users := update_rows lu_name name (set_user_row (None, values)) (load_users db)\<rparr>"

definition has_user :: "string \<Rightarrow> ops_db \<Rightarrow> bool" where
  "has_user name db \<longleftrightarrow> find_row lu_name name (load_users db) \<noteq> None"

lemma has_upd [simp]: "has_user n (upd_user name values db) = has_user n db"
proof -
  have "map lu_name (update_rows lu_name name (set_user_row (None, values)) (load_users db)) = map lu_name (load_users db)"
    by (rule map_update_rows) (simp add: set_user_row_def)
  from arg_cong [OF this, of set] show ?thesis by (simp add: has_user_def upd_user_def find_row_None)
qed

lemma upd_upd [simp]: "upd_user name w (upd_user name v db) = upd_user name (v @ w) db"
  by (auto simp: upd_user_def update_rows_def set_user_row_def dupdate_def)

lemma upd_nothing: "upd_user name [] db = db"
  by (simp add: upd_user_def update_rows_def set_user_row_def dupdate_def map_idI)

lemma put_user_upd: "has_user (uname u) db \<Longrightarrow> put_user u values db = (Inr (), upd_user (uname u) values db)"
  by (auto simp: put_user_def writing_def update_user_def has_user_def uname_def upd_user_def)

definition late_values :: "(string \<Rightarrow> string \<Rightarrow> string) \<Rightarrow> jdict \<Rightarrow> http_answer \<Rightarrow> jdict" where
  "late_values key u a = (case created_session a of Inl _ \<Rightarrow> [] | Inr sid \<Rightarrow> session_fields key u sid)"

definition prepare_values :: "(string \<Rightarrow> string \<Rightarrow> string) \<Rightarrow> user_run \<Rightarrow> jdict \<Rightarrow> jdict" where
  "prepare_values key r u = (if ur_created r = NeverStarted then [] else
     [(''phase'', JStr ''preparing''), (''prepare_started_at'', JFloat (fst (ur_prepare r)))] @
     (case ur_created r of
        Settled a \<Rightarrow> (case created_session a of
            Inr sid \<Rightarrow> session_fields key u sid @ [(''phase'', JStr ''ready''), (''prepare_ms'', millis (ur_prepare r))]
          | Inl f \<Rightarrow> prepare_failed r ''prepare_failed'' (error_code f))
      | Late a \<Rightarrow> late_values key u a @ prepare_failed r ''prepare_failed'' ''PREPARE_TIMEOUT''
      | CancelledWhile a \<Rightarrow> late_values key u a @ prepare_failed r ''cancelled'' ''CANCELLED''
      | NeverStarted \<Rightarrow> []))"

definition prepare_outcome :: "user_run \<Rightarrow> unit res" where
  "prepare_outcome r = (case ur_created r of Settled _ \<Rightarrow> Inr () | Late _ \<Rightarrow> Inr () | _ \<Rightarrow> Inl CancelledError)"

definition generate_values :: "user_run \<Rightarrow> jdict" where
  "generate_values r = (if ur_generated r = NotSent then [] else
     [(''phase'', JStr ''running''), (''sent_at'', JFloat (fst (ur_generate r)))] @
     (case ur_generated r of
        Answered a aborted \<Rightarrow> (case generated_fields a of Inr d \<Rightarrow> d | Inl f \<Rightarrow> ended_fields ''failed'' (error_code f) aborted)
      | GaveUp aborted \<Rightarrow> ended_fields ''timed_out'' ''REQUEST_TIMEOUT'' aborted
      | CancelledInFlight aborted \<Rightarrow> ended_fields ''cancelled'' ''CANCELLED'' aborted
      | NotSent \<Rightarrow> []) @
     [(''latency_ms'', millis (ur_generate r)), (''finished_at'', JFloat (snd (ur_generate r)))])"

definition generate_outcome :: "user_run \<Rightarrow> unit res" where
  "generate_outcome r = (case ur_generated r of Answered _ _ \<Rightarrow> Inr () | GaveUp _ \<Rightarrow> Inr () | _ \<Rightarrow> Inl CancelledError)"

lemma record_late_upd: "has_user (uname u) db \<Longrightarrow> record_late key u a db = (Inr (), upd_user (uname u) (late_values key u a) db)"
  by (auto simp: record_late_def late_values_def put_user_upd sx_return_def upd_nothing split: sum.splits)

text \<open>The steps of a task amount to one update of the row of its user and an outcome.\<close>

lemma prepare_of_user:
  "has_user (uname u) db \<Longrightarrow> prepare_user key r u db = (prepare_outcome r, upd_user (uname u) (prepare_values key r u) db)"
  by (cases "ur_created r")
    (auto simp: prepare_user_def prepare_outcome_def prepare_values_def sx_then_def sx_bind_def put_user_upd record_late_upd sx_raise_def upd_nothing
      split: sum.splits)

lemma generate_of_user:
  "has_user (uname u) db \<Longrightarrow> generate_user r u db = (generate_outcome r, upd_user (uname u) (generate_values r) db)"
  by (cases "ur_generated r")
    (auto simp: generate_user_def generate_outcome_def generate_values_def sx_then_def sx_bind_def sx_finally_def put_user_upd sx_raise_def upd_nothing
      split: sum.splits)

text \<open>So tasks of different users may run in any order.\<close>

lemma upd_commute: "m \<noteq> n \<Longrightarrow> upd_user m v (upd_user n w db) = upd_user n w (upd_user m v db)"
  by (auto simp: upd_user_def update_rows_def set_user_row_def)

section \<open>The test stays readable\<close>

text \<open>Values that keep a user readable and named.\<close>

definition safe_values :: "jdict \<Rightarrow> bool" where
  "safe_values vs \<longleftrightarrow> (\<forall>d. user_sound d \<longrightarrow> user_sound (dupdate d vs)) \<and> ''username'' \<notin> fst ` set vs"

lemma jget_dupdate: "jget (dupdate d vs) k = (case map_of (rev vs) k of None \<Rightarrow> jget d k | Some v \<Rightarrow> v)"
  by (simp add: jget_def dget_def map_of_dupdate map_add_def split: option.split)

lemma dget_dupdate: "dget (dupdate d vs) k x = (case map_of (rev vs) k of None \<Rightarrow> dget d k x | Some v \<Rightarrow> v)"
  by (simp add: dget_def map_of_dupdate map_add_def split: option.split)

lemma numeric_simps [simp]: "numeric (JFloat x)" "numeric (JInt i)" "numeric (millis t)"
  by (simp_all add: numeric_def millis_def)

lemma safe_valuesI:
  assumes "\<And>k v. map_of (rev vs) k = Some v \<Longrightarrow> k \<in> {''latency_ms'', ''sent_at'', ''finished_at'', ''input_tokens'', ''output_tokens''} \<Longrightarrow> numeric v"
    and "map_of (rev vs) ''phase'' = Some (JStr ''succeeded'') \<Longrightarrow> map_of (rev vs) ''latency_ms'' \<noteq> None" and "''username'' \<notin> fst ` set vs"
  shows "safe_values vs"
proof -
  have "user_sound (dupdate d vs)" if d: "user_sound d" for d
    unfolding user_sound_def jget_dupdate dget_dupdate
  proof (intro conjI)
    show "(case map_of (rev vs) ''phase'' of None \<Rightarrow> jget d ''phase'' | Some v \<Rightarrow> v) = JStr ''succeeded'' \<longrightarrow>
        numeric (case map_of (rev vs) ''latency_ms'' of None \<Rightarrow> jget d ''latency_ms'' | Some v \<Rightarrow> v)"
      using d assms(1) [of "''latency_ms''"] assms(2)
      by (cases "map_of (rev vs) ''latency_ms''"; cases "map_of (rev vs) ''phase''") (auto simp: user_sound_def)
    show "(case map_of (rev vs) ''sent_at'' of None \<Rightarrow> jget d ''sent_at'' | Some v \<Rightarrow> v) = JNull
        \<or> numeric (case map_of (rev vs) ''sent_at'' of None \<Rightarrow> jget d ''sent_at'' | Some v \<Rightarrow> v)"
      using d assms(1) [of "''sent_at''"] by (cases "map_of (rev vs) ''sent_at''") (simp_all add: user_sound_def)
    show "truthy (case map_of (rev vs) ''finished_at'' of None \<Rightarrow> jget d ''finished_at'' | Some v \<Rightarrow> v) \<longrightarrow>
        numeric (case map_of (rev vs) ''finished_at'' of None \<Rightarrow> jget d ''finished_at'' | Some v \<Rightarrow> v)"
      using d assms(1) [of "''finished_at''"] by (cases "map_of (rev vs) ''finished_at''") (simp_all add: user_sound_def)
    show "numeric (case map_of (rev vs) ''input_tokens'' of None \<Rightarrow> dget d ''input_tokens'' (JInt 0) | Some v \<Rightarrow> v)"
      using d assms(1) [of "''input_tokens''"] by (cases "map_of (rev vs) ''input_tokens''") (simp_all add: user_sound_def)
    show "numeric (case map_of (rev vs) ''output_tokens'' of None \<Rightarrow> dget d ''output_tokens'' (JInt 0) | Some v \<Rightarrow> v)"
      using d assms(1) [of "''output_tokens''"] by (cases "map_of (rev vs) ''output_tokens''") (simp_all add: user_sound_def)
  qed
  then show ?thesis using assms(3) by (simp add: safe_values_def)
qed

lemma safe_append: "safe_values v \<Longrightarrow> safe_values w \<Longrightarrow> safe_values (v @ w)"
  by (auto simp: safe_values_def dupdate_def)

lemma safe_simple:
  "safe_values []" "safe_values (session_fields key u sid)"
  "ph \<noteq> ''succeeded'' \<Longrightarrow> safe_values (prepare_failed r ph err)"
  "safe_values [(''phase'', JStr ''preparing''), (''prepare_started_at'', JFloat x)]"
  "safe_values [(''phase'', JStr ''ready''), (''prepare_ms'', v)]"
  "ph \<noteq> ''succeeded'' \<Longrightarrow> safe_values [(''phase'', JStr ph), (''finished_at'', JFloat x)]"
  "safe_values [(''phase'', JStr ''prepare_failed''), (''error'', v), (''finished_at'', JFloat x)]"
  by (auto intro!: safe_valuesI simp: session_fields_def prepare_failed_def split: if_splits)

lemma prepare_values_safe: "safe_values (prepare_values key r u)"
  unfolding prepare_values_def late_values_def
  by (auto simp del: append.simps split: creation.split sum.split intro!: safe_append safe_simple)

text \<open>Token counts of an answer must be numbers.\<close>

definition numeric_tokens :: "user_run \<Rightarrow> bool" where
  "numeric_tokens r \<longleftrightarrow> (\<forall>a b d. ur_generated r = Answered a b \<longrightarrow> generated_fields a = Inr d \<longrightarrow>
     numeric (jget d ''input_tokens'') \<and> numeric (jget d ''output_tokens''))"

lemma generated_fields_form:
  assumes "generated_fields a = Inr d"
  obtains ph err m i out where "d = [(''phase'', JStr ph), (''error'', err), (''response_matches'', m), (''input_tokens'', i), (''output_tokens'', out)]"
  using assms by (auto simp: generated_fields_def message_fields_def Let_def exc_simps split: sum.splits)

lemma generate_values_safe:
  assumes "numeric_tokens r"
  shows "safe_values (generate_values r)"
proof (cases "ur_generated r")
  case (Answered a b)
  show ?thesis
  proof (cases "generated_fields a")
    case (Inr d)
    then obtain ph err m i out where d: "d = [(''phase'', JStr ph), (''error'', err), (''response_matches'', m), (''input_tokens'', i), (''output_tokens'', out)]"
      by (rule generated_fields_form)
    have "numeric i" "numeric out" using assms Answered Inr by (auto simp: numeric_tokens_def d jget_def dget_def)
    then show ?thesis
      by (intro safe_valuesI) (auto simp: generate_values_def Answered Inr d split: if_splits)
  qed (auto intro!: safe_valuesI simp: Answered generate_values_def ended_fields_def split: if_splits)
qed (auto intro!: safe_valuesI simp: generate_values_def ended_fields_def split: if_splits)

lemma has_user_sound: "test_sound rid names db \<Longrightarrow> n \<in> names \<Longrightarrow> has_user n db"
  by (auto simp: test_sound_def has_user_def find_row_None of_test_def)

definition upd_state :: "string \<Rightarrow> string option \<Rightarrow> jdict \<Rightarrow> ops_db \<Rightarrow> ops_db" where
  "upd_state name st values db = db\<lparr>load_users := update_rows lu_name name (set_user_row (st, values)) (load_users db)\<rparr>"

lemma of_test_upd: "of_test rid (upd_state n st vs db) = map (\<lambda>u. if lu_name u = n then set_user_row (st, vs) u else u) (of_test rid db)"
  by (auto simp: of_test_def upd_state_def update_rows_def filter_map o_def set_user_row_def intro!: map_cong filter_cong)

lemma upd_state_sound:
  assumes "test_sound rid names db" and "safe_values vs"
  shows "test_sound rid names (upd_state n st vs db)"
proof -
  let ?f = "\<lambda>u. if lu_name u = n then set_user_row (st, vs) u else u"
  have "row_sound (?f u)" if "row_sound u" for u
    using that assms(2) by (auto simp: row_sound_def safe_values_def set_user_row_def jget_dupdate map_of_eq_None_iff [THEN iffD2] split: option.splits)
  moreover have "lu_name ` set (of_test rid (upd_state n st vs db)) = lu_name ` set (of_test rid db)"
  proof -
    have "lu_name (?f u) = lu_name u" for u by (simp add: set_user_row_def)
    then show ?thesis by (simp only: of_test_upd set_map image_image)
  qed
  moreover have "unique_key lu_name (load_users (upd_state n st vs db)) = unique_key lu_name (load_users db)"
    by (simp add: upd_state_def unique_update_rows set_user_row_def)
  moreover have "load_rows (upd_state n st vs db) = load_rows db" by (simp add: upd_state_def)
  moreover have "list_all row_sound (of_test rid (upd_state n st vs db))" if "list_all row_sound (of_test rid db)"
    using that calculation(1) unfolding of_test_upd list_all_iff by (metis (no_types, lifting) imageE set_map)
  ultimately show ?thesis using assms(1) unfolding test_sound_def by simp
qed

lemma upd_sound: "test_sound rid names db \<Longrightarrow> safe_values vs \<Longrightarrow> test_sound rid names (upd_user n vs db)"
  using upd_state_sound [of rid names db vs n None] by (simp add: upd_state_def upd_user_def)

section \<open>Every way a run can end\<close>

text \<open>What other requests may do meanwhile: the tests and their users stay, and so do the rows of the users; a
  cancellation or the report of a check writes to the test's own row.\<close>

definition others_ok :: "load_env \<Rightarrow> bool" where
  "others_ok env \<longleftrightarrow> (\<forall>n db. load_users (le_meanwhile env n db) = load_users db \<and> map lt_id (load_rows (le_meanwhile env n db)) = map lt_id (load_rows db))"

definition answers_ok :: "load_env \<Rightarrow> bool" where
  "answers_ok env \<longleftrightarrow> (\<forall>name. numeric_tokens (le_user env name))"

lemma find_row_ids: "map lt_id rows' = map lt_id rows \<Longrightarrow> find_row lt_id rid rows' = None \<longleftrightarrow> find_row lt_id rid rows = None"
  by (metis find_row_None set_map)

lemma sound_rows:
  assumes "test_sound rid names db" and "load_users db' = load_users db" and "map lt_id (load_rows db') = map lt_id (load_rows db)"
  shows "test_sound rid names db'"
  using assms(1,2) find_row_ids [OF assms(3), of rid] by (simp add: test_sound_def of_test_def)

lemma triple_total:
  assumes "\<And>s. P s \<Longrightarrow> \<exists>x t. m s = (x, t) \<and> (case x of Inl e \<Rightarrow> E e t | Inr y \<Rightarrow> Q y t)"
  shows "triple P m Q E"
  unfolding triple_def
proof (intro allI impI)
  fix s
  assume "P s"
  then obtain x t where "m s = (x, t)" "case x of Inl e \<Rightarrow> E e t | Inr y \<Rightarrow> Q y t" using assms by blast
  then show "case m s of (Inl e, t) \<Rightarrow> E e t | (Inr x, t) \<Rightarrow> Q x t" by (cases x) simp_all
qed

lemma keeps_total:
  assumes "\<And>s. I s \<Longrightarrow> \<exists>x t. m s = (x, t) \<and> I t"
  shows "keeps I m"
proof (rule triple_total)
  fix s
  assume "I s"
  from assms [OF this] show "\<exists>x t. m s = (x, t) \<and> (case x of Inl e \<Rightarrow> I t | Inr y \<Rightarrow> I t)"
    by (metis sum.case_eq_if)
qed

lemma keeps_meanwhile:
  assumes "others_ok env"
  shows "keeps (test_sound rid names) (meanwhile env n)"
  unfolding meanwhile_def
proof (rule triple_modify)
  fix s
  assume "test_sound rid names s"
  then show "test_sound rid names (le_meanwhile env n s)"
    by (rule sound_rows) (simp_all add: assms [unfolded others_ok_def, rule_format])
qed

lemma updated_sound:
  assumes "test_sound rid names db"
  shows "test_sound rid names (db\<lparr>load_rows := update_rows lt_id k (set_load_row (status, vs)) (load_rows db)\<rparr>)"
proof (rule sound_rows [OF assms])
  show "map lt_id (load_rows (db\<lparr>load_rows := update_rows lt_id k (set_load_row (status, vs)) (load_rows db)\<rparr>)) = map lt_id (load_rows db)"
    by (simp add: map_update_rows load_update.key_upd)
qed simp

lemma update_test_writes:
  "test_sound rid names db \<Longrightarrow> writing (update_test rid status vs) db
    = (Inr (), db\<lparr>load_rows := update_rows lt_id rid (set_load_row (status, vs)) (load_rows db)\<rparr>)"
  by (auto simp: writing_def update_test_def test_sound_def)

lemma keeps_update_test: "keeps (test_sound rid names) (writing (update_test rid status vs))"
  by (rule keeps_total) (metis update_test_writes updated_sound)

lemma keeps_put_user: "safe_values vs \<Longrightarrow> uname u \<in> names \<Longrightarrow> keeps (test_sound rid names) (put_user u vs)"
  by (rule keeps_total) (metis put_user_upd has_user_sound upd_sound)

lemma keeps_prepare: "uname u \<in> names \<Longrightarrow> keeps (test_sound rid names) (prepare_user key r u)"
  by (rule keeps_total) (metis prepare_of_user has_user_sound upd_sound prepare_values_safe)

lemma keeps_generate: "uname u \<in> names \<Longrightarrow> numeric_tokens r \<Longrightarrow> keeps (test_sound rid names) (generate_user r u)"
  by (rule keeps_total) (metis generate_of_user has_user_sound upd_sound generate_values_safe)

lemma keeps_join: "(\<And>u. u \<in> set us \<Longrightarrow> keeps I (f u)) \<Longrightarrow> keeps I (join_all f us)"
proof (induction us)
  case (Cons u us)
  from Cons.prems have u: "keeps I (f u)" by simp
  from Cons have us: "keeps I (join_all f us)" by simp
  show ?case
  proof (rule keeps_total)
    fix s
    assume s: "I s"
    obtain r t where f: "f u s = (r, t)" by (cases "f u s")
    obtain r' v where j: "join_all f us t = (r', v)" by (cases "join_all f us t")
    from keepsD [OF us keepsD [OF u s f] j] have "I v" .
    then show "\<exists>x t. join_all f (u # us) s = (x, t) \<and> I t" by (simp add: f j)
  qed
qed (simp add: step_rules)

lemma report_names:
  assumes "test_sound rid names db" and "u \<in> set (report_users rid db)"
  shows "uname u \<in> names"
proof -
  from assms(2) obtain row where r: "row \<in> set (of_test rid db)" and u: "u = user_view row" by (auto simp: report_users_def of_test_def)
  with assms(1) have "jget u ''username'' = JStr (lu_name row)" by (auto simp: test_sound_def list_all_iff row_sound_def view_jget)
  then show ?thesis using assms(1) r by (auto simp: uname_def test_sound_def)
qed

text \<open>Reading the report returns, with users of the test.\<close>

lemma triple_report:
  assumes "\<And>report. (\<forall>u \<in> set (rp_users report). uname u \<in> names) \<Longrightarrow> triple (test_sound rid names) (f report) Q E"
  shows "triple (test_sound rid names) (sx_bind (sx_lift (get_test rid)) f) Q E"
proof (rule triple_bind [where R = "\<lambda>report s. test_sound rid names s \<and> (\<forall>u \<in> set (rp_users report). uname u \<in> names)"])
  show "triple (test_sound rid names) (sx_lift (get_test rid)) (\<lambda>report s. test_sound rid names s \<and> (\<forall>u \<in> set (rp_users report). uname u \<in> names)) E"
  proof (rule triple_total)
    fix s
    assume s: "test_sound rid names s"
    from get_test_total [OF s] obtain report where g: "get_test rid s = Inr report" "rp_users report = report_users rid s" by metis
    then show "\<exists>x t. sx_lift (get_test rid) s = (x, t) \<and>
        (case x of Inl e \<Rightarrow> E e t | Inr report \<Rightarrow> test_sound rid names t \<and> (\<forall>u \<in> set (rp_users report). uname u \<in> names))"
      using report_names [OF s] s by (simp add: sx_lift_def)
  qed
  show "triple (\<lambda>s. test_sound rid names s \<and> (\<forall>u \<in> set (rp_users report). uname u \<in> names)) (f report) Q E" for report
    using assms [of report] by (cases "\<forall>u \<in> set (rp_users report). uname u \<in> names") (auto simp: triple_def)
qed

text \<open>The steps of the run itself.\<close>

lemma keeps_block: "uname u \<in> names \<Longrightarrow> keeps (test_sound rid names) (block_user now u)"
  unfolding block_user_def by (intro triple_if keeps_put_user safe_simple triple_return)

lemma keeps_capacity:
  assumes "others_ok env" and "\<And>u. u \<in> set us \<Longrightarrow> uname u \<in> names"
  shows "keeps (test_sound rid names) (capacity_check env n rid us)"
  unfolding capacity_check_def
proof (intro keeps_then [OF keeps_meanwhile [OF assms(1)]] keeps_bind)
  show "keeps (test_sound rid names) (sx_of_res (le_checks env n))" by (rule triple_of_res)
  fix p :: "json \<times> capacity \<times> rat"
  obtain doc snap now where p: "p = (doc, snap, now)" by (cases p)
  have blocked: "keeps (test_sound rid names) (sx_for (block_user now) us)"
    using assms(2) by (intro keeps_for keeps_block)
  show "keeps (test_sound rid names) (case p of (doc, snap, now) \<Rightarrow> sx_bind (sx_lift (get_test rid)) (\<lambda>report.
     sx_then (writing (update_test rid None [(''capacity_checks'', last_checks (rp_doc report) doc)]))
     (case check_capacity now snap (map demand_of us) of
        Inr _ \<Rightarrow> sx_return ()
      | Inl e \<Rightarrow> sx_then (writing (update_test rid None [(''capacity_blocked'', JBool True)]))
          (sx_then (sx_for (block_user now) us) (sx_raise e)))))"
    unfolding p prod.case
    by (intro triple_report keeps_then [OF keeps_update_test])
      (auto split: sum.split intro!: keeps_then keeps_update_test blocked triple_return triple_raise)
qed

lemma keeps_batches:
  assumes "others_ok env" and "\<And>u. u \<in> set us \<Longrightarrow> uname u \<in> names"
  shows "keeps (test_sound rid names) (prepare_batches env rid n us)"
  using assms
proof (induction env rid n us rule: prepare_batches.induct)
  case (2 env rid n u us)
  have "uname v \<in> names" if "v \<in> set (take 4 (u # us))" for v
    using 2(3) in_set_takeD [OF that] by blast
  moreover have "uname v \<in> names" if "v \<in> set (drop 4 (u # us))" for v
    using 2(3) in_set_dropD [OF that] by blast
  ultimately show ?case
    unfolding prepare_batches.simps
    by (intro keeps_then keeps_capacity keeps_join keeps_prepare keeps_meanwhile 2(1)) (use 2(2-) in blast)+
qed (simp add: triple_return)

text \<open>A test that has ended.\<close>

definition ended :: "string \<Rightarrow> ops_db \<Rightarrow> bool" where
  "ended rid db \<longleftrightarrow> (case find_row lt_id rid (load_rows db) of None \<Rightarrow> False | Some row \<Rightarrow> lt_status row \<notin> set ACTIVE)"

definition settled :: "string \<Rightarrow> string set \<Rightarrow> ops_db \<Rightarrow> bool" where
  "settled rid names db \<longleftrightarrow> test_sound rid names db \<and> ended rid db"

lemma find_updated: "find_row key k (update_rows key k f rows) = map_option f (find_row key k rows)" if "\<And>r. key (f r) = key r"
  using that by (induction rows) (auto simp: update_rows_def)

lemma find_load_updated:
  "find_row lt_id rid (update_rows lt_id rid (set_load_row v) rows) = map_option (set_load_row v) (find_row lt_id rid rows)"
  by (rule find_updated) (simp add: load_update.key_upd)

lemma set_load_status: "lt_status (set_load_row (status, vs) r) = (case status of Some s \<Rightarrow> s | None \<Rightarrow> lt_status r)"
  by (simp add: set_load_row_def)

lemma ended_updated:
  assumes "test_sound rid names db" and "case status of Some st \<Rightarrow> st \<notin> set ACTIVE | None \<Rightarrow> ended rid db"
  shows "settled rid names (db\<lparr>load_rows := update_rows lt_id rid (set_load_row (status, vs)) (load_rows db)\<rparr>)"
proof -
  obtain row where "find_row lt_id rid (load_rows db) = Some row" using assms(1) by (auto simp: test_sound_def)
  then show ?thesis
    unfolding settled_def using updated_sound [OF assms(1)] assms(2)
    by (simp add: ended_def find_load_updated set_load_status split: option.splits)
qed

lemma triple_end:
  "st \<notin> set ACTIVE \<Longrightarrow> triple (test_sound rid names) (writing (update_test rid (Some st) vs)) (\<lambda>_. settled rid names) E"
  by (rule triple_total) (use update_test_writes ended_updated [where status = "Some st"] in fastforce)

lemma triple_stay: "triple (settled rid names) (writing (update_test rid None vs)) (\<lambda>_. settled rid names) E"
proof (rule triple_total)
  fix s
  assume "settled rid names s"
  then have s: "test_sound rid names s" "ended rid s" by (simp_all add: settled_def)
  show "\<exists>x t. writing (update_test rid None vs) s = (x, t) \<and> (case x of Inl e \<Rightarrow> E e t | Inr y \<Rightarrow> settled rid names t)"
    using ended_updated [OF s(1), where status = None and vs = vs] s(2) by (simp add: update_test_writes [OF s(1)])
qed

lemma triple_generate:
  assumes "others_ok env" and "answers_ok env" and "\<And>u. u \<in> set us \<Longrightarrow> uname u \<in> names"
  shows "triple (test_sound rid names) (generate_all env rid n us) (\<lambda>_. settled rid names) (\<lambda>_. test_sound rid names)"
  unfolding generate_all_def
proof (intro triple_then [OF keeps_update_test] triple_then [OF keeps_join] triple_then [OF keeps_meanwhile] triple_report)
  show "keeps (test_sound rid names) (generate_user (le_user env (str_of (jget u ''username''))) u)" if "u \<in> set us" for u
    using that assms(2,3) by (intro keeps_generate) (auto simp: answers_ok_def)
qed (use assms in \<open>auto intro!: triple_end simp: ACTIVE_def\<close>)

lemma triple_run_users:
  assumes "others_ok env" and "answers_ok env" and "\<And>u. u \<in> set us \<Longrightarrow> uname u \<in> names"
  shows "triple (test_sound rid names) (run_users env rid us) (\<lambda>_. settled rid names) (\<lambda>_. test_sound rid names)"
  unfolding run_users_def
proof (rule triple_bind [OF keeps_batches [OF assms(1,3)]], assumption)
  fix n
  have e: "keeps (test_sound rid names) (capacity_check env n rid [])" by (rule keeps_capacity [OF assms(1)]) simp
  show "triple (test_sound rid names) (sx_then (capacity_check env n rid []) (sx_bind (sx_lift (get_test rid)) (\<lambda>report.
     let ready = filter (phase_in [''ready'']) (rp_users report) in
     if ready = [] then writing (update_test rid (Some ''failed'') [(''error'', JStr ''No sessions were prepared'')])
     else generate_all env rid (Suc n) ready))) (\<lambda>_. settled rid names) (\<lambda>_. test_sound rid names)"
    unfolding Let_def
    by (intro triple_then [OF e] triple_report triple_if triple_end triple_generate assms(1,2)) (auto simp: ACTIVE_def)
qed

lemma triple_when_active:
  assumes "\<And>report. \<forall>u \<in> set (rp_users report). uname u \<in> names \<Longrightarrow>
    triple (test_sound rid names) (f report) (\<lambda>_. settled rid names) (\<lambda>_. test_sound rid names)"
  shows "triple (test_sound rid names) (sx_bind (sx_lift (get_test rid)) (\<lambda>report.
     if jget (rp_doc report) ''status'' \<notin> JStr ` set ACTIVE then sx_return () else f report))
     (\<lambda>_. settled rid names) (\<lambda>_. test_sound rid names)"
proof (rule triple_total)
  fix s
  assume s: "test_sound rid names s"
  from get_test_total [OF s] obtain report row where g: "get_test rid s = Inr report" "find_row lt_id rid (load_rows s) = Some row"
    "rp_users report = report_users rid s" "rp_doc report = dput ''status'' (JStr (lt_status row)) (lt_doc row)" .
  have st: "jget (rp_doc report) ''status'' = JStr (lt_status row)" by (simp add: g(4) jget_def dget_def)
  have names: "\<forall>u \<in> set (rp_users report). uname u \<in> names" using report_names [OF s] by (simp add: g(3))
  show "\<exists>x t. sx_bind (sx_lift (get_test rid)) (\<lambda>report. if jget (rp_doc report) ''status'' \<notin> JStr ` set ACTIVE then sx_return () else f report) s = (x, t)
      \<and> (case x of Inl e \<Rightarrow> test_sound rid names t | Inr y \<Rightarrow> settled rid names t)"
  proof (cases "lt_status row \<in> set ACTIVE")
    case True
    obtain x t where r: "f report s = (x, t)" by (cases "f report s")
    have "case x of Inl e \<Rightarrow> test_sound rid names t | Inr y \<Rightarrow> settled rid names t"
      using assms [OF names] s r by (cases x) (auto dest: tripleD_return tripleD_raise)
    moreover from True have "JStr (lt_status row) \<in> JStr ` set ACTIVE" by (rule imageI)
    ultimately show ?thesis using st g(1) r by (simp add: sx_bind_lift)
  next
    case False
    then have "settled rid names s" using s g(2) by (simp add: settled_def ended_def)
    then show ?thesis using False st g(1) by (auto simp: sx_bind_lift sx_return_def)
  qed
qed

lemma triple_body:
  assumes "others_ok env" and "answers_ok env"
  shows "triple (test_sound rid names) (load_body env rid) (\<lambda>_. settled rid names) (\<lambda>_. test_sound rid names)"
  unfolding load_body_def
proof (rule triple_then [OF keeps_meanwhile [OF assms(1)]],
    rule triple_bind [where R = "\<lambda>_. test_sound rid names"], rule triple_of_res, assumption, assumption,
    rule triple_when_active,
    rule triple_bind [where R = "\<lambda>_. test_sound rid names"], rule triple_of_res, assumption, assumption,
    rule triple_bind [where R = "\<lambda>_. test_sound rid names"], rule triple_of_res, assumption, assumption)
  fix catalog and report :: load_report
  assume u: "\<forall>u \<in> set (rp_users report). uname u \<in> names"
  then have "triple (test_sound rid names) (run_users env rid (rp_users report)) (\<lambda>_. settled rid names) (\<lambda>_. test_sound rid names)"
    by (intro triple_run_users assms) blast
  then show "triple (test_sound rid names) (if \<not> json_eq (JObj snapshots) (jget (rp_doc report) ''snapshots'')
       then sx_raise (HTTPException 409 ''Agent configuration changed before test start; create a new test'')
       else sx_then (writing (update_test rid (Some ''preparing'') [(''started_at'', JFloat (fst (le_times env)))]))
         (run_users env rid (rp_users report))) (\<lambda>_. settled rid names) (\<lambda>_. test_sound rid names)" for snapshots
    by (intro triple_if triple_raise triple_then [OF keeps_update_test])
qed

text \<open>Closing the run closes every user that is still open.\<close>

definition open_names :: "string \<Rightarrow> ops_db \<Rightarrow> string set" where
  "open_names rid db = lu_name ` set (filter (\<lambda>r. phase_in OPEN_PHASES (lu_doc r)) (of_test rid db))"

definition closing :: "jdict \<Rightarrow> bool" where
  "closing vs \<longleftrightarrow> (case map_of (rev vs) ''phase'' of None \<Rightarrow> False | Some v \<Rightarrow> v \<notin> JStr ` set OPEN_PHASES)"

lemma open_after:
  assumes "closing vs"
  shows "open_names rid (upd_user n vs db) \<subseteq> open_names rid db - {n}"
proof
  fix m
  assume "m \<in> open_names rid (upd_user n vs db)"
  then obtain r where r: "r \<in> set (load_users db)" and m: "m = lu_name (if lu_name r = n then set_user_row (None, vs) r else r)"
    and rid: "lu_run (if lu_name r = n then set_user_row (None, vs) r else r) = rid"
    and ph: "phase_in OPEN_PHASES (lu_doc (if lu_name r = n then set_user_row (None, vs) r else r))"
    by (auto simp: open_names_def of_test_def upd_user_def update_rows_def)
  have "lu_name r \<noteq> n"
  proof
    assume "lu_name r = n"
    with ph have "jget (dupdate (lu_doc r) vs) ''phase'' \<in> JStr ` set OPEN_PHASES" by (simp add: set_user_row_def phase_in_def)
    with assms show False by (simp add: closing_def jget_dupdate split: option.splits)
  qed
  with r m rid ph show "m \<in> open_names rid db - {n}" by (auto simp: open_names_def of_test_def)
qed

definition closes :: "string \<Rightarrow> string set \<Rightarrow> jdict list \<Rightarrow> ops_db \<Rightarrow> bool" where
  "closes rid names us db \<longleftrightarrow> settled rid names db \<and> open_names rid db \<subseteq> uname ` set (filter (phase_in OPEN_PHASES) us)"

lemma upd_settled: "settled rid names db \<Longrightarrow> safe_values vs \<Longrightarrow> settled rid names (upd_user n vs db)"
  using upd_sound [of rid names db vs n] by (simp add: settled_def) (simp add: ended_def upd_user_def)

lemma triple_close_users:
  assumes "\<And>u. u \<in> set us \<Longrightarrow> uname u \<in> names"
  shows "triple (closes rid names us) (sx_for (close_user doc now) us) (\<lambda>_. closes rid names []) E"
  using assms
proof (induction us)
  case (Cons u us)
  have step: "triple (closes rid names (u # us)) (close_user doc now u) (\<lambda>_. closes rid names us) E"
  proof (rule triple_total)
    fix s
    assume c: "closes rid names (u # us) s"
    let ?vs = "[(''phase'', JStr (if truthy (jget doc ''cancel_requested'') \<or> truthy (jget doc ''capacity_blocked'') then ''cancelled'' else ''interrupted'')),
       (''finished_at'', JFloat now)]"
    show "\<exists>x t. close_user doc now u s = (x, t) \<and> (case x of Inl e \<Rightarrow> E e t | Inr y \<Rightarrow> closes rid names us t)"
    proof (cases "phase_in OPEN_PHASES u")
      case True
      have s: "settled rid names s" using c by (simp add: closes_def)
      have "has_user (uname u) s" using Cons.prems s has_user_sound by (auto simp: settled_def)
      then have put: "close_user doc now u s = (Inr (), upd_user (uname u) ?vs s)"
        using True by (simp add: close_user_def put_user_upd)
      have "safe_values ?vs" by (rule safe_simple) simp
      moreover have "closing ?vs" by (auto simp: closing_def OPEN_PHASES_def)
      ultimately have "closes rid names us (upd_user (uname u) ?vs s)"
        using upd_settled [OF s] open_after [of ?vs rid "uname u" s] c True by (auto simp: closes_def)
      then show ?thesis using put by simp
    next
      case False
      then show ?thesis using c by (simp add: close_user_def sx_return_def closes_def)
    qed
  qed
  have rest: "triple (closes rid names us) (sx_for (close_user doc now) us) (\<lambda>_. closes rid names []) E"
    using Cons by simp
  show ?case unfolding sx_for.simps by (rule triple_then [OF step rest])
qed (simp add: triple_return)

lemma open_reported:
  assumes "test_sound rid names db"
  shows "open_names rid db \<subseteq> uname ` set (filter (phase_in OPEN_PHASES) (report_users rid db))"
proof
  fix n
  assume "n \<in> open_names rid db"
  then obtain r where r: "r \<in> set (of_test rid db)" "phase_in OPEN_PHASES (lu_doc r)" "n = lu_name r" by (auto simp: open_names_def)
  moreover from r(1) assms have "jget (user_view r) ''username'' = JStr (lu_name r)"
    by (auto simp: test_sound_def list_all_iff row_sound_def view_jget)
  ultimately have "user_view r \<in> set (filter (phase_in OPEN_PHASES) (report_users rid db))" "uname (user_view r) = n"
    by (auto simp: report_users_def of_test_def phase_in_def view_jget uname_def)
  then show "n \<in> uname ` set (filter (phase_in OPEN_PHASES) (report_users rid db))" by blast
qed

lemma triple_close_run: "triple (settled rid names) (close_run now rid) (\<lambda>_. closes rid names []) (\<lambda>_ _. False)"
proof (rule triple_total)
  fix s
  assume s: "settled rid names s"
  then have sound: "test_sound rid names s" by (simp add: settled_def)
  from get_test_total [OF sound] obtain report where g: "get_test rid s = Inr report" "rp_users report = report_users rid s" by metis
  let ?m = "sx_then (sx_for (close_user (rp_doc report) now) (rp_users report)) (writing (update_test rid None [(''finished_at'', JFloat now)]))"
  have last: "triple (closes rid names []) (writing (update_test rid None vs)) (\<lambda>_. closes rid names []) (\<lambda>_ _. False)" for vs
  proof (rule triple_total)
    fix s
    assume c: "closes rid names [] s"
    then have so: "test_sound rid names s" by (simp add: closes_def settled_def)
    show "\<exists>x t. writing (update_test rid None vs) s = (x, t) \<and> (case x of Inl e \<Rightarrow> False | Inr y \<Rightarrow> closes rid names [] t)"
      using c ended_updated [OF so, where status = None and vs = vs]
      by (simp add: update_test_writes [OF so] closes_def settled_def open_names_def of_test_def)
  qed
  have "triple (closes rid names (rp_users report)) ?m (\<lambda>_. closes rid names []) (\<lambda>_ _. False)"
    by (rule triple_then [OF triple_close_users last]) (use report_names [OF sound] g(2) in simp)
  moreover have "closes rid names (rp_users report) s" using s open_reported [OF sound] by (simp add: closes_def g(2))
  ultimately show "\<exists>x t. close_run now rid s = (x, t) \<and> (case x of Inl e \<Rightarrow> False | Inr y \<Rightarrow> closes rid names [] t)"
    by (cases "?m s") (auto simp: close_run_def sx_bind_lift g(1) triple_def split: sum.splits)
qed

lemma triple_settle_run: "triple (test_sound rid names) (settle_run rid e) (\<lambda>_. settled rid names) (\<lambda>_ _. False)"
  unfolding settle_run_def by (intro triple_if triple_report triple_end) (auto simp: ACTIVE_def)

lemma triple_run:
  assumes "others_ok env" and "answers_ok env"
  shows "triple (test_sound rid names) (run_test env rid) (\<lambda>_. closes rid names []) (\<lambda>_ _. False)"
  unfolding run_test_def
proof (rule triple_finally)
  show "triple (test_sound rid names) (sx_catch (load_body env rid) (\<lambda>e. Some (settle_run rid e))) (\<lambda>_. settled rid names) (\<lambda>_ _. False)"
    by (rule triple_catch [OF triple_body [OF assms]]) (auto intro: triple_settle_run)
qed (rule triple_close_run, simp add: triple_def)

text \<open>C18: A run of a load test returns with the test in a final status, none of its users left in an open
  phase and its report readable, under three conditions: the test is readable when the run starts (its
  users' rows are distinct and hold numbers where the report adds), the token counts in the replies of
  the API are numbers or missing, and requests that come in meanwhile keep the list of tests and the
  rows of the users. Everything else is free: how the API, the capacity checks and the catalog answer or
  fail, timeouts, a cancellation of the task, and what others write to the test's own row.\<close>

theorem run_settles:
  assumes "others_ok env" and "answers_ok env" and "test_sound rid names db"
  shows "\<exists>db'. run_test env rid db = (Inr (), db') \<and> ended rid db' \<and> open_names rid db' = {} \<and> (\<exists>report. get_test rid db' = Inr report)"
proof -
  obtain r db' where r: "run_test env rid db = (r, db')" by (cases "run_test env rid db")
  then have "closes rid names [] db'" "r = Inr ()"
    using triple_run [OF assms(1,2), of rid names] assms(3) by (cases r; force simp: triple_def)+
  then show ?thesis using r get_test_total [of rid names db'] by (auto simp: closes_def settled_def)
qed

definition idle_run :: user_run where
  "idle_run = \<lparr>ur_created = NeverStarted, ur_generated = NotSent, ur_prepare = (0, 1), ur_generate = (1, 2)\<rparr>"

definition demo_cancelled :: load_env where
  "demo_cancelled = \<lparr>le_key = (\<lambda>a u. ''k''), le_catalog = Inl CancelledError, le_checks = (\<lambda>n. Inl CancelledError),
     le_user = (\<lambda>u. idle_run), le_meanwhile = (\<lambda>n db. db), le_times = (6, 7, 8)\<rparr>"

definition demo_queued :: ops_db where
  "demo_queued = empty_ops\<lparr>load_rows := [\<lparr>lt_id = ''lt_t1'', lt_request_id = ''request-1'', lt_fingerprint = JNull,
     lt_status = ''cancelling'', lt_created = 1, lt_doc = [(''cleanup_status'', JStr ''retained''), (''cancel_requested'', JBool True)]\<rparr>],
     load_users := [\<lparr>lu_name = ''loadtest-t1-1'', lu_agent = ''a1'', lu_run = ''lt_t1'', lu_state = ''retained'',
     lu_doc = [(''username'', JStr ''loadtest-t1-1''), (''phase'', JStr ''queued'')]\<rparr>]\<rparr>"

lemma demo_queued_sound: "test_sound ''lt_t1'' {''loadtest-t1-1''} demo_queued"
  by (simp add: test_sound_def demo_queued_def of_test_def row_sound_def user_sound_def jget_def dget_def numeric_def unique_key_def)

theorem run_settles_witness:
  "\<exists>db'. run_test demo_cancelled ''lt_t1'' demo_queued = (Inr (), db') \<and> ended ''lt_t1'' db' \<and> open_names ''lt_t1'' db' = {}
     \<and> (\<exists>report. get_test ''lt_t1'' db' = Inr report) \<and> \<not> ended ''lt_t1'' demo_queued \<and> open_names ''lt_t1'' demo_queued = {''loadtest-t1-1''}"
proof -
  have env: "others_ok demo_cancelled" "answers_ok demo_cancelled"
    by (simp_all add: others_ok_def answers_ok_def demo_cancelled_def numeric_tokens_def idle_run_def)
  have "\<not> ended ''lt_t1'' demo_queued" "open_names ''lt_t1'' demo_queued = {''loadtest-t1-1''}"
    by (simp_all add: ended_def demo_queued_def ACTIVE_def open_names_def of_test_def phase_in_def OPEN_PHASES_def jget_def dget_def)
  with run_settles [OF env demo_queued_sound] show ?thesis by blast
qed

text \<open>The hypothesis on the answers is needed: a reply with a token count that is not a number is recorded as it is, and from
  then on the report of the test cannot be read, not even to settle the run or at the next start of the service.\<close>

definition odd_reply :: json where
  "odd_reply = JObj [(''info'', JObj [(''tokens'', JObj [(''input'', JStr ''12'')])]),
     (''parts'', JArr [JObj [(''type'', JStr ''text''), (''text'', JStr ''LOAD-TEST-OK'')]])]"

definition odd_run :: user_run where
  "odd_run = \<lparr>ur_created = NeverStarted, ur_generated = Answered (Http 200 (Some odd_reply)) False, ur_prepare = (0, 1), ur_generate = (1, 2)\<rparr>"

theorem odd_tokens_break_the_report:
  "\<exists>db'. generate_user odd_run [(''username'', JStr ''loadtest-t1-1'')] demo_queued = (Inr (), db')
     \<and> (\<exists>e. get_test ''lt_t1'' db' = Inl e \<and> recover_tests 9 db' = (Inl e, db')) \<and> \<not> ended ''lt_t1'' db'"
proof -
  let ?u = "[(''username'', JStr ''loadtest-t1-1'')]"
  have un: "uname ?u = ''loadtest-t1-1''" by (simp add: uname_def jget_def dget_def)
  have has: "has_user (uname ?u) demo_queued" by (simp add: un has_user_def demo_queued_def find_row_def)
  have f: "generated_fields (Http 200 (Some odd_reply)) = Inr [(''phase'', JStr ''succeeded''), (''error'', JNull), (''response_matches'', JBool True),
      (''input_tokens'', JStr ''12''), (''output_tokens'', JInt 0)]"
    by (simp add: generated_fields_def response_json_def message_fields_def odd_reply_def attr_get_def jget_def dget_def Let_def part_text_def
        token_count_def occurs_in_def starts_with_def strip_def is_space_def)
  let ?db = "upd_user ''loadtest-t1-1'' (generate_values odd_run) demo_queued"
  have run: "generate_user odd_run ?u demo_queued = (Inr (), ?db)"
    using generate_of_user [OF has, of odd_run] by (simp add: un generate_outcome_def odd_run_def)
  have vs: "generate_values odd_run = [(''phase'', JStr ''running''), (''sent_at'', JFloat 1), (''phase'', JStr ''succeeded''), (''error'', JNull),
      (''response_matches'', JBool True), (''input_tokens'', JStr ''12''), (''output_tokens'', JInt 0),
      (''latency_ms'', JFloat (py_round 2 1000)), (''finished_at'', JFloat 2)]"
    by (simp add: generate_values_def odd_run_def f millis_def)
  have g: "get_test ''lt_t1'' ?db = Inl (TypeError ''a number is required'')"
    unfolding vs by (simp add: get_test_def upd_user_def demo_queued_def report_users_def user_view_def update_rows_def set_user_row_def
        summarize_def phase_in_def jindex_def jget_def dget_def Let_def number_def dupdate_def)
  have "recover_tests 9 ?db = (Inl (TypeError ''a number is required''), ?db)"
  proof -
    have "map lt_id (load_rows ?db) = [''lt_t1'']" by (simp add: upd_user_def demo_queued_def)
    moreover have "sx_lift (get_test ''lt_t1'') ?db = (Inl (TypeError ''a number is required''), ?db)" by (simp add: sx_lift_def g)
    ultimately show ?thesis by (simp add: recover_tests_def recover_test_def sx_then_def sx_bind_def)
  qed
  moreover have "\<not> ended ''lt_t1'' ?db" by (simp add: ended_def upd_user_def demo_queued_def ACTIVE_def)
  ultimately show ?thesis using run g by blast
qed

end
