(* ===== verification/LoadControl.thy ===== *)
theory LoadControl
  imports RunnerSafety
begin

text \<open>
  The requests that start, cancel and clean up load tests: \<open>LoadTests\<close> of \<open>operations/src/load_tests.py\<close>
  beside its \<open>run\<close>. The state is the store, the table of background tasks with whether each has ended, and the runs whose
  task was told to stop. What the catalog, the capacity sampling, the sandboxes and the files answer are arguments.
\<close>

section \<open>The service\<close>

record load_service =
  ls_db :: ops_db
  ls_tasks :: "(string \<times> bool) list"
  ls_told :: "string list"

type_synonym 'a cx = "(load_service, 'a) sx"

definition in_store :: "'a lx \<Rightarrow> 'a cx" where
  "in_store m = (\<lambda>s. case m (ls_db s) of (r, db) \<Rightarrow> (r, s\<lparr>ls_db := db\<rparr>))"

definition report_of :: "string \<Rightarrow> load_report cx" where
  "report_of rid = in_store (sx_lift (get_test rid))"

definition set_test :: "string \<Rightarrow> string option \<Rightarrow> jdict \<Rightarrow> unit cx" where
  "set_test rid status values = in_store (writing (update_test rid status values))"

text \<open>A new task takes the place of an older one with its key; its end removes it (\<open>done\<close>).\<close>

definition spawn :: "string \<Rightarrow> unit cx" where
  "spawn key = sx_modify (\<lambda>s. s\<lparr>ls_tasks := (key, False) # filter (\<lambda>(k, _). k \<noteq> key) (ls_tasks s)\<rparr>)"

definition task_done :: "string \<Rightarrow> unit cx" where
  "task_done key = sx_modify (\<lambda>s. s\<lparr>ls_tasks := filter (\<lambda>(k, _). k \<noteq> key) (ls_tasks s)\<rparr>)"

section \<open>Starting\<close>

text \<open>An Agent that may be selected, as \<open>options\<close> lists it.\<close>

definition option_of :: "string \<times> json \<Rightarrow> json option res" where
  "option_of = (\<lambda>(aid, agent).
    ebind (ebind (subscript agent ''versions'') (\<lambda>versions. ebind (jiter versions) (version_config agent))) (\<lambda>config.
    ebind (if \<not> truthy config then Inr False
           else ebind (attr_get config ''enabled'' (JBool True)) (\<lambda>enabled.
             if \<not> truthy enabled then Inr False
             else ebind (attr_get agent ''lifecycle'' (JStr ''active'')) (\<lambda>l. Inr (l = JStr ''active'')))) (\<lambda>usable.
    if \<not> usable then Inr None
    else ebind (subscript config ''name'') (\<lambda>name. ebind (subscript agent ''active'') (\<lambda>active.
      ebind (subscript config ''default_model_id'') (\<lambda>model_id.
      Inr (Some (JObj [(''id'', JStr aid), (''name'', name), (''version'', active), (''model_id'', model_id)]))))))))"

definition load_options :: "json res \<Rightarrow> json list res" where
  "load_options catalog =
    ebind catalog (\<lambda>data. ebind (subscript data ''agents'') (\<lambda>agents. case agents of
      JObj d \<Rightarrow> ebind (emap option_of d) (\<lambda>found. Inr (List.map_filter (\<lambda>a. a) found))
    | _ \<Rightarrow> Inl (AttributeError ''items'')))"

definition start_test :: "bool \<Rightarrow> load_request \<Rightarrow> json \<Rightarrow> string \<Rightarrow> rat \<Rightarrow> json \<Rightarrow> (string \<times> bool) cx" where
  "start_test ready request catalog token now trace =
    (if \<not> ready then sx_raise (HTTPException 503 ''Load-test API is not initialized'')
     else sx_bind (in_store (\<lambda>db. case create_test request catalog token now db of
          Inl e \<Rightarrow> (Inl e, db) | Inr (p, db') \<Rightarrow> (Inr p, db'))) (\<lambda>(rid, created).
       sx_then (if \<not> created then sx_return ()
                else sx_then (set_test rid None [(''trace_context'', trace)]) (spawn rid))
       (sx_return (rid, created))))"

definition agent_demand :: "load_agent \<Rightarrow> demand" where
  "agent_demand a = \<lparr>dm_agent = la_agent a, dm_cpu = la_cpu a, dm_memory = la_memory a, dm_users = nat (la_users a)\<rparr>"

text \<open>The sample of the capacity comes with its document and the time it is evaluated at.\<close>

definition admit_start ::
  "bool \<Rightarrow> load_request \<Rightarrow> json res \<Rightarrow> (json \<times> capacity \<times> rat) res \<Rightarrow> string \<Rightarrow> rat \<Rightarrow> json \<Rightarrow> (string \<times> bool) cx" where
  "admit_start ready request catalog sample token now trace =
    sx_bind (in_store (sx_lift (previous_test request))) (\<lambda>previous. case previous of
      Some rid \<Rightarrow> sx_return (rid, False)
    | None \<Rightarrow>
      sx_bind (sx_of_res catalog) (\<lambda>data.
      sx_bind (sx_of_res (validate_agents request data)) (\<lambda>_.
      sx_bind (sx_of_res sample) (\<lambda>(doc, snap, t).
      sx_then (sx_of_res (check_capacity t snap (map agent_demand (lr_agents request))))
      (sx_bind (start_test ready request data token now trace) (\<lambda>(rid, created).
      sx_then (set_test rid None [(''admission_capacity'', doc)]) (sx_return (rid, created))))))))"

section \<open>Cancelling\<close>

definition cancel_test :: "rat \<Rightarrow> string \<Rightarrow> json cx" where
  "cancel_test now rid =
    sx_bind (report_of rid) (\<lambda>report.
    if jget (rp_doc report) ''status'' \<notin> JStr ` set ACTIVE \<or> truthy (jget (rp_doc report) ''cancel_requested'')
    then sx_return (jget (rp_doc report) ''status'')
    else sx_then (set_test rid (Some ''cancelling'') [(''cancel_requested'', JBool True)])
      (sx_bind sx_get (\<lambda>s.
       sx_then (case map_of (ls_tasks s) rid of
            Some False \<Rightarrow> sx_modify (\<lambda>s. s\<lparr>ls_told := ls_told s @ [rid]\<rparr>)
          | _ \<Rightarrow> set_test rid (Some ''cancelled'') [(''finished_at'', JFloat now)])
       (sx_return (JStr ''cancelling'')))))"

section \<open>Cleaning up\<close>

definition start_cleanup :: "string \<Rightarrow> string \<Rightarrow> json cx" where
  "start_cleanup rid confirmation =
    (if confirmation \<noteq> rid then sx_raise (HTTPException 400 ''Type the exact test ID to confirm destruction'')
     else sx_bind (report_of rid) (\<lambda>report.
      sx_bind sx_get (\<lambda>s.
      if jget (rp_doc report) ''status'' \<in> JStr ` set ACTIVE \<or> map_of (ls_tasks s) rid \<noteq> None
      then sx_raise (HTTPException 409 ''Wait for the test to stop before cleanup'')
      else sx_bind (sx_of_res (jindex (rp_doc report) ''cleanup_status'')) (\<lambda>st.
      if st \<in> {JStr ''cleaning'', JStr ''cleaned''} then sx_return st
      else sx_then (set_test rid None [(''cleanup_status'', JStr ''cleaning''), (''cleanup_error'', JNull)])
        (sx_then (sx_for (\<lambda>u. if jget u ''storage_state'' = JStr ''cleaned'' then sx_return ()
            else in_store (writing (update_user (str_of (jget u ''username'')) (Some ''cleaning'') []))) (rp_users report))
        (sx_then (spawn (''cleanup:'' @ rid)) (sx_return (JStr ''cleaning''))))))))"

text \<open>The task of a cleanup: the sandbox of each user, then its files, then its row. Any exception ends it, a cancellation
  too; \<open>cl_begin\<close> is how the wait for the lock ends.\<close>

record cleanup_env =
  cl_begin :: "unit res"
  cl_sandbox :: "string \<Rightarrow> string \<Rightarrow> unit res"
  cl_files :: "string \<Rightarrow> string \<Rightarrow> unit res"
  cl_now :: rat

definition clean_user :: "cleanup_env \<Rightarrow> jdict \<Rightarrow> unit lx" where
  "clean_user env u =
    (if jget u ''storage_state'' = JStr ''cleaned'' then sx_return ()
     else let aid = str_of (jget u ''agent_id''); name = str_of (jget u ''username'') in
       sx_then (sx_of_res (cl_sandbox env aid name))
       (sx_then (sx_of_res (cl_files env aid name))
       (writing (update_user name (Some ''cleaned'') [(''cleaned_at'', JFloat (cl_now env))]))))"

definition cleanup_body :: "cleanup_env \<Rightarrow> string \<Rightarrow> unit lx" where
  "cleanup_body env rid =
    sx_then (sx_of_res (cl_begin env))
    (sx_bind (sx_lift (get_test rid)) (\<lambda>report.
     sx_then (sx_for (clean_user env) (rp_users report))
     (writing (update_test rid None [(''cleanup_status'', JStr ''cleaned''), (''cleaned_at'', JFloat (cl_now env))]))))"

definition run_cleanup :: "cleanup_env \<Rightarrow> string \<Rightarrow> unit lx" where
  "run_cleanup env rid = sx_catch (cleanup_body env rid) (\<lambda>e. Some
    (writing (update_test rid None [(''cleanup_status'', JStr ''failed''), (''cleanup_error'', JStr (exc_class e))])))"

section \<open>A cleanup settles\<close>

text \<open>The sandbox and the files of a user are gone when both calls for it returned.\<close>

definition destroyed :: "cleanup_env \<Rightarrow> load_user_row \<Rightarrow> bool" where
  "destroyed env u \<longleftrightarrow> (let aid = str_of (jget (lu_doc u) ''agent_id'') in
     cl_sandbox env aid (lu_name u) = Inr () \<and> cl_files env aid (lu_name u) = Inr ())"

definition honest :: "cleanup_env \<Rightarrow> string \<Rightarrow> string set \<Rightarrow> ops_db \<Rightarrow> bool" where
  "honest env rid before db \<longleftrightarrow> (\<forall>u \<in> set (of_test rid db). lu_state u = ''cleaned'' \<longrightarrow> lu_name u \<in> before \<or> destroyed env u)"

definition uncleaned :: "jdict list \<Rightarrow> string set" where
  "uncleaned us = uname ` set (filter (\<lambda>u. jget u ''storage_state'' \<noteq> JStr ''cleaned'') us)"

definition cleaning :: "cleanup_env \<Rightarrow> string \<Rightarrow> string set \<Rightarrow> string set \<Rightarrow> jdict list \<Rightarrow> ops_db \<Rightarrow> bool" where
  "cleaning env rid names before us db \<longleftrightarrow> test_sound rid names db \<and> honest env rid before db
     \<and> (\<forall>u \<in> set (of_test rid db). lu_state u \<noteq> ''cleaned'' \<longrightarrow> lu_name u \<in> uncleaned us)
     \<and> (\<forall>v \<in> set us. \<forall>u \<in> set (of_test rid db). lu_name u = uname v \<longrightarrow> jget (lu_doc u) ''agent_id'' = jget v ''agent_id'')"

lemma clean_user_step:
  assumes "cleaning env rid names before (v # us) db" and "uname v \<in> names" and "clean_user env v db = (r, db')"
  shows "(case r of Inl _ \<Rightarrow> db' = db | Inr _ \<Rightarrow> cleaning env rid names before us db')"
proof (cases "jget v ''storage_state'' = JStr ''cleaned''")
  case True
  then show ?thesis using assms by (auto simp: clean_user_def sx_return_def cleaning_def uncleaned_def)
next
  case False
  let ?aid = "str_of (jget v ''agent_id'')"
  let ?vs = "[(''cleaned_at'', JFloat (cl_now env))]"
  let ?db = "upd_state (uname v) (Some ''cleaned'') ?vs db"
  have s: "test_sound rid names db" using assms(1) by (simp add: cleaning_def)
  have "find_row lu_name (uname v) (load_users db) \<noteq> None" using has_user_sound [OF s assms(2)] by (simp add: has_user_def)
  then have w: "writing (update_user (uname v) (Some ''cleaned'') ?vs) db = (Inr (), ?db)"
    by (simp add: writing_def update_user_def upd_state_def)
  have c: "(r, db') = (case cl_sandbox env ?aid (uname v) of Inl e \<Rightarrow> (Inl e, db)
      | Inr _ \<Rightarrow> (case cl_files env ?aid (uname v) of Inl e \<Rightarrow> (Inl e, db) | Inr _ \<Rightarrow> (Inr (), ?db)))"
    unfolding assms(3) [symmetric] using False w
    by (cases "cl_sandbox env ?aid (uname v)"; cases "cl_files env ?aid (uname v)")
      (simp_all add: clean_user_def Let_def sx_then_def sx_bind_of_res uname_def [symmetric])
  show ?thesis
  proof (cases "cl_sandbox env ?aid (uname v) = Inr () \<and> cl_files env ?aid (uname v) = Inr ()")
    case True
    then have "r = Inr ()" "db' = ?db" using c by simp_all
    moreover have "safe_values ?vs" by (intro safe_valuesI) (auto split: if_splits)
    then have "test_sound rid names ?db" by (rule upd_state_sound [OF s])
    moreover have "honest env rid before ?db"
      using assms(1) True by (auto simp: honest_def cleaning_def of_test_upd set_user_row_def destroyed_def Let_def jget_dupdate)
    moreover have "lu_name u \<in> uncleaned us" if "u \<in> set (of_test rid ?db)" "lu_state u \<noteq> ''cleaned''" for u
      using that assms(1) False by (auto simp: of_test_upd set_user_row_def cleaning_def uncleaned_def split: if_splits)
    moreover have "jget (lu_doc u) ''agent_id'' = jget w ''agent_id''"
      if "w \<in> set us" "u \<in> set (of_test rid ?db)" "lu_name u = uname w" for u w
      using that assms(1) by (auto simp: of_test_upd set_user_row_def cleaning_def jget_dupdate split: if_splits)
    ultimately show ?thesis by (simp add: cleaning_def)
  next
    case no: False
    then have "\<exists>e. r = Inl e \<and> db' = db"
      using c by (cases "cl_sandbox env ?aid (uname v)"; cases "cl_files env ?aid (uname v)") simp_all
    then show ?thesis by auto
  qed
qed

text \<open>An exception leaves the users cleaned so far.\<close>

definition partial :: "cleanup_env \<Rightarrow> string \<Rightarrow> string set \<Rightarrow> string set \<Rightarrow> ops_db \<Rightarrow> bool" where
  "partial env rid names before db \<longleftrightarrow> test_sound rid names db \<and> honest env rid before db"

lemma cleaning_partial: "cleaning env rid names before us db \<Longrightarrow> partial env rid names before db"
  by (simp add: cleaning_def partial_def)

lemma triple_clean_users:
  "(\<And>u. u \<in> set us \<Longrightarrow> uname u \<in> names) \<Longrightarrow> triple (cleaning env rid names before us) (sx_for (clean_user env) us)
     (\<lambda>_. cleaning env rid names before []) (\<lambda>_. partial env rid names before)"
proof (induction us)
  case (Cons u us)
  have "triple (cleaning env rid names before (u # us)) (clean_user env u) (\<lambda>_. cleaning env rid names before us) (\<lambda>_. partial env rid names before)"
  proof (rule tripleI)
    fix s x t
    assume "cleaning env rid names before (u # us) s" "clean_user env u s = (Inr x, t)"
    then show "cleaning env rid names before us t" using clean_user_step [of env rid names before u us s "Inr x" t] Cons.prems by simp
  next
    fix s e t
    assume "cleaning env rid names before (u # us) s" "clean_user env u s = (Inl e, t)"
    then show "partial env rid names before t"
      using clean_user_step [of env rid names before u us s "Inl e" t] Cons.prems cleaning_partial by auto
  qed
  moreover have "triple (cleaning env rid names before us) (sx_for (clean_user env) us) (\<lambda>_. cleaning env rid names before []) (\<lambda>_. partial env rid names before)"
    using Cons by simp
  ultimately show ?case unfolding sx_for.simps by (rule triple_then)
qed (simp add: triple_return)

lemma cleaning_starts:
  assumes "test_sound rid names db" and "honest env rid before db"
  shows "cleaning env rid names before (report_users rid db) db"
proof -
  have "lu_name u \<in> uncleaned (report_users rid db)" if u: "u \<in> set (of_test rid db)" and no: "lu_state u \<noteq> ''cleaned''" for u
  proof -
    have "user_view u \<in> set (report_users rid db)" using u by (simp add: report_users_def of_test_def)
    moreover have "jget (user_view u) ''storage_state'' \<noteq> JStr ''cleaned''" using no by (simp add: user_view_def jget_def dget_def)
    moreover have "uname (user_view u) = lu_name u"
      using u assms(1) by (auto simp: uname_def view_jget test_sound_def list_all_iff row_sound_def)
    ultimately show ?thesis by (auto simp: uncleaned_def intro!: rev_image_eqI)
  qed
  moreover have "jget (lu_doc u) ''agent_id'' = jget v ''agent_id''"
    if v: "v \<in> set (report_users rid db)" and u: "u \<in> set (of_test rid db)" and n: "lu_name u = uname v" for u v
  proof -
    obtain w where w: "w \<in> set (of_test rid db)" "v = user_view w" using v by (auto simp: report_users_def of_test_def)
    then have "lu_name w = lu_name u" using assms(1) n by (auto simp: uname_def view_jget test_sound_def list_all_iff row_sound_def)
    moreover have "unique_key lu_name (load_users db)" using assms(1) by (simp add: test_sound_def)
    ultimately have "w = u" using w(1) u by (auto simp: of_test_def unique_key_def distinct_map inj_on_def)
    then show ?thesis using w(2) by (simp add: view_jget)
  qed
  ultimately show ?thesis using assms by (simp add: cleaning_def)
qed

definition cleanup_done :: "string \<Rightarrow> ops_db \<Rightarrow> bool" where
  "cleanup_done rid db \<longleftrightarrow> (case find_row lt_id rid (load_rows db) of None \<Rightarrow> False | Some row \<Rightarrow>
     jget (lt_doc row) ''cleanup_status'' = JStr ''cleaned'' \<and> (\<forall>u \<in> set (of_test rid db). lu_state u = ''cleaned'')
     \<or> jget (lt_doc row) ''cleanup_status'' = JStr ''failed'')"

lemma cleanup_write:
  assumes "test_sound rid names db" and "honest env rid before db"
    and "dupdate [] vs = vs" and "jget vs ''cleanup_status'' = JStr ''failed''
      \<or> jget vs ''cleanup_status'' = JStr ''cleaned'' \<and> (\<forall>u \<in> set (of_test rid db). lu_state u = ''cleaned'')"
  shows "\<exists>t. writing (update_test rid None vs) db = (Inr (), t) \<and> cleanup_done rid t \<and> honest env rid before t"
proof -
  let ?t = "db\<lparr>load_rows := update_rows lt_id rid (set_load_row (None, vs)) (load_rows db)\<rparr>"
  obtain row where row: "find_row lt_id rid (load_rows db) = Some row" using assms(1) by (auto simp: test_sound_def)
  have "map_of (rev vs) ''cleanup_status'' = map_of vs ''cleanup_status''"
    using map_of_dupdate [of "[]" vs] assms(3) by (simp add: map_of_dupdate fun_eq_iff)
  then have "jget (lt_doc (set_load_row (None, vs) row)) ''cleanup_status'' = jget vs ''cleanup_status''"
    using assms(4) by (auto simp: set_load_row_def jget_dupdate) (auto simp: jget_def dget_def split: option.splits)
  moreover have "of_test rid ?t = of_test rid db" by (simp add: of_test_def)
  ultimately have "cleanup_done rid ?t" "honest env rid before ?t"
    using assms(2,4) by (auto simp: cleanup_done_def find_load_updated row honest_def)
  then show ?thesis using update_test_writes [OF assms(1)] by blast
qed

definition cleaned_names :: "string \<Rightarrow> ops_db \<Rightarrow> string set" where
  "cleaned_names rid db = lu_name ` set (filter (\<lambda>u. lu_state u = ''cleaned'') (of_test rid db))"

lemma honest_start: "honest env rid (cleaned_names rid db) db"
  by (auto simp: honest_def cleaned_names_def)

lemma triple_cleanup_body:
  "triple (partial env rid names before) (cleanup_body env rid)
     (\<lambda>_ t. cleanup_done rid t \<and> honest env rid before t) (\<lambda>_. partial env rid names before)"
  unfolding cleanup_body_def sx_then_def [of "sx_of_res (cl_begin env)"]
proof (rule triple_bind [where R = "\<lambda>_. partial env rid names before"], rule triple_of_res, assumption, assumption)
  let ?vs = "[(''cleanup_status'', JStr ''cleaned''), (''cleaned_at'', JFloat (cl_now env))]"
  have vs: "dupdate [] ?vs = ?vs" by (simp add: dupdate_def)
  let ?go = "\<lambda>report. sx_then (sx_for (clean_user env) (rp_users report)) (writing (update_test rid None ?vs))"
  have go: "triple (cleaning env rid names before us) (sx_then (sx_for (clean_user env) us) (writing (update_test rid None ?vs)))
      (\<lambda>_ t. cleanup_done rid t \<and> honest env rid before t) (\<lambda>_. partial env rid names before)"
    if "\<And>u. u \<in> set us \<Longrightarrow> uname u \<in> names" for us
  proof (rule triple_then [OF triple_clean_users [OF that]], assumption)
    show "triple (cleaning env rid names before []) (writing (update_test rid None ?vs))
      (\<lambda>_ t. cleanup_done rid t \<and> honest env rid before t) (\<lambda>_. partial env rid names before)"
    proof (rule triple_total)
      fix s
      assume c: "cleaning env rid names before [] s"
      have "\<exists>t. writing (update_test rid None ?vs) s = (Inr (), t) \<and> cleanup_done rid t \<and> honest env rid before t"
        by (rule cleanup_write [OF _ _ vs]) (use c in \<open>auto simp: cleaning_def uncleaned_def jget_def dget_def\<close>)
      then show "\<exists>x t. writing (update_test rid None ?vs) s = (x, t) \<and>
          (case x of Inl e \<Rightarrow> partial env rid names before t | Inr y \<Rightarrow> cleanup_done rid t \<and> honest env rid before t)" by auto
    qed
  qed
  show "triple (partial env rid names before) (sx_bind (sx_lift (get_test rid)) ?go)
      (\<lambda>_ t. cleanup_done rid t \<and> honest env rid before t) (\<lambda>_. partial env rid names before)"
  proof (rule triple_total)
    fix s
    assume "partial env rid names before s"
    then have s: "test_sound rid names s" "honest env rid before s" by (simp_all add: partial_def)
    from get_test_total [OF s(1)] obtain report where g: "get_test rid s = Inr report" "rp_users report = report_users rid s" by metis
    obtain x t where r: "?go report s = (x, t)" by (cases "?go report s")
    have "case x of Inl e \<Rightarrow> partial env rid names before t | Inr y \<Rightarrow> cleanup_done rid t \<and> honest env rid before t"
      using go [OF report_names [OF s(1)]] cleaning_starts [OF s] r g(2)
      by (cases x) (auto dest: tripleD_return tripleD_raise)
    then show "\<exists>x t. sx_bind (sx_lift (get_test rid)) ?go s = (x, t) \<and>
        (case x of Inl e \<Rightarrow> partial env rid names before t | Inr y \<Rightarrow> cleanup_done rid t \<and> honest env rid before t)"
      using r by (simp add: sx_bind_lift g(1))
  qed
qed

text \<open>C19: From a readable test, and whatever the sandbox manager and the file service answer, the cleanup returns and records
  its end: either every user of the test is cleaned, or it failed and can be asked for again; and a user is marked as cleaned only
  if it was before or both its sandbox and its files were destroyed.\<close>

theorem cleanup_settles:
  assumes "test_sound rid names db"
  shows "\<exists>db'. run_cleanup env rid db = (Inr (), db') \<and> cleanup_done rid db' \<and> honest env rid (cleaned_names rid db) db'"
proof -
  let ?before = "cleaned_names rid db"
  have p: "partial env rid names ?before db" using assms honest_start by (simp add: partial_def)
  obtain r t where b: "cleanup_body env rid db = (r, t)" by (cases "cleanup_body env rid db")
  show ?thesis
  proof (cases r)
    case (Inr x)
    then show ?thesis using tripleD_return [OF triple_cleanup_body p, of x t] b by (auto simp: run_cleanup_def sx_catch_def)
  next
    case (Inl e)
    let ?vs = "[(''cleanup_status'', JStr ''failed''), (''cleanup_error'', JStr (exc_class e))]"
    have "partial env rid names ?before t" using tripleD_raise [OF triple_cleanup_body p, of e t] b Inl by simp
    then have "\<exists>t'. writing (update_test rid None ?vs) t = (Inr (), t') \<and> cleanup_done rid t' \<and> honest env rid ?before t'"
      by (intro cleanup_write [where names = names]) (auto simp: partial_def dupdate_def jget_def dget_def)
    then show ?thesis using b Inl by (auto simp: run_cleanup_def sx_catch_def)
  qed
qed

definition demo_stubborn :: cleanup_env where
  "demo_stubborn = \<lparr>cl_begin = Inr (), cl_sandbox = (\<lambda>a u. Inr ()), cl_files = (\<lambda>a u. Inl (HTTPException 502 ''unavailable'')), cl_now = 9\<rparr>"

theorem cleanup_settles_witness:
  "\<exists>db'. run_cleanup demo_stubborn ''lt_t1'' demo_queued = (Inr (), db') \<and> cleanup_done ''lt_t1'' db' \<and> cleaned_names ''lt_t1'' db' = {}"
proof -
  from cleanup_settles [OF demo_queued_sound, of demo_stubborn] obtain db' where r: "run_cleanup demo_stubborn ''lt_t1'' demo_queued = (Inr (), db')"
    "cleanup_done ''lt_t1'' db'" "honest demo_stubborn ''lt_t1'' (cleaned_names ''lt_t1'' demo_queued) db'" by blast
  moreover have "cleaned_names ''lt_t1'' demo_queued = {}" by (simp add: cleaned_names_def of_test_def demo_queued_def)
  ultimately have "cleaned_names ''lt_t1'' db' = {}" by (auto simp: honest_def cleaned_names_def destroyed_def demo_stubborn_def Let_def)
  with r show ?thesis by blast
qed

section \<open>Starting and cancelling\<close>

lemma in_store_outcome: "in_store m s = (r, s') \<longleftrightarrow> (\<exists>db. m (ls_db s) = (r, db) \<and> s' = s\<lparr>ls_db := db\<rparr>)"
  by (auto simp: in_store_def split: prod.splits)

lemma spawn_runs: "spawn key s = (Inr x, s') \<Longrightarrow> map_of (ls_tasks s') key = Some False"
  by (auto simp: spawn_def sx_modify_def)

lemma start_created:
  assumes "start_test ready request data token now trace s = (Inr (rid, True), s')"
  shows "ready" and "active_tests (ls_db s) = []" and "map_of (ls_tasks s') rid = Some False"
proof -
  from assms show "ready" by (auto simp: start_test_def sx_raise_def split: if_splits)
  with assms obtain db' where c: "create_test request data token now (ls_db s) = Inr ((rid, True), db')"
    and t: "map_of (ls_tasks s') rid = Some False"
    by (auto simp: start_test_def sx_outcome_simps in_store_outcome dest: spawn_runs split: sum.splits if_splits)
  from c show "active_tests (ls_db s) = []" by (rule create_test_created(1))
  show "map_of (ls_tasks s') rid = Some False" by (rule t)
qed

text \<open>A load test is admitted only when no other is active and a sample of the capacity covers all its users; its run
  is then a background task of the service.\<close>

theorem admitted_within_capacity:
  assumes "admit_start ready request catalog sample token now trace s = (Inr (rid, True), s')"
  shows "active_tests (ls_db s) = [] \<and> map_of (ls_tasks s') rid = Some False
     \<and> (\<exists>doc snap t. sample = Inr (doc, snap, t) \<and> check_capacity t snap (map agent_demand (lr_agents request)) = Inr ())"
proof -
  from assms obtain data doc snap t u where c: "sample = Inr (doc, snap, t)" "check_capacity t snap (map agent_demand (lr_agents request)) = Inr ()"
    and st: "start_test ready request data token now trace s = (Inr (rid, True), u)" and up: "ls_tasks s' = ls_tasks u"
    by (auto simp: admit_start_def sx_outcome_simps in_store_outcome set_test_def split: option.splits prod.splits)
  from start_created [OF st] c up show ?thesis by simp
qed

lemma set_test_writes:
  "test_sound rid names (ls_db s) \<Longrightarrow> set_test rid st vs s
    = (Inr (), s\<lparr>ls_db := (ls_db s)\<lparr>load_rows := update_rows lt_id rid (set_load_row (st, vs)) (load_rows (ls_db s))\<rparr>\<rparr>)"
  by (simp add: set_test_def in_store_def update_test_writes)

text \<open>A cancellation of an active test ends it or stops its task.\<close>

theorem cancel_is_effective:
  assumes sound: "test_sound rid names (ls_db s)" and "find_row lt_id rid (load_rows (ls_db s)) = Some row"
    and "lt_status row \<in> set ACTIVE" and "\<not> truthy (jget (lt_doc row) ''cancel_requested'')"
  shows "\<exists>s'. cancel_test now rid s = (Inr (JStr ''cancelling''), s') \<and> (ended rid (ls_db s') \<or> rid \<in> set (ls_told s'))"
proof -
  from get_test_total [OF sound] assms(2) obtain report where g: "get_test rid (ls_db s) = Inr report"
    "rp_doc report = dput ''status'' (JStr (lt_status row)) (lt_doc row)" by (metis option.inject)
  have r: "report_of rid s = (Inr report, s)" by (simp add: report_of_def in_store_def sx_lift_def g(1))
  have st: "jget (rp_doc report) ''status'' \<in> JStr ` set ACTIVE" "\<not> truthy (jget (rp_doc report) ''cancel_requested'')"
    using assms(3,4) by (simp_all add: g(2) jget_def dget_def)
  let ?vs = "[(''cancel_requested'', JBool True)]"
  let ?s = "s\<lparr>ls_db := (ls_db s)\<lparr>load_rows := update_rows lt_id rid (set_load_row (Some ''cancelling'', ?vs)) (load_rows (ls_db s))\<rparr>\<rparr>"
  have first: "set_test rid (Some ''cancelling'') ?vs s = (Inr (), ?s)" by (rule set_test_writes [OF sound])
  have sound': "test_sound rid names (ls_db ?s)" using updated_sound [OF sound] by simp
  have c: "cancel_test now rid s = sx_then (case map_of (ls_tasks s) rid of
            Some False \<Rightarrow> sx_modify (\<lambda>s. s\<lparr>ls_told := ls_told s @ [rid]\<rparr>)
          | _ \<Rightarrow> set_test rid (Some ''cancelled'') [(''finished_at'', JFloat now)]) (sx_return (JStr ''cancelling'')) ?s"
    using st by (simp add: cancel_test_def sx_bind_def r sx_then_def first sx_get_def)
  show ?thesis
  proof (cases "map_of (ls_tasks s) rid = Some False")
    case True
    then show ?thesis by (simp add: c sx_then_def sx_bind_def sx_modify_def sx_return_def)
  next
    case False
    have "settled rid names ((ls_db ?s)\<lparr>load_rows := update_rows lt_id rid (set_load_row (Some ''cancelled'', [(''finished_at'', JFloat now)])) (load_rows (ls_db ?s))\<rparr>)"
      by (rule ended_updated [OF sound']) (simp add: ACTIVE_def)
    moreover have "(case map_of (ls_tasks s) rid of
            Some False \<Rightarrow> sx_modify (\<lambda>s. s\<lparr>ls_told := ls_told s @ [rid]\<rparr>)
          | _ \<Rightarrow> set_test rid (Some ''cancelled'') [(''finished_at'', JFloat now)])
        = set_test rid (Some ''cancelled'') [(''finished_at'', JFloat now)]"
      using False by (auto split: option.split bool.split)
    ultimately show ?thesis
      by (auto simp: c sx_then_def sx_bind_def set_test_writes [OF sound'] sx_return_def settled_def)
  qed
qed

text \<open>A new test is readable, so the run that is started for it settles.\<close>

lemma insert_users_unique:
  "insert_users rows db = Inr db' \<Longrightarrow> unique_key lu_name (load_users db) \<Longrightarrow> unique_key lu_name (load_users db')"
proof (induction rows arbitrary: db)
  case (Cons r rows)
  let ?d = "db\<lparr>load_users := load_users db @ [r]\<rparr>"
  have new: "find_row lu_name (lu_name r) (load_users db) = None" and rest: "insert_users rows ?d = Inr db'"
    using Cons.prems(1) by (auto simp: insert_users_def exc_simps split: if_splits)
  from Cons.prems(2) new have "unique_key lu_name (load_users ?d)" by (simp add: unique_key_insert)
  with Cons.IH rest show ?case by blast
qed (simp add: insert_users_def)

lemma user_row_sound: "row_sound (user_row rid a i) \<and> lu_run (user_row rid a i) = rid"
  by (simp add: user_row_def user_doc_def row_sound_def user_sound_def jget_def dget_def numeric_def)

lemma new_user_sound: "u \<in> set (new_users rid as i) \<Longrightarrow> row_sound u \<and> lu_run u = rid"
proof (induction as arbitrary: i)
  case (Cons a as)
  from Cons.prems consider k where "u = user_row rid a k" | "u \<in> set (new_users rid as (i + nat (la_users a)))" by auto
  then show ?case by cases (use user_row_sound Cons.IH in blast)+
qed simp

lemma created_sound:
  assumes c: "create_test request catalog token now db = Inr ((rid, True), db')"
    and "unique_key lu_name (load_users db)" and "of_test rid db = []"
  shows "\<exists>names. test_sound rid names db'"
proof -
  let ?new = "new_users rid (lr_agents request) 0"
  obtain snapshots where rows: "load_rows db' = load_rows db @ [new_load_row request rid snapshots now]"
    using create_test_created(5) [OF c] by blast
  have users: "load_users db' = load_users db @ ?new" by (rule create_test_created(6) [OF c])
  obtain s where ins: "insert_users ?new (db\<lparr>load_rows := load_rows db @ [new_load_row request rid s now]\<rparr>) = Inr db'"
    using create_test_cases [OF c] by blast
  have "unique_key lu_name (load_users db')" by (rule insert_users_unique [OF ins]) (simp add: assms(2))
  moreover have "of_test rid db' = ?new"
    using assms(3) new_user_sound [of _ rid "lr_agents request" 0] by (auto simp: of_test_def users filter_id_conv)
  moreover have "find_row lt_id rid (load_rows db') \<noteq> None" by (simp add: find_row_None rows new_load_row_def)
  ultimately show ?thesis using new_user_sound by (auto simp: test_sound_def list_all_iff)
qed

definition roomy :: capacity where
  "roomy = \<lparr>cy_known = True, cy_sampled_at = 1, cy_allowed = True, cy_reasons = [], cy_cpu_count = 8, cy_memory_mb = 16384,
     cy_cpu_usage = 5, cy_available_mb = 12000, cy_allocated_cpu = 0, cy_allocated_memory_mb = 0, cy_reserved_cpu = 1,
     cy_reserved_memory_mb = 1638, cy_remaining_cpu = 7, cy_remaining_memory_mb = 10000, cy_running_sandboxes = 0,
     cy_running_containers = 3, cy_unbounded_sandboxes = 0\<rparr>"

theorem admitted_within_capacity_witness:
  "\<exists>s'. admit_start True demo_request (Inr demo_catalog) (Inr (JNull, roomy, 2)) ''t1'' 5 JNull \<lparr>ls_db = empty_ops, ls_tasks = [], ls_told = []\<rparr>
       = (Inr (''lt_t1'', True), s') \<and> map_of (ls_tasks s') ''lt_t1'' = Some False"
proof -
  let ?s = "\<lparr>ls_db = empty_ops, ls_tasks = [], ls_told = []\<rparr>"
  obtain db where ok: "create_test demo_request demo_catalog ''t1'' 5 empty_ops = Inr ((''lt_t1'', True), db)"
    using demo_create [of empty_ops] by (auto simp: empty_ops_def)
  have "unique_key lu_name (load_users empty_ops)" "of_test ''lt_t1'' empty_ops = []" by (simp_all add: empty_ops_def of_test_def)
  from created_sound [OF ok this] obtain names where sound: "test_sound ''lt_t1'' names db" by blast
  have pre: "previous_test demo_request empty_ops = Inr None" by (simp add: previous_test_def empty_ops_def)
  have "\<exists>snaps. validate_agents demo_request demo_catalog = Inr snaps" by (simp add: create_test_defs)
  then obtain snaps where val: "validate_agents demo_request demo_catalog = Inr snaps" by blast
  have fits: "check_capacity 2 roomy (map agent_demand (lr_agents demo_request)) = Inr ()"
    by (simp add: check_capacity_def roomy_def demo_request_def agent_demand_def demand_cpu_def demand_memory_def raise_if_def)
  have trace: "\<exists>u. set_test ''lt_t1'' None vs s = (Inr (), u) \<and> test_sound ''lt_t1'' names (ls_db u)"
    if "test_sound ''lt_t1'' names (ls_db s)" for vs and s :: load_service
    using set_test_writes [OF that] updated_sound [OF that] by simp
  obtain u where u: "set_test ''lt_t1'' None [(''trace_context'', JNull)] (?s\<lparr>ls_db := db\<rparr>) = (Inr (), u)" "test_sound ''lt_t1'' names (ls_db u)"
    using trace [of "?s\<lparr>ls_db := db\<rparr>"] sound by auto
  let ?v = "u\<lparr>ls_tasks := (''lt_t1'', False) # filter (\<lambda>(k, _). k \<noteq> ''lt_t1'') (ls_tasks u)\<rparr>"
  have st: "start_test True demo_request demo_catalog ''t1'' 5 JNull ?s = (Inr (''lt_t1'', True), ?v)"
    using ok u(1) by (simp add: start_test_def sx_bind_def in_store_def sx_then_def spawn_def sx_modify_def sx_return_def)
  obtain w where w: "set_test ''lt_t1'' None [(''admission_capacity'', JNull)] ?v = (Inr (), w)"
    using trace [of ?v] u(2) by auto
  have "admit_start True demo_request (Inr demo_catalog) (Inr (JNull, roomy, 2)) ''t1'' 5 JNull ?s = (Inr (''lt_t1'', True), w)"
    unfolding admit_start_def
    using st w by (simp add: sx_bind_def in_store_def sx_lift_def pre val fits sx_of_res_def sx_then_def sx_return_def)
  with admitted_within_capacity [OF this] show ?thesis by blast
qed

end
