(* ===== verification/Spec2Isabelle.thy ===== *)
theory Spec2Isabelle
  imports SkillUpload ModelConfig Registry JobStore WorkspacePaths Compensation LoadTests OpsApi ServiceCalls Capacity Recovery
    HealthMonitor SandboxSnapshot RouterCalls CatalogCalls LoadControl
begin

text \<open>
  Verification library for the Opencode Cloud services (the Python code under \<open>src/\<close>).

  \<^bold>\<open>The program.\<close> A browser talks to \<open>api_gateway\<close>, which forwards to the services. \<open>catalog_service\<close>
  keeps Agents, models and skills and publishes immutable versions of Agent definitions.
  \<open>sandbox_manager\<close> runs one container per Agent and user, routes native OpenCode requests to it, and
  evicts idle ones. \<open>file_service\<close> serves the users' workspaces. \<open>operations\<close> runs everything that
  spans services (releases, archiving, deletion, sandbox commands, recovery, load tests) as durable jobs,
  and decides who may act while a job holds a target. \<open>shared_libs\<close> has what they share.

  \<^bold>\<open>Foundations.\<close> \<open>Prelude\<close> has the exceptions as values (\<open>exc\<close>), fallible steps (\<open>'a res\<close>, a sum), stateful
  steps (\<open>('s, 'a) sx\<close>, explicit state passing) and dictionaries in insertion order; \<open>StepLogic\<close> a small
  program logic for the steps (\<open>triple\<close>, \<open>keeps\<close>, \<open>try/except/finally\<close>); \<open>PyText\<close>, \<open>PyJson\<close> and \<open>Base64\<close> the
  parts of Python's standard library the services use; \<open>Tables\<close> the SQLite tables and \<open>Journal\<close> the tables of
  command receipts, each with a locale that the components interpret; \<open>FileSystem\<close> the host's files.

  \<^bold>\<open>Shared checks and configuration.\<close> \<open>WorkspacePaths\<close> (\<open>shared_libs/workspace_paths.py\<close>), \<open>Validation\<close>
  (\<open>shared_libs/validation.py\<close>, secrets), \<open>SkillUpload\<close> and \<open>ModelConfig\<close> (\<open>catalog_service/src/management.py\<close>),
  \<open>ModelRouting\<close> (\<open>shared_libs/model_routing.py\<close>): what an accepted name, path, archive, MCP server or model
  can be, and that saving a redacted copy of an accepted model or MCP server restores the secrets.

  \<^bold>\<open>Operations service.\<close> \<open>JobStore\<close> (\<open>operations/src/store.py\<close>) with its exclusivity invariant;
  \<open>Workflow\<close>, \<open>OpsCalls\<close> (\<open>Workflows\<close> of \<open>operations/main.py\<close>) with \<open>WorkflowSafety\<close>, \<open>WorkflowOrder\<close>,
  \<open>Compensation\<close> and the concrete runs of \<open>WorkflowDemo\<close>: a run settles its job unless the worker is
  stopped during a roll-back, lifts the block exactly when no recovery is needed, succeeds only in order and
  compensates only what is known. \<open>OpsApi\<close> has the
  endpoints, \<open>LoadTests\<close> the load test tables, \<open>Capacity\<close> the admission budget, \<open>Recovery\<close> the policy that
  turns observations into recovery jobs. \<open>LoadRunner\<close> is the run of a load test (\<open>operations/src/load_tests.py\<close>):
  \<open>RunnerSafety\<close> shows that each task changes only the row of its user, and that a run settles its test and all users
  however it ends; \<open>LoadControl\<close> has its start, cancellation and cleanup.

  \<^bold>\<open>File service.\<close> \<open>Workspaces\<close>, \<open>FileStore\<close> and \<open>FileCleanup\<close> (\<open>file_service/\<close>): uploads within their limits that
  either change one file or nothing, and removals that happen once and only under authorization;
  \<open>ServiceCalls\<close> joins them to the operations service.

  \<^bold>\<open>Sandbox manager.\<close> \<open>Registry\<close> (the routing tables); \<open>BundleCache\<close>, \<open>RemoteCatalog\<close> and \<open>AgentDefinitions\<close>
  (installed versions and what an accepted definition is); \<open>SandboxBackend\<close> (acquire and release of a
  container), \<open>SandboxSnapshot\<close> (the check of all containers at start-up), \<open>SandboxSessions\<close> (idleness,
  session directories), \<open>SandboxLifecycle\<close> and \<open>AgentLifecycle\<close> (commands on sandboxes and Agents),
  \<open>HealthMonitor\<close> (eviction). \<open>SessionRecorder\<close> and \<open>NativeRouter\<close> are the proxy in front of the native
  server: \<open>RouterSafety\<close> shows that the marks of open work (leases, acquisitions, subscriptions, the gauge of
  streams) are taken back on every path, \<open>RouterCalls\<close> that a call goes only to the sandbox and
  directory of its owner and that an answered session is recorded; \<open>RouterDemo\<close> has concrete requests.

  \<^bold>\<open>Catalog service.\<close> \<open>CatalogStore\<close> has the stored document and its operations: models, Agents, resources and
  templates (\<open>catalog_service/src/management.py\<close>, \<open>admin_api.py\<close>, \<open>agent_templates.py\<close>), prepared releases and their
  commit, the lifecycle of an Agent (\<open>catalog_service/main.py\<close>), the gateway's configuration and the admission of
  native requests (\<open>compiler.py\<close>). \<open>CatalogSafety\<close> and \<open>CatalogInvariants\<close> see every operation as an edit of the
  document and carry the invariants over edits and commits: references resolve, versions are numbered
  without gaps, what was published stays. \<open>CatalogCalls\<close> shows that the transactions are those edits or
  nothing, that a prepared release takes effect, what a native request is allowed, and a release that
  publishes a dangling reference.

  \<^bold>\<open>Conventions.\<close> Other services, Docker, the native server, clocks and libraries are parameters: functions
  or records of answers, with what they document as named predicates (\<open>docker_faithful\<close>, \<open>url_lib_ok\<close>). What
  other requests do at an await is a function on the state where a check is followed by an action on what it saw
  (\<open>HealthMonitor\<close>, \<open>AgentLifecycle\<close>); a query that only reads, as \<open>execution\<close> of
  \<open>SandboxSessions\<close>, reads one state. A loop that waits takes the list of its rounds,
  whose end is its deadline. Messages written in Chinese in the source are given in English.

  \<^bold>\<open>Bounds.\<close> Path resolution follows at most 40 links, as the kernel does (\<open>MAX_LINKS\<close>); \<open>fetch_records\<close> takes
  fuel, and \<open>fetch_records_returns\<close> shows that \<open>n + 1\<close> pages are enough when at most \<open>n\<close> records are reported; \<open>flush\<close>
  terminates by the number of entries waiting and still to arrive.

  \<^bold>\<open>Not modelled.\<close> The files of a compiled Agent and the packages that catalogs exchange (\<open>transfers\<close>);
  the gateways, observability, the administration front end, builds and deployment
  scripts, which are I/O and glue; logging and metrics throughout. Text is ASCII; floats of JSON are
  rationals.
\<close>

end
